(* ===== verification/Prelude.thy ===== *)
theory Prelude
  imports Main "HOL-Library.Word" "HOL-Library.Multiset" "HOL-Library.Sublist"
begin

section \<open>Prelude: the fragment of Go the Academy and company domains rest on\<close>

text \<open>
  The domain packages of the repository are plain Go: strings, slices, pointers, \<^verbatim>\<open>time.Time\<close>,
  \<^verbatim>\<open>time.Duration\<close>, \<^verbatim>\<open>int64\<close> counters and \<^verbatim>\<open>error\<close> values. This theory fixes how they are
  read in HOL and proves the facts every component uses.

  \<^item> A Go \<^verbatim>\<open>string\<close> is its sequence of bytes, a HOL \<open>string\<close>; identifiers are strings.
  \<^item> A pointer that is only read is an \<open>option\<close> (\<open>None\<close> is \<^verbatim>\<open>nil\<close>); an \<^verbatim>\<open>error\<close> result is an
    \<open>option\<close> of the component's error datatype (\<open>None\<close> is the nil error); a value-or-error
    result is a sum with the error on the left.
  \<^item> A method with a pointer receiver returns the receiver's new value next to its result, so
    that what it leaves behind when it fails is part of the model. Methods are modelled on a
    non-nil receiver; where the source tests the receiver for nil, a companion definition with
    the suffix \<open>_ptr\<close> adds that branch.
  \<^item> \<^verbatim>\<open>time.Time\<close> is the number of nanoseconds since the zero time, so \<^verbatim>\<open>IsZero\<close> is equality
    with 0 and \<^verbatim>\<open>UTC\<close>, which only changes the location a time is printed in, is the identity.
    \<^verbatim>\<open>time.Duration\<close> is an \<^verbatim>\<open>int64\<close> count of nanoseconds; \<^verbatim>\<open>Time.Sub\<close> saturates at its bounds.
\<close>

named_theorems go_defs \<comment> \<open>definitions a component unfolds routinely\<close>
named_theorems valid_iff \<comment> \<open>a validator returns no error exactly when \<dots>\<close>

subsection \<open>Identifiers, bytes, times and durations\<close>

type_synonym ID = string
type_synonym bytes = "8 word list"
type_synonym time = int
type_synonym duration = int

abbreviation (input) IsZero :: "time \<Rightarrow> bool" where
  "IsZero t \<equiv> t = 0"

abbreviation (input) Before :: "time \<Rightarrow> time \<Rightarrow> bool" where
  "Before a b \<equiv> a < b"

abbreviation (input) After :: "time \<Rightarrow> time \<Rightarrow> bool" where
  "After a b \<equiv> b < a"

definition UTC :: "time \<Rightarrow> time" where
  [simp]: "UTC t = t"

definition Hour :: duration where
  "Hour = 3600000000000"

definition Day :: duration where
  "Day = 24 * Hour"

definition Minute :: duration where
  "Minute = 60000000000"

lemma Day_pos [simp]: "0 < Day" "Day \<noteq> 0"
  by (simp_all add: Day_def Hour_def)

lemma Minute_pos [simp]: "0 < Minute"
  by (simp add: Minute_def)

definition max_int64 :: int where
  "max_int64 = 2 ^ 63 - 1"

definition min_int64 :: int where
  "min_int64 = - (2 ^ 63)"

text \<open>\<^verbatim>\<open>Time.Sub\<close>: the difference, clamped to the range of a duration.\<close>

definition Time_Sub :: "time \<Rightarrow> time \<Rightarrow> duration" where
  "Time_Sub a b = max min_int64 (min max_int64 (a - b))"

lemma Time_Sub_nonneg: "b \<le> a \<Longrightarrow> 0 \<le> Time_Sub a b"
  by (simp add: Time_Sub_def min_int64_def max_int64_def max_def min_def)

lemma Time_Sub_exact: "\<bar>a - b\<bar> \<le> max_int64 \<Longrightarrow> Time_Sub a b = a - b"
  by (auto simp: Time_Sub_def min_int64_def max_int64_def max_def min_def)

text \<open>\<^verbatim>\<open>int64\<close> addition wraps around in two's complement.\<close>

definition wrap64 :: "int \<Rightarrow> int" where
  "wrap64 x = (x + 2 ^ 63) mod 2 ^ 64 - 2 ^ 63"

definition in_int64 :: "int \<Rightarrow> bool" where
  "in_int64 x \<longleftrightarrow> min_int64 \<le> x \<and> x \<le> max_int64"

lemma wrap64_id [simp]: "in_int64 x \<Longrightarrow> wrap64 x = x"
  by (simp add: wrap64_def in_int64_def min_int64_def max_int64_def)

lemma wrap64_range: "in_int64 (wrap64 x)"
proof -
  have "0 \<le> (x + 2 ^ 63) mod 2 ^ 64" and "(x + 2 ^ 63) mod 2 ^ 64 < 2 ^ 64"
    by simp_all
  then show ?thesis
    by (simp add: wrap64_def in_int64_def min_int64_def max_int64_def)
qed

lemma wrap64_overflow:
  assumes "max_int64 < x" "x \<le> 2 * max_int64"
  shows "wrap64 x = x - 2 ^ 64"
proof -
  have "(x + 2 ^ 63) mod 2 ^ 64 = (x + 2 ^ 63 - 2 ^ 64) mod 2 ^ 64" by (rule minus_mod_self2[symmetric])
  also have "\<dots> = x + 2 ^ 63 - 2 ^ 64"
    using assms by (intro mod_pos_pos_trivial) (simp_all add: max_int64_def)
  finally show ?thesis by (simp add: wrap64_def)
qed

text \<open>The width is that of a 64-bit machine word read as a signed number.\<close>

lemma wrap64_eq_signed_word: "wrap64 x = sint (word_of_int x :: 64 word)"
proof -
  have "signed_take_bit 63 x = (x + 2 ^ 63) mod 2 ^ 64 - 2 ^ 63"
    by (simp add: signed_take_bit_eq_take_bit_shift take_bit_eq_mod)
  then show ?thesis
    by (simp add: wrap64_def sint_word_ariths signed_of_int Word.sint_sbintrunc)
qed

subsection \<open>strings.TrimSpace\<close>

text \<open>
  \<^verbatim>\<open>strings.TrimSpace\<close> removes leading and trailing Unicode white space from the UTF-8 text.
  On the bytes it strips, as long as it can, a prefix (then a suffix) that is the encoding of a
  white-space code point: the ASCII ones, U+0085, U+00A0, U+1680, U+2000 to U+200A, U+2028,
  U+2029, U+202F, U+205F and U+3000. The encodings are self-delimiting, so a byte suffix of
  that form is what \<^verbatim>\<open>DecodeLastRune\<close> reads.
\<close>

definition space_encodings :: "string list" where
  "space_encodings =
     [[CHR 0x09], [CHR 0x0A], [CHR 0x0B], [CHR 0x0C], [CHR 0x0D], [CHR 0x20],
      [CHR 0xC2, CHR 0x85], [CHR 0xC2, CHR 0xA0],
      [CHR 0xE1, CHR 0x9A, CHR 0x80],
      [CHR 0xE2, CHR 0x80, CHR 0x80], [CHR 0xE2, CHR 0x80, CHR 0x81],
      [CHR 0xE2, CHR 0x80, CHR 0x82], [CHR 0xE2, CHR 0x80, CHR 0x83],
      [CHR 0xE2, CHR 0x80, CHR 0x84], [CHR 0xE2, CHR 0x80, CHR 0x85],
      [CHR 0xE2, CHR 0x80, CHR 0x86], [CHR 0xE2, CHR 0x80, CHR 0x87],
      [CHR 0xE2, CHR 0x80, CHR 0x88], [CHR 0xE2, CHR 0x80, CHR 0x89],
      [CHR 0xE2, CHR 0x80, CHR 0x8A], [CHR 0xE2, CHR 0x80, CHR 0xA8],
      [CHR 0xE2, CHR 0x80, CHR 0xA9], [CHR 0xE2, CHR 0x80, CHR 0xAF],
      [CHR 0xE2, CHR 0x81, CHR 0x9F], [CHR 0xE3, CHR 0x80, CHR 0x80]]"

definition strip_one :: "string list \<Rightarrow> string \<Rightarrow> string option" where
  "strip_one ps s =
     (case List.find (\<lambda>p. take (length p) s = p) ps of
        None \<Rightarrow> None
      | Some p \<Rightarrow> Some (drop (length p) s))"

lemma strip_one_shorter:
  assumes "strip_one ps s = Some r" and "[] \<notin> set ps"
  shows "length r < length s"
proof -
  obtain p where p: "p \<in> set ps" "take (length p) s = p" "r = drop (length p) s"
    using assms(1) by (auto simp: strip_one_def find_Some_iff in_set_conv_nth split: option.splits)
  with assms(2) have "p \<noteq> []" by auto
  with p(2) have "length p \<le> length s" "0 < length p"
    by (metis length_take min.cobounded2 nat_le_linear take_all, simp)
  then have "length s - length p < length s" by arith
  with p(3) show ?thesis by simp
qed

function strip_prefixes :: "string list \<Rightarrow> string \<Rightarrow> string" where
  "strip_prefixes ps s =
     (if [] \<in> set ps then s
      else case strip_one ps s of None \<Rightarrow> s | Some r \<Rightarrow> strip_prefixes ps r)"
  by pat_completeness auto
termination
  by (relation "measure (\<lambda>(ps, s). length s)") (auto dest: strip_one_shorter)

declare strip_prefixes.simps [simp del]

definition TrimSpace :: "string \<Rightarrow> string" where
  "TrimSpace s =
     rev (strip_prefixes (map rev space_encodings)
            (rev (strip_prefixes space_encodings s)))"

lemma strip_prefixes_suffix: "suffix (strip_prefixes ps s) s"
proof (induction ps s rule: strip_prefixes.induct)
  case (1 ps s)
  have "suffix r s" if "strip_one ps s = Some r" for r
    using that by (auto simp: strip_one_def suffix_drop split: option.splits)
  with 1 show ?case
    by (subst strip_prefixes.simps) (auto split: option.splits intro: suffix_order.trans)
qed

lemma strip_prefixes_fixed:
  "[] \<notin> set ps \<Longrightarrow> strip_one ps (strip_prefixes ps s) = None"
proof (induction ps s rule: strip_prefixes.induct)
  case (1 ps s)
  then show ?case
    by (subst strip_prefixes.simps) (auto split: option.splits)
qed

lemma strip_prefixes_idem [simp]:
  "strip_prefixes ps (strip_prefixes ps s) = strip_prefixes ps s"
proof (cases "[] \<in> set ps")
  case True
  then show ?thesis by (simp add: strip_prefixes.simps)
next
  case False
  then show ?thesis
    by (subst strip_prefixes.simps) (simp add: strip_prefixes_fixed)
qed

lemma TrimSpace_infix: "\<exists>pre suf. s = pre @ TrimSpace s @ suf"
proof -
  obtain pre where pre: "s = pre @ strip_prefixes space_encodings s"
    using strip_prefixes_suffix[of space_encodings s] by (auto simp: suffix_def)
  let ?t = "strip_prefixes space_encodings s"
  obtain suf where "rev ?t = suf @ strip_prefixes (map rev space_encodings) (rev ?t)"
    using strip_prefixes_suffix[of "map rev space_encodings" "rev ?t"] by (auto simp: suffix_def)
  then have "?t = TrimSpace s @ rev suf"
    by (metis TrimSpace_def rev_append rev_rev_ident)
  with pre show ?thesis by (metis append.assoc)
qed

lemma length_TrimSpace: "length (TrimSpace s) \<le> length s"
  by (metis TrimSpace_infix length_append le_add1 le_add2 le_trans)

lemma strip_one_None: "strip_one ps s = None \<longleftrightarrow> (\<forall>p\<in>set ps. take (length p) s \<noteq> p)"
  by (auto simp: strip_one_def find_None_iff find_Some_iff split: option.splits)

lemma TrimSpace_idem [simp]: "TrimSpace (TrimSpace s) = TrimSpace s"
proof -
  let ?u = "strip_prefixes space_encodings s"
  let ?r = "strip_prefixes (map rev space_encodings) (rev ?u)"
  have ne: "[] \<notin> set space_encodings" "[] \<notin> set (map rev space_encodings)"
    by (simp_all add: space_encodings_def)
  have u: "strip_one space_encodings ?u = None" by (rule strip_prefixes_fixed[OF ne(1)])
  have "prefix (rev ?r) ?u"
    using strip_prefixes_suffix[of "map rev space_encodings" "rev ?u"] by (simp add: suffix_to_prefix)
  then obtain z where z: "?u = rev ?r @ z" by (rule prefixE)
  have "take (length p) (rev ?r) \<noteq> p" if "p \<in> set space_encodings" for p
  proof
    assume t: "take (length p) (rev ?r) = p"
    then have "length p \<le> length (rev ?r)" by (metis length_take min.cobounded1 min_def)
    then have "take (length p) (rev ?r @ z) = p" using t by simp
    with arg_cong[OF z, of "take (length p)"] have "take (length p) ?u = p" by metis
    with u that show False unfolding strip_one_None by blast
  qed
  then have "strip_one space_encodings (rev ?r) = None" by (simp add: strip_one_None)
  then have "strip_prefixes space_encodings (rev ?r) = rev ?r"
    by (subst strip_prefixes.simps) simp
  then show ?thesis by (simp add: TrimSpace_def)
qed

lemma TrimSpace_test: "TrimSpace '' a b '' = ''a b''"
  by code_simp

lemma TrimSpace_Nil [simp]: "TrimSpace [] = []"
  using length_TrimSpace[of "[]"] by simp

subsection \<open>Error sequencing and loops over slices\<close>

text \<open>\<^verbatim>\<open>if err := f(); err != nil { return err }\<close> followed by the rest of the body.\<close>

definition and_then :: "'e option \<Rightarrow> 'e option \<Rightarrow> 'e option" where
  "and_then a b = (case a of Some e \<Rightarrow> Some e | None \<Rightarrow> b)"

lemma and_then_simps [simp]:
  "and_then (Some e) b = Some e"
  "and_then None b = b"
  by (simp_all add: and_then_def)

lemma and_then_None [simp]: "and_then a b = None \<longleftrightarrow> a = None \<and> b = None"
  by (cases a) simp_all

text \<open>A loop that returns the first error of its body.\<close>

fun first_error :: "('a \<Rightarrow> 'e option) \<Rightarrow> 'a list \<Rightarrow> 'e option" where
  "first_error f [] = None"
| "first_error f (x # xs) = and_then (f x) (first_error f xs)"

lemma first_error_None [simp]: "first_error f xs = None \<longleftrightarrow> (\<forall>x\<in>set xs. f x = None)"
  by (induction xs) auto

lemma length_filter_full: "length (filter P xs) = length xs \<longleftrightarrow> (\<forall>x\<in>set xs. P x)"
proof (induction xs)
  case (Cons x xs)
  moreover have "length (filter P xs) \<noteq> Suc (length xs)" using length_filter_le[of P xs] by linarith
  ultimately show ?case by auto
qed simp

text \<open>A search loop over a slice: the first index that satisfies the test, or \<open>-1\<close>.\<close>

fun index_from :: "int \<Rightarrow> ('a \<Rightarrow> bool) \<Rightarrow> 'a list \<Rightarrow> int" where
  "index_from i P [] = -1"
| "index_from i P (x # xs) = (if P x then i else index_from (i + 1) P xs)"

definition go_index :: "('a \<Rightarrow> bool) \<Rightarrow> 'a list \<Rightarrow> int" where
  "go_index P xs = index_from 0 P xs"

lemma index_from_neg:
  "0 \<le> i \<Longrightarrow> index_from i P xs < 0 \<longleftrightarrow> (\<forall>x\<in>set xs. \<not> P x)"
  by (induction xs arbitrary: i) auto

lemma index_from_hit:
  "0 \<le> i \<Longrightarrow> 0 \<le> index_from i P xs \<Longrightarrow>
     \<exists>n < length xs. index_from i P xs = i + int n \<and> P (xs ! n) \<and> (\<forall>m < n. \<not> P (xs ! m))"
proof (induction xs arbitrary: i)
  case Nil
  then show ?case by simp
next
  case (Cons x xs)
  show ?case
  proof (cases "P x")
    case True
    then show ?thesis by (intro exI[of _ 0]) simp
  next
    case False
    with Cons obtain n where n: "n < length xs" "index_from (i + 1) P xs = i + 1 + int n"
      "P (xs ! n)" "\<forall>m<n. \<not> P (xs ! m)"
      by (metis add_increasing2 index_from.simps(2) zero_le_one)
    with False show ?thesis
      by (intro exI[of _ "Suc n"]) (auto simp: less_Suc_eq_0_disj)
  qed
qed

lemma go_index_neg [simp]: "go_index P xs < 0 \<longleftrightarrow> (\<forall>x\<in>set xs. \<not> P x)"
  by (simp add: go_index_def index_from_neg)

lemma go_index_hit:
  assumes "\<not> go_index P xs < 0"
  obtains n where "n < length xs" "go_index P xs = int n" "P (xs ! n)" "\<forall>m<n. \<not> P (xs ! m)"
  using assms index_from_hit[of 0 P xs] unfolding go_index_def by auto

lemma go_index_unique:
  assumes "n < length xs" "P (xs ! n)" "\<forall>m<n. \<not> P (xs ! m)"
  shows "go_index P xs = int n"
proof -
  from assms(1,2) have "\<not> go_index P xs < 0" by auto
  then obtain k where k: "go_index P xs = int k" "P (xs ! k)" "\<forall>m<k. \<not> P (xs ! m)"
    by (rule go_index_hit) blast
  with assms have "k = n" by (metis linorder_neqE_nat)
  with k show ?thesis by simp
qed

lemma find_nth_first:
  "List.find P xs = (if go_index P xs < 0 then None else Some (xs ! nat (go_index P xs)))"
proof (cases "go_index P xs < 0")
  case True
  then show ?thesis by (auto simp: find_None_iff)
next
  case False
  then obtain n where "n < length xs" "go_index P xs = int n" "P (xs ! n)" "\<forall>m<n. \<not> P (xs ! m)"
    by (rule go_index_hit)
  then show ?thesis by (auto simp: find_Some_iff)
qed

subsection \<open>Positions that fill a range\<close>

text \<open>
  The sources keep an order field on sections, lessons and tasks, and check or restore that
  the orders of \<open>n\<close> siblings are exactly \<open>0, \<dots>, n - 1\<close>.
\<close>

definition fills_range :: "int list \<Rightarrow> bool" where
  "fills_range os \<longleftrightarrow> distinct os \<and> set os = {0..<int (length os)}"

lemma fills_range_bounded:
  assumes "distinct os" "\<forall>x\<in>set os. 0 \<le> x \<and> x < int (length os)"
  shows "fills_range os"
proof -
  have "set os \<subseteq> {0..<int (length os)}" using assms(2) by auto
  moreover have "card (set os) = card {0..<int (length os)}"
    using assms(1) by (simp add: distinct_card)
  ultimately show ?thesis
    using assms(1) by (simp add: fills_range_def card_subset_eq)
qed

lemma fills_range_iff:
  "fills_range os \<longleftrightarrow> distinct os \<and> (\<forall>x\<in>set os. 0 \<le> x \<and> x < int (length os))"
proof
  assume "fills_range os"
  then show "distinct os \<and> (\<forall>x\<in>set os. 0 \<le> x \<and> x < int (length os))"
    unfolding fills_range_def by simp
next
  assume "distinct os \<and> (\<forall>x\<in>set os. 0 \<le> x \<and> x < int (length os))"
  then show "fills_range os" by (blast intro: fills_range_bounded)
qed

lemma fills_range_mset: "mset xs = mset ys \<Longrightarrow> fills_range xs = fills_range ys"
  unfolding fills_range_def by (metis mset_eq_setD mset_eq_length mset_eq_imp_distinct_iff)

subsection \<open>The contract of an aggregate\<close>

text \<open>
  Every aggregate of the Academy domain is a snapshot that a validator accepts, changed by
  commands. \<open>exec\<close> is what one command leaves of the state, whether it succeeded or failed.
\<close>

locale aggregate =
  fixes valid :: "'s \<Rightarrow> bool"
    and exec :: "'op \<Rightarrow> 's \<Rightarrow> 's"
  assumes exec_valid: "valid s \<Longrightarrow> valid (exec c s)"
begin

lemma run_valid: "valid s \<Longrightarrow> valid (fold exec cs s)"
  by (induction cs arbitrary: s) (auto intro: exec_valid)

end

text \<open>Commands keep the part of the state a reference elsewhere relies on.\<close>

locale pinned_aggregate = aggregate valid exec
  for valid :: "'s \<Rightarrow> bool" and exec :: "'op \<Rightarrow> 's \<Rightarrow> 's" +
  fixes pin :: "'s \<Rightarrow> 'k"
  assumes exec_pin: "valid s \<Longrightarrow> pin (exec c s) = pin s"
begin

lemma run_pin: "valid s \<Longrightarrow> pin (fold exec cs s) = pin s"
  by (induction cs arbitrary: s) (auto simp: exec_pin exec_valid)

end

text \<open>Some states are never left.\<close>

locale terminal_aggregate = aggregate valid exec
  for valid :: "'s \<Rightarrow> bool" and exec :: "'op \<Rightarrow> 's \<Rightarrow> 's" +
  fixes terminal :: "'s \<Rightarrow> bool"
  assumes exec_terminal: "valid s \<Longrightarrow> terminal s \<Longrightarrow> terminal (exec c s)"
begin

lemma run_terminal: "valid s \<Longrightarrow> terminal s \<Longrightarrow> terminal (fold exec cs s)"
  by (induction cs arbitrary: s) (auto intro: exec_terminal exec_valid)

end

text \<open>Nothing the state records is taken back: every command moves it up in a preorder.\<close>

locale growing_aggregate = aggregate valid exec
  for valid :: "'s \<Rightarrow> bool" and exec :: "'op \<Rightarrow> 's \<Rightarrow> 's" +
  fixes below :: "'s \<Rightarrow> 's \<Rightarrow> bool"
  assumes below_refl: "below s s"
    and below_trans: "below s t \<Longrightarrow> below t u \<Longrightarrow> below s u"
    and exec_below: "valid s \<Longrightarrow> below s (exec c s)"
begin

lemma run_below: "valid s \<Longrightarrow> below s (fold exec cs s)"
proof (induction cs arbitrary: s)
  case Nil
  show ?case by (simp add: below_refl)
next
  case (Cons c cs)
  then have "below (exec c s) (fold exec cs (exec c s))" by (blast intro: exec_valid)
  with exec_below[OF Cons.prems, of c] show ?case by (auto intro: below_trans)
qed

end

text \<open>The time of the last change never goes back.\<close>

locale clocked_aggregate = aggregate valid exec
  for valid :: "'s \<Rightarrow> bool" and exec :: "'op \<Rightarrow> 's \<Rightarrow> 's" +
  fixes updated :: "'s \<Rightarrow> time"
  assumes exec_clock: "valid s \<Longrightarrow> updated s \<le> updated (exec c s)"

sublocale clocked_aggregate \<subseteq> grows: growing_aggregate valid exec "\<lambda>s t. updated s \<le> updated t"
  by unfold_locales (auto simp: exec_clock)

end
