(* ===== verification/Course.thy ===== *)
theory Course
  imports Prelude
begin

section \<open>Course: ownership, lifecycle and effective state\<close>

text \<open>
  The package \<^verbatim>\<open>services/academy/internal/domain/course\<close>: the course root with its ownership and
  status invariants (\<^verbatim>\<open>course.go\<close>) and the plan of a lifecycle command with the effects on
  dependent aggregates (\<^verbatim>\<open>lifecycle.go\<close>). A Go string enumeration is a datatype with the
  constants of the source and one more constructor for every other string. The lemmas show that
  the commands realise the lifecycle diagram of \<^verbatim>\<open>docs/academy-state-diagrams.md\<close> and keep a
  course valid.
\<close>

datatype OwnerType = CourseOwnerCompany | CourseOwnerPartner | OwnerTypeOther string

datatype LifecycleStatus = CourseActive | CourseArchived | CourseDeleted
  | LifecycleStatusOther string

datatype DistributionStatus = DistributionActive | DistributionPaused | DistributionBlocked
  | DistributionStatusOther string

datatype EffectiveState = EffectiveActive | EffectivePaused | EffectiveArchived
  | EffectiveBlocked | EffectiveDeleted

datatype course_error = Course_ErrCompanyRequired | ErrUnknownOwnerType
  | ErrCompanyOwnerUserForbidden | ErrPartnerOwnerUserRequired | ErrUnknownLifecycleStatus
  | ErrUnknownDistributionStatus | ErrCourseAlreadyArchived | ErrCourseNotArchived
  | ErrCourseDeleted | ErrUnknownLifecycleTransition

record course =
  crs_ID :: ID
  crs_CompanyID :: ID
  crs_OwnerType :: OwnerType
  crs_OwnerUserID :: "ID option"
  crs_LifecycleStatus :: LifecycleStatus
  crs_DistributionStatus :: DistributionStatus

definition ValidateOwnership :: "OwnerType \<Rightarrow> ID option \<Rightarrow> course_error option" where
  "ValidateOwnership ownerType ownerUserID =
     (case ownerType of
        CourseOwnerCompany \<Rightarrow>
          if ownerUserID \<noteq> None then Some ErrCompanyOwnerUserForbidden else None
      | CourseOwnerPartner \<Rightarrow>
          if ownerUserID = None \<or> ownerUserID = Some '''' then Some ErrPartnerOwnerUserRequired
          else None
      | OwnerTypeOther _ \<Rightarrow> Some ErrUnknownOwnerType)"

definition Course_Validate :: "course \<Rightarrow> course_error option" where
  "Course_Validate c =
     (if crs_CompanyID c = '''' then Some Course_ErrCompanyRequired
      else and_then (ValidateOwnership (crs_OwnerType c) (crs_OwnerUserID c))
        (case crs_LifecycleStatus c of
           LifecycleStatusOther _ \<Rightarrow> Some ErrUnknownLifecycleStatus
         | _ \<Rightarrow>
           (case crs_DistributionStatus c of
              DistributionStatusOther _ \<Rightarrow> Some ErrUnknownDistributionStatus
            | _ \<Rightarrow> None)))"

definition Course_EffectiveState :: "course \<Rightarrow> course_error + EffectiveState" where
  "Course_EffectiveState c =
     (case Course_Validate c of
        Some err \<Rightarrow> Inl err
      | None \<Rightarrow>
          if crs_LifecycleStatus c = CourseDeleted then Inr EffectiveDeleted
          else if crs_DistributionStatus c = DistributionBlocked then Inr EffectiveBlocked
          else if crs_LifecycleStatus c = CourseArchived then Inr EffectiveArchived
          else if crs_DistributionStatus c = DistributionPaused then Inr EffectivePaused
          else Inr EffectiveActive)"

definition Course_Archive :: "course \<Rightarrow> course \<times> course_error option" where
  "Course_Archive c =
     (case Course_Validate c of
        Some err \<Rightarrow> (c, Some err)
      | None \<Rightarrow>
        (case crs_LifecycleStatus c of
           CourseDeleted \<Rightarrow> (c, Some ErrCourseDeleted)
         | CourseArchived \<Rightarrow> (c, Some ErrCourseAlreadyArchived)
         | CourseActive \<Rightarrow> (c\<lparr>crs_LifecycleStatus := CourseArchived\<rparr>, None)
         | LifecycleStatusOther _ \<Rightarrow> (c, Some ErrUnknownLifecycleStatus)))"

definition Course_Restore :: "course \<Rightarrow> course \<times> course_error option" where
  "Course_Restore c =
     (case Course_Validate c of
        Some err \<Rightarrow> (c, Some err)
      | None \<Rightarrow>
        (case crs_LifecycleStatus c of
           CourseDeleted \<Rightarrow> (c, Some ErrCourseDeleted)
         | CourseActive \<Rightarrow> (c, Some ErrCourseNotArchived)
         | CourseArchived \<Rightarrow> (c\<lparr>crs_LifecycleStatus := CourseActive\<rparr>, None)
         | LifecycleStatusOther _ \<Rightarrow> (c, Some ErrUnknownLifecycleStatus)))"

definition Course_Delete :: "course \<Rightarrow> course \<times> course_error option" where
  "Course_Delete c =
     (case Course_Validate c of
        Some err \<Rightarrow> (c, Some err)
      | None \<Rightarrow>
          if crs_LifecycleStatus c = CourseDeleted then (c, Some ErrCourseDeleted)
          else (c\<lparr>crs_LifecycleStatus := CourseDeleted\<rparr>, None))"

subsection \<open>Lifecycle commands and their effects\<close>

datatype LifecycleTransition = TransitionArchive | TransitionRestore | TransitionDelete
  | LifecycleTransitionOther string

record LifecycleEffects =
  DisableNewDistribution :: bool
  DisablePendingActivation :: bool
  FreezeUnfinishedExternal :: bool
  CloseLinksAndCampaigns :: bool
  CloseEnrollments :: bool
  HideIncompleteContent :: bool
  HideAllLearnerContent :: bool
  PreserveHistory :: bool
  ReactivateFrozenEnrollment :: bool

definition no_effects :: LifecycleEffects where
  "no_effects =
     \<lparr>DisableNewDistribution = False, DisablePendingActivation = False,
      FreezeUnfinishedExternal = False, CloseLinksAndCampaigns = False,
      CloseEnrollments = False, HideIncompleteContent = False, HideAllLearnerContent = False,
      PreserveHistory = False, ReactivateFrozenEnrollment = False\<rparr>"

definition PlanLifecycle ::
  "course \<Rightarrow> LifecycleTransition \<Rightarrow> course \<times> LifecycleEffects \<times> course_error option" where
  "PlanLifecycle root transition =
     (case transition of
        TransitionArchive \<Rightarrow>
          (case Course_Archive root of
             (_, Some err) \<Rightarrow> (root, no_effects, Some err)
           | (updated, None) \<Rightarrow>
               (updated, no_effects\<lparr>DisableNewDistribution := True, DisablePendingActivation := True,
                  FreezeUnfinishedExternal := True, HideIncompleteContent := True,
                  PreserveHistory := True\<rparr>, None))
      | TransitionRestore \<Rightarrow>
          (case Course_Restore root of
             (_, Some err) \<Rightarrow> (root, no_effects, Some err)
           | (updated, None) \<Rightarrow>
               (updated, no_effects\<lparr>PreserveHistory := True,
                  ReactivateFrozenEnrollment := False\<rparr>, None))
      | TransitionDelete \<Rightarrow>
          (case Course_Delete root of
             (_, Some err) \<Rightarrow> (root, no_effects, Some err)
           | (updated, None) \<Rightarrow>
               (updated, no_effects\<lparr>DisableNewDistribution := True, DisablePendingActivation := True,
                  CloseLinksAndCampaigns := True, CloseEnrollments := True,
                  HideAllLearnerContent := True, PreserveHistory := True\<rparr>, None))
      | LifecycleTransitionOther _ \<Rightarrow> (root, no_effects, Some ErrUnknownLifecycleTransition))"

subsection \<open>Validity and the lifecycle diagram\<close>

definition course_valid :: "course \<Rightarrow> bool" where
  "course_valid c \<longleftrightarrow> Course_Validate c = None"

definition exec_lifecycle :: "LifecycleTransition \<Rightarrow> course \<Rightarrow> course" where
  "exec_lifecycle t c = fst (PlanLifecycle c t)"

text \<open>The effects that belong to a course that becomes active, archived or deleted.\<close>

definition effects_match :: "LifecycleStatus \<Rightarrow> LifecycleEffects \<Rightarrow> bool" where
  "effects_match s eff \<longleftrightarrow>
     PreserveHistory eff \<and> \<not> ReactivateFrozenEnrollment eff \<and>
     (DisableNewDistribution eff \<longleftrightarrow> s \<noteq> CourseActive) \<and>
     (DisablePendingActivation eff \<longleftrightarrow> s \<noteq> CourseActive) \<and>
     (FreezeUnfinishedExternal eff \<longleftrightarrow> s = CourseArchived) \<and>
     (HideIncompleteContent eff \<longleftrightarrow> s = CourseArchived) \<and>
     (CloseLinksAndCampaigns eff \<longleftrightarrow> s = CourseDeleted) \<and>
     (CloseEnrollments eff \<longleftrightarrow> s = CourseDeleted) \<and>
     (HideAllLearnerContent eff \<longleftrightarrow> s = CourseDeleted)"

text \<open>The lifecycle of the course as \<^verbatim>\<open>docs/academy-state-diagrams.md\<close> draws it.\<close>

inductive lifecycle_diagram :: "LifecycleStatus \<Rightarrow> LifecycleTransition \<Rightarrow> LifecycleStatus \<Rightarrow> bool"
where
  archive: "lifecycle_diagram CourseActive TransitionArchive CourseArchived"
| restore: "lifecycle_diagram CourseArchived TransitionRestore CourseActive"
| delete_active: "lifecycle_diagram CourseActive TransitionDelete CourseDeleted"
| delete_archived: "lifecycle_diagram CourseArchived TransitionDelete CourseDeleted"

inductive_simps diagram_simps [simp]:
  "lifecycle_diagram CourseActive t s" "lifecycle_diagram CourseArchived t s"
  "lifecycle_diagram CourseDeleted t s" "lifecycle_diagram (LifecycleStatusOther x) t s"

lemma lifecycle_diagram_target:
  "lifecycle_diagram a t b \<Longrightarrow> b = CourseActive \<or> b = CourseArchived \<or> b = CourseDeleted"
  by (erule lifecycle_diagram.cases) simp_all

lemmas course_plan_defs = PlanLifecycle_def Course_Archive_def Course_Restore_def
  Course_Delete_def

lemma course_valid_iff [valid_iff]:
  "course_valid c \<longleftrightarrow>
     crs_CompanyID c \<noteq> '''' \<and>
     (crs_OwnerType c = CourseOwnerCompany \<and> crs_OwnerUserID c = None \<or>
      crs_OwnerType c = CourseOwnerPartner \<and> (\<exists>u. crs_OwnerUserID c = Some u \<and> u \<noteq> '''')) \<and>
     crs_LifecycleStatus c \<in> {CourseActive, CourseArchived, CourseDeleted} \<and>
     crs_DistributionStatus c \<in> {DistributionActive, DistributionPaused, DistributionBlocked}"
  by (auto simp: course_valid_def Course_Validate_def ValidateOwnership_def
      split: OwnerType.splits LifecycleStatus.splits DistributionStatus.splits)

lemma PlanLifecycle_cases:
  assumes "course_valid c"
  shows "PlanLifecycle c t = (c', eff, None) \<Longrightarrow>
     \<exists>s. lifecycle_diagram (crs_LifecycleStatus c) t s \<and> c' = c\<lparr>crs_LifecycleStatus := s\<rparr>"
    and "PlanLifecycle c t = (c', eff, Some err) \<Longrightarrow>
     c' = c \<and> (\<nexists>s. lifecycle_diagram (crs_LifecycleStatus c) t s)"
proof -
  from assms have v: "Course_Validate c = None" by (simp add: course_valid_def)
  from assms have st: "crs_LifecycleStatus c \<in> {CourseActive, CourseArchived, CourseDeleted}"
    by (simp add: course_valid_iff)
  show "PlanLifecycle c t = (c', eff, None) \<Longrightarrow>
     \<exists>s. lifecycle_diagram (crs_LifecycleStatus c) t s \<and> c' = c\<lparr>crs_LifecycleStatus := s\<rparr>"
    using v st by (cases t) (auto simp: course_plan_defs)
  show "PlanLifecycle c t = (c', eff, Some err) \<Longrightarrow>
     c' = c \<and> (\<nexists>s. lifecycle_diagram (crs_LifecycleStatus c) t s)"
    using v st by (cases t) (auto simp: course_plan_defs)
qed

lemma exec_lifecycle_step:
  assumes "course_valid c"
  shows "exec_lifecycle t c = c \<or>
    (\<exists>s. lifecycle_diagram (crs_LifecycleStatus c) t s \<and>
         exec_lifecycle t c = c\<lparr>crs_LifecycleStatus := s\<rparr>)"
proof -
  obtain c' eff err where p: "PlanLifecycle c t = (c', eff, err)" by (cases "PlanLifecycle c t")
  show ?thesis
    using PlanLifecycle_cases[OF assms] p by (cases err) (auto simp: exec_lifecycle_def)
qed

interpretation course_agg: aggregate course_valid exec_lifecycle
proof
  fix s c
  assume "course_valid s"
  then show "course_valid (exec_lifecycle c s)"
    using exec_lifecycle_step[of s c] by (auto simp: course_valid_iff dest: lifecycle_diagram_target)
qed

interpretation course_pin: pinned_aggregate course_valid exec_lifecycle
  "\<lambda>c. (crs_ID c, crs_CompanyID c, crs_OwnerType c, crs_OwnerUserID c, crs_DistributionStatus c)"
proof
  fix s c
  assume "course_valid s"
  from exec_lifecycle_step[OF this, of c]
  show "(crs_ID (exec_lifecycle c s), crs_CompanyID (exec_lifecycle c s),
      crs_OwnerType (exec_lifecycle c s), crs_OwnerUserID (exec_lifecycle c s),
      crs_DistributionStatus (exec_lifecycle c s)) =
    (crs_ID s, crs_CompanyID s, crs_OwnerType s, crs_OwnerUserID s, crs_DistributionStatus s)"
    by auto
qed

interpretation course_term: terminal_aggregate course_valid exec_lifecycle
  "\<lambda>c. crs_LifecycleStatus c = CourseDeleted"
  by unfold_locales (use exec_lifecycle_step in fastforce)

subsection \<open>Properties\<close>

text \<open>A lifecycle command on a valid course succeeds exactly when the documented lifecycle
  diagram has an edge for it, and then it moves the course along that edge and changes nothing
  else; a refused command returns the course as it was and plans no effect. The planned effects
  follow the target: history is always preserved and no enrollment is reactivated, new
  distribution stops unless the course becomes active, unfinished external runs are frozen when it
  is archived, and links, campaigns and enrollments are closed when it is deleted.\<close>

theorem PlanLifecycle_refines_diagram:
  assumes "course_valid root"
  shows "(\<exists>eff s. lifecycle_diagram (crs_LifecycleStatus root) t s \<and>
            PlanLifecycle root t = (root\<lparr>crs_LifecycleStatus := s\<rparr>, eff, None) \<and>
            effects_match s eff) \<or>
         (\<exists>err. (\<nexists>s. lifecycle_diagram (crs_LifecycleStatus root) t s) \<and>
            PlanLifecycle root t = (root, no_effects, Some err))"
proof -
  obtain c' eff err where p: "PlanLifecycle root t = (c', eff, err)" by (cases "PlanLifecycle root t")
  show ?thesis
  proof (cases err)
    case None
    then obtain s where s: "lifecycle_diagram (crs_LifecycleStatus root) t s"
      "c' = root\<lparr>crs_LifecycleStatus := s\<rparr>"
      using PlanLifecycle_cases(1)[OF assms, of t c' eff] p by auto
    then have "effects_match s eff"
      using p None by (cases rule: lifecycle_diagram.cases)
        (auto simp: course_plan_defs effects_match_def no_effects_def split: option.splits if_splits)
    with s p None show ?thesis by auto
  next
    case (Some e)
    then have "eff = no_effects"
      using p by (auto simp: course_plan_defs split: LifecycleTransition.splits option.splits
          LifecycleStatus.splits if_splits)
    then show ?thesis using Some PlanLifecycle_cases(2)[OF assms, of t c' eff e] p by auto
  qed
qed

definition example_course :: course where
  "example_course = \<lparr>crs_ID = ''course'', crs_CompanyID = ''company'',
     crs_OwnerType = CourseOwnerPartner, crs_OwnerUserID = Some ''partner'',
     crs_LifecycleStatus = CourseActive, crs_DistributionStatus = DistributionActive\<rparr>"

lemma example_course_valid [simp]: "course_valid example_course"
  by (simp add: course_valid_iff example_course_def)

theorem PlanLifecycle_refines_diagram_witness:
  "course_valid example_course \<and>
   ((\<exists>eff s. lifecycle_diagram (crs_LifecycleStatus example_course) TransitionArchive s \<and>
       PlanLifecycle example_course TransitionArchive =
         (example_course\<lparr>crs_LifecycleStatus := s\<rparr>, eff, None) \<and> effects_match s eff) \<or>
    (\<exists>err. (\<nexists>s. lifecycle_diagram (crs_LifecycleStatus example_course) TransitionArchive s) \<and>
       PlanLifecycle example_course TransitionArchive = (example_course, no_effects, Some err)))"
  using PlanLifecycle_refines_diagram[OF example_course_valid, of TransitionArchive] by simp

text \<open>Deletion is irreversible: whatever lifecycle commands follow, a deleted course stays
  deleted with its identity, owner and distribution status, and every further command is refused.\<close>

theorem deleted_course_is_final:
  assumes "course_valid c" "crs_LifecycleStatus c = CourseDeleted"
  shows "fold exec_lifecycle ts c = c \<and> (\<forall>t. snd (snd (PlanLifecycle c t)) \<noteq> None)"
proof
  have "exec_lifecycle t c = c" for t
    using exec_lifecycle_step[OF assms(1), of t] assms(2) by auto
  then show "fold exec_lifecycle ts c = c" by (induction ts) simp_all
  show "\<forall>t. snd (snd (PlanLifecycle c t)) \<noteq> None"
    using assms by (auto simp: course_plan_defs course_valid_def split: LifecycleTransition.splits)
qed

theorem deleted_course_is_final_witness:
  "let c = example_course\<lparr>crs_LifecycleStatus := CourseDeleted\<rparr> in
   fold exec_lifecycle [TransitionRestore, TransitionArchive] c = c \<and>
   (\<forall>t. snd (snd (PlanLifecycle c t)) \<noteq> None)"
  using deleted_course_is_final[of "example_course\<lparr>crs_LifecycleStatus := CourseDeleted\<rparr>"
      "[TransitionRestore, TransitionArchive]"]
  by (simp add: course_valid_iff example_course_def)

end
