(* ===== verification/Enrollment_Model.thy ===== *)
theory Enrollment_Model
  imports Prelude
begin

section \<open>Enrollment: one course run of one learner\<close>

text \<open>
  The package \<^verbatim>\<open>services/academy/internal/domain/enrollment\<close>: the snapshot, its validation and
  the access transitions (\<^verbatim>\<open>enrollment.go\<close>), the lesson progress (\<^verbatim>\<open>progress.go\<close>) and the quiz
  attempts (\<^verbatim>\<open>quiz.go\<close>). The aggregate \<^verbatim>\<open>Enrollment\<close> only wraps its \<^verbatim>\<open>Snapshot\<close>, so both are the
  record \<open>enrollment\<close>. Maps used as sets are the lists of the keys put into them; \<^verbatim>\<open>int\<close> fields
  that are only compared and counted are integers, the accumulated \<^verbatim>\<open>ActiveSeconds\<close> wraps at 64
  bits as in the source. This theory holds the definitions only.
\<close>

datatype LearnerType = LearnerUser | LearnerExternal | LearnerTypeOther string

datatype SourceType = SourceAssignment | SourcePersonalAccess | SourcePartnerPromoCampaign
  | SourceCompanyCandidateCampaign | SourceRepeatTraining | SourceLegacy | SourceSelfEnrollment
  | SourceTypeOther string

datatype ProgressStatus = ProgressNotStarted | ProgressInProgress | ProgressCompleted
  | ProgressStatusOther string

datatype AccessStatus = AccessInvited | AccessReady | AccessActive | AccessExpired | AccessFrozen
  | AccessSuspended | AccessRevoked | AccessClosed | AccessStatusOther string

datatype LearnerState = StatePending | StateActive | StateCompleted | StateExpired | StateFrozen
  | StateSuspended | StateRevoked | StateClosed

datatype progress_error = ErrLessonOutlineRequired | ErrLessonIDRequired | ErrDuplicateLessonID
  | ErrDuplicateQuizID | ErrUnknownLesson | ErrUnknownLessonStatus | ErrDuplicateLessonProgress
  | ErrLessonProgressLocked | ErrLessonAlreadyCompleted | ErrQuizRequired | ErrLessonHasNoQuiz
  | ErrContentUnavailable | ErrFutureContentUnavailable | ErrProgressTimeRequired
  | ErrActiveSecondsInvalid | ErrProgressStatusMismatch | ErrCurrentLessonConflict
  | ErrSequentialProgressInvalid | ErrCompletedAtRequired | ErrCompletedAtForbidden
  | ErrEnrollmentAlreadyCompleted

datatype quiz_error = ErrQuizAttemptIDRequired | ErrQuizIDRequired | ErrQuizMismatch
  | ErrQuizAttemptDuplicate | ErrQuizAttemptLimit | ErrQuizPendingReview | ErrMaxAttemptsInvalid
  | ErrScoreInvalid | ErrPassingScoreInvalid | ErrAttemptTimeRequired | ErrAttemptNumberInvalid
  | ErrAttemptDecision | ErrAttemptNotFound | ErrAttemptNotPending | ErrReviewerRequired

datatype enrollment_error = ErrEnrollmentIDRequired | ErrCompanyRequired | ErrCourseRequired
  | ErrCourseVersionRequired | ErrCourseVersionMismatch | ErrUnknownLearnerType
  | ErrLearnerIdentityRequired | ErrLearnerIdentityConflict | ErrUnknownSourceType
  | ErrEnrollmentAttemptInvalid | ErrUnknownProgressStatus | ErrUnknownAccessStatus
  | ErrCreatedAtRequired | ErrExternalDeadlineRequired | ErrInternalDeadlineForbidden
  | ErrInvalidDeadline | ErrActivationTimeRequired | ErrActivationDurationInvalid
  | ErrEnrollmentNotReady | ErrEnrollmentNotSuspended | ErrEnrollmentNotFrozen
  | ErrTransitionTimeInvalid | ErrReactivationDeadline | ErrEnrollmentRevoked
  | ErrEnrollmentClosed | ErrExternalEnrollmentRequired | ErrEnrollmentCannotExtend
  | ProgressErr progress_error | QuizErr quiz_error

subsection \<open>The snapshot\<close>

datatype LessonStatus = LessonAvailable | LessonCurrent | LessonCompleted
  | LessonStatusOther string

record LessonSpec =
  ls_ID :: ID
  ls_QuizID :: "ID option"
  ls_Optional :: bool

record LessonProgress =
  lp_LessonVersionID :: ID
  lp_Status :: LessonStatus
  lp_FirstOpenedAt :: "time option"
  lp_CompletedAt :: "time option"
  lp_ActiveSeconds :: int
  lp_LastPosition :: "string option"

record QuizAttempt =
  qa_ID :: ID
  qa_QuizVersionID :: ID
  qa_LessonID :: ID
  qa_Number :: int
  qa_Score :: int
  qa_Passed :: bool
  qa_PendingReview :: bool
  qa_CreatedAt :: time

record enrollment =
  en_ID :: ID
  en_CompanyID :: ID
  en_CourseID :: ID
  en_CourseVersionID :: ID
  en_LearnerType :: LearnerType
  en_UserID :: "ID option"
  en_ExternalID :: "ID option"
  en_SourceType :: SourceType
  en_SourceID :: "ID option"
  en_AttemptNumber :: int
  en_ProgressStatus :: ProgressStatus
  en_AccessStatus :: AccessStatus
  en_PreviousAccess :: "AccessStatus option"
  en_Sequential :: bool
  en_Lessons :: "LessonSpec list"
  en_LessonProgress :: "LessonProgress list"
  en_QuizAttempts :: "QuizAttempt list"
  en_ActivatedAt :: "time option"
  en_AccessUntil :: "time option"
  en_StartedAt :: "time option"
  en_CompletedAt :: "time option"
  en_LastActivityAt :: "time option"
  en_FrozenAt :: "time option"
  en_SuspendedAt :: "time option"
  en_CreatedAt :: time

record enrollment_params =
  ep_ID :: ID
  ep_CompanyID :: ID
  ep_CourseID :: ID
  ep_CourseVersionID :: ID
  ep_LearnerType :: LearnerType
  ep_UserID :: "ID option"
  ep_ExternalID :: "ID option"
  ep_SourceType :: SourceType
  ep_SourceID :: "ID option"
  ep_AttemptNumber :: int
  ep_AccessStatus :: AccessStatus
  ep_Sequential :: bool
  ep_Lessons :: "LessonSpec list"
  ep_CreatedAt :: time

record Activation =
  act_At :: time
  act_Duration :: duration

subsection \<open>Lookups in the outline and the progress rows\<close>

definition lessonByID :: "LessonSpec list \<Rightarrow> ID \<Rightarrow> LessonSpec option" where
  "lessonByID lessons lessonID = List.find (\<lambda>lesson. ls_ID lesson = lessonID) lessons"

definition hasLesson :: "LessonSpec list \<Rightarrow> ID \<Rightarrow> bool" where
  "hasLesson lessons lessonID \<longleftrightarrow> lessonByID lessons lessonID \<noteq> None"

definition lessonIndex :: "LessonSpec list \<Rightarrow> ID \<Rightarrow> int" where
  "lessonIndex lessons lessonID = go_index (\<lambda>lesson. ls_ID lesson = lessonID) lessons"

definition progressIndex :: "LessonProgress list \<Rightarrow> ID \<Rightarrow> int" where
  "progressIndex progress lessonID = go_index (\<lambda>p. lp_LessonVersionID p = lessonID) progress"

definition progressByLesson :: "LessonProgress list \<Rightarrow> ID \<Rightarrow> LessonProgress option" where
  "progressByLesson progress lessonID =
     (let index = progressIndex progress lessonID
      in if index < 0 then None else Some (progress ! nat index))"

definition currentProgressIndex :: "LessonProgress list \<Rightarrow> int" where
  "currentProgressIndex progress = go_index (\<lambda>p. lp_Status p = LessonCurrent) progress"

definition attemptsForQuiz :: "QuizAttempt list \<Rightarrow> ID \<Rightarrow> int" where
  "attemptsForQuiz attempts quizID =
     int (length (filter (\<lambda>a. qa_QuizVersionID a = quizID) attempts))"

definition attemptIndex :: "QuizAttempt list \<Rightarrow> ID \<Rightarrow> int" where
  "attemptIndex attempts attemptID = go_index (\<lambda>a. qa_ID a = attemptID) attempts"

definition requiredLessonsComplete :: "enrollment \<Rightarrow> bool" where
  "requiredLessonsComplete s \<longleftrightarrow>
     list_all (\<lambda>lesson. ls_Optional lesson \<or>
        (case progressByLesson (en_LessonProgress s) (ls_ID lesson) of
           None \<Rightarrow> False
         | Some p \<Rightarrow> lp_Status p = LessonCompleted)) (en_Lessons s)"

subsection \<open>Validation\<close>

definition validSource :: "SourceType \<Rightarrow> bool" where
  "validSource v = (case v of SourceTypeOther _ \<Rightarrow> False | _ \<Rightarrow> True)"

definition validProgress :: "ProgressStatus \<Rightarrow> bool" where
  "validProgress v \<longleftrightarrow> v = ProgressNotStarted \<or> v = ProgressInProgress \<or> v = ProgressCompleted"

definition validAccess :: "AccessStatus \<Rightarrow> bool" where
  "validAccess v = (case v of AccessStatusOther _ \<Rightarrow> False | _ \<Rightarrow> True)"

definition accessError :: "AccessStatus \<Rightarrow> enrollment_error \<Rightarrow> enrollment_error" where
  "accessError status fallback =
     (case status of
        AccessRevoked \<Rightarrow> ErrEnrollmentRevoked
      | AccessClosed \<Rightarrow> ErrEnrollmentClosed
      | _ \<Rightarrow> fallback)"

definition validateIdentity :: "enrollment \<Rightarrow> enrollment_error option" where
  "validateIdentity s =
     (case en_LearnerType s of
        LearnerUser \<Rightarrow>
          if en_UserID s = None \<or> en_UserID s = Some '''' then Some ErrLearnerIdentityRequired
          else if en_ExternalID s \<noteq> None then Some ErrLearnerIdentityConflict
          else None
      | LearnerExternal \<Rightarrow>
          if en_ExternalID s = None \<or> en_ExternalID s = Some '''' then Some ErrLearnerIdentityRequired
          else if en_UserID s \<noteq> None then Some ErrLearnerIdentityConflict
          else None
      | LearnerTypeOther _ \<Rightarrow> Some ErrUnknownLearnerType)"

text \<open>The first loop of \<^verbatim>\<open>validateOutlineAndProgress\<close>: the sets of lesson and quiz ids seen.\<close>

fun validateOutline :: "ID list \<Rightarrow> ID list \<Rightarrow> LessonSpec list \<Rightarrow> progress_error option" where
  "validateOutline lessons quizzes [] = None"
| "validateOutline lessons quizzes (lesson # rest) =
     (if ls_ID lesson = '''' then Some ErrLessonIDRequired
      else if ls_ID lesson \<in> set lessons then Some ErrDuplicateLessonID
      else case ls_QuizID lesson of
             None \<Rightarrow> validateOutline (ls_ID lesson # lessons) quizzes rest
           | Some q \<Rightarrow>
               if q = '''' then Some ErrLessonHasNoQuiz
               else if q \<in> set quizzes then Some ErrDuplicateQuizID
               else validateOutline (ls_ID lesson # lessons) (q # quizzes) rest)"

text \<open>The second loop: the progress lessons seen, the number of current lessons, and the
  outline index of the previous row; the result is the number of current lessons.
  \<open>rowStatusError\<close> is its switch over the status of a row.\<close>

definition rowStatusError :: "LessonProgress \<Rightarrow> progress_error option" where
  "rowStatusError p =
     (case lp_Status p of
        LessonAvailable \<Rightarrow> if lp_CompletedAt p \<noteq> None then Some ErrCompletedAtForbidden else None
      | LessonCurrent \<Rightarrow> if lp_CompletedAt p \<noteq> None then Some ErrCompletedAtForbidden else None
      | LessonCompleted \<Rightarrow> if lp_CompletedAt p = None then Some ErrCompletedAtRequired else None
      | LessonStatusOther _ \<Rightarrow> Some ErrUnknownLessonStatus)"

fun validateProgressRows ::
  "LessonSpec list \<Rightarrow> bool \<Rightarrow> ID list \<Rightarrow> int \<Rightarrow> int \<Rightarrow> LessonProgress list \<Rightarrow>
     progress_error + int" where
  "validateProgressRows lessons sequential seen current lastOutlineIndex [] = Inr current"
| "validateProgressRows lessons sequential seen current lastOutlineIndex (p # rest) =
     (if lp_LessonVersionID p \<notin> set (map ls_ID lessons) then Inl ErrUnknownLesson
      else if lp_LessonVersionID p \<in> set seen then Inl ErrDuplicateLessonProgress
      else case rowStatusError p of
          Some err \<Rightarrow> Inl err
        | None \<Rightarrow>
            let current' = (if lp_Status p = LessonCurrent then current + 1 else current);
                outlineIndex = lessonIndex lessons (lp_LessonVersionID p)
            in if lp_ActiveSeconds p < 0 then Inl ErrActiveSecondsInvalid
               else if sequential \<and> outlineIndex \<noteq> lastOutlineIndex + 1
                 then Inl ErrSequentialProgressInvalid
               else validateProgressRows lessons sequential (lp_LessonVersionID p # seen)
                      current' outlineIndex rest)"

definition validateOutlineAndProgress :: "enrollment \<Rightarrow> progress_error option" where
  "validateOutlineAndProgress s =
     (if en_Lessons s = [] then Some ErrLessonOutlineRequired
      else and_then (validateOutline [] [] (en_Lessons s))
        (case validateProgressRows (en_Lessons s) (en_Sequential s) [] 0 (-1) (en_LessonProgress s) of
           Inl err \<Rightarrow> Some err
         | Inr current \<Rightarrow>
             if current > 1 then Some ErrCurrentLessonConflict
             else if en_ProgressStatus s = ProgressNotStarted \<and> en_LessonProgress s \<noteq> []
               then Some ErrProgressStatusMismatch
             else if en_ProgressStatus s = ProgressCompleted \<and> \<not> requiredLessonsComplete s
               then Some ErrProgressStatusMismatch
             else None))"

text \<open>\<^verbatim>\<open>validateAttempts\<close>: \<open>numbers\<close> is the map from a quiz to the set of its attempt numbers, kept
  as the list of its (quiz, number) entries.\<close>

fun validateAttemptRows ::
  "LessonSpec list \<Rightarrow> ID list \<Rightarrow> (ID \<times> int) list \<Rightarrow> QuizAttempt list \<Rightarrow>
     enrollment_error + (ID \<times> int) list" where
  "validateAttemptRows lessons ids numbers [] = Inr numbers"
| "validateAttemptRows lessons ids numbers (a # rest) =
     (if qa_ID a = '''' then Inl (QuizErr ErrQuizAttemptIDRequired)
      else if qa_ID a \<in> set ids then Inl (QuizErr ErrQuizAttemptDuplicate)
      else case lessonByID lessons (qa_LessonID a) of
             None \<Rightarrow> Inl (ProgressErr ErrUnknownLesson)
           | Some lesson \<Rightarrow>
               if ls_QuizID lesson \<noteq> Some (qa_QuizVersionID a) then Inl (QuizErr ErrQuizMismatch)
               else if qa_Number a < 1 then Inl (QuizErr ErrAttemptNumberInvalid)
               else if qa_Score a < 0 \<or> qa_Score a > 100 \<or> IsZero (qa_CreatedAt a)
                 then Inl (QuizErr ErrAttemptDecision)
               else if qa_Passed a \<and> qa_PendingReview a then Inl (QuizErr ErrAttemptDecision)
               else if (qa_QuizVersionID a, qa_Number a) \<in> set numbers
                 then Inl (QuizErr ErrAttemptNumberInvalid)
               else validateAttemptRows lessons (qa_ID a # ids)
                      ((qa_QuizVersionID a, qa_Number a) # numbers) rest)"

definition validateAttempts :: "enrollment \<Rightarrow> enrollment_error option" where
  "validateAttempts s =
     (case validateAttemptRows (en_Lessons s) [] [] (en_QuizAttempts s) of
        Inl err \<Rightarrow> Some err
      | Inr numbers \<Rightarrow>
          if list_all (\<lambda>(quiz, _).
               list_all (\<lambda>number. (quiz, int number) \<in> set numbers)
                 [1..<Suc (length (filter (\<lambda>(q, _). q = quiz) numbers))]) numbers
          then None else Some (QuizErr ErrAttemptNumberInvalid))"

definition validateSnapshot :: "enrollment \<Rightarrow> enrollment_error option" where
  "validateSnapshot s =
     (if en_ID s = '''' then Some ErrEnrollmentIDRequired
      else if en_CompanyID s = '''' then Some ErrCompanyRequired
      else if en_CourseID s = '''' then Some ErrCourseRequired
      else if en_CourseVersionID s = '''' then Some ErrCourseVersionRequired
      else if en_AttemptNumber s < 1 then Some ErrEnrollmentAttemptInvalid
      else if IsZero (en_CreatedAt s) then Some ErrCreatedAtRequired
      else and_then (validateIdentity s)
       (if \<not> validSource (en_SourceType s) then Some ErrUnknownSourceType
        else if \<not> validProgress (en_ProgressStatus s) then Some ErrUnknownProgressStatus
        else if \<not> validAccess (en_AccessStatus s) then Some ErrUnknownAccessStatus
        else if en_LearnerType s = LearnerUser \<and> en_AccessUntil s \<noteq> None
          then Some ErrInternalDeadlineForbidden
        else and_then
          (if en_LearnerType s = LearnerExternal \<and> en_AccessStatus s = AccessActive then
             (case (en_ActivatedAt s, en_AccessUntil s) of
                (Some activated, Some until) \<Rightarrow>
                  if \<not> After until activated then Some ErrInvalidDeadline else None
              | _ \<Rightarrow> Some ErrExternalDeadlineRequired)
           else None)
          (and_then (map_option ProgressErr (validateOutlineAndProgress s))
             (validateAttempts s))))"

subsection \<open>Construction\<close>

definition clonePtr :: "'a option \<Rightarrow> 'a option" where
  "clonePtr value = (case value of None \<Rightarrow> None | Some copy \<Rightarrow> Some copy)"

definition cloneSnapshot :: "enrollment \<Rightarrow> enrollment" where
  "cloneSnapshot value =
     value\<lparr>en_UserID := clonePtr (en_UserID value),
        en_ExternalID := clonePtr (en_ExternalID value),
        en_SourceID := clonePtr (en_SourceID value),
        en_PreviousAccess := clonePtr (en_PreviousAccess value),
        en_Lessons := map (\<lambda>l. l\<lparr>ls_QuizID := clonePtr (ls_QuizID l)\<rparr>) (en_Lessons value),
        en_LessonProgress :=
          map (\<lambda>p. p\<lparr>lp_FirstOpenedAt := clonePtr (lp_FirstOpenedAt p),
                    lp_CompletedAt := clonePtr (lp_CompletedAt p),
                    lp_LastPosition := clonePtr (lp_LastPosition p)\<rparr>) (en_LessonProgress value),
        en_QuizAttempts := [] @ en_QuizAttempts value,
        en_ActivatedAt := clonePtr (en_ActivatedAt value),
        en_AccessUntil := clonePtr (en_AccessUntil value),
        en_StartedAt := clonePtr (en_StartedAt value),
        en_CompletedAt := clonePtr (en_CompletedAt value),
        en_LastActivityAt := clonePtr (en_LastActivityAt value),
        en_FrozenAt := clonePtr (en_FrozenAt value),
        en_SuspendedAt := clonePtr (en_SuspendedAt value)\<rparr>"

definition Rehydrate :: "enrollment \<Rightarrow> enrollment_error + enrollment" where
  "Rehydrate snapshot =
     (let copy = cloneSnapshot snapshot
      in case validateSnapshot copy of Some err \<Rightarrow> Inl err | None \<Rightarrow> Inr copy)"

definition Enrollment_New :: "enrollment_params \<Rightarrow> enrollment_error + enrollment" where
  "Enrollment_New params =
     (if ep_AccessStatus params \<noteq> AccessInvited \<and> ep_AccessStatus params \<noteq> AccessReady
      then Inl ErrEnrollmentNotReady
      else Rehydrate
        \<lparr>en_ID = ep_ID params, en_CompanyID = ep_CompanyID params, en_CourseID = ep_CourseID params,
         en_CourseVersionID = ep_CourseVersionID params, en_LearnerType = ep_LearnerType params,
         en_UserID = ep_UserID params, en_ExternalID = ep_ExternalID params,
         en_SourceType = ep_SourceType params, en_SourceID = ep_SourceID params,
         en_AttemptNumber = ep_AttemptNumber params, en_ProgressStatus = ProgressNotStarted,
         en_AccessStatus = ep_AccessStatus params, en_PreviousAccess = None,
         en_Sequential = ep_Sequential params, en_Lessons = ep_Lessons params,
         en_LessonProgress = [], en_QuizAttempts = [], en_ActivatedAt = None,
         en_AccessUntil = None, en_StartedAt = None, en_CompletedAt = None,
         en_LastActivityAt = None, en_FrozenAt = None, en_SuspendedAt = None,
         en_CreatedAt = ep_CreatedAt params\<rparr>)"

definition EnsureVersion :: "enrollment \<Rightarrow> ID \<Rightarrow> enrollment_error option" where
  "EnsureVersion e courseVersionID =
     (if en_CourseVersionID e = '''' then Some ErrCourseVersionRequired
      else if courseVersionID = '''' \<or> courseVersionID \<noteq> en_CourseVersionID e
        then Some ErrCourseVersionMismatch
      else None)"

definition Enrollment_State :: "enrollment \<Rightarrow> LearnerState" where
  "Enrollment_State e =
     (case en_AccessStatus e of
        AccessExpired \<Rightarrow> StateExpired
      | AccessFrozen \<Rightarrow> StateFrozen
      | AccessSuspended \<Rightarrow> StateSuspended
      | AccessRevoked \<Rightarrow> StateRevoked
      | AccessClosed \<Rightarrow> StateClosed
      | _ \<Rightarrow>
          if en_ProgressStatus e = ProgressCompleted then StateCompleted
          else if en_AccessStatus e = AccessActive then StateActive
          else StatePending)"

subsection \<open>Activation and the access transitions\<close>

text \<open>\<^verbatim>\<open>seedProgress\<close> reads the first lesson; \<^verbatim>\<open>Activate\<close> refuses an empty outline before it.\<close>

definition progress_row :: "ID \<Rightarrow> LessonStatus \<Rightarrow> time option \<Rightarrow> LessonProgress" where
  "progress_row lessonID status openedAt =
     \<lparr>lp_LessonVersionID = lessonID, lp_Status = status, lp_FirstOpenedAt = openedAt,
      lp_CompletedAt = None, lp_ActiveSeconds = 0, lp_LastPosition = None\<rparr>"

definition seedProgress :: "enrollment \<Rightarrow> time \<Rightarrow> enrollment" where
  "seedProgress s at =
     (if en_Sequential s then
        s\<lparr>en_LessonProgress := [progress_row (ls_ID (hd (en_Lessons s))) LessonCurrent (Some at)]\<rparr>
      else
        s\<lparr>en_LessonProgress :=
           map (\<lambda>(index, lesson).
                  if index = 0 then progress_row (ls_ID lesson) LessonCurrent (Some at)
                  else progress_row (ls_ID lesson) LessonAvailable None)
             (enumerate 0 (en_Lessons s))\<rparr>)"

definition Enrollment_Activate ::
  "enrollment \<Rightarrow> Activation \<Rightarrow> enrollment \<times> enrollment_error option" where
  "Enrollment_Activate e params =
     (if IsZero (act_At params) then (e, Some ErrActivationTimeRequired)
      else if en_AccessStatus e = AccessActive \<and> en_ActivatedAt e \<noteq> None then (e, None)
      else if en_AccessStatus e \<noteq> AccessInvited \<and> en_AccessStatus e \<noteq> AccessReady
        then (e, Some (accessError (en_AccessStatus e) ErrEnrollmentNotReady))
      else if en_Lessons e = [] then (e, Some (ProgressErr ErrLessonOutlineRequired))
      else
        let updated = cloneSnapshot e; at = UTC (act_At params); d = act_Duration params
        in if en_LearnerType updated = LearnerExternal \<and>
              (d < Day \<or> d > 7 * Day \<or> d mod Day \<noteq> 0)
             then (e, Some ErrActivationDurationInvalid)
           else if en_LearnerType updated \<noteq> LearnerExternal \<and> d \<noteq> 0
             then (e, Some ErrInternalDeadlineForbidden)
           else
             let updated = (if en_LearnerType updated = LearnerExternal
                            then updated\<lparr>en_AccessUntil := Some (at + d)\<rparr> else updated)
             in (seedProgress
                   (updated\<lparr>en_AccessStatus := AccessActive, en_ProgressStatus := ProgressInProgress,
                      en_ActivatedAt := Some at, en_StartedAt := Some at,
                      en_LastActivityAt := Some at\<rparr>) at, None))"

definition EvaluateDeadline :: "enrollment \<Rightarrow> time \<Rightarrow> enrollment \<times> bool" where
  "EvaluateDeadline e now =
     (if IsZero now \<or> en_LearnerType e \<noteq> LearnerExternal \<or> en_AccessStatus e \<noteq> AccessActive \<or>
         (case en_AccessUntil e of None \<Rightarrow> True | Some until \<Rightarrow> Before now until)
      then (e, False)
      else (e\<lparr>en_AccessStatus := AccessExpired, en_LastActivityAt := Some (UTC now)\<rparr>, True))"

definition ExtendExternalAccess ::
  "enrollment \<Rightarrow> time \<Rightarrow> duration \<Rightarrow> enrollment \<times> enrollment_error option" where
  "ExtendExternalAccess e at d =
     (if en_LearnerType e \<noteq> LearnerExternal then (e, Some ErrExternalEnrollmentRequired)
      else if IsZero at \<or> Before at (en_CreatedAt e) \<or>
              (case en_LastActivityAt e of None \<Rightarrow> False | Some lastAt \<Rightarrow> Before at lastAt)
        then (e, Some ErrTransitionTimeInvalid)
      else if d < Day \<or> d > 7 * Day \<or> d mod Day \<noteq> 0 then (e, Some ErrActivationDurationInvalid)
      else if en_AccessStatus e \<noteq> AccessActive \<and> en_AccessStatus e \<noteq> AccessExpired
        then (e, Some (accessError (en_AccessStatus e) ErrEnrollmentCannotExtend))
      else
        let at = UTC at;
            base = (case en_AccessUntil e of
                      Some until \<Rightarrow>
                        if en_AccessStatus e = AccessActive \<and> After until at then until else at
                    | None \<Rightarrow> at)
        in (e\<lparr>en_AccessStatus := AccessActive, en_AccessUntil := Some (UTC (base + d)),
              en_LastActivityAt := Some at\<rparr>, None))"

definition FreezeForArchive :: "enrollment \<Rightarrow> time \<Rightarrow> enrollment \<times> bool" where
  "FreezeForArchive e at =
     (if IsZero at \<or> en_ProgressStatus e = ProgressCompleted \<or>
         (en_AccessStatus e \<noteq> AccessInvited \<and> en_AccessStatus e \<noteq> AccessReady \<and>
          en_AccessStatus e \<noteq> AccessActive)
      then (e, False)
      else (e\<lparr>en_AccessStatus := AccessFrozen, en_FrozenAt := Some (UTC at),
              en_LastActivityAt := Some (UTC at)\<rparr>, True))"

definition ReactivateFrozen ::
  "enrollment \<Rightarrow> time \<Rightarrow> time \<Rightarrow> enrollment \<times> enrollment_error option" where
  "ReactivateFrozen e at accessUntil =
     (if en_AccessStatus e \<noteq> AccessFrozen then (e, Some ErrEnrollmentNotFrozen)
      else if IsZero at \<or> \<not> After accessUntil at then (e, Some ErrReactivationDeadline)
      else (e\<lparr>en_AccessStatus := AccessActive, en_AccessUntil := Some (UTC accessUntil),
              en_FrozenAt := None, en_LastActivityAt := Some (UTC at)\<rparr>, None))"

definition SuspendForBlock :: "enrollment \<Rightarrow> time \<Rightarrow> enrollment \<times> bool" where
  "SuspendForBlock e at =
     (if IsZero at \<or> en_AccessStatus e = AccessSuspended \<or> en_AccessStatus e = AccessRevoked \<or>
         en_AccessStatus e = AccessClosed
      then (e, False)
      else (e\<lparr>en_PreviousAccess := Some (en_AccessStatus e), en_AccessStatus := AccessSuspended,
              en_SuspendedAt := Some (UTC at), en_LastActivityAt := Some (UTC at)\<rparr>, True))"

definition ResumeAfterBlock :: "enrollment \<Rightarrow> time \<Rightarrow> enrollment \<times> enrollment_error option" where
  "ResumeAfterBlock e at =
     (case (en_AccessStatus e, en_SuspendedAt e, en_PreviousAccess e) of
        (AccessSuspended, Some suspended, Some previous) \<Rightarrow>
          if IsZero at \<or> Before at suspended then (e, Some ErrTransitionTimeInvalid)
          else
            let e' = (case en_AccessUntil e of
                        Some until \<Rightarrow>
                          if en_LearnerType e = LearnerExternal \<and> previous = AccessActive
                          then e\<lparr>en_AccessUntil := Some (until + Time_Sub at suspended)\<rparr> else e
                      | None \<Rightarrow> e)
            in (e'\<lparr>en_AccessStatus := previous, en_PreviousAccess := None, en_SuspendedAt := None,
                   en_LastActivityAt := Some (UTC at)\<rparr>, None)
      | _ \<Rightarrow> (e, Some ErrEnrollmentNotSuspended))"

definition Enrollment_Revoke :: "enrollment \<Rightarrow> time \<Rightarrow> enrollment \<times> bool" where
  "Enrollment_Revoke e at =
     (if IsZero at \<or> en_AccessStatus e = AccessRevoked \<or> en_AccessStatus e = AccessClosed
      then (e, False)
      else (e\<lparr>en_AccessStatus := AccessRevoked, en_PreviousAccess := None, en_SuspendedAt := None,
              en_LastActivityAt := Some (UTC at)\<rparr>, True))"

definition Enrollment_Close :: "enrollment \<Rightarrow> time \<Rightarrow> enrollment \<times> bool" where
  "Enrollment_Close e at =
     (if IsZero at \<or> en_AccessStatus e = AccessClosed then (e, False)
      else (e\<lparr>en_AccessStatus := AccessClosed, en_PreviousAccess := None, en_SuspendedAt := None,
              en_LastActivityAt := Some (UTC at)\<rparr>, True))"

subsection \<open>Lesson progress\<close>

definition ProgressPercent :: "enrollment \<Rightarrow> int" where
  "ProgressPercent e =
     (let required = filter (\<lambda>lesson. \<not> ls_Optional lesson) (en_Lessons e);
          completed = filter (\<lambda>lesson.
            case progressByLesson (en_LessonProgress e) (ls_ID lesson) of
              None \<Rightarrow> False | Some p \<Rightarrow> lp_Status p = LessonCompleted) required
      in if length required = 0 then 100
         else int (length completed) * 100 div int (length required))"

record ResumeDecision =
  rd_State :: LearnerState
  rd_LessonVersionID :: "ID option"
  rd_ProgressPercent :: int

definition Enrollment_Resume :: "enrollment \<Rightarrow> time \<Rightarrow> enrollment \<times> ResumeDecision" where
  "Enrollment_Resume e now =
     (let e' = fst (EvaluateDeadline e now);
          status = (\<lambda>lesson. map_option lp_Status
                       (progressByLesson (en_LessonProgress e') (ls_ID lesson)));
          lesson =
            (if Enrollment_State e' \<noteq> StateActive then None
             else case List.find (\<lambda>l. status l = Some LessonCurrent) (en_Lessons e') of
                    Some l \<Rightarrow> Some (ls_ID l)
                  | None \<Rightarrow>
                     (case List.find (\<lambda>l. status l \<noteq> None \<and> status l \<noteq> Some LessonCompleted)
                             (en_Lessons e') of
                        Some l \<Rightarrow> Some (ls_ID l)
                      | None \<Rightarrow> None))
      in (e', \<lparr>rd_State = Enrollment_State e', rd_LessonVersionID = lesson,
               rd_ProgressPercent = ProgressPercent e'\<rparr>))"

datatype LessonViewStatus = LessonViewLocked | LessonViewAvailable | LessonViewCurrent
  | LessonViewCompleted

definition Enrollment_LessonStatus ::
  "enrollment \<Rightarrow> ID \<Rightarrow> progress_error + LessonViewStatus" where
  "Enrollment_LessonStatus e lessonID =
     (if \<not> hasLesson (en_Lessons e) lessonID then Inl ErrUnknownLesson
      else case progressByLesson (en_LessonProgress e) lessonID of
             None \<Rightarrow> Inr LessonViewLocked
           | Some p \<Rightarrow>
              (case lp_Status p of
                 LessonAvailable \<Rightarrow> Inr LessonViewAvailable
               | LessonCurrent \<Rightarrow> Inr LessonViewCurrent
               | LessonCompleted \<Rightarrow> Inr LessonViewCompleted
               | LessonStatusOther _ \<Rightarrow> Inl ErrUnknownLessonStatus))"

text \<open>\<^verbatim>\<open>CanViewLesson\<close> settles an elapsed deadline on the receiver before it decides.\<close>

definition CanViewLesson :: "enrollment \<Rightarrow> ID \<Rightarrow> time \<Rightarrow> enrollment \<times> enrollment_error option" where
  "CanViewLesson e lessonID now =
     (if \<not> hasLesson (en_Lessons e) lessonID then (e, Some (ProgressErr ErrUnknownLesson))
      else
        let e' = fst (EvaluateDeadline e now);
            progress = progressByLesson (en_LessonProgress e') lessonID
        in (e',
            case en_AccessStatus e' of
              AccessActive \<Rightarrow>
                if progress = None then Some (ProgressErr ErrFutureContentUnavailable) else None
            | AccessExpired \<Rightarrow>
                if map_option lp_Status progress = Some LessonCompleted then None
                else Some (ProgressErr ErrFutureContentUnavailable)
            | AccessFrozen \<Rightarrow>
                if map_option lp_Status progress = Some LessonCompleted then None
                else Some (ProgressErr ErrFutureContentUnavailable)
            | status \<Rightarrow> Some (accessError status (ProgressErr ErrContentUnavailable))))"

definition update_row ::
  "nat \<Rightarrow> (LessonProgress \<Rightarrow> LessonProgress) \<Rightarrow> enrollment \<Rightarrow> enrollment" where
  "update_row i f s =
     s\<lparr>en_LessonProgress := (en_LessonProgress s)[i := f (en_LessonProgress s ! i)]\<rparr>"

definition OpenLesson :: "enrollment \<Rightarrow> ID \<Rightarrow> time \<Rightarrow> enrollment \<times> enrollment_error option" where
  "OpenLesson e lessonID at =
     (if IsZero at then (e, Some (ProgressErr ErrProgressTimeRequired))
      else case CanViewLesson e lessonID at of
        (e', Some err) \<Rightarrow> (e', Some err)
      | (e', None) \<Rightarrow>
          let updated = cloneSnapshot e';
              index = progressIndex (en_LessonProgress updated) lessonID
          in if index < 0 then (e', Some (ProgressErr ErrLessonProgressLocked))
             else
               let at = UTC at;
                   updated = update_row (nat index)
                     (\<lambda>p. if lp_FirstOpenedAt p = None then p\<lparr>lp_FirstOpenedAt := Some at\<rparr> else p)
                     updated;
                   updated =
                     (if lp_Status (en_LessonProgress updated ! nat index) = LessonAvailable \<and>
                         currentProgressIndex (en_LessonProgress updated) < 0
                      then update_row (nat index) (\<lambda>p. p\<lparr>lp_Status := LessonCurrent\<rparr>) updated
                      else updated)
               in (updated\<lparr>en_LastActivityAt := Some at\<rparr>, None))"

definition RecordPosition ::
  "enrollment \<Rightarrow> ID \<Rightarrow> int \<Rightarrow> string option \<Rightarrow> time \<Rightarrow> enrollment \<times> enrollment_error option" where
  "RecordPosition e lessonID activeSeconds position at =
     (if IsZero at then (e, Some (ProgressErr ErrProgressTimeRequired))
      else if activeSeconds < 0 then (e, Some (ProgressErr ErrActiveSecondsInvalid))
      else case CanViewLesson e lessonID at of
        (e', Some err) \<Rightarrow> (e', Some err)
      | (e', None) \<Rightarrow>
          let updated = cloneSnapshot e';
              index = progressIndex (en_LessonProgress updated) lessonID
          in if index < 0 then (e', Some (ProgressErr ErrLessonProgressLocked))
             else
               ((update_row (nat index)
                   (\<lambda>p. p\<lparr>lp_ActiveSeconds := wrap64 (lp_ActiveSeconds p + activeSeconds),
                          lp_LastPosition := clonePtr position\<rparr>) updated)
                  \<lparr>en_LastActivityAt := Some (UTC at)\<rparr>, None))"

text \<open>The loop of \<^verbatim>\<open>completeLesson\<close> that makes the next open or locked lesson current.\<close>

fun unlock_next :: "LessonSpec list \<Rightarrow> enrollment \<Rightarrow> enrollment \<times> ID" where
  "unlock_next [] s = (s, '''')"
| "unlock_next (lesson # rest) s =
     (let index = progressIndex (en_LessonProgress s) (ls_ID lesson)
      in if 0 \<le> index \<and> lp_Status (en_LessonProgress s ! nat index) \<noteq> LessonCompleted
         then (update_row (nat index) (\<lambda>p. p\<lparr>lp_Status := LessonCurrent\<rparr>) s, ls_ID lesson)
         else if en_Sequential s \<and> index < 0
         then (s\<lparr>en_LessonProgress := en_LessonProgress s @
                   [progress_row (ls_ID lesson) LessonCurrent None]\<rparr>, ls_ID lesson)
         else unlock_next rest s)"

definition mark_completed :: "nat \<Rightarrow> time \<Rightarrow> enrollment \<Rightarrow> enrollment" where
  "mark_completed i at s =
     (update_row i
        (\<lambda>p. p\<lparr>lp_Status := LessonCompleted, lp_CompletedAt := Some at,
               lp_FirstOpenedAt :=
                 (if lp_FirstOpenedAt p = None then Some at else lp_FirstOpenedAt p)\<rparr>) s)
      \<lparr>en_LastActivityAt := Some at\<rparr>"

definition completeLesson ::
  "enrollment \<Rightarrow> ID \<Rightarrow> time \<Rightarrow> progress_error + enrollment \<times> ID \<times> bool" where
  "completeLesson s lessonID at =
     (let index = progressIndex (en_LessonProgress s) lessonID
      in if en_ProgressStatus s = ProgressCompleted then Inl ErrEnrollmentAlreadyCompleted
         else if index < 0 then Inl ErrLessonProgressLocked
         else if lp_Status (en_LessonProgress s ! nat index) = LessonCompleted
           then Inl ErrLessonAlreadyCompleted
         else
           let s = mark_completed (nat index) at s
           in if requiredLessonsComplete s
              then Inr (s\<lparr>en_ProgressStatus := ProgressCompleted, en_CompletedAt := Some at\<rparr>,
                        '''', True)
              else if currentProgressIndex (en_LessonProgress s) < 0
              then (case unlock_next (en_Lessons s) s of (s', next) \<Rightarrow> Inr (s', next, False))
              else Inr (s, '''', False))"

definition CompleteLesson ::
  "enrollment \<Rightarrow> ID \<Rightarrow> time \<Rightarrow> enrollment \<times> (enrollment_error + ID \<times> bool)" where
  "CompleteLesson e lessonID at =
     (if IsZero at then (e, Inl (ProgressErr ErrProgressTimeRequired))
      else case lessonByID (en_Lessons e) lessonID of
        None \<Rightarrow> (e, Inl (ProgressErr ErrUnknownLesson))
      | Some lesson \<Rightarrow>
          if ls_QuizID lesson \<noteq> None then (e, Inl (ProgressErr ErrQuizRequired))
          else case CanViewLesson e lessonID at of
            (e', Some err) \<Rightarrow> (e', Inl err)
          | (e', None) \<Rightarrow>
             (case completeLesson (cloneSnapshot e') lessonID (UTC at) of
                Inl err \<Rightarrow> (e', Inl (ProgressErr err))
              | Inr (updated, next, completed) \<Rightarrow> (updated, Inr (next, completed))))"

subsection \<open>Quiz attempts\<close>

datatype QuizDecision = QuizFailed | QuizPassed | QuizPendingReview

record QuizSubmission =
  qs_AttemptID :: ID
  qs_LessonID :: ID
  qs_QuizVersionID :: ID
  qs_Score :: int
  qs_PassingScore :: int
  qs_MaxAttempts :: "int option"
  qs_PendingReview :: bool
  qs_At :: time

record QuizOutcome =
  qo_AttemptNumber :: int
  qo_Decision :: QuizDecision
  qo_CompletedLessonID :: "ID option"
  qo_UnlockedLessonID :: "ID option"
  qo_EnrollmentComplete :: bool

record Review =
  rv_AttemptID :: ID
  rv_ActorID :: ID
  rv_Passed :: bool
  rv_Comment :: "string option"
  rv_At :: time

text \<open>The loop of \<^verbatim>\<open>SubmitQuiz\<close> over the earlier attempts.\<close>

definition attempt_conflict :: "ID \<Rightarrow> ID \<Rightarrow> QuizAttempt \<Rightarrow> quiz_error option" where
  "attempt_conflict attemptID quizID a =
     (if qa_ID a = attemptID then Some ErrQuizAttemptDuplicate
      else if qa_QuizVersionID a = quizID \<and> qa_PendingReview a then Some ErrQuizPendingReview
      else None)"

definition submit_args_error :: "QuizSubmission \<Rightarrow> quiz_error option" where
  "submit_args_error params =
     (if qs_AttemptID params = '''' then Some ErrQuizAttemptIDRequired
      else if qs_QuizVersionID params = '''' then Some ErrQuizIDRequired
      else if IsZero (qs_At params) then Some ErrAttemptTimeRequired
      else if qs_Score params < 0 \<or> qs_Score params > 100 then Some ErrScoreInvalid
      else if qs_PassingScore params < 0 \<or> qs_PassingScore params > 100
        then Some ErrPassingScoreInvalid
      else if (case qs_MaxAttempts params of None \<Rightarrow> False | Some m \<Rightarrow> m < 1)
        then Some ErrMaxAttemptsInvalid
      else None)"

text \<open>The outcome of a decision on a lesson, shared by \<^verbatim>\<open>SubmitQuiz\<close> and \<^verbatim>\<open>ReviewAttempt\<close>: when the
  attempt passed, complete the lesson and report what it unlocked.\<close>

definition settle_attempt ::
  "enrollment \<Rightarrow> ID \<Rightarrow> time \<Rightarrow> bool \<Rightarrow> QuizOutcome \<Rightarrow> progress_error + enrollment \<times> QuizOutcome" where
  "settle_attempt updated lessonID at passed outcome =
     (if passed then
        (case completeLesson updated lessonID at of
           Inl err \<Rightarrow> Inl err
         | Inr (updated', next, complete) \<Rightarrow>
             Inr (updated',
               outcome\<lparr>qo_CompletedLessonID := Some lessonID, qo_EnrollmentComplete := complete,
                  qo_UnlockedLessonID := (if next \<noteq> '''' then Some next else None)\<rparr>))
      else Inr (updated, outcome))"

definition SubmitQuiz ::
  "enrollment \<Rightarrow> QuizSubmission \<Rightarrow> enrollment \<times> (enrollment_error + QuizOutcome)" where
  "SubmitQuiz e params =
     (case submit_args_error params of
        Some err \<Rightarrow> (e, Inl (QuizErr err))
      | None \<Rightarrow>
        case lessonByID (en_Lessons e) (qs_LessonID params) of
          None \<Rightarrow> (e, Inl (ProgressErr ErrUnknownLesson))
        | Some lesson \<Rightarrow>
          if ls_QuizID lesson = None then (e, Inl (ProgressErr ErrLessonHasNoQuiz))
          else if ls_QuizID lesson \<noteq> Some (qs_QuizVersionID params)
            then (e, Inl (QuizErr ErrQuizMismatch))
          else
            let updated = cloneSnapshot e
            in case CanViewLesson updated (qs_LessonID params) (qs_At params) of
              (_, Some err) \<Rightarrow> (e, Inl err)
            | (_, None) \<Rightarrow>
              if en_ProgressStatus e = ProgressCompleted
                then (e, Inl (ProgressErr ErrEnrollmentAlreadyCompleted))
              else case first_error
                     (attempt_conflict (qs_AttemptID params) (qs_QuizVersionID params))
                     (en_QuizAttempts e) of
                Some err \<Rightarrow> (e, Inl (QuizErr err))
              | None \<Rightarrow>
                let used = attemptsForQuiz (en_QuizAttempts e) (qs_QuizVersionID params)
                in if (case qs_MaxAttempts params of None \<Rightarrow> False | Some m \<Rightarrow> used \<ge> m)
                   then (e, Inl (QuizErr ErrQuizAttemptLimit))
                   else
                     let at = UTC (qs_At params);
                         passed = (\<not> qs_PendingReview params \<and>
                                   qs_Score params \<ge> qs_PassingScore params);
                         decision = (if qs_PendingReview params then QuizPendingReview
                                     else if passed then QuizPassed else QuizFailed);
                         updated = updated
                           \<lparr>en_QuizAttempts := en_QuizAttempts updated @
                              [\<lparr>qa_ID = qs_AttemptID params,
                                qa_QuizVersionID = qs_QuizVersionID params,
                                qa_LessonID = qs_LessonID params, qa_Number = used + 1,
                                qa_Score = qs_Score params, qa_Passed = passed,
                                qa_PendingReview = qs_PendingReview params,
                                qa_CreatedAt = at\<rparr>],
                            en_LastActivityAt := Some at\<rparr>
                     in case settle_attempt updated (qs_LessonID params) at passed
                            \<lparr>qo_AttemptNumber = used + 1, qo_Decision = decision,
                             qo_CompletedLessonID = None, qo_UnlockedLessonID = None,
                             qo_EnrollmentComplete = False\<rparr> of
                          Inl err \<Rightarrow> (e, Inl (ProgressErr err))
                        | Inr (updated', outcome) \<Rightarrow> (updated', Inr outcome))"

definition requireForwardAccess :: "enrollment \<Rightarrow> time \<Rightarrow> enrollment \<times> enrollment_error option" where
  "requireForwardAccess e at =
     (let e' = fst (EvaluateDeadline e at)
      in if en_AccessStatus e' \<noteq> AccessActive
         then (e', Some (accessError (en_AccessStatus e') (ProgressErr ErrContentUnavailable)))
         else (e', None))"

definition ReviewAttempt ::
  "enrollment \<Rightarrow> Review \<Rightarrow> enrollment \<times> (enrollment_error + QuizOutcome)" where
  "ReviewAttempt e params =
     (if rv_ActorID params = '''' then (e, Inl (QuizErr ErrReviewerRequired))
      else if IsZero (rv_At params) then (e, Inl (QuizErr ErrAttemptTimeRequired))
      else
        let updated = cloneSnapshot e
        in case requireForwardAccess updated (rv_At params) of
          (_, Some err) \<Rightarrow> (e, Inl err)
        | (_, None) \<Rightarrow>
          let index = attemptIndex (en_QuizAttempts updated) (rv_AttemptID params)
          in if index < 0 then (e, Inl (QuizErr ErrAttemptNotFound))
             else
               let attempt = en_QuizAttempts updated ! nat index
               in if \<not> qa_PendingReview attempt then (e, Inl (QuizErr ErrAttemptNotPending))
                  else
                    let at = UTC (rv_At params);
                        updated = updated
                          \<lparr>en_QuizAttempts := (en_QuizAttempts updated)
                             [nat index := attempt\<lparr>qa_PendingReview := False,
                                                   qa_Passed := rv_Passed params\<rparr>],
                           en_LastActivityAt := Some at\<rparr>
                    in case settle_attempt updated (qa_LessonID attempt) at (rv_Passed params)
                           \<lparr>qo_AttemptNumber = qa_Number attempt,
                            qo_Decision = (if rv_Passed params then QuizPassed else QuizFailed),
                            qo_CompletedLessonID = None, qo_UnlockedLessonID = None,
                            qo_EnrollmentComplete = False\<rparr> of
                         Inl err \<Rightarrow> (e, Inl (ProgressErr err))
                       | Inr (updated', outcome) \<Rightarrow> (updated', Inr outcome))"

subsection \<open>Nil receivers\<close>

text \<open>The methods that test \<^verbatim>\<open>e == nil\<close>, on a receiver that may be nil.\<close>

definition EnsureVersion_ptr :: "enrollment option \<Rightarrow> ID \<Rightarrow> enrollment_error option" where
  "EnsureVersion_ptr p v =
     (case p of None \<Rightarrow> Some ErrCourseVersionRequired | Some e \<Rightarrow> EnsureVersion e v)"

definition Enrollment_State_ptr :: "enrollment option \<Rightarrow> LearnerState" where
  "Enrollment_State_ptr p = (case p of None \<Rightarrow> StateClosed | Some e \<Rightarrow> Enrollment_State e)"

definition EvaluateDeadline_ptr :: "enrollment option \<Rightarrow> time \<Rightarrow> enrollment option \<times> bool" where
  "EvaluateDeadline_ptr p now =
     (case p of None \<Rightarrow> (None, False) | Some e \<Rightarrow> map_prod Some id (EvaluateDeadline e now))"

definition ExtendExternalAccess_ptr ::
  "enrollment option \<Rightarrow> time \<Rightarrow> duration \<Rightarrow> enrollment option \<times> enrollment_error option" where
  "ExtendExternalAccess_ptr p at d =
     (case p of None \<Rightarrow> (None, Some ErrExternalEnrollmentRequired)
      | Some e \<Rightarrow> map_prod Some id (ExtendExternalAccess e at d))"

definition FreezeForArchive_ptr :: "enrollment option \<Rightarrow> time \<Rightarrow> enrollment option \<times> bool" where
  "FreezeForArchive_ptr p at =
     (case p of None \<Rightarrow> (None, False) | Some e \<Rightarrow> map_prod Some id (FreezeForArchive e at))"

definition ReactivateFrozen_ptr ::
  "enrollment option \<Rightarrow> time \<Rightarrow> time \<Rightarrow> enrollment option \<times> enrollment_error option" where
  "ReactivateFrozen_ptr p at accessUntil =
     (case p of None \<Rightarrow> (None, Some ErrEnrollmentNotFrozen)
      | Some e \<Rightarrow> map_prod Some id (ReactivateFrozen e at accessUntil))"

definition SuspendForBlock_ptr :: "enrollment option \<Rightarrow> time \<Rightarrow> enrollment option \<times> bool" where
  "SuspendForBlock_ptr p at =
     (case p of None \<Rightarrow> (None, False) | Some e \<Rightarrow> map_prod Some id (SuspendForBlock e at))"

definition ResumeAfterBlock_ptr ::
  "enrollment option \<Rightarrow> time \<Rightarrow> enrollment option \<times> enrollment_error option" where
  "ResumeAfterBlock_ptr p at =
     (case p of None \<Rightarrow> (None, Some ErrEnrollmentNotSuspended)
      | Some e \<Rightarrow> map_prod Some id (ResumeAfterBlock e at))"

definition Enrollment_Revoke_ptr :: "enrollment option \<Rightarrow> time \<Rightarrow> enrollment option \<times> bool" where
  "Enrollment_Revoke_ptr p at =
     (case p of None \<Rightarrow> (None, False) | Some e \<Rightarrow> map_prod Some id (Enrollment_Revoke e at))"

definition Enrollment_Close_ptr :: "enrollment option \<Rightarrow> time \<Rightarrow> enrollment option \<times> bool" where
  "Enrollment_Close_ptr p at =
     (case p of None \<Rightarrow> (None, False) | Some e \<Rightarrow> map_prod Some id (Enrollment_Close e at))"

definition ProgressPercent_ptr :: "enrollment option \<Rightarrow> int" where
  "ProgressPercent_ptr p = (case p of None \<Rightarrow> 0 | Some e \<Rightarrow> ProgressPercent e)"

definition Enrollment_Resume_ptr ::
  "enrollment option \<Rightarrow> time \<Rightarrow> enrollment option \<times> ResumeDecision" where
  "Enrollment_Resume_ptr p now =
     (case p of
        None \<Rightarrow> (None, \<lparr>rd_State = StateClosed, rd_LessonVersionID = None, rd_ProgressPercent = 0\<rparr>)
      | Some e \<Rightarrow> map_prod Some id (Enrollment_Resume e now))"

definition Enrollment_LessonStatus_ptr ::
  "enrollment option \<Rightarrow> ID \<Rightarrow> progress_error + LessonViewStatus" where
  "Enrollment_LessonStatus_ptr p lessonID =
     (case p of None \<Rightarrow> Inl ErrUnknownLesson | Some e \<Rightarrow> Enrollment_LessonStatus e lessonID)"

definition CanViewLesson_ptr ::
  "enrollment option \<Rightarrow> ID \<Rightarrow> time \<Rightarrow> enrollment option \<times> enrollment_error option" where
  "CanViewLesson_ptr p lessonID now =
     (case p of None \<Rightarrow> (None, Some (ProgressErr ErrUnknownLesson))
      | Some e \<Rightarrow> map_prod Some id (CanViewLesson e lessonID now))"

definition requireForwardAccess_ptr ::
  "enrollment option \<Rightarrow> time \<Rightarrow> enrollment option \<times> enrollment_error option" where
  "requireForwardAccess_ptr p at =
     (case p of None \<Rightarrow> (None, Some (ProgressErr ErrContentUnavailable))
      | Some e \<Rightarrow> map_prod Some id (requireForwardAccess e at))"

lemma clonePtr_id [simp]: "clonePtr x = x"
  by (simp add: clonePtr_def split: option.splits)

text \<open>The defensive copy is a copy of the value.\<close>

lemma cloneSnapshot_id [simp]: "cloneSnapshot s = s"
  by (simp add: cloneSnapshot_def)

end
