(* ===== verification/Enrollment_Valid.thy ===== *)
theory Enrollment_Valid
  imports Enrollment_Model
begin

section \<open>Enrollment: what the validators accept\<close>

text \<open>
  \<^verbatim>\<open>validateSnapshot\<close> of \<^verbatim>\<open>enrollment.go\<close>, with \<^verbatim>\<open>validateOutlineAndProgress\<close> and
  \<^verbatim>\<open>validateAttempts\<close>, are loops with early returns over maps used as sets. This theory states
  declaratively what they accept and proves the loops equivalent to it, so that the proofs about
  the operations never unfold a loop.
\<close>

definition outline_ok :: "LessonSpec list \<Rightarrow> bool" where
  "outline_ok lessons \<longleftrightarrow>
     lessons \<noteq> [] \<and> '''' \<notin> set (map ls_ID lessons) \<and> distinct (map ls_ID lessons) \<and>
     '''' \<notin> set (List.map_filter ls_QuizID lessons) \<and> distinct (List.map_filter ls_QuizID lessons)"

definition row_ok :: "LessonProgress \<Rightarrow> bool" where
  "row_ok p \<longleftrightarrow>
     ((lp_Status p = LessonAvailable \<or> lp_Status p = LessonCurrent) \<and> lp_CompletedAt p = None \<or>
      lp_Status p = LessonCompleted \<and> lp_CompletedAt p \<noteq> None) \<and> 0 \<le> lp_ActiveSeconds p"

abbreviation row_ids :: "LessonProgress list \<Rightarrow> ID list" where
  "row_ids rows \<equiv> map lp_LessonVersionID rows"

abbreviation current_rows :: "LessonProgress list \<Rightarrow> LessonProgress list" where
  "current_rows rows \<equiv> filter (\<lambda>p. lp_Status p = LessonCurrent) rows"

definition rows_ok :: "LessonSpec list \<Rightarrow> bool \<Rightarrow> LessonProgress list \<Rightarrow> bool" where
  "rows_ok lessons sequential rows \<longleftrightarrow>
     set (row_ids rows) \<subseteq> set (map ls_ID lessons) \<and> distinct (row_ids rows) \<and>
     (\<forall>p\<in>set rows. row_ok p) \<and>
     (sequential \<longrightarrow> prefix (row_ids rows) (map ls_ID lessons)) \<and>
     length (current_rows rows) \<le> 1"

definition attempt_ok :: "LessonSpec list \<Rightarrow> QuizAttempt \<Rightarrow> bool" where
  "attempt_ok lessons a \<longleftrightarrow>
     qa_ID a \<noteq> '''' \<and>
     (\<exists>lesson. lessonByID lessons (qa_LessonID a) = Some lesson \<and>
        ls_QuizID lesson = Some (qa_QuizVersionID a)) \<and>
     1 \<le> qa_Number a \<and> 0 \<le> qa_Score a \<and> qa_Score a \<le> 100 \<and> qa_CreatedAt a \<noteq> 0 \<and>
     \<not> (qa_Passed a \<and> qa_PendingReview a)"

abbreviation quiz_numbers :: "QuizAttempt list \<Rightarrow> ID \<Rightarrow> int list" where
  "quiz_numbers attempts quiz \<equiv>
     map qa_Number (filter (\<lambda>a. qa_QuizVersionID a = quiz) attempts)"

definition attempts_ok :: "LessonSpec list \<Rightarrow> QuizAttempt list \<Rightarrow> bool" where
  "attempts_ok lessons attempts \<longleftrightarrow>
     (\<forall>a\<in>set attempts. attempt_ok lessons a) \<and> distinct (map qa_ID attempts) \<and>
     (\<forall>quiz. distinct (quiz_numbers attempts quiz) \<and>
        set (quiz_numbers attempts quiz) = {1..int (length (quiz_numbers attempts quiz))})"

subsection \<open>The outline loop\<close>

lemma validateOutline_iff:
  "validateOutline seen quizzes lessons = None \<longleftrightarrow>
     '''' \<notin> set (map ls_ID lessons) \<and> distinct (map ls_ID lessons) \<and>
     set (map ls_ID lessons) \<inter> set seen = {} \<and>
     '''' \<notin> set (List.map_filter ls_QuizID lessons) \<and>
     distinct (List.map_filter ls_QuizID lessons) \<and>
     set (List.map_filter ls_QuizID lessons) \<inter> set quizzes = {}"
  by (induction lessons arbitrary: seen quizzes)
    (auto simp: List.map_filter_simps split: option.splits if_splits)

subsection \<open>The progress loop\<close>

lemma lessonIndex_nth:
  assumes "distinct (map ls_ID lessons)" "n < length lessons"
  shows "lessonIndex lessons (ls_ID (lessons ! n)) = int n"
  unfolding lessonIndex_def
proof (rule go_index_unique)
  show "n < length lessons" by (rule assms(2))
  show "\<forall>m<n. ls_ID (lessons ! m) \<noteq> ls_ID (lessons ! n)"
    using assms by (auto simp: distinct_conv_nth)
qed simp

lemma lessonIndex_eq_iff:
  assumes "distinct (map ls_ID lessons)" "x \<in> set (map ls_ID lessons)"
  shows "lessonIndex lessons x = int n \<longleftrightarrow> n < length lessons \<and> ls_ID (lessons ! n) = x"
proof
  from assms(2) obtain k where k: "k < length lessons" "ls_ID (lessons ! k) = x"
    by (auto simp: in_set_conv_nth)
  assume "lessonIndex lessons x = int n"
  with lessonIndex_nth[OF assms(1) k(1)] k show "n < length lessons \<and> ls_ID (lessons ! n) = x"
    by simp
next
  assume "n < length lessons \<and> ls_ID (lessons ! n) = x"
  with lessonIndex_nth[OF assms(1), of n] show "lessonIndex lessons x = int n" by blast
qed

lemma prefix_Cons_drop:
  "prefix (x # xs) (drop k ys) \<longleftrightarrow> k < length ys \<and> ys ! k = x \<and> prefix xs (drop (Suc k) ys)"
proof (cases "k < length ys")
  case True
  then show ?thesis by (subst Cons_nth_drop_Suc[symmetric]) auto
next
  case False
  then show ?thesis by simp
qed

lemma rowStatusError_iff:
  "rowStatusError p = None \<and> 0 \<le> lp_ActiveSeconds p \<longleftrightarrow> row_ok p"
  by (auto simp: row_ok_def rowStatusError_def split: LessonStatus.splits)

lemma validateProgressRows_Cons:
  "validateProgressRows lessons sequential seen current lastIndex (p # rows) = Inr c \<longleftrightarrow>
     lp_LessonVersionID p \<in> set (map ls_ID lessons) \<and> lp_LessonVersionID p \<notin> set seen \<and>
     row_ok p \<and> (sequential \<longrightarrow> lessonIndex lessons (lp_LessonVersionID p) = lastIndex + 1) \<and>
     validateProgressRows lessons sequential (lp_LessonVersionID p # seen)
       (if lp_Status p = LessonCurrent then current + 1 else current)
       (lessonIndex lessons (lp_LessonVersionID p)) rows = Inr c"
  unfolding rowStatusError_iff[symmetric]
  by (cases "rowStatusError p") (auto simp: Let_def)

lemma validateProgressRows_iff:
  assumes "distinct (map ls_ID lessons)" "sequential \<longrightarrow> lastIndex = int k - 1"
  shows "validateProgressRows lessons sequential seen current lastIndex rows = Inr c \<longleftrightarrow>
     set (row_ids rows) \<subseteq> set (map ls_ID lessons) \<and> distinct (row_ids rows) \<and>
     set (row_ids rows) \<inter> set seen = {} \<and> (\<forall>p\<in>set rows. row_ok p) \<and>
     (sequential \<longrightarrow> prefix (row_ids rows) (drop k (map ls_ID lessons))) \<and>
     c = current + int (length (current_rows rows))"
  using assms(2)
proof (induction rows arbitrary: seen current lastIndex k)
  case Nil
  then show ?case by auto
next
  case (Cons p rows)
  let ?x = "lp_LessonVersionID p"
  let ?index = "lessonIndex lessons ?x"
  show ?case
  proof (cases "?x \<in> set (map ls_ID lessons) \<and> (sequential \<longrightarrow> ?index = lastIndex + 1)")
    case False
    then show ?thesis
      using lessonIndex_eq_iff[OF assms(1), of ?x k] Cons.prems
      unfolding validateProgressRows_Cons by (auto simp: prefix_Cons_drop)
  next
    case True
    then have step: "sequential \<longrightarrow> ?index = int (Suc k) - 1" using Cons.prems by simp
    have "sequential \<longrightarrow> k < length lessons \<and> ls_ID (lessons ! k) = ?x"
      using lessonIndex_eq_iff[OF assms(1), of ?x k] True Cons.prems by auto
    then show ?thesis
      using True unfolding validateProgressRows_Cons Cons.IH[OF step]
      by (auto simp: prefix_Cons_drop)
  qed
qed

subsection \<open>The attempt loop\<close>

lemma validateAttemptRows_iff:
  "validateAttemptRows lessons ids numbers attempts = Inr ns \<longleftrightarrow>
     (\<forall>a\<in>set attempts. attempt_ok lessons a) \<and> distinct (map qa_ID attempts) \<and>
     set (map qa_ID attempts) \<inter> set ids = {} \<and>
     distinct (map (\<lambda>a. (qa_QuizVersionID a, qa_Number a)) attempts) \<and>
     set (map (\<lambda>a. (qa_QuizVersionID a, qa_Number a)) attempts) \<inter> set numbers = {} \<and>
     ns = rev (map (\<lambda>a. (qa_QuizVersionID a, qa_Number a)) attempts) @ numbers"
proof (induction attempts arbitrary: ids numbers)
  case Nil
  then show ?case by auto
next
  case (Cons a attempts)
  have "validateAttemptRows lessons ids numbers (a # attempts) = Inr ns \<longleftrightarrow>
      attempt_ok lessons a \<and> qa_ID a \<notin> set ids \<and> (qa_QuizVersionID a, qa_Number a) \<notin> set numbers \<and>
      validateAttemptRows lessons (qa_ID a # ids)
        ((qa_QuizVersionID a, qa_Number a) # numbers) attempts = Inr ns"
    by (auto simp: attempt_ok_def split: option.splits if_splits)
  then show ?case
    unfolding Cons.IH by auto
qed

lemma numbers_complete_iff:
  fixes attempts :: "QuizAttempt list"
  defines "ns \<equiv> rev (map (\<lambda>a. (qa_QuizVersionID a, qa_Number a)) attempts)"
  assumes "distinct ns" "\<forall>a\<in>set attempts. 1 \<le> qa_Number a"
  shows "list_all (\<lambda>(quiz, _). list_all (\<lambda>n. (quiz, int n) \<in> set ns)
            [1..<Suc (length (filter (\<lambda>(q, _). q = quiz) ns))]) ns \<longleftrightarrow>
         (\<forall>quiz. set (quiz_numbers attempts quiz) = {1..int (length (quiz_numbers attempts quiz))})"
proof -
  have len: "length (filter (\<lambda>(q, _). q = quiz) ns) = length (quiz_numbers attempts quiz)" for quiz
    by (simp add: ns_def rev_filter[symmetric] filter_map o_def)
  have mem: "(quiz, m) \<in> set ns \<longleftrightarrow> m \<in> set (quiz_numbers attempts quiz)" for quiz m
    by (auto simp: ns_def)
  have dist: "distinct (quiz_numbers attempts quiz)" for quiz
    using assms(2) by (auto simp: ns_def distinct_map inj_on_def)
  have card: "card (set (quiz_numbers attempts quiz)) = length (quiz_numbers attempts quiz)" for quiz
    using dist by (rule distinct_card)
  have full: "(\<forall>n\<in>{1..<Suc (length (quiz_numbers attempts quiz))}. (quiz, int n) \<in> set ns) \<longleftrightarrow>
      set (quiz_numbers attempts quiz) = {1..int (length (quiz_numbers attempts quiz))}" for quiz
  proof
    let ?N = "set (quiz_numbers attempts quiz)" and ?l = "length (quiz_numbers attempts quiz)"
    assume all: "\<forall>n\<in>{1..<Suc ?l}. (quiz, int n) \<in> set ns"
    have "{1..int ?l} \<subseteq> ?N"
    proof
      fix x assume "x \<in> {1..int ?l}"
      then have "nat x \<in> {1..<Suc ?l}" and "int (nat x) = x" by auto
      with all mem show "x \<in> ?N" by metis
    qed
    moreover have "card {1..int ?l} = card ?N" using card[of quiz] by simp
    ultimately have "{1..int ?l} = ?N" by (intro card_subset_eq) simp_all
    then show "?N = {1..int ?l}" by simp
  qed (auto simp: mem)
  have empty: "set (quiz_numbers attempts quiz) = {1..int (length (quiz_numbers attempts quiz))}"
    if "\<forall>m. (quiz, m) \<notin> set ns" for quiz
    using that mem[of quiz] by (cases "quiz_numbers attempts quiz") auto
  show ?thesis
  proof
    assume L: "list_all (\<lambda>(quiz, _). list_all (\<lambda>n. (quiz, int n) \<in> set ns)
            [1..<Suc (length (filter (\<lambda>(q, _). q = quiz) ns))]) ns"
    show "\<forall>quiz. set (quiz_numbers attempts quiz) = {1..int (length (quiz_numbers attempts quiz))}"
    proof
      fix quiz
      show "set (quiz_numbers attempts quiz) = {1..int (length (quiz_numbers attempts quiz))}"
      proof (cases "\<exists>m. (quiz, m) \<in> set ns")
        case True
        with L have "\<forall>n\<in>{1..<Suc (length (quiz_numbers attempts quiz))}. (quiz, int n) \<in> set ns"
          unfolding list_all_iff len set_upt by blast
        then show ?thesis unfolding full .
      next
        case False
        then show ?thesis by (intro empty) blast
      qed
    qed
  next
    assume "\<forall>quiz. set (quiz_numbers attempts quiz) = {1..int (length (quiz_numbers attempts quiz))}"
    then have "\<forall>n\<in>{1..<Suc (length (quiz_numbers attempts quiz))}. (quiz, int n) \<in> set ns" for quiz
      unfolding full by blast
    then show "list_all (\<lambda>(quiz, _). list_all (\<lambda>n. (quiz, int n) \<in> set ns)
            [1..<Suc (length (filter (\<lambda>(q, _). q = quiz) ns))]) ns"
      unfolding list_all_iff len set_upt by blast
  qed
qed

lemma distinct_pairs_iff:
  "distinct (map (\<lambda>a. (qa_QuizVersionID a, qa_Number a)) attempts) \<longleftrightarrow>
     (\<forall>quiz. distinct (quiz_numbers attempts quiz))"
proof (induction attempts)
  case Nil
  then show ?case by simp
next
  case (Cons a attempts)
  have "(\<forall>quiz. distinct (quiz_numbers (a # attempts) quiz)) \<longleftrightarrow>
      qa_Number a \<notin> set (quiz_numbers attempts (qa_QuizVersionID a)) \<and>
      (\<forall>quiz. distinct (quiz_numbers attempts quiz))"
    by auto
  moreover have "(qa_QuizVersionID a, qa_Number a) \<in> set (map (\<lambda>a. (qa_QuizVersionID a, qa_Number a)) attempts) \<longleftrightarrow>
      qa_Number a \<in> set (quiz_numbers attempts (qa_QuizVersionID a))"
    by (auto simp: image_iff) metis+
  ultimately show ?case
    unfolding list.map distinct.simps(2) Cons.IH by blast
qed

lemma validateAttempts_iff [valid_iff]:
  "validateAttempts s = None \<longleftrightarrow> attempts_ok (en_Lessons s) (en_QuizAttempts s)"
proof (cases "validateAttemptRows (en_Lessons s) [] [] (en_QuizAttempts s)")
  case (Inl err)
  then have "\<nexists>ns. validateAttemptRows (en_Lessons s) [] [] (en_QuizAttempts s) = Inr ns" by simp
  then have "\<not> attempts_ok (en_Lessons s) (en_QuizAttempts s)"
    unfolding validateAttemptRows_iff attempts_ok_def distinct_pairs_iff by auto
  with Inl show ?thesis by (simp add: validateAttempts_def)
next
  case (Inr ns)
  note facts = Inr[unfolded validateAttemptRows_iff]
  then have "\<forall>a\<in>set (en_QuizAttempts s). 1 \<le> qa_Number a" by (auto simp: attempt_ok_def)
  with facts numbers_complete_iff[of "en_QuizAttempts s"] Inr show ?thesis
    by (auto simp: validateAttempts_def attempts_ok_def distinct_pairs_iff)
qed

lemma validateOutlineAndProgress_iff [valid_iff]:
  "validateOutlineAndProgress s = None \<longleftrightarrow>
     outline_ok (en_Lessons s) \<and>
     rows_ok (en_Lessons s) (en_Sequential s) (en_LessonProgress s) \<and>
     (en_ProgressStatus s = ProgressNotStarted \<longrightarrow> en_LessonProgress s = []) \<and>
     (en_ProgressStatus s = ProgressCompleted \<longrightarrow> requiredLessonsComplete s)"
proof (cases "en_Lessons s \<noteq> [] \<and> validateOutline [] [] (en_Lessons s) = None")
  case False
  then show ?thesis
    by (auto simp: validateOutlineAndProgress_def validateOutline_iff outline_ok_def)
next
  case True
  then have out: "outline_ok (en_Lessons s)" by (simp add: validateOutline_iff outline_ok_def)
  then have "distinct (map ls_ID (en_Lessons s))" by (simp add: outline_ok_def)
  then have rows: "validateProgressRows (en_Lessons s) (en_Sequential s) [] 0 (-1) (en_LessonProgress s) = Inr c \<longleftrightarrow>
      A \<and> c = int (length (current_rows (en_LessonProgress s)))"
    if "A \<longleftrightarrow> set (row_ids (en_LessonProgress s)) \<subseteq> set (map ls_ID (en_Lessons s)) \<and>
       distinct (row_ids (en_LessonProgress s)) \<and> (\<forall>p\<in>set (en_LessonProgress s). row_ok p) \<and>
       (en_Sequential s \<longrightarrow> prefix (row_ids (en_LessonProgress s)) (map ls_ID (en_Lessons s)))" for A c
    using that validateProgressRows_iff[where k = 0 and lastIndex = "-1" and seen = "[]" and current = 0]
    by simp
  obtain A where A: "A \<longleftrightarrow> set (row_ids (en_LessonProgress s)) \<subseteq> set (map ls_ID (en_Lessons s)) \<and>
       distinct (row_ids (en_LessonProgress s)) \<and> (\<forall>p\<in>set (en_LessonProgress s). row_ok p) \<and>
       (en_Sequential s \<longrightarrow> prefix (row_ids (en_LessonProgress s)) (map ls_ID (en_Lessons s)))"
    by blast
  have ok: "rows_ok (en_Lessons s) (en_Sequential s) (en_LessonProgress s) \<longleftrightarrow>
      A \<and> length (current_rows (en_LessonProgress s)) \<le> 1"
    unfolding rows_ok_def A by blast
  show ?thesis
  proof (cases "validateProgressRows (en_Lessons s) (en_Sequential s) [] 0 (-1) (en_LessonProgress s)")
    case (Inl err)
    then have "\<not> A" using rows[OF A, of "int (length (current_rows (en_LessonProgress s)))"] by auto
    with Inl True ok show ?thesis by (simp add: validateOutlineAndProgress_def)
  next
    case (Inr c)
    with rows[OF A, of c] have "A" "c = int (length (current_rows (en_LessonProgress s)))" by simp_all
    with Inr True ok out show ?thesis by (auto simp: validateOutlineAndProgress_def)
  qed
qed

text \<open>What \<^verbatim>\<open>validateSnapshot\<close> accepts, in four independent parts.\<close>

definition identity_ok :: "enrollment \<Rightarrow> bool" where
  "identity_ok s \<longleftrightarrow>
     en_ID s \<noteq> '''' \<and> en_CompanyID s \<noteq> '''' \<and> en_CourseID s \<noteq> '''' \<and>
     en_CourseVersionID s \<noteq> '''' \<and> 1 \<le> en_AttemptNumber s \<and> en_CreatedAt s \<noteq> 0 \<and>
     (en_LearnerType s = LearnerUser \<and> (\<exists>u. en_UserID s = Some u \<and> u \<noteq> '''') \<and>
        en_ExternalID s = None \<or>
      en_LearnerType s = LearnerExternal \<and> (\<exists>x. en_ExternalID s = Some x \<and> x \<noteq> '''') \<and>
        en_UserID s = None) \<and>
     validSource (en_SourceType s)"

definition deadline_ok :: "enrollment \<Rightarrow> bool" where
  "deadline_ok s \<longleftrightarrow>
     (en_LearnerType s = LearnerUser \<longrightarrow> en_AccessUntil s = None) \<and>
     (en_LearnerType s = LearnerExternal \<and> en_AccessStatus s = AccessActive \<longrightarrow>
        (\<exists>a u. en_ActivatedAt s = Some a \<and> en_AccessUntil s = Some u \<and> a < u))"

definition learning_ok :: "enrollment \<Rightarrow> bool" where
  "learning_ok s \<longleftrightarrow>
     outline_ok (en_Lessons s) \<and>
     rows_ok (en_Lessons s) (en_Sequential s) (en_LessonProgress s) \<and>
     validProgress (en_ProgressStatus s) \<and>
     (en_ProgressStatus s = ProgressNotStarted \<longrightarrow> en_LessonProgress s = []) \<and>
     (en_ProgressStatus s = ProgressCompleted \<longrightarrow> requiredLessonsComplete s)"

definition enrollment_valid :: "enrollment \<Rightarrow> bool" where
  "enrollment_valid s \<longleftrightarrow> validateSnapshot s = None"

lemma validateIdentity_iff:
  "validateIdentity s = None \<longleftrightarrow>
     en_LearnerType s = LearnerUser \<and> (\<exists>u. en_UserID s = Some u \<and> u \<noteq> '''') \<and>
       en_ExternalID s = None \<or>
     en_LearnerType s = LearnerExternal \<and> (\<exists>x. en_ExternalID s = Some x \<and> x \<noteq> '''') \<and>
       en_UserID s = None"
  by (cases "en_LearnerType s"; cases "en_UserID s"; cases "en_ExternalID s")
    (simp_all add: validateIdentity_def)

lemma deadline_check_iff:
  "(if en_LearnerType s = LearnerExternal \<and> en_AccessStatus s = AccessActive then
      (case (en_ActivatedAt s, en_AccessUntil s) of
         (Some activated, Some until) \<Rightarrow>
           if \<not> activated < until then Some ErrInvalidDeadline else None
       | _ \<Rightarrow> Some ErrExternalDeadlineRequired)
    else None) = None \<longleftrightarrow>
   (en_LearnerType s = LearnerExternal \<and> en_AccessStatus s = AccessActive \<longrightarrow>
      (\<exists>a u. en_ActivatedAt s = Some a \<and> en_AccessUntil s = Some u \<and> a < u))"
  by (auto split: option.splits)

lemma enrollment_valid_iff [valid_iff]:
  "enrollment_valid s \<longleftrightarrow>
     identity_ok s \<and> validAccess (en_AccessStatus s) \<and> deadline_ok s \<and> learning_ok s \<and>
     attempts_ok (en_Lessons s) (en_QuizAttempts s)"
proof -
  have "enrollment_valid s \<longleftrightarrow>
     (en_ID s \<noteq> '''' \<and> en_CompanyID s \<noteq> '''' \<and> en_CourseID s \<noteq> '''' \<and>
      en_CourseVersionID s \<noteq> '''' \<and> \<not> en_AttemptNumber s < 1 \<and> en_CreatedAt s \<noteq> 0) \<and>
     validateIdentity s = None \<and> validSource (en_SourceType s) \<and>
     validProgress (en_ProgressStatus s) \<and> validAccess (en_AccessStatus s) \<and>
     \<not> (en_LearnerType s = LearnerUser \<and> en_AccessUntil s \<noteq> None) \<and>
     (en_LearnerType s = LearnerExternal \<and> en_AccessStatus s = AccessActive \<longrightarrow>
        (\<exists>a u. en_ActivatedAt s = Some a \<and> en_AccessUntil s = Some u \<and> a < u)) \<and>
     validateOutlineAndProgress s = None \<and> validateAttempts s = None"
    unfolding enrollment_valid_def validateSnapshot_def deadline_check_iff[symmetric] by simp
  then show ?thesis
    unfolding validateIdentity_iff validateOutlineAndProgress_iff validateAttempts_iff
      identity_ok_def deadline_ok_def learning_ok_def not_less
    by blast
qed

end
