(* ===== verification/Enrollment_Progress.thy ===== *)
theory Enrollment_Progress
  imports Enrollment_Valid
begin

section \<open>Enrollment: progress rows under the operations\<close>

text \<open>
  The operations change progress rows in place (\<^verbatim>\<open>OpenLesson\<close>, \<^verbatim>\<open>RecordPosition\<close>,
  \<^verbatim>\<open>completeLesson\<close>) or append the next row of a sequential outline. The lemmas here say what
  each change keeps of \<open>rows_ok\<close>, and which lessons are completed afterwards.
\<close>

subsection \<open>Lookups\<close>

lemma progressIndex_neg [simp]:
  "progressIndex rows x < 0 \<longleftrightarrow> x \<notin> set (row_ids rows)"
  by (auto simp: progressIndex_def)

lemma progressIndex_hit:
  assumes "\<not> progressIndex rows x < 0"
  obtains n where "n < length rows" "progressIndex rows x = int n"
    "lp_LessonVersionID (rows ! n) = x"
  using assms unfolding progressIndex_def by (elim go_index_hit) blast

lemma progressByLesson_eq_Some:
  assumes "distinct (row_ids rows)"
  shows "progressByLesson rows x = Some p \<longleftrightarrow> p \<in> set rows \<and> lp_LessonVersionID p = x"
proof -
  have same: "a = b" if "a \<in> set rows" "b \<in> set rows"
      "lp_LessonVersionID a = lp_LessonVersionID b" for a b
    using assms that by (auto simp: distinct_map dest: inj_onD)
  show ?thesis
  proof (cases "progressIndex rows x < 0")
    case True
    then show ?thesis by (auto simp: progressByLesson_def)
  next
    case False
    then obtain n where "n < length rows" "progressIndex rows x = int n"
      "lp_LessonVersionID (rows ! n) = x" by (rule progressIndex_hit)
    note n = this
    then have found: "progressByLesson rows x = Some (rows ! n)" by (simp add: progressByLesson_def)
    show ?thesis
    proof
      assume "progressByLesson rows x = Some p"
      with found n show "p \<in> set rows \<and> lp_LessonVersionID p = x" by auto
    next
      assume "p \<in> set rows \<and> lp_LessonVersionID p = x"
      with same[of p "rows ! n"] n found show "progressByLesson rows x = Some p" by simp
    qed
  qed
qed

lemma progressByLesson_eq_None:
  "progressByLesson rows x = None \<longleftrightarrow> x \<notin> set (row_ids rows)"
  by (simp add: progressByLesson_def Let_def)

text \<open>The lessons completed so far.\<close>

definition completed_ids :: "LessonProgress list \<Rightarrow> ID set" where
  "completed_ids rows =
     {x. \<exists>p\<in>set rows. lp_LessonVersionID p = x \<and> lp_Status p = LessonCompleted}"

lemma progress_completed_iff:
  assumes "distinct (row_ids rows)"
  shows "(case progressByLesson rows x of None \<Rightarrow> False | Some p \<Rightarrow> lp_Status p = LessonCompleted)
     \<longleftrightarrow> x \<in> completed_ids rows"
proof (cases "progressByLesson rows x")
  case None
  then have "x \<notin> completed_ids rows"
    by (auto simp: completed_ids_def progressByLesson_eq_None)
  with None show ?thesis by simp
next
  case (Some p)
  then have "p \<in> set rows" "lp_LessonVersionID p = x"
    using progressByLesson_eq_Some[OF assms] by blast+
  moreover have "q = p" if "q \<in> set rows" "lp_LessonVersionID q = x" for q
    using that Some progressByLesson_eq_Some[OF assms, of x q] by simp
  ultimately have "x \<in> completed_ids rows \<longleftrightarrow> lp_Status p = LessonCompleted"
    unfolding completed_ids_def by blast
  with Some show ?thesis by simp
qed

lemma requiredLessonsComplete_iff:
  assumes "distinct (row_ids (en_LessonProgress s))"
  shows "requiredLessonsComplete s \<longleftrightarrow>
     (\<forall>lesson\<in>set (en_Lessons s). ls_Optional lesson \<or>
        ls_ID lesson \<in> completed_ids (en_LessonProgress s))"
  unfolding requiredLessonsComplete_def list_all_iff progress_completed_iff[OF assms] ..

subsection \<open>Changing one row\<close>

lemma row_ids_update:
  assumes "i < length rows" "lp_LessonVersionID y = lp_LessonVersionID (rows ! i)"
  shows "row_ids (rows[i := y]) = row_ids rows"
  using assms by (metis list_update_id map_update nth_map)

lemma current_rows_update:
  assumes "i < length rows"
  shows "length (current_rows (rows[i := y])) + (if lp_Status (rows ! i) = LessonCurrent then 1 else 0) =
     length (current_rows rows) + (if lp_Status y = LessonCurrent then 1 else 0)"
  using assms
proof (induction rows arbitrary: i)
  case (Cons r rows)
  then show ?case by (cases i) auto
qed simp

lemma rows_ok_update:
  assumes ok: "rows_ok lessons sequential rows" and i: "i < length rows"
    and id: "lp_LessonVersionID y = lp_LessonVersionID (rows ! i)" and y: "row_ok y"
    and cur: "lp_Status y = LessonCurrent \<longrightarrow> lp_Status (rows ! i) = LessonCurrent \<or> current_rows rows = []"
  shows "rows_ok lessons sequential (rows[i := y])"
proof -
  have "\<forall>p\<in>set (rows[i := y]). row_ok p"
    using ok y set_update_subset_insert[of rows i y] by (auto simp: rows_ok_def)
  moreover have "length (current_rows (rows[i := y])) \<le> 1"
    using current_rows_update[OF i, of y] cur ok by (auto simp: rows_ok_def split: if_splits)
  ultimately show ?thesis
    using ok unfolding rows_ok_def row_ids_update[OF i id] by blast
qed

lemma current_none: "currentProgressIndex rows < 0 \<longleftrightarrow> current_rows rows = []"
  by (simp add: currentProgressIndex_def filter_empty_conv)

lemma completed_ids_update:
  assumes "distinct (row_ids rows)" "i < length rows"
    "lp_LessonVersionID y = lp_LessonVersionID (rows ! i)"
  shows "completed_ids (rows[i := y]) =
    (if lp_Status y = LessonCompleted then insert (lp_LessonVersionID y) (completed_ids rows)
     else completed_ids rows - {lp_LessonVersionID y})"
proof -
  have d: "distinct rows" using assms(1) by (simp add: distinct_map)
  have "p \<noteq> rows ! i \<longleftrightarrow> lp_LessonVersionID p \<noteq> lp_LessonVersionID (rows ! i)" if "p \<in> set rows" for p
    using assms(1,2) that by (auto simp: distinct_map dest: inj_onD)
  then show ?thesis
    using assms(2,3) unfolding completed_ids_def set_update_distinct[OF d assms(2)]
    by (auto 0 3)
qed

subsection \<open>The loop that opens the next lesson\<close>

text \<open>
  In a sequential outline the rows are the rows of an initial part of the lessons; a lesson
  without a row whose predecessors all have one is therefore the next to append.
\<close>

lemma prefix_snoc_next:
  assumes "prefix xs (map f ls)" "ls = pre @ l # rest" "distinct (map f ls)"
    "set (map f pre) \<subseteq> set xs" "f l \<notin> set xs"
  shows "xs = map f pre"
proof -
  obtain ys where ys: "map f ls = xs @ ys" using assms(1) by (auto simp: prefix_def)
  have eq: "map f pre @ f l # map f rest = xs @ ys" using ys assms(2) by simp
  have d: "distinct (map f pre @ f l # map f rest)" using assms(2,3) by simp
  consider us where "map f pre = xs @ us" | us where "xs = map f pre @ us" "us \<noteq> []"
    using eq by (metis append_eq_append_conv2 append_Nil2)
  then show ?thesis
  proof cases
    case 1
    then have "set us \<inter> set xs = {}" using d by auto
    then have "us = []" using 1 assms(4) by (cases us) auto
    with 1 show ?thesis by simp
  next
    case 2
    then have "f l \<in> set xs" using eq by (cases us) auto
    with assms(5) show ?thesis by simp
  qed
qed

text \<open>What the loop does in one step: find the first lesson that can be opened, and open it.\<close>

definition can_open :: "enrollment \<Rightarrow> LessonSpec \<Rightarrow> bool" where
  "can_open s lesson \<longleftrightarrow>
     (case progressByLesson (en_LessonProgress s) (ls_ID lesson) of
        Some p \<Rightarrow> lp_Status p \<noteq> LessonCompleted
      | None \<Rightarrow> en_Sequential s)"

definition open_row :: "ID \<Rightarrow> LessonProgress list \<Rightarrow> LessonProgress list" where
  "open_row x rows =
     (let index = progressIndex rows x
      in if index < 0 then rows @ [progress_row x LessonCurrent None]
         else rows[nat index := (rows ! nat index)\<lparr>lp_Status := LessonCurrent\<rparr>])"

lemma unlock_next_find:
  "unlock_next ls s =
     (case List.find (can_open s) ls of
        None \<Rightarrow> (s, '''')
      | Some l \<Rightarrow> (s\<lparr>en_LessonProgress := open_row (ls_ID l) (en_LessonProgress s)\<rparr>, ls_ID l))"
proof (induction ls)
  case (Cons l ls)
  have "can_open s l \<longleftrightarrow>
      (if progressIndex (en_LessonProgress s) (ls_ID l) < 0 then en_Sequential s
       else lp_Status (en_LessonProgress s ! nat (progressIndex (en_LessonProgress s) (ls_ID l)))
              \<noteq> LessonCompleted)"
    unfolding can_open_def progressByLesson_def Let_def by simp
  with Cons.IH show ?case
    unfolding unlock_next.simps find.simps open_row_def update_row_def Let_def not_less[symmetric]
    by (simp del: progressIndex_neg)
qed simp

lemma rows_ok_append:
  assumes "rows_ok lessons sequential rows" "distinct (map ls_ID lessons)"
    "lessons = pre @ l # rest" "row_ids rows = map ls_ID pre" "current_rows rows = []"
  shows "rows_ok lessons sequential (rows @ [progress_row (ls_ID l) LessonCurrent None])"
  using assms by (auto simp: rows_ok_def row_ok_def progress_row_def)

lemma rows_ok_open:
  assumes ok: "rows_ok lessons sequential rows" and i: "i < length rows"
    and "lp_Status (rows ! i) \<noteq> LessonCompleted" "current_rows rows = []"
  shows "rows_ok lessons sequential (rows[i := (rows ! i)\<lparr>lp_Status := LessonCurrent\<rparr>])"
proof (rule rows_ok_update[OF ok i])
  have "row_ok (rows ! i)" using ok i by (simp add: rows_ok_def)
  with assms(3) show "row_ok ((rows ! i)\<lparr>lp_Status := LessonCurrent\<rparr>)" by (auto simp: row_ok_def)
qed (use assms(4) in simp_all)

lemma find_first:
  assumes "List.find P xs = Some x"
  obtains pre rest where "xs = pre @ x # rest" "P x" "\<forall>y\<in>set pre. \<not> P y"
  using assms
proof (induction xs arbitrary: thesis)
  case (Cons y ys)
  show ?case
  proof (cases "P y")
    case True
    with Cons.prems show ?thesis by (intro Cons.prems(1)[of "[]" ys]) auto
  next
    case False
    with Cons.prems(2) obtain pre rest where "ys = pre @ x # rest" "P x" "\<forall>z\<in>set pre. \<not> P z"
      using Cons.IH by auto
    with False show ?thesis by (intro Cons.prems(1)[of "y # pre" rest]) auto
  qed
qed simp

lemma unlock_next_rows_ok:
  assumes ok: "rows_ok (en_Lessons s) (en_Sequential s) (en_LessonProgress s)"
    and d: "distinct (map ls_ID (en_Lessons s))" and none: "current_rows (en_LessonProgress s) = []"
    and find: "List.find (can_open s) (en_Lessons s) = Some l"
  shows "rows_ok (en_Lessons s) (en_Sequential s) (open_row (ls_ID l) (en_LessonProgress s))"
proof -
  let ?rows = "en_LessonProgress s"
  have dr: "distinct (row_ids ?rows)" using ok by (simp add: rows_ok_def)
  obtain pre rest where split: "en_Lessons s = pre @ l # rest" and l: "can_open s l"
    and pre: "\<forall>y\<in>set pre. \<not> can_open s y" using find by (rule find_first)
  show ?thesis
  proof (cases "progressIndex ?rows (ls_ID l) < 0")
    case True
    then have "ls_ID l \<notin> set (row_ids ?rows)" by simp
    moreover have seq: "en_Sequential s"
      using l True by (auto simp: can_open_def progressByLesson_def)
    moreover have "set (map ls_ID pre) \<subseteq> set (row_ids ?rows)"
    proof
      fix x assume "x \<in> set (map ls_ID pre)"
      then obtain y where "y \<in> set pre" "x = ls_ID y" by auto
      with pre have "\<not> can_open s y" by blast
      with seq \<open>x = ls_ID y\<close> have "progressByLesson ?rows x \<noteq> None"
        by (cases "progressByLesson ?rows x") (auto simp: can_open_def)
      then show "x \<in> set (row_ids ?rows)" by (simp add: progressByLesson_eq_None)
    qed
    ultimately have "row_ids ?rows = map ls_ID pre"
      using ok split d by (intro prefix_snoc_next[of _ ls_ID "en_Lessons s" pre l rest])
        (auto simp: rows_ok_def)
    from rows_ok_append[OF ok d split this none] True show ?thesis by (simp add: open_row_def)
  next
    case False
    then obtain n where n: "n < length ?rows" "progressIndex ?rows (ls_ID l) = int n"
      by (rule progressIndex_hit)
    then have "lp_Status (?rows ! n) \<noteq> LessonCompleted"
      using l by (simp add: can_open_def progressByLesson_def)
    from rows_ok_open[OF ok n(1) this none] n(2) show ?thesis by (simp add: open_row_def)
  qed
qed

lemma completed_ids_append:
  "completed_ids (rows @ [progress_row x LessonCurrent t]) = completed_ids rows"
  by (auto simp: completed_ids_def progress_row_def)

lemma completed_ids_nth:
  assumes "distinct (row_ids rows)" "n < length rows"
  shows "lp_LessonVersionID (rows ! n) \<in> completed_ids rows \<longleftrightarrow> lp_Status (rows ! n) = LessonCompleted"
  using assms by (auto simp: completed_ids_def distinct_map dest: inj_onD)

lemma completed_ids_open_row:
  assumes "distinct (row_ids rows)" "x \<notin> completed_ids rows"
  shows "completed_ids (open_row x rows) = completed_ids rows"
proof (cases "progressIndex rows x < 0")
  case True
  then show ?thesis by (simp add: open_row_def completed_ids_append)
next
  case False
  then obtain n where "n < length rows" "progressIndex rows x = int n"
    "lp_LessonVersionID (rows ! n) = x" by (rule progressIndex_hit)
  with assms show ?thesis by (simp add: open_row_def completed_ids_update)
qed

lemma can_open_not_completed:
  assumes "distinct (row_ids (en_LessonProgress s))" "can_open s l"
  shows "ls_ID l \<notin> completed_ids (en_LessonProgress s)"
  using assms(2) unfolding progress_completed_iff[OF assms(1), symmetric] can_open_def
  by (simp split: option.splits)

subsection \<open>Completing a lesson\<close>

lemma mark_completed_simps [simp]:
  "en_LessonProgress (mark_completed n at s) = (en_LessonProgress s)
     [n := (en_LessonProgress s ! n)\<lparr>lp_Status := LessonCompleted, lp_CompletedAt := Some at,
        lp_FirstOpenedAt := (if lp_FirstOpenedAt (en_LessonProgress s ! n) = None then Some at
                             else lp_FirstOpenedAt (en_LessonProgress s ! n))\<rparr>]"
  "en_Lessons (mark_completed n at s) = en_Lessons s"
  "en_Sequential (mark_completed n at s) = en_Sequential s"
  "en_ProgressStatus (mark_completed n at s) = en_ProgressStatus s"
  "en_QuizAttempts (mark_completed n at s) = en_QuizAttempts s"
  by (simp_all add: mark_completed_def update_row_def)

lemma mark_completed_rows_ok:
  assumes "rows_ok (en_Lessons s) (en_Sequential s) (en_LessonProgress s)"
    and "n < length (en_LessonProgress s)"
  shows "rows_ok (en_Lessons s) (en_Sequential s) (en_LessonProgress (mark_completed n at s))"
  unfolding mark_completed_simps
proof (rule rows_ok_update[OF assms])
  have "row_ok (en_LessonProgress s ! n)" using assms by (simp add: rows_ok_def)
  then show "row_ok ((en_LessonProgress s ! n)\<lparr>lp_Status := LessonCompleted,
      lp_CompletedAt := Some at, lp_FirstOpenedAt :=
        (if lp_FirstOpenedAt (en_LessonProgress s ! n) = None then Some at
         else lp_FirstOpenedAt (en_LessonProgress s ! n))\<rparr>)"
    by (simp add: row_ok_def)
qed simp_all

lemma mark_completed_completed:
  assumes "distinct (row_ids (en_LessonProgress s))" "n < length (en_LessonProgress s)"
  shows "completed_ids (en_LessonProgress (mark_completed n at s)) =
     insert (lp_LessonVersionID (en_LessonProgress s ! n)) (completed_ids (en_LessonProgress s))"
  using assms by (simp add: completed_ids_update)

text \<open>The three ways \<^verbatim>\<open>completeLesson\<close> succeeds.\<close>

lemma completeLesson_cases:
  assumes "completeLesson s x at = Inr (s', next, done)"
  obtains n where "n < length (en_LessonProgress s)" "lp_LessonVersionID (en_LessonProgress s ! n) = x"
    "lp_Status (en_LessonProgress s ! n) \<noteq> LessonCompleted" "en_ProgressStatus s \<noteq> ProgressCompleted"
    "requiredLessonsComplete (mark_completed n at s)" "done" "next = ''''"
    "s' = (mark_completed n at s)\<lparr>en_ProgressStatus := ProgressCompleted, en_CompletedAt := Some at\<rparr>"
  | n where "n < length (en_LessonProgress s)" "lp_LessonVersionID (en_LessonProgress s ! n) = x"
    "lp_Status (en_LessonProgress s ! n) \<noteq> LessonCompleted" "en_ProgressStatus s \<noteq> ProgressCompleted"
    "\<not> requiredLessonsComplete (mark_completed n at s)" "\<not> done" "next = ''''"
    "s' = mark_completed n at s"
  | n l where "n < length (en_LessonProgress s)" "lp_LessonVersionID (en_LessonProgress s ! n) = x"
    "lp_Status (en_LessonProgress s ! n) \<noteq> LessonCompleted" "en_ProgressStatus s \<noteq> ProgressCompleted"
    "\<not> requiredLessonsComplete (mark_completed n at s)" "\<not> done" "next = ls_ID l"
    "current_rows (en_LessonProgress (mark_completed n at s)) = []"
    "List.find (can_open (mark_completed n at s)) (en_Lessons s) = Some l"
    "s' = (mark_completed n at s)\<lparr>en_LessonProgress :=
        open_row (ls_ID l) (en_LessonProgress (mark_completed n at s))\<rparr>"
proof -
  from assms have "\<not> progressIndex (en_LessonProgress s) x < 0"
    by (auto simp: completeLesson_def Let_def split: if_splits)
  then obtain n where n: "n < length (en_LessonProgress s)" "progressIndex (en_LessonProgress s) x = int n"
    "lp_LessonVersionID (en_LessonProgress s ! n) = x" by (rule progressIndex_hit)
  let ?m = "mark_completed n at s"
  from assms n(2) have pend: "en_ProgressStatus s \<noteq> ProgressCompleted"
      "lp_Status (en_LessonProgress s ! n) \<noteq> LessonCompleted"
    by (auto simp: completeLesson_def Let_def split: if_splits)
  from assms n(2) pend have result: "(if requiredLessonsComplete ?m
      then (?m\<lparr>en_ProgressStatus := ProgressCompleted, en_CompletedAt := Some at\<rparr>, '''', True)
      else if currentProgressIndex (en_LessonProgress ?m) < 0
      then (case unlock_next (en_Lessons ?m) ?m of (s', next) \<Rightarrow> (s', next, False))
      else (?m, '''', False)) = (s', next, done)"
    unfolding completeLesson_def Let_def by (auto simp del: mark_completed_simps split: if_splits prod.splits)
  show thesis
  proof (cases "requiredLessonsComplete ?m")
    case True
    with result show thesis by (intro that(1)[OF n(1,3) pend(2,1)]) simp_all
  next
    case False
    note F = False
    show thesis
    proof (cases "currentProgressIndex (en_LessonProgress ?m) < 0 \<and> List.find (can_open ?m) (en_Lessons s) \<noteq> None")
      case True
      then obtain l where l: "List.find (can_open ?m) (en_Lessons s) = Some l" by blast
      from True have "current_rows (en_LessonProgress ?m) = []" by (simp only: current_none)
      with F result True l show thesis
        by (intro that(3)[OF n(1,3) pend(2,1) F _ _ _ l])
          (auto simp: unlock_next_find simp del: mark_completed_simps(1))
    next
      case False
      with F result show thesis
        by (intro that(2)[OF n(1,3) pend(2,1) F])
          (auto simp: unlock_next_find simp del: mark_completed_simps(1) split: if_splits)
    qed
  qed
qed

lemma completeLesson_learning_ok:
  assumes ok: "learning_ok s" and res: "completeLesson s x at = Inr (s', next, done)"
  shows "learning_ok s'"
proof -
  have rows: "rows_ok (en_Lessons s) (en_Sequential s) (en_LessonProgress s)"
    and d: "distinct (map ls_ID (en_Lessons s))" and ne: "outline_ok (en_Lessons s)"
    using ok by (simp_all add: learning_ok_def outline_ok_def)
  have started: "en_ProgressStatus s = ProgressInProgress"
    if "n < length (en_LessonProgress s)" "en_ProgressStatus s \<noteq> ProgressCompleted" for n
    using ok that by (auto simp: learning_ok_def validProgress_def)
  from res show ?thesis
  proof (cases rule: completeLesson_cases)
    case (1 n)
    have "requiredLessonsComplete s'" using 1(5) 1(8) by (simp add: requiredLessonsComplete_def)
    with 1 mark_completed_rows_ok[OF rows 1(1)] ne show ?thesis
      by (simp add: learning_ok_def validProgress_def del: mark_completed_simps(1))
  next
    case (2 n)
    with mark_completed_rows_ok[OF rows 2(1)] ne started[OF 2(1,4)] show ?thesis
      by (simp add: learning_ok_def validProgress_def del: mark_completed_simps(1))
  next
    case (3 n l)
    from mark_completed_rows_ok[OF rows 3(1)] d 3(8,9)
    have "rows_ok (en_Lessons s) (en_Sequential s)
        (open_row (ls_ID l) (en_LessonProgress (mark_completed n at s)))"
      using unlock_next_rows_ok[of "mark_completed n at s" l]
      by (simp del: mark_completed_simps(1))
    with 3(10) ne started[OF 3(1,4)] show ?thesis
      by (simp add: learning_ok_def validProgress_def del: mark_completed_simps(1))
  qed
qed

text \<open>Completing a lesson completes that lesson and no other.\<close>

lemma completeLesson_completed:
  assumes ok: "rows_ok (en_Lessons s) (en_Sequential s) (en_LessonProgress s)"
    and res: "completeLesson s x at = Inr (s', next, done)"
  shows "completed_ids (en_LessonProgress s') = insert x (completed_ids (en_LessonProgress s))"
    and "x \<notin> completed_ids (en_LessonProgress s)" and "x \<in> set (row_ids (en_LessonProgress s))"
proof -
  have d: "distinct (row_ids (en_LessonProgress s))" using ok by (simp add: rows_ok_def)
  note mark = mark_completed_completed[OF d]
  show "x \<notin> completed_ids (en_LessonProgress s)" "x \<in> set (row_ids (en_LessonProgress s))"
    using res completed_ids_nth[OF d] by (cases rule: completeLesson_cases; force)+
  from res show "completed_ids (en_LessonProgress s') = insert x (completed_ids (en_LessonProgress s))"
  proof (cases rule: completeLesson_cases)
    case (1 n)
    with mark[OF 1(1)] show ?thesis by (simp del: mark_completed_simps(1))
  next
    case (2 n)
    with mark[OF 2(1)] show ?thesis by (simp del: mark_completed_simps(1))
  next
    case (3 n l)
    have dm: "distinct (row_ids (en_LessonProgress (mark_completed n at s)))"
      using mark_completed_rows_ok[OF ok 3(1)] by (simp add: rows_ok_def)
    have "can_open (mark_completed n at s) l" using 3(9) by (rule find_first) blast
    from can_open_not_completed[OF dm this] mark[OF 3(1)] 3(2,10) completed_ids_open_row[OF dm]
    show ?thesis by (simp del: mark_completed_simps(1))
  qed
qed

text \<open>\<^verbatim>\<open>completeLesson\<close> touches the rows, the two completion fields and the activity time only.\<close>

lemma completeLesson_frame:
  assumes "completeLesson s x at = Inr (s', next, done)"
  shows "\<exists>rows status c. s' = s\<lparr>en_LessonProgress := rows, en_ProgressStatus := status,
            en_CompletedAt := c, en_LastActivityAt := Some at\<rparr>"
proof -
  have same: "\<exists>rows status c. s\<lparr>en_LessonProgress := r, en_LastActivityAt := Some at\<rparr> =
      s\<lparr>en_LessonProgress := rows, en_ProgressStatus := status, en_CompletedAt := c,
        en_LastActivityAt := Some at\<rparr>" for r
    by (intro exI[of _ r] exI[of _ "en_ProgressStatus s"] exI[of _ "en_CompletedAt s"]) simp
  from assms show ?thesis
  proof (cases rule: completeLesson_cases)
    case (1 n)
    show ?thesis unfolding 1(8)
      by (rule exI[of _ "en_LessonProgress (mark_completed n at s)"], rule exI[of _ ProgressCompleted],
          rule exI[of _ "Some at"]) (simp add: mark_completed_def update_row_def)
  next
    case (2 n)
    show ?thesis unfolding 2(8) mark_completed_def update_row_def using same by simp
  next
    case (3 n l)
    let ?r = "open_row (ls_ID l) (en_LessonProgress (mark_completed n at s))"
    have "s' = s\<lparr>en_LessonProgress := ?r, en_LastActivityAt := Some at\<rparr>"
      unfolding 3(10) by (simp add: mark_completed_def update_row_def)
    with same[of ?r] show ?thesis by simp
  qed
qed

subsection \<open>The gate of a sequential course\<close>

text \<open>In a sequential course every row but the last is completed: a lesson is opened only when
  all lessons before it are done.\<close>

definition sequential_gate :: "enrollment \<Rightarrow> bool" where
  "sequential_gate s \<longleftrightarrow>
     (en_Sequential s \<longrightarrow> (\<forall>p\<in>set (butlast (en_LessonProgress s)). lp_Status p = LessonCompleted))"

lemma gate_update:
  assumes "\<forall>p\<in>set (butlast rows). lp_Status p = LessonCompleted" "i < length rows"
    "lp_Status (rows ! i) = LessonCompleted \<longrightarrow> lp_Status y = LessonCompleted"
  shows "\<forall>p\<in>set (butlast (rows[i := y])). lp_Status p = LessonCompleted"
proof (cases "i = length rows - 1")
  case True
  with assms(1) show ?thesis by (simp add: butlast_list_update)
next
  case False
  with assms(2) have "i < length (butlast rows)" by simp
  then have "rows ! i \<in> set (butlast rows)" by (metis nth_butlast nth_mem)
  with assms have "lp_Status y = LessonCompleted" by metis
  with assms(1) False show ?thesis
    using set_update_subset_insert[of "butlast rows" i y] by (auto simp: butlast_list_update)
qed

lemma completed_ids_subset: "completed_ids rows \<subseteq> set (row_ids rows)"
  by (auto simp: completed_ids_def)

lemma gate_mark_completed:
  assumes "sequential_gate s" "n < length (en_LessonProgress s)"
  shows "sequential_gate (mark_completed n at s)"
  using assms unfolding sequential_gate_def mark_completed_simps
  by (intro impI gate_update) simp_all

lemma gate_open_row:
  assumes gate: "sequential_gate s" and d: "distinct (row_ids (en_LessonProgress s))"
    and sub: "set (row_ids (en_LessonProgress s)) \<subseteq> set (map ls_ID (en_Lessons s))"
    and ok: "rows_ok (en_Lessons s) (en_Sequential s) (en_LessonProgress s)"
    and dl: "distinct (map ls_ID (en_Lessons s))"
    and find: "List.find (can_open s) (en_Lessons s) = Some l"
  shows "sequential_gate (s\<lparr>en_LessonProgress := open_row (ls_ID l) (en_LessonProgress s)\<rparr>)"
proof (cases "en_Sequential s \<and> progressIndex (en_LessonProgress s) (ls_ID l) < 0")
  case True
  let ?rows = "en_LessonProgress s"
  obtain pre rest where split: "en_Lessons s = pre @ l # rest"
    and pre: "\<forall>y\<in>set pre. \<not> can_open s y" using find by (rule find_first)
  have compl: "ls_ID y \<in> completed_ids ?rows" if "y \<in> set pre" for y
    using pre that True unfolding progress_completed_iff[OF d, symmetric]
    by (auto simp: can_open_def split: option.splits)
  have "set (map ls_ID pre) \<subseteq> set (row_ids ?rows)"
    using compl completed_ids_subset by fastforce
  moreover have "ls_ID l \<notin> set (row_ids ?rows)" using True by simp
  ultimately have ids: "row_ids ?rows = map ls_ID pre"
    using ok split dl True by (intro prefix_snoc_next[of _ ls_ID "en_Lessons s" pre l rest])
      (auto simp: rows_ok_def)
  have "lp_Status p = LessonCompleted" if "p \<in> set ?rows" for p
  proof -
    from that ids have "lp_LessonVersionID p \<in> ls_ID ` set pre" by (metis image_eqI set_map)
    with compl have "lp_LessonVersionID p \<in> completed_ids ?rows" by auto
    with that d show ?thesis by (auto simp: completed_ids_def distinct_map dest: inj_onD)
  qed
  with True show ?thesis by (simp add: sequential_gate_def open_row_def)
next
  case False
  show ?thesis
  proof (cases "en_Sequential s")
    case True
    with False obtain n where n: "n < length (en_LessonProgress s)"
      "progressIndex (en_LessonProgress s) (ls_ID l) = int n"
      by (auto elim: progressIndex_hit simp del: progressIndex_neg)
    from find have "can_open s l" by (rule find_first) blast
    then have "lp_Status (en_LessonProgress s ! n) \<noteq> LessonCompleted"
      using n by (simp add: can_open_def progressByLesson_def)
    with gate n True gate_update[of "en_LessonProgress s" n] show ?thesis
      by (simp add: sequential_gate_def open_row_def)
  qed (simp add: sequential_gate_def)
qed

lemma completeLesson_gate:
  assumes ok: "learning_ok s" and gate: "sequential_gate s"
    and res: "completeLesson s x at = Inr (s', next, done)"
  shows "sequential_gate s'"
proof -
  have rows: "rows_ok (en_Lessons s) (en_Sequential s) (en_LessonProgress s)"
    and d: "distinct (map ls_ID (en_Lessons s))"
    using ok by (simp_all add: learning_ok_def outline_ok_def)
  from res show ?thesis
  proof (cases rule: completeLesson_cases)
    case (1 n)
    with gate_mark_completed[OF gate 1(1)] show ?thesis by (simp add: sequential_gate_def)
  next
    case (2 n)
    with gate_mark_completed[OF gate 2(1)] show ?thesis by simp
  next
    case (3 n l)
    let ?m = "mark_completed n at s"
    have m: "rows_ok (en_Lessons ?m) (en_Sequential ?m) (en_LessonProgress ?m)"
      using mark_completed_rows_ok[OF rows 3(1)] by simp
    from gate_open_row[OF gate_mark_completed[OF gate 3(1)] _ _ m, of l] m d 3(9,10)
    show ?thesis unfolding 3(10) by (simp add: rows_ok_def del: mark_completed_simps(1))
  qed
qed

end
