(* ===== verification/Enrollment_Machine.thy ===== *)
theory Enrollment_Machine
  imports Enrollment_Progress
begin

section \<open>Enrollment: the aggregate as a state machine\<close>

text \<open>
  The methods of \<^verbatim>\<open>Enrollment\<close> that change it, as the commands of one state machine driven by
  the server clock. A run starts from \<^verbatim>\<open>New\<close>; the application layer stores the snapshot after every command and
  loads it again through \<^verbatim>\<open>Rehydrate\<close>, so the invariant of the machine has to contain everything
  \<^verbatim>\<open>Rehydrate\<close> asks for.
\<close>

datatype enrollment_cmd = Cmd_Activate Activation | Cmd_EvaluateDeadline time
  | Cmd_Extend time duration | Cmd_Freeze time | Cmd_Reactivate time time | Cmd_Suspend time
  | Cmd_ResumeAfterBlock time | Cmd_Revoke time | Cmd_Close time | Cmd_Resume time
  | Cmd_View ID time | Cmd_Open ID time | Cmd_Position ID int "string option" time
  | Cmd_Complete ID time | Cmd_Submit QuizSubmission | Cmd_Review Review

fun exec_enrollment :: "enrollment_cmd \<Rightarrow> enrollment \<Rightarrow> enrollment" where
  "exec_enrollment (Cmd_Activate p) e = fst (Enrollment_Activate e p)"
| "exec_enrollment (Cmd_EvaluateDeadline at) e = fst (EvaluateDeadline e at)"
| "exec_enrollment (Cmd_Extend at d) e = fst (ExtendExternalAccess e at d)"
| "exec_enrollment (Cmd_Freeze at) e = fst (FreezeForArchive e at)"
| "exec_enrollment (Cmd_Reactivate at until) e = fst (ReactivateFrozen e at until)"
| "exec_enrollment (Cmd_Suspend at) e = fst (SuspendForBlock e at)"
| "exec_enrollment (Cmd_ResumeAfterBlock at) e = fst (ResumeAfterBlock e at)"
| "exec_enrollment (Cmd_Revoke at) e = fst (Enrollment_Revoke e at)"
| "exec_enrollment (Cmd_Close at) e = fst (Enrollment_Close e at)"
| "exec_enrollment (Cmd_Resume at) e = fst (Enrollment_Resume e at)"
| "exec_enrollment (Cmd_View x at) e = fst (CanViewLesson e x at)"
| "exec_enrollment (Cmd_Open x at) e = fst (OpenLesson e x at)"
| "exec_enrollment (Cmd_Position x secs pos at) e = fst (RecordPosition e x secs pos at)"
| "exec_enrollment (Cmd_Complete x at) e = fst (CompleteLesson e x at)"
| "exec_enrollment (Cmd_Submit p) e = fst (SubmitQuiz e p)"
| "exec_enrollment (Cmd_Review p) e = fst (ReviewAttempt e p)"

fun cmd_time :: "enrollment_cmd \<Rightarrow> time" where
  "cmd_time (Cmd_Activate p) = act_At p"
| "cmd_time (Cmd_EvaluateDeadline at) = at"
| "cmd_time (Cmd_Extend at d) = at"
| "cmd_time (Cmd_Freeze at) = at"
| "cmd_time (Cmd_Reactivate at until) = at"
| "cmd_time (Cmd_Suspend at) = at"
| "cmd_time (Cmd_ResumeAfterBlock at) = at"
| "cmd_time (Cmd_Revoke at) = at"
| "cmd_time (Cmd_Close at) = at"
| "cmd_time (Cmd_Resume at) = at"
| "cmd_time (Cmd_View x at) = at"
| "cmd_time (Cmd_Open x at) = at"
| "cmd_time (Cmd_Position x secs pos at) = at"
| "cmd_time (Cmd_Complete x at) = at"
| "cmd_time (Cmd_Submit p) = qs_At p"
| "cmd_time (Cmd_Review p) = rv_At p"

text \<open>
  Two commands can be accepted and leave a snapshot that can no longer be loaded: \<^verbatim>\<open>ReactivateFrozen\<close> sets
  a deadline and does not look at the kind of learner or at whether the run was ever activated, and
  \<^verbatim>\<open>RecordPosition\<close> adds to the \<^verbatim>\<open>int64\<close> counter of its lesson without a bound. A run that has received such a
  command is lost, since every later request begins with \<^verbatim>\<open>Rehydrate\<close>.
\<close>

fun cmd_allowed :: "enrollment \<Rightarrow> enrollment_cmd \<Rightarrow> bool" where
  "cmd_allowed e (Cmd_Reactivate at until) \<longleftrightarrow>
     (snd (ReactivateFrozen e at until) = None \<longrightarrow> en_LearnerType e = LearnerExternal \<and> en_ActivatedAt e \<noteq> None)"
| "cmd_allowed e (Cmd_Position x secs pos at) \<longleftrightarrow>
     (snd (RecordPosition e x secs pos at) = None \<longrightarrow>
       (\<forall>p\<in>set (en_LessonProgress e). lp_LessonVersionID p = x \<longrightarrow> in_int64 (lp_ActiveSeconds p + secs)))"
| "cmd_allowed e _ \<longleftrightarrow> True"

text \<open>The commands of a machine whose snapshot can be loaded, in the order of their times; one that
  loses the snapshot, or comes before an earlier time, is left out.\<close>

type_synonym clocked = "enrollment \<times> time"

definition tick :: "enrollment_cmd \<Rightarrow> clocked \<Rightarrow> clocked" where
  "tick c = (\<lambda>(e, clock).
     if clock \<le> cmd_time c \<and> cmd_allowed e c then (exec_enrollment c e, cmd_time c) else (e, clock))"

subsection \<open>The invariant\<close>

text \<open>The identity of a run and everything it is pinned to.\<close>

definition pin :: "enrollment \<Rightarrow> (ID \<times> ID \<times> ID \<times> ID) \<times> (LearnerType \<times> ID option \<times> ID option) \<times>
    (SourceType \<times> ID option \<times> int) \<times> bool \<times> LessonSpec list \<times> time" where
  "pin e = ((en_ID e, en_CompanyID e, en_CourseID e, en_CourseVersionID e),
     (en_LearnerType e, en_UserID e, en_ExternalID e),
     (en_SourceType e, en_SourceID e, en_AttemptNumber e), en_Sequential e, en_Lessons e,
     en_CreatedAt e)"

definition same_learning :: "enrollment \<Rightarrow> enrollment \<Rightarrow> bool" where
  "same_learning e e' \<longleftrightarrow> pin e' = pin e \<and> en_LessonProgress e' = en_LessonProgress e \<and>
     en_ProgressStatus e' = en_ProgressStatus e \<and> en_QuizAttempts e' = en_QuizAttempts e"

text \<open>A completed lesson with a quiz has a passed attempt of that quiz.\<close>

definition quiz_gate :: "enrollment \<Rightarrow> bool" where
  "quiz_gate e \<longleftrightarrow>
     (\<forall>lesson\<in>set (en_Lessons e). \<forall>q. ls_QuizID lesson = Some q \<longrightarrow>
        ls_ID lesson \<in> completed_ids (en_LessonProgress e) \<longrightarrow>
        (\<exists>a\<in>set (en_QuizAttempts e). qa_QuizVersionID a = q \<and> qa_Passed a))"

text \<open>The access a suspended run returns to.\<close>

definition base_access :: "enrollment \<Rightarrow> AccessStatus" where
  "base_access e =
     (if en_AccessStatus e = AccessSuspended
      then (case en_PreviousAccess e of Some p \<Rightarrow> p | None \<Rightarrow> AccessSuspended)
      else en_AccessStatus e)"

definition deadline_set :: "enrollment \<Rightarrow> bool" where
  "deadline_set e \<longleftrightarrow>
     (\<exists>a u. en_ActivatedAt e = Some a \<and> en_AccessUntil e = Some u \<and> a < u)"

definition access_inv :: "enrollment \<Rightarrow> time \<Rightarrow> bool" where
  "access_inv e clock \<longleftrightarrow>
     validAccess (en_AccessStatus e) \<and>
     (\<forall>a. en_ActivatedAt e = Some a \<longrightarrow> a \<le> clock) \<and>
     (en_AccessStatus e = AccessSuspended \<longrightarrow>
        (\<exists>s p. en_SuspendedAt e = Some s \<and> s \<le> clock \<and> en_PreviousAccess e = Some p \<and>
           validAccess p \<and> p \<noteq> AccessSuspended \<and> p \<noteq> AccessRevoked \<and> p \<noteq> AccessClosed)) \<and>
     (en_LearnerType e = LearnerUser \<longrightarrow> en_AccessUntil e = None) \<and>
     (en_LearnerType e = LearnerExternal \<and>
        (base_access e = AccessActive \<or> base_access e = AccessExpired) \<longrightarrow> deadline_set e)"

definition learning_inv :: "enrollment \<Rightarrow> bool" where
  "learning_inv e \<longleftrightarrow>
     identity_ok e \<and> learning_ok e \<and> attempts_ok (en_Lessons e) (en_QuizAttempts e) \<and>
     sequential_gate e \<and> quiz_gate e"

lemma inv_valid: "learning_inv e \<Longrightarrow> access_inv e clock \<Longrightarrow> enrollment_valid e"
  unfolding enrollment_valid_iff learning_inv_def access_inv_def deadline_ok_def
    base_access_def deadline_set_def by auto

lemma same_learning_inv:
  assumes "same_learning e e'"
  shows "learning_inv e' \<longleftrightarrow> learning_inv e"
  using assms
  by (simp add: same_learning_def pin_def learning_inv_def identity_ok_def learning_ok_def
      requiredLessonsComplete_def sequential_gate_def quiz_gate_def)

lemma access_inv_mono: "access_inv e clock \<Longrightarrow> clock \<le> clock' \<Longrightarrow> access_inv e clock'"
  unfolding access_inv_def by fastforce

subsection \<open>Access transitions\<close>

lemma EvaluateDeadline_same [simp]: "same_learning e (fst (EvaluateDeadline e at))"
  by (simp add: EvaluateDeadline_def same_learning_def pin_def)

lemma access_commands_same:
  "same_learning e (fst (ExtendExternalAccess e at d))"
  "same_learning e (fst (FreezeForArchive e at))"
  "same_learning e (fst (ReactivateFrozen e at until))"
  "same_learning e (fst (SuspendForBlock e at))"
  "same_learning e (fst (ResumeAfterBlock e at))"
  "same_learning e (fst (Enrollment_Revoke e at))"
  "same_learning e (fst (Enrollment_Close e at))"
  "same_learning e (fst (Enrollment_Resume e at))"
  "same_learning e (fst (CanViewLesson e x at))"
  by (simp_all add: same_learning_def pin_def EvaluateDeadline_def ExtendExternalAccess_def
      FreezeForArchive_def ReactivateFrozen_def SuspendForBlock_def ResumeAfterBlock_def
      Enrollment_Revoke_def Enrollment_Close_def Enrollment_Resume_def CanViewLesson_def Let_def
      split: option.splits AccessStatus.splits)

lemma guard_ok [simp]: "snd (if c then (e, Some x) else t) = None \<longleftrightarrow> \<not> c \<and> snd t = None"
  by simp

lemma EvaluateDeadline_access:
  "access_inv e clock \<Longrightarrow> clock \<le> at \<Longrightarrow> access_inv (fst (EvaluateDeadline e at)) at"
  by (drule (1) access_inv_mono)
    (auto simp: EvaluateDeadline_def access_inv_def base_access_def deadline_set_def validAccess_def
      split: option.splits)

lemma ExtendExternalAccess_access:
  assumes "access_inv e clock" "clock \<le> at"
  shows "access_inv (fst (ExtendExternalAccess e at d)) at"
proof -
  have inv: "access_inv e at" using assms by (rule access_inv_mono)
  show ?thesis
  proof (cases "snd (ExtendExternalAccess e at d) = None")
    case False
    with inv show ?thesis by (auto simp: ExtendExternalAccess_def Let_def split: if_splits)
  next
    case True
    then have kind: "en_LearnerType e = LearnerExternal" and day: "Day \<le> d"
      and status: "en_AccessStatus e = AccessActive \<or> en_AccessStatus e = AccessExpired"
      by (auto simp: ExtendExternalAccess_def split: if_splits)
    define base where "base = (case en_AccessUntil e of
                      Some until \<Rightarrow>
                        if en_AccessStatus e = AccessActive \<and> at < until then until else at
                    | None \<Rightarrow> at)"
    have base_le: "at \<le> base" by (simp add: base_def split: option.splits)
    have base_eq: "fst (ExtendExternalAccess e at d) =
        e\<lparr>en_AccessStatus := AccessActive, en_AccessUntil := Some (base + d),
          en_LastActivityAt := Some at\<rparr>"
      using True unfolding ExtendExternalAccess_def Let_def UTC_def base_def[symmetric] guard_ok
      by (elim conjE) (simp only: if_False fst_conv)
    from status inv kind obtain a where a: "en_ActivatedAt e = Some a" "a \<le> at"
      by (auto simp: access_inv_def base_access_def deadline_set_def)
    have "0 < d" using day Day_pos(1) by linarith
    with a base_le have "a < base + d" by linarith
    with inv kind a show ?thesis unfolding base_eq
      by (auto simp: access_inv_def base_access_def deadline_set_def validAccess_def)
  qed
qed

lemma FreezeForArchive_access:
  "access_inv e clock \<Longrightarrow> clock \<le> at \<Longrightarrow> access_inv (fst (FreezeForArchive e at)) at"
  by (drule (1) access_inv_mono)
    (auto simp: FreezeForArchive_def access_inv_def base_access_def deadline_set_def validAccess_def)

lemma ReactivateFrozen_access:
  assumes "access_inv e clock" "clock \<le> at"
    "cmd_allowed e (Cmd_Reactivate at until)"
  shows "access_inv (fst (ReactivateFrozen e at until)) at"
  using access_inv_mono[OF assms(1,2)] assms(3)
  by (auto simp: ReactivateFrozen_def access_inv_def base_access_def deadline_set_def validAccess_def)

lemma SuspendForBlock_access:
  "access_inv e clock \<Longrightarrow> clock \<le> at \<Longrightarrow> access_inv (fst (SuspendForBlock e at)) at"
  by (drule (1) access_inv_mono)
    (auto simp: SuspendForBlock_def access_inv_def base_access_def deadline_set_def validAccess_def)

lemma ResumeAfterBlock_access:
  assumes "access_inv e clock" "clock \<le> at"
  shows "access_inv (fst (ResumeAfterBlock e at)) at"
proof (cases "snd (ResumeAfterBlock e at) = None")
  case False
  with access_inv_mono[OF assms] show ?thesis
    by (auto simp: ResumeAfterBlock_def Let_def split: if_splits option.splits AccessStatus.splits)
next
  case True
  then obtain s p where s: "en_AccessStatus e = AccessSuspended" "en_SuspendedAt e = Some s"
      "en_PreviousAccess e = Some p" "at \<noteq> 0" "s \<le> at"
    by (auto simp: ResumeAfterBlock_def split: if_splits option.splits AccessStatus.splits)
  then have "0 \<le> Time_Sub at s" by (simp add: Time_Sub_nonneg)
  with s access_inv_mono[OF assms] show ?thesis
    by (auto simp: ResumeAfterBlock_def Let_def access_inv_def base_access_def deadline_set_def
        split: option.splits)
qed

lemma revoke_close_access:
  "access_inv e clock \<Longrightarrow> clock \<le> at \<Longrightarrow> access_inv (fst (Enrollment_Revoke e at)) at"
  "access_inv e clock \<Longrightarrow> clock \<le> at \<Longrightarrow> access_inv (fst (Enrollment_Close e at)) at"
  by (drule (1) access_inv_mono,
    auto simp: Enrollment_Revoke_def Enrollment_Close_def access_inv_def base_access_def
      deadline_set_def validAccess_def)+

lemma read_access:
  assumes "access_inv e clock" "clock \<le> at"
  shows "access_inv (fst (Enrollment_Resume e at)) at" "access_inv (fst (CanViewLesson e x at)) at"
  using EvaluateDeadline_access[OF assms] access_inv_mono[OF assms]
  by (simp_all add: Enrollment_Resume_def CanViewLesson_def Let_def)

subsection \<open>Activation\<close>

lemma seed_open_rows:
  "map (\<lambda>(index, lesson).
     if index = 0 then progress_row (ls_ID lesson) LessonCurrent (Some at)
     else progress_row (ls_ID lesson) LessonAvailable None) (enumerate (Suc n) ls) =
   map (\<lambda>lesson. progress_row (ls_ID lesson) LessonAvailable None) ls"
  by (induction ls arbitrary: n) simp_all

lemma seedProgress_rows:
  assumes "outline_ok (en_Lessons s)"
  shows "rows_ok (en_Lessons s) (en_Sequential s) (en_LessonProgress (seedProgress s at))"
    and "completed_ids (en_LessonProgress (seedProgress s at)) = {}"
    and "en_Sequential s \<Longrightarrow> butlast (en_LessonProgress (seedProgress s at)) = []"
proof -
  obtain l ls where ls: "en_Lessons s = l # ls" using assms by (cases "en_Lessons s") (auto simp: outline_ok_def)
  let ?open = "map (\<lambda>lesson. progress_row (ls_ID lesson) LessonAvailable None) ls"
  have tail: "row_ids ?open = map ls_ID ls" "current_rows ?open = []"
    "\<forall>p\<in>set ?open. row_ok p" "completed_ids ?open = {}"
    by (auto simp: progress_row_def row_ok_def completed_ids_def filter_empty_conv)
  have rows: "en_LessonProgress (seedProgress s at) =
      progress_row (ls_ID l) LessonCurrent (Some at) # (if en_Sequential s then [] else ?open)"
    by (simp add: seedProgress_def ls seed_open_rows)
  show "en_Sequential s \<Longrightarrow> butlast (en_LessonProgress (seedProgress s at)) = []"
    by (simp add: rows)
  show "completed_ids (en_LessonProgress (seedProgress s at)) = {}"
    using tail(4) by (auto simp: rows completed_ids_def progress_row_def)
  show "rows_ok (en_Lessons s) (en_Sequential s) (en_LessonProgress (seedProgress s at))"
    using assms tail unfolding rows ls rows_ok_def
    by (auto simp: outline_ok_def progress_row_def row_ok_def o_def)
qed

lemma seedProgress_frame:
  "seedProgress s at = s\<lparr>en_LessonProgress := en_LessonProgress (seedProgress s at)\<rparr>"
  by (simp add: seedProgress_def)

lemma seedProgress_keeps [simp]:
  "en_AccessStatus (seedProgress s at) = en_AccessStatus s"
  "en_ActivatedAt (seedProgress s at) = en_ActivatedAt s"
  "en_AccessUntil (seedProgress s at) = en_AccessUntil s"
  "en_SuspendedAt (seedProgress s at) = en_SuspendedAt s"
  "en_PreviousAccess (seedProgress s at) = en_PreviousAccess s"
  "en_ProgressStatus (seedProgress s at) = en_ProgressStatus s"
  "en_QuizAttempts (seedProgress s at) = en_QuizAttempts s"
  "pin (seedProgress s at) = pin s"
  by (simp_all add: seedProgress_def pin_def)

lemma pin_fields:
  assumes "pin e' = pin e"
  shows "en_Lessons e' = en_Lessons e" "en_Sequential e' = en_Sequential e"
    "en_LearnerType e' = en_LearnerType e" "identity_ok e' \<longleftrightarrow> identity_ok e"
  using assms by (simp_all add: pin_def identity_ok_def)

text \<open>The four conditions under which \<^verbatim>\<open>Activate\<close> starts the run.\<close>

lemma Activate_cases:
  obtains "fst (Enrollment_Activate e p) = e"
  | "en_AccessStatus e = AccessInvited \<or> en_AccessStatus e = AccessReady" "act_At p \<noteq> 0"
    "en_LearnerType e = LearnerExternal \<longrightarrow> Day \<le> act_Duration p"
    "fst (Enrollment_Activate e p) = seedProgress
       (e\<lparr>en_AccessUntil := (if en_LearnerType e = LearnerExternal then Some (act_At p + act_Duration p)
                            else en_AccessUntil e),
          en_AccessStatus := AccessActive, en_ProgressStatus := ProgressInProgress,
          en_ActivatedAt := Some (act_At p), en_StartedAt := Some (act_At p),
          en_LastActivityAt := Some (act_At p)\<rparr>) (act_At p)"
    "en_Lessons e \<noteq> []"
proof (cases "fst (Enrollment_Activate e p) = e")
  case True
  then show thesis by (rule that(1))
next
  case False
  then show thesis
    by (intro that(2)) (auto simp: Enrollment_Activate_def Let_def split: if_split_asm)
qed

lemma Activate_learning:
  assumes "learning_inv e"
  shows "learning_inv (fst (Enrollment_Activate e p))"
proof (cases rule: Activate_cases[of e p])
  case 1
  with assms show ?thesis by simp
next
  case 2
  let ?s = "e\<lparr>en_AccessUntil := (if en_LearnerType e = LearnerExternal then Some (act_At p + act_Duration p)
                            else en_AccessUntil e),
          en_AccessStatus := AccessActive, en_ProgressStatus := ProgressInProgress,
          en_ActivatedAt := Some (act_At p), en_StartedAt := Some (act_At p),
          en_LastActivityAt := Some (act_At p)\<rparr>"
  have out: "outline_ok (en_Lessons ?s)" using assms by (simp add: learning_inv_def learning_ok_def)
  have pin: "pin (seedProgress ?s (act_At p)) = pin e" by (simp add: pin_def[of e]) (simp add: pin_def)
  show ?thesis
    using seedProgress_rows[OF out, of "act_At p"] assms out unfolding 2(4)
    by (simp add: learning_inv_def learning_ok_def pin_fields[OF pin] validProgress_def
        sequential_gate_def quiz_gate_def)
qed

lemma Activate_access:
  assumes "access_inv e clock" "clock \<le> act_At p" "identity_ok e"
  shows "access_inv (fst (Enrollment_Activate e p)) (act_At p)"
proof (cases rule: Activate_cases[of e p])
  case 1
  with assms access_inv_mono show ?thesis by simp
next
  case 2
  have d: "0 < act_Duration p" if "en_LearnerType e = LearnerExternal"
    using that 2(3) Day_pos(1) by linarith
  have kind: "en_LearnerType (seedProgress s at) = en_LearnerType s" for s at
    by (simp add: seedProgress_def)
  from assms(1) d show ?thesis unfolding 2(4)
    by (auto simp: access_inv_def base_access_def deadline_set_def validAccess_def kind)
qed

subsection \<open>Lessons\<close>

text \<open>Replacing one row keeps the learning invariant when the row keeps its lesson and whether it
  is completed.\<close>

lemma learning_inv_update:
  assumes inv: "learning_inv e" and i: "i < length (en_LessonProgress e)"
    and id: "lp_LessonVersionID y = lp_LessonVersionID (en_LessonProgress e ! i)" and y: "row_ok y"
    and cur: "lp_Status y = LessonCurrent \<longrightarrow> lp_Status (en_LessonProgress e ! i) = LessonCurrent \<or>
        current_rows (en_LessonProgress e) = []"
    and compl: "lp_Status y = LessonCompleted \<longleftrightarrow>
        lp_Status (en_LessonProgress e ! i) = LessonCompleted"
  shows "learning_inv (e\<lparr>en_LessonProgress := (en_LessonProgress e)[i := y]\<rparr>)"
proof -
  let ?rows = "en_LessonProgress e"
  let ?e = "e\<lparr>en_LessonProgress := ?rows[i := y]\<rparr>"
  have ok: "rows_ok (en_Lessons e) (en_Sequential e) ?rows"
    using inv by (simp add: learning_inv_def learning_ok_def)
  have d: "distinct (row_ids ?rows)" using ok by (simp add: rows_ok_def)
  have same: "completed_ids (?rows[i := y]) = completed_ids ?rows"
    using completed_ids_update[OF d i id] completed_ids_nth[OF d i] compl id by auto
  have rows: "rows_ok (en_Lessons e) (en_Sequential e) (?rows[i := y])"
    by (rule rows_ok_update[OF ok i id y cur])
  then have d': "distinct (row_ids (?rows[i := y]))" by (simp add: rows_ok_def)
  have req: "requiredLessonsComplete ?e \<longleftrightarrow> requiredLessonsComplete e"
    using requiredLessonsComplete_iff[of ?e] requiredLessonsComplete_iff[of e] d d' same by simp
  have "learning_ok ?e" using inv rows req i by (auto simp: learning_inv_def learning_ok_def)
  moreover have "sequential_gate ?e"
    using inv gate_update[OF _ i, of y] compl by (simp add: learning_inv_def sequential_gate_def)
  moreover have "identity_ok ?e" using inv by (simp add: learning_inv_def identity_ok_def)
  ultimately show ?thesis using inv same by (simp add: learning_inv_def quiz_gate_def)
qed

end
