(* ===== verification/Enrollment_Lessons.thy ===== *)
theory Enrollment_Lessons
  imports Enrollment_Machine
begin

section \<open>Enrollment: lessons and quiz attempts under the invariant\<close>

text \<open>
  \<^verbatim>\<open>OpenLesson\<close>, \<^verbatim>\<open>RecordPosition\<close>, \<^verbatim>\<open>CompleteLesson\<close> (\<^verbatim>\<open>progress.go\<close>), \<^verbatim>\<open>SubmitQuiz\<close> and
  \<^verbatim>\<open>ReviewAttempt\<close> (\<^verbatim>\<open>quiz.go\<close>): the states each of them can leave, and that all of them satisfy the
  learning invariant of the machine.
\<close>

lemma learning_inv_activity [simp]:
  "learning_inv (e\<lparr>en_LastActivityAt := t\<rparr>) \<longleftrightarrow> learning_inv e"
  by (rule same_learning_inv) (simp add: same_learning_def pin_def)

lemma CanView_learning: "learning_inv e \<Longrightarrow> learning_inv (fst (CanViewLesson e x at))"
  using same_learning_inv[OF access_commands_same(9)] by blast

text \<open>What a lesson command does once the lesson may be viewed: it replaces the row of the lesson.\<close>

definition row_step :: "enrollment \<Rightarrow> nat \<Rightarrow> LessonProgress \<Rightarrow> bool" where
  "row_step e n y \<longleftrightarrow>
     n < length (en_LessonProgress e) \<and>
     lp_LessonVersionID y = lp_LessonVersionID (en_LessonProgress e ! n) \<and>
     (lp_Status y = lp_Status (en_LessonProgress e ! n) \<or>
      lp_Status (en_LessonProgress e ! n) = LessonAvailable \<and> lp_Status y = LessonCurrent \<and>
        current_rows (en_LessonProgress e) = []) \<and>
     lp_CompletedAt y = lp_CompletedAt (en_LessonProgress e ! n) \<and>
     (0 \<le> lp_ActiveSeconds (en_LessonProgress e ! n) \<longrightarrow> 0 \<le> lp_ActiveSeconds y)"

lemma row_step_learning:
  assumes inv: "learning_inv e" and y: "row_step e n y"
  shows "learning_inv (e\<lparr>en_LessonProgress := (en_LessonProgress e)[n := y], en_LastActivityAt := t\<rparr>)"
proof -
  have "row_ok (en_LessonProgress e ! n)"
    using inv y by (auto simp: learning_inv_def learning_ok_def rows_ok_def row_step_def)
  then have "row_ok y" using y by (auto simp: row_ok_def row_step_def)
  then have "learning_inv (e\<lparr>en_LessonProgress := (en_LessonProgress e)[n := y]\<rparr>)"
    using y by (intro learning_inv_update[OF inv]) (auto simp: row_step_def)
  then show ?thesis by simp
qed

lemma open_row_step:
  fixes e :: enrollment and at :: time
  defines "first \<equiv> (\<lambda>p. if lp_FirstOpenedAt p = None then p\<lparr>lp_FirstOpenedAt := Some at\<rparr> else p)"
  assumes n: "n < length (en_LessonProgress e)"
  obtains y where "row_step e n y"
    "(let e1 = update_row n first e
      in if lp_Status (en_LessonProgress e1 ! n) = LessonAvailable \<and>
            currentProgressIndex (en_LessonProgress e1) < 0
         then update_row n (\<lambda>p. p\<lparr>lp_Status := LessonCurrent\<rparr>) e1 else e1) =
     e\<lparr>en_LessonProgress := (en_LessonProgress e)[n := y]\<rparr>"
proof -
  let ?rows = "en_LessonProgress e"
  let ?p = "first (?rows ! n)"
  have p: "lp_Status ?p = lp_Status (?rows ! n)" "lp_LessonVersionID ?p = lp_LessonVersionID (?rows ! n)"
    "lp_CompletedAt ?p = lp_CompletedAt (?rows ! n)" "lp_ActiveSeconds ?p = lp_ActiveSeconds (?rows ! n)"
    by (simp_all add: first_def)
  have none: "current_rows (?rows[n := ?p]) = [] \<longleftrightarrow> current_rows ?rows = []"
    using current_rows_update[OF n, of ?p] p(1) by (simp split: if_splits flip: length_0_conv)
  show thesis
  proof (cases "lp_Status (?rows ! n) = LessonAvailable \<and> current_rows ?rows = []")
    case True
    with n p none show thesis
      by (intro that[of "?p\<lparr>lp_Status := LessonCurrent\<rparr>"])
        (simp_all add: row_step_def update_row_def Let_def current_none)
  next
    case False
    with n p none show thesis
      by (intro that[of ?p]) (auto simp: row_step_def update_row_def Let_def current_none)
  qed
qed

text \<open>Every state \<^verbatim>\<open>OpenLesson\<close> and \<^verbatim>\<open>RecordPosition\<close> leave.\<close>

lemma OpenLesson_cases:
  obtains "fst (OpenLesson e x at) = e" | "fst (OpenLesson e x at) = fst (CanViewLesson e x at)"
  | n y where "row_step (fst (CanViewLesson e x at)) n y"
    "fst (OpenLesson e x at) = (fst (CanViewLesson e x at))\<lparr>en_LessonProgress :=
       (en_LessonProgress (fst (CanViewLesson e x at)))[n := y], en_LastActivityAt := Some at\<rparr>"
proof -
  obtain e' err where view: "CanViewLesson e x at = (e', err)" by fastforce
  show thesis
  proof (cases "at = 0 \<or> err \<noteq> None \<or> progressIndex (en_LessonProgress e') x < 0")
    case True
    then show thesis using view that(1,2)
      by (cases "at = 0") (auto simp: OpenLesson_def Let_def split: option.splits)
  next
    case False
    then obtain n where n: "n < length (en_LessonProgress e')" "progressIndex (en_LessonProgress e') x = int n"
      using progressIndex_hit by blast
    obtain y where y: "row_step e' n y" and eq: "(let e1 = update_row n
          (\<lambda>p. if lp_FirstOpenedAt p = None then p\<lparr>lp_FirstOpenedAt := Some at\<rparr> else p) e'
        in if lp_Status (en_LessonProgress e1 ! n) = LessonAvailable \<and>
              currentProgressIndex (en_LessonProgress e1) < 0
           then update_row n (\<lambda>p. p\<lparr>lp_Status := LessonCurrent\<rparr>) e1 else e1) =
       e'\<lparr>en_LessonProgress := (en_LessonProgress e')[n := y]\<rparr>"
      by (rule open_row_step[OF n(1), of at])
    have "fst (OpenLesson e x at) = (let e1 = update_row n
          (\<lambda>p. if lp_FirstOpenedAt p = None then p\<lparr>lp_FirstOpenedAt := Some at\<rparr> else p) e'
        in if lp_Status (en_LessonProgress e1 ! n) = LessonAvailable \<and>
              currentProgressIndex (en_LessonProgress e1) < 0
           then update_row n (\<lambda>p. p\<lparr>lp_Status := LessonCurrent\<rparr>) e1 else e1)
        \<lparr>en_LastActivityAt := Some at\<rparr>"
      using False view n by (simp add: OpenLesson_def Let_def del: progressIndex_neg)
    then have "fst (OpenLesson e x at) =
        e'\<lparr>en_LessonProgress := (en_LessonProgress e')[n := y], en_LastActivityAt := Some at\<rparr>"
      unfolding eq .
    with y view that(3)[of n y] show thesis by simp
  qed
qed

lemma RecordPosition_cases:
  assumes "cmd_allowed e (Cmd_Position x secs pos at)"
  obtains "fst (RecordPosition e x secs pos at) = e"
  | "fst (RecordPosition e x secs pos at) = fst (CanViewLesson e x at)"
  | n y where "row_step (fst (CanViewLesson e x at)) n y"
    "fst (RecordPosition e x secs pos at) = (fst (CanViewLesson e x at))\<lparr>en_LessonProgress :=
       (en_LessonProgress (fst (CanViewLesson e x at)))[n := y], en_LastActivityAt := Some at\<rparr>"
proof -
  obtain e' err where view: "CanViewLesson e x at = (e', err)" by fastforce
  have rows: "en_LessonProgress e' = en_LessonProgress e"
    using access_commands_same(9)[of e x at] view by (simp add: same_learning_def)
  show thesis
  proof (cases "at = 0 \<or> secs < 0 \<or> err \<noteq> None \<or> progressIndex (en_LessonProgress e') x < 0")
    case True
    then show thesis using view that(1,2)
      by (cases "at = 0 \<or> secs < 0") (auto simp: RecordPosition_def Let_def split: option.splits)
  next
    case False
    then obtain n where n: "n < length (en_LessonProgress e')" "progressIndex (en_LessonProgress e') x = int n"
      "lp_LessonVersionID (en_LessonProgress e' ! n) = x"
      using progressIndex_hit by blast
    let ?p = "en_LessonProgress e' ! n"
    let ?y = "?p\<lparr>lp_ActiveSeconds := wrap64 (lp_ActiveSeconds ?p + secs), lp_LastPosition := pos\<rparr>"
    have "lp_LessonVersionID ?p = x" by (rule n(3))
    moreover have "snd (RecordPosition e x secs pos at) = None"
      using False view n by (simp add: RecordPosition_def Let_def del: progressIndex_neg)
    ultimately have "in_int64 (lp_ActiveSeconds ?p + secs)" using n(1) assms rows by simp
    then have "row_step e' n ?y" using n False by (simp add: row_step_def)
    moreover have "fst (RecordPosition e x secs pos at) =
        e'\<lparr>en_LessonProgress := (en_LessonProgress e')[n := ?y], en_LastActivityAt := Some at\<rparr>"
      using False view n
      by (simp add: RecordPosition_def Let_def update_row_def del: progressIndex_neg)
    ultimately show thesis using that(3)[of n ?y] view by simp
  qed
qed

lemma OpenLesson_learning:
  assumes "learning_inv e"
  shows "learning_inv (fst (OpenLesson e x at))"
  using assms CanView_learning[OF assms, of x at]
  by (cases rule: OpenLesson_cases[of e x at]) (simp_all add: row_step_learning del: learning_inv_activity)

lemma RecordPosition_learning:
  assumes "learning_inv e" "cmd_allowed e (Cmd_Position x secs pos at)"
  shows "learning_inv (fst (RecordPosition e x secs pos at))"
  using assms(1) CanView_learning[OF assms(1), of x at]
  by (cases rule: RecordPosition_cases[OF assms(2)]) (simp_all add: row_step_learning del: learning_inv_activity)

lemma completeLesson_identity:
  assumes "completeLesson s x at = Inr (s', next, done)"
  shows "pin s' = pin s" "en_QuizAttempts s' = en_QuizAttempts s"
    "en_AccessStatus s' = en_AccessStatus s" "en_AccessUntil s' = en_AccessUntil s"
    "en_ActivatedAt s' = en_ActivatedAt s" "en_SuspendedAt s' = en_SuspendedAt s"
    "en_PreviousAccess s' = en_PreviousAccess s"
  using completeLesson_frame[OF assms] by (auto simp: pin_def)

text \<open>Completing a lesson keeps the invariant when its quiz, if it has one, has a passed attempt.\<close>

lemma completeLesson_learning:
  assumes inv: "learning_inv s" and res: "completeLesson s x at = Inr (s', next, done)"
    and quiz: "\<And>lesson q. lesson \<in> set (en_Lessons s) \<Longrightarrow> ls_ID lesson = x \<Longrightarrow> ls_QuizID lesson = Some q \<Longrightarrow>
       \<exists>a\<in>set (en_QuizAttempts s). qa_QuizVersionID a = q \<and> qa_Passed a"
  shows "learning_inv s'"
proof -
  have ok: "learning_ok s" and gate: "sequential_gate s" and q: "quiz_gate s"
    using inv by (simp_all add: learning_inv_def)
  have rows: "rows_ok (en_Lessons s) (en_Sequential s) (en_LessonProgress s)"
    using ok by (simp add: learning_ok_def)
  note frame = completeLesson_identity[OF res] pin_fields[OF completeLesson_identity(1)[OF res]]
  have "quiz_gate s'"
    using q quiz unfolding quiz_gate_def completeLesson_completed(1)[OF rows res] frame by blast
  with inv completeLesson_learning_ok[OF ok res] completeLesson_gate[OF ok gate res] show ?thesis
    by (simp add: learning_inv_def frame)
qed

lemma lessonByID_in: "lessonByID lessons x = Some l \<Longrightarrow> l \<in> set lessons \<and> ls_ID l = x"
  by (auto simp: lessonByID_def find_Some_iff)

lemma lessonByID_unique:
  assumes "distinct (map ls_ID lessons)" "lessonByID lessons x = Some l" "l' \<in> set lessons" "ls_ID l' = x"
  shows "l' = l"
  using assms lessonByID_in[OF assms(2)] by (auto simp: distinct_map dest: inj_onD)

lemma CompleteLesson_learning:
  assumes "learning_inv e"
  shows "learning_inv (fst (CompleteLesson e x at))"
proof (cases "at = 0 \<or> (\<forall>l. lessonByID (en_Lessons e) x = Some l \<longrightarrow> ls_QuizID l \<noteq> None)")
  case True
  with assms show ?thesis by (auto simp: CompleteLesson_def split: option.splits)
next
  case False
  then obtain l where l: "at \<noteq> 0" "lessonByID (en_Lessons e) x = Some l" "ls_QuizID l = None" by blast
  obtain e' err where view: "CanViewLesson e x at = (e', err)" by fastforce
  with assms CanView_learning[of e x at] have inv: "learning_inv e'" by simp
  have "pin e' = pin e" using access_commands_same(9)[of e x at] view by (simp add: same_learning_def)
  note same = pin_fields[OF this]
  have d: "distinct (map ls_ID (en_Lessons e'))"
    using inv by (simp add: learning_inv_def learning_ok_def outline_ok_def)
  show ?thesis
  proof (cases "err = None \<and> (\<exists>r. completeLesson e' x at = Inr r)")
    case True
    then obtain s' nxt dn where r: "completeLesson e' x at = Inr (s', nxt, dn)" by auto
    have "learning_inv s'"
      using lessonByID_unique[OF d] l same by (intro completeLesson_learning[OF inv r]) fastforce
    with True l view r show ?thesis by (simp add: CompleteLesson_def)
  next
    case False
    with l view inv show ?thesis
      by (cases "completeLesson e' x at"; cases err) (auto simp: CompleteLesson_def)
  qed
qed

subsection \<open>Quiz attempts\<close>

lemma attempts_ok_snoc:
  assumes ok: "attempts_ok lessons attempts" and a: "attempt_ok lessons a"
    and new: "qa_ID a \<notin> set (map qa_ID attempts)"
    and n: "qa_Number a = attemptsForQuiz attempts (qa_QuizVersionID a) + 1"
  shows "attempts_ok lessons (attempts @ [a])"
proof -
  have "distinct (quiz_numbers (attempts @ [a]) quiz) \<and> set (quiz_numbers (attempts @ [a]) quiz) =
      {1..int (length (quiz_numbers (attempts @ [a]) quiz))}" for quiz
  proof (cases "qa_QuizVersionID a = quiz")
    case False
    with ok show ?thesis by (simp add: attempts_ok_def)
  next
    case True
    let ?ns = "quiz_numbers attempts quiz"
    have ns: "distinct ?ns" "set ?ns = {1..int (length ?ns)}"
      using ok unfolding attempts_ok_def by blast+
    have next_number: "qa_Number a = int (length ?ns) + 1"
      using n True by (simp add: attemptsForQuiz_def)
    have "quiz_numbers (attempts @ [a]) quiz = ?ns @ [int (length ?ns) + 1]"
      using True next_number by simp
    moreover have "distinct (?ns @ [int (length ?ns) + 1])"
      using ns by (simp del: set_map)
    moreover have "set (?ns @ [int (length ?ns) + 1]) = {1..int (length ?ns) + 1}"
      unfolding set_append ns(2) by auto
    ultimately show ?thesis by (simp only: length_append) simp
  qed
  with ok a new show ?thesis unfolding attempts_ok_def by auto
qed

lemma attempts_ok_update:
  assumes ok: "attempts_ok lessons attempts" and i: "i < length attempts"
    and a: "attempt_ok lessons a" "qa_ID a = qa_ID (attempts ! i)"
    "qa_QuizVersionID a = qa_QuizVersionID (attempts ! i)" "qa_Number a = qa_Number (attempts ! i)"
  shows "attempts_ok lessons (attempts[i := a])"
proof -
  have ids: "map qa_ID (attempts[i := a]) = map qa_ID attempts"
    using i a(2) by (metis list_update_id map_update nth_map)
  have numbers: "quiz_numbers (attempts[i := a]) quiz = quiz_numbers attempts quiz" for quiz
    using i a(3,4)
  proof (induction attempts arbitrary: i)
    case (Cons b bs)
    then show ?case by (cases i) auto
  qed simp
  have "\<forall>b\<in>set (attempts[i := a]). attempt_ok lessons b"
    using ok a(1) set_update_subset_insert[of attempts i a] unfolding attempts_ok_def by blast
  with ok show ?thesis unfolding attempts_ok_def ids numbers by blast
qed

lemma learning_inv_attempts:
  assumes inv: "learning_inv e" and ok: "attempts_ok (en_Lessons e) attempts"
    and keep: "\<And>a. a \<in> set (en_QuizAttempts e) \<Longrightarrow> qa_Passed a \<Longrightarrow> a \<in> set attempts"
  shows "learning_inv (e\<lparr>en_QuizAttempts := attempts, en_LastActivityAt := t\<rparr>)"
proof -
  let ?e = "e\<lparr>en_QuizAttempts := attempts, en_LastActivityAt := t\<rparr>"
  have "identity_ok ?e = identity_ok e" "learning_ok ?e = learning_ok e"
    "sequential_gate ?e = sequential_gate e"
    by (simp_all add: identity_ok_def learning_ok_def requiredLessonsComplete_def sequential_gate_def)
  moreover have "quiz_gate ?e"
    using inv keep by (simp add: learning_inv_def quiz_gate_def) blast
  ultimately show ?thesis using inv ok by (simp add: learning_inv_def)
qed

text \<open>The attempt \<^verbatim>\<open>SubmitQuiz\<close> appends, and the two ways it succeeds.\<close>

definition new_attempt :: "enrollment \<Rightarrow> QuizSubmission \<Rightarrow> QuizAttempt" where
  "new_attempt e p =
     \<lparr>qa_ID = qs_AttemptID p, qa_QuizVersionID = qs_QuizVersionID p, qa_LessonID = qs_LessonID p,
      qa_Number = attemptsForQuiz (en_QuizAttempts e) (qs_QuizVersionID p) + 1,
      qa_Score = qs_Score p, qa_Passed = (\<not> qs_PendingReview p \<and> qs_PassingScore p \<le> qs_Score p),
      qa_PendingReview = qs_PendingReview p, qa_CreatedAt = qs_At p\<rparr>"

abbreviation with_attempt :: "enrollment \<Rightarrow> QuizSubmission \<Rightarrow> enrollment" where
  "with_attempt e p \<equiv> e\<lparr>en_QuizAttempts := en_QuizAttempts e @ [new_attempt e p],
     en_LastActivityAt := Some (qs_At p)\<rparr>"

definition attempt_decision :: "QuizAttempt \<Rightarrow> QuizDecision" where
  "attempt_decision a =
     (if qa_PendingReview a then QuizPendingReview else if qa_Passed a then QuizPassed else QuizFailed)"

text \<open>The conditions \<^verbatim>\<open>SubmitQuiz\<close> checks before it records an attempt.\<close>

definition submit_accepted :: "enrollment \<Rightarrow> QuizSubmission \<Rightarrow> bool" where
  "submit_accepted e p \<longleftrightarrow>
     submit_args_error p = None \<and>
     (\<exists>lesson. lessonByID (en_Lessons e) (qs_LessonID p) = Some lesson \<and>
        ls_QuizID lesson = Some (qs_QuizVersionID p)) \<and>
     snd (CanViewLesson e (qs_LessonID p) (qs_At p)) = None \<and>
     en_ProgressStatus e \<noteq> ProgressCompleted \<and>
     (\<forall>a\<in>set (en_QuizAttempts e). qa_ID a \<noteq> qs_AttemptID p \<and>
        \<not> (qa_QuizVersionID a = qs_QuizVersionID p \<and> qa_PendingReview a)) \<and>
     (\<forall>m. qs_MaxAttempts p = Some m \<longrightarrow> attemptsForQuiz (en_QuizAttempts e) (qs_QuizVersionID p) < m)"

lemma SubmitQuiz_refused: "\<not> submit_accepted e p \<Longrightarrow> \<exists>err. SubmitQuiz e p = (e, Inl err)"
  by (auto simp: SubmitQuiz_def submit_accepted_def Let_def attempt_conflict_def
      split: option.splits prod.splits if_splits)

lemma SubmitQuiz_accepted:
  assumes "submit_accepted e p"
  shows "SubmitQuiz e p =
    (case settle_attempt (with_attempt e p) (qs_LessonID p) (qs_At p) (qa_Passed (new_attempt e p))
        \<lparr>qo_AttemptNumber = qa_Number (new_attempt e p), qo_Decision = attempt_decision (new_attempt e p),
         qo_CompletedLessonID = None, qo_UnlockedLessonID = None, qo_EnrollmentComplete = False\<rparr> of
       Inl err \<Rightarrow> (e, Inl (ProgressErr err))
     | Inr (e', outcome) \<Rightarrow> (e', Inr outcome))"
proof -
  obtain lesson where "lessonByID (en_Lessons e) (qs_LessonID p) = Some lesson"
    "ls_QuizID lesson = Some (qs_QuizVersionID p)" "submit_args_error p = None"
    "en_ProgressStatus e \<noteq> ProgressCompleted"
    using assms unfolding submit_accepted_def by blast
  moreover obtain e' where "CanViewLesson e (qs_LessonID p) (qs_At p) = (e', None)"
    using assms unfolding submit_accepted_def by (metis prod.collapse)
  moreover have "first_error (attempt_conflict (qs_AttemptID p) (qs_QuizVersionID p)) (en_QuizAttempts e) = None"
    using assms by (simp add: submit_accepted_def attempt_conflict_def)
  moreover have "\<not> (case qs_MaxAttempts p of None \<Rightarrow> False
      | Some m \<Rightarrow> m \<le> attemptsForQuiz (en_QuizAttempts e) (qs_QuizVersionID p))"
    using assms by (auto simp: submit_accepted_def split: option.splits)
  ultimately show ?thesis
    by (simp add: SubmitQuiz_def Let_def new_attempt_def attempt_decision_def del: first_error_None)
qed

lemma new_attempt_ok: "submit_accepted e p \<Longrightarrow> attempt_ok (en_Lessons e) (new_attempt e p)"
  by (auto simp: submit_accepted_def submit_args_error_def new_attempt_def attempt_ok_def
      attemptsForQuiz_def split: if_splits)

lemma with_attempt_learning:
  assumes "learning_inv e" "submit_accepted e p"
  shows "learning_inv (with_attempt e p)"
proof (rule learning_inv_attempts[OF assms(1)])
  show "attempts_ok (en_Lessons e) (en_QuizAttempts e @ [new_attempt e p])"
  proof (rule attempts_ok_snoc)
    show "attempts_ok (en_Lessons e) (en_QuizAttempts e)" using assms(1) by (simp add: learning_inv_def)
    show "attempt_ok (en_Lessons e) (new_attempt e p)" using assms(2) by (rule new_attempt_ok)
    show "qa_ID (new_attempt e p) \<notin> set (map qa_ID (en_QuizAttempts e))"
      using assms(2) by (auto simp: submit_accepted_def new_attempt_def)
  qed (simp add: new_attempt_def)
qed simp

text \<open>Settling an attempt keeps the invariant when a passed lesson has a passed attempt.\<close>

lemma settle_learning:
  assumes inv: "learning_inv s" and res: "settle_attempt s x at passed out = Inr (s', out')"
    and quiz: "\<And>lesson q. passed \<Longrightarrow> lesson \<in> set (en_Lessons s) \<Longrightarrow> ls_ID lesson = x \<Longrightarrow>
       ls_QuizID lesson = Some q \<Longrightarrow> \<exists>a\<in>set (en_QuizAttempts s). qa_QuizVersionID a = q \<and> qa_Passed a"
  shows "learning_inv s'"
proof (cases passed)
  case False
  with res inv show ?thesis by (simp add: settle_attempt_def)
next
  case True
  with res obtain nxt dn where "completeLesson s x at = Inr (s', nxt, dn)"
    by (auto simp: settle_attempt_def split: sum.splits)
  from completeLesson_learning[OF inv this] quiz True show ?thesis by blast
qed

lemma SubmitQuiz_learning:
  assumes inv: "learning_inv e"
  shows "learning_inv (fst (SubmitQuiz e p))"
proof (cases "submit_accepted e p")
  case False
  with inv SubmitQuiz_refused[OF False] show ?thesis by auto
next
  case True
  note inv' = with_attempt_learning[OF inv True]
  have d: "distinct (map ls_ID (en_Lessons e))"
    using inv by (simp add: learning_inv_def learning_ok_def outline_ok_def)
  obtain l where l: "lessonByID (en_Lessons e) (qs_LessonID p) = Some l"
    "ls_QuizID l = Some (qs_QuizVersionID p)" using True by (auto simp: submit_accepted_def)
  have quiz: "\<exists>a\<in>set (en_QuizAttempts (with_attempt e p)). qa_QuizVersionID a = q \<and> qa_Passed a"
    if "qa_Passed (new_attempt e p)" "lesson \<in> set (en_Lessons (with_attempt e p))"
      "ls_ID lesson = qs_LessonID p" "ls_QuizID lesson = Some q" for lesson q
    using that l lessonByID_unique[OF d l(1), of lesson]
    by (intro bexI[of _ "new_attempt e p"]) (auto simp: new_attempt_def)
  show ?thesis
    using settle_learning[OF inv' _ quiz] inv unfolding SubmitQuiz_accepted[OF True]
    by (auto split: sum.splits prod.splits)
qed

lemma attemptIndex_hit:
  assumes "\<not> attemptIndex attempts x < 0"
  obtains n where "n < length attempts" "attemptIndex attempts x = int n" "qa_ID (attempts ! n) = x"
  using assms unfolding attemptIndex_def by (elim go_index_hit) blast

text \<open>Every way \<^verbatim>\<open>ReviewAttempt\<close> returns.\<close>

lemma ReviewAttempt_cases:
  obtains err where "ReviewAttempt e p = (e, Inl err)"
  | n e' out where "n < length (en_QuizAttempts e)" "qa_ID (en_QuizAttempts e ! n) = rv_AttemptID p"
    "qa_PendingReview (en_QuizAttempts e ! n)"
    "settle_attempt (e\<lparr>en_QuizAttempts := (en_QuizAttempts e)
        [n := (en_QuizAttempts e ! n)\<lparr>qa_PendingReview := False, qa_Passed := rv_Passed p\<rparr>],
        en_LastActivityAt := Some (rv_At p)\<rparr>) (qa_LessonID (en_QuizAttempts e ! n)) (rv_At p)
       (rv_Passed p) \<lparr>qo_AttemptNumber = qa_Number (en_QuizAttempts e ! n),
          qo_Decision = (if rv_Passed p then QuizPassed else QuizFailed),
          qo_CompletedLessonID = None, qo_UnlockedLessonID = None, qo_EnrollmentComplete = False\<rparr>
      = Inr (e', out)" "ReviewAttempt e p = (e', Inr out)"
    "snd (requireForwardAccess e (rv_At p)) = None"
proof (cases "\<exists>err. ReviewAttempt e p = (e, Inl err)")
  case True
  with that(1) show thesis by blast
next
  case False
  obtain e' err where req: "requireForwardAccess e (rv_At p) = (e', err)" by fastforce
  from False req have "err = None" "\<not> attemptIndex (en_QuizAttempts e) (rv_AttemptID p) < 0"
    by (auto simp: ReviewAttempt_def Let_def split: if_splits option.splits)
  then obtain n where n: "n < length (en_QuizAttempts e)" "qa_ID (en_QuizAttempts e ! n) = rv_AttemptID p"
    "attemptIndex (en_QuizAttempts e) (rv_AttemptID p) = int n" by (auto elim: attemptIndex_hit)
  define r where "r = settle_attempt (e\<lparr>en_QuizAttempts := (en_QuizAttempts e)
        [n := (en_QuizAttempts e ! n)\<lparr>qa_PendingReview := False, qa_Passed := rv_Passed p\<rparr>],
        en_LastActivityAt := Some (rv_At p)\<rparr>) (qa_LessonID (en_QuizAttempts e ! n)) (rv_At p)
       (rv_Passed p) \<lparr>qo_AttemptNumber = qa_Number (en_QuizAttempts e ! n),
          qo_Decision = (if rv_Passed p then QuizPassed else QuizFailed),
          qo_CompletedLessonID = None, qo_UnlockedLessonID = None, qo_EnrollmentComplete = False\<rparr>"
  have guards: "rv_ActorID p \<noteq> ''''" "rv_At p \<noteq> 0" "qa_PendingReview (en_QuizAttempts e ! n)"
    using False req \<open>err = None\<close> n by (auto simp: ReviewAttempt_def Let_def split: if_split_asm)
  then have review: "ReviewAttempt e p =
      (case r of Inl err \<Rightarrow> (e, Inl (ProgressErr err)) | Inr (e', out) \<Rightarrow> (e', Inr out))"
    using req \<open>err = None\<close> n by (simp add: ReviewAttempt_def Let_def r_def)
  with False obtain e2 out where r: "r = Inr (e2, out)" by (cases r) auto
  from review req \<open>err = None\<close> show thesis
    by (intro that(2)[OF n(1,2) guards(3) r[unfolded r_def]]) (simp_all add: r)
qed

lemma reviewed_learning:
  assumes inv: "learning_inv e" and n: "n < length (en_QuizAttempts e)"
    and pending: "qa_PendingReview (en_QuizAttempts e ! n)"
  shows "learning_inv (e\<lparr>en_QuizAttempts := (en_QuizAttempts e)
     [n := (en_QuizAttempts e ! n)\<lparr>qa_PendingReview := False, qa_Passed := passed\<rparr>],
     en_LastActivityAt := t\<rparr>)"
proof -
  let ?a = "en_QuizAttempts e ! n"
  let ?b = "?a\<lparr>qa_PendingReview := False, qa_Passed := passed\<rparr>"
  have all: "attempts_ok (en_Lessons e) (en_QuizAttempts e)" using inv by (simp add: learning_inv_def)
  then have a: "attempt_ok (en_Lessons e) ?a" using n by (simp add: attempts_ok_def)
  then have "attempts_ok (en_Lessons e) ((en_QuizAttempts e)[n := ?b])"
    by (intro attempts_ok_update[OF all n]) (simp_all add: attempt_ok_def)
  moreover have "b \<in> set ((en_QuizAttempts e)[n := ?b])"
    if "b \<in> set (en_QuizAttempts e)" "qa_Passed b" for b
  proof -
    have "b \<noteq> ?a" using a that(2) pending by (auto simp: attempt_ok_def)
    then show ?thesis using that(1) n by (metis in_set_conv_nth length_list_update nth_list_update_neq)
  qed
  ultimately show ?thesis by (intro learning_inv_attempts[OF inv]) blast+
qed

lemma ReviewAttempt_learning:
  assumes inv: "learning_inv e"
  shows "learning_inv (fst (ReviewAttempt e p))"
proof (cases rule: ReviewAttempt_cases[of e p])
  case (1 err)
  with inv show ?thesis by simp
next
  case (2 n e' out)
  let ?a = "en_QuizAttempts e ! n"
  let ?b = "?a\<lparr>qa_PendingReview := False, qa_Passed := rv_Passed p\<rparr>"
  let ?s = "e\<lparr>en_QuizAttempts := (en_QuizAttempts e)[n := ?b], en_LastActivityAt := Some (rv_At p)\<rparr>"
  have a: "attempt_ok (en_Lessons e) ?a"
    using inv 2(1) by (simp add: learning_inv_def attempts_ok_def)
  have d: "distinct (map ls_ID (en_Lessons e))"
    using inv by (simp add: learning_inv_def learning_ok_def outline_ok_def)
  have quiz: "\<exists>a\<in>set (en_QuizAttempts ?s). qa_QuizVersionID a = q \<and> qa_Passed a"
    if "rv_Passed p" "lesson \<in> set (en_Lessons ?s)" "ls_ID lesson = qa_LessonID ?a"
      "ls_QuizID lesson = Some q" for lesson q
  proof -
    obtain l where "lessonByID (en_Lessons e) (qa_LessonID ?a) = Some l"
      "ls_QuizID l = Some (qa_QuizVersionID ?a)" using a by (auto simp: attempt_ok_def)
    with that lessonByID_unique[OF d, of _ l lesson] have "qa_QuizVersionID ?a = q" by simp
    with that(1) 2(1) show ?thesis by (intro bexI[of _ ?b]) (simp_all add: set_update_memI)
  qed
  from settle_learning[OF reviewed_learning[OF inv 2(1,3)] 2(4) quiz] 2(5) show ?thesis by simp
qed

end
