(* ===== verification/Enrollment_Run.thy ===== *)
theory Enrollment_Run
  imports Enrollment_Lessons
begin

section \<open>Enrollment: runs of the machine\<close>

text \<open>
  Every command keeps the learning and the access invariant, no command takes progress back, and
  a revoked or closed run stays so. The machine is interpreted as an aggregate, pinned to the
  course version it was created with, growing in its progress, and clocked.
\<close>

subsection \<open>The machine keeps its invariant\<close>

lemma access_inv_cong:
  assumes "en_LearnerType e' = en_LearnerType e" "en_AccessStatus e' = en_AccessStatus e"
    "en_AccessUntil e' = en_AccessUntil e" "en_ActivatedAt e' = en_ActivatedAt e"
    "en_SuspendedAt e' = en_SuspendedAt e" "en_PreviousAccess e' = en_PreviousAccess e"
  shows "access_inv e' clock \<longleftrightarrow> access_inv e clock"
  using assms by (simp add: access_inv_def base_access_def deadline_set_def)

definition same_access :: "enrollment \<Rightarrow> enrollment \<Rightarrow> bool" where
  "same_access e e' \<longleftrightarrow> pin e' = pin e \<and> en_AccessStatus e' = en_AccessStatus e \<and>
     en_AccessUntil e' = en_AccessUntil e \<and> en_ActivatedAt e' = en_ActivatedAt e \<and>
     en_SuspendedAt e' = en_SuspendedAt e \<and> en_PreviousAccess e' = en_PreviousAccess e"

lemma same_access_inv: "same_access e e' \<Longrightarrow> access_inv e' clock \<longleftrightarrow> access_inv e clock"
  by (rule access_inv_cong) (simp_all add: same_access_def pin_def)

lemma completeLesson_same_access:
  "completeLesson s x at = Inr (s', next, done) \<Longrightarrow> same_access s s'"
  by (simp add: same_access_def completeLesson_identity)

lemma settle_same_access:
  "settle_attempt s x at passed out = Inr (s', out') \<Longrightarrow> same_access s s'"
  by (auto simp: settle_attempt_def same_access_def split: if_splits sum.splits
      dest: completeLesson_identity)

text \<open>A lesson command changes the access fields at most by settling an elapsed deadline.\<close>

lemma lesson_commands_access:
  "same_access (fst (CanViewLesson e x at)) (fst (OpenLesson e x at)) \<or> fst (OpenLesson e x at) = e"
  "same_access (fst (CanViewLesson e x at)) (fst (RecordPosition e x secs pos at)) \<or>
     fst (RecordPosition e x secs pos at) = e"
  "same_access (fst (CanViewLesson e x at)) (fst (CompleteLesson e x at)) \<or>
     fst (CompleteLesson e x at) = e"
  by (auto simp: OpenLesson_def RecordPosition_def CompleteLesson_def Let_def update_row_def
      same_access_def pin_def[abs_def] split: option.splits prod.splits sum.splits
      dest: completeLesson_identity simp del: progressIndex_neg)

text \<open>A run that was never started has no progress.\<close>

definition start_inv :: "enrollment \<Rightarrow> bool" where
  "start_inv e \<longleftrightarrow>
     (base_access e = AccessInvited \<or> base_access e = AccessReady \<longrightarrow>
        en_ProgressStatus e = ProgressNotStarted)"

definition run_ok :: "clocked \<Rightarrow> bool" where
  "run_ok = (\<lambda>(e, clock). learning_inv e \<and> access_inv e clock \<and> start_inv e)"

lemma exec_learning:
  "learning_inv e \<Longrightarrow> cmd_allowed e c \<Longrightarrow> learning_inv (exec_enrollment c e)"
  by (cases c)
    (simp_all add: Activate_learning OpenLesson_learning RecordPosition_learning
      CompleteLesson_learning SubmitQuiz_learning ReviewAttempt_learning
      same_learning_inv[OF EvaluateDeadline_same] access_commands_same[THEN same_learning_inv])

lemma lesson_exec_access:
  assumes "access_inv e clock" "clock \<le> at"
  shows "access_inv (fst (OpenLesson e x at)) at" "access_inv (fst (RecordPosition e x secs pos at)) at"
    "access_inv (fst (CompleteLesson e x at)) at"
  using lesson_commands_access(1)[of e x at] lesson_commands_access(2)[of e x at secs pos]
    lesson_commands_access(3)[of e x at] read_access(2)[OF assms, of x] access_inv_mono[OF assms]
  by (auto simp: same_access_inv)

lemma quiz_same_access:
  "same_access e (fst (SubmitQuiz e p))" "same_access e (fst (ReviewAttempt e p'))"
proof -
  have refl: "same_access e e" by (simp add: same_access_def)
  have attempts: "same_access e (e\<lparr>en_QuizAttempts := as, en_LastActivityAt := t\<rparr>)" for as t
    by (simp add: same_access_def pin_def)
  have trans: "same_access a b \<Longrightarrow> same_access b c \<Longrightarrow> same_access a c" for a b c
    by (simp add: same_access_def)
  show "same_access e (fst (SubmitQuiz e p))"
  proof (cases "submit_accepted e p")
    case False
    with SubmitQuiz_refused[OF False] refl show ?thesis by auto
  next
    case True
    show ?thesis unfolding SubmitQuiz_accepted[OF True]
      using refl trans[OF attempts settle_same_access] by (auto split: sum.splits prod.splits)
  qed
  show "same_access e (fst (ReviewAttempt e p'))"
    using refl trans[OF attempts settle_same_access]
    by (cases rule: ReviewAttempt_cases[of e p']) auto
qed

lemma exec_access:
  assumes "access_inv e clock" "identity_ok e" "clock \<le> cmd_time c" "cmd_allowed e c"
  shows "access_inv (exec_enrollment c e) (cmd_time c)"
  using assms access_inv_mono[OF assms(1,3)]
  by (cases c)
    (simp_all add: Activate_access EvaluateDeadline_access ExtendExternalAccess_access
      FreezeForArchive_access ReactivateFrozen_access SuspendForBlock_access ResumeAfterBlock_access
      revoke_close_access read_access lesson_exec_access same_access_inv[OF quiz_same_access(1)]
      same_access_inv[OF quiz_same_access(2)])

text \<open>A command that changes the learning leaves an access status that has been started.\<close>

lemma completeLesson_started:
  assumes "learning_ok s" "completeLesson s x at = Inr (s', next, done)"
  shows "en_ProgressStatus s \<noteq> ProgressNotStarted" "en_ProgressStatus s' \<noteq> ProgressNotStarted"
proof -
  from assms(2) show "en_ProgressStatus s \<noteq> ProgressNotStarted"
    by (cases rule: completeLesson_cases) (use assms(1) in \<open>auto simp: learning_ok_def\<close>)
  with assms(2) show "en_ProgressStatus s' \<noteq> ProgressNotStarted"
    by (cases rule: completeLesson_cases) auto
qed

subsection \<open>Progress is never lost\<close>

text \<open>
  What one command may do to the learning: complete more lessons, append attempts, finish the
  course. \<open>advances\<close> is the case of a started run.
\<close>

definition advances :: "enrollment \<Rightarrow> enrollment \<Rightarrow> bool" where
  "advances e e' \<longleftrightarrow>
     completed_ids (en_LessonProgress e) \<subseteq> completed_ids (en_LessonProgress e') \<and>
     prefix (map qa_ID (en_QuizAttempts e)) (map qa_ID (en_QuizAttempts e')) \<and>
     (en_ProgressStatus e' = en_ProgressStatus e \<or>
      en_ProgressStatus e = ProgressInProgress \<and> en_ProgressStatus e' = ProgressCompleted)"

lemma advances_refl [simp]: "advances e e"
  by (simp add: advances_def)

lemma same_learning_advances: "same_learning e e' \<Longrightarrow> advances e e'"
  by (simp add: advances_def same_learning_def)

lemma advances_trans: "advances a b \<Longrightarrow> advances b c \<Longrightarrow> advances a c"
  unfolding advances_def by (auto intro: prefix_order.trans)

lemma advances_activity: "advances e e' \<Longrightarrow> advances e (e'\<lparr>en_LastActivityAt := t\<rparr>)"
  by (simp add: advances_def)

lemma row_step_advances:
  assumes inv: "learning_inv e" and y: "row_step e n y"
  shows "advances e (e\<lparr>en_LessonProgress := (en_LessonProgress e)[n := y], en_LastActivityAt := t\<rparr>)"
proof -
  let ?rows = "en_LessonProgress e"
  have d: "distinct (row_ids ?rows)"
    using inv by (simp add: learning_inv_def learning_ok_def rows_ok_def)
  have n: "n < length ?rows" "lp_LessonVersionID y = lp_LessonVersionID (?rows ! n)"
    using y by (simp_all add: row_step_def)
  have "completed_ids (?rows[n := y]) = completed_ids ?rows"
    using completed_ids_update[OF d n] completed_ids_nth[OF d n(1)] y by (auto simp: row_step_def)
  then show ?thesis by (simp add: advances_def)
qed

lemma completeLesson_advances:
  assumes "learning_inv s" "completeLesson s x at = Inr (s', next, done)"
  shows "advances s s'"
proof -
  have ok: "learning_ok s" using assms(1) by (simp add: learning_inv_def)
  then have rows: "rows_ok (en_Lessons s) (en_Sequential s) (en_LessonProgress s)"
    by (simp add: learning_ok_def)
  have "en_ProgressStatus s' = en_ProgressStatus s \<or>
      en_ProgressStatus s = ProgressInProgress \<and> en_ProgressStatus s' = ProgressCompleted"
    using assms(2)
  proof (cases rule: completeLesson_cases)
    case (1 n)
    with ok completeLesson_started(1)[OF ok assms(2)] show ?thesis
      by (auto simp: learning_ok_def validProgress_def)
  qed simp_all
  then show ?thesis
    using completeLesson_completed(1)[OF rows assms(2)] completeLesson_identity(2)[OF assms(2)]
    by (auto simp: advances_def)
qed

lemma settle_advances:
  assumes "learning_inv s" "settle_attempt s x at passed out = Inr (s', out')"
  shows "advances s s'"
  using assms completeLesson_advances[OF assms(1)]
  by (auto simp: settle_attempt_def split: if_splits sum.splits)

lemma CanView_same: "CanViewLesson e x at = (e', r) \<Longrightarrow> same_learning e e'"
  using access_commands_same(9)[of e x at] by simp

lemma CanView_advances: "advances e (fst (CanViewLesson e x at))"
  by (rule same_learning_advances[OF access_commands_same(9)])

lemma lesson_commands_advance:
  assumes "learning_inv e"
  shows "advances e (fst (OpenLesson e x at))"
    and "cmd_allowed e (Cmd_Position x secs pos at) \<Longrightarrow>
      advances e (fst (RecordPosition e x secs pos at))"
    and "advances e (fst (CompleteLesson e x at))"
proof -
  let ?v = "fst (CanViewLesson e x at)"
  note v = CanView_advances[of e x at] CanView_learning[OF assms, of x at]
  note step = advances_trans[OF v(1) row_step_advances[OF v(2)]]
  show "advances e (fst (OpenLesson e x at))"
    by (cases rule: OpenLesson_cases[of e x at]) (simp_all add: v step)
  show "advances e (fst (RecordPosition e x secs pos at))"
    if "cmd_allowed e (Cmd_Position x secs pos at)"
    by (cases rule: RecordPosition_cases[OF that]) (simp_all add: v step)
  have compl: "advances e s'" if "completeLesson ?v x at = Inr (s', nxt, dn)" for s' nxt dn
    by (rule advances_trans[OF v(1) completeLesson_advances[OF v(2) that]])
  show "advances e (fst (CompleteLesson e x at))"
    using v(1) compl
    by (auto simp: CompleteLesson_def split: option.splits prod.splits sum.splits)
qed

lemma quiz_commands_advance:
  assumes inv: "learning_inv e"
  shows "advances e (fst (SubmitQuiz e p))" "advances e (fst (ReviewAttempt e p'))"
proof -
  show "advances e (fst (SubmitQuiz e p))"
  proof (cases "submit_accepted e p")
    case False
    with SubmitQuiz_refused[OF False] show ?thesis by auto
  next
    case True
    have "advances e (with_attempt e p)" by (simp add: advances_def)
    note step = advances_trans[OF this settle_advances[OF with_attempt_learning[OF inv True]]]
    show ?thesis unfolding SubmitQuiz_accepted[OF True]
      using step by (auto split: sum.splits prod.splits)
  qed
  show "advances e (fst (ReviewAttempt e p'))"
  proof (cases rule: ReviewAttempt_cases[of e p'])
    case (2 n e' out)
    let ?s = "e\<lparr>en_QuizAttempts := (en_QuizAttempts e)[n := (en_QuizAttempts e ! n)
      \<lparr>qa_PendingReview := False, qa_Passed := rv_Passed p'\<rparr>], en_LastActivityAt := Some (rv_At p')\<rparr>"
    have s: "learning_inv ?s" by (rule reviewed_learning[OF inv 2(1,3)])
    have "map qa_ID (en_QuizAttempts ?s) = map qa_ID (en_QuizAttempts e)"
      using 2(1) by (simp add: map_update list_update_same_conv)
    then have "advances e ?s" by (simp add: advances_def)
    with settle_advances[OF s 2(4)] 2(5) show ?thesis by (auto intro: advances_trans)
  qed simp
qed

text \<open>No command but \<^verbatim>\<open>New\<close> puts a run into the state of one that was not started.\<close>

definition keeps_start :: "enrollment \<Rightarrow> enrollment \<Rightarrow> bool" where
  "keeps_start e e' \<longleftrightarrow>
     base_access e' = base_access e \<or> base_access e' \<noteq> AccessInvited \<and> base_access e' \<noteq> AccessReady"

lemma start_inv_step:
  assumes "start_inv e" "advances e e'"
    "keeps_start e e'"
  shows "start_inv e'"
  using assms by (auto simp: start_inv_def advances_def keeps_start_def)

lemma same_access_base: "same_access e e' \<Longrightarrow> base_access e' = base_access e"
  by (simp add: same_access_def base_access_def)

lemma access_commands_base:
  "keeps_start e (fst (EvaluateDeadline e at))"
  "keeps_start e (fst (ExtendExternalAccess e at d))"
  "keeps_start e (fst (FreezeForArchive e at))"
  "keeps_start e (fst (ReactivateFrozen e at until))"
  "keeps_start e (fst (SuspendForBlock e at))"
  "keeps_start e (fst (ResumeAfterBlock e at))"
  "keeps_start e (fst (Enrollment_Revoke e at))"
  "keeps_start e (fst (Enrollment_Close e at))"
  "keeps_start e (fst (Enrollment_Resume e at))"
  "keeps_start e (fst (CanViewLesson e x at))"
  by (simp_all add: keeps_start_def base_access_def EvaluateDeadline_def ExtendExternalAccess_def
      FreezeForArchive_def ReactivateFrozen_def SuspendForBlock_def ResumeAfterBlock_def
      Enrollment_Revoke_def Enrollment_Close_def Enrollment_Resume_def CanViewLesson_def Let_def
      split: option.splits AccessStatus.splits)

lemma lesson_commands_base:
  "keeps_start e (fst (OpenLesson e x at))" "keeps_start e (fst (RecordPosition e x secs pos at))"
  "keeps_start e (fst (CompleteLesson e x at))" "keeps_start e (fst (SubmitQuiz e p))"
  "keeps_start e (fst (ReviewAttempt e p'))"
  using lesson_commands_access(1)[of e x at] lesson_commands_access(2)[of e x at secs pos]
    lesson_commands_access(3)[of e x at] access_commands_base(10)[of e x at]
    quiz_same_access[of e, THEN same_access_base]
  by (auto simp: keeps_start_def dest: same_access_base)

text \<open>What a command does to the progress, activation included.\<close>

fun progress_rank :: "ProgressStatus \<Rightarrow> nat" where
  "progress_rank ProgressNotStarted = 0"
| "progress_rank ProgressInProgress = 1"
| "progress_rank ProgressCompleted = 2"
| "progress_rank (ProgressStatusOther _) = 3"

definition progress_below :: "enrollment \<Rightarrow> enrollment \<Rightarrow> bool" where
  "progress_below e e' \<longleftrightarrow>
     completed_ids (en_LessonProgress e) \<subseteq> completed_ids (en_LessonProgress e') \<and>
     prefix (map qa_ID (en_QuizAttempts e)) (map qa_ID (en_QuizAttempts e')) \<and>
     progress_rank (en_ProgressStatus e) \<le> progress_rank (en_ProgressStatus e')"

lemma advances_below: "advances e e' \<Longrightarrow> progress_below e e'"
  by (auto simp: advances_def progress_below_def)

lemma exec_advances:
  assumes "learning_inv e" "cmd_allowed e c" "\<forall>p. c \<noteq> Cmd_Activate p"
  shows "advances e (exec_enrollment c e)"
  using assms
  by (cases c) (simp_all add: lesson_commands_advance quiz_commands_advance same_learning_advances
      access_commands_same CanView_advances)

lemma exec_keeps_start: "\<forall>p. c \<noteq> Cmd_Activate p \<Longrightarrow> keeps_start e (exec_enrollment c e)"
  by (cases c) (simp_all add: access_commands_base lesson_commands_base)

lemma Activate_start: "start_inv e \<Longrightarrow> start_inv (fst (Enrollment_Activate e p))"
  by (cases rule: Activate_cases[of e p]) (simp_all add: start_inv_def base_access_def)

lemma exec_start:
  assumes "learning_inv e" "start_inv e" "cmd_allowed e c"
  shows "start_inv (exec_enrollment c e)"
proof (cases "\<exists>p. c = Cmd_Activate p")
  case True
  with assms(2) Activate_start show ?thesis by auto
next
  case False
  with exec_advances[OF assms(1,3)] exec_keeps_start[of c e] start_inv_step[OF assms(2)]
  show ?thesis by blast
qed

lemma Activate_below:
  assumes "learning_inv e" "start_inv e"
  shows "progress_below e (fst (Enrollment_Activate e p))"
proof (cases rule: Activate_cases[of e p])
  case 1
  then show ?thesis by (simp add: progress_below_def)
next
  case 2
  then have "en_ProgressStatus e = ProgressNotStarted"
    using assms(2) by (auto simp: start_inv_def base_access_def)
  with assms(1) have "en_LessonProgress e = []" by (simp add: learning_inv_def learning_ok_def)
  with \<open>en_ProgressStatus e = ProgressNotStarted\<close> show ?thesis
    by (simp add: progress_below_def completed_ids_def 2(4))
qed

lemma exec_below_progress:
  assumes "learning_inv e" "start_inv e" "cmd_allowed e c"
  shows "progress_below e (exec_enrollment c e)"
proof (cases "\<exists>p. c = Cmd_Activate p")
  case True
  with assms Activate_below show ?thesis by auto
next
  case False
  with exec_advances[OF assms(1,3)] advances_below show ?thesis by blast
qed

lemma exec_pin: "pin (exec_enrollment c e) = pin e"
proof -
  have view: "pin (fst (CanViewLesson e x at)) = pin e" for x at
    using access_commands_same(9)[of e x at] by (simp add: same_learning_def)
  have act: "pin (fst (Enrollment_Activate e p)) = pin e" for p
    by (cases rule: Activate_cases[of e p]) (simp_all, simp add: pin_def)
  show ?thesis
  proof (cases c)
    case (Cmd_Open x at)
    with view lesson_commands_access(1)[of e x at] show ?thesis by (auto simp: same_access_def)
  next
    case (Cmd_Position x secs pos at)
    with view lesson_commands_access(2)[of e x at secs pos] show ?thesis by (auto simp: same_access_def)
  next
    case (Cmd_Complete x at)
    with view lesson_commands_access(3)[of e x at] show ?thesis by (auto simp: same_access_def)
  qed (use access_commands_same[of e] EvaluateDeadline_same[of e] quiz_same_access[of e] act
       in \<open>simp_all add: same_learning_def same_access_def\<close>)
qed

subsection \<open>Runs\<close>

lemma learning_inv_identity: "learning_inv e \<Longrightarrow> identity_ok e"
  by (simp add: learning_inv_def)

lemma progress_below_refl [simp]: "progress_below e e"
  by (simp add: progress_below_def)

lemma tick_ok: "run_ok s \<Longrightarrow> run_ok (tick c s)"
  by (cases s) (auto simp: run_ok_def tick_def exec_learning exec_start
      intro: exec_access learning_inv_identity)

lemma New_ok:
  assumes "Enrollment_New p = Inr e"
  shows "run_ok (e, clock)"
proof -
  have valid: "enrollment_valid e" and acc: "en_AccessStatus e = AccessInvited \<or> en_AccessStatus e = AccessReady"
    and new: "en_LessonProgress e = []" "en_QuizAttempts e = []" "en_ActivatedAt e = None"
      "en_ProgressStatus e = ProgressNotStarted"
    using assms by (auto simp: Enrollment_New_def Rehydrate_def Let_def enrollment_valid_def
        split: if_splits option.splits)
  from valid have parts: "identity_ok e" "deadline_ok e" "learning_ok e"
    "attempts_ok (en_Lessons e) (en_QuizAttempts e)" "validAccess (en_AccessStatus e)"
    unfolding enrollment_valid_iff by blast+
  have "learning_inv e"
    using parts new by (simp add: learning_inv_def sequential_gate_def quiz_gate_def completed_ids_def)
  moreover have "access_inv e clock" "start_inv e"
    using parts new acc by (auto simp: access_inv_def base_access_def start_inv_def deadline_ok_def)
  ultimately show ?thesis by (simp add: run_ok_def)
qed

interpretation en_agg: aggregate run_ok tick
  by unfold_locales (rule tick_ok)

interpretation en_pin: pinned_aggregate run_ok tick "\<lambda>(e, _). pin e"
  by unfold_locales (auto simp: tick_def exec_pin split: prod.splits)

interpretation en_grow: growing_aggregate run_ok tick "\<lambda>(e, _) (e', _). progress_below e e'"
proof unfold_locales
  show "(case s of (e, _) \<Rightarrow> \<lambda>(e', _). progress_below e e') s" for s
    by (cases s) simp
  show "(case s of (e, _) \<Rightarrow> \<lambda>(e', _). progress_below e e') u"
    if "(case s of (e, _) \<Rightarrow> \<lambda>(e', _). progress_below e e') t"
      "(case t of (e, _) \<Rightarrow> \<lambda>(e', _). progress_below e e') u" for s t u
    using that by (cases s; cases t; cases u) (auto simp: progress_below_def intro: prefix_order.trans)
  show "(case s of (e, _) \<Rightarrow> \<lambda>(e', _). progress_below e e') (tick c s)" if "run_ok s" for s c
    using that by (cases s) (auto simp: run_ok_def tick_def exec_below_progress)
qed

interpretation en_clock: clocked_aggregate run_ok tick snd
  by unfold_locales (auto simp: tick_def split: prod.splits)

text \<open>Revoked and closed runs: no command changes the learning, and the access is never restored.\<close>

definition shut :: "enrollment \<Rightarrow> bool" where
  "shut e \<longleftrightarrow> en_AccessStatus e = AccessRevoked \<or> en_AccessStatus e = AccessClosed"

lemma shut_deadline: "shut e \<Longrightarrow> EvaluateDeadline e at = (e, False)"
  by (auto simp: shut_def EvaluateDeadline_def)

lemma shut_view:
  assumes "shut e"
  obtains err where "CanViewLesson e x at = (e, Some err)"
  using assms shut_deadline[OF assms, of at]
  by (cases "hasLesson (en_Lessons e) x") (auto simp: CanViewLesson_def shut_def)

lemma shut_lessons:
  assumes "shut e"
  shows "fst (OpenLesson e x at) = e" "fst (RecordPosition e x secs pos at) = e"
    "fst (CompleteLesson e x at) = e" "fst (SubmitQuiz e p) = e" "fst (ReviewAttempt e p') = e"
proof -
  obtain err where view: "CanViewLesson e x at = (e, Some err)" by (rule shut_view[OF assms])
  then show "fst (OpenLesson e x at) = e" "fst (RecordPosition e x secs pos at) = e"
    "fst (CompleteLesson e x at) = e"
    by (simp_all add: OpenLesson_def RecordPosition_def CompleteLesson_def split: option.splits)
  obtain err' where "CanViewLesson e (qs_LessonID p) (qs_At p) = (e, Some err')"
    by (rule shut_view[OF assms])
  then have "\<not> submit_accepted e p" by (simp add: submit_accepted_def)
  from SubmitQuiz_refused[OF this] show "fst (SubmitQuiz e p) = e" by auto
  have "snd (requireForwardAccess e (rv_At p')) \<noteq> None"
    using assms by (auto simp: requireForwardAccess_def shut_deadline) (auto simp: shut_def)
  then show "fst (ReviewAttempt e p') = e"
    by (cases rule: ReviewAttempt_cases[of e p']) auto
qed

lemma exec_shut:
  assumes "shut e"
  shows "shut (exec_enrollment c e) \<and> same_learning e (exec_enrollment c e)"
proof -
  have "same_learning e e" by (simp add: same_learning_def)
  moreover have "shut (fst (Enrollment_Activate e p))" "fst (Enrollment_Activate e p) = e"
    "shut (fst (ExtendExternalAccess e at d))" "shut (fst (FreezeForArchive e at))"
    "shut (fst (ReactivateFrozen e at until))" "shut (fst (SuspendForBlock e at))"
    "shut (fst (ResumeAfterBlock e at))" "shut (fst (Enrollment_Revoke e at))"
    "shut (fst (Enrollment_Close e at))" "fst (Enrollment_Resume e at) = e"
    "fst (EvaluateDeadline e at) = e" for p at d until
    using assms shut_deadline[OF assms, of at]
    by (auto simp: shut_def Enrollment_Activate_def ExtendExternalAccess_def FreezeForArchive_def
        ReactivateFrozen_def SuspendForBlock_def ResumeAfterBlock_def Enrollment_Revoke_def
        Enrollment_Close_def Enrollment_Resume_def Let_def)
  moreover have "fst (CanViewLesson e x at) = e" for x at by (rule shut_view[OF assms, of x at]) simp
  ultimately show ?thesis
    using assms by (cases c) (simp_all add: shut_lessons[OF assms] access_commands_same)
qed

interpretation en_term: terminal_aggregate run_ok tick "\<lambda>(e, _). shut e \<and> same_learning e0 e" for e0
proof unfold_locales
  fix s :: clocked and c
  assume "case s of (e, _) \<Rightarrow> shut e \<and> same_learning e0 e"
  then obtain e clock where s: "s = (e, clock)" "shut e" "same_learning e0 e" by auto
  from exec_shut[OF s(2), of c] s(3) have "shut (exec_enrollment c e)"
    "same_learning e0 (exec_enrollment c e)" by (simp_all add: same_learning_def)
  with s show "case tick c s of (e, _) \<Rightarrow> shut e \<and> same_learning e0 e" by (simp add: tick_def)
qed

text \<open>A run: a new enrollment and the commands it received, with the clock after the last one.\<close>

definition run :: "enrollment_params \<Rightarrow> enrollment_cmd list \<Rightarrow> clocked option" where
  "run p cs =
     (case Enrollment_New p of
        Inl _ \<Rightarrow> None
      | Inr e \<Rightarrow> Some (fold tick cs (e, en_CreatedAt e)))"

lemma run_run_ok: "run p cs = Some s \<Longrightarrow> run_ok s"
  by (auto simp: run_def split: sum.splits dest: New_ok en_agg.run_valid)

text \<open>Commands executed one after the other, none left out.\<close>

fun keeps_snapshot :: "enrollment \<Rightarrow> enrollment_cmd list \<Rightarrow> bool" where
  "keeps_snapshot e [] \<longleftrightarrow> True"
| "keeps_snapshot e (c # cs) \<longleftrightarrow> cmd_allowed e c \<and> keeps_snapshot (exec_enrollment c e) cs"

lemma tick_fold:
  "sorted (clock # map cmd_time cs) \<Longrightarrow> keeps_snapshot e cs \<Longrightarrow>
     \<exists>clock'. fold tick cs (e, clock) = (fold exec_enrollment cs e, clock')"
  by (induction cs arbitrary: e clock) (auto simp: tick_def)

lemma executed_run_ok:
  assumes "Enrollment_New p = Inr e" "sorted (map cmd_time cs)" "keeps_snapshot e cs"
  shows "\<exists>clock. run_ok (fold exec_enrollment cs e, clock)"
proof -
  define clock where "clock = (case cs of [] \<Rightarrow> 0 | c # _ \<Rightarrow> cmd_time c)"
  have "sorted (clock # map cmd_time cs)" using assms(2) by (cases cs) (auto simp: clock_def)
  from tick_fold[OF this assms(3)] en_agg.run_valid[OF New_ok[OF assms(1), of clock], of cs]
  show ?thesis by auto
qed

lemma run_append: "run p cs = Some s \<Longrightarrow> run p (cs @ cs') = Some (fold tick cs' s)"
  by (auto simp: run_def split: sum.splits)

end
