(* ===== verification/Enrollment.thy ===== *)
theory Enrollment
  imports Enrollment_Run
begin

section \<open>Enrollment: the properties\<close>

text \<open>
  What the enrollment aggregate promises to the rest of the system, stated on runs of the
  machine: a new enrollment, changed by any sequence of commands under a clock that does not go
  back.
\<close>

text \<open>A sequential course of three lessons, the second with a quiz and the third optional, taken
  by an external learner.\<close>

definition example_params :: enrollment_params where
  "example_params =
     \<lparr>ep_ID = ''e1'', ep_CompanyID = ''c1'', ep_CourseID = ''k1'', ep_CourseVersionID = ''v1'',
      ep_LearnerType = LearnerExternal, ep_UserID = None, ep_ExternalID = Some ''x1'',
      ep_SourceType = SourcePersonalAccess, ep_SourceID = None, ep_AttemptNumber = 1,
      ep_AccessStatus = AccessReady, ep_Sequential = True,
      ep_Lessons = [\<lparr>ls_ID = ''l1'', ls_QuizID = None, ls_Optional = False\<rparr>,
        \<lparr>ls_ID = ''l2'', ls_QuizID = Some ''q2'', ls_Optional = False\<rparr>,
        \<lparr>ls_ID = ''l3'', ls_QuizID = None, ls_Optional = False\<rparr>],
      ep_CreatedAt = 100\<rparr>"

definition example_submission :: QuizSubmission where
  "example_submission =
     \<lparr>qs_AttemptID = ''t1'', qs_LessonID = ''l2'', qs_QuizVersionID = ''q2'', qs_Score = 80,
      qs_PassingScore = 70, qs_MaxAttempts = Some 2, qs_PendingReview = False, qs_At = 400\<rparr>"

definition example_cmds :: "enrollment_cmd list" where
  "example_cmds =
     [Cmd_Activate \<lparr>act_At = 200, act_Duration = Day\<rparr>, Cmd_Complete ''l1'' 300,
      Cmd_Submit example_submission]"

lemmas example_defs = example_params_def example_cmds_def example_submission_def

lemma example_run_some: "run example_params example_cmds \<noteq> None"
  by code_simp

subsection \<open>Stored runs can be loaded\<close>

lemma Rehydrate_iff: "Rehydrate e = Inr e \<longleftrightarrow> enrollment_valid e" "(\<exists>err. Rehydrate e = Inl err) \<longleftrightarrow> \<not> enrollment_valid e"
  by (auto simp: Rehydrate_def enrollment_valid_def split: option.splits)

text \<open>What \<^verbatim>\<open>ReactivateFrozen\<close> leaves of an internal learner, or of a run that was never activated.\<close>

lemma ReactivateFrozen_lost:
  assumes "enrollment_valid e" "snd (ReactivateFrozen e at until) = None"
    "\<not> (en_LearnerType e = LearnerExternal \<and> en_ActivatedAt e \<noteq> None)"
  shows "\<not> enrollment_valid (fst (ReactivateFrozen e at until))"
proof -
  have "en_LearnerType e = LearnerUser \<or> en_LearnerType e = LearnerExternal \<and> en_ActivatedAt e = None"
    using assms(1,3) unfolding enrollment_valid_iff by (auto simp: identity_ok_def)
  then have "\<not> deadline_ok (fst (ReactivateFrozen e at until))"
    using assms(2) by (auto simp: ReactivateFrozen_def deadline_ok_def split: if_splits)
  then show ?thesis unfolding enrollment_valid_iff by blast
qed

text \<open>What \<^verbatim>\<open>RecordPosition\<close> leaves when it carries the counter of its lesson past the largest \<^verbatim>\<open>int64\<close>.\<close>

lemma RecordPosition_lost:
  assumes valid: "enrollment_valid e" and ok: "snd (RecordPosition e x secs pos at) = None"
    and p: "p \<in> set (en_LessonProgress e)" "lp_LessonVersionID p = x" "\<not> in_int64 (lp_ActiveSeconds p + secs)"
    and ints: "in_int64 secs" "in_int64 (lp_ActiveSeconds p)"
  shows "\<not> enrollment_valid (fst (RecordPosition e x secs pos at))"
proof -
  let ?e' = "fst (RecordPosition e x secs pos at)" and ?rows = "en_LessonProgress e"
  obtain v err where view: "CanViewLesson e x at = (v, err)" by fastforce
  have rows: "en_LessonProgress v = ?rows" using CanView_same[OF view] by (simp add: same_learning_def)
  have seen: "err = None" "0 \<le> secs" "at \<noteq> 0" using ok view
    by (auto simp: RecordPosition_def split: if_splits option.splits)
  have d: "distinct (row_ids ?rows)" and ge: "0 \<le> lp_ActiveSeconds p"
    using valid p(1) unfolding enrollment_valid_iff by (auto simp: learning_ok_def rows_ok_def row_ok_def)
  obtain n where n: "n < length ?rows" "?rows ! n = p" using p(1) by (auto simp: in_set_conv_nth)
  have index: "progressIndex ?rows x = int n" unfolding progressIndex_def
    by (rule go_index_unique) (use d n p(2) in \<open>auto simp: distinct_conv_nth\<close>)
  have e': "en_LessonProgress ?e' = ?rows
      [n := p\<lparr>lp_ActiveSeconds := wrap64 (lp_ActiveSeconds p + secs), lp_LastPosition := pos\<rparr>]"
    using seen view index rows n by (simp add: RecordPosition_def Let_def update_row_def del: progressIndex_neg)
  have over: "max_int64 < lp_ActiveSeconds p + secs" using p(3) ge seen(2) by (simp add: in_int64_def min_int64_def)
  then have "wrap64 (lp_ActiveSeconds p + secs) = lp_ActiveSeconds p + secs - 2 ^ 64"
    using ints by (intro wrap64_overflow) (simp_all add: in_int64_def)
  also have "\<dots> < 0" using ints by (simp add: in_int64_def max_int64_def)
  finally have "lp_ActiveSeconds (en_LessonProgress ?e' ! n) < 0" using e' n(1) by simp
  moreover have "en_LessonProgress ?e' ! n \<in> set (en_LessonProgress ?e')" using e' n(1) by (intro nth_mem) simp
  ultimately have "\<not> rows_ok (en_Lessons ?e') (en_Sequential ?e') (en_LessonProgress ?e')"
    by (auto simp: rows_ok_def row_ok_def dest!: bspec)
  then show ?thesis unfolding enrollment_valid_iff by (simp add: learning_ok_def)
qed

text \<open>The values of the command and of the counters are \<^verbatim>\<open>int64\<close>.\<close>

fun int64_values :: "enrollment \<Rightarrow> enrollment_cmd \<Rightarrow> bool" where
  "int64_values e (Cmd_Position x secs pos at) \<longleftrightarrow>
     in_int64 secs \<and> (\<forall>p\<in>set (en_LessonProgress e). in_int64 (lp_ActiveSeconds p))"
| "int64_values e _ \<longleftrightarrow> True"

text \<open>(C1) A new enrollment that receives commands in the order of their times leaves a snapshot that
  \<^verbatim>\<open>Rehydrate\<close> accepts, unchanged, as long as two things do not happen: \<^verbatim>\<open>ReactivateFrozen\<close> accepted for an internal
  learner or for a run that was never activated, and \<^verbatim>\<open>RecordPosition\<close> accepted with a sum of active seconds
  beyond \<^verbatim>\<open>int64\<close>. When one of them happens, the snapshot it leaves is refused.\<close>

theorem run_rehydrates:
  assumes "Enrollment_New p = Inr e0" "sorted (map cmd_time cs)" "keeps_snapshot e0 cs"
    and "e = fold exec_enrollment cs e0"
  shows "Rehydrate e = Inr e \<and>
    (\<forall>c. \<not> cmd_allowed e c \<longrightarrow> int64_values e c \<longrightarrow> (\<exists>err. Rehydrate (exec_enrollment c e) = Inl err))"
proof -
  have valid: "enrollment_valid e"
    using executed_run_ok[OF assms(1-3)] inv_valid[of e] assms(4) by (auto simp: run_ok_def)
  then have "\<not> enrollment_valid (exec_enrollment c e)" if "\<not> cmd_allowed e c" "int64_values e c" for c
    using that ReactivateFrozen_lost[OF valid] RecordPosition_lost[OF valid] by (cases c) auto
  with valid show ?thesis by (simp add: Rehydrate_iff)
qed

theorem run_rehydrates_witness:
  "\<exists>e0. Enrollment_New example_params = Inr e0 \<and>
     Rehydrate (fold exec_enrollment example_cmds e0) = Inr (fold exec_enrollment example_cmds e0) \<and>
     (\<exists>err. Rehydrate (exec_enrollment (Cmd_Reactivate 300 400) (exec_enrollment (Cmd_Freeze 200) e0)) = Inl err)"
proof -
  obtain e0 where e0: "Enrollment_New example_params = Inr e0"
    using example_run_some by (auto simp: run_def split: sum.splits)
  have "keeps_snapshot (projr (Enrollment_New example_params)) example_cmds"
    "\<not> cmd_allowed (fold exec_enrollment [Cmd_Freeze 200] (projr (Enrollment_New example_params))) (Cmd_Reactivate 300 400)"
    by code_simp+
  then have kept: "keeps_snapshot e0 example_cmds" "\<not> cmd_allowed (fold exec_enrollment [Cmd_Freeze 200] e0) (Cmd_Reactivate 300 400)"
    by (simp_all add: e0)
  have "sorted (map cmd_time example_cmds)" by code_simp
  moreover have "sorted (map cmd_time [Cmd_Freeze 200])" "keeps_snapshot e0 [Cmd_Freeze 200]" by simp_all
  ultimately show ?thesis
    using run_rehydrates[OF e0 _ kept(1) refl] run_rehydrates[OF e0 _ _ refl, of "[Cmd_Freeze 200]"] kept(2) e0
    by fastforce
qed

text \<open>\<^verbatim>\<open>validateSnapshot\<close>, with its loops over maps, accepts exactly the snapshots with a
  complete identity, a known access status, a deadline that fits the kind of learner, a progress
  that fits the outline (in a sequential course: an initial part of it, at most one lesson
  current) and, for every quiz, attempts numbered \<open>1\<close> to \<open>n\<close>.\<close>

theorem validateSnapshot_iff:
  "validateSnapshot s = None \<longleftrightarrow>
     identity_ok s \<and> validAccess (en_AccessStatus s) \<and> deadline_ok s \<and> learning_ok s \<and>
     attempts_ok (en_Lessons s) (en_QuizAttempts s)"
  using enrollment_valid_iff[of s] by (simp add: enrollment_valid_def)

subsection \<open>Sequential courses\<close>

lemma view_needs_row:
  assumes "snd (CanViewLesson e x at) = None"
  shows "x \<in> set (row_ids (en_LessonProgress e))"
proof -
  have rows: "en_LessonProgress (fst (EvaluateDeadline e at)) = en_LessonProgress e"
    by (simp add: EvaluateDeadline_def)
  from assms have "progressByLesson (en_LessonProgress e) x \<noteq> None"
    by (auto simp: CanViewLesson_def Let_def rows split: if_splits AccessStatus.splits)
  then show ?thesis by (simp add: progressByLesson_eq_None)
qed

lemma gate_earlier:
  assumes inv: "learning_inv e" and seq: "en_Sequential e" and split: "en_Lessons e = pre @ l # rest"
    and row: "ls_ID l \<in> set (row_ids (en_LessonProgress e))" and y: "y \<in> set pre"
  shows "ls_ID y \<in> completed_ids (en_LessonProgress e)"
proof -
  let ?rows = "en_LessonProgress e"
  have pref: "prefix (row_ids ?rows) (map ls_ID (en_Lessons e))" and d: "distinct (map ls_ID (en_Lessons e))"
    using inv seq by (simp_all add: learning_inv_def learning_ok_def rows_ok_def outline_ok_def)
  from pref obtain zs where zs: "map ls_ID (en_Lessons e) = row_ids ?rows @ zs" by (rule prefixE)
  define k where "k = length (row_ids ?rows)"
  have ids: "row_ids ?rows = take k (map ls_ID pre @ ls_ID l # map ls_ID rest)"
    using zs split by (simp add: k_def)
  have k: "length pre < k"
  proof (rule ccontr)
    assume "\<not> length pre < k"
    then have "row_ids ?rows = take k (map ls_ID pre)" using ids by simp
    with row have "ls_ID l \<in> set (map ls_ID pre)" by (metis in_set_takeD)
    with d split show False by auto
  qed
  have "set (map ls_ID pre) \<subseteq> set (butlast (row_ids ?rows))"
  proof -
    obtain j where j: "k = Suc (length pre) + j" using k less_imp_Suc_add by fastforce
    have "row_ids ?rows = map ls_ID pre @ ls_ID l # take j (map ls_ID rest)" by (simp add: ids j)
    then show ?thesis by (simp add: butlast_append)
  qed
  with y obtain q where "q \<in> set (butlast ?rows)" "lp_LessonVersionID q = ls_ID y"
    by (auto simp: map_butlast[symmetric])
  moreover have "\<forall>p\<in>set (butlast ?rows). lp_Status p = LessonCompleted"
    using inv seq by (simp add: learning_inv_def sequential_gate_def)
  ultimately show ?thesis by (auto simp: completed_ids_def dest: in_set_butlastD)
qed

text \<open>(C2) In a sequential course a lesson can be viewed only when every lesson before it is
  completed, and when every quiz before it has been passed.\<close>

theorem sequential_lessons_in_order:
  assumes "run p cs = Some (e, clock)" "en_Sequential e" "en_Lessons e = pre @ l # rest"
    and "snd (CanViewLesson e (ls_ID l) at) = None" and "y \<in> set pre"
  shows "ls_ID y \<in> completed_ids (en_LessonProgress e) \<and>
    (\<forall>q. ls_QuizID y = Some q \<longrightarrow>
      (\<exists>a\<in>set (en_QuizAttempts e). qa_QuizVersionID a = q \<and> qa_Passed a))"
proof -
  have inv: "learning_inv e" using run_run_ok[OF assms(1)] by (simp add: run_ok_def)
  have "ls_ID y \<in> completed_ids (en_LessonProgress e)"
    by (rule gate_earlier[OF inv assms(2,3) view_needs_row[OF assms(4)] assms(5)])
  moreover from this have "\<exists>a\<in>set (en_QuizAttempts e). qa_QuizVersionID a = q \<and> qa_Passed a"
    if "ls_QuizID y = Some q" for q
    using inv that assms(3,5) by (auto simp: learning_inv_def quiz_gate_def)
  ultimately show ?thesis by blast
qed

theorem sequential_lessons_in_order_witness:
  "let e = fst (the (run example_params example_cmds))
   in ''l2'' \<in> completed_ids (en_LessonProgress e) \<and>
      (\<exists>a\<in>set (en_QuizAttempts e). qa_QuizVersionID a = ''q2'' \<and> qa_Passed a)"
proof -
  obtain e clock where e: "run example_params example_cmds = Some (e, clock)"
    using example_run_some by auto
  let ?l1 = "\<lparr>ls_ID = ''l1'', ls_QuizID = None, ls_Optional = False\<rparr>"
  let ?l2 = "\<lparr>ls_ID = ''l2'', ls_QuizID = Some ''q2'', ls_Optional = False\<rparr>"
  let ?l3 = "\<lparr>ls_ID = ''l3'', ls_QuizID = None, ls_Optional = False\<rparr>"
  have "map_option (\<lambda>(e, _). (en_Sequential e, en_Lessons e, snd (CanViewLesson e ''l3'' 500)))
      (run example_params example_cmds) = Some (True, [?l1, ?l2] @ ?l3 # [], None)"
    by code_simp
  with e have facts: "en_Sequential e" "en_Lessons e = [?l1, ?l2] @ ?l3 # []"
    "snd (CanViewLesson e (ls_ID ?l3) 500) = None" by simp_all
  from sequential_lessons_in_order[OF e facts, of ?l2] e show ?thesis by simp
qed

subsection \<open>Progress is kept\<close>

text \<open>(C3) Progress is never lost and never moves to another version: after any further commands the
  run is pinned to the same course version, learner and outline, the lessons completed before are
  still completed, the attempts recorded before are still there in their order, and the progress
  status has not gone back.\<close>

theorem progress_is_never_lost:
  assumes "run p cs = Some (e, clock)" "run p (cs @ cs') = Some (e', clock')"
  shows "pin e' = pin e \<and> clock \<le> clock' \<and>
    completed_ids (en_LessonProgress e) \<subseteq> completed_ids (en_LessonProgress e') \<and>
    prefix (map qa_ID (en_QuizAttempts e)) (map qa_ID (en_QuizAttempts e')) \<and>
    progress_rank (en_ProgressStatus e) \<le> progress_rank (en_ProgressStatus e')"
proof -
  have s: "fold tick cs' (e, clock) = (e', clock')"
    using assms run_append[OF assms(1), of cs'] by simp
  note ok = run_run_ok[OF assms(1)]
  show ?thesis
    using en_pin.run_pin[OF ok, of cs'] en_grow.run_below[OF ok, of cs']
      en_clock.grows.run_below[OF ok, of cs'] unfolding s by (simp add: progress_below_def)
qed

theorem progress_is_never_lost_witness:
  "let e = fst (the (run example_params (take 2 example_cmds)));
       e' = fst (the (run example_params example_cmds))
   in pin e' = pin e \<and> completed_ids (en_LessonProgress e) \<subseteq> completed_ids (en_LessonProgress e')"
proof -
  obtain e clock where e: "run example_params (take 2 example_cmds) = Some (e, clock)"
    by (cases "run example_params (take 2 example_cmds)") (auto simp: run_def example_run_some split: sum.splits, code_simp)
  obtain e' clock' where e': "run example_params (take 2 example_cmds @ drop 2 example_cmds) = Some (e', clock')"
    using example_run_some by auto
  from progress_is_never_lost[OF e e'] e e' show ?thesis by simp
qed

subsection \<open>Revoked and closed runs\<close>

text \<open>(C5) Once access is revoked or closed it is final: whatever commands follow, the run stays revoked or
  closed, its progress and attempts stay as they were, and every lesson is refused.\<close>

theorem revoked_or_closed_is_final:
  assumes "run p cs = Some (e, clock)" "shut e" "run p (cs @ cs') = Some (e', clock')"
  shows "shut e' \<and> same_learning e e' \<and> (\<forall>x at. snd (CanViewLesson e' x at) \<noteq> None)"
proof -
  have s: "fold tick cs' (e, clock) = (e', clock')"
    using assms(3) run_append[OF assms(1), of cs'] by simp
  have "same_learning e e" by (simp add: same_learning_def)
  with en_term.run_terminal[OF run_run_ok[OF assms(1)], of e cs'] assms(2) s
  have final: "shut e'" "same_learning e e'" by simp_all
  have "snd (CanViewLesson e' x at) \<noteq> None" for x at
    by (rule shut_view[OF final(1), of x at]) simp
  with final show ?thesis by blast
qed

theorem revoked_or_closed_is_final_witness:
  "let e' = fst (the (run example_params (example_cmds @ [Cmd_Revoke 500] @
      [Cmd_Activate \<lparr>act_At = 600, act_Duration = Day\<rparr>, Cmd_Open ''l1'' 700])))
   in shut e' \<and> snd (CanViewLesson e' ''l1'' 800) \<noteq> None"
proof -
  let ?cs = "example_cmds @ [Cmd_Revoke 500]"
  let ?cs' = "[Cmd_Activate \<lparr>act_At = 600, act_Duration = Day\<rparr>, Cmd_Open ''l1'' 700]"
  obtain s where s: "run example_params example_cmds = Some s" using example_run_some by auto
  obtain e clock where e: "run example_params ?cs = Some (e, clock)"
    using run_append[OF s, of "[Cmd_Revoke 500]"] by fastforce
  have "map_option (\<lambda>(e, _). en_AccessStatus e) (run example_params ?cs) = Some AccessRevoked"
    by code_simp
  with e have shut: "shut e" by (simp add: shut_def)
  obtain e' clock' where e': "run example_params (?cs @ ?cs') = Some (e', clock')"
    using run_append[OF e, of ?cs'] by fastforce
  from revoked_or_closed_is_final[OF e shut e'] e' show ?thesis by simp
qed

subsection \<open>Restrictions suspend and restore access\<close>

text \<open>A restriction costs the learner no time: suspending a run and resuming it later restores the
  access status it had, and moves the deadline of an active external learner by exactly the
  length of the suspension.\<close>

theorem suspension_costs_no_time:
  assumes "en_AccessStatus e \<noteq> AccessSuspended" "en_AccessStatus e \<noteq> AccessRevoked"
    "en_AccessStatus e \<noteq> AccessClosed" "t1 \<noteq> 0" "t2 \<noteq> 0" "t1 \<le> t2" "t2 - t1 \<le> max_int64"
  shows "ResumeAfterBlock (fst (SuspendForBlock e t1)) t2 =
    (e\<lparr>en_AccessUntil :=
         (if en_LearnerType e = LearnerExternal \<and> en_AccessStatus e = AccessActive
          then map_option (\<lambda>until. until + (t2 - t1)) (en_AccessUntil e) else en_AccessUntil e),
       en_PreviousAccess := None, en_SuspendedAt := None, en_LastActivityAt := Some t2\<rparr>, None)"
proof -
  have "Time_Sub t2 t1 = t2 - t1" using assms(6,7) by (intro Time_Sub_exact) simp
  then show ?thesis using assms
    by (cases "en_AccessUntil e") (simp_all add: SuspendForBlock_def ResumeAfterBlock_def Let_def)
qed

theorem suspension_costs_no_time_witness:
  "let e = fst (the (run example_params example_cmds))
   in en_AccessUntil (fst (ResumeAfterBlock (fst (SuspendForBlock e 1000)) 5000)) =
      Some (200 + Day + 4000)"
proof -
  obtain e clock where e: "run example_params example_cmds = Some (e, clock)"
    using example_run_some by auto
  have "map_option (\<lambda>(e, _). (en_AccessStatus e, en_LearnerType e, en_AccessUntil e))
      (run example_params example_cmds) = Some (AccessActive, LearnerExternal, Some (200 + Day))"
    by code_simp
  with e have facts: "en_AccessStatus e = AccessActive" "en_LearnerType e = LearnerExternal"
    "en_AccessUntil e = Some (200 + Day)" by simp_all
  have "5000 - 1000 \<le> max_int64" by (simp add: max_int64_def)
  with suspension_costs_no_time[of e 1000 5000] facts e show ?thesis by simp
qed

text \<open>A suspended run can always be resumed: whatever led to the suspension, at any later time
  \<^verbatim>\<open>ResumeAfterBlock\<close> succeeds and returns the run to one of the five states it can be suspended from.\<close>

theorem suspended_run_resumes:
  assumes "run p cs = Some (e, clock)" "en_AccessStatus e = AccessSuspended" "clock \<le> at" "at \<noteq> 0"
  shows "snd (ResumeAfterBlock e at) = None \<and>
    en_AccessStatus (fst (ResumeAfterBlock e at)) \<in>
      {AccessInvited, AccessReady, AccessActive, AccessExpired, AccessFrozen}"
proof -
  have "access_inv e clock" using run_run_ok[OF assms(1)] by (simp add: run_ok_def)
  then obtain s q where "en_SuspendedAt e = Some s" "s \<le> clock" "en_PreviousAccess e = Some q"
    and q: "validAccess q" "q \<noteq> AccessSuspended" "q \<noteq> AccessRevoked" "q \<noteq> AccessClosed"
    using assms(2) unfolding access_inv_def by blast
  moreover from q have "q \<in> {AccessInvited, AccessReady, AccessActive, AccessExpired, AccessFrozen}"
    by (cases q) (simp_all add: validAccess_def)
  ultimately show ?thesis using assms by (auto simp: ResumeAfterBlock_def Let_def)
qed

theorem suspended_run_resumes_witness:
  "snd (ResumeAfterBlock (fst (the (run example_params (example_cmds @ [Cmd_Suspend 500])))) 900) = None"
proof -
  obtain s where s: "run example_params example_cmds = Some s" using example_run_some by auto
  obtain e clock where e: "run example_params (example_cmds @ [Cmd_Suspend 500]) = Some (e, clock)"
    using run_append[OF s, of "[Cmd_Suspend 500]"] by fastforce
  have "map_option (\<lambda>(e, c). (en_AccessStatus e, c)) (run example_params (example_cmds @ [Cmd_Suspend 500]))
      = Some (AccessSuspended, 500)" by code_simp
  with e suspended_run_resumes[OF e, of 900] show ?thesis by simp
qed

subsection \<open>The access diagram\<close>

text \<open>The enrollment access diagram of \<^verbatim>\<open>docs/academy-state-diagrams.md\<close>.\<close>

inductive access_diagram :: "AccessStatus \<Rightarrow> AccessStatus \<Rightarrow> bool" where
  confirm: "access_diagram AccessInvited AccessReady"
| activate: "access_diagram AccessReady AccessActive"
| expire: "access_diagram AccessActive AccessExpired"
| freeze: "s \<in> {AccessActive, AccessReady, AccessInvited} \<Longrightarrow> access_diagram s AccessFrozen"
| suspend: "s \<in> {AccessActive, AccessReady, AccessInvited, AccessExpired, AccessFrozen} \<Longrightarrow>
    access_diagram s AccessSuspended"
| extend: "access_diagram AccessExpired AccessActive"
| reactivate: "access_diagram AccessFrozen AccessActive"
| resume: "s \<in> {AccessActive, AccessReady, AccessInvited, AccessExpired, AccessFrozen} \<Longrightarrow>
    access_diagram AccessSuspended s"
| revoke: "s \<in> {AccessInvited, AccessReady, AccessActive} \<Longrightarrow> access_diagram s AccessRevoked"
| close: "s \<in> {AccessInvited, AccessReady, AccessActive, AccessExpired, AccessFrozen, AccessSuspended,
    AccessRevoked} \<Longrightarrow> access_diagram s AccessClosed"

text \<open>What the code allows beyond the diagram: activating an invited run directly, and revoking an
  expired, frozen or suspended one.\<close>

inductive access_beyond :: "AccessStatus \<Rightarrow> AccessStatus \<Rightarrow> bool" where
  direct: "access_beyond AccessInvited AccessActive"
| late_revoke: "s \<in> {AccessExpired, AccessFrozen, AccessSuspended} \<Longrightarrow> access_beyond s AccessRevoked"

inductive_simps access_diagram_simps:
  "access_diagram s AccessActive" "access_diagram s AccessExpired" "access_diagram s AccessFrozen"
  "access_diagram s AccessSuspended" "access_diagram s AccessRevoked" "access_diagram s AccessClosed"
  "access_diagram AccessSuspended s"

inductive_simps access_beyond_simps: "access_beyond s AccessActive" "access_beyond s AccessRevoked"

definition access_move :: "AccessStatus \<Rightarrow> AccessStatus \<Rightarrow> bool" where
  "access_move s t \<longleftrightarrow> t = s \<or> access_diagram s t \<or> access_beyond s t"

lemma access_move_deadline: "access_move (en_AccessStatus e) (en_AccessStatus (fst (EvaluateDeadline e at)))"
  by (auto simp: EvaluateDeadline_def access_move_def access_diagram_simps)

lemma access_move_commands:
  assumes "access_inv e clock"
  shows "access_move (en_AccessStatus e) (en_AccessStatus (fst (ExtendExternalAccess e at d)))"
    "access_move (en_AccessStatus e) (en_AccessStatus (fst (FreezeForArchive e at)))"
    "access_move (en_AccessStatus e) (en_AccessStatus (fst (ReactivateFrozen e at until)))"
    "access_move (en_AccessStatus e) (en_AccessStatus (fst (SuspendForBlock e at)))"
    "access_move (en_AccessStatus e) (en_AccessStatus (fst (ResumeAfterBlock e at)))"
    "access_move (en_AccessStatus e) (en_AccessStatus (fst (Enrollment_Revoke e at)))"
    "access_move (en_AccessStatus e) (en_AccessStatus (fst (Enrollment_Close e at)))"
    "access_move (en_AccessStatus e) (en_AccessStatus (fst (Enrollment_Activate e p)))"
proof -
  have v: "validAccess (en_AccessStatus e)" using assms by (simp add: access_inv_def)
  show "access_move (en_AccessStatus e) (en_AccessStatus (fst (ExtendExternalAccess e at d)))"
    by (simp add: ExtendExternalAccess_def access_move_def access_diagram_simps Let_def)
  show "access_move (en_AccessStatus e) (en_AccessStatus (fst (FreezeForArchive e at)))"
    by (auto simp: FreezeForArchive_def access_move_def access_diagram_simps)
  show "access_move (en_AccessStatus e) (en_AccessStatus (fst (ReactivateFrozen e at until)))"
    by (simp add: ReactivateFrozen_def access_move_def access_diagram_simps)
  show "access_move (en_AccessStatus e) (en_AccessStatus (fst (SuspendForBlock e at)))"
    using v by (cases "en_AccessStatus e")
      (simp_all add: SuspendForBlock_def access_move_def access_diagram_simps validAccess_def)
  show "access_move (en_AccessStatus e) (en_AccessStatus (fst (Enrollment_Revoke e at)))"
    using v by (cases "en_AccessStatus e")
      (simp_all add: Enrollment_Revoke_def access_move_def access_diagram_simps access_beyond_simps
        validAccess_def)
  show "access_move (en_AccessStatus e) (en_AccessStatus (fst (Enrollment_Close e at)))"
    using v by (cases "en_AccessStatus e")
      (simp_all add: Enrollment_Close_def access_move_def access_diagram_simps validAccess_def)
  show "access_move (en_AccessStatus e) (en_AccessStatus (fst (Enrollment_Activate e p)))"
    by (cases rule: Activate_cases[of e p])
      (auto simp: access_move_def access_diagram_simps access_beyond_simps)
  show "access_move (en_AccessStatus e) (en_AccessStatus (fst (ResumeAfterBlock e at)))"
  proof (cases "en_AccessStatus e = AccessSuspended")
    case False
    then have "fst (ResumeAfterBlock e at) = e"
      by (auto simp: ResumeAfterBlock_def split: AccessStatus.splits)
    then show ?thesis by (simp add: access_move_def)
  next
    case True
    then obtain s q where q: "en_SuspendedAt e = Some s" "en_PreviousAccess e = Some q" "validAccess q"
      "q \<noteq> AccessSuspended" "q \<noteq> AccessRevoked" "q \<noteq> AccessClosed"
      using assms unfolding access_inv_def by blast
    then show ?thesis
      by (cases q) (auto simp: ResumeAfterBlock_def True Let_def access_move_def access_diagram_simps
          validAccess_def)
  qed
qed

lemma access_move_lessons:
  "access_move (en_AccessStatus e) (en_AccessStatus (fst (CanViewLesson e x at)))"
  "access_move (en_AccessStatus e) (en_AccessStatus (fst (OpenLesson e x at)))"
  "access_move (en_AccessStatus e) (en_AccessStatus (fst (RecordPosition e x secs pos at)))"
  "access_move (en_AccessStatus e) (en_AccessStatus (fst (CompleteLesson e x at)))"
  "access_move (en_AccessStatus e) (en_AccessStatus (fst (SubmitQuiz e p)))"
  "access_move (en_AccessStatus e) (en_AccessStatus (fst (ReviewAttempt e p')))"
proof -
  have refl: "access_move s s" for s by (simp add: access_move_def)
  show view: "access_move (en_AccessStatus e) (en_AccessStatus (fst (CanViewLesson e x at)))"
    using access_move_deadline[of e at] refl by (simp add: CanViewLesson_def Let_def)
  show "access_move (en_AccessStatus e) (en_AccessStatus (fst (OpenLesson e x at)))"
    using view lesson_commands_access(1)[of e x at] refl by (auto simp: same_access_def)
  show "access_move (en_AccessStatus e) (en_AccessStatus (fst (RecordPosition e x secs pos at)))"
    using view lesson_commands_access(2)[of e x at secs pos] refl by (auto simp: same_access_def)
  show "access_move (en_AccessStatus e) (en_AccessStatus (fst (CompleteLesson e x at)))"
    using view lesson_commands_access(3)[of e x at] refl by (auto simp: same_access_def)
  show "access_move (en_AccessStatus e) (en_AccessStatus (fst (SubmitQuiz e p)))"
    "access_move (en_AccessStatus e) (en_AccessStatus (fst (ReviewAttempt e p')))"
    using quiz_same_access[of e] refl by (simp_all add: same_access_def)
qed

text \<open>(C6) Every command moves the access status of a run along an edge of the documented diagram,
  or leaves it, or takes one of the four edges the code has beyond it.\<close>

theorem access_follows_diagram:
  assumes "run p cs = Some (e, clock)" "run p (cs @ [c]) = Some (e', clock')"
  shows "en_AccessStatus e' = en_AccessStatus e \<or> access_diagram (en_AccessStatus e) (en_AccessStatus e') \<or>
    access_beyond (en_AccessStatus e) (en_AccessStatus e')"
proof -
  have inv: "access_inv e clock" using run_run_ok[OF assms(1)] by (simp add: run_ok_def)
  have "access_move (en_AccessStatus e) (en_AccessStatus (exec_enrollment c e))"
    using access_move_deadline[of e]
    by (cases c) (simp_all add: access_move_commands[OF inv] access_move_lessons Enrollment_Resume_def
        Let_def)
  then have "access_move (en_AccessStatus e) (en_AccessStatus e')"
    using assms run_append[OF assms(1), of "[c]"]
    by (auto simp: tick_def access_move_def split: if_splits)
  then show ?thesis by (simp add: access_move_def)
qed

theorem access_follows_diagram_witness:
  "let e = fst (the (run example_params example_cmds));
       e' = fst (the (run example_params (example_cmds @ [Cmd_Freeze 500])))
   in en_AccessStatus e = AccessActive \<and> en_AccessStatus e' = AccessFrozen \<and>
      (en_AccessStatus e' = en_AccessStatus e \<or> access_diagram (en_AccessStatus e) (en_AccessStatus e') \<or>
       access_beyond (en_AccessStatus e) (en_AccessStatus e'))"
proof -
  obtain e clock where e: "run example_params example_cmds = Some (e, clock)"
    using example_run_some by auto
  obtain e' clock' where e': "run example_params (example_cmds @ [Cmd_Freeze 500]) = Some (e', clock')"
    using run_append[OF e, of "[Cmd_Freeze 500]"] by fastforce
  have "map_option (en_AccessStatus \<circ> fst) (run example_params example_cmds) = Some AccessActive"
    "map_option (en_AccessStatus \<circ> fst) (run example_params (example_cmds @ [Cmd_Freeze 500])) =
      Some AccessFrozen"
    by code_simp+
  with access_follows_diagram[OF e e'] e e' show ?thesis by (simp add: Let_def)
qed

subsection \<open>Viewing lessons and percentages\<close>

lemma Expired_at:
  "en_LessonProgress (fst (EvaluateDeadline e at)) = en_LessonProgress e"
  "en_Lessons (fst (EvaluateDeadline e at)) = en_Lessons e"
  by (simp_all add: EvaluateDeadline_def)

lemma hasLesson_iff: "hasLesson lessons x \<longleftrightarrow> x \<in> set (map ls_ID lessons)"
  by (auto simp: hasLesson_def lessonByID_def find_None_iff)

text \<open>Who may view a lesson: with active access any lesson that has been opened, with expired
  (the deadline being settled first) or frozen access only the completed lessons, in any other
  state none.\<close>

theorem CanViewLesson_iff:
  assumes "validateSnapshot e = None"
  shows "snd (CanViewLesson e x at) = None \<longleftrightarrow>
    (let status = en_AccessStatus (fst (EvaluateDeadline e at))
     in status = AccessActive \<and> x \<in> set (row_ids (en_LessonProgress e)) \<or>
        (status = AccessExpired \<or> status = AccessFrozen) \<and> x \<in> completed_ids (en_LessonProgress e))"
proof -
  have ok: "rows_ok (en_Lessons e) (en_Sequential e) (en_LessonProgress e)"
    using assms enrollment_valid_iff[of e] by (simp add: enrollment_valid_def learning_ok_def)
  have d: "distinct (row_ids (en_LessonProgress e))"
    and sub: "set (row_ids (en_LessonProgress e)) \<subseteq> set (map ls_ID (en_Lessons e))"
    using ok by (simp_all add: rows_ok_def)
  have compl: "map_option lp_Status (progressByLesson (en_LessonProgress e) x) = Some LessonCompleted \<longleftrightarrow>
      x \<in> completed_ids (en_LessonProgress e)"
    unfolding progress_completed_iff[OF d, symmetric] by (auto split: option.splits)
  have row: "progressByLesson (en_LessonProgress e) x = None \<longleftrightarrow> x \<notin> set (row_ids (en_LessonProgress e))"
    by (rule progressByLesson_eq_None)
  have "hasLesson (en_Lessons e) x" if "x \<in> set (row_ids (en_LessonProgress e))"
    using that sub unfolding hasLesson_iff by blast
  moreover have "x \<in> set (row_ids (en_LessonProgress e))" if "x \<in> completed_ids (en_LessonProgress e)"
    using that completed_ids_subset by blast
  ultimately show ?thesis
    unfolding CanViewLesson_def Let_def Expired_at compl row
    by (auto split: AccessStatus.splits)
qed

text \<open>The example run, evaluated.\<close>

definition example_run :: enrollment where
  "example_run = fst (the (run example_params example_cmds))"

lemma example_run_valid: "validateSnapshot example_run = None"
  by code_simp

theorem CanViewLesson_iff_witness:
  "snd (CanViewLesson example_run ''l3'' 500) = None \<and>
   snd (CanViewLesson example_run ''l3'' (200 + Day)) \<noteq> None \<and>
   snd (CanViewLesson example_run ''l2'' (200 + Day)) = None"
proof -
  have "en_AccessStatus (fst (EvaluateDeadline example_run 500)) = AccessActive"
    "en_AccessStatus (fst (EvaluateDeadline example_run (200 + Day))) = AccessExpired"
    "row_ids (en_LessonProgress example_run) = [''l1'', ''l2'', ''l3'']"
    "map lp_Status (en_LessonProgress example_run) = [LessonCompleted, LessonCompleted, LessonCurrent]"
    by code_simp+
  moreover from this have "completed_ids (en_LessonProgress example_run) = {''l1'', ''l2''}"
    by (auto simp: completed_ids_def map_eq_Cons_conv Cons_eq_map_conv)
  ultimately show ?thesis
    unfolding CanViewLesson_iff[OF example_run_valid] by (simp add: Let_def)
qed

text \<open>The progress of a stored run is a percentage: between 0 and 100, and 100 exactly when every
  required lesson is completed, so a run whose status is completed shows 100.\<close>

theorem ProgressPercent_bounds:
  assumes "validateSnapshot e = None"
  shows "0 \<le> ProgressPercent e \<and> ProgressPercent e \<le> 100 \<and>
    (ProgressPercent e = 100 \<longleftrightarrow> requiredLessonsComplete e) \<and>
    (en_ProgressStatus e = ProgressCompleted \<longrightarrow> ProgressPercent e = 100)"
proof -
  let ?done = "\<lambda>lesson. case progressByLesson (en_LessonProgress e) (ls_ID lesson) of
      None \<Rightarrow> False | Some p \<Rightarrow> lp_Status p = LessonCompleted"
  define required where "required = filter (\<lambda>lesson. \<not> ls_Optional lesson) (en_Lessons e)"
  define c n where "c = int (length (filter ?done required))" and "n = int (length required)"
  have pct: "ProgressPercent e = (if n = 0 then 100 else c * 100 div n)"
    by (simp add: ProgressPercent_def required_def c_def n_def)
  have cn: "0 \<le> c" "c \<le> n" by (simp_all add: c_def n_def)
  have "c = n \<longleftrightarrow> (\<forall>lesson\<in>set required. ?done lesson)"
    unfolding c_def n_def of_nat_eq_iff by (rule length_filter_full)
  also have "\<dots> \<longleftrightarrow> requiredLessonsComplete e"
    by (auto simp: required_def requiredLessonsComplete_def list_all_iff)
  finally have full: "c = n \<longleftrightarrow> requiredLessonsComplete e" .
  have status: "en_ProgressStatus e = ProgressCompleted \<longrightarrow> requiredLessonsComplete e"
    using assms enrollment_valid_iff[of e] by (simp add: enrollment_valid_def learning_ok_def)
  have bounds: "0 \<le> c * 100 div n \<and> c * 100 div n \<le> 100 \<and> (c * 100 div n = 100 \<longleftrightarrow> c = n)" if "0 < n"
  proof -
    have "c * 100 div n \<le> n * 100 div n" using cn that by (intro zdiv_mono1) simp_all
    moreover have "c * 100 div n < 100" if "c < n"
    proof -
      have "c * 100 div n * n \<le> c * 100" using \<open>0 < n\<close> by (simp add: minus_mod_eq_div_mult[symmetric])
      also have "\<dots> < 100 * n" using that by simp
      finally show ?thesis using \<open>0 < n\<close> by simp
    qed
    ultimately show ?thesis using cn that by (cases "c = n") (auto simp: pos_imp_zdiv_nonneg_iff)
  qed
  show ?thesis using bounds cn full status unfolding pct by (cases "n = 0") auto
qed

theorem ProgressPercent_bounds_witness: "ProgressPercent example_run = 66 \<and> ProgressPercent example_run \<le> 100"
  using ProgressPercent_bounds[OF example_run_valid] by code_simp

subsection \<open>Quizzes\<close>

text \<open>(C4) \<^verbatim>\<open>SubmitQuiz\<close> either refuses and leaves the run untouched, or records exactly one attempt,
  numbered after the earlier attempts of its quiz and within the limit; the attempt is passed
  when it needs no review and reaches the passing score, and then, and only then, the lesson of
  the quiz is completed.\<close>

theorem SubmitQuiz_records_one_attempt:
  assumes "validateSnapshot e = None"
  shows "(\<exists>err. SubmitQuiz e p = (e, Inl err)) \<or>
    (\<exists>e' out. SubmitQuiz e p = (e', Inr out) \<and>
       en_QuizAttempts e' = en_QuizAttempts e @ [new_attempt e p] \<and>
       qo_AttemptNumber out = attemptsForQuiz (en_QuizAttempts e) (qs_QuizVersionID p) + 1 \<and>
       (\<forall>m. qs_MaxAttempts p = Some m \<longrightarrow> qo_AttemptNumber out \<le> m) \<and>
       qo_Decision out = attempt_decision (new_attempt e p) \<and>
       (qo_Decision out = QuizPassed \<longleftrightarrow> \<not> qs_PendingReview p \<and> qs_PassingScore p \<le> qs_Score p) \<and>
       completed_ids (en_LessonProgress e') =
         (if qo_Decision out = QuizPassed then insert (qs_LessonID p) (completed_ids (en_LessonProgress e))
          else completed_ids (en_LessonProgress e)) \<and>
       (qo_EnrollmentComplete out \<longrightarrow> en_ProgressStatus e' = ProgressCompleted))"
proof (cases "submit_accepted e p")
  case False
  then show ?thesis by (intro disjI1 SubmitQuiz_refused)
next
  case True
  have rows: "rows_ok (en_Lessons e) (en_Sequential e) (en_LessonProgress e)"
    using assms enrollment_valid_iff[of e] by (simp add: enrollment_valid_def learning_ok_def)
  let ?s = "with_attempt e p" and ?passed = "qa_Passed (new_attempt e p)"
  let ?out = "\<lparr>qo_AttemptNumber = qa_Number (new_attempt e p), qo_Decision = attempt_decision (new_attempt e p),
         qo_CompletedLessonID = None, qo_UnlockedLessonID = None, qo_EnrollmentComplete = False\<rparr>"
  have passed: "attempt_decision (new_attempt e p) = QuizPassed \<longleftrightarrow> ?passed"
    "?passed \<longleftrightarrow> \<not> qs_PendingReview p \<and> qs_PassingScore p \<le> qs_Score p"
    by (simp_all add: attempt_decision_def new_attempt_def)
  have number: "qa_Number (new_attempt e p) = attemptsForQuiz (en_QuizAttempts e) (qs_QuizVersionID p) + 1"
    "\<forall>m. qs_MaxAttempts p = Some m \<longrightarrow> qa_Number (new_attempt e p) \<le> m"
    using True by (auto simp: new_attempt_def submit_accepted_def)
  show ?thesis
  proof (cases "settle_attempt ?s (qs_LessonID p) (qs_At p) ?passed ?out")
    case (Inl err)
    then show ?thesis unfolding SubmitQuiz_accepted[OF True] by simp
  next
    case (Inr r)
    obtain e' out where r: "r = (e', out)" by fastforce
    show ?thesis
    proof (cases ?passed)
      case False
      with Inr r have "e' = ?s" "out = ?out" by (simp_all add: settle_attempt_def)
      with False Inr r passed number show ?thesis
        unfolding SubmitQuiz_accepted[OF True] by (intro disjI2 exI[of _ e'] exI[of _ out]) auto
    next
      case passes: True
      with Inr r obtain nxt dn where c: "completeLesson ?s (qs_LessonID p) (qs_At p) = Inr (e', nxt, dn)"
        and out: "qo_AttemptNumber out = qa_Number (new_attempt e p)"
          "qo_Decision out = attempt_decision (new_attempt e p)" "qo_EnrollmentComplete out = dn"
        by (auto simp: settle_attempt_def split: sum.splits)
      have "dn \<longrightarrow> en_ProgressStatus e' = ProgressCompleted"
        using c by (cases rule: completeLesson_cases) auto
      moreover have "completed_ids (en_LessonProgress e') =
          insert (qs_LessonID p) (completed_ids (en_LessonProgress e))"
        using completeLesson_completed(1)[OF _ c] rows by simp
      ultimately show ?thesis
        using passes Inr r passed number out completeLesson_identity(2)[OF c]
        unfolding SubmitQuiz_accepted[OF True] by (intro disjI2 exI[of _ e'] exI[of _ out]) simp
    qed
  qed
qed

theorem SubmitQuiz_records_one_attempt_witness:
  "let e = fst (the (run example_params (take 2 example_cmds)));
       e' = fst (SubmitQuiz e example_submission)
   in en_QuizAttempts e' = en_QuizAttempts e @ [new_attempt e example_submission]"
proof -
  define e where "e = fst (the (run example_params (take 2 example_cmds)))"
  have "validateSnapshot e = None" "\<not> isl (snd (SubmitQuiz e example_submission))"
    unfolding e_def by code_simp+
  with SubmitQuiz_records_one_attempt[of e example_submission] show ?thesis
    by (auto simp: e_def Let_def)
qed

end
