(* ===== verification/Restriction.thy ===== *)
theory Restriction
  imports Course
begin

section \<open>Restrictions: administrative pauses and blocks of a course\<close>

text \<open>
  The package \<^verbatim>\<open>services/academy/internal/domain/restriction\<close> (\<^verbatim>\<open>restriction.go\<close>): the history of
  restrictions of one course, of which at most one pause and one block are active, and the
  distribution status they cause.
\<close>

datatype Kind = KindPause | KindBlock | KindOther string

datatype restriction_error = ErrRestrictionIDRequired | Restriction_ErrCourseIDRequired
  | Restriction_ErrCompanyIDRequired | ErrUnknownKind | ErrReasonRequired | ErrActorRequired
  | ErrAppliedAtRequired | ErrResolveActorRequired | ErrResolvedAtRequired
  | ErrResolvedBeforeApplied | ErrResolutionIncomplete | ErrDuplicateActiveKind
  | ErrRestrictionNotFound | ErrRestrictionResolved | ErrRestrictionScope

record restriction =
  rs_ID :: ID
  rs_CompanyID :: ID
  rs_CourseID :: ID
  rs_Kind :: Kind
  rs_Reason :: string
  rs_AppliedByID :: ID
  rs_AppliedAt :: time
  rs_ResolvedByID :: "ID option"
  rs_ResolvedAt :: "time option"

record ApplyParams =
  ap_ID :: ID
  ap_Kind :: Kind
  ap_Reason :: string
  ap_AppliedByID :: ID
  ap_AppliedAt :: time

record restriction_set =
  st_companyID :: ID
  st_courseID :: ID
  st_restrictions :: "restriction list"

definition Restriction_Active :: "restriction \<Rightarrow> bool" where
  "Restriction_Active r \<longleftrightarrow> rs_ResolvedAt r = None"

definition Restriction_Validate :: "restriction \<Rightarrow> restriction_error option" where
  "Restriction_Validate r =
     (if rs_ID r = '''' then Some ErrRestrictionIDRequired
      else if rs_CompanyID r = '''' then Some Restriction_ErrCompanyIDRequired
      else if rs_CourseID r = '''' then Some Restriction_ErrCourseIDRequired
      else if TrimSpace (rs_Reason r) = '''' then Some ErrReasonRequired
      else if rs_AppliedByID r = '''' then Some ErrActorRequired
      else if IsZero (rs_AppliedAt r) then Some ErrAppliedAtRequired
      else if rs_Kind r \<noteq> KindPause \<and> rs_Kind r \<noteq> KindBlock then Some ErrUnknownKind
      else if (rs_ResolvedByID r = None) \<noteq> (rs_ResolvedAt r = None) then Some ErrResolutionIncomplete
      else if rs_ResolvedByID r = Some '''' then Some ErrResolveActorRequired
      else case rs_ResolvedAt r of
          None \<Rightarrow> None
        | Some at \<Rightarrow>
            if IsZero at then Some ErrResolvedAtRequired
            else if Before at (rs_AppliedAt r) then Some ErrResolvedBeforeApplied
            else None)"

definition clone_option :: "'a option \<Rightarrow> 'a option" where
  "clone_option v = (case v of None \<Rightarrow> None | Some copy \<Rightarrow> Some copy)"

definition cloneRestriction :: "restriction \<Rightarrow> restriction" where
  "cloneRestriction value =
     value\<lparr>rs_ResolvedByID := clone_option (rs_ResolvedByID value),
           rs_ResolvedAt := clone_option (rs_ResolvedAt value)\<rparr>"

text \<open>The loop of \<^verbatim>\<open>Rehydrate\<close>: the ids and the active kinds seen so far.\<close>

fun rehydrate_rows ::
  "ID \<Rightarrow> ID \<Rightarrow> Kind list \<Rightarrow> ID list \<Rightarrow> restriction list \<Rightarrow> restriction_error + restriction list"
where
  "rehydrate_rows companyID courseID active ids [] = Inr []"
| "rehydrate_rows companyID courseID active ids (v # rest) =
     (case Restriction_Validate v of
        Some err \<Rightarrow> Inl err
      | None \<Rightarrow>
          if rs_CompanyID v \<noteq> companyID \<or> rs_CourseID v \<noteq> courseID then Inl ErrRestrictionScope
          else if rs_ID v \<in> set ids then Inl ErrRestrictionIDRequired
          else if Restriction_Active v \<and> rs_Kind v \<in> set active then Inl ErrDuplicateActiveKind
          else case rehydrate_rows companyID courseID
                      (if Restriction_Active v then rs_Kind v # active else active)
                      (rs_ID v # ids) rest of
                 Inl err \<Rightarrow> Inl err
               | Inr rows \<Rightarrow> Inr (cloneRestriction v # rows))"

definition Restriction_Rehydrate ::
  "ID \<Rightarrow> ID \<Rightarrow> restriction list \<Rightarrow> restriction_error + restriction_set" where
  "Restriction_Rehydrate companyID courseID restrictions =
     (if companyID = '''' then Inl Restriction_ErrCompanyIDRequired
      else if courseID = '''' then Inl Restriction_ErrCourseIDRequired
      else case rehydrate_rows companyID courseID [] [] restrictions of
             Inl err \<Rightarrow> Inl err
           | Inr rows \<Rightarrow> Inr \<lparr>st_companyID = companyID, st_courseID = courseID,
                                st_restrictions = rows\<rparr>)"

text \<open>\<^verbatim>\<open>EffectiveStatus\<close>: \<open>paused\<close> is the flag its loop carries.\<close>

fun effective_status :: "bool \<Rightarrow> restriction list \<Rightarrow> DistributionStatus" where
  "effective_status paused [] = (if paused then DistributionPaused else DistributionActive)"
| "effective_status paused (v # rest) =
     (if \<not> Restriction_Active v then effective_status paused rest
      else if rs_Kind v = KindBlock then DistributionBlocked
      else effective_status (if rs_Kind v = KindPause then True else paused) rest)"

definition EffectiveStatus :: "restriction_set option \<Rightarrow> DistributionStatus" where
  "EffectiveStatus p =
     (case p of None \<Rightarrow> DistributionActive | Some s \<Rightarrow> effective_status False (st_restrictions s))"

definition apply_conflict :: "restriction \<Rightarrow> restriction \<Rightarrow> restriction_error option" where
  "apply_conflict value existing =
     (if rs_ID existing = rs_ID value then Some ErrRestrictionIDRequired
      else if Restriction_Active existing \<and> rs_Kind existing = rs_Kind value
        then Some ErrDuplicateActiveKind
      else None)"

definition new_restriction :: "restriction_set \<Rightarrow> ApplyParams \<Rightarrow> restriction" where
  "new_restriction s params =
     \<lparr>rs_ID = ap_ID params, rs_CompanyID = st_companyID s, rs_CourseID = st_courseID s,
      rs_Kind = ap_Kind params, rs_Reason = ap_Reason params,
      rs_AppliedByID = ap_AppliedByID params, rs_AppliedAt = UTC (ap_AppliedAt params),
      rs_ResolvedByID = None, rs_ResolvedAt = None\<rparr>"

definition Restriction_Apply ::
  "restriction_set \<Rightarrow> ApplyParams \<Rightarrow> restriction_set \<times> (restriction_error + DistributionStatus)"
where
  "Restriction_Apply s params =
     (let value = new_restriction s params
      in case Restriction_Validate value of
           Some err \<Rightarrow> (s, Inl err)
         | None \<Rightarrow>
            (case first_error (apply_conflict value) (st_restrictions s) of
               Some err \<Rightarrow> (s, Inl err)
             | None \<Rightarrow>
                let s' = s\<lparr>st_restrictions := st_restrictions s @ [value]\<rparr>
                in (s', Inr (EffectiveStatus (Some s')))))"

text \<open>The loop of \<^verbatim>\<open>Resolve\<close>: the rows with the first row of the id resolved.\<close>

fun resolve_rows ::
  "ID \<Rightarrow> ID \<Rightarrow> time \<Rightarrow> restriction list \<Rightarrow> restriction_error + restriction list" where
  "resolve_rows x actorID at [] = Inl ErrRestrictionNotFound"
| "resolve_rows x actorID at (v # rest) =
     (if rs_ID v \<noteq> x then
        (case resolve_rows x actorID at rest of Inl err \<Rightarrow> Inl err | Inr rows \<Rightarrow> Inr (v # rows))
      else if \<not> Restriction_Active v then Inl ErrRestrictionResolved
      else if Before (UTC at) (rs_AppliedAt v) then Inl ErrResolvedBeforeApplied
      else Inr (v\<lparr>rs_ResolvedByID := Some actorID, rs_ResolvedAt := Some (UTC at)\<rparr> # rest))"

definition Restriction_Resolve ::
  "restriction_set \<Rightarrow> ID \<Rightarrow> ID \<Rightarrow> time \<Rightarrow> restriction_set \<times> (restriction_error + DistributionStatus)"
where
  "Restriction_Resolve s x actorID at =
     (if actorID = '''' then (s, Inl ErrResolveActorRequired)
      else if IsZero at then (s, Inl ErrResolvedAtRequired)
      else case resolve_rows x actorID at (st_restrictions s) of
             Inl err \<Rightarrow> (s, Inl err)
           | Inr rows \<Rightarrow>
               let s' = s\<lparr>st_restrictions := rows\<rparr> in (s', Inr (EffectiveStatus (Some s'))))"

definition Restriction_Snapshot :: "restriction_set option \<Rightarrow> restriction list" where
  "Restriction_Snapshot p =
     (case p of None \<Rightarrow> [] | Some s \<Rightarrow> map cloneRestriction (st_restrictions s))"

definition Restriction_Apply_ptr ::
  "restriction_set option \<Rightarrow> ApplyParams \<Rightarrow>
     restriction_set option \<times> (restriction_error + DistributionStatus)" where
  "Restriction_Apply_ptr p params =
     (case p of None \<Rightarrow> (None, Inl ErrRestrictionScope)
      | Some s \<Rightarrow> map_prod Some id (Restriction_Apply s params))"

definition Restriction_Resolve_ptr ::
  "restriction_set option \<Rightarrow> ID \<Rightarrow> ID \<Rightarrow> time \<Rightarrow>
     restriction_set option \<times> (restriction_error + DistributionStatus)" where
  "Restriction_Resolve_ptr p x actorID at =
     (case p of None \<Rightarrow> (None, Inl ErrRestrictionScope)
      | Some s \<Rightarrow> map_prod Some id (Restriction_Resolve s x actorID at))"

subsection \<open>What a stored history satisfies\<close>

lemma cloneRestriction_id [simp]: "cloneRestriction v = v"
  by (simp add: cloneRestriction_def clone_option_def split: option.splits)

abbreviation active_kinds :: "restriction list \<Rightarrow> Kind list" where
  "active_kinds rows \<equiv> map rs_Kind (filter Restriction_Active rows)"

lemma rehydrate_rows_iff:
  "rehydrate_rows company crs active ids rows = Inr rows' \<longleftrightarrow>
     rows' = rows \<and>
     (\<forall>v\<in>set rows. Restriction_Validate v = None \<and> rs_CompanyID v = company \<and> rs_CourseID v = crs) \<and>
     distinct (map rs_ID rows) \<and> set (map rs_ID rows) \<inter> set ids = {} \<and>
     distinct (active_kinds rows) \<and> set (active_kinds rows) \<inter> set active = {}"
proof (induction rows arbitrary: active ids rows')
  case Nil
  then show ?case by auto
next
  case (Cons v rows)
  have "rehydrate_rows company crs active ids (v # rows) = Inr rows' \<longleftrightarrow>
    Restriction_Validate v = None \<and> rs_CompanyID v = company \<and> rs_CourseID v = crs \<and>
    rs_ID v \<notin> set ids \<and> (Restriction_Active v \<longrightarrow> rs_Kind v \<notin> set active) \<and>
    (\<exists>rs. rehydrate_rows company crs (if Restriction_Active v then rs_Kind v # active else active)
       (rs_ID v # ids) rows = Inr rs \<and> rows' = v # rs)"
    by (auto split: option.splits sum.splits)
  then show ?case unfolding Cons.IH by auto
qed

definition set_valid :: "restriction_set \<Rightarrow> bool" where
  "set_valid s \<longleftrightarrow>
     st_companyID s \<noteq> '''' \<and> st_courseID s \<noteq> '''' \<and>
     (\<forall>v\<in>set (st_restrictions s). Restriction_Validate v = None \<and>
        rs_CompanyID v = st_companyID s \<and> rs_CourseID v = st_courseID s) \<and>
     distinct (map rs_ID (st_restrictions s)) \<and> distinct (active_kinds (st_restrictions s))"

lemma Restriction_Rehydrate_iff:
  "Restriction_Rehydrate company crs rows = Inr s \<longleftrightarrow>
     s = \<lparr>st_companyID = company, st_courseID = crs, st_restrictions = rows\<rparr> \<and> set_valid s"
proof -
  let ?s = "\<lparr>st_companyID = company, st_courseID = crs, st_restrictions = rows\<rparr>"
  have valid: "set_valid ?s \<longleftrightarrow>
      company \<noteq> '''' \<and> crs \<noteq> '''' \<and> rehydrate_rows company crs [] [] rows = Inr rows"
    unfolding set_valid_def rehydrate_rows_iff by simp
  have same: "r = rows" if "rehydrate_rows company crs [] [] rows = Inr r" for r
    using that unfolding rehydrate_rows_iff by blast
  show ?thesis
  proof (cases "rehydrate_rows company crs [] [] rows")
    case (Inl err)
    with valid show ?thesis by (auto simp: Restriction_Rehydrate_def)
  next
    case (Inr r)
    with valid same[OF Inr] show ?thesis by (auto simp: Restriction_Rehydrate_def)
  qed
qed

subsection \<open>Commands on a history\<close>

datatype restriction_cmd = Cmd_Apply ApplyParams | Cmd_Resolve ID ID time

fun exec_restriction :: "restriction_cmd \<Rightarrow> restriction_set \<Rightarrow> restriction_set" where
  "exec_restriction (Cmd_Apply p) s = fst (Restriction_Apply s p)"
| "exec_restriction (Cmd_Resolve x actor at) s = fst (Restriction_Resolve s x actor at)"

lemma Apply_cases:
  obtains err where "Restriction_Apply s p = (s, Inl err)"
  | "Restriction_Validate (new_restriction s p) = None"
    "\<forall>v\<in>set (st_restrictions s). rs_ID v \<noteq> ap_ID p \<and> (Restriction_Active v \<longrightarrow> rs_Kind v \<noteq> ap_Kind p)"
    "Restriction_Apply s p =
       (s\<lparr>st_restrictions := st_restrictions s @ [new_restriction s p]\<rparr>,
        Inr (effective_status False (st_restrictions s @ [new_restriction s p])))"
proof (cases "Restriction_Validate (new_restriction s p) = None \<and>
    first_error (apply_conflict (new_restriction s p)) (st_restrictions s) = None")
  case True
  then have "\<forall>v\<in>set (st_restrictions s). rs_ID v \<noteq> ap_ID p \<and> (Restriction_Active v \<longrightarrow> rs_Kind v \<noteq> ap_Kind p)"
    by (auto simp: apply_conflict_def new_restriction_def split: if_splits)
  with True show thesis
    by (intro that(2)) (simp_all add: Restriction_Apply_def EffectiveStatus_def Let_def del: first_error_None)
next
  case False
  then obtain err where "Restriction_Apply s p = (s, Inl err)"
    by (cases "Restriction_Validate (new_restriction s p)";
        cases "first_error (apply_conflict (new_restriction s p)) (st_restrictions s)")
      (simp_all add: Restriction_Apply_def Let_def del: first_error_None)
  then show thesis by (rule that(1))
qed

lemma resolve_rows_Inr:
  assumes "resolve_rows x actor at rows = Inr rows'"
  obtains n where "n < length rows" "rs_ID (rows ! n) = x" "Restriction_Active (rows ! n)"
    "rs_AppliedAt (rows ! n) \<le> at"
    "rows' = rows[n := (rows ! n)\<lparr>rs_ResolvedByID := Some actor, rs_ResolvedAt := Some at\<rparr>]"
  using assms
proof (induction rows arbitrary: rows' thesis)
  case (Cons v rows)
  show ?case
  proof (cases "rs_ID v = x")
    case True
    with Cons.prems show ?thesis by (intro Cons.prems(1)[of 0]) (auto split: if_splits)
  next
    case False
    with Cons.prems(2) obtain rs where rs: "resolve_rows x actor at rows = Inr rs" "rows' = v # rs"
      by (auto split: sum.splits)
    from Cons.IH[OF _ rs(1)] obtain n where "n < length rows" "rs_ID (rows ! n) = x"
      "Restriction_Active (rows ! n)" "rs_AppliedAt (rows ! n) \<le> at"
      "rs = rows[n := (rows ! n)\<lparr>rs_ResolvedByID := Some actor, rs_ResolvedAt := Some at\<rparr>]" by blast
    with rs(2) show ?thesis by (intro Cons.prems(1)[of "Suc n"]) simp_all
  qed
qed simp

text \<open>Resolving removes one active restriction and changes nothing else that is active.\<close>

lemma resolved_active:
  assumes "n < length rows" "rs_ResolvedAt v \<noteq> None"
  shows "filter Restriction_Active (rows[n := v]) =
    filter Restriction_Active (take n rows @ drop (Suc n) rows)"
  using assms by (simp add: upd_conv_take_nth_drop Restriction_Active_def)

lemma distinct_remove_one:
  assumes "distinct (map f (filter P rows))" "n < length rows"
  shows "distinct (map f (filter P (take n rows @ drop (Suc n) rows)))"
proof -
  have "distinct (map f (filter P (take n rows @ rows ! n # drop (Suc n) rows)))"
    using assms by (simp only: id_take_nth_drop[symmetric])
  then show ?thesis by (auto split: if_splits)
qed

lemma resolved_valid:
  assumes "Restriction_Validate v = None" "Restriction_Active v" "actor \<noteq> ''''" "at \<noteq> 0"
    "rs_AppliedAt v \<le> at"
  shows "Restriction_Validate (v\<lparr>rs_ResolvedByID := Some actor, rs_ResolvedAt := Some at\<rparr>) = None"
  using assms by (auto simp: Restriction_Validate_def Restriction_Active_def split: if_splits)

lemma Resolve_cases:
  obtains err where "Restriction_Resolve s x actor at = (s, Inl err)"
  | n where "n < length (st_restrictions s)" "rs_ID (st_restrictions s ! n) = x"
    "Restriction_Active (st_restrictions s ! n)" "rs_AppliedAt (st_restrictions s ! n) \<le> at"
    "actor \<noteq> ''''" "at \<noteq> 0"
    "Restriction_Resolve s x actor at =
       (s\<lparr>st_restrictions := (st_restrictions s)[n := (st_restrictions s ! n)
            \<lparr>rs_ResolvedByID := Some actor, rs_ResolvedAt := Some at\<rparr>]\<rparr>,
        Inr (effective_status False ((st_restrictions s)[n := (st_restrictions s ! n)
            \<lparr>rs_ResolvedByID := Some actor, rs_ResolvedAt := Some at\<rparr>])))"
proof (cases "\<exists>err. Restriction_Resolve s x actor at = (s, Inl err)")
  case True
  with that(1) show thesis by blast
next
  case False
  then obtain rows where args: "actor \<noteq> ''''" "at \<noteq> 0"
    and rows: "resolve_rows x actor at (st_restrictions s) = Inr rows"
    by (cases "resolve_rows x actor at (st_restrictions s)")
      (auto simp: Restriction_Resolve_def split: if_splits)
  then have eq: "Restriction_Resolve s x actor at =
      (s\<lparr>st_restrictions := rows\<rparr>, Inr (effective_status False rows))"
    by (simp add: Restriction_Resolve_def Let_def EffectiveStatus_def)
  from rows show thesis by (rule resolve_rows_Inr) (use args eq that(2) in blast)
qed

lemma exec_restriction_valid:
  assumes "set_valid s"
  shows "set_valid (exec_restriction c s)"
proof (cases c)
  case (Cmd_Apply p)
  show ?thesis
  proof (cases rule: Apply_cases[of s p])
    case (1 err)
    with assms Cmd_Apply show ?thesis by simp
  next
    case 2
    have "Restriction_Active (new_restriction s p)" "rs_ID (new_restriction s p) = ap_ID p"
      "rs_Kind (new_restriction s p) = ap_Kind p" "rs_CompanyID (new_restriction s p) = st_companyID s"
      "rs_CourseID (new_restriction s p) = st_courseID s"
      by (simp_all add: new_restriction_def Restriction_Active_def)
    with 2 assms Cmd_Apply show ?thesis by (auto simp: set_valid_def)
  qed
next
  case (Cmd_Resolve x actor at)
  let ?rs = "st_restrictions s"
  show ?thesis
  proof (cases rule: Resolve_cases[of s x actor at])
    case (1 err)
    with assms Cmd_Resolve show ?thesis by simp
  next
    case (2 n)
    let ?v = "(?rs ! n)\<lparr>rs_ResolvedByID := Some actor, rs_ResolvedAt := Some at\<rparr>"
    have "?rs ! n \<in> set ?rs" using 2(1) by simp
    then have v: "Restriction_Validate ?v = None" "rs_CompanyID ?v = st_companyID s"
      "rs_CourseID ?v = st_courseID s"
      using assms resolved_valid[OF _ 2(3,5,6,4)] by (auto simp: set_valid_def)
    have ids: "map rs_ID (?rs[n := ?v]) = map rs_ID ?rs"
      using 2(1) by (simp add: map_update list_update_same_conv)
    have "distinct (active_kinds (?rs[n := ?v]))"
      using 2(1) assms by (simp add: resolved_active distinct_remove_one set_valid_def del: filter_append)
    moreover have "\<forall>w\<in>set (?rs[n := ?v]). Restriction_Validate w = None \<and>
        rs_CompanyID w = st_companyID s \<and> rs_CourseID w = st_courseID s"
      using v assms set_update_subset_insert[of ?rs n ?v] unfolding set_valid_def by blast
    ultimately show ?thesis using assms ids by (simp add: set_valid_def Cmd_Resolve 2(7))
  qed
qed

text \<open>The audit history: rows are only appended, and an existing row only gains a resolution.\<close>

definition audit :: "restriction \<Rightarrow> restriction" where
  "audit v = v\<lparr>rs_ResolvedByID := None, rs_ResolvedAt := None\<rparr>"

definition history_below :: "restriction_set \<Rightarrow> restriction_set \<Rightarrow> bool" where
  "history_below s t \<longleftrightarrow>
     prefix (map audit (st_restrictions s)) (map audit (st_restrictions t)) \<and>
     (\<forall>n < length (st_restrictions s). \<not> Restriction_Active (st_restrictions s ! n) \<longrightarrow>
        st_restrictions t ! n = st_restrictions s ! n)"

lemma exec_history: "history_below s (exec_restriction c s)"
proof (cases c)
  case (Cmd_Apply p)
  then show ?thesis
    by (cases rule: Apply_cases[of s p]) (simp_all add: history_below_def nth_append)
next
  case (Cmd_Resolve x actor at)
  show ?thesis
  proof (cases rule: Resolve_cases[of s x actor at])
    case (1 err)
    with Cmd_Resolve show ?thesis by (simp add: history_below_def)
  next
    case (2 n)
    have "map audit ((st_restrictions s)[n := (st_restrictions s ! n)
        \<lparr>rs_ResolvedByID := Some actor, rs_ResolvedAt := Some at\<rparr>]) = map audit (st_restrictions s)"
      using 2(1) by (simp add: map_update list_update_same_conv audit_def)
    with 2 Cmd_Resolve show ?thesis by (auto simp: history_below_def nth_list_update)
  qed
qed

lemma history_below_trans: "history_below s t \<Longrightarrow> history_below t u \<Longrightarrow> history_below s u"
  unfolding history_below_def
  by (metis (no_types, lifting) length_map order_less_le_trans prefix_length_le prefix_order.trans)

interpretation res_agg: aggregate set_valid exec_restriction
  by unfold_locales (rule exec_restriction_valid)

interpretation res_grow: growing_aggregate set_valid exec_restriction history_below
  by unfold_locales (simp add: history_below_def, blast intro: history_below_trans, rule exec_history)

interpretation res_pin: pinned_aggregate set_valid exec_restriction
  "\<lambda>s. (st_companyID s, st_courseID s)"
proof unfold_locales
  fix s c
  show "(st_companyID (exec_restriction c s), st_courseID (exec_restriction c s)) =
      (st_companyID s, st_courseID s)"
  proof (cases c)
    case (Cmd_Apply p)
    then show ?thesis by (cases rule: Apply_cases[of s p]) simp_all
  next
    case (Cmd_Resolve x actor at)
    then show ?thesis by (cases rule: Resolve_cases[of s x actor at]) simp_all
  qed
qed

subsection \<open>Properties\<close>

definition example_set :: restriction_set where
  "example_set = \<lparr>st_companyID = ''c1'', st_courseID = ''k1'', st_restrictions = []\<rparr>"

definition example_pause :: ApplyParams where
  "example_pause = \<lparr>ap_ID = ''r1'', ap_Kind = KindPause, ap_Reason = ''review'',
     ap_AppliedByID = ''u1'', ap_AppliedAt = 10\<rparr>"

definition example_block :: ApplyParams where
  "example_block = \<lparr>ap_ID = ''r2'', ap_Kind = KindBlock, ap_Reason = ''complaint'',
     ap_AppliedByID = ''u1'', ap_AppliedAt = 20\<rparr>"

text \<open>(C7) A restriction history that was loaded stays one that can be loaded: after any commands its
  snapshot is accepted by \<^verbatim>\<open>Rehydrate\<close> and gives the same set, for the same course and company; no row
  is ever removed or rewritten except that an active row may gain its resolution.\<close>

theorem restriction_history_kept:
  assumes "Restriction_Rehydrate company crs rows = Inr s" "fold exec_restriction cs s = s'"
  shows "Restriction_Rehydrate company crs (Restriction_Snapshot (Some s')) = Inr s' \<and>
    prefix (map audit rows) (map audit (Restriction_Snapshot (Some s'))) \<and>
    (\<forall>n < length rows. \<not> Restriction_Active (rows ! n) \<longrightarrow> Restriction_Snapshot (Some s') ! n = rows ! n)"
proof -
  from assms(1) have s: "s = \<lparr>st_companyID = company, st_courseID = crs, st_restrictions = rows\<rparr>"
    and valid: "set_valid s" by (auto simp: Restriction_Rehydrate_iff)
  have "set_valid s'" "history_below s s'"
    "(st_companyID s', st_courseID s') = (st_companyID s, st_courseID s)"
    using res_agg.run_valid[OF valid, of cs] res_grow.run_below[OF valid, of cs]
      res_pin.run_pin[OF valid, of cs] assms(2) by simp_all
  moreover have "map cloneRestriction xs = xs" for xs by (induction xs) simp_all
  ultimately show ?thesis
    by (auto simp: Restriction_Rehydrate_iff Restriction_Snapshot_def history_below_def s)
qed

theorem restriction_history_kept_witness:
  "Restriction_Rehydrate ''c1'' ''k1'' (Restriction_Snapshot (Some (fold exec_restriction
     [Cmd_Apply example_pause, Cmd_Apply example_block, Cmd_Resolve ''r2'' ''u2'' 30] example_set))) =
   Inr (fold exec_restriction
     [Cmd_Apply example_pause, Cmd_Apply example_block, Cmd_Resolve ''r2'' ''u2'' 30] example_set)"
proof -
  have "Restriction_Rehydrate ''c1'' ''k1'' [] = Inr example_set"
    by (simp add: Restriction_Rehydrate_def example_set_def)
  from restriction_history_kept[OF this refl] show ?thesis by blast
qed

lemma effective_status_eq:
  "effective_status paused rows =
     (if KindBlock \<in> set (active_kinds rows) then DistributionBlocked
      else if paused \<or> KindPause \<in> set (active_kinds rows) then DistributionPaused
      else DistributionActive)"
  by (induction rows arbitrary: paused) auto

text \<open>A block outranks a pause, and lifting a restriction never lifts another one: whatever is in
  force, applying a restriction and resolving it again brings the distribution status back to
  what it was; while a block is in force the course is blocked, and a pause leaves a blocked
  course blocked.\<close>

theorem resolving_reveals_previous_status:
  assumes "set_valid s" "Restriction_Apply s p = (s1, Inr d1)"
    "Restriction_Resolve s1 (ap_ID p) actor at = (s2, Inr d2)"
  shows "d2 = EffectiveStatus (Some s) \<and>
    d1 = (if ap_Kind p = KindBlock \<or> EffectiveStatus (Some s) = DistributionBlocked
          then DistributionBlocked else DistributionPaused)"
proof -
  from assms(2) have ids: "\<forall>v\<in>set (st_restrictions s). rs_ID v \<noteq> ap_ID p"
    and valid: "Restriction_Validate (new_restriction s p) = None"
    and s1: "s1 = s\<lparr>st_restrictions := st_restrictions s @ [new_restriction s p]\<rparr>"
      "d1 = effective_status False (st_restrictions s @ [new_restriction s p])"
    by (cases rule: Apply_cases[of s p]; auto)+
  have new: "Restriction_Active (new_restriction s p)" "rs_Kind (new_restriction s p) = ap_Kind p"
    "rs_ID (new_restriction s p) = ap_ID p"
    by (simp_all add: new_restriction_def Restriction_Active_def)
  have kind: "ap_Kind p = KindPause \<or> ap_Kind p = KindBlock"
    using valid new(2) by (auto simp: Restriction_Validate_def split: if_splits)
  let ?n = "length (st_restrictions s)"
  from assms(3) obtain n where n: "n < length (st_restrictions s1)" "rs_ID (st_restrictions s1 ! n) = ap_ID p"
    "d2 = effective_status False ((st_restrictions s1)[n := (st_restrictions s1 ! n)
       \<lparr>rs_ResolvedByID := Some actor, rs_ResolvedAt := Some at\<rparr>])"
    by (cases rule: Resolve_cases[of s1 "ap_ID p" actor at]) auto
  have "n = ?n"
  proof (rule ccontr)
    assume "n \<noteq> ?n"
    with n(1) s1 have "n < ?n" by simp
    with n(2) s1 ids show False by (auto simp: nth_append)
  qed
  with n(3) s1 have "d2 = EffectiveStatus (Some s)"
    by (simp add: EffectiveStatus_def effective_status_eq Restriction_Active_def)
  moreover have "d1 = (if ap_Kind p = KindBlock \<or> EffectiveStatus (Some s) = DistributionBlocked
      then DistributionBlocked else DistributionPaused)"
    using s1(2) new kind by (auto simp: EffectiveStatus_def effective_status_eq)
  ultimately show ?thesis by blast
qed

theorem resolving_reveals_previous_status_witness:
  "let s = fst (Restriction_Apply example_set example_pause);
       s1 = fst (Restriction_Apply s example_block)
   in snd (Restriction_Resolve s1 ''r2'' ''u2'' 30) = Inr DistributionPaused \<and>
      snd (Restriction_Apply s example_block) = Inr DistributionBlocked"
proof -
  define s where "s = fst (Restriction_Apply example_set example_pause)"
  define s1 where "s1 = fst (Restriction_Apply s example_block)"
  have "set_valid s" unfolding s_def
    using exec_restriction_valid[of example_set "Cmd_Apply example_pause"]
    by (simp add: set_valid_def example_set_def)
  moreover have "\<not> isl (snd (Restriction_Apply s example_block))"
    "\<not> isl (snd (Restriction_Resolve s1 ''r2'' ''u2'' 30))"
    unfolding s1_def s_def by code_simp+
  then obtain d1 s2 d2 where "Restriction_Apply s example_block = (s1, Inr d1)"
    "Restriction_Resolve s1 ''r2'' ''u2'' 30 = (s2, Inr d2)"
    unfolding s1_def by (metis prod.collapse sum.collapse(2))
  moreover have "ap_ID example_block = ''r2''" "ap_Kind example_block = KindBlock"
    by (simp_all add: example_block_def)
  moreover have "EffectiveStatus (Some s) = DistributionPaused" unfolding s_def by code_simp
  ultimately show ?thesis
    using resolving_reveals_previous_status[of s example_block s1 d1 "''u2''" 30 s2 d2]
    by (simp add: Let_def s_def[symmetric] s1_def[symmetric])
qed

end
