(* ===== verification/Course_Version.thy ===== *)
theory Course_Version
  imports Course
begin

section \<open>Course versions: drafts, publication and immutability\<close>

text \<open>
  The package \<^verbatim>\<open>services/academy/internal/domain/courseversion\<close>: one version of a course and its
  life (\<^verbatim>\<open>version.go\<close>), what a definition must satisfy to be published (\<^verbatim>\<open>publication.go\<close>), the
  numbering of the versions of a course (\<^verbatim>\<open>sequence.go\<close>) and what a learner is shown of a quiz
  (\<^verbatim>\<open>learner.go\<close>).

  The TipTap validator and the file check are function values passed in by the caller, so they are
  arguments here too (\<open>None\<close> is a nil function). The content hash is \<^verbatim>\<open>hex(sha256(json))\<close>; the JSON
  encoder and SHA-256 are arguments \<open>marshal\<close> and \<open>sum256\<close>, of which only the documented length
  of a SHA-256 sum is used. The iteration order of a Go map is an argument \<open>iter\<close>.
\<close>

datatype version_status = StatusDraft | StatusPublished | StatusRetired | StatusOther string

datatype QuestionType = QuestionSingle | QuestionMultiple | QuestionOpen | QuestionTypeOther string

datatype publication_error = ErrCourseTitleRequired | ErrDefaultDeadlineInvalid | ErrSectionRequired
  | ErrSectionIDRequired | ErrSectionTitleRequired | ErrDuplicateSectionID | ErrSectionOrderInvalid
  | ErrLessonRequired | ErrSectionHasNoLessons | Publication_ErrLessonIDRequired
  | ErrLessonTitleRequired | ErrLessonStableKeyRequired | Publication_ErrDuplicateLessonID
  | ErrDuplicateLessonStableKey | ErrLessonSectionMissing | ErrLessonOrderInvalid
  | ErrRichTextValidatorRequired | ErrInvalidLessonContent string
  | ErrFileAvailabilityCheckerRequired | ErrFileUnavailable | Publication_ErrQuizIDRequired
  | Publication_ErrDuplicateQuizID | ErrQuizQuestionsRequired | Publication_ErrPassingScoreInvalid
  | Publication_ErrMaxAttemptsInvalid | ErrQuestionIDRequired | ErrQuestionTextRequired
  | ErrUnknownQuestionType | ErrDuplicateQuestionID | ErrClosedQuestionOptionsRequired
  | ErrClosedQuestionWithoutCorrect | ErrSingleQuestionCorrectAnswerCount
  | ErrOpenQuestionOptionsForbidden | ErrOptionIDRequired | ErrOptionTextRequired
  | ErrDuplicateOptionID
  | InCover publication_error | InSection ID publication_error | InLesson ID publication_error
  | InQuestion ID publication_error

datatype version_error = ErrVersionIDRequired | Version_ErrCompanyRequired
  | Version_ErrCourseRequired | ErrCreatorRequired | Version_ErrCreatedAtRequired
  | ErrVersionNumberInvalid | ErrUnknownStatus | ErrPublishedMetadataRequired
  | ErrDraftPublishedMetadata | ErrPublishedVersionImmutable | ErrRetiredVersionImmutable
  | ErrOnlyPublishedCanBeRetired | ErrPublisherRequired | ErrPublishedAtRequired
  | ErrDraftOwnerMismatch
  | ErrDuplicateVersionNumber | ErrVersionNumberGap | ErrMultipleDrafts | ErrDraftAlreadyExists
  | ErrDraftMustBeLatest | ErrVersionNumberConflict
  | ErrCourseMismatch | ErrCourseBlocked | CourseErr course_error
  | PublicationErr publication_error

record AnswerOption =
  op_ID :: ID
  op_Text :: string
  op_Correct :: bool

record Question =
  qn_ID :: ID
  qn_Type :: QuestionType
  qn_Text :: string
  qn_Options :: "AnswerOption list"

record Quiz =
  qz_ID :: ID
  qz_Questions :: "Question list"
  qz_PassingScore :: int
  qz_MaxAttempts :: "int option"

record Section =
  sec_ID :: ID
  sec_StableKey :: string
  sec_Title :: string
  sec_Order :: int

record Lesson =
  les_ID :: ID
  les_SectionID :: ID
  les_StableKey :: string
  les_Title :: string
  les_Order :: int
  les_Content :: bytes
  les_SourceType :: string
  les_SourceArticleID :: "ID option"
  les_SourceArticleVersion :: "int option"
  les_SourceTemplateID :: "ID option"
  les_SourceTemplateVersionID :: "ID option"
  les_EstimatedMinutes :: "int option"
  les_FileIDs :: "ID list"
  les_Quiz :: "Quiz option"

record Definition =
  df_Title :: string
  df_Description :: "string option"
  df_CoverFileID :: "ID option"
  df_CoverURL :: "string option"
  df_Sequential :: bool
  df_DefaultInternalDeadlineDays :: "int option"
  df_Sections :: "Section list"
  df_Lessons :: "Lesson list"

record course_version =
  vn_ID :: ID
  vn_CompanyID :: ID
  vn_CourseID :: ID
  vn_Number :: int
  vn_Status :: version_status
  vn_Definition :: Definition
  vn_CreatedByID :: ID
  vn_CreatedAt :: time
  vn_PublishedByID :: "ID option"
  vn_PublishedAt :: "time option"
  vn_ContentHash :: string

record NewDraftParams =
  nd_ID :: ID
  nd_CompanyID :: ID
  nd_CourseID :: ID
  nd_Number :: int
  nd_Definition :: Definition
  nd_CreatedByID :: ID
  nd_CreatedAt :: time

record PublishParams =
  pb_ActorID :: ID
  pb_At :: time

record PublicationValidators =
  pv_RichText :: "(bytes \<Rightarrow> string option) option"
  pv_FileAvailable :: "(ID \<Rightarrow> bool) option"

subsection \<open>Publication checks\<close>

definition validateFile :: "ID \<Rightarrow> (ID \<Rightarrow> bool) option \<Rightarrow> publication_error option" where
  "validateFile fileID checker =
     (if fileID = '''' then Some ErrFileUnavailable
      else case checker of
             None \<Rightarrow> Some ErrFileAvailabilityCheckerRequired
           | Some available \<Rightarrow> if \<not> available fileID then Some ErrFileUnavailable else None)"

text \<open>The loop of \<^verbatim>\<open>validateOptions\<close>: the ids seen and the correct options counted.\<close>

fun validate_options ::
  "ID list \<Rightarrow> int \<Rightarrow> AnswerOption list \<Rightarrow> publication_error + int" where
  "validate_options optionIDs correct [] = Inr correct"
| "validate_options optionIDs correct (option # rest) =
     (if op_ID option = '''' then Inl ErrOptionIDRequired
      else if op_ID option \<in> set optionIDs then Inl ErrDuplicateOptionID
      else if TrimSpace (op_Text option) = '''' then Inl ErrOptionTextRequired
      else validate_options (op_ID option # optionIDs)
             (if op_Correct option then correct + 1 else correct) rest)"

definition validateOptions :: "Question \<Rightarrow> publication_error + int" where
  "validateOptions question = validate_options [] 0 (qn_Options question)"

text \<open>The switch over the type of a question.\<close>

definition validate_answers :: "Question \<Rightarrow> publication_error option" where
  "validate_answers question =
     (case qn_Type question of
        QuestionOpen \<Rightarrow>
          if qn_Options question \<noteq> [] then Some ErrOpenQuestionOptionsForbidden else None
      | QuestionTypeOther _ \<Rightarrow> Some ErrUnknownQuestionType
      | _ \<Rightarrow>
          if length (qn_Options question) < 2 then Some ErrClosedQuestionOptionsRequired
          else case validateOptions question of
                 Inl err \<Rightarrow> Some err
               | Inr correct \<Rightarrow>
                   if correct = 0 then Some ErrClosedQuestionWithoutCorrect
                   else if qn_Type question = QuestionSingle \<and> correct \<noteq> 1
                     then Some ErrSingleQuestionCorrectAnswerCount
                   else None)"

fun validate_questions :: "ID list \<Rightarrow> Question list \<Rightarrow> publication_error option" where
  "validate_questions questionIDs [] = None"
| "validate_questions questionIDs (question # rest) =
     (if qn_ID question = '''' then Some ErrQuestionIDRequired
      else if qn_ID question \<in> set questionIDs
        then Some (InQuestion (qn_ID question) ErrDuplicateQuestionID)
      else if TrimSpace (qn_Text question) = ''''
        then Some (InQuestion (qn_ID question) ErrQuestionTextRequired)
      else and_then (map_option (InQuestion (qn_ID question)) (validate_answers question))
             (validate_questions (qn_ID question # questionIDs) rest))"

definition ValidateQuiz :: "Quiz \<Rightarrow> publication_error option" where
  "ValidateQuiz quiz =
     (if qz_ID quiz = '''' then Some Publication_ErrQuizIDRequired
      else if qz_Questions quiz = [] then Some ErrQuizQuestionsRequired
      else if qz_PassingScore quiz < 0 \<or> qz_PassingScore quiz > 100
        then Some Publication_ErrPassingScoreInvalid
      else if (case qz_MaxAttempts quiz of None \<Rightarrow> False | Some m \<Rightarrow> m < 1)
        then Some Publication_ErrMaxAttemptsInvalid
      else validate_questions [] (qz_Questions quiz))"

text \<open>The loop over the sections: the ids and the orders seen, \<open>n\<close> the number of sections.\<close>

fun validate_sections :: "int \<Rightarrow> ID list \<Rightarrow> int list \<Rightarrow> Section list \<Rightarrow> publication_error option" where
  "validate_sections n sections orders [] = None"
| "validate_sections n sections orders (section # rest) =
     (if sec_ID section = '''' then Some ErrSectionIDRequired
      else if TrimSpace (sec_Title section) = ''''
        then Some (InSection (sec_ID section) ErrSectionTitleRequired)
      else if sec_ID section \<in> set sections
        then Some (InSection (sec_ID section) ErrDuplicateSectionID)
      else if sec_Order section < 0 \<or> sec_Order section \<ge> n \<or> sec_Order section \<in> set orders
        then Some ErrSectionOrderInvalid
      else validate_sections n (sec_ID section # sections) (sec_Order section # orders) rest)"

text \<open>The part of the lesson loop that looks at the quiz; the result is the quiz ids seen.\<close>

definition validate_lesson_quiz :: "ID list \<Rightarrow> Lesson \<Rightarrow> publication_error + ID list" where
  "validate_lesson_quiz quizIDs lesson =
     (case les_Quiz lesson of
        None \<Rightarrow> Inr quizIDs
      | Some quiz \<Rightarrow>
          if qz_ID quiz \<in> set quizIDs \<and> qz_ID quiz \<noteq> ''''
          then Inl Publication_ErrDuplicateQuizID
          else case ValidateQuiz quiz of
                 Some err \<Rightarrow> Inl err
               | None \<Rightarrow> Inr (qz_ID quiz # quizIDs))"

fun validate_lessons ::
  "PublicationValidators \<Rightarrow> ID list \<Rightarrow> ID list \<Rightarrow> string list \<Rightarrow> ID list \<Rightarrow> Lesson list \<Rightarrow>
     publication_error option" where
  "validate_lessons validators sections lessonIDs stableKeys quizIDs [] = None"
| "validate_lessons validators sections lessonIDs stableKeys quizIDs (lesson # rest) =
     (let fail = (\<lambda>err. Some (InLesson (les_ID lesson) err))
      in if les_ID lesson = '''' then Some Publication_ErrLessonIDRequired
         else if TrimSpace (les_Title lesson) = '''' then fail ErrLessonTitleRequired
         else if TrimSpace (les_StableKey lesson) = '''' then fail ErrLessonStableKeyRequired
         else if les_ID lesson \<in> set lessonIDs then fail Publication_ErrDuplicateLessonID
         else if les_StableKey lesson \<in> set stableKeys then fail ErrDuplicateLessonStableKey
         else if les_SectionID lesson \<notin> set sections then fail ErrLessonSectionMissing
         else case pv_RichText validators of
             None \<Rightarrow> Some ErrRichTextValidatorRequired
           | Some richText \<Rightarrow>
              (case richText (les_Content lesson) of
                 Some err \<Rightarrow> fail (ErrInvalidLessonContent err)
               | None \<Rightarrow>
                  (case first_error (\<lambda>fileID. validateFile fileID (pv_FileAvailable validators))
                          (les_FileIDs lesson) of
                     Some err \<Rightarrow> fail err
                   | None \<Rightarrow>
                      (case validate_lesson_quiz quizIDs lesson of
                         Inl err \<Rightarrow> fail err
                       | Inr quizIDs' \<Rightarrow>
                           validate_lessons validators sections (les_ID lesson # lessonIDs)
                             (les_StableKey lesson # stableKeys) quizIDs' rest))))"

fun orders_bad :: "int \<Rightarrow> int list \<Rightarrow> int list \<Rightarrow> bool" where
  "orders_bad n seen [] = False"
| "orders_bad n seen (ord # rest) =
     (ord < 0 \<or> ord \<ge> n \<or> ord \<in> set seen \<or> orders_bad n (ord # seen) rest)"

definition validate_section_lessons :: "Lesson list \<Rightarrow> ID \<Rightarrow> publication_error option" where
  "validate_section_lessons all sectionID =
     (let lessons = filter (\<lambda>lesson. les_SectionID lesson = sectionID) all
      in if lessons = [] then Some (InSection sectionID ErrSectionHasNoLessons)
         else if orders_bad (int (length lessons)) [] (map les_Order lessons)
           then Some (InSection sectionID ErrLessonOrderInvalid)
         else None)"

definition ValidateDefinitionForPublication ::
  "(ID list \<Rightarrow> ID list) \<Rightarrow> Definition \<Rightarrow> PublicationValidators \<Rightarrow> publication_error option" where
  "ValidateDefinitionForPublication iter d validators =
     (if TrimSpace (df_Title d) = '''' then Some ErrCourseTitleRequired
      else if (case df_DefaultInternalDeadlineDays d of None \<Rightarrow> False | Some days \<Rightarrow> days < 1)
        then Some ErrDefaultDeadlineInvalid
      else and_then
        (case df_CoverFileID d of
           None \<Rightarrow> None
         | Some cover \<Rightarrow> map_option InCover (validateFile cover (pv_FileAvailable validators)))
        (if df_Sections d = [] then Some ErrSectionRequired
         else if df_Lessons d = [] then Some ErrLessonRequired
         else and_then (validate_sections (int (length (df_Sections d))) [] [] (df_Sections d))
          (and_then (validate_lessons validators (map sec_ID (df_Sections d)) [] [] [] (df_Lessons d))
            (first_error (validate_section_lessons (df_Lessons d))
               (iter (map sec_ID (df_Sections d)))))))"

subsection \<open>Versions\<close>

definition clone_opt :: "'a option \<Rightarrow> 'a option" where
  "clone_opt value = (case value of None \<Rightarrow> None | Some copyValue \<Rightarrow> Some copyValue)"

definition cloneQuiz :: "Quiz \<Rightarrow> Quiz" where
  "cloneQuiz quiz =
     quiz\<lparr>qz_MaxAttempts := clone_opt (qz_MaxAttempts quiz),
          qz_Questions := map (\<lambda>q. q\<lparr>qn_Options := [] @ qn_Options q\<rparr>) (qz_Questions quiz)\<rparr>"

definition cloneLesson :: "Lesson \<Rightarrow> Lesson" where
  "cloneLesson lesson =
     lesson\<lparr>les_Content := [] @ les_Content lesson,
       les_SourceArticleID := clone_opt (les_SourceArticleID lesson),
       les_SourceArticleVersion := clone_opt (les_SourceArticleVersion lesson),
       les_SourceTemplateID := clone_opt (les_SourceTemplateID lesson),
       les_SourceTemplateVersionID := clone_opt (les_SourceTemplateVersionID lesson),
       les_EstimatedMinutes := clone_opt (les_EstimatedMinutes lesson),
       les_FileIDs := [] @ les_FileIDs lesson,
       les_Quiz := map_option cloneQuiz (les_Quiz lesson)\<rparr>"

definition cloneDefinition :: "Definition \<Rightarrow> Definition" where
  "cloneDefinition d =
     d\<lparr>df_Description := clone_opt (df_Description d), df_CoverFileID := clone_opt (df_CoverFileID d),
       df_CoverURL := clone_opt (df_CoverURL d),
       df_DefaultInternalDeadlineDays := clone_opt (df_DefaultInternalDeadlineDays d),
       df_Sections := [] @ df_Sections d, df_Lessons := map cloneLesson (df_Lessons d)\<rparr>"

definition cloneVersion :: "course_version \<Rightarrow> course_version" where
  "cloneVersion v =
     v\<lparr>vn_Definition := cloneDefinition (vn_Definition v),
       vn_PublishedByID := clone_opt (vn_PublishedByID v),
       vn_PublishedAt := clone_opt (vn_PublishedAt v)\<rparr>"

definition validateVersion :: "course_version \<Rightarrow> version_error option" where
  "validateVersion v =
     (if vn_ID v = '''' then Some ErrVersionIDRequired
      else if vn_CompanyID v = '''' then Some Version_ErrCompanyRequired
      else if vn_CourseID v = '''' then Some Version_ErrCourseRequired
      else if vn_CreatedByID v = '''' then Some ErrCreatorRequired
      else if IsZero (vn_CreatedAt v) then Some Version_ErrCreatedAtRequired
      else if vn_Number v < 1 then Some ErrVersionNumberInvalid
      else case vn_Status v of
          StatusDraft \<Rightarrow>
            if vn_PublishedByID v \<noteq> None \<or> vn_PublishedAt v \<noteq> None \<or> vn_ContentHash v \<noteq> ''''
            then Some ErrDraftPublishedMetadata else None
        | StatusOther _ \<Rightarrow> Some ErrUnknownStatus
        | _ \<Rightarrow>
            if vn_PublishedByID v = None \<or> vn_PublishedByID v = Some '''' \<or>
               vn_PublishedAt v = None \<or> vn_PublishedAt v = Some 0 \<or> vn_ContentHash v = ''''
            then Some ErrPublishedMetadataRequired else None)"

definition Version_Rehydrate :: "course_version \<Rightarrow> version_error + course_version" where
  "Version_Rehydrate v =
     (case validateVersion v of Some err \<Rightarrow> Inl err | None \<Rightarrow> Inr (cloneVersion v))"

definition NewDraft :: "NewDraftParams \<Rightarrow> version_error + course_version" where
  "NewDraft params =
     Version_Rehydrate
       \<lparr>vn_ID = nd_ID params, vn_CompanyID = nd_CompanyID params, vn_CourseID = nd_CourseID params,
        vn_Number = nd_Number params, vn_Status = StatusDraft, vn_Definition = nd_Definition params,
        vn_CreatedByID = nd_CreatedByID params, vn_CreatedAt = nd_CreatedAt params,
        vn_PublishedByID = None, vn_PublishedAt = None, vn_ContentHash = ''''\<rparr>"

definition ReplaceDraft ::
  "course_version \<Rightarrow> Definition \<Rightarrow> course_version \<times> version_error option" where
  "ReplaceDraft v d =
     (case vn_Status v of
        StatusDraft \<Rightarrow> (v\<lparr>vn_Definition := cloneDefinition d\<rparr>, None)
      | StatusPublished \<Rightarrow> (v, Some ErrPublishedVersionImmutable)
      | StatusRetired \<Rightarrow> (v, Some ErrRetiredVersionImmutable)
      | StatusOther _ \<Rightarrow> (v, Some ErrUnknownStatus))"

definition Version_Retire :: "course_version \<Rightarrow> course_version \<times> version_error option" where
  "Version_Retire v =
     (case vn_Status v of
        StatusPublished \<Rightarrow> (v\<lparr>vn_Status := StatusRetired\<rparr>, None)
      | StatusDraft \<Rightarrow> (v, Some ErrOnlyPublishedCanBeRetired)
      | StatusRetired \<Rightarrow> (v, Some ErrRetiredVersionImmutable)
      | StatusOther _ \<Rightarrow> (v, Some ErrUnknownStatus))"

definition hex_digit :: "nat \<Rightarrow> char" where
  "hex_digit n = ''0123456789abcdef'' ! n"

definition hex_encode :: "8 word list \<Rightarrow> string" where
  "hex_encode bs = concat (map (\<lambda>b. [hex_digit (unat b div 16), hex_digit (unat b mod 16)]) bs)"

definition null_bytes :: "8 word list" where
  "null_bytes = map (\<lambda>c. of_nat (of_char c)) ''null''"

text \<open>The two library functions of the content hash, with what the code relies on.\<close>

record hash_functions =
  hf_marshal :: "Definition \<Rightarrow> bytes option"
  hf_sum256 :: "bytes \<Rightarrow> 8 word list"

definition definitionHash :: "hash_functions \<Rightarrow> Definition \<Rightarrow> string" where
  "definitionHash hf d =
     (let encoded = (case hf_marshal hf d of Some bs \<Rightarrow> bs | None \<Rightarrow> null_bytes)
      in hex_encode (hf_sum256 hf encoded))"

definition Version_Publish ::
  "hash_functions \<Rightarrow> (ID list \<Rightarrow> ID list) \<Rightarrow> course_version \<Rightarrow> PublishParams \<Rightarrow> course \<Rightarrow>
     PublicationValidators \<Rightarrow> course_version \<times> version_error option" where
  "Version_Publish hf iter v params root validators =
     (case vn_Status v of
        StatusPublished \<Rightarrow> (v, Some ErrPublishedVersionImmutable)
      | StatusRetired \<Rightarrow> (v, Some ErrRetiredVersionImmutable)
      | StatusOther _ \<Rightarrow> (v, Some ErrUnknownStatus)
      | StatusDraft \<Rightarrow>
         if pb_ActorID params = '''' then (v, Some ErrPublisherRequired)
         else if IsZero (pb_At params) then (v, Some ErrPublishedAtRequired)
         else if pb_ActorID params \<noteq> vn_CreatedByID v then (v, Some ErrDraftOwnerMismatch)
         else case Course_Validate root of
           Some err \<Rightarrow> (v, Some (CourseErr err))
         | None \<Rightarrow>
           if crs_ID root \<noteq> vn_CourseID v \<or> crs_CompanyID root \<noteq> vn_CompanyID v
             then (v, Some ErrCourseMismatch)
           else if crs_LifecycleStatus root = CourseDeleted then (v, Some (CourseErr ErrCourseDeleted))
           else if crs_DistributionStatus root = DistributionBlocked then (v, Some ErrCourseBlocked)
           else case ValidateDefinitionForPublication iter (vn_Definition v) validators of
             Some err \<Rightarrow> (v, Some (PublicationErr err))
           | None \<Rightarrow>
               (v\<lparr>vn_Status := StatusPublished, vn_PublishedByID := Some (pb_ActorID params),
                  vn_PublishedAt := Some (UTC (pb_At params)),
                  vn_ContentHash := definitionHash hf (vn_Definition v)\<rparr>, None))"

text \<open>The nil receivers.\<close>

definition ReplaceDraft_ptr ::
  "course_version option \<Rightarrow> Definition \<Rightarrow> course_version option \<times> version_error option" where
  "ReplaceDraft_ptr p d =
     (case p of None \<Rightarrow> (None, Some ErrVersionIDRequired)
      | Some v \<Rightarrow> map_prod Some id (ReplaceDraft v d))"

definition Version_Retire_ptr ::
  "course_version option \<Rightarrow> course_version option \<times> version_error option" where
  "Version_Retire_ptr p =
     (case p of None \<Rightarrow> (None, Some ErrVersionIDRequired)
      | Some v \<Rightarrow> map_prod Some id (Version_Retire v))"

subsection \<open>The versions of a course\<close>

record VersionRef =
  vr_Number :: int
  vr_Status :: version_status

text \<open>The loop of \<^verbatim>\<open>ValidateVersionSet\<close> over the sorted copy: the index, the previous number and
  the drafts counted; the result is the number of drafts.\<close>

fun validate_refs :: "int \<Rightarrow> int option \<Rightarrow> int \<Rightarrow> VersionRef list \<Rightarrow> version_error + int" where
  "validate_refs index prev drafts [] = Inr drafts"
| "validate_refs index prev drafts (version # rest) =
     (if vr_Number version < 1 then Inl ErrVersionNumberInvalid
      else if prev = Some (vr_Number version) then Inl ErrDuplicateVersionNumber
      else if vr_Number version \<noteq> index + 1 then Inl ErrVersionNumberGap
      else case vr_Status version of
          StatusDraft \<Rightarrow> validate_refs (index + 1) (Some (vr_Number version)) (drafts + 1) rest
        | StatusOther _ \<Rightarrow> Inl ErrUnknownStatus
        | _ \<Rightarrow> validate_refs (index + 1) (Some (vr_Number version)) drafts rest)"

text \<open>\<^verbatim>\<open>sort.Slice\<close> is not stable: \<open>vs\<close> is the sorted copy it leaves.\<close>

definition validate_sorted :: "VersionRef list \<Rightarrow> version_error option" where
  "validate_sorted vs =
     (case validate_refs 0 None 0 vs of
        Inl err \<Rightarrow> Some err
      | Inr drafts \<Rightarrow>
          if drafts > 1 then Some ErrMultipleDrafts
          else if drafts = 1 \<and> vr_Status (last vs) \<noteq> StatusDraft then Some ErrDraftMustBeLatest
          else None)"

definition ValidateVersionSet :: "VersionRef list \<Rightarrow> version_error option" where
  "ValidateVersionSet versions =
     (if versions = [] then None else validate_sorted (sort_key vr_Number versions))"

definition PlanNextDraft :: "VersionRef list \<Rightarrow> int \<Rightarrow> version_error + int" where
  "PlanNextDraft versions expectedLatestNumber =
     (case ValidateVersionSet versions of
        Some err \<Rightarrow> Inl err
      | None \<Rightarrow>
          let latestNumber = int (length versions)
          in if expectedLatestNumber \<noteq> latestNumber then Inl ErrVersionNumberConflict
             else if \<exists>version\<in>set versions. vr_Status version = StatusDraft
               then Inl ErrDraftAlreadyExists
             else Inr (latestNumber + 1))"

subsection \<open>What a learner sees of a quiz\<close>

record LearnerOption =
  lo_ID :: ID
  lo_Text :: string

record LearnerQuestion =
  lq_ID :: ID
  lq_Type :: QuestionType
  lq_Text :: string
  lq_Options :: "LearnerOption list"

record LearnerQuiz =
  lz_ID :: ID
  lz_Questions :: "LearnerQuestion list"
  lz_PassingScore :: int
  lz_MaxAttempts :: "int option"

definition LearnerView :: "Quiz \<Rightarrow> LearnerQuiz" where
  "LearnerView quiz =
     \<lparr>lz_ID = qz_ID quiz,
      lz_Questions = map (\<lambda>question.
        \<lparr>lq_ID = qn_ID question, lq_Type = qn_Type question, lq_Text = qn_Text question,
         lq_Options = map (\<lambda>option. \<lparr>lo_ID = op_ID option, lo_Text = op_Text option\<rparr>)
           (qn_Options question)\<rparr>) (qz_Questions quiz),
      lz_PassingScore = qz_PassingScore quiz, lz_MaxAttempts = clone_opt (qz_MaxAttempts quiz)\<rparr>"

lemma clone_opt_id [simp]: "clone_opt x = x"
  by (simp add: clone_opt_def split: option.splits)

lemma clone_id [simp]:
  "cloneQuiz q = q" "cloneLesson l = l" "cloneDefinition d = d" "cloneVersion v = v"
proof -
  show q: "cloneQuiz q = q" for q by (simp add: cloneQuiz_def)
  show l: "cloneLesson l = l" for l
    by (cases "les_Quiz l") (simp_all add: cloneLesson_def q)
  show d: "cloneDefinition d = d" for d by (simp add: cloneDefinition_def l map_idI)
  show "cloneVersion v = v" by (simp add: cloneVersion_def d)
qed

end
