(* ===== verification/Course_Publication.thy ===== *)
theory Course_Publication
  imports Course_Version
begin

section \<open>Course versions: publication, immutability, numbering\<close>

text \<open>
  The loops of \<^verbatim>\<open>publication.go\<close> and \<^verbatim>\<open>sequence.go\<close> against declarative conditions, and the properties
  of a course version: publication, immutability, the numbering of drafts, and the learner view.
\<close>

subsection \<open>What the publication checks accept\<close>

lemma orders_bad_iff:
  "orders_bad n seen os \<longleftrightarrow>
     \<not> (distinct os \<and> set os \<inter> set seen = {} \<and> (\<forall>x\<in>set os. 0 \<le> x \<and> x < n))"
  by (induction n seen os rule: orders_bad.induct) auto

lemma orders_bad_range: "orders_bad (int (length os)) [] os \<longleftrightarrow> \<not> fills_range os"
  by (simp add: orders_bad_iff fills_range_iff)

definition file_ok :: "PublicationValidators \<Rightarrow> ID \<Rightarrow> bool" where
  "file_ok v f \<longleftrightarrow> f \<noteq> '''' \<and> (\<exists>available. pv_FileAvailable v = Some available \<and> available f)"

lemma validateFile_iff: "validateFile f (pv_FileAvailable v) = None \<longleftrightarrow> file_ok v f"
  by (auto simp: validateFile_def file_ok_def split: option.splits)

definition options_ok :: "AnswerOption list \<Rightarrow> bool" where
  "options_ok os \<longleftrightarrow> distinct (map op_ID os) \<and>
     (\<forall>opt\<in>set os. op_ID opt \<noteq> '''' \<and> TrimSpace (op_Text opt) \<noteq> '''')"

definition question_ok :: "Question \<Rightarrow> bool" where
  "question_ok q \<longleftrightarrow>
     qn_ID q \<noteq> '''' \<and> TrimSpace (qn_Text q) \<noteq> '''' \<and>
     (qn_Type q = QuestionOpen \<and> qn_Options q = [] \<or>
      (qn_Type q = QuestionSingle \<or> qn_Type q = QuestionMultiple) \<and>
        2 \<le> length (qn_Options q) \<and> options_ok (qn_Options q) \<and>
        1 \<le> length (filter op_Correct (qn_Options q)) \<and>
        (qn_Type q = QuestionSingle \<longrightarrow> length (filter op_Correct (qn_Options q)) = 1))"

definition quiz_ok :: "Quiz \<Rightarrow> bool" where
  "quiz_ok z \<longleftrightarrow>
     qz_ID z \<noteq> '''' \<and> qz_Questions z \<noteq> [] \<and> 0 \<le> qz_PassingScore z \<and> qz_PassingScore z \<le> 100 \<and>
     (\<forall>m. qz_MaxAttempts z = Some m \<longrightarrow> 1 \<le> m) \<and>
     distinct (map qn_ID (qz_Questions z)) \<and> (\<forall>q\<in>set (qz_Questions z). question_ok q)"

definition lesson_ok :: "PublicationValidators \<Rightarrow> ID list \<Rightarrow> Lesson \<Rightarrow> bool" where
  "lesson_ok v sections l \<longleftrightarrow>
     les_ID l \<noteq> '''' \<and> TrimSpace (les_Title l) \<noteq> '''' \<and> TrimSpace (les_StableKey l) \<noteq> '''' \<and>
     les_SectionID l \<in> set sections \<and>
     (\<exists>richText. pv_RichText v = Some richText \<and> richText (les_Content l) = None) \<and>
     (\<forall>f\<in>set (les_FileIDs l). file_ok v f) \<and> (\<forall>z. les_Quiz l = Some z \<longrightarrow> quiz_ok z)"

definition quiz_ids :: "Lesson list \<Rightarrow> ID list" where
  "quiz_ids ls = map qz_ID (List.map_filter les_Quiz ls)"

definition publishable :: "PublicationValidators \<Rightarrow> Definition \<Rightarrow> bool" where
  "publishable v d \<longleftrightarrow>
     TrimSpace (df_Title d) \<noteq> '''' \<and>
     (\<forall>days. df_DefaultInternalDeadlineDays d = Some days \<longrightarrow> 1 \<le> days) \<and>
     (\<forall>cover. df_CoverFileID d = Some cover \<longrightarrow> file_ok v cover) \<and>
     df_Sections d \<noteq> [] \<and> df_Lessons d \<noteq> [] \<and>
     (\<forall>s\<in>set (df_Sections d). sec_ID s \<noteq> '''' \<and> TrimSpace (sec_Title s) \<noteq> '''') \<and>
     distinct (map sec_ID (df_Sections d)) \<and> fills_range (map sec_Order (df_Sections d)) \<and>
     (\<forall>l\<in>set (df_Lessons d). lesson_ok v (map sec_ID (df_Sections d)) l) \<and>
     distinct (map les_ID (df_Lessons d)) \<and> distinct (map les_StableKey (df_Lessons d)) \<and>
     distinct (quiz_ids (df_Lessons d)) \<and>
     (\<forall>s\<in>set (df_Sections d).
        let lessons = filter (\<lambda>l. les_SectionID l = sec_ID s) (df_Lessons d)
        in lessons \<noteq> [] \<and> fills_range (map les_Order lessons))"

lemma validate_options_iff:
  "validate_options ids c os = Inr k \<longleftrightarrow>
     options_ok os \<and> set (map op_ID os) \<inter> set ids = {} \<and> k = c + int (length (filter op_Correct os))"
  by (induction ids c os rule: validate_options.induct) (auto simp: options_ok_def)

lemma validate_answers_iff:
  assumes "qn_ID q \<noteq> ''''" "TrimSpace (qn_Text q) \<noteq> ''''"
  shows "validate_answers q = None \<longleftrightarrow> question_ok q"
proof (cases "validateOptions q")
  case (Inl err)
  then have "\<nexists>k. validate_options [] 0 (qn_Options q) = Inr k" by (simp add: validateOptions_def)
  then have "\<not> options_ok (qn_Options q)" unfolding validate_options_iff by auto
  with Inl assms show ?thesis
    by (auto simp: validate_answers_def question_ok_def split: QuestionType.splits)
next
  case (Inr k)
  then have "options_ok (qn_Options q)" "k = int (length (filter op_Correct (qn_Options q)))"
    by (simp_all add: validateOptions_def validate_options_iff)
  with Inr assms show ?thesis
    by (auto simp: validate_answers_def question_ok_def Suc_le_eq split: QuestionType.splits)
qed

lemma validate_questions_iff:
  "validate_questions ids qs = None \<longleftrightarrow>
     distinct (map qn_ID qs) \<and> set (map qn_ID qs) \<inter> set ids = {} \<and> (\<forall>q\<in>set qs. question_ok q)"
proof (induction ids qs rule: validate_questions.induct)
  case (2 ids q rest)
  show ?case
  proof (cases "qn_ID q \<noteq> '''' \<and> TrimSpace (qn_Text q) \<noteq> '''' \<and> qn_ID q \<notin> set ids")
    case True
    with 2 validate_answers_iff[of q] show ?thesis by auto
  next
    case False
    then show ?thesis by (auto simp: question_ok_def)
  qed
qed simp

lemma ValidateQuiz_iff: "ValidateQuiz z = None \<longleftrightarrow> quiz_ok z"
  by (auto simp: ValidateQuiz_def quiz_ok_def validate_questions_iff split: option.splits)

lemma validate_sections_iff:
  "validate_sections n ids ords ss = None \<longleftrightarrow>
     (\<forall>s\<in>set ss. sec_ID s \<noteq> '''' \<and> TrimSpace (sec_Title s) \<noteq> '''') \<and>
     distinct (map sec_ID ss) \<and> set (map sec_ID ss) \<inter> set ids = {} \<and>
     \<not> orders_bad n ords (map sec_Order ss)"
  by (induction n ids ords ss rule: validate_sections.induct) auto

lemma validate_lesson_quiz_iff:
  "validate_lesson_quiz ids l = Inr ids' \<longleftrightarrow>
     (\<forall>z. les_Quiz l = Some z \<longrightarrow> quiz_ok z \<and> qz_ID z \<notin> set ids) \<and> ids' = quiz_ids [l] @ ids"
  by (auto simp: validate_lesson_quiz_def ValidateQuiz_iff[symmetric] quiz_ids_def
      List.map_filter_simps split: option.splits) (auto simp: ValidateQuiz_def split: if_splits)

lemma validate_lessons_Cons:
  "validate_lessons v secs ids keys zs (l # ls) = None \<longleftrightarrow>
     lesson_ok v secs l \<and> les_ID l \<notin> set ids \<and> les_StableKey l \<notin> set keys \<and>
     (\<forall>z. les_Quiz l = Some z \<longrightarrow> qz_ID z \<notin> set zs) \<and>
     validate_lessons v secs (les_ID l # ids) (les_StableKey l # keys) (quiz_ids [l] @ zs) ls = None"
proof (cases "validate_lesson_quiz zs l")
  case (Inl err)
  then have "\<not> (\<forall>z. les_Quiz l = Some z \<longrightarrow> quiz_ok z \<and> qz_ID z \<notin> set zs)"
    using validate_lesson_quiz_iff[of zs l] by (metis sum.distinct(1))
  then show ?thesis
    using Inl by (auto simp: lesson_ok_def validateFile_iff Let_def split: option.splits)
next
  case (Inr zs')
  then have "\<forall>z. les_Quiz l = Some z \<longrightarrow> quiz_ok z \<and> qz_ID z \<notin> set zs" "zs' = quiz_ids [l] @ zs"
    using validate_lesson_quiz_iff[of zs l zs'] by simp_all
  moreover have "first_error (\<lambda>f. validateFile f (pv_FileAvailable v)) (les_FileIDs l) = None \<longleftrightarrow>
      (\<forall>f\<in>set (les_FileIDs l). file_ok v f)" by (simp add: validateFile_iff)
  ultimately show ?thesis
    using Inr by (cases "first_error (\<lambda>f. validateFile f (pv_FileAvailable v)) (les_FileIDs l)")
      (auto simp: lesson_ok_def Let_def simp del: first_error_None split: option.splits)
qed

lemma quiz_ids_Cons: "quiz_ids (l # ls) = quiz_ids [l] @ quiz_ids ls"
  by (simp add: quiz_ids_def List.map_filter_simps split: option.splits)

lemma quiz_ids_one: "set (quiz_ids [l]) \<inter> A = {} \<longleftrightarrow> (\<forall>z. les_Quiz l = Some z \<longrightarrow> qz_ID z \<notin> A)"
  "distinct (quiz_ids [l])"
  by (auto simp: quiz_ids_def List.map_filter_simps split: option.splits)

lemma validate_lessons_iff:
  "validate_lessons v secs ids keys zs ls = None \<longleftrightarrow>
     (\<forall>l\<in>set ls. lesson_ok v secs l) \<and>
     distinct (map les_ID ls) \<and> set (map les_ID ls) \<inter> set ids = {} \<and>
     distinct (map les_StableKey ls) \<and> set (map les_StableKey ls) \<inter> set keys = {} \<and>
     distinct (quiz_ids ls) \<and> set (quiz_ids ls) \<inter> set zs = {}"
proof (induction ls arbitrary: ids keys zs)
  case Nil
  then show ?case by (simp add: quiz_ids_def List.map_filter_simps)
next
  case (Cons l ls)
  show ?case
    unfolding validate_lessons_Cons Cons.IH quiz_ids_Cons[of l ls] quiz_ids_one(1)[symmetric]
    using quiz_ids_one(2)[of l] by auto
qed

lemma validate_section_lessons_iff:
  "validate_section_lessons all x = None \<longleftrightarrow>
     (let lessons = filter (\<lambda>l. les_SectionID l = x) all
      in lessons \<noteq> [] \<and> fills_range (map les_Order lessons))"
  using orders_bad_range[of "map les_Order (filter (\<lambda>l. les_SectionID l = x) all)"]
  by (simp add: validate_section_lessons_def Let_def)

lemma publication_iff:
  assumes iter: "\<And>xs. set (iter xs) = set xs"
  shows "ValidateDefinitionForPublication iter d v = None \<longleftrightarrow> publishable v d"
proof -
  have range: "orders_bad (int (length ss)) [] (map sec_Order ss) \<longleftrightarrow> \<not> fills_range (map sec_Order ss)"
    for ss :: "Section list"
    using orders_bad_range[of "map sec_Order ss"] by simp
  show ?thesis
    unfolding ValidateDefinitionForPublication_def publishable_def
    by (auto simp: validate_sections_iff validate_lessons_iff validate_section_lessons_iff iter
        validateFile_iff range split: option.splits)
qed

subsection \<open>Publication and immutability\<close>

lemma hex_encode_length: "length (hex_encode bs) = 2 * length bs"
  by (induction bs) (simp_all add: hex_encode_def)

lemma definitionHash_length:
  "(\<And>bs. length (hf_sum256 hf bs) = 32) \<Longrightarrow> length (definitionHash hf d) = 64"
  by (simp add: definitionHash_def hex_encode_length)

definition may_publish :: "course_version \<Rightarrow> PublishParams \<Rightarrow> course \<Rightarrow> PublicationValidators \<Rightarrow> bool" where
  "may_publish v params root validators \<longleftrightarrow>
     vn_Status v = StatusDraft \<and> pb_ActorID params \<noteq> '''' \<and> pb_ActorID params = vn_CreatedByID v \<and>
     pb_At params \<noteq> 0 \<and> course_valid root \<and> crs_ID root = vn_CourseID v \<and>
     crs_CompanyID root = vn_CompanyID v \<and> crs_LifecycleStatus root \<noteq> CourseDeleted \<and>
     crs_DistributionStatus root \<noteq> DistributionBlocked \<and> publishable validators (vn_Definition v)"

lemma Version_Publish_cases:
  assumes iter: "\<And>xs. set (iter xs) = set xs"
  shows "may_publish v params root validators \<Longrightarrow> Version_Publish hf iter v params root validators =
      (v\<lparr>vn_Status := StatusPublished, vn_PublishedByID := Some (pb_ActorID params),
         vn_PublishedAt := Some (pb_At params), vn_ContentHash := definitionHash hf (vn_Definition v)\<rparr>, None)"
    and "\<not> may_publish v params root validators \<Longrightarrow>
      \<exists>err. Version_Publish hf iter v params root validators = (v, Some err)"
proof -
  note d = publication_iff[OF iter, of "vn_Definition v" validators]
  show "may_publish v params root validators \<Longrightarrow> Version_Publish hf iter v params root validators =
      (v\<lparr>vn_Status := StatusPublished, vn_PublishedByID := Some (pb_ActorID params),
         vn_PublishedAt := Some (pb_At params), vn_ContentHash := definitionHash hf (vn_Definition v)\<rparr>, None)"
    using d by (auto simp: may_publish_def Version_Publish_def course_valid_def)
  show "\<not> may_publish v params root validators \<Longrightarrow>
      \<exists>err. Version_Publish hf iter v params root validators = (v, Some err)"
    using d by (cases "Course_Validate root";
        cases "ValidateDefinitionForPublication iter (vn_Definition v) validators")
      (auto simp: may_publish_def Version_Publish_def course_valid_def split: version_status.splits)
qed

datatype version_cmd = Cmd_Replace Definition | Cmd_Retire
  | Cmd_Publish PublishParams course PublicationValidators

fun exec_version ::
  "hash_functions \<Rightarrow> (ID list \<Rightarrow> ID list) \<Rightarrow> version_cmd \<Rightarrow> course_version \<Rightarrow> course_version" where
  "exec_version hf iter (Cmd_Replace d) v = fst (ReplaceDraft v d)"
| "exec_version hf iter Cmd_Retire v = fst (Version_Retire v)"
| "exec_version hf iter (Cmd_Publish p root validators) v = fst (Version_Publish hf iter v p root validators)"

definition version_valid :: "course_version \<Rightarrow> bool" where
  "version_valid v \<longleftrightarrow> validateVersion v = None"

text \<open>What a version relies on: the length of a SHA-256 sum, and that ranging over a map visits
  exactly its keys.\<close>

definition env_ok :: "hash_functions \<Rightarrow> (ID list \<Rightarrow> ID list) \<Rightarrow> bool" where
  "env_ok hf iter \<longleftrightarrow> (\<forall>bs. length (hf_sum256 hf bs) = 32) \<and> (\<forall>xs. set (iter xs) = set xs)"

lemma hash_not_empty: "env_ok hf iter \<Longrightarrow> definitionHash hf d \<noteq> ''''"
  using definitionHash_length[of hf d] by (auto simp: env_ok_def)

lemma exec_version_cases:
  assumes env: "env_ok hf iter"
  obtains "exec_version hf iter c v = v"
  | d where "vn_Status v = StatusDraft" "exec_version hf iter c v = v\<lparr>vn_Definition := d\<rparr>"
  | "vn_Status v = StatusPublished" "exec_version hf iter c v = v\<lparr>vn_Status := StatusRetired\<rparr>"
  | p root validators where "may_publish v p root validators" "exec_version hf iter c v =
      v\<lparr>vn_Status := StatusPublished, vn_PublishedByID := Some (pb_ActorID p),
        vn_PublishedAt := Some (pb_At p), vn_ContentHash := definitionHash hf (vn_Definition v)\<rparr>"
proof (cases c)
  case (Cmd_Replace d)
  then show thesis using that(1,2)
    by (cases "vn_Status v") (simp_all add: ReplaceDraft_def)
next
  case Cmd_Retire
  then show thesis using that(1,3)
    by (cases "vn_Status v") (simp_all add: Version_Retire_def)
next
  case (Cmd_Publish p root validators)
  have iter: "set (iter xs) = set xs" for xs using env by (simp add: env_ok_def)
  show thesis
  proof (cases "may_publish v p root validators")
    case True
    with that(4)[OF True] Version_Publish_cases(1)[OF iter True, of hf] Cmd_Publish show thesis by simp
  next
    case False
    with that(1) Version_Publish_cases(2)[OF iter False, of hf] Cmd_Publish show thesis by auto
  qed
qed

lemma exec_version_valid:
  "env_ok hf iter \<Longrightarrow> version_valid v \<Longrightarrow> version_valid (exec_version hf iter c v)"
  by (rule exec_version_cases[of hf iter c v])
    (auto simp: version_valid_def validateVersion_def may_publish_def hash_not_empty split: if_splits)

lemma exec_frozen:
  assumes "env_ok hf iter" "vn_Status v = StatusPublished \<or> vn_Status v = StatusRetired"
  shows "exec_version hf iter c v = v \<or> exec_version hf iter c v = v\<lparr>vn_Status := StatusRetired\<rparr>"
  using assms(2) by (cases rule: exec_version_cases[OF assms(1), of c v]) (auto simp: may_publish_def)

interpretation ver_agg: aggregate "\<lambda>v. env_ok hf iter \<and> version_valid v" "exec_version hf iter"
  for hf iter
  by unfold_locales (blast intro: exec_version_valid)

interpretation ver_pin: pinned_aggregate "\<lambda>v. env_ok hf iter \<and> version_valid v" "exec_version hf iter"
  "\<lambda>v. (vn_ID v, vn_CompanyID v, vn_CourseID v, vn_Number v, vn_CreatedByID v, vn_CreatedAt v)"
  for hf iter
proof unfold_locales
  fix s c
  assume "env_ok hf iter \<and> version_valid s"
  then show "(vn_ID (exec_version hf iter c s), vn_CompanyID (exec_version hf iter c s),
      vn_CourseID (exec_version hf iter c s), vn_Number (exec_version hf iter c s),
      vn_CreatedByID (exec_version hf iter c s), vn_CreatedAt (exec_version hf iter c s)) =
    (vn_ID s, vn_CompanyID s, vn_CourseID s, vn_Number s, vn_CreatedByID s, vn_CreatedAt s)"
    by (auto intro: exec_version_cases[of hf iter c s])
qed

text \<open>Everything a published version \<open>v\<close> is read for, except the status.\<close>

definition frozen_as :: "course_version \<Rightarrow> course_version \<Rightarrow> bool" where
  "frozen_as v w \<longleftrightarrow>
     w\<lparr>vn_Status := StatusRetired\<rparr> = v\<lparr>vn_Status := StatusRetired\<rparr> \<and>
     (vn_Status w = StatusPublished \<or> vn_Status w = StatusRetired) \<and>
     (vn_Status v = StatusRetired \<longrightarrow> vn_Status w = StatusRetired)"

interpretation ver_term: terminal_aggregate "\<lambda>v. env_ok hf iter \<and> version_valid v"
  "exec_version hf iter" "frozen_as v0" for hf iter v0
proof unfold_locales
  fix s c
  assume env: "env_ok hf iter \<and> version_valid s" and fr: "frozen_as v0 s"
  with exec_frozen[of hf iter s c] show "frozen_as v0 (exec_version hf iter c s)"
    by (auto simp: frozen_as_def)
qed

subsection \<open>The numbering of versions\<close>

definition versions_ok :: "VersionRef list \<Rightarrow> bool" where
  "versions_ok vs \<longleftrightarrow>
     mset (map vr_Number vs) = mset (map int [1..<Suc (length vs)]) \<and>
     (\<forall>v\<in>set vs. vr_Status v \<in> {StatusDraft, StatusPublished, StatusRetired} \<and>
        (vr_Status v = StatusDraft \<longrightarrow> vr_Number v = int (length vs)))"

abbreviation draft_count :: "VersionRef list \<Rightarrow> nat" where
  "draft_count vs \<equiv> length (filter (\<lambda>v. vr_Status v = StatusDraft) vs)"

lemma validate_refs_iff:
  assumes "0 \<le> k" "prev = None \<or> prev = Some k"
  shows "validate_refs k prev d vs = Inr d' \<longleftrightarrow>
    map vr_Number vs = map (\<lambda>i. k + int i) [1..<Suc (length vs)] \<and>
    (\<forall>v\<in>set vs. vr_Status v \<in> {StatusDraft, StatusPublished, StatusRetired}) \<and>
    d' = d + int (draft_count vs)"
  using assms
proof (induction vs arbitrary: k prev d)
  case (Cons v vs)
  have shift: "map (\<lambda>i. k + int i) [1..<Suc (length (v # vs))] =
      (k + 1) # map (\<lambda>i. (k + 1) + int i) [1..<Suc (length vs)]"
    by (simp add: upt_conv_Cons map_Suc_upt[symmetric] del: upt_Suc)
  have IH: "validate_refs (k + 1) (Some (k + 1)) e vs = Inr d' \<longleftrightarrow>
      map vr_Number vs = map (\<lambda>i. (k + 1) + int i) [1..<Suc (length vs)] \<and>
      (\<forall>v\<in>set vs. vr_Status v \<in> {StatusDraft, StatusPublished, StatusRetired}) \<and>
      d' = e + int (draft_count vs)" for e
    using Cons.IH[of "k + 1" "Some (k + 1)" e] Cons.prems by simp
  show ?case
  proof (cases "vr_Number v = k + 1")
    case True
    with Cons.prems show ?thesis unfolding shift
      by (cases "vr_Status v") (auto simp: IH)
  next
    case False
    with Cons.prems show ?thesis unfolding shift by auto
  qed
qed auto

lemma sorted_numbers_iff:
  assumes "mset vs = mset versions" "sorted (map vr_Number vs)"
  shows "map vr_Number vs = map (\<lambda>i. 0 + int i) [1..<Suc (length vs)] \<longleftrightarrow>
    mset (map vr_Number versions) = mset (map int [1..<Suc (length versions)])"
proof -
  have len: "length vs = length versions" using assms(1) by (rule mset_eq_length)
  have ms: "mset (map vr_Number vs) = mset (map vr_Number versions)" using assms(1) by simp
  have "sorted (map int [1..<Suc (length vs)])" by (simp add: sorted_map sorted_wrt_upt del: upt_Suc)
  then have "mset (map vr_Number vs) = mset (map int [1..<Suc (length vs)]) \<longleftrightarrow>
      map vr_Number vs = map int [1..<Suc (length vs)]"
    using assms(2) by (metis properties_for_sort)
  with ms len show ?thesis by simp
qed

lemma draft_count_le_1:
  assumes "distinct (map vr_Number vs)" "\<forall>v\<in>set vs. vr_Status v = StatusDraft \<longrightarrow> vr_Number v = k"
  shows "draft_count vs \<le> 1"
proof -
  have "distinct (map vr_Number (filter (\<lambda>v. vr_Status v = StatusDraft) vs))"
    using assms(1) by (rule distinct_map_filter)
  moreover have "set (map vr_Number (filter (\<lambda>v. vr_Status v = StatusDraft) vs)) \<subseteq> {k}"
    using assms(2) by auto
  ultimately have "length (map vr_Number (filter (\<lambda>v. vr_Status v = StatusDraft) vs)) \<le> card {k}"
    by (metis card_mono distinct_card finite.emptyI finite.insertI)
  then show ?thesis by simp
qed

lemma validate_sorted_iff:
  assumes ms: "mset vs = mset versions" and sorted: "sorted (map vr_Number vs)" and ne: "vs \<noteq> []"
  shows "validate_sorted vs = None \<longleftrightarrow> versions_ok versions"
proof (cases "validate_refs 0 None 0 vs")
  case (Inl err)
  then have "\<not> (map vr_Number vs = map (\<lambda>i. 0 + int i) [1..<Suc (length vs)] \<and>
      (\<forall>v\<in>set vs. vr_Status v \<in> {StatusDraft, StatusPublished, StatusRetired}))"
    using validate_refs_iff[of 0 None 0 vs "int (draft_count vs)"] by auto
  then have "\<not> versions_ok versions"
    using sorted_numbers_iff[OF ms sorted] mset_eq_setD[OF ms] unfolding versions_ok_def by auto
  with Inl show ?thesis by (simp add: validate_sorted_def)
next
  case (Inr d)
  then have nums: "map vr_Number vs = map (\<lambda>i. 0 + int i) [1..<Suc (length vs)]"
    and st: "\<forall>v\<in>set vs. vr_Status v \<in> {StatusDraft, StatusPublished, StatusRetired}"
    and d: "d = int (draft_count vs)"
    using validate_refs_iff[of 0 None 0 vs d] by simp_all
  have len: "length vs = length versions" using ms by (rule mset_eq_length)
  have dist: "distinct (map vr_Number vs)" unfolding nums by (simp add: distinct_map inj_on_def del: upt_Suc)
  have nth: "vr_Number (vs ! i) = int i + 1" if "i < length vs" for i
  proof -
    have "map vr_Number vs ! i = map (\<lambda>i. 0 + int i) [1..<Suc (length vs)] ! i" by (simp only: nums)
    with that show ?thesis by (simp del: upt_Suc)
  qed
  have last: "vr_Number (last vs) = int (length vs)"
  proof -
    have "length vs - 1 < length vs" "int (length vs - 1) + 1 = int (length vs)"
      using ne by (cases vs, simp_all)+
    with nth[of "length vs - 1"] ne show ?thesis by (simp add: last_conv_nth)
  qed
  have "(\<forall>v\<in>set vs. vr_Status v = StatusDraft \<longrightarrow> vr_Number v = int (length vs)) \<longleftrightarrow>
      \<not> d > 1 \<and> \<not> (d = 1 \<and> vr_Status (last vs) \<noteq> StatusDraft)"
  proof
    assume all: "\<forall>v\<in>set vs. vr_Status v = StatusDraft \<longrightarrow> vr_Number v = int (length vs)"
    have "draft_count vs \<le> 1" using draft_count_le_1[OF dist all] .
    moreover have "vr_Status (last vs) = StatusDraft" if "d = 1"
    proof -
      from that d have "filter (\<lambda>v. vr_Status v = StatusDraft) vs \<noteq> []" by auto
      then obtain v where v: "v \<in> set vs" "vr_Status v = StatusDraft" by (auto simp: filter_empty_conv)
      with all last have "vr_Number v = vr_Number (last vs)" by simp
      with v ne dist have "v = last vs" by (auto simp: distinct_map dest: inj_onD)
      with v show ?thesis by simp
    qed
    ultimately show "\<not> d > 1 \<and> \<not> (d = 1 \<and> vr_Status (last vs) \<noteq> StatusDraft)" using d by auto
  next
    assume bounds: "\<not> d > 1 \<and> \<not> (d = 1 \<and> vr_Status (last vs) \<noteq> StatusDraft)"
    show "\<forall>v\<in>set vs. vr_Status v = StatusDraft \<longrightarrow> vr_Number v = int (length vs)"
    proof (intro ballI impI)
      fix v assume v: "v \<in> set vs" "vr_Status v = StatusDraft"
      let ?F = "filter (\<lambda>v. vr_Status v = StatusDraft) vs"
      have "length ?F \<le> 1" "v \<in> set ?F" using bounds d v by auto
      then have "?F = [v]" by (cases ?F) auto
      moreover from this bounds d have "vr_Status (last vs) = StatusDraft" by simp
      then have "last vs \<in> set ?F" using ne by simp
      ultimately have "last vs = v" by simp
      with last show "vr_Number v = int (length vs)" by simp
    qed
  qed
  then show ?thesis
    using Inr nums st sorted_numbers_iff[OF ms sorted] mset_eq_setD[OF ms] len
    by (auto simp: validate_sorted_def versions_ok_def)
qed

lemma ValidateVersionSet_ok: "ValidateVersionSet vs = None \<longleftrightarrow> versions_ok vs"
proof (cases "vs = []")
  case True
  then show ?thesis by (simp add: ValidateVersionSet_def versions_ok_def)
next
  case False
  then have "sort_key vr_Number vs \<noteq> []" by (metis length_0_conv length_sort)
  with False show ?thesis
    using validate_sorted_iff[of "sort_key vr_Number vs" vs]
    by (simp add: ValidateVersionSet_def)
qed

subsection \<open>Properties\<close>

definition example_definition :: Definition where
  "example_definition =
     \<lparr>df_Title = ''Safety'', df_Description = None, df_CoverFileID = None, df_CoverURL = None,
      df_Sequential = True, df_DefaultInternalDeadlineDays = Some 14,
      df_Sections = [\<lparr>sec_ID = ''s1'', sec_StableKey = ''a'', sec_Title = ''Start'', sec_Order = 0\<rparr>],
      df_Lessons = [\<lparr>les_ID = ''l1'', les_SectionID = ''s1'', les_StableKey = ''k1'', les_Title = ''One'',
        les_Order = 0, les_Content = [], les_SourceType = '''', les_SourceArticleID = None,
        les_SourceArticleVersion = None, les_SourceTemplateID = None,
        les_SourceTemplateVersionID = None, les_EstimatedMinutes = None, les_FileIDs = [''f1''],
        les_Quiz = Some \<lparr>qz_ID = ''q1'', qz_Questions = [\<lparr>qn_ID = ''n1'', qn_Type = QuestionSingle,
          qn_Text = ''Why'', qn_Options = [\<lparr>op_ID = ''o1'', op_Text = ''A'', op_Correct = True\<rparr>,
            \<lparr>op_ID = ''o2'', op_Text = ''B'', op_Correct = False\<rparr>]\<rparr>],
          qz_PassingScore = 70, qz_MaxAttempts = None\<rparr>\<rparr>]\<rparr>"

definition example_validators :: PublicationValidators where
  "example_validators = \<lparr>pv_RichText = Some (\<lambda>_. None), pv_FileAvailable = Some (\<lambda>f. f = ''f1'')\<rparr>"

definition example_hash :: hash_functions where
  "example_hash = \<lparr>hf_marshal = (\<lambda>_. Some []), hf_sum256 = (\<lambda>bs. replicate 32 (of_nat (length bs)))\<rparr>"

definition example_draft :: course_version where
  "example_draft =
     \<lparr>vn_ID = ''v1'', vn_CompanyID = ''company'', vn_CourseID = ''course'', vn_Number = 1,
      vn_Status = StatusDraft, vn_Definition = example_definition, vn_CreatedByID = ''u1'',
      vn_CreatedAt = 5, vn_PublishedByID = None, vn_PublishedAt = None, vn_ContentHash = ''''\<rparr>"

abbreviation example_publish :: "course_version \<times> version_error option" where
  "example_publish \<equiv> Version_Publish example_hash rev example_draft \<lparr>pb_ActorID = ''u1'', pb_At = 9\<rparr>
     example_course example_validators"

lemma example_env: "env_ok example_hash rev"
  by (simp add: env_ok_def example_hash_def)

text \<open>\<^verbatim>\<open>ValidateDefinitionForPublication\<close>, whatever order Go iterates its map of sections in, accepts
  exactly the publishable definitions: a title, sections and lessons with identifiers, titles
  and unique stable keys, section orders \<open>0\<close> to \<open>n - 1\<close>, in every section at least one lesson and
  lesson orders \<open>0\<close> to \<open>m - 1\<close>, every lesson with valid content, available files and a quiz
  that can be graded, and no quiz used twice.\<close>

theorem ValidateDefinitionForPublication_iff:
  assumes "\<forall>xs. set (iter xs) = set xs"
  shows "ValidateDefinitionForPublication iter d v = None \<longleftrightarrow> publishable v d"
  using assms by (intro publication_iff) blast

theorem ValidateDefinitionForPublication_iff_witness:
  "publishable example_validators example_definition"
proof -
  have "ValidateDefinitionForPublication rev example_definition example_validators = None" by code_simp
  then show ?thesis using ValidateDefinitionForPublication_iff[of rev] by simp
qed

text \<open>\<^verbatim>\<open>Publish\<close> succeeds exactly when the version is a draft, published by its author, of the given
  valid course that is neither deleted nor blocked, with a publishable definition; then the
  definition is kept, stamped with its content hash, and the result is a valid stored version; a
  refused publication changes nothing.\<close>

theorem Publish_correct:
  assumes "env_ok hf iter" "validateVersion v = None"
  shows "Version_Publish hf iter v p root validators =
    (if may_publish v p root validators
     then (v\<lparr>vn_Status := StatusPublished, vn_PublishedByID := Some (pb_ActorID p),
             vn_PublishedAt := Some (pb_At p), vn_ContentHash := definitionHash hf (vn_Definition v)\<rparr>, None)
     else (v, snd (Version_Publish hf iter v p root validators))) \<and>
    (snd (Version_Publish hf iter v p root validators) = None \<longleftrightarrow> may_publish v p root validators) \<and>
    validateVersion (fst (Version_Publish hf iter v p root validators)) = None"
proof -
  have iter: "set (iter xs) = set xs" for xs using assms(1) by (simp add: env_ok_def)
  have "validateVersion (exec_version hf iter (Cmd_Publish p root validators) v) = None"
    using exec_version_valid[OF assms(1)] assms(2) unfolding version_valid_def by blast
  with Version_Publish_cases[OF iter, of v p root validators hf] show ?thesis
    by (cases "may_publish v p root validators") auto
qed

theorem Publish_correct_witness:
  "snd example_publish = None \<and> validateVersion (fst example_publish) = None \<and>
   length (vn_ContentHash (fst example_publish)) = 64"
proof -
  have v: "validateVersion example_draft = None" and ok: "snd example_publish = None" by code_simp+
  note correct = Publish_correct[OF example_env v, of "\<lparr>pb_ActorID = ''u1'', pb_At = 9\<rparr>" example_course
      example_validators]
  have may: "may_publish example_draft \<lparr>pb_ActorID = ''u1'', pb_At = 9\<rparr> example_course example_validators"
    using correct ok by blast
  have "vn_ContentHash (fst example_publish) = definitionHash example_hash (vn_Definition example_draft)"
    by (subst conjunct1[OF correct]) (simp add: may)
  moreover have "length (definitionHash example_hash d) = 64" for d
    using definitionHash_length[of example_hash d] example_env by (simp add: env_ok_def)
  ultimately have "length (vn_ContentHash (fst example_publish)) = 64" by metis
  with ok conjunct2[OF conjunct2[OF correct]] show ?thesis by blast
qed

text \<open>(C8) A published version is immutable: whatever commands follow, its content, its content hash,
  its publication data, its number and its identity stay as they were; only its status may move
  from published to retired, and never back.\<close>

theorem published_version_is_immutable:
  assumes "env_ok hf iter" "validateVersion v = None"
    "vn_Status v = StatusPublished \<or> vn_Status v = StatusRetired"
    "w = fold (exec_version hf iter) cs v"
  shows "w\<lparr>vn_Status := vn_Status v\<rparr> = v \<and> (vn_Status w = vn_Status v \<or> vn_Status w = StatusRetired)"
proof -
  have "frozen_as v v" using assms(3) by (simp add: frozen_as_def)
  with ver_term.run_terminal[of hf iter v v cs] assms have "frozen_as v w"
    by (simp add: version_valid_def)
  then have eq: "w\<lparr>vn_Status := StatusRetired\<rparr> = v\<lparr>vn_Status := StatusRetired\<rparr>"
    and st: "vn_Status w = StatusPublished \<or> vn_Status w = StatusRetired"
      "vn_Status v = StatusRetired \<longrightarrow> vn_Status w = StatusRetired"
    by (simp_all add: frozen_as_def)
  from arg_cong[OF eq, of "\<lambda>x. x\<lparr>vn_Status := vn_Status v\<rparr>"] have "w\<lparr>vn_Status := vn_Status v\<rparr> = v" by simp
  with st assms(3) show ?thesis by auto
qed

theorem published_version_is_immutable_witness:
  "let v = fst example_publish;
       w = fold (exec_version example_hash rev)
         [Cmd_Replace (example_definition\<lparr>df_Title := ''Changed''\<rparr>), Cmd_Retire] v
   in vn_Definition w = example_definition \<and> vn_ContentHash w = vn_ContentHash v"
proof -
  define v where "v = fst example_publish"
  define w where "w = fold (exec_version example_hash rev)
    [Cmd_Replace (example_definition\<lparr>df_Title := ''Changed''\<rparr>), Cmd_Retire] v"
  have "validateVersion v = None" "vn_Status v = StatusPublished" "vn_Definition v = example_definition"
    unfolding v_def by code_simp+
  with published_version_is_immutable[OF example_env, of v w] w_def
  have "w\<lparr>vn_Status := vn_Status v\<rparr> = v" "vn_Definition v = example_definition" by blast+
  then have "vn_Definition w = example_definition" "vn_ContentHash w = vn_ContentHash v"
    by (metis course_version.select_convs course_version.surjective course_version.update_convs(5))+
  then show ?thesis unfolding w_def v_def Let_def by blast
qed

text \<open>The versions of a course are well numbered exactly when their numbers are \<open>1\<close> to \<open>n\<close>, their
  statuses are known and only the latest may be a draft, whichever sorted copy \<^verbatim>\<open>sort.Slice\<close> makes.\<close>

theorem ValidateVersionSet_iff:
  assumes "mset vs = mset versions" "sorted (map vr_Number vs)"
  shows "(versions = [] \<or> validate_sorted vs = None \<longleftrightarrow> versions_ok versions) \<and>
    (ValidateVersionSet versions = None \<longleftrightarrow> versions_ok versions)"
proof -
  have "versions = [] \<Longrightarrow> versions_ok versions" by (simp add: versions_ok_def)
  moreover have "vs = [] \<longleftrightarrow> versions = []" using assms(1) by auto
  ultimately show ?thesis
    using validate_sorted_iff[OF assms] ValidateVersionSet_ok[of versions]
    by (cases "versions = []") simp_all
qed

definition example_versions :: "VersionRef list" where
  "example_versions = [\<lparr>vr_Number = 2, vr_Status = StatusPublished\<rparr>, \<lparr>vr_Number = 1, vr_Status = StatusRetired\<rparr>]"

theorem ValidateVersionSet_iff_witness:
  "validate_sorted (rev example_versions) = None \<and> ValidateVersionSet example_versions = None"
proof -
  have "versions_ok example_versions"
    by (auto simp: versions_ok_def example_versions_def numeral_2_eq_2)
  moreover have "sorted (map vr_Number (rev example_versions))" by (simp add: example_versions_def)
  ultimately show ?thesis
    using ValidateVersionSet_iff[of "rev example_versions" example_versions]
    by (simp add: example_versions_def)
qed

lemma versions_ok_snoc:
  assumes "versions_ok vs" "\<forall>v\<in>set vs. vr_Status v \<noteq> StatusDraft"
  shows "versions_ok (vs @ [\<lparr>vr_Number = int (length vs) + 1, vr_Status = StatusDraft\<rparr>])"
  using assms by (auto simp: versions_ok_def)

text \<open>\<^verbatim>\<open>PlanNextDraft\<close> allocates the next number: it succeeds exactly on a well numbered course with
  no open draft and a current concurrency token, the number it gives is new and follows the
  latest one, a draft with that number keeps the course well numbered, and a second command with
  the same token is refused.\<close>

theorem PlanNextDraft_correct:
  "(PlanNextDraft vs expected = Inr n \<longleftrightarrow>
     ValidateVersionSet vs = None \<and> expected = int (length vs) \<and> n = int (length vs) + 1 \<and>
     (\<forall>v\<in>set vs. vr_Status v \<noteq> StatusDraft)) \<and>
   (PlanNextDraft vs expected = Inr n \<longrightarrow>
     n \<notin> set (map vr_Number vs) \<and>
     ValidateVersionSet (vs @ [\<lparr>vr_Number = n, vr_Status = StatusDraft\<rparr>]) = None \<and>
     (\<exists>err. PlanNextDraft (vs @ [\<lparr>vr_Number = n, vr_Status = StatusDraft\<rparr>]) expected = Inl err))"
proof -
  have iff: "PlanNextDraft vs expected = Inr n \<longleftrightarrow>
     ValidateVersionSet vs = None \<and> expected = int (length vs) \<and> n = int (length vs) + 1 \<and>
     (\<forall>v\<in>set vs. vr_Status v \<noteq> StatusDraft)"
    by (auto simp: PlanNextDraft_def Let_def split: option.splits if_splits)
  moreover have "n \<notin> set (map vr_Number vs) \<and>
     ValidateVersionSet (vs @ [\<lparr>vr_Number = n, vr_Status = StatusDraft\<rparr>]) = None \<and>
     (\<exists>err. PlanNextDraft (vs @ [\<lparr>vr_Number = n, vr_Status = StatusDraft\<rparr>]) expected = Inl err)"
    if "PlanNextDraft vs expected = Inr n"
  proof -
    from that iff have ok: "versions_ok vs" and nd: "\<forall>v\<in>set vs. vr_Status v \<noteq> StatusDraft"
      and n: "n = int (length vs) + 1" "expected = int (length vs)"
      by (simp_all add: ValidateVersionSet_ok)
    have "set (map vr_Number vs) = set (map int [1..<Suc (length vs)])"
      using ok unfolding versions_ok_def by (metis mset_eq_setD)
    then have "n \<notin> set (map vr_Number vs)" using n by (simp del: set_map upt_Suc) auto
    moreover have new: "ValidateVersionSet (vs @ [\<lparr>vr_Number = n, vr_Status = StatusDraft\<rparr>]) = None"
      using versions_ok_snoc[OF ok nd] n by (simp add: ValidateVersionSet_ok)
    moreover have "\<exists>err. PlanNextDraft (vs @ [\<lparr>vr_Number = n, vr_Status = StatusDraft\<rparr>]) expected = Inl err"
      using new n by (simp add: PlanNextDraft_def Let_def)
    ultimately show ?thesis by blast
  qed
  ultimately show ?thesis by blast
qed

theorem PlanNextDraft_correct_witness:
  "PlanNextDraft example_versions 2 = Inr 3 \<and>
   ValidateVersionSet (example_versions @ [\<lparr>vr_Number = 3, vr_Status = StatusDraft\<rparr>]) = None"
proof -
  have "ValidateVersionSet example_versions = None" by code_simp
  moreover have "length example_versions = 2" "\<forall>v\<in>set example_versions. vr_Status v \<noteq> StatusDraft"
    by (simp_all add: example_versions_def)
  ultimately show ?thesis using PlanNextDraft_correct[of example_versions 2 3] by simp
qed

text \<open>A quiz with every option marked wrong, and the quiz a view shows.\<close>

definition mark_none :: "Quiz \<Rightarrow> Quiz" where
  "mark_none quiz =
     quiz\<lparr>qz_Questions := map (\<lambda>q. q\<lparr>qn_Options :=
        map (\<lambda>opt. opt\<lparr>op_Correct := False\<rparr>) (qn_Options q)\<rparr>) (qz_Questions quiz)\<rparr>"

definition view_quiz :: "LearnerQuiz \<Rightarrow> Quiz" where
  "view_quiz z =
     \<lparr>qz_ID = lz_ID z,
      qz_Questions = map (\<lambda>q. \<lparr>qn_ID = lq_ID q, qn_Type = lq_Type q, qn_Text = lq_Text q,
        qn_Options = map (\<lambda>opt. \<lparr>op_ID = lo_ID opt, op_Text = lo_Text opt, op_Correct = False\<rparr>)
          (lq_Options q)\<rparr>) (lz_Questions z),
      qz_PassingScore = lz_PassingScore z, qz_MaxAttempts = lz_MaxAttempts z\<rparr>"

text \<open>A learner learns nothing of the correct answers: two quizzes have the same learner view exactly
  when they differ at most in which options are marked correct.\<close>

theorem LearnerView_hides_answers:
  "LearnerView q1 = LearnerView q2 \<longleftrightarrow> mark_none q1 = mark_none q2"
proof -
  have shown: "LearnerView q = LearnerView (mark_none q)" for q
    by (simp add: LearnerView_def mark_none_def o_def)
  have "mark_none q = view_quiz (LearnerView q)" for q
    by (cases q) (auto simp: LearnerView_def mark_none_def view_quiz_def)
  with shown show ?thesis by metis
qed

end
