(* ===== verification/Links.thy ===== *)
theory Links
  imports Prelude "HOL-Library.Char_ord"
begin

section \<open>External links: what campaigns and personal accesses share\<close>

text \<open>
  A campaign and a personal access are both links guarded by a token of which only the hash is
  stored. This theory holds the pieces the two packages have in common and the contract of such a
  link: its clock never goes back, and a link that was shut is never usable again.
\<close>

text \<open>The pattern \<^verbatim>\<open>^[A-Za-z0-9_-]{6,24}$\<close> of a token prefix.\<close>

definition token_char :: "char \<Rightarrow> bool" where
  "token_char c \<longleftrightarrow>
     (CHR ''A'' \<le> c \<and> c \<le> CHR ''Z'') \<or> (CHR ''a'' \<le> c \<and> c \<le> CHR ''z'') \<or>
     (CHR ''0'' \<le> c \<and> c \<le> CHR ''9'') \<or> c = CHR ''_'' \<or> c = CHR ''-''"

definition tokenPrefixPattern :: "string \<Rightarrow> bool" where
  "tokenPrefixPattern s \<longleftrightarrow> 6 \<le> length s \<and> length s \<le> 24 \<and> list_all token_char s"

text \<open>\<^verbatim>\<open>subtle.ConstantTimeCompare(left, right) == 1\<close>.\<close>

definition ConstantTimeCompare :: "bytes \<Rightarrow> bytes \<Rightarrow> bool" where
  "ConstantTimeCompare left right \<longleftrightarrow> left = right"

definition MinDeadlineDays :: int where
  "MinDeadlineDays = 1"

definition MaxDeadlineDays :: int where
  "MaxDeadlineDays = 7"

definition copy_ptr :: "'a option \<Rightarrow> 'a option" where
  "copy_ptr value = (case value of None \<Rightarrow> None | Some v \<Rightarrow> Some v)"

definition utc_ptr :: "time option \<Rightarrow> time option" where
  "utc_ptr value = (case value of None \<Rightarrow> None | Some v \<Rightarrow> Some (UTC v))"

lemma copy_ptr_id [simp]: "copy_ptr x = x"
  by (simp add: copy_ptr_def split: option.splits)

lemma utc_ptr_id [simp]: "utc_ptr x = x"
  by (simp add: utc_ptr_def split: option.splits)

text \<open>Emails. Lower-casing of Unicode text (\<^verbatim>\<open>strings.ToLower\<close>) and the RFC 5322 parser
  (\<^verbatim>\<open>mail.ParseAddress\<close>, of which the sources read the address) are parameters.\<close>

record email_lib =
  el_ToLower :: "string \<Rightarrow> string"
  el_ParseAddress :: "string \<Rightarrow> string option"

definition NormalizeEmail :: "email_lib \<Rightarrow> string \<Rightarrow> string" where
  "NormalizeEmail el value = el_ToLower el (TrimSpace value)"

definition cleanOptional :: "string option \<Rightarrow> string option" where
  "cleanOptional value =
     (case value of
        None \<Rightarrow> None
      | Some v \<Rightarrow> let trimmed = TrimSpace v in if trimmed = '''' then None else Some trimmed)"

text \<open>A concrete library for the examples: ASCII letters, and any text with an at sign is an address.\<close>

definition ascii_email_lib :: email_lib where
  "ascii_email_lib =
     \<lparr>el_ToLower = map (\<lambda>c. if CHR ''A'' \<le> c \<and> c \<le> CHR ''Z'' then char_of (of_char c + 32 :: nat) else c),
      el_ParseAddress = (\<lambda>s. if CHR ''@'' \<in> set s then Some s else None)\<rparr>"

text \<open>A time of an event of the link, between its creation and its last change.\<close>

definition within :: "time \<Rightarrow> time \<Rightarrow> time option \<Rightarrow> bool" where
  "within lo hi t = (case t of None \<Rightarrow> True | Some x \<Rightarrow> lo \<le> x \<and> x \<le> hi)"

lemma within_simps [simp]: "within lo hi None" "within lo hi (Some x) \<longleftrightarrow> lo \<le> x \<and> x \<le> hi"
  by (simp_all add: within_def)

lemma within_mono: "within lo hi t \<Longrightarrow> hi \<le> hi' \<Longrightarrow> within lo hi' t"
  by (auto simp: within_def split: option.splits)

subsection \<open>The contract of a link\<close>

locale token_link = clocked_aggregate valid exec updated
  for valid :: "'s \<Rightarrow> bool" and exec :: "'op \<Rightarrow> 's \<Rightarrow> 's" and updated :: "'s \<Rightarrow> time" +
  fixes usable :: "'s \<Rightarrow> bool" and shut :: "'s \<Rightarrow> bool" and hash :: "'s \<Rightarrow> bytes"
  assumes shut_not_usable: "valid s \<Longrightarrow> shut s \<Longrightarrow> \<not> usable s"
    and exec_shut: "valid s \<Longrightarrow> shut s \<Longrightarrow> shut (exec c s)"
    and exec_shut_hash: "valid s \<Longrightarrow> shut s \<Longrightarrow> hash (exec c s) = hash s"
    and valid_hash: "valid s \<Longrightarrow> length (hash s) = 32"
begin

sublocale closes: terminal_aggregate valid exec shut
  by unfold_locales (rule exec_shut)

lemma run_not_usable: "valid s \<Longrightarrow> shut s \<Longrightarrow> \<not> usable (fold exec cs s)"
  by (rule shut_not_usable) (auto intro: run_valid closes.run_terminal)

lemma run_shut_hash: "valid s \<Longrightarrow> shut s \<Longrightarrow> hash (fold exec cs s) = hash s"
  by (induction cs arbitrary: s) (auto simp: exec_shut_hash exec_shut exec_valid)

lemma run_hash_length: "valid s \<Longrightarrow> length (hash (fold exec cs s)) = 32"
  by (blast intro: valid_hash run_valid)

end

end
