(* ===== verification/Campaign.thy ===== *)
theory Campaign
  imports Links Course_Publication
begin

section \<open>External campaigns\<close>

text \<open>
  The package \<^verbatim>\<open>services/academy/internal/domain/externalcampaign\<close> (\<^verbatim>\<open>campaign.go\<close>): a public link to
  one course version, with its token, pause, revocation and closing, and whether it may accept a
  learner given the state of the course and of the version.
\<close>

datatype campaign_owner = OwnerCompany | OwnerPartner | CampaignOwnerOther string

datatype Purpose = PurposeCompanyCandidate | PurposePartnerPromo | PurposeOther string

datatype campaign_status = Campaign_Active | Campaign_Paused | Campaign_Revoked | Campaign_Closed
  | CampaignStatusOther string

datatype Availability = AvailabilityAvailable | AvailabilityCampaignPaused
  | AvailabilityCampaignRevoked | AvailabilityCampaignClosed | AvailabilityCoursePaused
  | AvailabilityCourseBlocked | AvailabilityCourseArchived | AvailabilityCourseDeleted
  | AvailabilityVersionUnavailable

datatype campaign_error = ErrCampaignIDRequired | Campaign_ErrCompanyRequired
  | Campaign_ErrCourseRequired | Campaign_ErrCourseVersionRequired | Campaign_ErrUnknownOwnerType
  | ErrCompanyOwnerForbidden | ErrPartnerOwnerRequired | ErrUnknownPurpose | ErrOwnerPurposeMismatch
  | Campaign_ErrCreatorRequired | ErrPartnerCreatorMismatch | ErrCampaignNameRequired
  | ErrDeadlineDaysInvalid | Campaign_ErrUnknownStatus | ErrTokenHashRequired
  | ErrTokenPrefixRequired | Campaign_ErrCreatedAtRequired | ErrUpdatedAtInvalid
  | ErrPausedStateInvalid | ErrRevokedStateInvalid | ErrClosedStateInvalid
  | ErrTokenRotationInvalid | ErrCampaignAlreadyPaused | ErrCampaignNotPaused | ErrCampaignRevoked
  | ErrCampaignClosed | ErrCampaignScopeMismatch | ErrCampaignOwnerMismatch
  | ErrCampaignVersionMismatch | ErrCampaignResumeDenied
  | Campaign_CourseErr course_error | Campaign_VersionErr version_error

record campaign =
  cp_ID :: ID
  cp_CompanyID :: ID
  cp_CourseID :: ID
  cp_CourseVersionID :: ID
  cp_OwnerType :: campaign_owner
  cp_OwnerUserID :: "ID option"
  cp_Purpose :: Purpose
  cp_Name :: string
  cp_DeadlineDays :: int
  cp_Status :: campaign_status
  cp_TokenHash :: bytes
  cp_TokenPrefix :: string
  cp_CreatedByID :: ID
  cp_CreatedAt :: time
  cp_PausedAt :: "time option"
  cp_TokenRotatedAt :: "time option"
  cp_RevokedAt :: "time option"
  cp_ClosedAt :: "time option"
  cp_UpdatedAt :: time

record campaign_params =
  np_ID :: ID
  np_CompanyID :: ID
  np_CourseID :: ID
  np_CourseVersionID :: ID
  np_OwnerType :: campaign_owner
  np_OwnerUserID :: "ID option"
  np_Purpose :: Purpose
  np_Name :: string
  np_DeadlineDays :: int
  np_TokenHash :: bytes
  np_TokenPrefix :: string
  np_CreatedByID :: ID
  np_CreatedAt :: time

subsection \<open>Validation\<close>

definition campaign_validateOwner :: "campaign \<Rightarrow> campaign_error option" where
  "campaign_validateOwner value =
     (if cp_Purpose value \<noteq> PurposeCompanyCandidate \<and> cp_Purpose value \<noteq> PurposePartnerPromo
      then Some ErrUnknownPurpose
      else case cp_OwnerType value of
          OwnerCompany \<Rightarrow>
            if cp_OwnerUserID value \<noteq> None then Some ErrCompanyOwnerForbidden
            else if cp_Purpose value \<noteq> PurposeCompanyCandidate then Some ErrOwnerPurposeMismatch
            else None
        | OwnerPartner \<Rightarrow>
            if cp_OwnerUserID value = None \<or> cp_OwnerUserID value = Some ''''
              then Some ErrPartnerOwnerRequired
            else if cp_Purpose value \<noteq> PurposePartnerPromo then Some ErrOwnerPurposeMismatch
            else if Some (cp_CreatedByID value) \<noteq> cp_OwnerUserID value
              then Some ErrPartnerCreatorMismatch
            else None
        | CampaignOwnerOther _ \<Rightarrow> Some Campaign_ErrUnknownOwnerType)"

definition timestamp_error :: "campaign \<Rightarrow> time option \<Rightarrow> campaign_error option" where
  "timestamp_error value timestamp =
     (case timestamp of
        None \<Rightarrow> None
      | Some t \<Rightarrow>
          if IsZero t \<or> Before t (cp_CreatedAt value) \<or> After t (cp_UpdatedAt value)
          then Some ErrUpdatedAtInvalid else None)"

definition campaign_validateTimes :: "campaign \<Rightarrow> campaign_error option" where
  "campaign_validateTimes value =
     and_then
       (first_error (timestamp_error value)
          [cp_PausedAt value, cp_TokenRotatedAt value, cp_RevokedAt value, cp_ClosedAt value])
       (case (cp_RevokedAt value, cp_ClosedAt value) of
          (Some revoked, Some closed) \<Rightarrow>
            if Before closed revoked then Some ErrClosedStateInvalid else None
        | _ \<Rightarrow> None)"

definition campaign_validateStatus :: "campaign \<Rightarrow> campaign_error option" where
  "campaign_validateStatus value =
     (case cp_Status value of
        Campaign_Active \<Rightarrow>
          if cp_PausedAt value \<noteq> None \<or> cp_RevokedAt value \<noteq> None \<or> cp_ClosedAt value \<noteq> None
          then Some ErrPausedStateInvalid else None
      | Campaign_Paused \<Rightarrow>
          if cp_PausedAt value = None \<or> cp_RevokedAt value \<noteq> None \<or> cp_ClosedAt value \<noteq> None
          then Some ErrPausedStateInvalid else None
      | Campaign_Revoked \<Rightarrow>
          if cp_PausedAt value \<noteq> None \<or> cp_RevokedAt value = None \<or> cp_ClosedAt value \<noteq> None
          then Some ErrRevokedStateInvalid else None
      | Campaign_Closed \<Rightarrow>
          if cp_PausedAt value \<noteq> None \<or> cp_ClosedAt value = None
          then Some ErrClosedStateInvalid else None
      | CampaignStatusOther _ \<Rightarrow> Some Campaign_ErrUnknownStatus)"

definition campaign_validateSnapshot :: "campaign \<Rightarrow> campaign_error option" where
  "campaign_validateSnapshot value =
     (if cp_ID value = '''' then Some ErrCampaignIDRequired
      else if cp_CompanyID value = '''' then Some Campaign_ErrCompanyRequired
      else if cp_CourseID value = '''' then Some Campaign_ErrCourseRequired
      else if cp_CourseVersionID value = '''' then Some Campaign_ErrCourseVersionRequired
      else if TrimSpace (cp_Name value) = '''' then Some ErrCampaignNameRequired
      else if cp_DeadlineDays value < MinDeadlineDays \<or> cp_DeadlineDays value > MaxDeadlineDays
        then Some ErrDeadlineDaysInvalid
      else if length (cp_TokenHash value) \<noteq> 32 then Some ErrTokenHashRequired
      else if \<not> tokenPrefixPattern (cp_TokenPrefix value) then Some ErrTokenPrefixRequired
      else if cp_CreatedByID value = '''' then Some Campaign_ErrCreatorRequired
      else if IsZero (cp_CreatedAt value) then Some Campaign_ErrCreatedAtRequired
      else if IsZero (cp_UpdatedAt value) \<or> Before (cp_UpdatedAt value) (cp_CreatedAt value)
        then Some ErrUpdatedAtInvalid
      else and_then (campaign_validateOwner value)
        (and_then (campaign_validateTimes value) (campaign_validateStatus value)))"

subsection \<open>Construction\<close>

definition campaign_clone :: "campaign \<Rightarrow> campaign" where
  "campaign_clone value =
     value\<lparr>cp_OwnerUserID := copy_ptr (cp_OwnerUserID value), cp_TokenHash := [] @ cp_TokenHash value,
       cp_PausedAt := copy_ptr (cp_PausedAt value),
       cp_TokenRotatedAt := copy_ptr (cp_TokenRotatedAt value),
       cp_RevokedAt := copy_ptr (cp_RevokedAt value), cp_ClosedAt := copy_ptr (cp_ClosedAt value)\<rparr>"

definition campaign_canonicalizeTimes :: "campaign \<Rightarrow> campaign" where
  "campaign_canonicalizeTimes value =
     value\<lparr>cp_CreatedAt := UTC (cp_CreatedAt value), cp_UpdatedAt := UTC (cp_UpdatedAt value),
       cp_PausedAt := utc_ptr (cp_PausedAt value),
       cp_TokenRotatedAt := utc_ptr (cp_TokenRotatedAt value),
       cp_RevokedAt := utc_ptr (cp_RevokedAt value), cp_ClosedAt := utc_ptr (cp_ClosedAt value)\<rparr>"

definition Campaign_Rehydrate :: "campaign \<Rightarrow> campaign_error + campaign" where
  "Campaign_Rehydrate snapshot =
     (let value = campaign_clone snapshot;
          value = value\<lparr>cp_Name := TrimSpace (cp_Name value)\<rparr>;
          value = campaign_canonicalizeTimes value
      in case campaign_validateSnapshot value of Some err \<Rightarrow> Inl err | None \<Rightarrow> Inr value)"

definition Campaign_Validate :: "campaign \<Rightarrow> campaign_error option" where
  "Campaign_Validate s = (case Campaign_Rehydrate s of Inl err \<Rightarrow> Some err | Inr _ \<Rightarrow> None)"

definition Campaign_New :: "campaign_params \<Rightarrow> campaign_error + campaign" where
  "Campaign_New params =
     Campaign_Rehydrate
       \<lparr>cp_ID = np_ID params, cp_CompanyID = np_CompanyID params, cp_CourseID = np_CourseID params,
        cp_CourseVersionID = np_CourseVersionID params, cp_OwnerType = np_OwnerType params,
        cp_OwnerUserID = copy_ptr (np_OwnerUserID params), cp_Purpose = np_Purpose params,
        cp_Name = TrimSpace (np_Name params), cp_DeadlineDays = np_DeadlineDays params,
        cp_Status = Campaign_Active, cp_TokenHash = [] @ np_TokenHash params,
        cp_TokenPrefix = np_TokenPrefix params, cp_CreatedByID = np_CreatedByID params,
        cp_CreatedAt = UTC (np_CreatedAt params), cp_PausedAt = None, cp_TokenRotatedAt = None,
        cp_RevokedAt = None, cp_ClosedAt = None, cp_UpdatedAt = UTC (np_CreatedAt params)\<rparr>"

subsection \<open>Tokens and transitions\<close>

definition constantTimeEqual :: "bytes \<Rightarrow> bytes \<Rightarrow> bool" where
  "constantTimeEqual left right \<longleftrightarrow>
     \<not> (length left \<noteq> length right \<or> length left = 0) \<and> ConstantTimeCompare left right"

definition Campaign_MatchesTokenHash :: "campaign option \<Rightarrow> bytes \<Rightarrow> bool" where
  "Campaign_MatchesTokenHash p candidate =
     (case p of None \<Rightarrow> False | Some c \<Rightarrow> constantTimeEqual (cp_TokenHash c) candidate)"

definition Campaign_TokenUsable :: "campaign option \<Rightarrow> bool" where
  "Campaign_TokenUsable p = (case p of None \<Rightarrow> False | Some c \<Rightarrow> cp_Status c = Campaign_Active)"

definition campaign_validateTransition :: "campaign \<Rightarrow> time \<Rightarrow> campaign_error option" where
  "campaign_validateTransition c at =
     (if IsZero at \<or> Before at (cp_UpdatedAt c) then Some ErrUpdatedAtInvalid else None)"

definition campaign_ensureMutable :: "campaign \<Rightarrow> campaign_error option" where
  "campaign_ensureMutable c =
     (case cp_Status c of
        Campaign_Active \<Rightarrow> None
      | Campaign_Paused \<Rightarrow> None
      | Campaign_Revoked \<Rightarrow> Some ErrCampaignRevoked
      | Campaign_Closed \<Rightarrow> Some ErrCampaignClosed
      | CampaignStatusOther _ \<Rightarrow> Some Campaign_ErrUnknownStatus)"

definition Campaign_Pause :: "campaign \<Rightarrow> time \<Rightarrow> campaign \<times> campaign_error option" where
  "Campaign_Pause c at =
     (case cp_Status c of
        Campaign_Paused \<Rightarrow> (c, Some ErrCampaignAlreadyPaused)
      | Campaign_Revoked \<Rightarrow> (c, Some ErrCampaignRevoked)
      | Campaign_Closed \<Rightarrow> (c, Some ErrCampaignClosed)
      | CampaignStatusOther _ \<Rightarrow> (c, Some Campaign_ErrUnknownStatus)
      | Campaign_Active \<Rightarrow>
         (case campaign_validateTransition c at of
            Some err \<Rightarrow> (c, Some err)
          | None \<Rightarrow> (c\<lparr>cp_Status := Campaign_Paused, cp_PausedAt := Some (UTC at),
                       cp_UpdatedAt := UTC at\<rparr>, None)))"

definition campaign_validateContext ::
  "campaign \<Rightarrow> course \<Rightarrow> course_version \<Rightarrow> campaign_error option" where
  "campaign_validateContext c root version =
     and_then (map_option Campaign_CourseErr (Course_Validate root))
      (and_then
        (case Version_Rehydrate version of Inl err \<Rightarrow> Some (Campaign_VersionErr err) | Inr _ \<Rightarrow> None)
        (if crs_CompanyID root \<noteq> cp_CompanyID c \<or> crs_ID root \<noteq> cp_CourseID c
         then Some ErrCampaignScopeMismatch
         else and_then
           (case cp_OwnerType c of
              OwnerCompany \<Rightarrow>
                if crs_OwnerType root \<noteq> CourseOwnerCompany then Some ErrCampaignOwnerMismatch else None
            | OwnerPartner \<Rightarrow>
                if crs_OwnerType root \<noteq> CourseOwnerPartner \<or> crs_OwnerUserID root = None \<or>
                   crs_OwnerUserID root \<noteq> cp_OwnerUserID c
                then Some ErrCampaignOwnerMismatch else None
            | CampaignOwnerOther _ \<Rightarrow> Some Campaign_ErrUnknownOwnerType)
           (if vn_CompanyID version \<noteq> cp_CompanyID c \<or> vn_CourseID version \<noteq> cp_CourseID c \<or>
               vn_ID version \<noteq> cp_CourseVersionID c
            then Some ErrCampaignVersionMismatch else None)))"

definition EffectiveAvailability ::
  "campaign \<Rightarrow> course \<Rightarrow> course_version \<Rightarrow> campaign_error + Availability" where
  "EffectiveAvailability c root version =
     (case campaign_validateContext c root version of
        Some err \<Rightarrow> Inl err
      | None \<Rightarrow>
          Inr (if crs_LifecycleStatus root = CourseDeleted then AvailabilityCourseDeleted
               else if cp_Status c = Campaign_Closed then AvailabilityCampaignClosed
               else if crs_DistributionStatus root = DistributionBlocked then AvailabilityCourseBlocked
               else if crs_LifecycleStatus root = CourseArchived then AvailabilityCourseArchived
               else if cp_Status c = Campaign_Revoked then AvailabilityCampaignRevoked
               else if crs_DistributionStatus root = DistributionPaused then AvailabilityCoursePaused
               else if cp_Status c = Campaign_Paused then AvailabilityCampaignPaused
               else if vn_Status version \<noteq> StatusPublished then AvailabilityVersionUnavailable
               else AvailabilityAvailable))"

definition CanAcceptLearner :: "campaign \<Rightarrow> course \<Rightarrow> course_version \<Rightarrow> bool" where
  "CanAcceptLearner c root version \<longleftrightarrow>
     EffectiveAvailability c root version = Inr AvailabilityAvailable"

definition resumeAllowed :: "campaign \<Rightarrow> course \<Rightarrow> course_version \<Rightarrow> campaign_error option" where
  "resumeAllowed c root version =
     (case EffectiveAvailability c root version of
        Inl err \<Rightarrow> Some err
      | Inr availability \<Rightarrow>
          if (availability = AvailabilityCampaignPaused \<or> availability = AvailabilityCoursePaused) \<and>
             vn_Status version = StatusPublished \<and> crs_LifecycleStatus root = CourseActive \<and>
             crs_DistributionStatus root \<noteq> DistributionBlocked
          then None else Some ErrCampaignResumeDenied)"

definition Campaign_Resume ::
  "campaign \<Rightarrow> course \<Rightarrow> course_version \<Rightarrow> time \<Rightarrow> campaign \<times> campaign_error option" where
  "Campaign_Resume c root version at =
     (case cp_Status c of
        Campaign_Active \<Rightarrow> (c, Some ErrCampaignNotPaused)
      | Campaign_Revoked \<Rightarrow> (c, Some ErrCampaignRevoked)
      | Campaign_Closed \<Rightarrow> (c, Some ErrCampaignClosed)
      | CampaignStatusOther _ \<Rightarrow> (c, Some Campaign_ErrUnknownStatus)
      | Campaign_Paused \<Rightarrow>
         (case and_then (resumeAllowed c root version) (campaign_validateTransition c at) of
            Some err \<Rightarrow> (c, Some err)
          | None \<Rightarrow> (c\<lparr>cp_Status := Campaign_Active, cp_PausedAt := None, cp_UpdatedAt := UTC at\<rparr>,
                      None)))"

definition Campaign_RotateToken ::
  "campaign \<Rightarrow> bytes \<Rightarrow> string \<Rightarrow> time \<Rightarrow> campaign \<times> campaign_error option" where
  "Campaign_RotateToken c tokenHash tokenPrefix at =
     (case campaign_ensureMutable c of
        Some err \<Rightarrow> (c, Some err)
      | None \<Rightarrow>
          if length tokenHash \<noteq> 32 \<or> \<not> tokenPrefixPattern tokenPrefix \<or>
             constantTimeEqual (cp_TokenHash c) tokenHash
          then (c, Some ErrTokenRotationInvalid)
          else case campaign_validateTransition c at of
            Some err \<Rightarrow> (c, Some err)
          | None \<Rightarrow> (c\<lparr>cp_TokenHash := [] @ tokenHash, cp_TokenPrefix := tokenPrefix,
                       cp_TokenRotatedAt := Some (UTC at), cp_UpdatedAt := UTC at\<rparr>, None))"

definition Campaign_Revoke :: "campaign \<Rightarrow> time \<Rightarrow> campaign \<times> campaign_error option" where
  "Campaign_Revoke c at =
     (if cp_Status c = Campaign_Revoked then (c, None)
      else if cp_Status c = Campaign_Closed then (c, Some ErrCampaignClosed)
      else case campaign_validateTransition c at of
        Some err \<Rightarrow> (c, Some err)
      | None \<Rightarrow> (c\<lparr>cp_Status := Campaign_Revoked, cp_PausedAt := None, cp_RevokedAt := Some (UTC at),
                   cp_UpdatedAt := UTC at\<rparr>, None))"

definition Campaign_Close :: "campaign \<Rightarrow> time \<Rightarrow> campaign \<times> campaign_error option" where
  "Campaign_Close c at =
     (if cp_Status c = Campaign_Closed then (c, None)
      else case campaign_validateTransition c at of
        Some err \<Rightarrow> (c, Some err)
      | None \<Rightarrow> (c\<lparr>cp_Status := Campaign_Closed, cp_PausedAt := None, cp_ClosedAt := Some (UTC at),
                   cp_UpdatedAt := UTC at\<rparr>, None))"

text \<open>The methods on a nil receiver.\<close>

definition campaign_ptr ::
  "(campaign \<Rightarrow> campaign \<times> campaign_error option) \<Rightarrow> campaign option \<Rightarrow>
     campaign option \<times> campaign_error option" where
  "campaign_ptr method p =
     (case p of None \<Rightarrow> (None, Some ErrCampaignIDRequired) | Some c \<Rightarrow> map_prod Some id (method c))"

subsection \<open>What a stored campaign satisfies\<close>

text \<open>The part of the validation no command touches, and the validation as a whole.\<close>

definition campaign_static_ok :: "campaign \<Rightarrow> bool" where
  "campaign_static_ok c \<longleftrightarrow>
     cp_ID c \<noteq> '''' \<and> cp_CompanyID c \<noteq> '''' \<and> cp_CourseID c \<noteq> '''' \<and> cp_CourseVersionID c \<noteq> '''' \<and>
     TrimSpace (cp_Name c) \<noteq> '''' \<and> 1 \<le> cp_DeadlineDays c \<and> cp_DeadlineDays c \<le> 7 \<and>
     cp_CreatedByID c \<noteq> '''' \<and> cp_CreatedAt c \<noteq> 0 \<and> campaign_validateOwner c = None"

definition campaign_times_ok :: "campaign \<Rightarrow> bool" where
  "campaign_times_ok c \<longleftrightarrow>
     cp_UpdatedAt c \<noteq> 0 \<and> cp_CreatedAt c \<le> cp_UpdatedAt c \<and>
     (\<forall>t\<in>{cp_PausedAt c, cp_TokenRotatedAt c, cp_RevokedAt c, cp_ClosedAt c}.
        t \<noteq> Some 0 \<and> within (cp_CreatedAt c) (cp_UpdatedAt c) t) \<and>
     (\<forall>r k. cp_RevokedAt c = Some r \<longrightarrow> cp_ClosedAt c = Some k \<longrightarrow> r \<le> k)"

definition campaign_status_ok :: "campaign \<Rightarrow> bool" where
  "campaign_status_ok c \<longleftrightarrow>
     (cp_PausedAt c \<noteq> None \<longleftrightarrow> cp_Status c = Campaign_Paused) \<and>
     (cp_ClosedAt c \<noteq> None \<longleftrightarrow> cp_Status c = Campaign_Closed) \<and>
     (cp_Status c = Campaign_Revoked \<longrightarrow> cp_RevokedAt c \<noteq> None) \<and>
     (cp_RevokedAt c \<noteq> None \<longrightarrow> cp_Status c = Campaign_Revoked \<or> cp_Status c = Campaign_Closed) \<and>
     (\<forall>s. cp_Status c \<noteq> CampaignStatusOther s)"

lemma campaign_validateStatus_None [valid_iff]:
  "campaign_validateStatus c = None \<longleftrightarrow> campaign_status_ok c"
  by (cases "cp_Status c") (auto simp: campaign_validateStatus_def campaign_status_ok_def)

lemma campaign_validateOwner_None:
  "campaign_validateOwner c = None \<longleftrightarrow>
     cp_OwnerType c = OwnerCompany \<and> cp_OwnerUserID c = None \<and> cp_Purpose c = PurposeCompanyCandidate \<or>
     cp_OwnerType c = OwnerPartner \<and> cp_Purpose c = PurposePartnerPromo \<and>
       cp_OwnerUserID c = Some (cp_CreatedByID c) \<and> cp_CreatedByID c \<noteq> ''''"
  by (cases "cp_OwnerType c") (auto simp: campaign_validateOwner_def)

lemma timestamp_error_None [valid_iff]:
  "timestamp_error c t = None \<longleftrightarrow> t \<noteq> Some 0 \<and> within (cp_CreatedAt c) (cp_UpdatedAt c) t"
  by (auto simp: timestamp_error_def split: option.splits)

lemma campaign_validateTimes_None [valid_iff]:
  "campaign_validateTimes c = None \<longleftrightarrow>
     (\<forall>t\<in>{cp_PausedAt c, cp_TokenRotatedAt c, cp_RevokedAt c, cp_ClosedAt c}.
        t \<noteq> Some 0 \<and> within (cp_CreatedAt c) (cp_UpdatedAt c) t) \<and>
     (\<forall>r k. cp_RevokedAt c = Some r \<longrightarrow> cp_ClosedAt c = Some k \<longrightarrow> r \<le> k)"
  by (auto simp: campaign_validateTimes_def timestamp_error_None split: option.splits)

lemma campaign_validateSnapshot_None [valid_iff]:
  "campaign_validateSnapshot c = None \<longleftrightarrow>
     campaign_static_ok c \<and> length (cp_TokenHash c) = 32 \<and> tokenPrefixPattern (cp_TokenPrefix c) \<and>
     campaign_times_ok c \<and> campaign_status_ok c"
  by (auto simp: campaign_validateSnapshot_def campaign_static_ok_def campaign_times_ok_def valid_iff
      MinDeadlineDays_def MaxDeadlineDays_def not_less)

definition campaign_valid :: "campaign \<Rightarrow> bool" where
  "campaign_valid c \<longleftrightarrow> TrimSpace (cp_Name c) = cp_Name c \<and> campaign_validateSnapshot c = None"

lemma campaign_clone_id [simp]: "campaign_clone c = c" "campaign_canonicalizeTimes c = c"
  by (simp_all add: campaign_clone_def campaign_canonicalizeTimes_def)

lemma Campaign_Rehydrate_iff:
  "Campaign_Rehydrate s = Inr c \<longleftrightarrow>
     c = s\<lparr>cp_Name := TrimSpace (cp_Name s)\<rparr> \<and> campaign_validateSnapshot c = None"
  by (auto simp: Campaign_Rehydrate_def Let_def split: option.splits)

lemma Campaign_Rehydrate_valid: "Campaign_Rehydrate s = Inr c \<Longrightarrow> campaign_valid c"
  by (auto simp: Campaign_Rehydrate_iff campaign_valid_def)

lemma campaign_valid_rehydrates: "campaign_valid c \<Longrightarrow> Campaign_Rehydrate c = Inr c"
  by (simp add: campaign_valid_def Campaign_Rehydrate_iff)

subsection \<open>Commands\<close>

datatype campaign_cmd = Cmd_Pause time | Cmd_Resume course course_version time
  | Cmd_Rotate bytes string time | Cmd_Revoke time | Cmd_Close time

fun exec_campaign :: "campaign_cmd \<Rightarrow> campaign \<Rightarrow> campaign" where
  "exec_campaign (Cmd_Pause at) c = fst (Campaign_Pause c at)"
| "exec_campaign (Cmd_Resume root version at) c = fst (Campaign_Resume c root version at)"
| "exec_campaign (Cmd_Rotate h p at) c = fst (Campaign_RotateToken c h p at)"
| "exec_campaign (Cmd_Revoke at) c = fst (Campaign_Revoke c at)"
| "exec_campaign (Cmd_Close at) c = fst (Campaign_Close c at)"

text \<open>Every command either leaves the campaign alone or makes one of five changes, all of them at a
  time that is not before the last change.\<close>

inductive campaign_step :: "campaign \<Rightarrow> campaign \<Rightarrow> bool" where
  pause: "cp_Status c = Campaign_Active \<Longrightarrow> at \<noteq> 0 \<Longrightarrow> cp_UpdatedAt c \<le> at \<Longrightarrow>
    campaign_step c (c\<lparr>cp_Status := Campaign_Paused, cp_PausedAt := Some at, cp_UpdatedAt := at\<rparr>)"
| resume: "cp_Status c = Campaign_Paused \<Longrightarrow> at \<noteq> 0 \<Longrightarrow> cp_UpdatedAt c \<le> at \<Longrightarrow>
    campaign_step c (c\<lparr>cp_Status := Campaign_Active, cp_PausedAt := None, cp_UpdatedAt := at\<rparr>)"
| rotate: "cp_Status c = Campaign_Active \<or> cp_Status c = Campaign_Paused \<Longrightarrow> at \<noteq> 0 \<Longrightarrow>
    cp_UpdatedAt c \<le> at \<Longrightarrow> length h = 32 \<Longrightarrow> tokenPrefixPattern p \<Longrightarrow> h \<noteq> cp_TokenHash c \<Longrightarrow>
    campaign_step c (c\<lparr>cp_TokenHash := h, cp_TokenPrefix := p, cp_TokenRotatedAt := Some at,
      cp_UpdatedAt := at\<rparr>)"
| revoke: "cp_Status c \<noteq> Campaign_Revoked \<Longrightarrow> cp_Status c \<noteq> Campaign_Closed \<Longrightarrow> at \<noteq> 0 \<Longrightarrow>
    cp_UpdatedAt c \<le> at \<Longrightarrow>
    campaign_step c (c\<lparr>cp_Status := Campaign_Revoked, cp_PausedAt := None, cp_RevokedAt := Some at,
      cp_UpdatedAt := at\<rparr>)"
| close: "cp_Status c \<noteq> Campaign_Closed \<Longrightarrow> at \<noteq> 0 \<Longrightarrow> cp_UpdatedAt c \<le> at \<Longrightarrow>
    campaign_step c (c\<lparr>cp_Status := Campaign_Closed, cp_PausedAt := None, cp_ClosedAt := Some at,
      cp_UpdatedAt := at\<rparr>)"

lemma campaign_transition_None [simp]:
  "campaign_validateTransition c at = None \<longleftrightarrow> at \<noteq> 0 \<and> cp_UpdatedAt c \<le> at"
  by (auto simp: campaign_validateTransition_def)

lemma campaign_mutable_None [simp]:
  "campaign_ensureMutable c = None \<longleftrightarrow> cp_Status c = Campaign_Active \<or> cp_Status c = Campaign_Paused"
  by (cases "cp_Status c") (auto simp: campaign_ensureMutable_def)

lemma constantTimeEqual_iff: "constantTimeEqual a b \<longleftrightarrow> a = b \<and> a \<noteq> []"
  by (auto simp: constantTimeEqual_def ConstantTimeCompare_def)

lemma exec_campaign_cases: "exec_campaign cmd c = c \<or> campaign_step c (exec_campaign cmd c)"
proof (cases cmd)
  case (Cmd_Pause at)
  then show ?thesis
    by (cases "cp_Status c") (auto simp: Campaign_Pause_def split: option.splits intro: campaign_step.pause)
next
  case (Cmd_Resume root version at)
  then show ?thesis
    by (cases "cp_Status c")
      (auto simp: Campaign_Resume_def split: option.splits intro: campaign_step.resume)
next
  case (Cmd_Rotate h p at)
  then show ?thesis
    by (auto simp: Campaign_RotateToken_def constantTimeEqual_iff split: option.splits
        intro: campaign_step.rotate)
next
  case (Cmd_Revoke at)
  then show ?thesis
    by (auto simp: Campaign_Revoke_def split: option.splits intro: campaign_step.revoke)
next
  case (Cmd_Close at)
  then show ?thesis
    by (auto simp: Campaign_Close_def split: option.splits intro: campaign_step.close)
qed

lemma campaign_static_update:
  "campaign_static_ok (c\<lparr>cp_Status := s, cp_PausedAt := pa, cp_UpdatedAt := u\<rparr>) = campaign_static_ok c"
  "campaign_static_ok (c\<lparr>cp_Status := s, cp_PausedAt := pa, cp_RevokedAt := ra, cp_UpdatedAt := u\<rparr>) =
     campaign_static_ok c"
  "campaign_static_ok (c\<lparr>cp_Status := s, cp_PausedAt := pa, cp_ClosedAt := ca, cp_UpdatedAt := u\<rparr>) =
     campaign_static_ok c"
  "campaign_static_ok (c\<lparr>cp_TokenHash := h, cp_TokenPrefix := p, cp_TokenRotatedAt := ta, cp_UpdatedAt := u\<rparr>) =
     campaign_static_ok c"
  by (simp_all add: campaign_static_ok_def campaign_validateOwner_None)

lemma campaign_times_update:
  assumes "campaign_times_ok c" "cp_UpdatedAt c \<le> u" "u \<noteq> 0"
  shows "campaign_times_ok (c\<lparr>cp_Status := s, cp_PausedAt := Some u, cp_UpdatedAt := u\<rparr>)"
    "campaign_times_ok (c\<lparr>cp_Status := s, cp_PausedAt := None, cp_UpdatedAt := u\<rparr>)"
    "cp_ClosedAt c = None \<Longrightarrow> campaign_times_ok (c\<lparr>cp_Status := s, cp_PausedAt := None,
       cp_RevokedAt := Some u, cp_UpdatedAt := u\<rparr>)"
    "campaign_times_ok (c\<lparr>cp_Status := s, cp_PausedAt := None, cp_ClosedAt := Some u, cp_UpdatedAt := u\<rparr>)"
    "campaign_times_ok (c\<lparr>cp_TokenHash := h, cp_TokenPrefix := p, cp_TokenRotatedAt := Some u,
       cp_UpdatedAt := u\<rparr>)"
  using assms by (auto simp: campaign_times_ok_def intro: within_mono)

lemma campaign_step_valid: "campaign_step c d \<Longrightarrow> campaign_valid c \<Longrightarrow> campaign_valid d"
  by (induction rule: campaign_step.induct)
    (auto simp: campaign_valid_def valid_iff campaign_static_update campaign_times_update
      campaign_status_ok_def)

lemma exec_campaign_valid: "campaign_valid c \<Longrightarrow> campaign_valid (exec_campaign cmd c)"
  using exec_campaign_cases[of cmd c] campaign_step_valid by metis


definition campaign_identity :: "campaign \<Rightarrow> campaign" where
  "campaign_identity c =
     c\<lparr>cp_Status := Campaign_Active, cp_TokenHash := [], cp_TokenPrefix := '''', cp_PausedAt := None,
       cp_TokenRotatedAt := None, cp_RevokedAt := None, cp_ClosedAt := None, cp_UpdatedAt := 0\<rparr>"

definition campaign_shut :: "campaign \<Rightarrow> bool" where
  "campaign_shut c \<longleftrightarrow> cp_Status c = Campaign_Revoked \<or> cp_Status c = Campaign_Closed"

lemma campaign_step_identity: "campaign_step c d \<Longrightarrow> campaign_identity d = campaign_identity c"
  by (induction rule: campaign_step.induct) (simp_all add: campaign_identity_def)

lemma campaign_step_clock: "campaign_step c d \<Longrightarrow> cp_UpdatedAt c \<le> cp_UpdatedAt d"
  by (induction rule: campaign_step.induct) simp_all

lemma campaign_step_shut:
  "campaign_step c d \<Longrightarrow> campaign_shut c \<Longrightarrow> campaign_shut d \<and> cp_TokenHash d = cp_TokenHash c"
  by (induction rule: campaign_step.induct) (auto simp: campaign_shut_def)

interpretation campaign_pin: pinned_aggregate campaign_valid exec_campaign campaign_identity
proof
  fix c cmd assume "campaign_valid c"
  then show "campaign_valid (exec_campaign cmd c)" by (rule exec_campaign_valid)
  show "campaign_identity (exec_campaign cmd c) = campaign_identity c"
    using exec_campaign_cases[of cmd c] campaign_step_identity by metis
qed

interpretation campaign_link: token_link campaign_valid exec_campaign cp_UpdatedAt
  "\<lambda>c. Campaign_TokenUsable (Some c)" campaign_shut cp_TokenHash
proof
  fix c cmd assume valid: "campaign_valid c"
  show "cp_UpdatedAt c \<le> cp_UpdatedAt (exec_campaign cmd c)"
    using exec_campaign_cases[of cmd c] campaign_step_clock by fastforce
  show "length (cp_TokenHash c) = 32" using valid by (simp add: campaign_valid_def valid_iff)
  assume shut: "campaign_shut c"
  then show "\<not> Campaign_TokenUsable (Some c)" by (auto simp: campaign_shut_def Campaign_TokenUsable_def)
  show "campaign_shut (exec_campaign cmd c)" "cp_TokenHash (exec_campaign cmd c) = cp_TokenHash c"
    using exec_campaign_cases[of cmd c] campaign_step_shut shut by metis+
qed

subsection \<open>When a campaign takes a learner\<close>

definition campaign_context_ok :: "campaign \<Rightarrow> course \<Rightarrow> course_version \<Rightarrow> bool" where
  "campaign_context_ok c root version \<longleftrightarrow>
     Course_Validate root = None \<and> validateVersion version = None \<and>
     crs_CompanyID root = cp_CompanyID c \<and> crs_ID root = cp_CourseID c \<and>
     (cp_OwnerType c = OwnerCompany \<and> crs_OwnerType root = CourseOwnerCompany \<or>
      cp_OwnerType c = OwnerPartner \<and> crs_OwnerType root = CourseOwnerPartner \<and>
        (\<exists>u. crs_OwnerUserID root = Some u \<and> cp_OwnerUserID c = Some u)) \<and>
     vn_CompanyID version = cp_CompanyID c \<and> vn_CourseID version = cp_CourseID c \<and>
     vn_ID version = cp_CourseVersionID c"

lemma campaign_validateContext_None [valid_iff]:
  "campaign_validateContext c root version = None \<longleftrightarrow> campaign_context_ok c root version"
  by (cases "cp_OwnerType c"; cases "cp_OwnerUserID c")
    (auto simp: campaign_validateContext_def campaign_context_ok_def Version_Rehydrate_def
      split: option.splits sum.splits)


lemma EffectiveAvailability_available:
  assumes "campaign_context_ok c root version"
  shows "EffectiveAvailability c root version = Inr AvailabilityAvailable \<longleftrightarrow>
     cp_Status c \<notin> {Campaign_Closed, Campaign_Revoked, Campaign_Paused} \<and>
     crs_LifecycleStatus root = CourseActive \<and> crs_DistributionStatus root = DistributionActive \<and>
     vn_Status version = StatusPublished"
proof -
  have "crs_LifecycleStatus root \<in> {CourseActive, CourseArchived, CourseDeleted}"
    "crs_DistributionStatus root \<in> {DistributionActive, DistributionPaused, DistributionBlocked}"
    using assms by (auto simp: campaign_context_ok_def Course_Validate_def
        split: LifecycleStatus.splits DistributionStatus.splits if_splits)
  then show ?thesis
    using assms by (auto simp: EffectiveAvailability_def valid_iff[THEN iffD2])
qed

subsection \<open>Properties\<close>

definition example_campaign_params :: campaign_params where
  "example_campaign_params =
     \<lparr>np_ID = ''p1'', np_CompanyID = ''company'', np_CourseID = ''course'', np_CourseVersionID = ''v1'',
      np_OwnerType = OwnerPartner, np_OwnerUserID = Some ''partner'', np_Purpose = PurposePartnerPromo,
      np_Name = '' Spring '', np_DeadlineDays = 5, np_TokenHash = replicate 32 1,
      np_TokenPrefix = ''abc_-9'', np_CreatedByID = ''partner'', np_CreatedAt = 10\<rparr>"

definition example_campaign :: campaign where
  "example_campaign =
     \<lparr>cp_ID = ''p1'', cp_CompanyID = ''company'', cp_CourseID = ''course'', cp_CourseVersionID = ''v1'',
      cp_OwnerType = OwnerPartner, cp_OwnerUserID = Some ''partner'', cp_Purpose = PurposePartnerPromo,
      cp_Name = ''Spring'', cp_DeadlineDays = 5, cp_Status = Campaign_Active,
      cp_TokenHash = replicate 32 1, cp_TokenPrefix = ''abc_-9'', cp_CreatedByID = ''partner'',
      cp_CreatedAt = 10, cp_PausedAt = None, cp_TokenRotatedAt = None, cp_RevokedAt = None,
      cp_ClosedAt = None, cp_UpdatedAt = 10\<rparr>"

lemma example_campaign_new: "Campaign_New example_campaign_params = Inr example_campaign"
  by code_simp

lemma example_campaign_valid: "campaign_valid example_campaign"
  using example_campaign_new by (auto simp: Campaign_New_def intro: Campaign_Rehydrate_valid)

text \<open>Whatever sequence of pauses, resumptions, token rotations, revocations and closings a new
  campaign goes through, successful or refused, the stored snapshot passes the full validation
  and is loaded back unchanged; it stays bound to the course version, the owner, the name and
  the deadline it was created with, and its last change is never before its creation.\<close>

theorem campaign_run_rehydrates:
  assumes "Campaign_New params = Inr c" "d = fold exec_campaign cmds c"
  shows "Campaign_Rehydrate d = Inr d \<and> campaign_identity d = campaign_identity c \<and>
    cp_CourseVersionID d = np_CourseVersionID params \<and> cp_DeadlineDays d = np_DeadlineDays params \<and>
    cp_Name d = TrimSpace (np_Name params) \<and> np_CreatedAt params \<le> cp_UpdatedAt d"
proof -
  from assms(1) have valid: "campaign_valid c" and c: "cp_CourseVersionID c = np_CourseVersionID params"
    "cp_DeadlineDays c = np_DeadlineDays params" "cp_Name c = TrimSpace (np_Name params)"
    "cp_UpdatedAt c = np_CreatedAt params"
    by (auto simp: Campaign_New_def Campaign_Rehydrate_iff campaign_valid_def)
  have "campaign_identity d = campaign_identity c"
    using campaign_pin.run_pin[OF valid] assms(2) by simp
  moreover from this have "cp_CourseVersionID d = cp_CourseVersionID c" "cp_DeadlineDays d = cp_DeadlineDays c"
    "cp_Name d = cp_Name c"
    by (auto simp: campaign_identity_def dest!: arg_cong[of _ _ "\<lambda>x. (cp_CourseVersionID x, cp_DeadlineDays x, cp_Name x)"])
  moreover have "campaign_valid d" "cp_UpdatedAt c \<le> cp_UpdatedAt d"
    using campaign_pin.run_valid[OF valid] campaign_link.grows.run_below[OF valid] assms(2) by simp_all
  ultimately show ?thesis using c by (simp add: campaign_valid_rehydrates)
qed

theorem campaign_run_rehydrates_witness:
  "Campaign_Rehydrate (fold exec_campaign [Cmd_Pause 11, Cmd_Rotate (replicate 32 2) ''new-token'' 12,
     Cmd_Revoke 5, Cmd_Close 13] example_campaign) =
   Inr (fold exec_campaign [Cmd_Pause 11, Cmd_Rotate (replicate 32 2) ''new-token'' 12,
     Cmd_Revoke 5, Cmd_Close 13] example_campaign)"
  using campaign_run_rehydrates[OF example_campaign_new refl] by blast

text \<open>A campaign takes a learner exactly when the course and the version are valid and the ones it
  was issued for, in its company and with its owner, the campaign is active, the course is
  neither archived nor deleted, paused or blocked, and the version is published.\<close>

theorem CanAcceptLearner_iff:
  assumes "campaign_valid c"
  shows "CanAcceptLearner c root version \<longleftrightarrow>
    campaign_context_ok c root version \<and> cp_Status c = Campaign_Active \<and>
    crs_LifecycleStatus root = CourseActive \<and> crs_DistributionStatus root = DistributionActive \<and>
    vn_Status version = StatusPublished"
proof -
  have "cp_Status c = Campaign_Active \<longleftrightarrow>
      cp_Status c \<notin> {Campaign_Closed, Campaign_Revoked, Campaign_Paused}"
    using assms by (cases "cp_Status c") (auto simp: campaign_valid_def valid_iff campaign_status_ok_def)
  moreover have "\<not> CanAcceptLearner c root version" if "\<not> campaign_context_ok c root version"
    using that by (auto simp: CanAcceptLearner_def EffectiveAvailability_def
        campaign_validateContext_None[symmetric])
  ultimately show ?thesis
    using EffectiveAvailability_available[of c root version] unfolding CanAcceptLearner_def by auto
qed

theorem CanAcceptLearner_iff_witness:
  "campaign_context_ok example_campaign example_course (fst example_publish)"
proof -
  have "CanAcceptLearner example_campaign example_course (fst example_publish)" by code_simp
  with CanAcceptLearner_iff[OF example_campaign_valid] show ?thesis by blast
qed

text \<open>(C9) Rotating the token of a valid campaign succeeds exactly when the campaign is active or paused, the
  new hash has 32 bytes and differs from the current one, its prefix has the token alphabet and
  the time is not before the last change; from then on the new token matches and the old one
  does not. A revoked or closed campaign keeps its token, which no command ever makes usable
  again.\<close>

theorem campaign_token_lifecycle:
  assumes "campaign_valid c" "Campaign_RotateToken c h p at = (d, err)"
  shows "(err = None \<longleftrightarrow> \<not> campaign_shut c \<and> length h = 32 \<and> tokenPrefixPattern p \<and>
       h \<noteq> cp_TokenHash c \<and> at \<noteq> 0 \<and> cp_UpdatedAt c \<le> at) \<and>
    (if err = None then Campaign_MatchesTokenHash (Some d) h \<and>
        \<not> Campaign_MatchesTokenHash (Some d) (cp_TokenHash c)
     else d = c) \<and>
    (campaign_shut c \<longrightarrow> (\<forall>cmds. \<not> Campaign_TokenUsable (Some (fold exec_campaign cmds c)) \<and>
        cp_TokenHash (fold exec_campaign cmds c) = cp_TokenHash c))"
proof -
  have shut: "campaign_shut c \<longleftrightarrow> cp_Status c \<noteq> Campaign_Active \<and> cp_Status c \<noteq> Campaign_Paused"
    and hash: "cp_TokenHash c \<noteq> []"
    using assms(1) by (cases "cp_Status c"; auto simp: campaign_shut_def campaign_valid_def valid_iff
        campaign_status_ok_def)+
  have "err = None \<longleftrightarrow> \<not> campaign_shut c \<and> length h = 32 \<and> tokenPrefixPattern p \<and>
       h \<noteq> cp_TokenHash c \<and> at \<noteq> 0 \<and> cp_UpdatedAt c \<le> at"
    "if err = None then cp_TokenHash d = h \<and> h \<noteq> cp_TokenHash c \<and> h \<noteq> [] else d = c"
    using assms(2) hash unfolding shut
    by (auto simp: Campaign_RotateToken_def constantTimeEqual_iff campaign_validateTransition_def
        split: option.splits if_splits)
  then show ?thesis
    using campaign_link.run_not_usable[OF assms(1)] campaign_link.run_shut_hash[OF assms(1)]
    by (auto simp: Campaign_MatchesTokenHash_def constantTimeEqual_iff)
qed

theorem campaign_token_lifecycle_witness:
  "let c = exec_campaign (Cmd_Revoke 11) example_campaign in
   \<not> Campaign_TokenUsable (Some (exec_campaign (Cmd_Pause 12) c)) \<and>
   snd (Campaign_RotateToken c (replicate 32 7) ''abcdef'' 13) \<noteq> None"
proof -
  define c where "c = exec_campaign (Cmd_Revoke 11) example_campaign"
  have "campaign_valid c" unfolding c_def by (rule exec_campaign_valid[OF example_campaign_valid])
  moreover have "campaign_shut c" unfolding c_def by code_simp
  ultimately show ?thesis
    using campaign_token_lifecycle[of c "replicate 32 7" "''abcdef''" 13] 
    unfolding c_def[symmetric] Let_def
    by (metis fold_simps(1) fold_simps(2) prod.collapse)
qed

end
