(* ===== verification/Personal_Access.thy ===== *)
theory Personal_Access
  imports Links
begin

section \<open>Personal accesses\<close>

text \<open>
  The package \<^verbatim>\<open>services/academy/internal/domain/personalaccess\<close> (\<^verbatim>\<open>access.go\<close>): a link a partner
  issues to one email address, its activation by a verified learner, token rotation, deadline,
  revocation, closing and the lineage of repeated attempts.

  Lower-casing of Unicode text (\<^verbatim>\<open>strings.ToLower\<close>) and the RFC 5322 parser (\<^verbatim>\<open>mail.ParseAddress\<close>)
  are the parameters gathered in \<open>email_lib\<close>; nothing is assumed about them, so the lemmas hold
  whatever they compute.
\<close>

datatype access_status = Access_Issued | Access_Activated | Access_Revoked | Access_Closed
  | AccessStatusOther string

datatype access_error = ErrAccessIDRequired | Access_ErrCompanyRequired | Access_ErrCourseRequired
  | Access_ErrCourseVersionRequired | Access_ErrPartnerOwnerRequired | ErrIssuerRequired
  | ErrIssuerNotPartnerOwner | ErrInvalidExpectedEmail | Access_ErrDeadlineDaysInvalid
  | Access_ErrUnknownStatus | Access_ErrTokenHashRequired | Access_ErrTokenPrefixRequired
  | Access_ErrIdempotencyKeyRequired | ErrIssuedAtRequired | Access_ErrUpdatedAtInvalid
  | ErrRepeatShapeInvalid | ErrActivationStateInvalid | ErrRevocationStateInvalid
  | Access_ErrClosedStateInvalid | ErrAccessEmailMismatch | ErrAccessCompanyMismatch
  | Access_ErrLearnerRequired | ErrEnrollmentRequired | ErrActivationTimeInvalid
  | ErrAccessAlreadyActivated | ErrAccessNotActivated | ErrAccessRevoked | ErrAccessClosed
  | Access_ErrTokenRotationInvalid | ErrRepeatNotAvailable | ErrRepeatAccessInvalid

record personal_access =
  pa_ID :: ID
  pa_CompanyID :: ID
  pa_CourseID :: ID
  pa_CourseVersionID :: ID
  pa_PartnerOwnerID :: ID
  pa_ExternalLearnerID :: "ID option"
  pa_ExpectedEmail :: string
  pa_NormalizedExpectedEmail :: string
  pa_RecipientFirstName :: "string option"
  pa_RecipientLastName :: "string option"
  pa_DeadlineDays :: int
  pa_Status :: access_status
  pa_TokenHash :: bytes
  pa_TokenPrefix :: string
  pa_EnrollmentID :: "ID option"
  pa_RootAccessID :: ID
  pa_RepeatOfAccessID :: "ID option"
  pa_AttemptNumber :: int
  pa_IssuanceIdempotencyKey :: string
  pa_IssuedByID :: ID
  pa_IssuedAt :: time
  pa_ActivatedAt :: "time option"
  pa_TokenRotatedAt :: "time option"
  pa_RevokedAt :: "time option"
  pa_ClosedAt :: "time option"
  pa_UpdatedAt :: time

record access_params =
  xp_ID :: ID
  xp_CompanyID :: ID
  xp_CourseID :: ID
  xp_CourseVersionID :: ID
  xp_PartnerOwnerID :: ID
  xp_ExpectedEmail :: string
  xp_RecipientFirstName :: "string option"
  xp_RecipientLastName :: "string option"
  xp_DeadlineDays :: int
  xp_TokenHash :: bytes
  xp_TokenPrefix :: string
  xp_IssuanceIdempotencyKey :: string
  xp_IssuedByID :: ID
  xp_IssuedAt :: time

record access_activation =
  xa_CompanyID :: ID
  xa_ExternalLearnerID :: ID
  xa_NormalizedEmail :: string
  xa_EnrollmentID :: ID
  xa_At :: time

record RepeatParams =
  rp_ID :: ID
  rp_TokenHash :: bytes
  rp_TokenPrefix :: string
  rp_IssuanceIdempotencyKey :: string
  rp_IssuedAt :: time
  rp_PreviousCompleted :: bool

subsection \<open>Validation\<close>

definition access_validEmail :: "email_lib \<Rightarrow> string \<Rightarrow> bool" where
  "access_validEmail el value =
     (case el_ParseAddress el (TrimSpace value) of
        None \<Rightarrow> False
      | Some address \<Rightarrow> address = TrimSpace value)"

definition validateRepeatShape :: "personal_access \<Rightarrow> access_error option" where
  "validateRepeatShape value =
     (if pa_RootAccessID value = '''' \<or> pa_AttemptNumber value < 1 then Some ErrRepeatShapeInvalid
      else if pa_AttemptNumber value = 1 then
        (if pa_RootAccessID value \<noteq> pa_ID value \<or> pa_RepeatOfAccessID value \<noteq> None
         then Some ErrRepeatShapeInvalid else None)
      else if pa_RootAccessID value = pa_ID value \<or> pa_RepeatOfAccessID value = None \<or>
              pa_RepeatOfAccessID value = Some ''''
        then Some ErrRepeatShapeInvalid
      else None)"

definition event_error :: "personal_access \<Rightarrow> time option \<Rightarrow> access_error option" where
  "event_error value event =
     (case event of
        None \<Rightarrow> None
      | Some t \<Rightarrow>
          if Before t (pa_IssuedAt value) \<or> After t (pa_UpdatedAt value)
          then Some Access_ErrUpdatedAtInvalid else None)"

definition not_after_activation :: "access_error \<Rightarrow> time option \<Rightarrow> time option \<Rightarrow> access_error option" where
  "not_after_activation err later activated =
     (case (later, activated) of
        (Some l, Some a) \<Rightarrow> if Before l a then Some err else None
      | _ \<Rightarrow> None)"

definition access_validateTimes :: "personal_access \<Rightarrow> access_error option" where
  "access_validateTimes value =
     and_then
       (first_error (event_error value)
          [pa_ActivatedAt value, pa_TokenRotatedAt value, pa_RevokedAt value, pa_ClosedAt value])
     (and_then
       (not_after_activation ErrRevocationStateInvalid (pa_RevokedAt value) (pa_ActivatedAt value))
       (not_after_activation Access_ErrClosedStateInvalid (pa_ClosedAt value) (pa_ActivatedAt value)))"

definition has_id :: "ID option \<Rightarrow> bool" where
  "has_id p \<longleftrightarrow> p \<noteq> None \<and> p \<noteq> Some ''''"

definition access_validateStatus :: "personal_access \<Rightarrow> access_error option" where
  "access_validateStatus value =
     (let hasLearner = has_id (pa_ExternalLearnerID value);
          hasEnrollment = has_id (pa_EnrollmentID value)
      in case pa_Status value of
          Access_Issued \<Rightarrow>
            if hasEnrollment \<or> pa_ActivatedAt value \<noteq> None \<or> pa_RevokedAt value \<noteq> None \<or>
               pa_ClosedAt value \<noteq> None
            then Some ErrActivationStateInvalid
            else if pa_AttemptNumber value = 1 \<and> hasLearner then Some ErrActivationStateInvalid
            else None
        | Access_Activated \<Rightarrow>
            if \<not> hasLearner \<or> \<not> hasEnrollment \<or> pa_ActivatedAt value = None \<or>
               pa_RevokedAt value \<noteq> None \<or> pa_ClosedAt value \<noteq> None
            then Some ErrActivationStateInvalid else None
        | Access_Revoked \<Rightarrow>
            if pa_RevokedAt value = None \<or> pa_ClosedAt value \<noteq> None \<or>
               hasEnrollment \<noteq> (pa_ActivatedAt value \<noteq> None) \<or> hasEnrollment \<and> \<not> hasLearner
            then Some ErrRevocationStateInvalid else None
        | Access_Closed \<Rightarrow>
            if pa_ClosedAt value = None \<or> hasEnrollment \<noteq> (pa_ActivatedAt value \<noteq> None) \<or>
               hasEnrollment \<and> \<not> hasLearner
            then Some Access_ErrClosedStateInvalid else None
        | AccessStatusOther _ \<Rightarrow> Some Access_ErrUnknownStatus)"

definition access_validateSnapshot :: "email_lib \<Rightarrow> personal_access \<Rightarrow> access_error option" where
  "access_validateSnapshot el value =
     (if pa_ID value = '''' then Some ErrAccessIDRequired
      else if pa_CompanyID value = '''' then Some Access_ErrCompanyRequired
      else if pa_CourseID value = '''' then Some Access_ErrCourseRequired
      else if pa_CourseVersionID value = '''' then Some Access_ErrCourseVersionRequired
      else if pa_PartnerOwnerID value = '''' then Some Access_ErrPartnerOwnerRequired
      else if pa_IssuedByID value = '''' then Some ErrIssuerRequired
      else if pa_IssuedByID value \<noteq> pa_PartnerOwnerID value then Some ErrIssuerNotPartnerOwner
      else if \<not> access_validEmail el (pa_ExpectedEmail value) \<or>
              pa_NormalizedExpectedEmail value \<noteq> NormalizeEmail el (pa_ExpectedEmail value)
        then Some ErrInvalidExpectedEmail
      else if pa_DeadlineDays value < MinDeadlineDays \<or> pa_DeadlineDays value > MaxDeadlineDays
        then Some Access_ErrDeadlineDaysInvalid
      else if length (pa_TokenHash value) \<noteq> 32 then Some Access_ErrTokenHashRequired
      else if \<not> tokenPrefixPattern (pa_TokenPrefix value) then Some Access_ErrTokenPrefixRequired
      else if TrimSpace (pa_IssuanceIdempotencyKey value) = '''' \<or>
              length (pa_IssuanceIdempotencyKey value) > 512
        then Some Access_ErrIdempotencyKeyRequired
      else if IsZero (pa_IssuedAt value) then Some ErrIssuedAtRequired
      else if IsZero (pa_UpdatedAt value) \<or> Before (pa_UpdatedAt value) (pa_IssuedAt value)
        then Some Access_ErrUpdatedAtInvalid
      else and_then (validateRepeatShape value)
        (and_then (access_validateTimes value) (access_validateStatus value)))"

subsection \<open>Construction\<close>

definition access_clone :: "personal_access \<Rightarrow> personal_access" where
  "access_clone value =
     value\<lparr>pa_TokenHash := [] @ pa_TokenHash value,
       pa_ExternalLearnerID := copy_ptr (pa_ExternalLearnerID value),
       pa_RecipientFirstName := copy_ptr (pa_RecipientFirstName value),
       pa_RecipientLastName := copy_ptr (pa_RecipientLastName value),
       pa_EnrollmentID := copy_ptr (pa_EnrollmentID value),
       pa_RepeatOfAccessID := copy_ptr (pa_RepeatOfAccessID value),
       pa_ActivatedAt := copy_ptr (pa_ActivatedAt value),
       pa_TokenRotatedAt := copy_ptr (pa_TokenRotatedAt value),
       pa_RevokedAt := copy_ptr (pa_RevokedAt value), pa_ClosedAt := copy_ptr (pa_ClosedAt value)\<rparr>"

definition access_canonicalizeTimes :: "personal_access \<Rightarrow> personal_access" where
  "access_canonicalizeTimes value =
     value\<lparr>pa_IssuedAt := UTC (pa_IssuedAt value), pa_UpdatedAt := UTC (pa_UpdatedAt value),
       pa_ActivatedAt := utc_ptr (pa_ActivatedAt value),
       pa_TokenRotatedAt := utc_ptr (pa_TokenRotatedAt value),
       pa_RevokedAt := utc_ptr (pa_RevokedAt value), pa_ClosedAt := utc_ptr (pa_ClosedAt value)\<rparr>"

definition Access_Rehydrate :: "email_lib \<Rightarrow> personal_access \<Rightarrow> access_error + personal_access" where
  "Access_Rehydrate el snapshot =
     (let value = access_canonicalizeTimes (access_clone snapshot)
      in case access_validateSnapshot el value of Some err \<Rightarrow> Inl err | None \<Rightarrow> Inr value)"

definition Access_Validate :: "email_lib \<Rightarrow> personal_access \<Rightarrow> access_error option" where
  "Access_Validate el s = (case Access_Rehydrate el s of Inl err \<Rightarrow> Some err | Inr _ \<Rightarrow> None)"

definition Access_New :: "email_lib \<Rightarrow> access_params \<Rightarrow> access_error + personal_access" where
  "Access_New el params =
     (let issuedAt = UTC (xp_IssuedAt params)
      in Access_Rehydrate el
       \<lparr>pa_ID = xp_ID params, pa_CompanyID = xp_CompanyID params, pa_CourseID = xp_CourseID params,
        pa_CourseVersionID = xp_CourseVersionID params, pa_PartnerOwnerID = xp_PartnerOwnerID params,
        pa_ExternalLearnerID = None, pa_ExpectedEmail = TrimSpace (xp_ExpectedEmail params),
        pa_NormalizedExpectedEmail = NormalizeEmail el (xp_ExpectedEmail params),
        pa_RecipientFirstName = cleanOptional (xp_RecipientFirstName params),
        pa_RecipientLastName = cleanOptional (xp_RecipientLastName params),
        pa_DeadlineDays = xp_DeadlineDays params, pa_Status = Access_Issued,
        pa_TokenHash = [] @ xp_TokenHash params, pa_TokenPrefix = xp_TokenPrefix params,
        pa_EnrollmentID = None, pa_RootAccessID = xp_ID params, pa_RepeatOfAccessID = None,
        pa_AttemptNumber = 1, pa_IssuanceIdempotencyKey = xp_IssuanceIdempotencyKey params,
        pa_IssuedByID = xp_IssuedByID params, pa_IssuedAt = issuedAt, pa_ActivatedAt = None,
        pa_TokenRotatedAt = None, pa_RevokedAt = None, pa_ClosedAt = None, pa_UpdatedAt = issuedAt\<rparr>)"

subsection \<open>Operations\<close>

definition access_constantTimeEqual :: "bytes \<Rightarrow> bytes \<Rightarrow> bool" where
  "access_constantTimeEqual left right \<longleftrightarrow> ConstantTimeCompare left right"

definition Access_MatchesTokenHash :: "personal_access option \<Rightarrow> bytes \<Rightarrow> bool" where
  "Access_MatchesTokenHash p candidate =
     (case p of None \<Rightarrow> False | Some a \<Rightarrow> access_constantTimeEqual (pa_TokenHash a) candidate)"

definition Access_TokenUsable :: "personal_access option \<Rightarrow> bool" where
  "Access_TokenUsable p =
     (case p of None \<Rightarrow> False
      | Some a \<Rightarrow> pa_Status a = Access_Issued \<or> pa_Status a = Access_Activated)"

definition idsEqual :: "ID option \<Rightarrow> ID \<Rightarrow> bool" where
  "idsEqual value expected = (case value of None \<Rightarrow> False | Some v \<Rightarrow> v = expected)"

definition access_validateTransition :: "personal_access \<Rightarrow> time \<Rightarrow> access_error option" where
  "access_validateTransition a at =
     (if IsZero at \<or> Before at (pa_UpdatedAt a) then Some Access_ErrUpdatedAtInvalid else None)"

definition access_ensureMutable :: "personal_access \<Rightarrow> access_error option" where
  "access_ensureMutable a =
     (if pa_Status a = Access_Revoked then Some ErrAccessRevoked
      else if pa_Status a = Access_Closed then Some ErrAccessClosed
      else None)"

definition activation_error :: "email_lib \<Rightarrow> personal_access \<Rightarrow> access_activation \<Rightarrow> access_error option" where
  "activation_error el a params =
     (if xa_CompanyID params \<noteq> pa_CompanyID a then Some ErrAccessCompanyMismatch
      else if NormalizeEmail el (xa_NormalizedEmail params) \<noteq> pa_NormalizedExpectedEmail a
        then Some ErrAccessEmailMismatch
      else if xa_ExternalLearnerID params = '''' then Some Access_ErrLearnerRequired
      else if pa_ExternalLearnerID a \<noteq> None \<and> pa_ExternalLearnerID a \<noteq> Some (xa_ExternalLearnerID params)
        then Some ErrAccessAlreadyActivated
      else if xa_EnrollmentID params = '''' then Some ErrEnrollmentRequired
      else if access_validateTransition a (xa_At params) \<noteq> None then Some ErrActivationTimeInvalid
      else None)"

definition Access_Activate ::
  "email_lib \<Rightarrow> personal_access \<Rightarrow> access_activation \<Rightarrow> personal_access \<times> access_error option" where
  "Access_Activate el a params =
     (case pa_Status a of
        Access_Revoked \<Rightarrow> (a, Some ErrAccessRevoked)
      | Access_Closed \<Rightarrow> (a, Some ErrAccessClosed)
      | Access_Activated \<Rightarrow>
          if idsEqual (pa_ExternalLearnerID a) (xa_ExternalLearnerID params) \<and>
             idsEqual (pa_EnrollmentID a) (xa_EnrollmentID params)
          then (a, None) else (a, Some ErrAccessAlreadyActivated)
      | AccessStatusOther _ \<Rightarrow> (a, Some Access_ErrUnknownStatus)
      | Access_Issued \<Rightarrow>
         (case activation_error el a params of
            Some err \<Rightarrow> (a, Some err)
          | None \<Rightarrow>
              let at = UTC (xa_At params)
              in (a\<lparr>pa_ExternalLearnerID := Some (xa_ExternalLearnerID params),
                    pa_EnrollmentID := Some (xa_EnrollmentID params), pa_Status := Access_Activated,
                    pa_ActivatedAt := Some at, pa_UpdatedAt := at\<rparr>, None)))"

definition Access_RotateToken ::
  "personal_access \<Rightarrow> bytes \<Rightarrow> string \<Rightarrow> time \<Rightarrow> personal_access \<times> access_error option" where
  "Access_RotateToken a tokenHash tokenPrefix at =
     (case access_ensureMutable a of
        Some err \<Rightarrow> (a, Some err)
      | None \<Rightarrow>
          if length tokenHash \<noteq> 32 \<or> \<not> tokenPrefixPattern tokenPrefix \<or>
             access_constantTimeEqual (pa_TokenHash a) tokenHash
          then (a, Some Access_ErrTokenRotationInvalid)
          else case access_validateTransition a at of
            Some err \<Rightarrow> (a, Some err)
          | None \<Rightarrow> (a\<lparr>pa_TokenHash := [] @ tokenHash, pa_TokenPrefix := tokenPrefix,
                       pa_TokenRotatedAt := Some (UTC at), pa_UpdatedAt := UTC at\<rparr>, None))"

definition SetDeadlineDays ::
  "personal_access \<Rightarrow> int \<Rightarrow> time \<Rightarrow> personal_access \<times> access_error option" where
  "SetDeadlineDays a days at =
     (case access_ensureMutable a of
        Some err \<Rightarrow> (a, Some err)
      | None \<Rightarrow>
          if pa_Status a \<noteq> Access_Activated then (a, Some ErrAccessNotActivated)
          else if days < MinDeadlineDays \<or> days > MaxDeadlineDays
            then (a, Some Access_ErrDeadlineDaysInvalid)
          else case access_validateTransition a at of
            Some err \<Rightarrow> (a, Some err)
          | None \<Rightarrow> (a\<lparr>pa_DeadlineDays := days, pa_UpdatedAt := UTC at\<rparr>, None))"

definition Access_Revoke :: "personal_access \<Rightarrow> time \<Rightarrow> personal_access \<times> access_error option" where
  "Access_Revoke a at =
     (if pa_Status a = Access_Revoked then (a, None)
      else if pa_Status a = Access_Closed then (a, Some ErrAccessClosed)
      else if access_validateTransition a at \<noteq> None then (a, Some ErrRevocationStateInvalid)
      else (a\<lparr>pa_Status := Access_Revoked, pa_RevokedAt := Some (UTC at), pa_UpdatedAt := UTC at\<rparr>, None))"

definition Access_Close :: "personal_access \<Rightarrow> time \<Rightarrow> personal_access \<times> access_error option" where
  "Access_Close a at =
     (if pa_Status a = Access_Closed then (a, None)
      else if access_validateTransition a at \<noteq> None then (a, Some Access_ErrClosedStateInvalid)
      else (a\<lparr>pa_Status := Access_Closed, pa_ClosedAt := Some (UTC at), pa_UpdatedAt := UTC at\<rparr>, None))"

text \<open>The attempt number is an \<^verbatim>\<open>int\<close>, so the successor of the largest one wraps around.\<close>

definition repeat_snapshot :: "personal_access \<Rightarrow> RepeatParams \<Rightarrow> personal_access" where
  "repeat_snapshot a params =
     (let issuedAt = UTC (rp_IssuedAt params)
      in \<lparr>pa_ID = rp_ID params, pa_CompanyID = pa_CompanyID a, pa_CourseID = pa_CourseID a,
         pa_CourseVersionID = pa_CourseVersionID a, pa_PartnerOwnerID = pa_PartnerOwnerID a,
         pa_ExternalLearnerID = pa_ExternalLearnerID a, pa_ExpectedEmail = pa_ExpectedEmail a,
         pa_NormalizedExpectedEmail = pa_NormalizedExpectedEmail a,
         pa_RecipientFirstName = copy_ptr (pa_RecipientFirstName a),
         pa_RecipientLastName = copy_ptr (pa_RecipientLastName a),
         pa_DeadlineDays = pa_DeadlineDays a, pa_Status = Access_Issued,
         pa_TokenHash = [] @ rp_TokenHash params, pa_TokenPrefix = rp_TokenPrefix params,
         pa_EnrollmentID = None, pa_RootAccessID = pa_RootAccessID a,
         pa_RepeatOfAccessID = Some (pa_ID a),
         pa_AttemptNumber = wrap64 (pa_AttemptNumber a + 1),
         pa_IssuanceIdempotencyKey = rp_IssuanceIdempotencyKey params,
         pa_IssuedByID = pa_PartnerOwnerID a, pa_IssuedAt = issuedAt, pa_ActivatedAt = None,
         pa_TokenRotatedAt = None, pa_RevokedAt = None, pa_ClosedAt = None,
         pa_UpdatedAt = issuedAt\<rparr>)"

definition PlanRepeat ::
  "email_lib \<Rightarrow> personal_access option \<Rightarrow> RepeatParams \<Rightarrow> access_error + personal_access" where
  "PlanRepeat el p params =
     (case p of
        None \<Rightarrow> Inl ErrRepeatNotAvailable
      | Some a \<Rightarrow>
         if pa_Status a \<noteq> Access_Activated \<or> pa_ExternalLearnerID a = None \<or>
            pa_EnrollmentID a = None \<or> \<not> rp_PreviousCompleted params
         then Inl ErrRepeatNotAvailable
         else if rp_ID params = '''' \<or> rp_ID params = pa_ID a \<or> length (rp_TokenHash params) \<noteq> 32 \<or>
            \<not> tokenPrefixPattern (rp_TokenPrefix params) \<or>
            TrimSpace (rp_IssuanceIdempotencyKey params) = '''' \<or>
            Before (rp_IssuedAt params) (pa_UpdatedAt a)
         then Inl ErrRepeatAccessInvalid
         else
           Access_Rehydrate el (repeat_snapshot a params))"

text \<open>The methods on a nil receiver.\<close>

definition access_ptr ::
  "(personal_access \<Rightarrow> personal_access \<times> access_error option) \<Rightarrow> personal_access option \<Rightarrow>
     personal_access option \<times> access_error option" where
  "access_ptr method p =
     (case p of None \<Rightarrow> (None, Some ErrAccessIDRequired) | Some a \<Rightarrow> map_prod Some id (method a))"

subsection \<open>What a stored access satisfies\<close>

definition access_static_ok :: "email_lib \<Rightarrow> personal_access \<Rightarrow> bool" where
  "access_static_ok el a \<longleftrightarrow>
     pa_ID a \<noteq> '''' \<and> pa_CompanyID a \<noteq> '''' \<and> pa_CourseID a \<noteq> '''' \<and> pa_CourseVersionID a \<noteq> '''' \<and>
     pa_PartnerOwnerID a \<noteq> '''' \<and> pa_IssuedByID a = pa_PartnerOwnerID a \<and>
     access_validEmail el (pa_ExpectedEmail a) \<and>
     pa_NormalizedExpectedEmail a = NormalizeEmail el (pa_ExpectedEmail a) \<and>
     TrimSpace (pa_IssuanceIdempotencyKey a) \<noteq> '''' \<and> length (pa_IssuanceIdempotencyKey a) \<le> 512 \<and>
     pa_IssuedAt a \<noteq> 0 \<and> pa_RootAccessID a \<noteq> '''' \<and> 1 \<le> pa_AttemptNumber a \<and>
     (if pa_AttemptNumber a = 1 then pa_RootAccessID a = pa_ID a \<and> pa_RepeatOfAccessID a = None
      else pa_RootAccessID a \<noteq> pa_ID a \<and> has_id (pa_RepeatOfAccessID a))"

definition access_times_ok :: "personal_access \<Rightarrow> bool" where
  "access_times_ok a \<longleftrightarrow>
     pa_UpdatedAt a \<noteq> 0 \<and> pa_IssuedAt a \<le> pa_UpdatedAt a \<and>
     (\<forall>t\<in>{pa_ActivatedAt a, pa_TokenRotatedAt a, pa_RevokedAt a, pa_ClosedAt a}.
        within (pa_IssuedAt a) (pa_UpdatedAt a) t) \<and>
     (\<forall>x r. pa_ActivatedAt a = Some x \<longrightarrow> pa_RevokedAt a = Some r \<or> pa_ClosedAt a = Some r \<longrightarrow> x \<le> r)"

definition access_status_ok :: "personal_access \<Rightarrow> bool" where
  "access_status_ok a \<longleftrightarrow>
     (\<forall>s. pa_Status a \<noteq> AccessStatusOther s) \<and>
     (has_id (pa_EnrollmentID a) \<longleftrightarrow> pa_ActivatedAt a \<noteq> None) \<and>
     (has_id (pa_EnrollmentID a) \<longrightarrow> has_id (pa_ExternalLearnerID a)) \<and>
     (pa_ClosedAt a \<noteq> None \<longleftrightarrow> pa_Status a = Access_Closed) \<and>
     (pa_Status a = Access_Issued \<longrightarrow> pa_ActivatedAt a = None \<and> pa_RevokedAt a = None \<and>
        (pa_AttemptNumber a = 1 \<longrightarrow> \<not> has_id (pa_ExternalLearnerID a))) \<and>
     (pa_Status a = Access_Activated \<longrightarrow> pa_ActivatedAt a \<noteq> None \<and> pa_RevokedAt a = None) \<and>
     (pa_Status a = Access_Revoked \<longrightarrow> pa_RevokedAt a \<noteq> None)"

lemma access_validateStatus_None [valid_iff]:
  "access_validateStatus a = None \<longleftrightarrow> access_status_ok a"
  by (cases "pa_Status a") (auto simp: access_validateStatus_def access_status_ok_def Let_def)

lemma event_error_None [valid_iff]:
  "event_error a t = None \<longleftrightarrow> within (pa_IssuedAt a) (pa_UpdatedAt a) t"
  by (auto simp: event_error_def split: option.splits)

lemma not_after_activation_None [valid_iff]:
  "not_after_activation err l a = None \<longleftrightarrow> (\<forall>x r. a = Some x \<longrightarrow> l = Some r \<longrightarrow> x \<le> r)"
  by (auto simp: not_after_activation_def split: option.splits)

lemma access_validateTimes_None [valid_iff]:
  "access_validateTimes a = None \<longleftrightarrow>
     (\<forall>t\<in>{pa_ActivatedAt a, pa_TokenRotatedAt a, pa_RevokedAt a, pa_ClosedAt a}.
        within (pa_IssuedAt a) (pa_UpdatedAt a) t) \<and>
     (\<forall>x r. pa_ActivatedAt a = Some x \<longrightarrow> pa_RevokedAt a = Some r \<or> pa_ClosedAt a = Some r \<longrightarrow> x \<le> r)"
  by (auto simp: access_validateTimes_def event_error_None not_after_activation_None)

lemma validateRepeatShape_None [valid_iff]:
  "validateRepeatShape a = None \<longleftrightarrow> pa_RootAccessID a \<noteq> '''' \<and> 1 \<le> pa_AttemptNumber a \<and>
     (if pa_AttemptNumber a = 1 then pa_RootAccessID a = pa_ID a \<and> pa_RepeatOfAccessID a = None
      else pa_RootAccessID a \<noteq> pa_ID a \<and> has_id (pa_RepeatOfAccessID a))"
  by (auto simp: validateRepeatShape_def has_id_def)

lemma access_validateSnapshot_None [valid_iff]:
  "access_validateSnapshot el a = None \<longleftrightarrow>
     access_static_ok el a \<and> 1 \<le> pa_DeadlineDays a \<and> pa_DeadlineDays a \<le> 7 \<and>
     length (pa_TokenHash a) = 32 \<and> tokenPrefixPattern (pa_TokenPrefix a) \<and>
     access_times_ok a \<and> access_status_ok a"
proof -
  have "access_validateSnapshot el a = None \<longleftrightarrow>
     pa_ID a \<noteq> '''' \<and> pa_CompanyID a \<noteq> '''' \<and> pa_CourseID a \<noteq> '''' \<and> pa_CourseVersionID a \<noteq> '''' \<and>
     pa_PartnerOwnerID a \<noteq> '''' \<and> pa_IssuedByID a = pa_PartnerOwnerID a \<and>
     access_validEmail el (pa_ExpectedEmail a) \<and>
     pa_NormalizedExpectedEmail a = NormalizeEmail el (pa_ExpectedEmail a) \<and>
     1 \<le> pa_DeadlineDays a \<and> pa_DeadlineDays a \<le> 7 \<and>
     length (pa_TokenHash a) = 32 \<and> tokenPrefixPattern (pa_TokenPrefix a) \<and>
     TrimSpace (pa_IssuanceIdempotencyKey a) \<noteq> '''' \<and> length (pa_IssuanceIdempotencyKey a) \<le> 512 \<and>
     pa_IssuedAt a \<noteq> 0 \<and> pa_UpdatedAt a \<noteq> 0 \<and> pa_IssuedAt a \<le> pa_UpdatedAt a \<and>
     validateRepeatShape a = None \<and> access_validateTimes a = None \<and> access_validateStatus a = None"
    by (auto simp: access_validateSnapshot_def MinDeadlineDays_def MaxDeadlineDays_def not_less)
  then show ?thesis unfolding access_static_ok_def access_times_ok_def valid_iff by blast
qed

definition access_valid :: "email_lib \<Rightarrow> personal_access \<Rightarrow> bool" where
  "access_valid el a \<longleftrightarrow> access_validateSnapshot el a = None"

lemma access_clone_id [simp]: "access_clone a = a" "access_canonicalizeTimes a = a"
  by (simp_all add: access_clone_def access_canonicalizeTimes_def)

lemma Access_Rehydrate_iff: "Access_Rehydrate el s = Inr a \<longleftrightarrow> a = s \<and> access_valid el s"
  by (auto simp: Access_Rehydrate_def access_valid_def split: option.splits)

subsection \<open>Commands\<close>

datatype access_cmd = Cmd_Activate access_activation | Cmd_RotateToken bytes string time
  | Cmd_SetDeadlineDays int time | Cmd_RevokeAccess time | Cmd_CloseAccess time

fun exec_access :: "email_lib \<Rightarrow> access_cmd \<Rightarrow> personal_access \<Rightarrow> personal_access" where
  "exec_access el (Cmd_Activate p) a = fst (Access_Activate el a p)"
| "exec_access el (Cmd_RotateToken h p at) a = fst (Access_RotateToken a h p at)"
| "exec_access el (Cmd_SetDeadlineDays n at) a = fst (SetDeadlineDays a n at)"
| "exec_access el (Cmd_RevokeAccess at) a = fst (Access_Revoke a at)"
| "exec_access el (Cmd_CloseAccess at) a = fst (Access_Close a at)"

inductive access_step :: "personal_access \<Rightarrow> personal_access \<Rightarrow> bool" where
  activate: "pa_Status a = Access_Issued \<Longrightarrow> at \<noteq> 0 \<Longrightarrow> pa_UpdatedAt a \<le> at \<Longrightarrow> learner \<noteq> '''' \<Longrightarrow>
    enrollment \<noteq> '''' \<Longrightarrow> pa_ExternalLearnerID a = None \<or> pa_ExternalLearnerID a = Some learner \<Longrightarrow>
    access_step a (a\<lparr>pa_ExternalLearnerID := Some learner, pa_EnrollmentID := Some enrollment,
      pa_Status := Access_Activated, pa_ActivatedAt := Some at, pa_UpdatedAt := at\<rparr>)"
| rotate: "pa_Status a \<noteq> Access_Revoked \<Longrightarrow> pa_Status a \<noteq> Access_Closed \<Longrightarrow> at \<noteq> 0 \<Longrightarrow>
    pa_UpdatedAt a \<le> at \<Longrightarrow> length h = 32 \<Longrightarrow> tokenPrefixPattern p \<Longrightarrow> h \<noteq> pa_TokenHash a \<Longrightarrow>
    access_step a (a\<lparr>pa_TokenHash := h, pa_TokenPrefix := p, pa_TokenRotatedAt := Some at,
      pa_UpdatedAt := at\<rparr>)"
| deadline: "pa_Status a = Access_Activated \<Longrightarrow> at \<noteq> 0 \<Longrightarrow> pa_UpdatedAt a \<le> at \<Longrightarrow> 1 \<le> n \<Longrightarrow> n \<le> 7 \<Longrightarrow>
    access_step a (a\<lparr>pa_DeadlineDays := n, pa_UpdatedAt := at\<rparr>)"
| revoke: "pa_Status a \<noteq> Access_Revoked \<Longrightarrow> pa_Status a \<noteq> Access_Closed \<Longrightarrow> at \<noteq> 0 \<Longrightarrow>
    pa_UpdatedAt a \<le> at \<Longrightarrow>
    access_step a (a\<lparr>pa_Status := Access_Revoked, pa_RevokedAt := Some at, pa_UpdatedAt := at\<rparr>)"
| close: "pa_Status a \<noteq> Access_Closed \<Longrightarrow> at \<noteq> 0 \<Longrightarrow> pa_UpdatedAt a \<le> at \<Longrightarrow>
    access_step a (a\<lparr>pa_Status := Access_Closed, pa_ClosedAt := Some at, pa_UpdatedAt := at\<rparr>)"

lemma access_transition_None [simp]:
  "access_validateTransition a at = None \<longleftrightarrow> at \<noteq> 0 \<and> pa_UpdatedAt a \<le> at"
  by (auto simp: access_validateTransition_def)

lemma access_mutable_None [simp]:
  "access_ensureMutable a = None \<longleftrightarrow> pa_Status a \<noteq> Access_Revoked \<and> pa_Status a \<noteq> Access_Closed"
  by (auto simp: access_ensureMutable_def)

lemma access_constantTimeEqual_iff [simp]: "access_constantTimeEqual a b \<longleftrightarrow> a = b"
  by (simp add: access_constantTimeEqual_def ConstantTimeCompare_def)

lemma activation_error_None:
  "activation_error el a p = None \<longleftrightarrow>
     xa_CompanyID p = pa_CompanyID a \<and>
     NormalizeEmail el (xa_NormalizedEmail p) = pa_NormalizedExpectedEmail a \<and>
     xa_ExternalLearnerID p \<noteq> '''' \<and>
     (pa_ExternalLearnerID a = None \<or> pa_ExternalLearnerID a = Some (xa_ExternalLearnerID p)) \<and>
     xa_EnrollmentID p \<noteq> '''' \<and> xa_At p \<noteq> 0 \<and> pa_UpdatedAt a \<le> xa_At p"
  by (auto simp: activation_error_def)

lemma exec_access_cases: "exec_access el cmd a = a \<or> access_step a (exec_access el cmd a)"
proof (cases cmd)
  case (Cmd_Activate p)
  then show ?thesis
    by (cases "pa_Status a")
      (auto simp: Access_Activate_def Let_def activation_error_None split: option.splits
        intro: access_step.activate)
next
  case (Cmd_RotateToken h p at)
  then show ?thesis
    by (auto simp: Access_RotateToken_def split: option.splits intro: access_step.rotate)
next
  case (Cmd_SetDeadlineDays n at)
  then show ?thesis
    using access_step.deadline[of a at n]
    by (simp add: SetDeadlineDays_def MinDeadlineDays_def MaxDeadlineDays_def not_less
        split: option.split)
next
  case (Cmd_RevokeAccess at)
  then show ?thesis by (auto simp: Access_Revoke_def intro: access_step.revoke)
next
  case (Cmd_CloseAccess at)
  then show ?thesis by (auto simp: Access_Close_def intro: access_step.close)
qed

lemma access_step_static: "access_step a b \<Longrightarrow> access_static_ok el b = access_static_ok el a"
  by (induction rule: access_step.induct) (simp_all add: access_static_ok_def)

lemma access_status_none:
  "access_status_ok a \<Longrightarrow> pa_Status a = Access_Issued \<Longrightarrow> pa_RevokedAt a = None"
  "access_status_ok a \<Longrightarrow> pa_Status a \<noteq> Access_Closed \<Longrightarrow> pa_ClosedAt a = None"
  by (simp_all add: access_status_ok_def)

lemma access_times_within:
  "access_times_ok a \<Longrightarrow> pa_UpdatedAt a \<le> u \<Longrightarrow> t \<in> {pa_ActivatedAt a, pa_TokenRotatedAt a,
     pa_RevokedAt a, pa_ClosedAt a} \<Longrightarrow> within (pa_IssuedAt a) u t"
  unfolding access_times_ok_def by (blast intro: within_mono)

lemma access_step_times:
  "access_step a b \<Longrightarrow> access_times_ok a \<Longrightarrow> access_status_ok a \<Longrightarrow> access_times_ok b"
proof (induction rule: access_step.induct)
  case (activate a at learner enrollment)
  note w = access_times_within[OF activate.prems(1) activate.hyps(3)]
  show ?case
    using activate.prems(1) activate.hyps(2,3) access_status_none[OF activate.prems(2)] activate.hyps(1) w
    by (simp add: access_times_ok_def)
next
  case (rotate a at h p)
  note w = access_times_within[OF rotate.prems(1) rotate.hyps(4)]
  show ?case using rotate.prems(1) rotate.hyps(3,4) w by (simp add: access_times_ok_def)
next
  case (deadline a at n)
  note w = access_times_within[OF deadline.prems(1) deadline.hyps(3)]
  show ?case using deadline.prems(1) deadline.hyps(2,3) w by (simp add: access_times_ok_def)
next
  case (revoke a at)
  note w = access_times_within[OF revoke.prems(1) revoke.hyps(4)]
  have "pa_ActivatedAt a = Some x \<Longrightarrow> x \<le> at" for x using w[of "Some x"] by simp
  then show ?case
    using revoke.prems(1) revoke.hyps(2-4) w access_status_none(2)[OF revoke.prems(2)]
    by (simp add: access_times_ok_def)
next
  case (close a at)
  note w = access_times_within[OF close.prems(1) close.hyps(3)]
  have "pa_ActivatedAt a = Some x \<Longrightarrow> x \<le> at" for x using w[of "Some x"] by simp
  then show ?case
    using close.prems(1) close.hyps w by (simp add: access_times_ok_def)
qed

lemma access_step_status: "access_step a b \<Longrightarrow> access_status_ok a \<Longrightarrow> access_status_ok b"
  by (induction rule: access_step.induct) (auto simp: access_status_ok_def has_id_def)

lemma access_step_token:
  "access_step a b \<Longrightarrow> length (pa_TokenHash a) = 32 \<and> tokenPrefixPattern (pa_TokenPrefix a) \<and>
     1 \<le> pa_DeadlineDays a \<and> pa_DeadlineDays a \<le> 7 \<Longrightarrow>
   length (pa_TokenHash b) = 32 \<and> tokenPrefixPattern (pa_TokenPrefix b) \<and>
     1 \<le> pa_DeadlineDays b \<and> pa_DeadlineDays b \<le> 7"
  by (induction rule: access_step.induct) simp_all

lemma exec_access_valid:
  assumes "access_valid el a"
  shows "access_valid el (exec_access el cmd a)"
  using exec_access_cases[of el cmd a]
proof
  assume "access_step a (exec_access el cmd a)"
  from access_step_static[OF this] access_step_times[OF this] access_step_status[OF this]
    access_step_token[OF this] assms
  show ?thesis unfolding access_valid_def valid_iff by blast
qed (simp add: assms)


text \<open>What no command changes, what a command sets at most once, and when a link is shut.\<close>

definition access_identity :: "personal_access \<Rightarrow> personal_access" where
  "access_identity a =
     a\<lparr>pa_ExternalLearnerID := None, pa_EnrollmentID := None, pa_DeadlineDays := 0,
       pa_Status := Access_Issued, pa_TokenHash := [], pa_TokenPrefix := '''', pa_ActivatedAt := None,
       pa_TokenRotatedAt := None, pa_RevokedAt := None, pa_ClosedAt := None, pa_UpdatedAt := 0\<rparr>"

definition bound_below :: "personal_access \<Rightarrow> personal_access \<Rightarrow> bool" where
  "bound_below a b \<longleftrightarrow>
     (pa_ExternalLearnerID a \<noteq> None \<longrightarrow> pa_ExternalLearnerID b = pa_ExternalLearnerID a) \<and>
     (pa_ActivatedAt a \<noteq> None \<longrightarrow>
        pa_ActivatedAt b = pa_ActivatedAt a \<and> pa_EnrollmentID b = pa_EnrollmentID a)"

definition access_shut :: "personal_access \<Rightarrow> bool" where
  "access_shut a \<longleftrightarrow> pa_Status a = Access_Revoked \<or> pa_Status a = Access_Closed"

lemma access_step_identity: "access_step a b \<Longrightarrow> access_identity b = access_identity a"
  by (induction rule: access_step.induct) (simp_all add: access_identity_def)

lemma access_step_clock: "access_step a b \<Longrightarrow> pa_UpdatedAt a \<le> pa_UpdatedAt b"
  by (induction rule: access_step.induct) simp_all

lemma access_step_bound: "access_step a b \<Longrightarrow> access_status_ok a \<Longrightarrow> bound_below a b"
  by (induction rule: access_step.induct) (auto simp: bound_below_def access_status_ok_def)

lemma access_step_shut:
  "access_step a b \<Longrightarrow> access_shut a \<Longrightarrow> access_shut b \<and> pa_TokenHash b = pa_TokenHash a"
  by (induction rule: access_step.induct) (auto simp: access_shut_def)

interpretation access_pin: pinned_aggregate "access_valid el" "exec_access el" access_identity for el
proof
  fix a cmd assume "access_valid el a"
  then show "access_valid el (exec_access el cmd a)" by (rule exec_access_valid)
  show "access_identity (exec_access el cmd a) = access_identity a"
    using exec_access_cases[of el cmd a] access_step_identity by metis
qed

interpretation access_bound: growing_aggregate "access_valid el" "exec_access el" bound_below for el
proof
  show "bound_below a a" for a by (simp add: bound_below_def)
  show "bound_below a b \<Longrightarrow> bound_below b c \<Longrightarrow> bound_below a c" for a b c
    by (auto simp: bound_below_def)
  fix a cmd assume "access_valid el a"
  then have "access_status_ok a" by (simp add: access_valid_def valid_iff)
  then show "bound_below a (exec_access el cmd a)"
    using exec_access_cases[of el cmd a] access_step_bound by (metis bound_below_def)
qed

interpretation access_link: token_link "access_valid el" "exec_access el" pa_UpdatedAt
  "\<lambda>a. Access_TokenUsable (Some a)" access_shut pa_TokenHash for el
proof
  fix a cmd assume valid: "access_valid el a"
  show "pa_UpdatedAt a \<le> pa_UpdatedAt (exec_access el cmd a)"
    using exec_access_cases[of el cmd a] access_step_clock by fastforce
  show "length (pa_TokenHash a) = 32" using valid by (simp add: access_valid_def valid_iff)
  assume shut: "access_shut a"
  then show "\<not> Access_TokenUsable (Some a)" by (auto simp: access_shut_def Access_TokenUsable_def)
  show "access_shut (exec_access el cmd a)" "pa_TokenHash (exec_access el cmd a) = pa_TokenHash a"
    using exec_access_cases[of el cmd a] access_step_shut shut by metis+
qed

subsection \<open>The lineage of repeats\<close>

lemma PlanRepeat_valid:
  assumes "access_valid el a"
  shows "PlanRepeat el (Some a) p = Inr b \<longleftrightarrow>
     pa_Status a = Access_Activated \<and> rp_PreviousCompleted p \<and> rp_ID p \<noteq> '''' \<and> rp_ID p \<noteq> pa_ID a \<and>
     length (rp_TokenHash p) = 32 \<and> tokenPrefixPattern (rp_TokenPrefix p) \<and>
     TrimSpace (rp_IssuanceIdempotencyKey p) \<noteq> '''' \<and> pa_UpdatedAt a \<le> rp_IssuedAt p \<and>
     b = repeat_snapshot a p \<and> access_valid el b"
proof -
  have "pa_Status a = Access_Activated \<Longrightarrow> pa_ExternalLearnerID a \<noteq> None \<and> pa_EnrollmentID a \<noteq> None"
    using assms by (auto simp: access_valid_def valid_iff access_status_ok_def has_id_def)
  then show ?thesis by (auto simp: PlanRepeat_def Access_Rehydrate_iff)
qed

lemma repeat_attempt:
  assumes "in_int64 n"
  shows "n < max_int64 \<Longrightarrow> wrap64 (n + 1) = n + 1" "1 \<le> n \<Longrightarrow> n < max_int64 \<longleftrightarrow> 1 \<le> wrap64 (n + 1)"
proof -
  show id: "n < max_int64 \<Longrightarrow> wrap64 (n + 1) = n + 1"
    using assms by (simp add: in_int64_def)
  have "wrap64 (max_int64 + 1) < 1" by (subst wrap64_overflow) (simp_all add: max_int64_def)
  then show "1 \<le> n \<Longrightarrow> n < max_int64 \<longleftrightarrow> 1 \<le> wrap64 (n + 1)"
    using assms id by (cases "n = max_int64") (auto simp: in_int64_def)
qed

lemma repeat_snapshot_valid:
  assumes "access_valid el a" "in_int64 (pa_AttemptNumber a)"
  shows "access_valid el (repeat_snapshot a p) \<longleftrightarrow>
     rp_ID p \<noteq> '''' \<and> rp_ID p \<noteq> pa_RootAccessID a \<and> length (rp_TokenHash p) = 32 \<and>
     tokenPrefixPattern (rp_TokenPrefix p) \<and> TrimSpace (rp_IssuanceIdempotencyKey p) \<noteq> '''' \<and>
     length (rp_IssuanceIdempotencyKey p) \<le> 512 \<and> rp_IssuedAt p \<noteq> 0 \<and> pa_AttemptNumber a < max_int64"
proof -
  have n: "1 \<le> pa_AttemptNumber a" and a: "access_static_ok el a" "1 \<le> pa_DeadlineDays a" "pa_DeadlineDays a \<le> 7"
    using assms(1) by (auto simp: access_valid_def valid_iff access_static_ok_def)
  note wrap = repeat_attempt[OF assms(2)]
  have "1 \<le> wrap64 (pa_AttemptNumber a + 1) \<longleftrightarrow> pa_AttemptNumber a < max_int64"
    "pa_AttemptNumber a < max_int64 \<Longrightarrow> wrap64 (pa_AttemptNumber a + 1) \<noteq> 1"
    using n wrap by auto
  then show ?thesis
    using a by (auto simp: access_valid_def valid_iff access_static_ok_def access_times_ok_def
        access_status_ok_def repeat_snapshot_def has_id_def Let_def)
qed

subsection \<open>Properties\<close>

definition example_access :: personal_access where
  "example_access =
     \<lparr>pa_ID = ''a1'', pa_CompanyID = ''c1'', pa_CourseID = ''k1'', pa_CourseVersionID = ''v1'',
      pa_PartnerOwnerID = ''u1'', pa_ExternalLearnerID = None, pa_ExpectedEmail = ''Ann@x.io'',
      pa_NormalizedExpectedEmail = ''ann@x.io'', pa_RecipientFirstName = None,
      pa_RecipientLastName = None, pa_DeadlineDays = 3, pa_Status = Access_Issued,
      pa_TokenHash = replicate 32 1, pa_TokenPrefix = ''abc_-9'', pa_EnrollmentID = None,
      pa_RootAccessID = ''a1'', pa_RepeatOfAccessID = None, pa_AttemptNumber = 1,
      pa_IssuanceIdempotencyKey = ''key'', pa_IssuedByID = ''u1'', pa_IssuedAt = 10,
      pa_ActivatedAt = None, pa_TokenRotatedAt = None, pa_RevokedAt = None, pa_ClosedAt = None,
      pa_UpdatedAt = 10\<rparr>"

definition example_activation :: access_activation where
  "example_activation =
     \<lparr>xa_CompanyID = ''c1'', xa_ExternalLearnerID = ''l1'', xa_NormalizedEmail = '' ann@x.io'',
      xa_EnrollmentID = ''e1'', xa_At = 11\<rparr>"

lemma example_access_valid: "access_valid ascii_email_lib example_access"
  unfolding access_valid_def by code_simp

text \<open>Whatever sequence of activations, rotations, deadline changes, revocations and closings a stored
  access goes through, its snapshot is loaded back unchanged; it stays issued to the same email,
  course version, partner and place in its lineage; a learner, an enrollment and an activation
  time, once set, are never replaced; and after a revocation or closing its token never becomes
  usable again.\<close>

theorem access_run_rehydrates:
  assumes "Access_Rehydrate el s = Inr a" "b = fold (exec_access el) cmds a"
  shows "Access_Rehydrate el b = Inr b \<and> access_identity b = access_identity a \<and> bound_below a b \<and>
    pa_UpdatedAt a \<le> pa_UpdatedAt b \<and> (access_shut a \<longrightarrow> \<not> Access_TokenUsable (Some b))"
proof -
  from assms(1) have valid: "access_valid el a" by (simp add: Access_Rehydrate_iff)
  show ?thesis
    using access_pin.run_valid[OF valid, of cmds] access_pin.run_pin[OF valid, of cmds]
      access_bound.run_below[OF valid, of cmds] access_link.grows.run_below[OF valid, of cmds]
      access_link.run_not_usable[OF valid, of cmds] assms(2)
    by (simp add: Access_Rehydrate_iff)
qed

theorem access_run_rehydrates_witness:
  "pa_EnrollmentID (fold (exec_access ascii_email_lib)
     [Cmd_Activate (example_activation\<lparr>xa_EnrollmentID := ''e2''\<rparr>), Cmd_SetDeadlineDays 5 12, Cmd_RevokeAccess 13]
     (fst (Access_Activate ascii_email_lib example_access example_activation))) = Some ''e1''"
proof -
  let ?a = "fst (Access_Activate ascii_email_lib example_access example_activation)"
  have a: "Access_Rehydrate ascii_email_lib ?a = Inr ?a"
    using exec_access_valid[OF example_access_valid, of "Cmd_Activate example_activation"]
    by (simp add: Access_Rehydrate_iff)
  have "pa_EnrollmentID ?a = Some ''e1''" "pa_ActivatedAt ?a \<noteq> None" by code_simp+
  with access_run_rehydrates[OF a refl, unfolded bound_below_def] show ?thesis by metis
qed

text \<open>An issued access is activated exactly by a verified learner of the same company with the email it
  was issued to; activating it again with the same learner and enrollment succeeds and changes
  nothing, and any other learner or enrollment is refused from then on, as is every activation
  of a revoked or closed access.\<close>

theorem Access_Activate_correct:
  assumes "access_valid el a" "Access_Activate el a p = (b, err)"
  shows "(pa_Status a = Access_Issued \<longrightarrow> (err = None \<longleftrightarrow> activation_error el a p = None)) \<and>
    (err = None \<longrightarrow> pa_Status b = Access_Activated \<and>
       pa_ExternalLearnerID b = Some (xa_ExternalLearnerID p) \<and> pa_EnrollmentID b = Some (xa_EnrollmentID p) \<and>
       Access_Activate el b p = (b, None) \<and>
       (\<forall>q. xa_ExternalLearnerID q \<noteq> xa_ExternalLearnerID p \<or> xa_EnrollmentID q \<noteq> xa_EnrollmentID p \<longrightarrow>
          Access_Activate el b q = (b, Some ErrAccessAlreadyActivated))) \<and>
    (err \<noteq> None \<longrightarrow> b = a) \<and> (access_shut a \<longrightarrow> err \<noteq> None)"
proof -
  have st: "\<forall>s. pa_Status a \<noteq> AccessStatusOther s"
    using assms(1) by (simp add: access_valid_def valid_iff access_status_ok_def)
  show ?thesis
  proof (cases "pa_Status a")
    case Access_Issued
    with assms(2) show ?thesis
      by (auto simp: Access_Activate_def Let_def idsEqual_def access_shut_def split: option.splits)
  next
    case Access_Activated
    with assms(2) show ?thesis
      by (auto simp: Access_Activate_def idsEqual_def access_shut_def split: if_splits option.splits)
  qed (use st assms(2) in \<open>auto simp: Access_Activate_def\<close>)
qed

theorem Access_Activate_correct_witness:
  "Access_Activate ascii_email_lib example_access (example_activation\<lparr>xa_NormalizedEmail := ''bob@x.io''\<rparr>) =
     (example_access, Some ErrAccessEmailMismatch) \<and>
   pa_Status (fst (Access_Activate ascii_email_lib example_access example_activation)) = Access_Activated"
proof -
  have "snd (Access_Activate ascii_email_lib example_access example_activation) = None" by code_simp
  moreover have "Access_Activate ascii_email_lib example_access
      (example_activation\<lparr>xa_NormalizedEmail := ''bob@x.io''\<rparr>) = (example_access, Some ErrAccessEmailMismatch)"
    by code_simp
  ultimately show ?thesis
    using Access_Activate_correct[OF example_access_valid, of example_activation]
    by (metis prod.collapse)
qed

text \<open>A repeat is planned exactly for an activated access whose run is completed, with a fresh identifier
  that is also not the root of the lineage, a well formed token and idempotency key, at a time
  not before the last change, while the attempt counter does not overflow. The repeat is a valid
  issued access for the same learner, email, course version and partner, one attempt further in
  the same lineage, and only that learner can activate it.\<close>

theorem PlanRepeat_correct:
  assumes "access_valid el a" "in_int64 (pa_AttemptNumber a)"
  shows "((\<exists>b. PlanRepeat el (Some a) p = Inr b) \<longleftrightarrow>
      pa_Status a = Access_Activated \<and> rp_PreviousCompleted p \<and> rp_ID p \<notin> {'''', pa_ID a, pa_RootAccessID a} \<and>
      length (rp_TokenHash p) = 32 \<and> tokenPrefixPattern (rp_TokenPrefix p) \<and>
      TrimSpace (rp_IssuanceIdempotencyKey p) \<noteq> '''' \<and> length (rp_IssuanceIdempotencyKey p) \<le> 512 \<and>
      rp_IssuedAt p \<noteq> 0 \<and> pa_UpdatedAt a \<le> rp_IssuedAt p \<and> pa_AttemptNumber a < max_int64) \<and>
    (\<forall>b. PlanRepeat el (Some a) p = Inr b \<longrightarrow>
      access_valid el b \<and> pa_Status b = Access_Issued \<and> pa_ID b = rp_ID p \<and>
      pa_CourseVersionID b = pa_CourseVersionID a \<and> pa_PartnerOwnerID b = pa_PartnerOwnerID a \<and>
      pa_NormalizedExpectedEmail b = pa_NormalizedExpectedEmail a \<and>
      pa_ExternalLearnerID b = pa_ExternalLearnerID a \<and> pa_RootAccessID b = pa_RootAccessID a \<and>
      pa_RepeatOfAccessID b = Some (pa_ID a) \<and> pa_AttemptNumber b = pa_AttemptNumber a + 1 \<and>
      (\<forall>q. snd (Access_Activate el b q) = None \<longrightarrow> pa_ExternalLearnerID a = Some (xa_ExternalLearnerID q)))"
proof -
  have repeat: "PlanRepeat el (Some a) p = Inr b \<longleftrightarrow> b = repeat_snapshot a p \<and>
      pa_Status a = Access_Activated \<and> rp_PreviousCompleted p \<and> rp_ID p \<notin> {'''', pa_ID a, pa_RootAccessID a} \<and>
      length (rp_TokenHash p) = 32 \<and> tokenPrefixPattern (rp_TokenPrefix p) \<and>
      TrimSpace (rp_IssuanceIdempotencyKey p) \<noteq> '''' \<and> length (rp_IssuanceIdempotencyKey p) \<le> 512 \<and>
      rp_IssuedAt p \<noteq> 0 \<and> pa_UpdatedAt a \<le> rp_IssuedAt p \<and> pa_AttemptNumber a < max_int64" for b
    using PlanRepeat_valid[OF assms(1)] repeat_snapshot_valid[OF assms, of p] by auto
  have "access_valid el b \<and> pa_AttemptNumber b = pa_AttemptNumber a + 1 \<and> b = repeat_snapshot a p \<and>
      (\<forall>q. snd (Access_Activate el b q) = None \<longrightarrow> pa_ExternalLearnerID a = Some (xa_ExternalLearnerID q))"
    if b: "PlanRepeat el (Some a) p = Inr b" for b
  proof -
    from b have snap: "b = repeat_snapshot a p" "pa_Status a = Access_Activated" "pa_AttemptNumber a < max_int64"
      by (simp_all add: repeat)
    moreover from snap have "pa_AttemptNumber b = pa_AttemptNumber a + 1"
      using repeat_attempt[OF assms(2)] by (simp add: repeat_snapshot_def Let_def)
    moreover obtain l where "pa_ExternalLearnerID a = Some l"
      using assms(1) snap(2) by (auto simp: access_valid_def valid_iff access_status_ok_def has_id_def)
    then have "\<forall>q. snd (Access_Activate el b q) = None \<longrightarrow> pa_ExternalLearnerID a = Some (xa_ExternalLearnerID q)"
      by (auto simp: snap(1) repeat_snapshot_def Access_Activate_def Let_def activation_error_None
          split: option.splits)
    ultimately show ?thesis using PlanRepeat_valid[OF assms(1)] b by blast
  qed
  then show ?thesis
    by (intro conjI allI impI) (simp add: repeat, auto simp: repeat_snapshot_def Let_def)
qed

theorem PlanRepeat_correct_witness:
  "let a = fst (Access_Activate ascii_email_lib example_access example_activation);
       p = \<lparr>rp_ID = ''a2'', rp_TokenHash = replicate 32 2, rp_TokenPrefix = ''repeat'',
            rp_IssuanceIdempotencyKey = ''key2'', rp_IssuedAt = 20, rp_PreviousCompleted = True\<rparr>
   in \<exists>b. PlanRepeat ascii_email_lib (Some a) p = Inr b \<and> pa_AttemptNumber b = 2"
proof -
  define a where "a = fst (Access_Activate ascii_email_lib example_access example_activation)"
  define p where "p = \<lparr>rp_ID = ''a2'', rp_TokenHash = replicate 32 2, rp_TokenPrefix = ''repeat'',
            rp_IssuanceIdempotencyKey = ''key2'', rp_IssuedAt = 20, rp_PreviousCompleted = True\<rparr>"
  have valid: "access_valid ascii_email_lib a"
    using exec_access_valid[OF example_access_valid, of "Cmd_Activate example_activation"]
    by (simp add: a_def)
  have n: "pa_AttemptNumber a = 1" unfolding a_def by code_simp
  then have "in_int64 (pa_AttemptNumber a)" by (simp add: in_int64_def min_int64_def max_int64_def)
  note correct = PlanRepeat_correct[OF valid this, of p]
  have "case PlanRepeat ascii_email_lib (Some a) p of Inr _ \<Rightarrow> True | Inl _ \<Rightarrow> False"
    unfolding a_def p_def by code_simp
  then obtain b where "PlanRepeat ascii_email_lib (Some a) p = Inr b" by (auto split: sum.splits)
  with correct n show ?thesis unfolding a_def[symmetric] p_def[symmetric] Let_def by auto
qed

end
