(* ===== verification/External_Session.thy ===== *)
theory External_Session
  imports Links
begin

section \<open>Sessions of external learners\<close>

text \<open>
  The package \<^verbatim>\<open>services/academy/internal/domain/externalsession\<close> (\<^verbatim>\<open>session.go\<close>): a session of one
  external learner in one company, with a fixed expiry, the time of its last use and an
  irreversible revocation.
\<close>

datatype RevocationReason = RevocationExpired | RevocationManual | RevocationRotated
  | RevocationReasonOther string

datatype session_error = ErrSessionIDRequired | Session_ErrCompanyRequired | Session_ErrLearnerRequired
  | Session_ErrTokenHashRequired | Session_ErrCreatedAtRequired | Session_ErrExpiryInvalid
  | ErrLastUsedInvalid | ErrRevokedAtInvalid | ErrRevocationInvalid | ErrSessionExpired
  | ErrSessionRevoked | ErrSessionScopeMismatch | ErrSessionTimeInvalid

record session =
  ss_ID :: ID
  ss_CompanyID :: ID
  ss_ExternalLearnerID :: ID
  ss_TokenHash :: bytes
  ss_ExpiresAt :: time
  ss_LastUsedAt :: "time option"
  ss_RevokedAt :: "time option"
  ss_RevocationReason :: "RevocationReason option"
  ss_CreatedAt :: time

record session_params =
  sp_ID :: ID
  sp_CompanyID :: ID
  sp_ExternalLearnerID :: ID
  sp_TokenHash :: bytes
  sp_ExpiresAt :: time
  sp_CreatedAt :: time

definition validRevocationReason :: "RevocationReason \<Rightarrow> bool" where
  "validRevocationReason value \<longleftrightarrow>
     value = RevocationExpired \<or> value = RevocationManual \<or> value = RevocationRotated"

definition session_validateSnapshot :: "session \<Rightarrow> session_error option" where
  "session_validateSnapshot value =
     (if ss_ID value = '''' then Some ErrSessionIDRequired
      else if ss_CompanyID value = '''' then Some Session_ErrCompanyRequired
      else if ss_ExternalLearnerID value = '''' then Some Session_ErrLearnerRequired
      else if length (ss_TokenHash value) \<noteq> 32 then Some Session_ErrTokenHashRequired
      else if IsZero (ss_CreatedAt value) then Some Session_ErrCreatedAtRequired
      else if \<not> After (ss_ExpiresAt value) (ss_CreatedAt value) then Some Session_ErrExpiryInvalid
      else if (case ss_LastUsedAt value of None \<Rightarrow> False
               | Some t \<Rightarrow> Before t (ss_CreatedAt value) \<or> \<not> Before t (ss_ExpiresAt value))
        then Some ErrLastUsedInvalid
      else if (case ss_RevokedAt value of None \<Rightarrow> False | Some t \<Rightarrow> Before t (ss_CreatedAt value))
        then Some ErrRevokedAtInvalid
      else if (ss_RevokedAt value = None) \<noteq> (ss_RevocationReason value = None)
        then Some ErrRevocationInvalid
      else if (case ss_RevocationReason value of None \<Rightarrow> False | Some r \<Rightarrow> \<not> validRevocationReason r)
        then Some ErrRevocationInvalid
      else None)"

definition Session_Rehydrate :: "session \<Rightarrow> session_error + session" where
  "Session_Rehydrate snapshot =
     (let value = snapshot\<lparr>ss_TokenHash := [] @ ss_TokenHash snapshot,
            ss_CreatedAt := UTC (ss_CreatedAt snapshot), ss_ExpiresAt := UTC (ss_ExpiresAt snapshot),
            ss_LastUsedAt := utc_ptr (ss_LastUsedAt snapshot),
            ss_RevokedAt := utc_ptr (ss_RevokedAt snapshot)\<rparr>
      in case session_validateSnapshot value of Some err \<Rightarrow> Inl err | None \<Rightarrow> Inr value)"

definition Session_New :: "session_params \<Rightarrow> session_error + session" where
  "Session_New params =
     Session_Rehydrate
       \<lparr>ss_ID = sp_ID params, ss_CompanyID = sp_CompanyID params,
        ss_ExternalLearnerID = sp_ExternalLearnerID params, ss_TokenHash = [] @ sp_TokenHash params,
        ss_ExpiresAt = UTC (sp_ExpiresAt params), ss_LastUsedAt = None, ss_RevokedAt = None,
        ss_RevocationReason = None, ss_CreatedAt = UTC (sp_CreatedAt params)\<rparr>"

definition Session_MatchesTokenHash :: "session option \<Rightarrow> bytes \<Rightarrow> bool" where
  "Session_MatchesTokenHash p candidate =
     (case p of None \<Rightarrow> False | Some s \<Rightarrow> ConstantTimeCompare (ss_TokenHash s) candidate)"

definition ensureActive :: "session \<Rightarrow> time \<Rightarrow> session_error option" where
  "ensureActive s at =
     (if ss_RevokedAt s \<noteq> None then Some ErrSessionRevoked
      else if IsZero at \<or> Before at (ss_CreatedAt s) then Some ErrSessionTimeInvalid
      else if \<not> Before at (ss_ExpiresAt s) then Some ErrSessionExpired
      else None)"

definition Authorize :: "session option \<Rightarrow> ID \<Rightarrow> ID \<Rightarrow> time \<Rightarrow> session_error option" where
  "Authorize p companyID externalLearnerID at =
     (case p of
        None \<Rightarrow> Some ErrSessionScopeMismatch
      | Some s \<Rightarrow>
          if ss_CompanyID s \<noteq> companyID \<or> ss_ExternalLearnerID s \<noteq> externalLearnerID \<or>
             companyID = '''' \<or> externalLearnerID = ''''
          then Some ErrSessionScopeMismatch
          else ensureActive s at)"

definition Touch :: "session \<Rightarrow> time \<Rightarrow> session \<times> session_error option" where
  "Touch s at =
     (case ensureActive s at of
        Some err \<Rightarrow> (s, Some err)
      | None \<Rightarrow>
          if (case ss_LastUsedAt s of None \<Rightarrow> False | Some t \<Rightarrow> Before at t)
          then (s, Some ErrSessionTimeInvalid)
          else (s\<lparr>ss_LastUsedAt := Some (UTC at)\<rparr>, None))"

definition Session_Revoke :: "session \<Rightarrow> time \<Rightarrow> RevocationReason \<Rightarrow> session \<times> session_error option" where
  "Session_Revoke s at reason =
     (if ss_RevokedAt s \<noteq> None then (s, None)
      else if \<not> validRevocationReason reason then (s, Some ErrRevocationInvalid)
      else if IsZero at \<or> Before at (ss_CreatedAt s) \<or>
              (case ss_LastUsedAt s of None \<Rightarrow> False | Some t \<Rightarrow> Before at t)
        then (s, Some ErrSessionTimeInvalid)
      else (s\<lparr>ss_RevokedAt := Some (UTC at), ss_RevocationReason := Some reason\<rparr>, None))"

definition Expire :: "session \<Rightarrow> time \<Rightarrow> session \<times> bool \<times> session_error option" where
  "Expire s at =
     (if ss_RevokedAt s \<noteq> None \<or> IsZero at \<or> Before at (ss_ExpiresAt s) then (s, False, None)
      else case Session_Revoke s at RevocationExpired of (s', err) \<Rightarrow> (s', True, err))"

definition Expired :: "session option \<Rightarrow> time \<Rightarrow> bool" where
  "Expired p at =
     (case p of None \<Rightarrow> True | Some s \<Rightarrow> IsZero at \<or> \<not> Before at (ss_ExpiresAt s))"

text \<open>The methods on a nil receiver: \<^verbatim>\<open>Touch\<close> and \<^verbatim>\<open>Revoke\<close> refuse, \<^verbatim>\<open>Expire\<close> does nothing.\<close>

definition session_ptr ::
  "(session \<Rightarrow> session \<times> session_error option) \<Rightarrow> session option \<Rightarrow>
     session option \<times> session_error option" where
  "session_ptr method p =
     (case p of None \<Rightarrow> (None, Some ErrSessionIDRequired) | Some s \<Rightarrow> map_prod Some id (method s))"

definition Expire_ptr :: "session option \<Rightarrow> time \<Rightarrow> session option \<times> bool \<times> session_error option" where
  "Expire_ptr p at =
     (case p of None \<Rightarrow> (None, False, None) | Some s \<Rightarrow> map_prod Some id (Expire s at))"

subsection \<open>What a stored session satisfies\<close>

definition session_valid :: "session \<Rightarrow> bool" where
  "session_valid s \<longleftrightarrow>
     ss_ID s \<noteq> '''' \<and> ss_CompanyID s \<noteq> '''' \<and> ss_ExternalLearnerID s \<noteq> '''' \<and> length (ss_TokenHash s) = 32 \<and>
     ss_CreatedAt s \<noteq> 0 \<and> ss_CreatedAt s < ss_ExpiresAt s \<and>
     (\<forall>t. ss_LastUsedAt s = Some t \<longrightarrow> ss_CreatedAt s \<le> t \<and> t < ss_ExpiresAt s) \<and>
     (\<forall>t. ss_RevokedAt s = Some t \<longrightarrow> ss_CreatedAt s \<le> t) \<and>
     (ss_RevokedAt s = None \<longleftrightarrow> ss_RevocationReason s = None) \<and>
     (\<forall>r. ss_RevocationReason s = Some r \<longrightarrow> validRevocationReason r)"

lemma session_validateSnapshot_None [valid_iff]:
  "session_validateSnapshot s = None \<longleftrightarrow> session_valid s"
  by (auto simp: session_validateSnapshot_def session_valid_def split: option.splits)

lemma Session_Rehydrate_iff: "Session_Rehydrate s = Inr t \<longleftrightarrow> t = s \<and> session_valid s"
  by (auto simp: Session_Rehydrate_def valid_iff[symmetric] split: option.splits)

datatype session_cmd = Cmd_Touch time | Cmd_RevokeSession time RevocationReason | Cmd_Expire time

fun exec_session :: "session_cmd \<Rightarrow> session \<Rightarrow> session" where
  "exec_session (Cmd_Touch at) s = fst (Touch s at)"
| "exec_session (Cmd_RevokeSession at r) s = fst (Session_Revoke s at r)"
| "exec_session (Cmd_Expire at) s = fst (Expire s at)"

inductive session_step :: "session \<Rightarrow> session \<Rightarrow> bool" where
  touch: "ss_RevokedAt s = None \<Longrightarrow> ss_CreatedAt s \<le> at \<Longrightarrow> at < ss_ExpiresAt s \<Longrightarrow>
    session_step s (s\<lparr>ss_LastUsedAt := Some at\<rparr>)"
| revoke: "ss_RevokedAt s = None \<Longrightarrow> validRevocationReason r \<Longrightarrow> ss_CreatedAt s \<le> at \<Longrightarrow>
    session_step s (s\<lparr>ss_RevokedAt := Some at, ss_RevocationReason := Some r\<rparr>)"

lemma ensureActive_None [simp]:
  "ensureActive s at = None \<longleftrightarrow>
     ss_RevokedAt s = None \<and> at \<noteq> 0 \<and> ss_CreatedAt s \<le> at \<and> at < ss_ExpiresAt s"
  by (auto simp: ensureActive_def)

lemma revoke_cases:
  "fst (Session_Revoke s at r) = s \<or> session_step s (fst (Session_Revoke s at r))"
  by (auto simp: Session_Revoke_def intro: session_step.revoke)

lemma exec_session_cases: "exec_session cmd s = s \<or> session_step s (exec_session cmd s)"
proof (cases cmd)
  case (Cmd_Touch at)
  then show ?thesis by (auto simp: Touch_def split: option.split intro: session_step.touch)
next
  case (Cmd_Expire at)
  then show ?thesis using revoke_cases[of s at RevocationExpired]
    by (auto simp: Expire_def split: prod.splits)
qed (simp add: revoke_cases)

lemma session_step_valid: "session_step s t \<Longrightarrow> session_valid s \<Longrightarrow> session_valid t"
  by (induction rule: session_step.induct) (auto simp: session_valid_def)

definition session_scope :: "session \<Rightarrow> session" where
  "session_scope s = s\<lparr>ss_LastUsedAt := None, ss_RevokedAt := None, ss_RevocationReason := None\<rparr>"

interpretation session_pin: pinned_aggregate session_valid exec_session session_scope
proof
  fix s cmd assume "session_valid s"
  then show "session_valid (exec_session cmd s)"
    using exec_session_cases[of cmd s] session_step_valid by metis
  have "session_step s t \<Longrightarrow> session_scope t = session_scope s" for t
    by (induction rule: session_step.induct) (simp_all add: session_scope_def)
  then show "session_scope (exec_session cmd s) = session_scope s"
    using exec_session_cases[of cmd s] by metis
qed

interpretation session_over: terminal_aggregate session_valid exec_session
  "\<lambda>t. ss_RevokedAt t \<noteq> None \<and> t = s" for s
proof
  have "\<not> session_step t u" if "ss_RevokedAt t \<noteq> None" for t u
    using that by (auto elim: session_step.cases)
  then show "ss_RevokedAt (exec_session cmd t) \<noteq> None \<and> exec_session cmd t = s"
    if "ss_RevokedAt t \<noteq> None \<and> t = s" for t cmd
    using that exec_session_cases[of cmd t] by metis
qed

subsection \<open>Properties\<close>

definition example_session_params :: session_params where
  "example_session_params =
     \<lparr>sp_ID = ''s1'', sp_CompanyID = ''c1'', sp_ExternalLearnerID = ''l1'',
      sp_TokenHash = replicate 32 1, sp_ExpiresAt = 100, sp_CreatedAt = 10\<rparr>"

text \<open>Whatever uses, revocations and clean-ups a session sees, its snapshot is loaded back unchanged and
  it stays bound to its company, learner, token and expiry; it authorises exactly its own
  learner in its own company, from its creation until before its expiry, while not revoked; a
  revoked session never changes again; and cleaning it up at or after its expiry always
  succeeds, never earlier.\<close>

theorem session_authorizes_its_learner_only:
  assumes "Session_New params = Inr s" "t = fold exec_session cmds s"
  shows "Session_Rehydrate t = Inr t \<and> session_scope t = session_scope s \<and>
    (Authorize (Some t) company learner at = None \<longleftrightarrow>
       company = sp_CompanyID params \<and> learner = sp_ExternalLearnerID params \<and> ss_RevokedAt t = None \<and>
       at \<noteq> 0 \<and> sp_CreatedAt params \<le> at \<and> at < sp_ExpiresAt params) \<and>
    (ss_RevokedAt t \<noteq> None \<longrightarrow> (\<forall>more. fold exec_session more t = t)) \<and>
    (case Expire t at of (u, expired, err) \<Rightarrow> err = None \<and>
       (expired \<longleftrightarrow> ss_RevokedAt t = None \<and> at \<noteq> 0 \<and> sp_ExpiresAt params \<le> at) \<and>
       (expired \<longrightarrow> ss_RevocationReason u = Some RevocationExpired) \<and> (\<not> expired \<longrightarrow> u = t))"
proof -
  from assms(1) have valid: "session_valid s" and s: "ss_CompanyID s = sp_CompanyID params"
    "ss_ExternalLearnerID s = sp_ExternalLearnerID params" "ss_CreatedAt s = sp_CreatedAt params"
    "ss_ExpiresAt s = sp_ExpiresAt params"
    by (auto simp: Session_New_def Session_Rehydrate_iff)
  have t: "session_valid t" and scope: "session_scope t = session_scope s"
    using session_pin.run_valid[OF valid] session_pin.run_pin[OF valid] assms(2) by simp_all
  have same: "ss_CompanyID t = ss_CompanyID s" "ss_ExternalLearnerID t = ss_ExternalLearnerID s"
    "ss_CreatedAt t = ss_CreatedAt s" "ss_ExpiresAt t = ss_ExpiresAt s"
    using scope by (auto simp: session_scope_def
        dest!: arg_cong[of _ _ "\<lambda>x. (ss_CompanyID x, ss_ExternalLearnerID x, ss_CreatedAt x, ss_ExpiresAt x)"])
  have "Authorize (Some t) company learner at = None \<longleftrightarrow>
       company = sp_CompanyID params \<and> learner = sp_ExternalLearnerID params \<and> ss_RevokedAt t = None \<and>
       at \<noteq> 0 \<and> sp_CreatedAt params \<le> at \<and> at < sp_ExpiresAt params"
    using t same s by (auto simp: Authorize_def session_valid_def)
  moreover have "fold exec_session more t = t" if "ss_RevokedAt t \<noteq> None" for more
    using session_over.run_terminal[OF t, of t more] that by simp
  moreover have "case Expire t at of (u, expired, err) \<Rightarrow> err = None \<and>
       (expired \<longleftrightarrow> ss_RevokedAt t = None \<and> at \<noteq> 0 \<and> sp_ExpiresAt params \<le> at) \<and>
       (expired \<longrightarrow> ss_RevocationReason u = Some RevocationExpired) \<and> (\<not> expired \<longrightarrow> u = t)"
    using t same s by (auto simp: Expire_def Session_Revoke_def session_valid_def validRevocationReason_def
        split: option.splits)
  ultimately show ?thesis using t scope by (simp add: Session_Rehydrate_iff)
qed

theorem session_authorizes_its_learner_only_witness:
  "\<exists>s. Session_New example_session_params = Inr s \<and>
     Authorize (Some (fold exec_session [Cmd_Touch 20] s)) ''c1'' ''l1'' 99 = None \<and>
     Authorize (Some (fold exec_session [Cmd_Touch 20] s)) ''c1'' ''l2'' 99 \<noteq> None"
proof -
  have "case Session_New example_session_params of Inl _ \<Rightarrow> False
      | Inr s \<Rightarrow> ss_RevokedAt (fold exec_session [Cmd_Touch 20] s) = None" by code_simp
  then obtain s where s: "Session_New example_session_params = Inr s"
    "ss_RevokedAt (fold exec_session [Cmd_Touch 20] s) = None"
    by (auto split: sum.splits simp del: fold_simps)
  from session_authorizes_its_learner_only[OF s(1) refl, of "[Cmd_Touch 20]"] s(2)
  have "Authorize (Some (fold exec_session [Cmd_Touch 20] s)) c l 99 = None \<longleftrightarrow>
      c = ''c1'' \<and> l = ''l1''" for c l
    by (simp add: example_session_params_def del: fold_simps)
  with s(1) show ?thesis by (intro exI[of _ s]) (simp del: fold_simps not_None_eq)
qed

end
