(* ===== verification/External_Verification.thy ===== *)
theory External_Verification
  imports Links
begin

section \<open>Email verification challenges\<close>

text \<open>
  The package \<^verbatim>\<open>services/academy/internal/domain/externalverification\<close> (\<^verbatim>\<open>challenge.go\<close>): a one-time
  code sent to an email, of which only the hash is stored, with ten minutes to live and at most
  five attempts. The validator only sees copies made by \<^verbatim>\<open>cloneBytes\<close>, which turns an empty slice
  into \<^verbatim>\<open>nil\<close>; the optional hash of the requester's address is therefore a byte list whose empty
  value is \<^verbatim>\<open>nil\<close>.
\<close>

datatype verification_purpose = PurposePersonalAccess | PurposeCampaignAccess
  | PurposeSessionBootstrap | VerificationPurposeOther string

datatype InvalidationReason = InvalidationExpired | InvalidationReplaced | InvalidationRateLimited
  | InvalidationAttemptsExhausted | InvalidationReasonOther string

definition ChallengeTTL :: duration where
  "ChallengeTTL = 10 * Minute"

definition DefaultMaxAttempts :: int where
  "DefaultMaxAttempts = 5"

datatype verification_error = ErrChallengeIDRequired | Verification_ErrCompanyRequired
  | ErrEmailRequired | Verification_ErrUnknownPurpose | ErrSourceShapeInvalid | ErrCodeHashRequired
  | ErrRequestIPHashInvalid | Verification_ErrCreatedAtRequired | Verification_ErrExpiryInvalid
  | Verification_ErrMaxAttemptsInvalid | ErrAttemptsInvalid | ErrConsumedAtInvalid
  | ErrInvalidationInvalid | ErrChallengeConsumed | ErrChallengeInvalidated | ErrChallengeExpired
  | ErrChallengeAttemptsUsed | ErrCodeMismatch | ErrConfirmationTime

record challenge =
  ch_ID :: ID
  ch_CompanyID :: ID
  ch_NormalizedEmail :: string
  ch_Purpose :: verification_purpose
  ch_SourceID :: "ID option"
  ch_ClaimedFirstName :: "string option"
  ch_ClaimedLastName :: "string option"
  ch_CodeHash :: bytes
  ch_RequestIPHash :: bytes
  ch_ExpiresAt :: time
  ch_Attempts :: int
  ch_MaxAttempts :: int
  ch_ConsumedAt :: "time option"
  ch_InvalidatedAt :: "time option"
  ch_InvalidationReason :: "InvalidationReason option"
  ch_CreatedAt :: time

record challenge_params =
  hp_ID :: ID
  hp_CompanyID :: ID
  hp_NormalizedEmail :: string
  hp_Purpose :: verification_purpose
  hp_SourceID :: "ID option"
  hp_ClaimedFirstName :: "string option"
  hp_ClaimedLastName :: "string option"
  hp_CodeHash :: bytes
  hp_RequestIPHash :: bytes
  hp_CreatedAt :: time

subsection \<open>Validation and construction\<close>

definition validPurpose :: "verification_purpose \<Rightarrow> bool" where
  "validPurpose value \<longleftrightarrow>
     value = PurposePersonalAccess \<or> value = PurposeCampaignAccess \<or> value = PurposeSessionBootstrap"

definition validInvalidationReason :: "InvalidationReason \<Rightarrow> bool" where
  "validInvalidationReason value =
     (case value of InvalidationReasonOther _ \<Rightarrow> False | _ \<Rightarrow> True)"

definition verification_validEmail :: "email_lib \<Rightarrow> string \<Rightarrow> bool" where
  "verification_validEmail el value =
     (case el_ParseAddress el value of None \<Rightarrow> False | Some address \<Rightarrow> address = value)"

definition challenge_validateSnapshot :: "email_lib \<Rightarrow> challenge \<Rightarrow> verification_error option" where
  "challenge_validateSnapshot el value =
     (if ch_ID value = '''' then Some ErrChallengeIDRequired
      else if ch_CompanyID value = '''' then Some Verification_ErrCompanyRequired
      else if \<not> verification_validEmail el (ch_NormalizedEmail value) \<or>
              ch_NormalizedEmail value \<noteq> el_ToLower el (TrimSpace (ch_NormalizedEmail value))
        then Some ErrEmailRequired
      else if \<not> validPurpose (ch_Purpose value) then Some Verification_ErrUnknownPurpose
      else if ch_Purpose value = PurposeSessionBootstrap \<and> ch_SourceID value \<noteq> None \<or>
              ch_Purpose value \<noteq> PurposeSessionBootstrap \<and>
                (ch_SourceID value = None \<or> ch_SourceID value = Some '''')
        then Some ErrSourceShapeInvalid
      else if length (ch_CodeHash value) \<noteq> 32 then Some ErrCodeHashRequired
      else if ch_RequestIPHash value \<noteq> [] \<and> length (ch_RequestIPHash value) \<noteq> 32
        then Some ErrRequestIPHashInvalid
      else if IsZero (ch_CreatedAt value) then Some Verification_ErrCreatedAtRequired
      else if \<not> After (ch_ExpiresAt value) (ch_CreatedAt value) \<or>
              Time_Sub (ch_ExpiresAt value) (ch_CreatedAt value) > ChallengeTTL
        then Some Verification_ErrExpiryInvalid
      else if ch_MaxAttempts value < 1 \<or> ch_MaxAttempts value > DefaultMaxAttempts
        then Some Verification_ErrMaxAttemptsInvalid
      else if ch_Attempts value < 0 \<or> ch_Attempts value > ch_MaxAttempts value
        then Some ErrAttemptsInvalid
      else if (case ch_ConsumedAt value of None \<Rightarrow> False
               | Some t \<Rightarrow> Before t (ch_CreatedAt value) \<or> \<not> Before t (ch_ExpiresAt value))
        then Some ErrConsumedAtInvalid
      else if ch_ConsumedAt value \<noteq> None \<and> ch_InvalidatedAt value \<noteq> None
        then Some ErrInvalidationInvalid
      else if (ch_InvalidatedAt value = None) \<noteq> (ch_InvalidationReason value = None)
        then Some ErrInvalidationInvalid
      else if (case (ch_InvalidatedAt value, ch_InvalidationReason value) of
                 (Some t, Some r) \<Rightarrow> Before t (ch_CreatedAt value) \<or> \<not> validInvalidationReason r
               | _ \<Rightarrow> False)
        then Some ErrInvalidationInvalid
      else None)"

definition challenge_clone :: "challenge \<Rightarrow> challenge" where
  "challenge_clone value =
     value\<lparr>ch_SourceID := copy_ptr (ch_SourceID value),
       ch_ClaimedFirstName := copy_ptr (ch_ClaimedFirstName value),
       ch_ClaimedLastName := copy_ptr (ch_ClaimedLastName value),
       ch_CodeHash := [] @ ch_CodeHash value, ch_RequestIPHash := [] @ ch_RequestIPHash value,
       ch_ConsumedAt := copy_ptr (ch_ConsumedAt value),
       ch_InvalidatedAt := copy_ptr (ch_InvalidatedAt value),
       ch_InvalidationReason := copy_ptr (ch_InvalidationReason value)\<rparr>"

definition Challenge_Rehydrate :: "email_lib \<Rightarrow> challenge \<Rightarrow> verification_error + challenge" where
  "Challenge_Rehydrate el snapshot =
     (let value = challenge_clone snapshot;
          value = value\<lparr>ch_CreatedAt := UTC (ch_CreatedAt value), ch_ExpiresAt := UTC (ch_ExpiresAt value),
            ch_ConsumedAt := utc_ptr (ch_ConsumedAt value),
            ch_InvalidatedAt := utc_ptr (ch_InvalidatedAt value)\<rparr>
      in case challenge_validateSnapshot el value of Some err \<Rightarrow> Inl err | None \<Rightarrow> Inr value)"

definition Challenge_New :: "email_lib \<Rightarrow> challenge_params \<Rightarrow> verification_error + challenge" where
  "Challenge_New el params =
     (let createdAt = UTC (hp_CreatedAt params)
      in Challenge_Rehydrate el
       \<lparr>ch_ID = hp_ID params, ch_CompanyID = hp_CompanyID params,
        ch_NormalizedEmail = el_ToLower el (TrimSpace (hp_NormalizedEmail params)),
        ch_Purpose = hp_Purpose params, ch_SourceID = copy_ptr (hp_SourceID params),
        ch_ClaimedFirstName = cleanOptional (hp_ClaimedFirstName params),
        ch_ClaimedLastName = cleanOptional (hp_ClaimedLastName params),
        ch_CodeHash = [] @ hp_CodeHash params, ch_RequestIPHash = [] @ hp_RequestIPHash params,
        ch_ExpiresAt = createdAt + ChallengeTTL, ch_Attempts = 0, ch_MaxAttempts = DefaultMaxAttempts,
        ch_ConsumedAt = None, ch_InvalidatedAt = None, ch_InvalidationReason = None,
        ch_CreatedAt = createdAt\<rparr>)"

text \<open>A code is six ASCII digits; every other byte, in particular every byte of a longer UTF-8
  sequence, makes the loop over the runes of the string fail.\<close>

definition ValidSixDigitCode :: "string \<Rightarrow> bool" where
  "ValidSixDigitCode code \<longleftrightarrow>
     length code = 6 \<and> list_all (\<lambda>c. \<not> (c < CHR ''0'' \<or> c > CHR ''9'')) code"

subsection \<open>Operations\<close>

definition Confirm :: "challenge \<Rightarrow> bytes \<Rightarrow> time \<Rightarrow> challenge \<times> verification_error option" where
  "Confirm c candidateHash at =
     (if ch_ConsumedAt c \<noteq> None then (c, Some ErrChallengeConsumed)
      else if ch_InvalidatedAt c \<noteq> None then (c, Some ErrChallengeInvalidated)
      else if IsZero at \<or> Before at (ch_CreatedAt c) then (c, Some ErrConfirmationTime)
      else if \<not> Before at (ch_ExpiresAt c) then (c, Some ErrChallengeExpired)
      else if ch_Attempts c \<ge> ch_MaxAttempts c then (c, Some ErrChallengeAttemptsUsed)
      else if \<not> ConstantTimeCompare (ch_CodeHash c) candidateHash then
        (let c = c\<lparr>ch_Attempts := ch_Attempts c + 1\<rparr>
         in if ch_Attempts c \<ge> ch_MaxAttempts c
            then (c\<lparr>ch_InvalidatedAt := Some (UTC at),
                    ch_InvalidationReason := Some InvalidationAttemptsExhausted\<rparr>,
                  Some ErrChallengeAttemptsUsed)
            else (c, Some ErrCodeMismatch))
      else (c\<lparr>ch_ConsumedAt := Some (UTC at)\<rparr>, None))"

definition Available :: "challenge option \<Rightarrow> time \<Rightarrow> bool" where
  "Available p at =
     (case p of
        None \<Rightarrow> False
      | Some c \<Rightarrow> \<not> IsZero at \<and> \<not> Before at (ch_CreatedAt c) \<and> ch_ConsumedAt c = None \<and>
          ch_InvalidatedAt c = None \<and> ch_Attempts c < ch_MaxAttempts c \<and> Before at (ch_ExpiresAt c))"

definition Invalidate ::
  "challenge \<Rightarrow> time \<Rightarrow> InvalidationReason \<Rightarrow> challenge \<times> verification_error option" where
  "Invalidate c at reason =
     (if ch_ConsumedAt c \<noteq> None then (c, Some ErrChallengeConsumed)
      else if ch_InvalidatedAt c \<noteq> None then (c, None)
      else if IsZero at \<or> Before at (ch_CreatedAt c) \<or> \<not> validInvalidationReason reason
        then (c, Some ErrInvalidationInvalid)
      else (c\<lparr>ch_InvalidatedAt := Some (UTC at), ch_InvalidationReason := Some reason\<rparr>, None))"

definition challenge_ptr ::
  "(challenge \<Rightarrow> challenge \<times> verification_error option) \<Rightarrow> challenge option \<Rightarrow>
     challenge option \<times> verification_error option" where
  "challenge_ptr method p =
     (case p of None \<Rightarrow> (None, Some ErrChallengeIDRequired) | Some c \<Rightarrow> map_prod Some id (method c))"

subsection \<open>What a stored challenge satisfies\<close>

definition challenge_valid :: "email_lib \<Rightarrow> challenge \<Rightarrow> bool" where
  "challenge_valid el c \<longleftrightarrow> challenge_validateSnapshot el c = None"

definition challenge_static_ok :: "email_lib \<Rightarrow> challenge \<Rightarrow> bool" where
  "challenge_static_ok el c \<longleftrightarrow>
     ch_ID c \<noteq> '''' \<and> ch_CompanyID c \<noteq> '''' \<and> verification_validEmail el (ch_NormalizedEmail c) \<and>
     ch_NormalizedEmail c = el_ToLower el (TrimSpace (ch_NormalizedEmail c)) \<and>
     validPurpose (ch_Purpose c) \<and>
     (if ch_Purpose c = PurposeSessionBootstrap then ch_SourceID c = None
      else ch_SourceID c \<noteq> None \<and> ch_SourceID c \<noteq> Some '''') \<and>
     length (ch_CodeHash c) = 32 \<and> (ch_RequestIPHash c = [] \<or> length (ch_RequestIPHash c) = 32) \<and>
     ch_CreatedAt c \<noteq> 0 \<and> ch_CreatedAt c < ch_ExpiresAt c \<and>
     Time_Sub (ch_ExpiresAt c) (ch_CreatedAt c) \<le> ChallengeTTL \<and>
     1 \<le> ch_MaxAttempts c \<and> ch_MaxAttempts c \<le> 5"

definition challenge_progress_ok :: "challenge \<Rightarrow> bool" where
  "challenge_progress_ok c \<longleftrightarrow>
     0 \<le> ch_Attempts c \<and> ch_Attempts c \<le> ch_MaxAttempts c \<and>
     (\<forall>t. ch_ConsumedAt c = Some t \<longrightarrow> ch_CreatedAt c \<le> t \<and> t < ch_ExpiresAt c) \<and>
     (ch_ConsumedAt c = None \<or> ch_InvalidatedAt c = None) \<and>
     (ch_InvalidatedAt c = None \<longleftrightarrow> ch_InvalidationReason c = None) \<and>
     (\<forall>t. ch_InvalidatedAt c = Some t \<longrightarrow> ch_CreatedAt c \<le> t) \<and>
     (\<forall>r. ch_InvalidationReason c = Some r \<longrightarrow> validInvalidationReason r)"

lemma challenge_validateSnapshot_None [valid_iff]:
  "challenge_validateSnapshot el c = None \<longleftrightarrow> challenge_static_ok el c \<and> challenge_progress_ok c"
proof -
  have consumed: "(case ch_ConsumedAt c of None \<Rightarrow> False
       | Some t \<Rightarrow> Before t (ch_CreatedAt c) \<or> \<not> Before t (ch_ExpiresAt c)) \<longleftrightarrow>
     \<not> (\<forall>t. ch_ConsumedAt c = Some t \<longrightarrow> ch_CreatedAt c \<le> t \<and> t < ch_ExpiresAt c)"
    by (auto split: option.splits)
  have "(ch_InvalidatedAt c = None) = (ch_InvalidationReason c = None) \<Longrightarrow>
     (case (ch_InvalidatedAt c, ch_InvalidationReason c) of
        (Some t, Some r) \<Rightarrow> Before t (ch_CreatedAt c) \<or> \<not> validInvalidationReason r | _ \<Rightarrow> False) \<longleftrightarrow>
     \<not> ((\<forall>t. ch_InvalidatedAt c = Some t \<longrightarrow> ch_CreatedAt c \<le> t) \<and>
        (\<forall>r. ch_InvalidationReason c = Some r \<longrightarrow> validInvalidationReason r))"
    by (auto split: option.splits)
  then show ?thesis
    unfolding challenge_validateSnapshot_def challenge_static_ok_def challenge_progress_ok_def consumed
      DefaultMaxAttempts_def
    by (cases "(ch_InvalidatedAt c = None) = (ch_InvalidationReason c = None)") (auto simp: not_less)
qed

lemma challenge_clone_id [simp]: "challenge_clone c = c"
  by (simp add: challenge_clone_def)

lemma Challenge_Rehydrate_iff: "Challenge_Rehydrate el s = Inr c \<longleftrightarrow> c = s \<and> challenge_valid el s"
  by (auto simp: Challenge_Rehydrate_def challenge_valid_def Let_def split: option.splits)

datatype challenge_cmd = Cmd_Confirm bytes time | Cmd_Invalidate time InvalidationReason

fun exec_challenge :: "challenge_cmd \<Rightarrow> challenge \<Rightarrow> challenge" where
  "exec_challenge (Cmd_Confirm h at) c = fst (Confirm c h at)"
| "exec_challenge (Cmd_Invalidate at r) c = fst (Invalidate c at r)"

inductive challenge_step :: "challenge \<Rightarrow> challenge \<Rightarrow> bool" where
  confirm: "Available (Some c) at \<Longrightarrow> challenge_step c (c\<lparr>ch_ConsumedAt := Some at\<rparr>)"
| mismatch: "Available (Some c) at \<Longrightarrow> ch_Attempts c + 1 < ch_MaxAttempts c \<Longrightarrow>
    challenge_step c (c\<lparr>ch_Attempts := ch_Attempts c + 1\<rparr>)"
| exhaust: "Available (Some c) at \<Longrightarrow> \<not> ch_Attempts c + 1 < ch_MaxAttempts c \<Longrightarrow>
    challenge_step c (c\<lparr>ch_Attempts := ch_Attempts c + 1, ch_InvalidatedAt := Some at,
      ch_InvalidationReason := Some InvalidationAttemptsExhausted\<rparr>)"
| invalidate: "ch_ConsumedAt c = None \<Longrightarrow> ch_InvalidatedAt c = None \<Longrightarrow> ch_CreatedAt c \<le> at \<Longrightarrow>
    validInvalidationReason r \<Longrightarrow>
    challenge_step c (c\<lparr>ch_InvalidatedAt := Some at, ch_InvalidationReason := Some r\<rparr>)"

lemma Confirm_unavailable: "\<not> Available (Some c) at \<Longrightarrow> fst (Confirm c h at) = c \<and> snd (Confirm c h at) \<noteq> None"
  by (auto simp: Confirm_def Available_def)

lemma Confirm_available:
  assumes "Available (Some c) at"
  shows "Confirm c h at =
    (if h = ch_CodeHash c then (c\<lparr>ch_ConsumedAt := Some at\<rparr>, None)
     else if ch_Attempts c + 1 < ch_MaxAttempts c
       then (c\<lparr>ch_Attempts := ch_Attempts c + 1\<rparr>, Some ErrCodeMismatch)
     else (c\<lparr>ch_Attempts := ch_Attempts c + 1, ch_InvalidatedAt := Some at,
             ch_InvalidationReason := Some InvalidationAttemptsExhausted\<rparr>, Some ErrChallengeAttemptsUsed))"
  using assms by (auto simp: Confirm_def Available_def ConstantTimeCompare_def)

lemma exec_challenge_cases: "exec_challenge cmd c = c \<or> challenge_step c (exec_challenge cmd c)"
proof (cases cmd)
  case (Cmd_Confirm h at)
  show ?thesis
  proof (cases "Available (Some c) at")
    case True
    then have "ch_Attempts c < ch_MaxAttempts c" by (simp add: Available_def)
    with True Cmd_Confirm Confirm_available[OF True, of h] show ?thesis
      using challenge_step.confirm[OF True] challenge_step.mismatch[OF True] challenge_step.exhaust[OF True]
      by auto
  qed (simp add: Cmd_Confirm Confirm_unavailable)
next
  case (Cmd_Invalidate at r)
  then show ?thesis by (auto simp: Invalidate_def intro: challenge_step.invalidate)
qed

lemma challenge_step_progress: "challenge_step c d \<Longrightarrow> challenge_progress_ok c \<Longrightarrow> challenge_progress_ok d"
  by (induction rule: challenge_step.induct)
    (auto simp: challenge_progress_ok_def Available_def validInvalidationReason_def)

definition challenge_identity :: "challenge \<Rightarrow> challenge" where
  "challenge_identity c =
     c\<lparr>ch_Attempts := 0, ch_ConsumedAt := None, ch_InvalidatedAt := None, ch_InvalidationReason := None\<rparr>"

lemma challenge_step_identity: "challenge_step c d \<Longrightarrow> challenge_identity d = challenge_identity c"
  by (induction rule: challenge_step.induct) (simp_all add: challenge_identity_def)

lemma challenge_static_identity: "challenge_static_ok el (challenge_identity c) = challenge_static_ok el c"
  by (simp add: challenge_static_ok_def challenge_identity_def)

interpretation challenge_pin: pinned_aggregate "challenge_valid el" exec_challenge challenge_identity for el
proof
  fix c cmd assume valid: "challenge_valid el c"
  show same: "challenge_identity (exec_challenge cmd c) = challenge_identity c"
    using exec_challenge_cases[of cmd c] challenge_step_identity by metis
  then have "challenge_static_ok el (exec_challenge cmd c) = challenge_static_ok el c"
    by (metis challenge_static_identity)
  with valid show "challenge_valid el (exec_challenge cmd c)"
    using exec_challenge_cases[of cmd c] challenge_step_progress unfolding challenge_valid_def valid_iff
    by metis
qed

text \<open>The confirmations of a run that reach the comparison of the hashes.\<close>

fun challenge_guesses :: "challenge \<Rightarrow> challenge_cmd list \<Rightarrow> (bytes \<times> time) list" where
  "challenge_guesses c [] = []"
| "challenge_guesses c (Cmd_Confirm h at # cmds) =
     (if Available (Some c) at then [(h, at)] else []) @ challenge_guesses (fst (Confirm c h at)) cmds"
| "challenge_guesses c (Cmd_Invalidate at r # cmds) = challenge_guesses (fst (Invalidate c at r)) cmds"

definition guesses_left :: "challenge \<Rightarrow> int" where
  "guesses_left c =
     (if ch_ConsumedAt c \<noteq> None \<or> ch_InvalidatedAt c \<noteq> None then 0 else max 0 (ch_MaxAttempts c - ch_Attempts c))"

lemma challenge_guesses_bounded: "int (length (challenge_guesses c cmds)) \<le> guesses_left c"
proof (induction c cmds rule: challenge_guesses.induct)
  case (2 c h at cmds)
  show ?case
  proof (cases "Available (Some c) at")
    case True
    then have "guesses_left (fst (Confirm c h at)) + 1 \<le> guesses_left c"
      using Confirm_available[OF True, of h] by (auto simp: guesses_left_def Available_def)
    with 2 True show ?thesis by simp
  qed (use 2 Confirm_unavailable in simp)
next
  case (3 c at r cmds)
  have "guesses_left (fst (Invalidate c at r)) \<le> guesses_left c"
    by (auto simp: guesses_left_def Invalidate_def)
  with 3 show ?case by simp
qed (simp add: guesses_left_def)

lemma consumed_no_guess: "ch_ConsumedAt c \<noteq> None \<Longrightarrow> challenge_guesses c cmds = []"
  using challenge_guesses_bounded[of c cmds] by (simp add: guesses_left_def)

lemma challenge_hits_once:
  "length (filter (\<lambda>(h, at). h = ch_CodeHash c) (challenge_guesses c cmds)) \<le> 1"
proof (induction c cmds rule: challenge_guesses.induct)
  case (2 c h at cmds)
  have hash: "ch_CodeHash (fst (Confirm c h at)) = ch_CodeHash c" by (auto simp: Confirm_def Let_def)
  show ?case
  proof (cases "Available (Some c) at \<and> h = ch_CodeHash c")
    case True
    then have "ch_ConsumedAt (fst (Confirm c h at)) \<noteq> None" by (simp add: Confirm_available)
    then show ?thesis using consumed_no_guess[of "fst (Confirm c h at)" cmds] by simp
  qed (use 2 hash in auto)
next
  case (3 c at r cmds)
  have "ch_CodeHash (fst (Invalidate c at r)) = ch_CodeHash c" by (auto simp: Invalidate_def)
  with 3 show ?case by simp
qed simp

lemma challenge_guesses_in_time:
  "(h, at) \<in> set (challenge_guesses c cmds) \<Longrightarrow> ch_CreatedAt c \<le> at \<and> at < ch_ExpiresAt c"
proof (induction c cmds rule: challenge_guesses.induct)
  case (2 c g t cmds)
  have "ch_CreatedAt (fst (Confirm c g t)) = ch_CreatedAt c" "ch_ExpiresAt (fst (Confirm c g t)) = ch_ExpiresAt c"
    by (auto simp: Confirm_def Let_def)
  with 2 show ?case by (auto simp: Available_def split: if_splits)
next
  case (3 c t r cmds)
  have "ch_CreatedAt (fst (Invalidate c t r)) = ch_CreatedAt c" "ch_ExpiresAt (fst (Invalidate c t r)) = ch_ExpiresAt c"
    by (auto simp: Invalidate_def)
  with 3 show ?case by simp
qed simp

subsection \<open>Properties\<close>

text \<open>(C10) Guessing a code is bounded: of all confirmations in any run of a challenge at most five reach the
  comparison with the code, all of them in the ten minutes after its creation, and at most one
  of them has the right code. A confirmation succeeds exactly when the challenge is available
  and the code is right, and whatever happened the snapshot is loaded back unchanged.\<close>

theorem challenge_guessing_is_bounded:
  assumes "Challenge_New el params = Inr c" "d = fold exec_challenge cmds c"
  shows "length (challenge_guesses c cmds) \<le> 5 \<and>
    length (filter (\<lambda>(h, at). h = hp_CodeHash params) (challenge_guesses c cmds)) \<le> 1 \<and>
    (\<forall>(h, at)\<in>set (challenge_guesses c cmds). hp_CreatedAt params \<le> at \<and> at < hp_CreatedAt params + 10 * Minute) \<and>
    (snd (Confirm d h at) = None \<longleftrightarrow> Available (Some d) at \<and> h = hp_CodeHash params) \<and>
    Challenge_Rehydrate el d = Inr d"
proof -
  from assms(1) have valid: "challenge_valid el c" and c: "ch_CodeHash c = hp_CodeHash params"
    "ch_CreatedAt c = hp_CreatedAt params" "ch_ExpiresAt c = hp_CreatedAt params + 10 * Minute"
    "guesses_left c = 5"
    by (auto simp: Challenge_New_def Let_def Challenge_Rehydrate_iff ChallengeTTL_def guesses_left_def
        DefaultMaxAttempts_def)
  have "challenge_identity d = challenge_identity c"
    using challenge_pin.run_pin[OF valid] assms(2) by simp
  then have hash: "ch_CodeHash d = hp_CodeHash params"
    using c(1) by (auto simp: challenge_identity_def dest!: arg_cong[of _ _ ch_CodeHash])
  have "snd (Confirm d h at) = None \<longleftrightarrow> Available (Some d) at \<and> h = hp_CodeHash params"
    using Confirm_unavailable[of d at h] Confirm_available[of d at h] hash
    by (cases "Available (Some d) at") auto
  moreover have "length (challenge_guesses c cmds) \<le> 5"
    using challenge_guesses_bounded[of c cmds] c(4) by simp
  moreover have "Challenge_Rehydrate el d = Inr d"
    using challenge_pin.run_valid[OF valid] assms(2) by (simp add: Challenge_Rehydrate_iff)
  ultimately show ?thesis
    using challenge_hits_once[of c cmds] challenge_guesses_in_time[of _ _ c cmds] c by auto
qed

definition example_challenge_params :: challenge_params where
  "example_challenge_params =
     \<lparr>hp_ID = ''h1'', hp_CompanyID = ''c1'', hp_NormalizedEmail = '' ann@x.io'',
      hp_Purpose = PurposeSessionBootstrap, hp_SourceID = None, hp_ClaimedFirstName = None,
      hp_ClaimedLastName = None, hp_CodeHash = replicate 32 1, hp_RequestIPHash = [],
      hp_CreatedAt = 10\<rparr>"

theorem challenge_guessing_is_bounded_witness:
  "\<exists>c. Challenge_New ascii_email_lib example_challenge_params = Inr c \<and>
     length (challenge_guesses c (replicate 8 (Cmd_Confirm (replicate 32 2) 11))) \<le> 5 \<and>
     snd (Confirm (fold exec_challenge (replicate 8 (Cmd_Confirm (replicate 32 2) 11)) c)
       (replicate 32 1) 12) \<noteq> None"
proof -
  have "case Challenge_New ascii_email_lib example_challenge_params of Inl _ \<Rightarrow> False
      | Inr c \<Rightarrow> \<not> Available (Some (fold exec_challenge (replicate 8 (Cmd_Confirm (replicate 32 2) 11)) c)) 12"
    by code_simp
  then obtain c where c: "Challenge_New ascii_email_lib example_challenge_params = Inr c"
    "\<not> Available (Some (fold exec_challenge (replicate 8 (Cmd_Confirm (replicate 32 2) 11)) c)) 12"
    by (auto split: sum.splits)
  from challenge_guessing_is_bounded[OF c(1) refl,
      of "replicate 8 (Cmd_Confirm (replicate 32 2) 11)" "replicate 32 1" 12] c
  show ?thesis by blast
qed

end
