(* ===== verification/External_Learner.thy ===== *)
theory External_Learner
  imports Links
begin

section \<open>External learners\<close>

text \<open>
  The package \<^verbatim>\<open>services/academy/internal/domain/externallearner\<close> (\<^verbatim>\<open>learner.go\<close>): the identity of a
  learner who is not a user, scoped to one company: its email and its verification, contact
  corrections and irreversible deletion.
\<close>

datatype learner_error = ErrLearnerIDRequired | Learner_ErrCompanyRequired | ErrInvalidEmail
  | Learner_ErrCreatedAtRequired | ErrUpdatedAtRequired | ErrInvalidTimeline
  | ErrVerificationBeforeCreate | ErrDeletionBeforeCreate | ErrLearnerDeleted
  | ErrTransitionTimeInvalid | ErrCompanyMismatch | ErrEmailMismatch

record learner =
  le_ID :: ID
  le_CompanyID :: ID
  le_Email :: string
  le_NormalizedEmail :: string
  le_FirstName :: "string option"
  le_LastName :: "string option"
  le_Phone :: "string option"
  le_EmailVerifiedAt :: "time option"
  le_CreatedAt :: time
  le_UpdatedAt :: time
  le_DeletedAt :: "time option"

record learner_params =
  lp_ID :: ID
  lp_CompanyID :: ID
  lp_Email :: string
  lp_FirstName :: "string option"
  lp_LastName :: "string option"
  lp_Phone :: "string option"
  lp_CreatedAt :: time

record ContactCorrection =
  cc_Email :: string
  cc_FirstName :: "string option"
  cc_LastName :: "string option"
  cc_Phone :: "string option"
  cc_At :: time

definition ValidEmail :: "email_lib \<Rightarrow> string \<Rightarrow> bool" where
  "ValidEmail el value =
     (let normalized = NormalizeEmail el value
      in case el_ParseAddress el normalized of None \<Rightarrow> False | Some address \<Rightarrow> address = normalized)"

definition learner_validateSnapshot :: "email_lib \<Rightarrow> learner \<Rightarrow> learner_error option" where
  "learner_validateSnapshot el value =
     (if le_ID value = '''' then Some ErrLearnerIDRequired
      else if le_CompanyID value = '''' then Some Learner_ErrCompanyRequired
      else if \<not> ValidEmail el (le_Email value) then Some ErrInvalidEmail
      else if le_NormalizedEmail value \<noteq> NormalizeEmail el (le_Email value) then Some ErrInvalidEmail
      else if IsZero (le_CreatedAt value) then Some Learner_ErrCreatedAtRequired
      else if IsZero (le_UpdatedAt value) then Some ErrUpdatedAtRequired
      else if Before (le_UpdatedAt value) (le_CreatedAt value) then Some ErrInvalidTimeline
      else if (case le_EmailVerifiedAt value of None \<Rightarrow> False | Some t \<Rightarrow> Before t (le_CreatedAt value))
        then Some ErrVerificationBeforeCreate
      else if (case le_EmailVerifiedAt value of None \<Rightarrow> False | Some t \<Rightarrow> After t (le_UpdatedAt value))
        then Some ErrInvalidTimeline
      else if (case le_DeletedAt value of None \<Rightarrow> False | Some t \<Rightarrow> Before t (le_CreatedAt value))
        then Some ErrDeletionBeforeCreate
      else if (case le_DeletedAt value of None \<Rightarrow> False | Some t \<Rightarrow> t \<noteq> le_UpdatedAt value)
        then Some ErrInvalidTimeline
      else None)"

definition learner_canonicalizeTimes :: "learner \<Rightarrow> learner" where
  "learner_canonicalizeTimes value =
     value\<lparr>le_CreatedAt := UTC (le_CreatedAt value), le_UpdatedAt := UTC (le_UpdatedAt value),
       le_EmailVerifiedAt := utc_ptr (le_EmailVerifiedAt value),
       le_DeletedAt := utc_ptr (le_DeletedAt value)\<rparr>"

definition learner_clone :: "learner \<Rightarrow> learner" where
  "learner_clone value =
     value\<lparr>le_FirstName := copy_ptr (le_FirstName value), le_LastName := copy_ptr (le_LastName value),
       le_Phone := copy_ptr (le_Phone value), le_EmailVerifiedAt := copy_ptr (le_EmailVerifiedAt value),
       le_DeletedAt := copy_ptr (le_DeletedAt value)\<rparr>"

definition Learner_Rehydrate :: "email_lib \<Rightarrow> learner \<Rightarrow> learner_error + learner" where
  "Learner_Rehydrate el snapshot =
     (let value = learner_canonicalizeTimes (learner_clone snapshot)
      in case learner_validateSnapshot el value of Some err \<Rightarrow> Inl err | None \<Rightarrow> Inr value)"

definition Learner_New :: "email_lib \<Rightarrow> learner_params \<Rightarrow> learner_error + learner" where
  "Learner_New el params =
     (let normalized = NormalizeEmail el (lp_Email params); createdAt = UTC (lp_CreatedAt params)
      in Learner_Rehydrate el
       \<lparr>le_ID = lp_ID params, le_CompanyID = lp_CompanyID params, le_Email = TrimSpace (lp_Email params),
        le_NormalizedEmail = normalized, le_FirstName = cleanOptional (lp_FirstName params),
        le_LastName = cleanOptional (lp_LastName params), le_Phone = cleanOptional (lp_Phone params),
        le_EmailVerifiedAt = None, le_CreatedAt = createdAt, le_UpdatedAt = createdAt,
        le_DeletedAt = None\<rparr>)"

subsection \<open>Operations\<close>

definition MatchesIdentity :: "email_lib \<Rightarrow> learner option \<Rightarrow> ID \<Rightarrow> string \<Rightarrow> learner_error option" where
  "MatchesIdentity el p companyID email =
     (case p of
        None \<Rightarrow> Some ErrLearnerDeleted
      | Some l \<Rightarrow>
          if le_DeletedAt l \<noteq> None then Some ErrLearnerDeleted
          else if le_CompanyID l \<noteq> companyID then Some ErrCompanyMismatch
          else if le_NormalizedEmail l \<noteq> NormalizeEmail el email then Some ErrEmailMismatch
          else None)"

definition learner_validateTransition :: "learner \<Rightarrow> time \<Rightarrow> learner_error option" where
  "learner_validateTransition l at =
     (if IsZero at \<or> Before at (le_UpdatedAt l) then Some ErrTransitionTimeInvalid else None)"

definition VerifyEmail :: "learner \<Rightarrow> time \<Rightarrow> learner \<times> learner_error option" where
  "VerifyEmail l at =
     (if le_DeletedAt l \<noteq> None then (l, Some ErrLearnerDeleted)
      else if le_EmailVerifiedAt l \<noteq> None then (l, None)
      else case learner_validateTransition l at of
        Some err \<Rightarrow> (l, Some err)
      | None \<Rightarrow> (l\<lparr>le_EmailVerifiedAt := Some (UTC at), le_UpdatedAt := UTC at\<rparr>, None))"

definition CorrectContact ::
  "email_lib \<Rightarrow> learner \<Rightarrow> ContactCorrection \<Rightarrow> learner \<times> bool \<times> learner_error option" where
  "CorrectContact el l params =
     (if le_DeletedAt l \<noteq> None then (l, False, Some ErrLearnerDeleted)
      else if \<not> ValidEmail el (cc_Email params) then (l, False, Some ErrInvalidEmail)
      else case learner_validateTransition l (cc_At params) of
        Some err \<Rightarrow> (l, False, Some err)
      | None \<Rightarrow>
         (let normalized = NormalizeEmail el (cc_Email params);
              changed = (normalized \<noteq> le_NormalizedEmail l);
              l = l\<lparr>le_Email := TrimSpace (cc_Email params), le_NormalizedEmail := normalized,
                    le_FirstName := cleanOptional (cc_FirstName params),
                    le_LastName := cleanOptional (cc_LastName params),
                    le_Phone := cleanOptional (cc_Phone params), le_UpdatedAt := UTC (cc_At params)\<rparr>;
              l = (if changed then l\<lparr>le_EmailVerifiedAt := None\<rparr> else l)
          in (l, changed, None)))"

definition Learner_Delete :: "learner \<Rightarrow> time \<Rightarrow> learner \<times> learner_error option" where
  "Learner_Delete l at =
     (if le_DeletedAt l \<noteq> None then (l, None)
      else case learner_validateTransition l at of
        Some err \<Rightarrow> (l, Some err)
      | None \<Rightarrow> (l\<lparr>le_DeletedAt := Some (UTC at), le_UpdatedAt := UTC at\<rparr>, None))"

text \<open>The methods on a nil receiver.\<close>

definition VerifyEmail_ptr :: "learner option \<Rightarrow> time \<Rightarrow> learner option \<times> learner_error option" where
  "VerifyEmail_ptr p at =
     (case p of None \<Rightarrow> (None, Some ErrLearnerDeleted) | Some l \<Rightarrow> map_prod Some id (VerifyEmail l at))"

definition CorrectContact_ptr ::
  "email_lib \<Rightarrow> learner option \<Rightarrow> ContactCorrection \<Rightarrow> learner option \<times> bool \<times> learner_error option" where
  "CorrectContact_ptr el p params =
     (case p of None \<Rightarrow> (None, False, Some ErrLearnerDeleted)
      | Some l \<Rightarrow> map_prod Some id (CorrectContact el l params))"

definition Learner_Delete_ptr :: "learner option \<Rightarrow> time \<Rightarrow> learner option \<times> learner_error option" where
  "Learner_Delete_ptr p at =
     (case p of None \<Rightarrow> (None, Some ErrLearnerIDRequired) | Some l \<Rightarrow> map_prod Some id (Learner_Delete l at))"

subsection \<open>What a stored learner satisfies\<close>

definition learner_valid :: "email_lib \<Rightarrow> learner \<Rightarrow> bool" where
  "learner_valid el l \<longleftrightarrow>
     le_ID l \<noteq> '''' \<and> le_CompanyID l \<noteq> '''' \<and> ValidEmail el (le_Email l) \<and>
     le_NormalizedEmail l = NormalizeEmail el (le_Email l) \<and> le_CreatedAt l \<noteq> 0 \<and> le_UpdatedAt l \<noteq> 0 \<and>
     le_CreatedAt l \<le> le_UpdatedAt l \<and> within (le_CreatedAt l) (le_UpdatedAt l) (le_EmailVerifiedAt l) \<and>
     (\<forall>t. le_DeletedAt l = Some t \<longrightarrow> t = le_UpdatedAt l)"

lemma learner_validateSnapshot_None [valid_iff]:
  "learner_validateSnapshot el l = None \<longleftrightarrow> learner_valid el l"
  by (auto simp: learner_validateSnapshot_def learner_valid_def within_def split: option.splits)

lemma Learner_Rehydrate_iff: "Learner_Rehydrate el s = Inr l \<longleftrightarrow> l = s \<and> learner_valid el s"
  by (auto simp: Learner_Rehydrate_def learner_canonicalizeTimes_def learner_clone_def valid_iff[symmetric]
      split: option.splits)

lemma NormalizeEmail_TrimSpace [simp]: "NormalizeEmail el (TrimSpace s) = NormalizeEmail el s"
  by (simp add: NormalizeEmail_def)

lemma ValidEmail_TrimSpace [simp]: "ValidEmail el (TrimSpace s) = ValidEmail el s"
  by (simp add: ValidEmail_def)

lemma learner_transition_None [simp]:
  "learner_validateTransition l at = None \<longleftrightarrow> at \<noteq> 0 \<and> le_UpdatedAt l \<le> at"
  by (auto simp: learner_validateTransition_def)

datatype learner_cmd = Cmd_Verify time | Cmd_Correct ContactCorrection | Cmd_DeleteLearner time

fun exec_learner :: "email_lib \<Rightarrow> learner_cmd \<Rightarrow> learner \<Rightarrow> learner" where
  "exec_learner el (Cmd_Verify at) l = fst (VerifyEmail l at)"
| "exec_learner el (Cmd_Correct p) l = fst (CorrectContact el l p)"
| "exec_learner el (Cmd_DeleteLearner at) l = fst (Learner_Delete l at)"

lemma CorrectContact_cases:
  obtains (refused) err where "CorrectContact el l p = (l, False, Some err)"
  | (same) "CorrectContact el l p =
      (l\<lparr>le_Email := TrimSpace (cc_Email p), le_NormalizedEmail := NormalizeEmail el (cc_Email p),
         le_FirstName := cleanOptional (cc_FirstName p), le_LastName := cleanOptional (cc_LastName p),
         le_Phone := cleanOptional (cc_Phone p), le_UpdatedAt := cc_At p\<rparr>, False, None)"
    "le_DeletedAt l = None" "ValidEmail el (cc_Email p)" "cc_At p \<noteq> 0" "le_UpdatedAt l \<le> cc_At p"
    "NormalizeEmail el (cc_Email p) = le_NormalizedEmail l"
  | (changed) "CorrectContact el l p =
      (l\<lparr>le_Email := TrimSpace (cc_Email p), le_NormalizedEmail := NormalizeEmail el (cc_Email p),
         le_FirstName := cleanOptional (cc_FirstName p), le_LastName := cleanOptional (cc_LastName p),
         le_Phone := cleanOptional (cc_Phone p), le_EmailVerifiedAt := None, le_UpdatedAt := cc_At p\<rparr>,
       True, None)"
    "le_DeletedAt l = None" "ValidEmail el (cc_Email p)" "cc_At p \<noteq> 0" "le_UpdatedAt l \<le> cc_At p"
    "NormalizeEmail el (cc_Email p) \<noteq> le_NormalizedEmail l"
proof (cases "le_DeletedAt l = None \<and> ValidEmail el (cc_Email p) \<and> learner_validateTransition l (cc_At p) = None")
  case True
  then have "CorrectContact el l p =
      (let l' = l\<lparr>le_Email := TrimSpace (cc_Email p), le_NormalizedEmail := NormalizeEmail el (cc_Email p),
         le_FirstName := cleanOptional (cc_FirstName p), le_LastName := cleanOptional (cc_LastName p),
         le_Phone := cleanOptional (cc_Phone p), le_UpdatedAt := cc_At p\<rparr>
       in if NormalizeEmail el (cc_Email p) = le_NormalizedEmail l then (l', False, None)
          else (l'\<lparr>le_EmailVerifiedAt := None\<rparr>, True, None))"
    by (simp add: CorrectContact_def Let_def del: learner_transition_None)
  with True show ?thesis
    by (cases "NormalizeEmail el (cc_Email p) = le_NormalizedEmail l")
      (rule same, auto simp: Let_def, rule changed, auto simp: Let_def)
next
  case False
  then have "\<exists>err. CorrectContact el l p = (l, False, Some err)"
    by (auto simp: CorrectContact_def simp del: learner_transition_None split: option.split)
  then show ?thesis using refused by blast
qed

lemma exec_learner_valid: "learner_valid el l \<Longrightarrow> learner_valid el (exec_learner el cmd l)"
proof (cases cmd)
  case (Cmd_Verify at)
  assume "learner_valid el l"
  with Cmd_Verify show ?thesis by (auto simp: VerifyEmail_def learner_valid_def split: option.split)
next
  case (Cmd_Correct p)
  assume "learner_valid el l"
  with Cmd_Correct show ?thesis
    by (cases rule: CorrectContact_cases[of el l p]) (auto simp: learner_valid_def intro: within_mono)
next
  case (Cmd_DeleteLearner at)
  assume "learner_valid el l"
  with Cmd_DeleteLearner show ?thesis
    by (auto simp: Learner_Delete_def learner_valid_def intro: within_mono split: option.split)
qed

lemma exec_learner_identity:
  "le_ID (exec_learner el cmd l) = le_ID l" "le_CompanyID (exec_learner el cmd l) = le_CompanyID l"
  "le_CreatedAt (exec_learner el cmd l) = le_CreatedAt l"
  by (cases cmd; auto simp: VerifyEmail_def CorrectContact_def Learner_Delete_def Let_def split: option.split)+

lemma exec_learner_deleted: "le_DeletedAt l \<noteq> None \<Longrightarrow> exec_learner el cmd l = l"
  by (cases cmd) (auto simp: VerifyEmail_def CorrectContact_def Learner_Delete_def)

interpretation learner_pin: pinned_aggregate "learner_valid el" "exec_learner el"
  "\<lambda>l. (le_ID l, le_CompanyID l, le_CreatedAt l)" for el
  by unfold_locales (simp_all add: exec_learner_valid exec_learner_identity)

interpretation learner_gone: terminal_aggregate "learner_valid el" "exec_learner el"
  "\<lambda>t. le_DeletedAt t \<noteq> None \<and> t = l" for el l
  by unfold_locales (simp add: exec_learner_deleted)

interpretation learner_clock: clocked_aggregate "learner_valid el" "exec_learner el" le_UpdatedAt for el
proof
  fix l cmd
  show "le_UpdatedAt l \<le> le_UpdatedAt (exec_learner el cmd l)"
    by (cases cmd) (auto simp: VerifyEmail_def CorrectContact_def Learner_Delete_def Let_def split: option.split)
qed

text \<open>Without a verification in between, a verified email was already the verified one before.\<close>

lemma verified_stays:
  assumes "\<forall>at. Cmd_Verify at \<notin> set cmds" "le_EmailVerifiedAt (fold (exec_learner el) cmds l) = Some t"
  shows "le_EmailVerifiedAt l = Some t \<and>
    le_NormalizedEmail (fold (exec_learner el) cmds l) = le_NormalizedEmail l"
  using assms
proof (induction cmds arbitrary: l)
  case (Cons cmd cmds)
  then have later: "le_EmailVerifiedAt (exec_learner el cmd l) = Some t \<and>
    le_NormalizedEmail (fold (exec_learner el) (cmd # cmds) l) = le_NormalizedEmail (exec_learner el cmd l)"
    by simp
  show ?case
  proof (cases cmd)
    case (Cmd_Correct p)
    with later show ?thesis by (cases rule: CorrectContact_cases[of el l p]) auto
  next
    case (Cmd_DeleteLearner at)
    with later show ?thesis by (auto simp: Learner_Delete_def split: option.splits if_splits)
  qed (use Cons.prems in auto)
qed simp

subsection \<open>Properties\<close>

definition example_learner_params :: learner_params where
  "example_learner_params =
     \<lparr>lp_ID = ''l1'', lp_CompanyID = ''c1'', lp_Email = ''Ann@x.io '', lp_FirstName = Some ''  '',
      lp_LastName = None, lp_Phone = None, lp_CreatedAt = 10\<rparr>"

text \<open>(C11) After any commands the snapshot of an external learner is loaded back unchanged, in the same
  company; a learner is verified only for the email it has now: if it is verified at the end of a
  run that contains no verification, it was verified for that same normalised email at the
  beginning; a correction asks for a new verification exactly when it changes the normalised
  email; and a deleted learner never changes again and matches no identity.\<close>

theorem learner_verification_is_of_current_email:
  assumes "Learner_New el params = Inr l" "m = fold (exec_learner el) cmds l"
  shows "Learner_Rehydrate el m = Inr m \<and> le_CompanyID m = lp_CompanyID params \<and>
    (\<forall>more t. (\<forall>at. Cmd_Verify at \<notin> set more) \<longrightarrow>
       le_EmailVerifiedAt (fold (exec_learner el) more m) = Some t \<longrightarrow>
       le_EmailVerifiedAt m = Some t \<and>
       le_NormalizedEmail (fold (exec_learner el) more m) = le_NormalizedEmail m) \<and>
    (\<forall>p n changed. CorrectContact el m p = (n, changed, None) \<longrightarrow>
       changed = (NormalizeEmail el (cc_Email p) \<noteq> le_NormalizedEmail m) \<and>
       le_NormalizedEmail n = NormalizeEmail el (cc_Email p) \<and>
       le_EmailVerifiedAt n = (if changed then None else le_EmailVerifiedAt m)) \<and>
    (le_DeletedAt m \<noteq> None \<longrightarrow>
       (\<forall>more. fold (exec_learner el) more m = m) \<and> (\<forall>c e. MatchesIdentity el (Some m) c e \<noteq> None))"
proof -
  from assms(1) have valid: "learner_valid el l" and company: "le_CompanyID l = lp_CompanyID params"
    by (auto simp: Learner_New_def Let_def Learner_Rehydrate_iff)
  have m: "learner_valid el m" "le_CompanyID m = lp_CompanyID params"
    using learner_pin.run_valid[OF valid, of cmds] learner_pin.run_pin[OF valid, of cmds] assms(2) company
    by simp_all
  have corr: "changed = (NormalizeEmail el (cc_Email p) \<noteq> le_NormalizedEmail m) \<and>
       le_NormalizedEmail n = NormalizeEmail el (cc_Email p) \<and>
       le_EmailVerifiedAt n = (if changed then None else le_EmailVerifiedAt m)"
    if "CorrectContact el m p = (n, changed, None)" for p n changed
    using that by (cases rule: CorrectContact_cases[of el m p]) auto
  have "fold (exec_learner el) more m = m" if "le_DeletedAt m \<noteq> None" for more
    using learner_gone.run_terminal[OF m(1), of m more] that by simp
  then show ?thesis
    using m corr verified_stays[of _ el m] by (auto simp: Learner_Rehydrate_iff MatchesIdentity_def)
qed

theorem learner_verification_is_of_current_email_witness:
  "\<exists>l. Learner_New ascii_email_lib example_learner_params = Inr l \<and>
     le_EmailVerifiedAt (fold (exec_learner ascii_email_lib) [Cmd_DeleteLearner 30]
       (fold (exec_learner ascii_email_lib) [Cmd_Correct
         \<lparr>cc_Email = ''bob@x.io'', cc_FirstName = None, cc_LastName = None, cc_Phone = None, cc_At = 20\<rparr>] l)) = None"
proof -
  let ?cs = "[Cmd_Correct \<lparr>cc_Email = ''bob@x.io'', cc_FirstName = None, cc_LastName = None,
    cc_Phone = None, cc_At = 20\<rparr>]"
  have "case Learner_New ascii_email_lib example_learner_params of Inl _ \<Rightarrow> False
      | Inr l \<Rightarrow> le_EmailVerifiedAt (fold (exec_learner ascii_email_lib) ?cs l) = None" by code_simp
  then obtain l where l: "Learner_New ascii_email_lib example_learner_params = Inr l"
    "le_EmailVerifiedAt (fold (exec_learner ascii_email_lib) ?cs l) = None"
    by (auto split: sum.splits simp del: fold_simps)
  have "le_EmailVerifiedAt (fold (exec_learner ascii_email_lib) [Cmd_DeleteLearner 30]
       (fold (exec_learner ascii_email_lib) ?cs l)) \<noteq> Some t" for t
    using learner_verification_is_of_current_email[OF l(1) refl, of ?cs, THEN conjunct2, THEN conjunct2,
        THEN conjunct1, rule_format, of "[Cmd_DeleteLearner 30]" t] l(2)
    by (auto simp del: fold_simps)
  then have "le_EmailVerifiedAt (fold (exec_learner ascii_email_lib) [Cmd_DeleteLearner 30]
       (fold (exec_learner ascii_email_lib) ?cs l)) = None" by (metis option.exhaust)
  with l(1) show ?thesis by blast
qed

end
