(* ===== verification/Remap.thy ===== *)
theory Remap
  imports Course_Publication
begin

section \<open>Renaming the identifiers of a course\<close>

text \<open>
  Copying a partner course and instantiating a template both give every section, lesson, quiz,
  question, option and file of the source a new identifier. The two packages have the same
  remapper (\<^verbatim>\<open>coursecopy/copy.go\<close> and \<^verbatim>\<open>template/instantiate.go\<close>, method \<^verbatim>\<open>mapID\<close>): it asks the
  mapper it was given for a new identifier, refuses one that is empty, equal to the source or
  already used for another entity, and caches the answer. Since a cached key is never asked
  again and a refusal ends the whole operation, the mapper is asked at most once for each key,
  and a function of the key describes any generator of identifiers.

  A loop that threads the remapper and stops at the first error is a function from the remapper
  to an error or a result with the new remapper. \<open>renames\<close> says what such a computation
  does: it succeeds exactly when the keys it visits can be renamed, and then renames them all.
\<close>

datatype EntityKind = EntitySection | EntityLesson | EntityQuiz | EntityQuestion | EntityOption | EntityFile

type_synonym idKey = "EntityKind \<times> ID"
type_synonym IDMapper = "EntityKind \<Rightarrow> ID \<Rightarrow> ID"

datatype remap_error = ErrIndependentIDRequired | ErrDuplicateDestinationID | Remap_ErrLessonSectionMissing

record remapper =
  rm_cache :: "idKey \<rightharpoonup> ID"
  rm_used :: "ID \<rightharpoonup> idKey"

type_synonym 'a remapping = "remapper \<Rightarrow> remap_error + ('a \<times> remapper)"

definition new_remapper :: remapper where
  "new_remapper = \<lparr>rm_cache = Map.empty, rm_used = Map.empty\<rparr>"

definition mapID :: "IDMapper \<Rightarrow> EntityKind \<Rightarrow> ID \<Rightarrow> ID remapping" where
  "mapID mapper kind source r =
     (let key = (kind, source)
      in case rm_cache r key of
           Some mapped \<Rightarrow> Inr (mapped, r)
         | None \<Rightarrow>
            let mapped = mapper kind source
            in if source = '''' \<or> mapped = '''' \<or> mapped = source then Inl ErrIndependentIDRequired
               else if (case rm_used r mapped of None \<Rightarrow> False | Some previous \<Rightarrow> previous \<noteq> key)
                 then Inl ErrDuplicateDestinationID
               else Inr (mapped, r\<lparr>rm_cache := (rm_cache r)(key \<mapsto> mapped),
                                   rm_used := (rm_used r)(mapped \<mapsto> key)\<rparr>))"

text \<open>Sequencing of such computations, and a loop over a slice.\<close>

definition returnR :: "'a \<Rightarrow> 'a remapping" where
  "returnR x r = Inr (x, r)"

definition failR :: "remap_error \<Rightarrow> 'a remapping" where
  "failR err r = Inl err"

definition bindR :: "'a remapping \<Rightarrow> ('a \<Rightarrow> 'b remapping) \<Rightarrow> 'b remapping" where
  "bindR f g r = (case f r of Inl err \<Rightarrow> Inl err | Inr (x, r') \<Rightarrow> g x r')"

fun mapR :: "('a \<Rightarrow> 'b remapping) \<Rightarrow> 'a list \<Rightarrow> 'b list remapping" where
  "mapR f [] = returnR []"
| "mapR f (x # xs) = bindR (f x) (\<lambda>y. bindR (mapR f xs) (\<lambda>ys. returnR (y # ys)))"

definition optionR :: "('a \<Rightarrow> 'b remapping) \<Rightarrow> 'a option \<Rightarrow> 'b option remapping" where
  "optionR f p = (case p of None \<Rightarrow> returnR None | Some x \<Rightarrow> bindR (f x) (\<lambda>y. returnR (Some y)))"

subsection \<open>What a renaming does\<close>

text \<open>Keys that can be renamed, and the remapper after it renamed them.\<close>

definition renamable :: "IDMapper \<Rightarrow> idKey set \<Rightarrow> bool" where
  "renamable m K \<longleftrightarrow>
     (\<forall>(kind, x)\<in>K. x \<noteq> '''' \<and> m kind x \<noteq> '''' \<and> m kind x \<noteq> x) \<and> inj_on (case_prod m) K"

definition visited :: "IDMapper \<Rightarrow> idKey set \<Rightarrow> remapper \<Rightarrow> bool" where
  "visited m K r \<longleftrightarrow>
     rm_cache r = (\<lambda>k. if k \<in> K then Some (case_prod m k) else None) \<and>
     (\<forall>x k. rm_used r x = Some k \<longleftrightarrow> k \<in> K \<and> case_prod m k = x)"

definition renames :: "IDMapper \<Rightarrow> 'a remapping \<Rightarrow> bool \<Rightarrow> idKey set \<Rightarrow> 'a \<Rightarrow> bool" where
  "renames m f P ks x \<longleftrightarrow>
     (\<forall>K r. renamable m K \<longrightarrow> visited m K r \<longrightarrow>
        (if P \<and> renamable m (K \<union> ks) then \<exists>r'. f r = Inr (x, r') \<and> visited m (K \<union> ks) r'
         else \<exists>err. f r = Inl err))"

lemma renamable_mono: "renamable m L \<Longrightarrow> K \<subseteq> L \<Longrightarrow> renamable m K"
  by (auto simp: renamable_def intro: inj_on_subset)

lemma visited_new: "visited m {} new_remapper"
  by (simp add: visited_def new_remapper_def)

lemma renames_return: "renames m (returnR x) True {} x"
  by (simp add: renames_def returnR_def)

lemma renames_fail: "renames m (failR err) False ks x"
  by (simp add: renames_def failR_def)

lemma renames_bind:
  assumes f: "renames m f P ks x" and g: "renames m (g x) Q ls y"
  shows "renames m (bindR f g) (P \<and> Q) (ks \<union> ls) y"
  unfolding renames_def
proof (intro allI impI)
  fix K r assume K: "renamable m K" "visited m K r"
  show "if (P \<and> Q) \<and> renamable m (K \<union> (ks \<union> ls))
        then \<exists>r'. bindR f g r = Inr (y, r') \<and> visited m (K \<union> (ks \<union> ls)) r'
        else \<exists>err. bindR f g r = Inl err"
  proof (cases "P \<and> renamable m (K \<union> ks)")
    case True
    with f K obtain r' where r': "f r = Inr (x, r')" "visited m (K \<union> ks) r'"
      unfolding renames_def by meson
    with g True have "if Q \<and> renamable m (K \<union> ks \<union> ls)
        then \<exists>r''. g x r' = Inr (y, r'') \<and> visited m (K \<union> ks \<union> ls) r'' else \<exists>err. g x r' = Inl err"
      unfolding renames_def by blast
    with r' True show ?thesis unfolding Un_assoc[symmetric] by (auto simp: bindR_def)
  next
    case False
    with f K obtain err where "f r = Inl err" unfolding renames_def by meson
    moreover have "\<not> (P \<and> Q) \<or> \<not> renamable m (K \<union> (ks \<union> ls))"
      using False renamable_mono[of m "K \<union> (ks \<union> ls)" "K \<union> ks"] by blast
    ultimately show ?thesis by (auto simp: bindR_def)
  qed
qed

lemma renames_result: "renames m f P ks x \<Longrightarrow> x = y \<Longrightarrow> renames m f P ks y"
  by simp

lemma renames_map:
  "(\<And>x. x \<in> set xs \<Longrightarrow> renames m (f x) (P x) (ks x) (g x)) \<Longrightarrow>
   renames m (mapR f xs) (\<forall>x\<in>set xs. P x) (\<Union>x\<in>set xs. ks x) (map g xs)"
proof (induction xs)
  case Nil
  show ?case using renames_return[of m "[]"] by simp
next
  case (Cons x xs)
  have "renames m (bindR (f x) (\<lambda>y. bindR (mapR f xs) (\<lambda>ys. returnR (y # ys))))
      (P x \<and> (\<forall>x\<in>set xs. P x) \<and> True) (ks x \<union> ((\<Union>x\<in>set xs. ks x) \<union> {})) (g x # map g xs)"
    using Cons by (intro renames_bind[OF _ renames_bind[OF _ renames_return]]) simp_all
  then show ?case by simp
qed

lemma renames_option:
  "(\<And>x. p = Some x \<Longrightarrow> renames m (f x) (P x) (ks x) (g x)) \<Longrightarrow>
   renames m (optionR f p) (\<forall>x\<in>set_option p. P x) (\<Union>x\<in>set_option p. ks x) (map_option g p)"
proof (cases p)
  case (Some x)
  assume "\<And>x. p = Some x \<Longrightarrow> renames m (f x) (P x) (ks x) (g x)"
  with Some have "renames m (bindR (f x) (\<lambda>y. returnR (Some y))) (P x \<and> True) (ks x \<union> {}) (Some (g x))"
    by (intro renames_bind[OF _ renames_return]) simp
  with Some show ?thesis by (simp add: optionR_def)
qed (use renames_return[of m None] in \<open>simp add: optionR_def\<close>)

lemma renames_mapID: "renames m (mapID m kind x) True {(kind, x)} (m kind x)"
  unfolding renames_def
proof (intro allI impI)
  fix K r assume K: "renamable m K" and r: "visited m K r"
  let ?k = "(kind, x)"
  show "if True \<and> renamable m (K \<union> {?k})
        then \<exists>r'. mapID m kind x r = Inr (m kind x, r') \<and> visited m (K \<union> {?k}) r'
        else \<exists>err. mapID m kind x r = Inl err"
  proof (cases "?k \<in> K")
    case True
    then have "K \<union> {?k} = K" by blast
    with True K r show ?thesis by (simp add: mapID_def visited_def)
  next
    case False
    then have cache: "rm_cache r ?k = None" using r by (simp add: visited_def)
    have taken: "(case rm_used r (m kind x) of None \<Rightarrow> False | Some previous \<Rightarrow> previous \<noteq> ?k) \<longleftrightarrow>
        m kind x \<in> case_prod m ` K"
    proof (cases "rm_used r (m kind x)")
      case None
      then have "\<forall>k. \<not> (k \<in> K \<and> case_prod m k = m kind x)" using r unfolding visited_def by (metis option.discI)
      with None show ?thesis by force
    next
      case (Some previous)
      then have "previous \<in> K" "case_prod m previous = m kind x" using r unfolding visited_def by blast+
      with Some False show ?thesis by force
    qed
    have ok: "renamable m (K \<union> {?k}) \<longleftrightarrow>
        x \<noteq> '''' \<and> m kind x \<noteq> '''' \<and> m kind x \<noteq> x \<and> m kind x \<notin> case_prod m ` K"
      using K False by (auto simp: renamable_def)
    show ?thesis
    proof (cases "renamable m (K \<union> {?k})")
      case True
      then have free: "m kind x \<notin> case_prod m ` K" using ok by blast
      let ?r = "r\<lparr>rm_cache := (rm_cache r)(?k \<mapsto> m kind x), rm_used := (rm_used r)(m kind x \<mapsto> ?k)\<rparr>"
      have "rm_used ?r y = Some k \<longleftrightarrow> k \<in> K \<union> {?k} \<and> case_prod m k = y" for y k
      proof (cases "y = m kind x")
        case True
        moreover have "k \<notin> K \<or> case_prod m k \<noteq> m kind x" using free by force
        ultimately show ?thesis by auto
      next
        case False
        then have "rm_used ?r y = rm_used r y" by simp
        moreover have "rm_used r y = Some k \<longleftrightarrow> k \<in> K \<and> case_prod m k = y"
          using r unfolding visited_def by blast
        ultimately show ?thesis using False by auto
      qed
      moreover have "rm_cache ?r = (\<lambda>k. if k \<in> K \<union> {?k} then Some (case_prod m k) else None)"
        using r unfolding visited_def by auto
      ultimately have "visited m (K \<union> {?k}) ?r" unfolding visited_def by blast
      moreover have "mapID m kind x r = Inr (m kind x, ?r)"
        using True ok taken cache by (simp add: mapID_def Let_def)
      ultimately show ?thesis using True by simp
    next
      case bad: False
      then have "\<exists>err. mapID m kind x r = Inl err" using ok taken cache by (auto simp: mapID_def Let_def)
      with bad show ?thesis by simp
    qed
  qed
qed

text \<open>From the empty remapper.\<close>

lemma renames_run:
  assumes "renames m f P ks x"
  shows "(\<exists>y r. f new_remapper = Inr (y, r)) \<longleftrightarrow> P \<and> renamable m ks"
    and "f new_remapper = Inr (y, r) \<Longrightarrow> y = x \<and> P \<and> renamable m ks"
proof -
  have "renamable m {}" by (simp add: renamable_def)
  with assms visited_new[of m] have "if P \<and> renamable m ks then \<exists>r'. f new_remapper = Inr (x, r')
      else \<exists>err. f new_remapper = Inl err"
    unfolding renames_def by fastforce
  then show "(\<exists>y r. f new_remapper = Inr (y, r)) \<longleftrightarrow> P \<and> renamable m ks"
    "f new_remapper = Inr (y, r) \<Longrightarrow> y = x \<and> P \<and> renamable m ks"
    by (auto split: if_splits)
qed

subsection \<open>The identifiers of a course, and a course renamed\<close>

definition question_keys :: "Question \<Rightarrow> idKey set" where
  "question_keys q = {(EntityQuestion, qn_ID q)} \<union> (\<Union>opt\<in>set (qn_Options q). {(EntityOption, op_ID opt)})"

definition quiz_keys :: "Quiz \<Rightarrow> idKey set" where
  "quiz_keys z = {(EntityQuiz, qz_ID z)} \<union> (\<Union>q\<in>set (qz_Questions z). question_keys q)"

definition lesson_keys :: "Lesson \<Rightarrow> idKey set" where
  "lesson_keys l = {(EntityLesson, les_ID l)} \<union> (\<Union>f\<in>set (les_FileIDs l). {(EntityFile, f)}) \<union>
     (\<Union>z\<in>set_option (les_Quiz l). quiz_keys z)"

definition definition_keys :: "Definition \<Rightarrow> idKey set" where
  "definition_keys d = (\<Union>f\<in>set_option (df_CoverFileID d). {(EntityFile, f)}) \<union>
     (\<Union>s\<in>set (df_Sections d). {(EntitySection, sec_ID s)}) \<union> (\<Union>l\<in>set (df_Lessons d). lesson_keys l)"

definition rename_option :: "IDMapper \<Rightarrow> AnswerOption \<Rightarrow> AnswerOption" where
  "rename_option m opt = opt\<lparr>op_ID := m EntityOption (op_ID opt)\<rparr>"

definition rename_question :: "IDMapper \<Rightarrow> Question \<Rightarrow> Question" where
  "rename_question m q =
     q\<lparr>qn_ID := m EntityQuestion (qn_ID q), qn_Options := map (rename_option m) (qn_Options q)\<rparr>"

definition rename_quiz :: "IDMapper \<Rightarrow> Quiz \<Rightarrow> Quiz" where
  "rename_quiz m z =
     z\<lparr>qz_ID := m EntityQuiz (qz_ID z), qz_Questions := map (rename_question m) (qz_Questions z)\<rparr>"

definition rename_section :: "IDMapper \<Rightarrow> Section \<Rightarrow> Section" where
  "rename_section m s = s\<lparr>sec_ID := m EntitySection (sec_ID s)\<rparr>"

definition rename_lesson :: "IDMapper \<Rightarrow> Lesson \<Rightarrow> Lesson" where
  "rename_lesson m l =
     l\<lparr>les_ID := m EntityLesson (les_ID l), les_SectionID := m EntitySection (les_SectionID l),
       les_FileIDs := map (m EntityFile) (les_FileIDs l), les_Quiz := map_option (rename_quiz m) (les_Quiz l)\<rparr>"

text \<open>Each package also stamps the provenance \<open>g\<close> of a lesson.\<close>

definition rename_definition :: "IDMapper \<Rightarrow> (Lesson \<Rightarrow> Lesson) \<Rightarrow> Definition \<Rightarrow> Definition" where
  "rename_definition m g d =
     d\<lparr>df_CoverFileID := map_option (m EntityFile) (df_CoverFileID d),
       df_Sections := map (rename_section m) (df_Sections d),
       df_Lessons := map (\<lambda>l. g (rename_lesson m l)) (df_Lessons d)\<rparr>"

definition sections_exist :: "Definition \<Rightarrow> bool" where
  "sections_exist d \<longleftrightarrow> (\<forall>l\<in>set (df_Lessons d). les_SectionID l \<in> sec_ID ` set (df_Sections d))"

subsection \<open>A renamed course can be published like the original\<close>

lemma renamable_inj:
  "renamable m K \<Longrightarrow> (k, x) \<in> K \<Longrightarrow> (k, y) \<in> K \<Longrightarrow> m k x = m k y \<longleftrightarrow> x = y"
  unfolding renamable_def inj_on_def by force

lemma renamable_ne: "renamable m K \<Longrightarrow> (k, x) \<in> K \<Longrightarrow> m k x \<noteq> ''''"
  unfolding renamable_def by force

lemma renamable_distinct:
  assumes "renamable m K" "\<forall>x\<in>set xs. (k, x) \<in> K"
  shows "distinct (map (m k) xs) = distinct xs"
proof -
  have "inj_on (m k) (set xs)" using assms renamable_inj[OF assms(1)] by (auto simp: inj_on_def)
  then show ?thesis by (simp add: distinct_map)
qed

lemma rename_fields [simp]:
  "op_ID (rename_option m opt) = m EntityOption (op_ID opt)" "op_Text (rename_option m opt) = op_Text opt"
  "op_Correct (rename_option m opt) = op_Correct opt"
  "qn_ID (rename_question m q) = m EntityQuestion (qn_ID q)" "qn_Type (rename_question m q) = qn_Type q"
  "qn_Text (rename_question m q) = qn_Text q"
  "qn_Options (rename_question m q) = map (rename_option m) (qn_Options q)"
  "qz_ID (rename_quiz m z) = m EntityQuiz (qz_ID z)"
  "qz_Questions (rename_quiz m z) = map (rename_question m) (qz_Questions z)"
  "qz_PassingScore (rename_quiz m z) = qz_PassingScore z" "qz_MaxAttempts (rename_quiz m z) = qz_MaxAttempts z"
  "sec_ID (rename_section m s) = m EntitySection (sec_ID s)" "sec_Title (rename_section m s) = sec_Title s"
  "sec_Order (rename_section m s) = sec_Order s"
  by (simp_all add: rename_option_def rename_question_def rename_quiz_def rename_section_def)

lemma rename_question_ok:
  assumes "renamable m K" "question_keys q \<subseteq> K" "question_ok q"
  shows "question_ok (rename_question m q)"
proof -
  have keys: "(EntityQuestion, qn_ID q) \<in> K" "\<forall>opt\<in>set (qn_Options q). (EntityOption, op_ID opt) \<in> K"
    using assms(2) by (auto simp: question_keys_def)
  then have "distinct (map (m EntityOption) (map op_ID (qn_Options q))) = distinct (map op_ID (qn_Options q))"
    by (intro renamable_distinct[OF assms(1)]) auto
  moreover have "length (filter op_Correct (map (rename_option m) os)) = length (filter op_Correct os)" for os
    by (simp add: filter_map o_def)
  ultimately show ?thesis
    using assms(3) keys renamable_ne[OF assms(1)] by (auto simp: question_ok_def options_ok_def o_def)
qed

lemma rename_quiz_ok:
  assumes "renamable m K" "quiz_keys z \<subseteq> K" "quiz_ok z"
  shows "quiz_ok (rename_quiz m z)"
proof -
  have keys: "(EntityQuiz, qz_ID z) \<in> K" "\<forall>q\<in>set (qz_Questions z). question_keys q \<subseteq> K"
    using assms(2) by (auto simp: quiz_keys_def)
  then have "\<forall>x\<in>set (map qn_ID (qz_Questions z)). (EntityQuestion, x) \<in> K" by (auto simp: question_keys_def)
  from renamable_distinct[OF assms(1) this]
  have "distinct (map qn_ID (map (rename_question m) (qz_Questions z))) = distinct (map qn_ID (qz_Questions z))"
    by (simp add: o_def)
  then show ?thesis
    using assms(3) keys renamable_ne[OF assms(1)] rename_question_ok[OF assms(1)] by (auto simp: quiz_ok_def)
qed

text \<open>The fields of a lesson the publication check reads.\<close>

definition checked_fields where
  "checked_fields l = (les_ID l, les_SectionID l, les_StableKey l, les_Title l, les_Order l, les_Content l,
     les_FileIDs l, les_Quiz l)"

lemma rename_lesson_fields:
  assumes "checked_fields (g (rename_lesson m l)) = checked_fields (rename_lesson m l)"
  shows "les_ID (g (rename_lesson m l)) = m EntityLesson (les_ID l)"
    "les_SectionID (g (rename_lesson m l)) = m EntitySection (les_SectionID l)"
    "les_StableKey (g (rename_lesson m l)) = les_StableKey l" "les_Title (g (rename_lesson m l)) = les_Title l"
    "les_Order (g (rename_lesson m l)) = les_Order l" "les_Content (g (rename_lesson m l)) = les_Content l"
    "les_FileIDs (g (rename_lesson m l)) = map (m EntityFile) (les_FileIDs l)"
    "les_Quiz (g (rename_lesson m l)) = map_option (rename_quiz m) (les_Quiz l)"
  using assms by (simp_all add: checked_fields_def rename_lesson_def)

lemma publishable_renamed:
  assumes ren: "renamable m (definition_keys d)" and pub: "publishable v d"
    and rich: "pv_RichText w = pv_RichText v"
    and files: "\<And>f. (EntityFile, f) \<in> definition_keys d \<Longrightarrow> file_ok w (m EntityFile f)"
    and g: "\<And>l. checked_fields (g l) = checked_fields l"
  shows "publishable w (rename_definition m g d)"
proof -
  let ?d = "rename_definition m g d" and ?K = "definition_keys d"
  let ?h = "\<lambda>l. g (rename_lesson m l)"
  note fields = rename_lesson_fields[of g m, OF g]
  have d: "df_Title ?d = df_Title d" "df_DefaultInternalDeadlineDays ?d = df_DefaultInternalDeadlineDays d"
    "df_CoverFileID ?d = map_option (m EntityFile) (df_CoverFileID d)"
    "df_Sections ?d = map (rename_section m) (df_Sections d)" "df_Lessons ?d = map ?h (df_Lessons d)"
    by (simp_all add: rename_definition_def)
  have sk: "\<forall>x\<in>set (map sec_ID (df_Sections d)). (EntitySection, x) \<in> ?K"
    and lk: "\<forall>l\<in>set (df_Lessons d). lesson_keys l \<subseteq> ?K"
    by (auto simp: definition_keys_def)
  have lid: "\<forall>x\<in>set (map les_ID (df_Lessons d)). (EntityLesson, x) \<in> ?K"
    using lk by (auto simp: lesson_keys_def)
  have zk: "\<forall>l\<in>set (df_Lessons d). \<forall>z. les_Quiz l = Some z \<longrightarrow> quiz_keys z \<subseteq> ?K"
  proof (intro ballI allI impI)
    fix l z assume "l \<in> set (df_Lessons d)" "les_Quiz l = Some z"
    then have "quiz_keys z \<subseteq> lesson_keys l" by (auto simp: lesson_keys_def)
    with lk \<open>l \<in> set (df_Lessons d)\<close> show "quiz_keys z \<subseteq> ?K" by blast
  qed
  have secs: "\<forall>l\<in>set (df_Lessons d). les_SectionID l \<in> set (map sec_ID (df_Sections d))"
    using pub by (auto simp: publishable_def lesson_ok_def)
  have section_ids: "map sec_ID (df_Sections ?d) = map (m EntitySection) (map sec_ID (df_Sections d))"
    by (simp add: d o_def)
  have "quiz_ids (map ?h ls) = map (m EntityQuiz) (quiz_ids ls)" for ls
    by (induction ls) (auto simp: quiz_ids_def List.map_filter_simps fields split: option.splits)
  then have quizzes: "quiz_ids (df_Lessons ?d) = map (m EntityQuiz) (quiz_ids (df_Lessons d))"
    unfolding d by blast
  have "\<forall>x\<in>set (quiz_ids (df_Lessons d)). (EntityQuiz, x) \<in> ?K"
    using zk by (fastforce simp: quiz_ids_def List.map_filter_def quiz_keys_def)
  then have "distinct (quiz_ids (df_Lessons ?d))"
    unfolding quizzes using renamable_distinct[OF ren] pub by (simp add: publishable_def)
  moreover have "lesson_ok w (map sec_ID (df_Sections ?d)) (?h l)" if l: "l \<in> set (df_Lessons d)" for l
  proof -
    have ok: "lesson_ok v (map sec_ID (df_Sections d)) l" using pub l by (simp add: publishable_def)
    have "m EntityLesson (les_ID l) \<noteq> ''''" using renamable_ne[OF ren] lid l by simp
    moreover have "quiz_ok (rename_quiz m z)" if "les_Quiz l = Some z" for z
      using rename_quiz_ok[OF ren] ok zk l that by (simp add: lesson_ok_def)
    moreover have "\<forall>f\<in>set (les_FileIDs l). file_ok w (m EntityFile f)"
      using files lk l by (auto simp: lesson_keys_def)
    ultimately show ?thesis
      using ok unfolding lesson_ok_def section_ids fields rich by auto
  qed
  moreover have "fills_range (map les_Order (filter (\<lambda>l. les_SectionID l = m EntitySection (sec_ID s)) (df_Lessons ?d)))
      \<and> filter (\<lambda>l. les_SectionID l = m EntitySection (sec_ID s)) (df_Lessons ?d) \<noteq> []"
    if s: "s \<in> set (df_Sections d)" for s
  proof -
    have "m EntitySection (les_SectionID l) = m EntitySection (sec_ID s) \<longleftrightarrow> les_SectionID l = sec_ID s"
      if "l \<in> set (df_Lessons d)" for l
    proof (rule renamable_inj[OF ren])
      show "(EntitySection, les_SectionID l) \<in> ?K" using sk secs that by blast
      show "(EntitySection, sec_ID s) \<in> ?K" using sk s by simp
    qed
    then have "filter (\<lambda>l. les_SectionID l = m EntitySection (sec_ID s)) (df_Lessons ?d) =
        map ?h (filter (\<lambda>l. les_SectionID l = sec_ID s) (df_Lessons d))"
      by (simp add: d filter_map o_def fields cong: filter_cong)
    then show ?thesis using pub s by (simp add: publishable_def Let_def o_def fields)
  qed
  moreover have "distinct (map sec_ID (df_Sections ?d))" "distinct (map les_ID (df_Lessons ?d))"
    using renamable_distinct[OF ren sk] renamable_distinct[OF ren lid] pub
    by (simp_all add: publishable_def section_ids d o_def fields)
  moreover have "\<forall>x. df_CoverFileID d = Some x \<longrightarrow> file_ok w (m EntityFile x)"
    using files by (simp add: definition_keys_def)
  moreover have "\<forall>s\<in>set (df_Sections d). m EntitySection (sec_ID s) \<noteq> ''''"
    using renamable_ne[OF ren] sk by simp
  ultimately show ?thesis
    using pub unfolding publishable_def d by (auto simp: o_def fields Let_def)
qed

end
