(* ===== verification/Course_Copy.thy ===== *)
theory Course_Copy
  imports Remap
begin

section \<open>Copies of partner courses\<close>

text \<open>
  The package \<^verbatim>\<open>services/academy/internal/domain/coursecopy\<close> (\<^verbatim>\<open>copy.go\<close>): a new company course with
  one draft, made from a published version of a partner course.
\<close>

datatype copy_error = ErrPartnerSourceRequired | ErrPublishedSourceRequired | ErrSourceVersionMismatch
  | ErrSourceUnavailable | ErrDestinationCourseRequired | ErrDestinationVersionNeeded
  | Copy_ErrCreatorRequired | Copy_ErrCreatedAtRequired | ErrIDMapperRequired
  | Copy_RemapErr remap_error | Copy_CourseErr course_error | Copy_VersionErr version_error

record Origin =
  og_SourceCourseID :: ID
  og_SourceVersionID :: ID
  og_SourcePartnerID :: ID

record copy_params =
  kp_SourceCourse :: course
  kp_SourceVersion :: course_version
  kp_DestinationCourseID :: ID
  kp_DestinationVersionID :: ID
  kp_CreatedByID :: ID
  kp_CreatedAt :: time
  kp_MapID :: "IDMapper option"

record copy_plan =
  pl_Course :: course
  pl_Draft :: course_version
  pl_Origin :: Origin

definition remap_option :: "IDMapper \<Rightarrow> AnswerOption \<Rightarrow> AnswerOption remapping" where
  "remap_option m opt = bindR (mapID m EntityOption (op_ID opt)) (\<lambda>optionID. returnR (opt\<lparr>op_ID := optionID\<rparr>))"

definition remap_question :: "IDMapper \<Rightarrow> Question \<Rightarrow> Question remapping" where
  "remap_question m value =
     bindR (mapID m EntityQuestion (qn_ID value)) (\<lambda>questionID.
     bindR (mapR (remap_option m) (qn_Options value)) (\<lambda>options.
     returnR (value\<lparr>qn_ID := questionID, qn_Options := options\<rparr>)))"

definition remapQuiz :: "IDMapper \<Rightarrow> Quiz \<Rightarrow> Quiz remapping" where
  "remapQuiz m source =
     bindR (mapID m EntityQuiz (qz_ID source)) (\<lambda>quizID.
     bindR (mapR (remap_question m) (qz_Questions source)) (\<lambda>questions.
     returnR (source\<lparr>qz_ID := quizID, qz_MaxAttempts := clone_opt (qz_MaxAttempts source),
                     qz_Questions := questions\<rparr>)))"

definition remap_section :: "IDMapper \<Rightarrow> Section \<Rightarrow> Section remapping" where
  "remap_section m value =
     bindR (mapID m EntitySection (sec_ID value)) (\<lambda>mapped. returnR (value\<lparr>sec_ID := mapped\<rparr>))"

text \<open>The map \<^verbatim>\<open>sectionIDs\<close>, in which a later section overwrites an earlier one.\<close>

definition section_ids :: "Section list \<Rightarrow> Section list \<Rightarrow> ID \<rightharpoonup> ID" where
  "section_ids sources mapped = map_of (rev (zip (map sec_ID sources) (map sec_ID mapped)))"

definition copy_lesson :: "IDMapper \<Rightarrow> (ID \<rightharpoonup> ID) \<Rightarrow> Lesson \<Rightarrow> Lesson remapping" where
  "copy_lesson m sectionIDs value =
     bindR (mapID m EntityLesson (les_ID value)) (\<lambda>lessonID.
     case sectionIDs (les_SectionID value) of
       None \<Rightarrow> failR Remap_ErrLessonSectionMissing
     | Some sectionID \<Rightarrow>
        let lesson = value\<lparr>les_ID := lessonID, les_SectionID := sectionID,
              les_Content := [] @ les_Content value,
              les_SourceArticleID := clone_opt (les_SourceArticleID value),
              les_SourceArticleVersion := clone_opt (les_SourceArticleVersion value),
              les_SourceTemplateID := clone_opt (les_SourceTemplateID value),
              les_SourceTemplateVersionID := clone_opt (les_SourceTemplateVersionID value),
              les_EstimatedMinutes := clone_opt (les_EstimatedMinutes value)\<rparr>;
            lesson = (if les_SourceType lesson = ''kb_link'' then lesson\<lparr>les_SourceType := ''kb_snapshot''\<rparr>
                      else lesson)
        in bindR (mapR (mapID m EntityFile) (les_FileIDs value)) (\<lambda>files.
           bindR (optionR (remapQuiz m) (les_Quiz value)) (\<lambda>quiz.
           returnR (lesson\<lparr>les_FileIDs := files, les_Quiz := quiz\<rparr>))))"

definition remapDefinition :: "IDMapper \<Rightarrow> Definition \<Rightarrow> Definition remapping" where
  "remapDefinition m source =
     bindR (optionR (mapID m EntityFile) (df_CoverFileID source)) (\<lambda>cover.
     bindR (mapR (remap_section m) (df_Sections source)) (\<lambda>sections.
     bindR (mapR (copy_lesson m (section_ids (df_Sections source) sections)) (df_Lessons source)) (\<lambda>lessons.
     returnR (source\<lparr>df_Description := clone_opt (df_Description source),
       df_CoverURL := clone_opt (df_CoverURL source),
       df_DefaultInternalDeadlineDays := clone_opt (df_DefaultInternalDeadlineDays source),
       df_CoverFileID := cover, df_Sections := sections, df_Lessons := lessons\<rparr>))))"

definition CopyPartnerVersion :: "copy_params \<Rightarrow> copy_error + copy_plan" where
  "CopyPartnerVersion params =
     (let root = kp_SourceCourse params; version = kp_SourceVersion params in
      case Course_Validate root of Some err \<Rightarrow> Inl (Copy_CourseErr err) | None \<Rightarrow>
      case (if crs_OwnerType root = CourseOwnerPartner then crs_OwnerUserID root else None) of
        None \<Rightarrow> Inl ErrPartnerSourceRequired
      | Some partner \<Rightarrow>
      if crs_LifecycleStatus root = CourseDeleted \<or> crs_DistributionStatus root = DistributionBlocked
        then Inl ErrSourceUnavailable
      else if vn_Status version \<noteq> StatusPublished then Inl ErrPublishedSourceRequired
      else if vn_CourseID version \<noteq> crs_ID root \<or> vn_CompanyID version \<noteq> crs_CompanyID root
        then Inl ErrSourceVersionMismatch
      else case Version_Rehydrate version of Inl err \<Rightarrow> Inl (Copy_VersionErr err) | Inr _ \<Rightarrow>
      if kp_DestinationCourseID params = '''' \<or> kp_DestinationCourseID params = crs_ID root
        then Inl ErrDestinationCourseRequired
      else if kp_DestinationVersionID params = '''' \<or> kp_DestinationVersionID params = vn_ID version
        then Inl ErrDestinationVersionNeeded
      else if kp_CreatedByID params = '''' then Inl Copy_ErrCreatorRequired
      else if IsZero (kp_CreatedAt params) then Inl Copy_ErrCreatedAtRequired
      else case kp_MapID params of None \<Rightarrow> Inl ErrIDMapperRequired | Some m \<Rightarrow>
      case remapDefinition m (vn_Definition version) new_remapper of
        Inl err \<Rightarrow> Inl (Copy_RemapErr err)
      | Inr (definition, _) \<Rightarrow>
      case NewDraft \<lparr>nd_ID = kp_DestinationVersionID params, nd_CompanyID = crs_CompanyID root,
             nd_CourseID = kp_DestinationCourseID params, nd_Number = 1, nd_Definition = definition,
             nd_CreatedByID = kp_CreatedByID params, nd_CreatedAt = UTC (kp_CreatedAt params)\<rparr> of
        Inl err \<Rightarrow> Inl (Copy_VersionErr err)
      | Inr draft \<Rightarrow>
          Inr \<lparr>pl_Course = \<lparr>crs_ID = kp_DestinationCourseID params, crs_CompanyID = crs_CompanyID root,
                  crs_OwnerType = CourseOwnerCompany, crs_OwnerUserID = None,
                  crs_LifecycleStatus = CourseActive, crs_DistributionStatus = DistributionActive\<rparr>,
               pl_Draft = draft,
               pl_Origin = \<lparr>og_SourceCourseID = crs_ID root, og_SourceVersionID = vn_ID version,
                  og_SourcePartnerID = partner\<rparr>\<rparr>)"

subsection \<open>The copy is the source renamed\<close>

lemma renames_remap_option:
  "renames m (remap_option m opt) True {(EntityOption, op_ID opt)} (rename_option m opt)"
  using renames_bind[OF renames_mapID renames_return, of m EntityOption "op_ID opt"]
  by (simp add: remap_option_def rename_option_def)

lemma renames_remap_question:
  "renames m (remap_question m q) True (question_keys q) (rename_question m q)"
proof -
  have "renames m (mapR (remap_option m) (qn_Options q)) (\<forall>opt\<in>set (qn_Options q). True)
      (\<Union>opt\<in>set (qn_Options q). {(EntityOption, op_ID opt)}) (map (rename_option m) (qn_Options q))"
    by (rule renames_map) (rule renames_remap_option)
  from renames_bind[OF renames_mapID renames_bind[OF this renames_return]] show ?thesis
    by (simp add: remap_question_def question_keys_def rename_question_def)
qed

lemma renames_remapQuiz: "renames m (remapQuiz m z) True (quiz_keys z) (rename_quiz m z)"
proof -
  have "renames m (mapR (remap_question m) (qz_Questions z)) (\<forall>q\<in>set (qz_Questions z). True)
      (\<Union>q\<in>set (qz_Questions z). question_keys q) (map (rename_question m) (qz_Questions z))"
    by (rule renames_map) (rule renames_remap_question)
  from renames_bind[OF renames_mapID renames_bind[OF this renames_return]] show ?thesis
    by (simp add: remapQuiz_def quiz_keys_def rename_quiz_def)
qed

lemma renames_remap_section:
  "renames m (remap_section m s) True {(EntitySection, sec_ID s)} (rename_section m s)"
  using renames_bind[OF renames_mapID renames_return, of m EntitySection "sec_ID s"]
  by (simp add: remap_section_def rename_section_def)


definition freeze_source :: "Lesson \<Rightarrow> Lesson" where
  "freeze_source l = (if les_SourceType l = ''kb_link'' then l\<lparr>les_SourceType := ''kb_snapshot''\<rparr> else l)"

lemma section_ids_lookup:
  "section_ids ss (map (rename_section m) ss) x =
     (if x \<in> sec_ID ` set ss then Some (m EntitySection x) else None)"
proof -
  have zip: "zip (map sec_ID ss) (map sec_ID (map (rename_section m) ss)) =
      map (\<lambda>s. (sec_ID s, m EntitySection (sec_ID s))) ss"
    by (induction ss) simp_all
  have "map_of (map (\<lambda>s. (sec_ID s, m EntitySection (sec_ID s))) us) x =
      (if x \<in> sec_ID ` set us then Some (m EntitySection x) else None)" for us
    by (induction us) auto
  from this[of "rev ss"] show ?thesis unfolding section_ids_def zip rev_map by simp
qed


text \<open>The shape that the loops over lessons and over a definition have in both packages.\<close>

lemma renames_lesson:
  assumes quiz: "\<And>z. renames m (qr z) True (quiz_keys z) (rename_quiz m z)"
    and ids: "\<And>x. ids x = (if x \<in> S then Some (m EntitySection x) else None)"
  shows "renames m
    (bindR (mapID m EntityLesson (les_ID l)) (\<lambda>i. case ids (les_SectionID l) of None \<Rightarrow> failR err
       | Some j \<Rightarrow> bindR (mapR (mapID m EntityFile) (les_FileIDs l)) (\<lambda>fs.
           bindR (optionR qr (les_Quiz l)) (\<lambda>z. returnR (F i j fs z)))))
    (les_SectionID l \<in> S) (lesson_keys l)
    (F (m EntityLesson (les_ID l)) (m EntitySection (les_SectionID l)) (map (m EntityFile) (les_FileIDs l))
      (map_option (rename_quiz m) (les_Quiz l)))"
    (is "renames m ?f _ _ ?r")
proof (cases "les_SectionID l \<in> S")
  case True
  have files: "renames m (mapR (mapID m EntityFile) (les_FileIDs l)) (\<forall>f\<in>set (les_FileIDs l). True)
      (\<Union>f\<in>set (les_FileIDs l). {(EntityFile, f)}) (map (m EntityFile) (les_FileIDs l))"
    by (rule renames_map) (rule renames_mapID)
  have quizzes: "renames m (optionR qr (les_Quiz l)) (\<forall>z\<in>set_option (les_Quiz l). True)
      (\<Union>z\<in>set_option (les_Quiz l). quiz_keys z) (map_option (rename_quiz m) (les_Quiz l))"
    by (rule renames_option) (rule quiz)
  have "renames m ?f (True \<and> (\<forall>f\<in>set (les_FileIDs l). True) \<and> (\<forall>z\<in>set_option (les_Quiz l). True) \<and> True)
      ({(EntityLesson, les_ID l)} \<union> ((\<Union>f\<in>set (les_FileIDs l). {(EntityFile, f)}) \<union>
        ((\<Union>z\<in>set_option (les_Quiz l). quiz_keys z) \<union> {}))) ?r"
    by (rule renames_bind[OF renames_mapID], simp only: ids True if_True option.case,
        rule renames_bind[OF files], rule renames_bind[OF quizzes], rule renames_return)
  with True show ?thesis by (simp add: lesson_keys_def Un_assoc)
next
  case False
  then have "renames m ?f (True \<and> False) ({(EntityLesson, les_ID l)} \<union> lesson_keys l) ?r"
    by (intro renames_bind[OF renames_mapID]) (simp add: ids renames_fail)
  moreover have "{(EntityLesson, les_ID l)} \<union> lesson_keys l = lesson_keys l" by (auto simp: lesson_keys_def)
  ultimately show ?thesis using False by simp
qed

lemma renames_definition:
  assumes lesson: "\<And>l ids. (\<And>x. ids x = (if x \<in> sec_ID ` set (df_Sections d) then Some (m EntitySection x) else None)) \<Longrightarrow>
      renames m (f ids l) (les_SectionID l \<in> sec_ID ` set (df_Sections d)) (lesson_keys l) (g (rename_lesson m l))"
    and result: "F (map_option (m EntityFile) (df_CoverFileID d)) (map (rename_section m) (df_Sections d))
      (map (\<lambda>l. g (rename_lesson m l)) (df_Lessons d)) = rename_definition m g d"
  shows "renames m
    (bindR (optionR (mapID m EntityFile) (df_CoverFileID d)) (\<lambda>cover.
     bindR (mapR (remap_section m) (df_Sections d)) (\<lambda>sections.
     bindR (mapR (f (section_ids (df_Sections d) sections)) (df_Lessons d)) (\<lambda>lessons.
     returnR (F cover sections lessons)))))
    (sections_exist d) (definition_keys d) (rename_definition m g d)" (is "renames m ?f _ _ _")
proof -
  have cover: "renames m (optionR (mapID m EntityFile) (df_CoverFileID d)) (\<forall>f\<in>set_option (df_CoverFileID d). True)
      (\<Union>f\<in>set_option (df_CoverFileID d). {(EntityFile, f)}) (map_option (m EntityFile) (df_CoverFileID d))"
    by (rule renames_option) (rule renames_mapID)
  have secs: "renames m (mapR (remap_section m) (df_Sections d)) (\<forall>s\<in>set (df_Sections d). True)
      (\<Union>s\<in>set (df_Sections d). {(EntitySection, sec_ID s)}) (map (rename_section m) (df_Sections d))"
    by (rule renames_map) (rule renames_remap_section)
  have lessons: "renames m
      (mapR (f (section_ids (df_Sections d) (map (rename_section m) (df_Sections d)))) (df_Lessons d))
      (\<forall>l\<in>set (df_Lessons d). les_SectionID l \<in> sec_ID ` set (df_Sections d))
      (\<Union>l\<in>set (df_Lessons d). lesson_keys l) (map (\<lambda>l. g (rename_lesson m l)) (df_Lessons d))"
    by (rule renames_map) (rule lesson, rule section_ids_lookup)
  have "renames m ?f
      ((\<forall>f\<in>set_option (df_CoverFileID d). True) \<and> (\<forall>s\<in>set (df_Sections d). True) \<and>
       (\<forall>l\<in>set (df_Lessons d). les_SectionID l \<in> sec_ID ` set (df_Sections d)) \<and> True)
      ((\<Union>f\<in>set_option (df_CoverFileID d). {(EntityFile, f)}) \<union>
       ((\<Union>s\<in>set (df_Sections d). {(EntitySection, sec_ID s)}) \<union> ((\<Union>l\<in>set (df_Lessons d). lesson_keys l) \<union> {})))
      (rename_definition m g d)"
    by (rule renames_bind[OF cover], rule renames_bind[OF secs], rule renames_bind[OF lessons])
      (simp only: result renames_return)
  then show ?thesis by (simp add: definition_keys_def sections_exist_def Un_assoc)
qed

lemma renames_copy_lesson:
  assumes "\<And>x. ids x = (if x \<in> S then Some (m EntitySection x) else None)"
  shows "renames m (copy_lesson m ids l) (les_SectionID l \<in> S) (lesson_keys l) (freeze_source (rename_lesson m l))"
  unfolding copy_lesson_def Let_def
  by (rule renames_result, rule renames_lesson, rule renames_remapQuiz, rule assms, cases l)
    (simp add: freeze_source_def rename_lesson_def)

lemma renames_remapDefinition:
  "renames m (remapDefinition m d) (sections_exist d) (definition_keys d) (rename_definition m freeze_source d)"
  unfolding remapDefinition_def
  by (rule renames_definition) (erule renames_copy_lesson, simp add: rename_definition_def)

subsection \<open>Properties\<close>

definition copy_allowed :: "copy_params \<Rightarrow> bool" where
  "copy_allowed p \<longleftrightarrow>
     Course_Validate (kp_SourceCourse p) = None \<and> crs_OwnerType (kp_SourceCourse p) = CourseOwnerPartner \<and>
     crs_LifecycleStatus (kp_SourceCourse p) \<noteq> CourseDeleted \<and>
     crs_DistributionStatus (kp_SourceCourse p) \<noteq> DistributionBlocked \<and>
     vn_Status (kp_SourceVersion p) = StatusPublished \<and> validateVersion (kp_SourceVersion p) = None \<and>
     vn_CourseID (kp_SourceVersion p) = crs_ID (kp_SourceCourse p) \<and>
     vn_CompanyID (kp_SourceVersion p) = crs_CompanyID (kp_SourceCourse p) \<and>
     kp_DestinationCourseID p \<notin> {'''', crs_ID (kp_SourceCourse p)} \<and>
     kp_DestinationVersionID p \<notin> {'''', vn_ID (kp_SourceVersion p)} \<and>
     kp_CreatedByID p \<noteq> '''' \<and> kp_CreatedAt p \<noteq> 0"

lemma partner_owner:
  "Course_Validate c = None \<Longrightarrow> crs_OwnerType c = CourseOwnerPartner \<Longrightarrow>
     \<exists>u. crs_OwnerUserID c = Some u \<and> u \<noteq> ''''"
  by (cases "crs_OwnerUserID c") (auto simp: Course_Validate_def ValidateOwnership_def split: if_splits)

lemma Version_Rehydrate_eq:
  "Version_Rehydrate v = (case validateVersion v of Some err \<Rightarrow> Inl err | None \<Rightarrow> Inr v)"
  by (simp add: Version_Rehydrate_def split: option.split)

definition copy_draft :: "copy_params \<Rightarrow> Definition \<Rightarrow> course_version" where
  "copy_draft p d =
     \<lparr>vn_ID = kp_DestinationVersionID p, vn_CompanyID = crs_CompanyID (kp_SourceCourse p),
      vn_CourseID = kp_DestinationCourseID p, vn_Number = 1, vn_Status = StatusDraft, vn_Definition = d,
      vn_CreatedByID = kp_CreatedByID p, vn_CreatedAt = kp_CreatedAt p, vn_PublishedByID = None,
      vn_PublishedAt = None, vn_ContentHash = ''''\<rparr>"

lemma copy_draft_valid: "copy_allowed p \<Longrightarrow> validateVersion (copy_draft p d) = None"
  by (auto simp: copy_allowed_def copy_draft_def validateVersion_def Course_Validate_def split: if_splits)

lemma CopyPartnerVersion_eq:
  assumes "kp_MapID p = Some m" "copy_allowed p"
  shows "CopyPartnerVersion p =
    (case remapDefinition m (vn_Definition (kp_SourceVersion p)) new_remapper of
       Inl err \<Rightarrow> Inl (Copy_RemapErr err)
     | Inr (d, _) \<Rightarrow>
        Inr \<lparr>pl_Course = \<lparr>crs_ID = kp_DestinationCourseID p, crs_CompanyID = crs_CompanyID (kp_SourceCourse p),
                crs_OwnerType = CourseOwnerCompany, crs_OwnerUserID = None,
                crs_LifecycleStatus = CourseActive, crs_DistributionStatus = DistributionActive\<rparr>,
             pl_Draft = copy_draft p d,
             pl_Origin = \<lparr>og_SourceCourseID = crs_ID (kp_SourceCourse p),
                og_SourceVersionID = vn_ID (kp_SourceVersion p),
                og_SourcePartnerID = the (crs_OwnerUserID (kp_SourceCourse p))\<rparr>\<rparr>)"
proof -
  obtain u where u: "crs_OwnerUserID (kp_SourceCourse p) = Some u"
    using assms(2) partner_owner by (auto simp: copy_allowed_def)
  have draft: "NewDraft \<lparr>nd_ID = kp_DestinationVersionID p, nd_CompanyID = crs_CompanyID (kp_SourceCourse p),
      nd_CourseID = kp_DestinationCourseID p, nd_Number = 1, nd_Definition = d,
      nd_CreatedByID = kp_CreatedByID p, nd_CreatedAt = kp_CreatedAt p\<rparr> = Inr (copy_draft p d)" for d
    using copy_draft_valid[OF assms(2), of d] by (simp add: NewDraft_def Version_Rehydrate_eq copy_draft_def)
  show ?thesis
    using assms u unfolding CopyPartnerVersion_def Let_def copy_allowed_def
    by (simp add: Version_Rehydrate_eq draft cong: sum.case_cong)
qed

lemma CopyPartnerVersion_allowed: "CopyPartnerVersion p = Inr plan \<Longrightarrow> copy_allowed p"
  by (auto simp: CopyPartnerVersion_def copy_allowed_def Let_def Version_Rehydrate_eq
      split: option.splits if_splits)

text \<open>(C12) A published version of a partner course is copied exactly when the course is neither deleted nor
  blocked, the destination identifiers are new, every lesson belongs to a section, and the
  mapper gives all sections, lessons, quizzes, questions, options and files new identifiers that
  never collide. The result is a valid company course with a valid first draft whose content is
  the source with its identifiers renamed and links to the knowledge base frozen; if the source
  can be published and the new files are available, so can the copy.\<close>

theorem CopyPartnerVersion_correct:
  assumes "kp_MapID p = Some m" "d = vn_Definition (kp_SourceVersion p)"
  shows "((\<exists>plan. CopyPartnerVersion p = Inr plan) \<longleftrightarrow>
      copy_allowed p \<and> sections_exist d \<and> renamable m (definition_keys d)) \<and>
    (\<forall>plan. CopyPartnerVersion p = Inr plan \<longrightarrow>
      Course_Validate (pl_Course plan) = None \<and> crs_OwnerType (pl_Course plan) = CourseOwnerCompany \<and>
      validateVersion (pl_Draft plan) = None \<and> vn_Status (pl_Draft plan) = StatusDraft \<and>
      vn_CourseID (pl_Draft plan) = crs_ID (pl_Course plan) \<and>
      vn_Definition (pl_Draft plan) = rename_definition m freeze_source d \<and>
      (\<forall>v w. publishable v d \<longrightarrow> pv_RichText w = pv_RichText v \<longrightarrow>
         (\<forall>f. (EntityFile, f) \<in> definition_keys d \<longrightarrow> file_ok w (m EntityFile f)) \<longrightarrow>
         publishable w (vn_Definition (pl_Draft plan))))"
proof -
  note run = renames_run[OF renames_remapDefinition[of m d]]
  have iff: "(\<exists>plan. CopyPartnerVersion p = Inr plan) \<longleftrightarrow>
      copy_allowed p \<and> sections_exist d \<and> renamable m (definition_keys d)"
    using CopyPartnerVersion_eq[OF assms(1)] CopyPartnerVersion_allowed[of p] run(1)
    unfolding assms(2)[symmetric] by (fastforce split: sum.splits)
  have "Course_Validate (pl_Course plan) = None \<and> crs_OwnerType (pl_Course plan) = CourseOwnerCompany \<and>
      validateVersion (pl_Draft plan) = None \<and> vn_Status (pl_Draft plan) = StatusDraft \<and>
      vn_CourseID (pl_Draft plan) = crs_ID (pl_Course plan) \<and> renamable m (definition_keys d) \<and>
      vn_Definition (pl_Draft plan) = rename_definition m freeze_source d"
    if plan: "CopyPartnerVersion p = Inr plan" for plan
  proof -
    have ok: "copy_allowed p" using CopyPartnerVersion_allowed[OF plan] .
    with plan CopyPartnerVersion_eq[OF assms(1)] obtain d' r where
      d': "remapDefinition m d new_remapper = Inr (d', r)" and
      c: "pl_Course plan = \<lparr>crs_ID = kp_DestinationCourseID p, crs_CompanyID = crs_CompanyID (kp_SourceCourse p),
                crs_OwnerType = CourseOwnerCompany, crs_OwnerUserID = None,
                crs_LifecycleStatus = CourseActive, crs_DistributionStatus = DistributionActive\<rparr>"
        "pl_Draft plan = copy_draft p d'"
      unfolding assms(2)[symmetric] by (auto split: sum.splits)
    from ok have "Course_Validate (pl_Course plan) = None"
      unfolding c copy_allowed_def by (auto simp: Course_Validate_def ValidateOwnership_def split: if_splits)
    with run(2)[OF d'] copy_draft_valid[OF ok] show ?thesis
      unfolding c by (simp add: copy_draft_def)
  qed
  moreover have "checked_fields (freeze_source l) = checked_fields l" for l
    by (simp add: freeze_source_def checked_fields_def)
  ultimately show ?thesis using iff publishable_renamed[of m d _ _ freeze_source] by simp
qed

definition prefix_mapper :: IDMapper where
  "prefix_mapper kind x =
     (case kind of EntitySection \<Rightarrow> ''S'' | EntityLesson \<Rightarrow> ''L'' | EntityQuiz \<Rightarrow> ''Q'' | EntityQuestion \<Rightarrow> ''N''
      | EntityOption \<Rightarrow> ''O'' | EntityFile \<Rightarrow> ''F'') @ x"

definition example_copy :: copy_params where
  "example_copy =
     \<lparr>kp_SourceCourse = example_course, kp_SourceVersion = fst example_publish,
      kp_DestinationCourseID = ''k2'', kp_DestinationVersionID = ''w1'', kp_CreatedByID = ''admin'',
      kp_CreatedAt = 50, kp_MapID = Some prefix_mapper\<rparr>"

theorem CopyPartnerVersion_correct_witness:
  "\<exists>plan. CopyPartnerVersion example_copy = Inr plan \<and>
     publishable (example_validators\<lparr>pv_FileAvailable := Some (\<lambda>f. f = ''Ff1'')\<rparr>) (vn_Definition (pl_Draft plan))"
proof -
  have "case CopyPartnerVersion example_copy of Inl _ \<Rightarrow> False | Inr _ \<Rightarrow> True" by code_simp
  then obtain plan where plan: "CopyPartnerVersion example_copy = Inr plan" by (auto split: sum.splits)
  have d: "vn_Definition (kp_SourceVersion example_copy) = example_definition" by code_simp
  have keys: "(EntityFile, f) \<in> definition_keys example_definition \<Longrightarrow> f = ''f1''" for f
    by (auto simp: definition_keys_def lesson_keys_def quiz_keys_def question_keys_def example_definition_def)
  have "ValidateDefinitionForPublication rev example_definition example_validators = None" by code_simp
  then have "publishable example_validators example_definition" using publication_iff[of rev] by simp
  moreover have m: "kp_MapID example_copy = Some prefix_mapper" by (simp add: example_copy_def)
  moreover have "file_ok (example_validators\<lparr>pv_FileAvailable := Some (\<lambda>f. f = ''Ff1'')\<rparr>) (prefix_mapper EntityFile f)"
    if "(EntityFile, f) \<in> definition_keys example_definition" for f
    using keys[OF that] by (simp add: file_ok_def prefix_mapper_def)
  moreover have "pv_RichText (example_validators\<lparr>pv_FileAvailable := Some (\<lambda>f. f = ''Ff1'')\<rparr>) =
      pv_RichText example_validators" by simp
  ultimately
  have "publishable (example_validators\<lparr>pv_FileAvailable := Some (\<lambda>f. f = ''Ff1'')\<rparr>) (vn_Definition (pl_Draft plan))"
    using CopyPartnerVersion_correct[OF m d[symmetric]] plan by blast
  with plan show ?thesis by blast
qed

end
