(* ===== verification/Template.thy ===== *)
theory Template
  imports Course_Publication
begin

section \<open>Course templates and their versions\<close>

text \<open>
  The package \<^verbatim>\<open>services/academy/internal/domain/template\<close>: the template root with its pointers to
  the current draft and the latest published version (\<^verbatim>\<open>template.go\<close>), its versions
  (\<^verbatim>\<open>version.go\<close>) and their numbering (\<^verbatim>\<open>sequence.go\<close>). A template version has the definition
  of a course version and the same content hash.
\<close>

datatype template_type = TypeSystem | TypeCompany | TemplateTypeOther string

datatype template_lifecycle = LifecycleActive | LifecycleArchived | TemplateLifecycleOther string

datatype template_version_status = VersionDraft | VersionPublished | TemplateVersionStatusOther string

definition systemTemplateKeys :: "string list" where
  "systemTemplateKeys =
     [''employee-onboarding'', ''sales-manager-onboarding'', ''manager-onboarding'',
      ''company-and-product-intro'', ''information-security'', ''customer-service-standards'',
      ''crm-basics'', ''regulations-knowledge-check'', ''intern-preparation'', ''external-partner-course'']"

datatype template_error = ErrTemplateIDRequired | Template_ErrCompanyIDRequired
  | Template_ErrCreatorRequired | Template_ErrCreatedAtRequired | ErrUnknownTemplateType
  | ErrUnknownLifecycle | ErrSystemTemplateKeyRequired | ErrUnknownSystemTemplateKey
  | ErrSystemPublishedRequired | ErrCompanyTemplateHasKey | ErrSystemTemplateHasDraft
  | ErrSystemTemplateArchived | ErrVersionPointersEqual | ErrSystemTemplateImmutable
  | ErrTemplateAlreadyArchived | ErrTemplateArchived | ErrVersionTemplateMismatch
  | ErrDraftPointerMismatch
  | Template_ErrVersionIDRequired | ErrTemplateVersionRequired | Template_ErrVersionNumberInvalid
  | ErrUnknownVersionStatus | Template_ErrPublishedMetadataRequired
  | Template_ErrDraftPublishedMetadata | Template_ErrPublishedVersionImmutable
  | ErrOnlyDraftCanBeEdited | ErrOnlyDraftCanBePublished | Template_ErrPublisherRequired
  | Template_ErrPublishedAtRequired | ErrSystemVersionRequiresRoot | ErrCompanyDraftRequiresRoot
  | Template_ErrDuplicateVersionNumber | Template_ErrVersionNumberGap | Template_ErrMultipleDrafts
  | Template_ErrDraftAlreadyExists | Template_ErrDraftMustBeLatest
  | Template_ErrVersionNumberConflict
  | Template_PublicationErr publication_error

record template =
  tm_ID :: ID
  tm_CompanyID :: ID
  tm_Type :: template_type
  tm_SystemTemplateKey :: "string option"
  tm_LifecycleStatus :: template_lifecycle
  tm_CurrentDraftVersionID :: "ID option"
  tm_LatestPublishedVersionID :: "ID option"
  tm_CreatedByID :: ID
  tm_CreatedAt :: time

record template_version =
  tv_ID :: ID
  tv_CompanyID :: ID
  tv_TemplateID :: ID
  tv_Number :: int
  tv_Status :: template_version_status
  tv_Definition :: Definition
  tv_CreatedByID :: ID
  tv_CreatedAt :: time
  tv_PublishedByID :: "ID option"
  tv_PublishedAt :: "time option"
  tv_ContentHash :: string

record template_draft_params =
  td_ID :: ID
  td_Number :: int
  td_Definition :: Definition
  td_CreatedByID :: ID
  td_CreatedAt :: time

record template_publish_params =
  tp_ActorID :: ID
  tp_At :: time

subsection \<open>The root\<close>

definition IsSystemTemplateKey :: "string \<Rightarrow> bool" where
  "IsSystemTemplateKey key \<longleftrightarrow> List.member systemTemplateKeys key"

definition Template_Validate :: "template \<Rightarrow> template_error option" where
  "Template_Validate s =
     (if tm_ID s = '''' then Some ErrTemplateIDRequired
      else if tm_CompanyID s = '''' then Some Template_ErrCompanyIDRequired
      else if tm_CreatedByID s = '''' then Some Template_ErrCreatorRequired
      else if IsZero (tm_CreatedAt s) then Some Template_ErrCreatedAtRequired
      else if tm_LifecycleStatus s \<noteq> LifecycleActive \<and> tm_LifecycleStatus s \<noteq> LifecycleArchived
        then Some ErrUnknownLifecycle
      else if tm_CurrentDraftVersionID s \<noteq> None \<and> tm_LatestPublishedVersionID s \<noteq> None \<and>
              tm_CurrentDraftVersionID s = tm_LatestPublishedVersionID s
        then Some ErrVersionPointersEqual
      else case tm_Type s of
          TypeSystem \<Rightarrow>
            if (case tm_SystemTemplateKey s of None \<Rightarrow> True | Some key \<Rightarrow> TrimSpace key = '''')
              then Some ErrSystemTemplateKeyRequired
            else if \<not> IsSystemTemplateKey (the (tm_SystemTemplateKey s)) then Some ErrUnknownSystemTemplateKey
            else if tm_CurrentDraftVersionID s \<noteq> None then Some ErrSystemTemplateHasDraft
            else if tm_LatestPublishedVersionID s = None \<or> tm_LatestPublishedVersionID s = Some ''''
              then Some ErrSystemPublishedRequired
            else if tm_LifecycleStatus s = LifecycleArchived then Some ErrSystemTemplateArchived
            else None
        | TypeCompany \<Rightarrow> if tm_SystemTemplateKey s \<noteq> None then Some ErrCompanyTemplateHasKey else None
        | TemplateTypeOther _ \<Rightarrow> Some ErrUnknownTemplateType)"

definition cloneTemplateSnapshot :: "template \<Rightarrow> template" where
  "cloneTemplateSnapshot value =
     value\<lparr>tm_SystemTemplateKey := clone_opt (tm_SystemTemplateKey value),
       tm_CurrentDraftVersionID := clone_opt (tm_CurrentDraftVersionID value),
       tm_LatestPublishedVersionID := clone_opt (tm_LatestPublishedVersionID value)\<rparr>"

definition RehydrateTemplate :: "template \<Rightarrow> template_error + template" where
  "RehydrateTemplate snapshot =
     (case Template_Validate snapshot of Some err \<Rightarrow> Inl err | None \<Rightarrow> Inr (cloneTemplateSnapshot snapshot))"

definition NewCompany :: "ID \<Rightarrow> ID \<Rightarrow> ID \<Rightarrow> time \<Rightarrow> template_error + template" where
  "NewCompany tid companyID creatorID createdAt =
     RehydrateTemplate
       \<lparr>tm_ID = tid, tm_CompanyID = companyID, tm_Type = TypeCompany, tm_SystemTemplateKey = None,
        tm_LifecycleStatus = LifecycleActive, tm_CurrentDraftVersionID = None,
        tm_LatestPublishedVersionID = None, tm_CreatedByID = creatorID, tm_CreatedAt = UTC createdAt\<rparr>"

definition NewSystem :: "ID \<Rightarrow> ID \<Rightarrow> ID \<Rightarrow> string \<Rightarrow> ID \<Rightarrow> time \<Rightarrow> template_error + template" where
  "NewSystem tid companyID creatorID key publishedVersionID createdAt =
     RehydrateTemplate
       \<lparr>tm_ID = tid, tm_CompanyID = companyID, tm_Type = TypeSystem, tm_SystemTemplateKey = Some key,
        tm_LifecycleStatus = LifecycleActive, tm_CurrentDraftVersionID = None,
        tm_LatestPublishedVersionID = (if publishedVersionID = '''' then None else Some publishedVersionID),
        tm_CreatedByID = creatorID, tm_CreatedAt = UTC createdAt\<rparr>"

definition assertCompanyEditable :: "template \<Rightarrow> template_error option" where
  "assertCompanyEditable t =
     (if tm_Type t = TypeSystem then Some ErrSystemTemplateImmutable
      else if tm_LifecycleStatus t = LifecycleArchived then Some ErrTemplateArchived
      else None)"

definition validateVersionScope :: "template \<Rightarrow> template_version \<Rightarrow> template_error option" where
  "validateVersionScope root version =
     (if tv_TemplateID version \<noteq> tm_ID root \<or> tv_CompanyID version \<noteq> tm_CompanyID root
      then Some ErrVersionTemplateMismatch else None)"

definition AttachDraft :: "template \<Rightarrow> template_version \<Rightarrow> template \<times> template_error option" where
  "AttachDraft t version =
     (case and_then (assertCompanyEditable t) (validateVersionScope t version) of
        Some err \<Rightarrow> (t, Some err)
      | None \<Rightarrow>
          if tv_Status version \<noteq> VersionDraft then (t, Some ErrOnlyDraftCanBeEdited)
          else if tm_CurrentDraftVersionID t \<noteq> None \<and> tm_CurrentDraftVersionID t \<noteq> Some (tv_ID version)
            then (t, Some Template_ErrDraftAlreadyExists)
          else (t\<lparr>tm_CurrentDraftVersionID := Some (tv_ID version)\<rparr>, None))"

definition RecordPublication :: "template \<Rightarrow> template_version \<Rightarrow> template \<times> template_error option" where
  "RecordPublication t version =
     (case and_then (assertCompanyEditable t) (validateVersionScope t version) of
        Some err \<Rightarrow> (t, Some err)
      | None \<Rightarrow>
          if tv_Status version \<noteq> VersionPublished then (t, Some ErrOnlyDraftCanBePublished)
          else if tm_CurrentDraftVersionID t \<noteq> Some (tv_ID version) then (t, Some ErrDraftPointerMismatch)
          else (t\<lparr>tm_LatestPublishedVersionID := Some (tv_ID version), tm_CurrentDraftVersionID := None\<rparr>, None))"

definition RecordSystemPublication :: "template \<Rightarrow> template_version \<Rightarrow> template \<times> template_error option" where
  "RecordSystemPublication t version =
     (if tm_Type t \<noteq> TypeSystem then (t, Some ErrSystemVersionRequiresRoot)
      else if tm_LifecycleStatus t \<noteq> LifecycleActive then (t, Some ErrTemplateArchived)
      else case validateVersionScope t version of
        Some err \<Rightarrow> (t, Some err)
      | None \<Rightarrow>
          if tv_Status version \<noteq> VersionPublished then (t, Some ErrOnlyDraftCanBePublished)
          else (t\<lparr>tm_LatestPublishedVersionID := Some (tv_ID version)\<rparr>, None))"

definition Template_Archive :: "template \<Rightarrow> template \<times> template_error option" where
  "Template_Archive t =
     (if tm_Type t = TypeSystem then (t, Some ErrSystemTemplateImmutable)
      else if tm_LifecycleStatus t = LifecycleArchived then (t, Some ErrTemplateAlreadyArchived)
      else (t\<lparr>tm_LifecycleStatus := LifecycleArchived\<rparr>, None))"

definition template_ptr ::
  "(template \<Rightarrow> template \<times> template_error option) \<Rightarrow> template option \<Rightarrow>
     template option \<times> template_error option" where
  "template_ptr method p =
     (case p of None \<Rightarrow> (None, Some ErrTemplateIDRequired) | Some t \<Rightarrow> map_prod Some id (method t))"

subsection \<open>Versions\<close>

definition validateVersionSnapshot :: "template_version \<Rightarrow> template_error option" where
  "validateVersionSnapshot v =
     (if tv_ID v = '''' then Some Template_ErrVersionIDRequired
      else if tv_CompanyID v = '''' then Some Template_ErrCompanyIDRequired
      else if tv_TemplateID v = '''' then Some ErrTemplateVersionRequired
      else if tv_Number v < 1 then Some Template_ErrVersionNumberInvalid
      else if tv_CreatedByID v = '''' then Some Template_ErrCreatorRequired
      else if IsZero (tv_CreatedAt v) then Some Template_ErrCreatedAtRequired
      else case tv_Status v of
          VersionDraft \<Rightarrow>
            if tv_PublishedByID v \<noteq> None \<or> tv_PublishedAt v \<noteq> None \<or> tv_ContentHash v \<noteq> ''''
            then Some Template_ErrDraftPublishedMetadata else None
        | VersionPublished \<Rightarrow>
            if tv_PublishedByID v = None \<or> tv_PublishedByID v = Some '''' \<or>
               tv_PublishedAt v = None \<or> tv_PublishedAt v = Some 0 \<or> tv_ContentHash v = ''''
            then Some Template_ErrPublishedMetadataRequired else None
        | TemplateVersionStatusOther _ \<Rightarrow> Some ErrUnknownVersionStatus)"

definition cloneVersionSnapshot :: "template_version \<Rightarrow> template_version" where
  "cloneVersionSnapshot v =
     v\<lparr>tv_Definition := cloneDefinition (tv_Definition v), tv_PublishedByID := clone_opt (tv_PublishedByID v),
       tv_PublishedAt := clone_opt (tv_PublishedAt v)\<rparr>"

definition RehydrateVersion :: "template_version \<Rightarrow> template_error + template_version" where
  "RehydrateVersion snapshot =
     (case validateVersionSnapshot snapshot of Some err \<Rightarrow> Inl err
      | None \<Rightarrow> Inr (cloneVersionSnapshot snapshot))"

definition Template_NewDraft :: "template \<Rightarrow> template_draft_params \<Rightarrow> template_error + template_version" where
  "Template_NewDraft root params =
     (case Template_Validate root of Some err \<Rightarrow> Inl err | None \<Rightarrow>
      if tm_Type root \<noteq> TypeCompany then Inl ErrCompanyDraftRequiresRoot
      else if tm_LifecycleStatus root \<noteq> LifecycleActive then Inl ErrTemplateArchived
      else RehydrateVersion
       \<lparr>tv_ID = td_ID params, tv_CompanyID = tm_CompanyID root, tv_TemplateID = tm_ID root,
        tv_Number = td_Number params, tv_Status = VersionDraft, tv_Definition = td_Definition params,
        tv_CreatedByID = td_CreatedByID params, tv_CreatedAt = UTC (td_CreatedAt params),
        tv_PublishedByID = None, tv_PublishedAt = None, tv_ContentHash = ''''\<rparr>)"

definition NewSystemPublished ::
  "hash_functions \<Rightarrow> (ID list \<Rightarrow> ID list) \<Rightarrow> template \<Rightarrow> template_draft_params \<Rightarrow>
     template_publish_params \<Rightarrow> PublicationValidators \<Rightarrow> template_error + template_version" where
  "NewSystemPublished hf iter root params publish validators =
     (case Template_Validate root of Some err \<Rightarrow> Inl err | None \<Rightarrow>
      if tm_Type root \<noteq> TypeSystem then Inl ErrSystemVersionRequiresRoot
      else if tp_ActorID publish = '''' then Inl Template_ErrPublisherRequired
      else if IsZero (tp_At publish) then Inl Template_ErrPublishedAtRequired
      else case ValidateDefinitionForPublication iter (td_Definition params) validators of
        Some err \<Rightarrow> Inl (Template_PublicationErr err)
      | None \<Rightarrow> RehydrateVersion
       \<lparr>tv_ID = td_ID params, tv_CompanyID = tm_CompanyID root, tv_TemplateID = tm_ID root,
        tv_Number = td_Number params, tv_Status = VersionPublished, tv_Definition = td_Definition params,
        tv_CreatedByID = td_CreatedByID params, tv_CreatedAt = UTC (td_CreatedAt params),
        tv_PublishedByID = Some (tp_ActorID publish), tv_PublishedAt = Some (UTC (tp_At publish)),
        tv_ContentHash = definitionHash hf (td_Definition params)\<rparr>)"

text \<open>The checks \<^verbatim>\<open>ReplaceDraft\<close> and \<^verbatim>\<open>Publish\<close> share, up to the error for an unknown status.\<close>

definition version_editable :: "template_error \<Rightarrow> template \<Rightarrow> template_version \<Rightarrow> template_error option" where
  "version_editable not_draft root v =
     (if tm_Type root = TypeSystem then Some ErrSystemTemplateImmutable
      else if tm_LifecycleStatus root = LifecycleArchived then Some ErrTemplateArchived
      else and_then (validateVersionScope root v)
        (if tv_Status v = VersionPublished then Some Template_ErrPublishedVersionImmutable
         else if tv_Status v \<noteq> VersionDraft then Some not_draft
         else None))"

definition Template_ReplaceDraft ::
  "template_version \<Rightarrow> template \<Rightarrow> Definition \<Rightarrow> template_version \<times> template_error option" where
  "Template_ReplaceDraft v root d =
     (case version_editable ErrOnlyDraftCanBeEdited root v of
        Some err \<Rightarrow> (v, Some err)
      | None \<Rightarrow> (v\<lparr>tv_Definition := cloneDefinition d\<rparr>, None))"

definition Template_Publish ::
  "hash_functions \<Rightarrow> (ID list \<Rightarrow> ID list) \<Rightarrow> template_version \<Rightarrow> template \<Rightarrow> template_publish_params \<Rightarrow>
     PublicationValidators \<Rightarrow> template_version \<times> template_error option" where
  "Template_Publish hf iter v root params validators =
     (case version_editable ErrOnlyDraftCanBePublished root v of
        Some err \<Rightarrow> (v, Some err)
      | None \<Rightarrow>
          if tp_ActorID params = '''' then (v, Some Template_ErrPublisherRequired)
          else if IsZero (tp_At params) then (v, Some Template_ErrPublishedAtRequired)
          else case ValidateDefinitionForPublication iter (tv_Definition v) validators of
            Some err \<Rightarrow> (v, Some (Template_PublicationErr err))
          | None \<Rightarrow>
             (v\<lparr>tv_Status := VersionPublished, tv_PublishedByID := Some (tp_ActorID params),
                tv_PublishedAt := Some (UTC (tp_At params)),
                tv_ContentHash := definitionHash hf (tv_Definition v)\<rparr>, None))"

definition template_version_ptr ::
  "(template_version \<Rightarrow> template_version \<times> template_error option) \<Rightarrow> template_version option \<Rightarrow>
     template_version option \<times> template_error option" where
  "template_version_ptr method p =
     (case p of None \<Rightarrow> (None, Some Template_ErrVersionIDRequired) | Some v \<Rightarrow> map_prod Some id (method v))"

subsection \<open>Numbering\<close>

record template_version_ref =
  tr_Number :: int
  tr_Status :: template_version_status

text \<open>The loop over the sorted copy: its index, the previous number (none at index 0) and the drafts seen.\<close>

fun template_validate_refs ::
  "int \<Rightarrow> int option \<Rightarrow> int \<Rightarrow> template_version_ref list \<Rightarrow> template_error + int" where
  "template_validate_refs index previous drafts [] = Inr drafts"
| "template_validate_refs index previous drafts (version # rest) =
     (if tr_Number version < 1 then Inl Template_ErrVersionNumberInvalid
      else if previous = Some (tr_Number version) then Inl Template_ErrDuplicateVersionNumber
      else if tr_Number version \<noteq> index + 1 then Inl Template_ErrVersionNumberGap
      else case tr_Status version of
          VersionDraft \<Rightarrow> template_validate_refs (index + 1) (Some (tr_Number version)) (drafts + 1) rest
        | VersionPublished \<Rightarrow> template_validate_refs (index + 1) (Some (tr_Number version)) drafts rest
        | TemplateVersionStatusOther _ \<Rightarrow> Inl ErrUnknownVersionStatus)"

definition template_validate_sorted :: "template_version_ref list \<Rightarrow> template_error option" where
  "template_validate_sorted vs =
     (case template_validate_refs 0 None 0 vs of
        Inl err \<Rightarrow> Some err
      | Inr drafts \<Rightarrow>
          if drafts > 1 then Some Template_ErrMultipleDrafts
          else if drafts = 1 \<and> tr_Status (last vs) \<noteq> VersionDraft then Some Template_ErrDraftMustBeLatest
          else None)"

definition Template_ValidateVersionSet :: "template_version_ref list \<Rightarrow> template_error option" where
  "Template_ValidateVersionSet versions =
     (if versions = [] then None else template_validate_sorted (sort_key tr_Number versions))"

definition Template_PlanNextDraft :: "template_version_ref list \<Rightarrow> int \<Rightarrow> template_error + int" where
  "Template_PlanNextDraft versions expectedLatestNumber =
     (case Template_ValidateVersionSet versions of
        Some err \<Rightarrow> Inl err
      | None \<Rightarrow>
          if int (length versions) \<noteq> expectedLatestNumber then Inl Template_ErrVersionNumberConflict
          else if (\<exists>v\<in>set versions. tr_Status v = VersionDraft) then Inl Template_ErrDraftAlreadyExists
          else Inr (int (length versions) + 1))"

subsection \<open>Lemmas\<close>

lemma cloneTemplate_id [simp]: "cloneTemplateSnapshot t = t"
  by (simp add: cloneTemplateSnapshot_def)

lemma cloneVersionSnapshot_id [simp]: "cloneVersionSnapshot v = v"
  by (simp add: cloneVersionSnapshot_def)

lemma RehydrateTemplate_iff: "RehydrateTemplate t = Inr u \<longleftrightarrow> u = t \<and> Template_Validate t = None"
  by (auto simp: RehydrateTemplate_def split: option.splits)

lemma RehydrateVersion_iff: "RehydrateVersion v = Inr w \<longleftrightarrow> w = v \<and> validateVersionSnapshot v = None"
  by (auto simp: RehydrateVersion_def split: option.splits)

text \<open>The numbering of template versions is that of course versions without retired ones.\<close>

definition as_version_ref :: "template_version_ref \<Rightarrow> VersionRef" where
  "as_version_ref r =
     \<lparr>vr_Number = tr_Number r,
      vr_Status = (case tr_Status r of VersionDraft \<Rightarrow> StatusDraft | VersionPublished \<Rightarrow> StatusPublished
        | TemplateVersionStatusOther s \<Rightarrow> StatusOther s)\<rparr>"

lemma as_version_ref_status:
  "vr_Status (as_version_ref r) = StatusDraft \<longleftrightarrow> tr_Status r = VersionDraft"
  by (cases "tr_Status r") (simp_all add: as_version_ref_def)

lemma template_validate_refs_eq:
  "template_validate_refs i p n vs = Inr k \<longleftrightarrow> validate_refs i p n (map as_version_ref vs) = Inr k"
  by (induction i p n vs rule: template_validate_refs.induct)
    (auto simp: as_version_ref_def split: template_version_status.splits)

lemma sort_key_as_version_ref:
  "sort_key vr_Number (map as_version_ref vs) = map as_version_ref (sort_key tr_Number vs)"
proof -
  have insort: "insort_key vr_Number (as_version_ref v) (map as_version_ref us) =
      map as_version_ref (insort_key tr_Number v us)" for v us
    by (induction us) (auto simp: as_version_ref_def)
  show ?thesis by (induction vs) (simp_all add: insort)
qed

lemma Template_ValidateVersionSet_eq:
  "Template_ValidateVersionSet vs = None \<longleftrightarrow> versions_ok (map as_version_ref vs)"
proof (cases "vs = []")
  case False
  then have "sort_key tr_Number vs \<noteq> []" by (metis length_0_conv length_sort)
  then have last: "vr_Status (last (map as_version_ref (sort_key tr_Number vs))) = StatusDraft \<longleftrightarrow>
      tr_Status (last (sort_key tr_Number vs)) = VersionDraft"
    by (simp add: last_map as_version_ref_status)
  have "template_validate_sorted us = None \<longleftrightarrow> validate_sorted (map as_version_ref us) = None"
    if last: "vr_Status (last (map as_version_ref us)) = StatusDraft \<longleftrightarrow> tr_Status (last us) = VersionDraft" for us
  proof (cases "template_validate_refs 0 None 0 us")
    case (Inl err)
    then have "validate_refs 0 None 0 (map as_version_ref us) \<noteq> Inr k" for k
      using template_validate_refs_eq[of 0 None 0 us k] by simp
    then obtain err' where "validate_refs 0 None 0 (map as_version_ref us) = Inl err'"
      by (cases "validate_refs 0 None 0 (map as_version_ref us)") auto
    with Inl show ?thesis by (simp add: template_validate_sorted_def validate_sorted_def)
  next
    case (Inr k)
    then have "validate_refs 0 None 0 (map as_version_ref us) = Inr k"
      using template_validate_refs_eq by blast
    with Inr last show ?thesis by (simp add: template_validate_sorted_def validate_sorted_def)
  qed
  with False last show ?thesis
    unfolding ValidateVersionSet_ok[symmetric]
    by (simp add: Template_ValidateVersionSet_def ValidateVersionSet_def sort_key_as_version_ref)
qed (simp add: Template_ValidateVersionSet_def versions_ok_def)

subsection \<open>Publication\<close>

lemma company_template_valid:
  "tm_Type t = TypeCompany \<Longrightarrow> Template_Validate t = None \<longleftrightarrow>
     tm_ID t \<noteq> '''' \<and> tm_CompanyID t \<noteq> '''' \<and> tm_CreatedByID t \<noteq> '''' \<and> tm_CreatedAt t \<noteq> 0 \<and>
     (tm_LifecycleStatus t = LifecycleActive \<or> tm_LifecycleStatus t = LifecycleArchived) \<and>
     (\<forall>i. tm_CurrentDraftVersionID t = Some i \<longrightarrow> tm_LatestPublishedVersionID t \<noteq> Some i) \<and>
     tm_SystemTemplateKey t = None"
  by (cases "tm_CurrentDraftVersionID t") (auto simp: Template_Validate_def)

text \<open>What the publication of a draft and its record at the root leave behind: a valid active root that
  points to the version and has no draft, and a version that is loaded back, belongs to the root and
  is never edited or published again.\<close>

lemma Template_Publish_version:
  assumes "Template_Publish hf iter v root p validators = (w, None)"
  shows "w = v\<lparr>tv_Status := VersionPublished, tv_PublishedByID := Some (tp_ActorID p),
      tv_PublishedAt := Some (tp_At p), tv_ContentHash := definitionHash hf (tv_Definition v)\<rparr>"
    "tv_Status v = VersionDraft" "validateVersionScope root v = None" "tm_LifecycleStatus root \<noteq> LifecycleArchived"
    "tp_ActorID p \<noteq> ''''" "tp_At p \<noteq> 0"
  using assms by (auto simp: Template_Publish_def version_editable_def split: option.splits if_splits)

lemma RecordPublication_root:
  assumes "RecordPublication root w = (root', None)"
  shows "root' = root\<lparr>tm_LatestPublishedVersionID := Some (tv_ID w), tm_CurrentDraftVersionID := None\<rparr>"
    "tm_Type root \<noteq> TypeSystem"
  using assms by (auto simp: RecordPublication_def assertCompanyEditable_def split: option.splits if_splits)

lemma published_version_ok:
  assumes env: "env_ok hf iter" and root: "Template_Validate root = None" and v: "validateVersionSnapshot v = None"
    and w: "Template_Publish hf iter v root p validators = (w, None)" and r: "RecordPublication root w = (root', None)"
  shows "Template_Validate root' = None" "tm_LifecycleStatus root' = LifecycleActive"
    "tv_Status w = VersionPublished" "validateVersionScope root' w = None" "validateVersionSnapshot w = None"
    "Template_ReplaceDraft w root' d = (w, Some Template_ErrPublishedVersionImmutable)"
    "Template_Publish hf iter w root' p' validators' = (w, Some Template_ErrPublishedVersionImmutable)"
proof -
  note w' = Template_Publish_version[OF w] and r' = RecordPublication_root[OF r]
  have company: "tm_Type root = TypeCompany" using root r'(2) by (cases "tm_Type root") (auto simp: Template_Validate_def split: if_splits option.splits)
  show valid: "Template_Validate root' = None" and active: "tm_LifecycleStatus root' = LifecycleActive"
    using root company r'(1) w'(4) by (auto simp: company_template_valid)
  show pub: "tv_Status w = VersionPublished" by (simp add: w'(1))
  show scope: "validateVersionScope root' w = None"
    using w'(1,3) r'(1) by (simp add: validateVersionScope_def)
  show "validateVersionSnapshot w = None"
    using v w' hash_not_empty[OF env, of "tv_Definition v"] by (auto simp: validateVersionSnapshot_def split: if_splits)
  have "version_editable e root' w = Some Template_ErrPublishedVersionImmutable" for e
    using r'(1) company active pub scope by (simp add: version_editable_def)
  then show "Template_ReplaceDraft w root' d = (w, Some Template_ErrPublishedVersionImmutable)"
    "Template_Publish hf iter w root' p' validators' = (w, Some Template_ErrPublishedVersionImmutable)"
    by (simp_all add: Template_ReplaceDraft_def Template_Publish_def)
qed

text \<open>A template with nothing attached to it yet.\<close>

definition example_template :: template where
  "example_template =
     \<lparr>tm_ID = ''t1'', tm_CompanyID = ''c1'', tm_Type = TypeCompany, tm_SystemTemplateKey = None,
      tm_LifecycleStatus = LifecycleActive, tm_CurrentDraftVersionID = None,
      tm_LatestPublishedVersionID = None, tm_CreatedByID = ''u1'', tm_CreatedAt = 5\<rparr>"

end
