(* ===== verification/Template_Instantiation.thy ===== *)
theory Template_Instantiation
  imports Template Course_Copy
begin

section \<open>Courses from templates\<close>

text \<open>
  The file \<^verbatim>\<open>services/academy/internal/domain/template/instantiate.go\<close>: a new course with one draft,
  made from a published template version. Its remapper is the one of \<^verbatim>\<open>coursecopy\<close>, modelled in
  the theory of renamings.
\<close>

datatype OriginType = OriginSystemTemplate | OriginCompanyTemplate

datatype instantiation_error = ErrPublishedVersionRequired | ErrDestinationCourseNeeded
  | Instantiation_ErrDestinationVersionNeeded | ErrTargetOwnerInvalid
  | Instantiation_ErrIDMapperRequired | Instantiation_TemplateErr template_error
  | Instantiation_RemapErr remap_error | Instantiation_VersionErr version_error

record InstantiationParams =
  ip_SourceTemplate :: template
  ip_SourceVersion :: template_version
  ip_DestinationCourseID :: ID
  ip_DestinationDraftID :: ID
  ip_TargetOwnerType :: OwnerType
  ip_TargetOwnerUserID :: "ID option"
  ip_CreatedByID :: ID
  ip_CreatedAt :: time
  ip_MapID :: "IDMapper option"

record InstantiationOrigin =
  io_Type :: OriginType
  io_SourceTemplateID :: ID
  io_SourceTemplateVersionID :: ID

record InstantiationPlan =
  in_Course :: course
  in_Draft :: course_version
  in_Origin :: InstantiationOrigin

definition validTargetOwner :: "OwnerType \<Rightarrow> ID option \<Rightarrow> ID \<Rightarrow> bool" where
  "validTargetOwner ownerType ownerUserID creatorID =
     (case ownerType of
        CourseOwnerCompany \<Rightarrow> ownerUserID = None
      | CourseOwnerPartner \<Rightarrow> ownerUserID \<noteq> None \<and> ownerUserID \<noteq> Some '''' \<and> ownerUserID = Some creatorID
      | _ \<Rightarrow> False)"

definition originType :: "template_type \<Rightarrow> OriginType" where
  "originType templateType = (if templateType = TypeSystem then OriginSystemTemplate else OriginCompanyTemplate)"

definition remapTemplateQuiz :: "IDMapper \<Rightarrow> Quiz \<Rightarrow> Quiz remapping" where
  "remapTemplateQuiz m quiz =
     bindR (mapID m EntityQuiz (qz_ID quiz)) (\<lambda>quizID.
     bindR (mapR (\<lambda>question.
         bindR (mapID m EntityQuestion (qn_ID question)) (\<lambda>questionID.
         bindR (mapR (\<lambda>opt.
             bindR (mapID m EntityOption (op_ID opt)) (\<lambda>optionID. returnR (opt\<lparr>op_ID := optionID\<rparr>)))
           (qn_Options question)) (\<lambda>options.
         returnR (question\<lparr>qn_ID := questionID, qn_Options := options\<rparr>))))
       (qz_Questions quiz)) (\<lambda>questions.
     returnR (quiz\<lparr>qz_ID := quizID, qz_Questions := questions\<rparr>)))"

definition stamp_lesson :: "ID \<Rightarrow> ID \<Rightarrow> Lesson \<Rightarrow> Lesson" where
  "stamp_lesson templateID templateVersionID l =
     l\<lparr>les_SourceType := ''template_snapshot'', les_SourceArticleID := None,
       les_SourceArticleVersion := None, les_SourceTemplateID := Some templateID,
       les_SourceTemplateVersionID := Some templateVersionID\<rparr>"

definition instantiate_lesson ::
  "IDMapper \<Rightarrow> ID \<Rightarrow> ID \<Rightarrow> (ID \<rightharpoonup> ID) \<Rightarrow> Lesson \<Rightarrow> Lesson remapping" where
  "instantiate_lesson m templateID templateVersionID sectionIDs lesson =
     bindR (mapID m EntityLesson (les_ID lesson)) (\<lambda>mappedLessonID.
     case sectionIDs (les_SectionID lesson) of
       None \<Rightarrow> failR Remap_ErrLessonSectionMissing
     | Some mappedSectionID \<Rightarrow>
        let destination = stamp_lesson templateID templateVersionID
              (cloneLesson lesson\<lparr>les_ID := mappedLessonID, les_SectionID := mappedSectionID,
                 les_Content := [] @ les_Content lesson\<rparr>)
        in bindR (mapR (mapID m EntityFile) (les_FileIDs lesson)) (\<lambda>files.
           bindR (optionR (remapTemplateQuiz m) (les_Quiz lesson)) (\<lambda>quiz.
           returnR (destination\<lparr>les_FileIDs := files, les_Quiz := quiz\<rparr>))))"

definition instantiateDefinition :: "template \<Rightarrow> template_version \<Rightarrow> IDMapper \<Rightarrow> Definition remapping" where
  "instantiateDefinition root source m =
     (let d = tv_Definition source in
      bindR (optionR (mapID m EntityFile) (df_CoverFileID d)) (\<lambda>cover.
      bindR (mapR (remap_section m) (df_Sections d)) (\<lambda>sections.
      bindR (mapR (instantiate_lesson m (tm_ID root) (tv_ID source) (section_ids (df_Sections d) sections))
               (df_Lessons d)) (\<lambda>lessons.
      returnR (cloneDefinition d\<lparr>df_CoverFileID := cover, df_Sections := sections, df_Lessons := lessons\<rparr>)))))"

definition Instantiate :: "InstantiationParams \<Rightarrow> instantiation_error + InstantiationPlan" where
  "Instantiate params =
     (let root = ip_SourceTemplate params; version = ip_SourceVersion params in
      case Template_Validate root of Some err \<Rightarrow> Inl (Instantiation_TemplateErr err) | None \<Rightarrow>
      if tm_LifecycleStatus root \<noteq> LifecycleActive then Inl (Instantiation_TemplateErr ErrTemplateArchived)
      else if tv_Status version \<noteq> VersionPublished then Inl ErrPublishedVersionRequired
      else case validateVersionScope root version of Some err \<Rightarrow> Inl (Instantiation_TemplateErr err) | None \<Rightarrow>
      case RehydrateVersion version of Inl err \<Rightarrow> Inl (Instantiation_TemplateErr err) | Inr _ \<Rightarrow>
      if ip_DestinationCourseID params = '''' \<or> ip_DestinationCourseID params = tm_ID root
        then Inl ErrDestinationCourseNeeded
      else if ip_DestinationDraftID params = '''' \<or> ip_DestinationDraftID params = tv_ID version
        then Inl Instantiation_ErrDestinationVersionNeeded
      else if ip_CreatedByID params = '''' then Inl (Instantiation_TemplateErr Template_ErrCreatorRequired)
      else if IsZero (ip_CreatedAt params) then Inl (Instantiation_TemplateErr Template_ErrCreatedAtRequired)
      else case ip_MapID params of None \<Rightarrow> Inl Instantiation_ErrIDMapperRequired | Some m \<Rightarrow>
      if \<not> validTargetOwner (ip_TargetOwnerType params) (ip_TargetOwnerUserID params) (ip_CreatedByID params)
        then Inl ErrTargetOwnerInvalid
      else case instantiateDefinition root version m new_remapper of
        Inl err \<Rightarrow> Inl (Instantiation_RemapErr err)
      | Inr (definition, _) \<Rightarrow>
      case NewDraft \<lparr>nd_ID = ip_DestinationDraftID params, nd_CompanyID = tm_CompanyID root,
             nd_CourseID = ip_DestinationCourseID params, nd_Number = 1, nd_Definition = definition,
             nd_CreatedByID = ip_CreatedByID params, nd_CreatedAt = UTC (ip_CreatedAt params)\<rparr> of
        Inl err \<Rightarrow> Inl (Instantiation_VersionErr err)
      | Inr draft \<Rightarrow>
          Inr \<lparr>in_Course = \<lparr>crs_ID = ip_DestinationCourseID params, crs_CompanyID = tm_CompanyID root,
                  crs_OwnerType = ip_TargetOwnerType params,
                  crs_OwnerUserID = clone_opt (ip_TargetOwnerUserID params),
                  crs_LifecycleStatus = CourseActive, crs_DistributionStatus = DistributionActive\<rparr>,
               in_Draft = draft,
               in_Origin = \<lparr>io_Type = originType (tm_Type root), io_SourceTemplateID = tm_ID root,
                  io_SourceTemplateVersionID = tv_ID version\<rparr>\<rparr>)"

subsection \<open>The course is the template renamed\<close>

lemma remapTemplateQuiz_eq: "remapTemplateQuiz m z = remapQuiz m z"
  by (simp add: remapTemplateQuiz_def remapQuiz_def remap_question_def[abs_def] remap_option_def[abs_def])

lemma renames_instantiate_lesson:
  assumes "\<And>x. ids x = (if x \<in> S then Some (m EntitySection x) else None)"
  shows "renames m (instantiate_lesson m tid vid ids l) (les_SectionID l \<in> S) (lesson_keys l)
    (stamp_lesson tid vid (rename_lesson m l))"
  unfolding instantiate_lesson_def Let_def remapTemplateQuiz_eq[abs_def]
  by (rule renames_result, rule renames_lesson, rule renames_remapQuiz, rule assms, cases l)
    (simp add: stamp_lesson_def rename_lesson_def)

lemma renames_instantiateDefinition:
  "renames m (instantiateDefinition root source m) (sections_exist (tv_Definition source))
    (definition_keys (tv_Definition source))
    (rename_definition m (stamp_lesson (tm_ID root) (tv_ID source)) (tv_Definition source))"
  unfolding instantiateDefinition_def Let_def
  by (rule renames_definition) (erule renames_instantiate_lesson, simp add: rename_definition_def)

subsection \<open>Properties\<close>

definition instantiation_allowed :: "InstantiationParams \<Rightarrow> bool" where
  "instantiation_allowed p \<longleftrightarrow>
     Template_Validate (ip_SourceTemplate p) = None \<and>
     tm_LifecycleStatus (ip_SourceTemplate p) = LifecycleActive \<and>
     tv_Status (ip_SourceVersion p) = VersionPublished \<and>
     validateVersionScope (ip_SourceTemplate p) (ip_SourceVersion p) = None \<and>
     validateVersionSnapshot (ip_SourceVersion p) = None \<and>
     ip_DestinationCourseID p \<notin> {'''', tm_ID (ip_SourceTemplate p)} \<and>
     ip_DestinationDraftID p \<notin> {'''', tv_ID (ip_SourceVersion p)} \<and>
     ip_CreatedByID p \<noteq> '''' \<and> ip_CreatedAt p \<noteq> 0 \<and>
     (ip_TargetOwnerType p = CourseOwnerCompany \<and> ip_TargetOwnerUserID p = None \<or>
      ip_TargetOwnerType p = CourseOwnerPartner \<and> ip_TargetOwnerUserID p = Some (ip_CreatedByID p))"

definition instantiation_plan :: "InstantiationParams \<Rightarrow> Definition \<Rightarrow> InstantiationPlan" where
  "instantiation_plan p d =
     \<lparr>in_Course = \<lparr>crs_ID = ip_DestinationCourseID p, crs_CompanyID = tm_CompanyID (ip_SourceTemplate p),
        crs_OwnerType = ip_TargetOwnerType p, crs_OwnerUserID = ip_TargetOwnerUserID p,
        crs_LifecycleStatus = CourseActive, crs_DistributionStatus = DistributionActive\<rparr>,
      in_Draft = \<lparr>vn_ID = ip_DestinationDraftID p, vn_CompanyID = tm_CompanyID (ip_SourceTemplate p),
        vn_CourseID = ip_DestinationCourseID p, vn_Number = 1, vn_Status = StatusDraft, vn_Definition = d,
        vn_CreatedByID = ip_CreatedByID p, vn_CreatedAt = ip_CreatedAt p, vn_PublishedByID = None,
        vn_PublishedAt = None, vn_ContentHash = ''''\<rparr>,
      in_Origin = \<lparr>io_Type = originType (tm_Type (ip_SourceTemplate p)),
        io_SourceTemplateID = tm_ID (ip_SourceTemplate p),
        io_SourceTemplateVersionID = tv_ID (ip_SourceVersion p)\<rparr>\<rparr>"

lemma validTargetOwner_iff:
  "c \<noteq> '''' \<Longrightarrow> validTargetOwner t u c \<longleftrightarrow>
     t = CourseOwnerCompany \<and> u = None \<or> t = CourseOwnerPartner \<and> u = Some c"
  by (cases t) (auto simp: validTargetOwner_def)

lemma template_company: "Template_Validate t = None \<Longrightarrow> tm_CompanyID t \<noteq> ''''"
  by (auto simp: Template_Validate_def split: if_splits)

lemma instantiation_plan_valid:
  assumes "instantiation_allowed p"
  shows "validateVersion (in_Draft (instantiation_plan p d)) = None"
    "Course_Validate (in_Course (instantiation_plan p d)) = None"
  using assms template_company[of "ip_SourceTemplate p"]
  by (auto simp: instantiation_allowed_def instantiation_plan_def validateVersion_def Course_Validate_def
      ValidateOwnership_def)

lemma Instantiate_eq:
  assumes "ip_MapID p = Some m" "instantiation_allowed p"
  shows "Instantiate p =
    (case instantiateDefinition (ip_SourceTemplate p) (ip_SourceVersion p) m new_remapper of
       Inl err \<Rightarrow> Inl (Instantiation_RemapErr err) | Inr (d, _) \<Rightarrow> Inr (instantiation_plan p d))"
proof -
  have draft: "NewDraft \<lparr>nd_ID = ip_DestinationDraftID p, nd_CompanyID = tm_CompanyID (ip_SourceTemplate p),
      nd_CourseID = ip_DestinationCourseID p, nd_Number = 1, nd_Definition = d,
      nd_CreatedByID = ip_CreatedByID p, nd_CreatedAt = ip_CreatedAt p\<rparr> = Inr (in_Draft (instantiation_plan p d))" for d
    using instantiation_plan_valid(1)[OF assms(2), of d]
    by (simp add: NewDraft_def Version_Rehydrate_eq instantiation_plan_def)
  have version: "RehydrateVersion (ip_SourceVersion p) = Inr (ip_SourceVersion p)"
    using assms(2) by (simp add: RehydrateVersion_iff instantiation_allowed_def)
  have owner: "validTargetOwner (ip_TargetOwnerType p) (ip_TargetOwnerUserID p) (ip_CreatedByID p)"
    using assms(2) by (auto simp: validTargetOwner_iff instantiation_allowed_def)
  show ?thesis
    using assms(1) assms(2)[unfolded instantiation_allowed_def] unfolding Instantiate_def Let_def
    by (simp add: version owner draft instantiation_plan_def cong: sum.case_cong)
qed

lemma Instantiate_allowed: "Instantiate p = Inr plan \<Longrightarrow> instantiation_allowed p"
  by (auto simp: Instantiate_def instantiation_allowed_def Let_def RehydrateVersion_iff validTargetOwner_iff
      split: option.splits if_splits sum.splits)

text \<open>What \<^verbatim>\<open>Publish\<close> and \<^verbatim>\<open>RecordPublication\<close> produce can be instantiated, whatever the new identifiers and
  the permitted owner.\<close>

lemma published_instantiable:
  assumes "env_ok hf iter" "Template_Validate root = None" "validateVersionSnapshot v = None"
    "Template_Publish hf iter v root q validators = (w, None)" "RecordPublication root w = (root', None)"
    "ip_SourceTemplate p = root'" "ip_SourceVersion p = w"
  shows "instantiation_allowed p \<longleftrightarrow>
     ip_DestinationCourseID p \<notin> {'''', tm_ID root} \<and> ip_DestinationDraftID p \<notin> {'''', tv_ID v} \<and>
     ip_CreatedByID p \<noteq> '''' \<and> ip_CreatedAt p \<noteq> 0 \<and>
     (ip_TargetOwnerType p = CourseOwnerCompany \<and> ip_TargetOwnerUserID p = None \<or>
      ip_TargetOwnerType p = CourseOwnerPartner \<and> ip_TargetOwnerUserID p = Some (ip_CreatedByID p))"
proof -
  have "tm_ID root' = tm_ID root" "tv_ID w = tv_ID v"
    using RecordPublication_root(1)[OF assms(5)] Template_Publish_version(1)[OF assms(4)] by simp_all
  then show ?thesis
    using published_version_ok(1-5)[OF assms(1-5)] by (simp add: instantiation_allowed_def assms(6,7))
qed

text \<open>(C13) A published version of an active template is instantiated exactly when the destination
  identifiers are new, the target owner is the company or the creating partner, every lesson
  belongs to a section and the mapper gives collision-free new identifiers. The result is a valid
  course of that owner with a valid first draft whose content is the template's with its
  identifiers renamed and every lesson stamped with its provenance; if the template can be
  published and the new files are available, so can the draft.\<close>

theorem Instantiate_correct:
  assumes "ip_MapID p = Some m" "d = tv_Definition (ip_SourceVersion p)"
  shows "((\<exists>plan. Instantiate p = Inr plan) \<longleftrightarrow>
      instantiation_allowed p \<and> sections_exist d \<and> renamable m (definition_keys d)) \<and>
    (\<forall>plan. Instantiate p = Inr plan \<longrightarrow>
      Course_Validate (in_Course plan) = None \<and> crs_OwnerType (in_Course plan) = ip_TargetOwnerType p \<and>
      crs_CompanyID (in_Course plan) = tm_CompanyID (ip_SourceTemplate p) \<and>
      validateVersion (in_Draft plan) = None \<and> vn_Status (in_Draft plan) = StatusDraft \<and>
      vn_Definition (in_Draft plan) =
        rename_definition m (stamp_lesson (tm_ID (ip_SourceTemplate p)) (tv_ID (ip_SourceVersion p))) d \<and>
      (\<forall>v w. publishable v d \<longrightarrow> pv_RichText w = pv_RichText v \<longrightarrow>
         (\<forall>f. (EntityFile, f) \<in> definition_keys d \<longrightarrow> file_ok w (m EntityFile f)) \<longrightarrow>
         publishable w (vn_Definition (in_Draft plan))))"
proof -
  let ?g = "stamp_lesson (tm_ID (ip_SourceTemplate p)) (tv_ID (ip_SourceVersion p))"
  note run = renames_run[OF renames_instantiateDefinition[of m "ip_SourceTemplate p" "ip_SourceVersion p"],
      folded assms(2)]
  note eq = Instantiate_eq[OF assms(1)]
  have iff: "(\<exists>plan. Instantiate p = Inr plan) \<longleftrightarrow>
      instantiation_allowed p \<and> sections_exist d \<and> renamable m (definition_keys d)"
    using eq Instantiate_allowed[of p] run(1) by (fastforce split: sum.splits)
  have "renamable m (definition_keys d) \<and> instantiation_allowed p \<and>
      plan = instantiation_plan p (rename_definition m ?g d)" if plan: "Instantiate p = Inr plan" for plan
  proof -
    have ok: "instantiation_allowed p" using Instantiate_allowed[OF plan] .
    with plan eq obtain d' r where
      d': "instantiateDefinition (ip_SourceTemplate p) (ip_SourceVersion p) m new_remapper = Inr (d', r)"
        "plan = instantiation_plan p d'"
      by (auto split: sum.splits)
    with run(2)[OF d'(1)] ok show ?thesis by simp
  qed
  moreover have "checked_fields (?g l) = checked_fields l" for l
    by (simp add: stamp_lesson_def checked_fields_def)
  ultimately show ?thesis
    using iff publishable_renamed[of m d _ _ ?g] instantiation_plan_valid[of p "rename_definition m ?g d"]
    by (auto simp: instantiation_plan_def)
qed

definition example_instantiation :: InstantiationParams where
  "example_instantiation =
     \<lparr>ip_SourceTemplate = example_template,
      ip_SourceVersion = \<lparr>tv_ID = ''v1'', tv_CompanyID = ''c1'', tv_TemplateID = ''t1'', tv_Number = 1,
        tv_Status = VersionPublished, tv_Definition = example_definition, tv_CreatedByID = ''u1'',
        tv_CreatedAt = 6, tv_PublishedByID = Some ''u1'', tv_PublishedAt = Some 7, tv_ContentHash = ''ab''\<rparr>,
      ip_DestinationCourseID = ''k9'', ip_DestinationDraftID = ''d9'', ip_TargetOwnerType = CourseOwnerPartner,
      ip_TargetOwnerUserID = Some ''partner'', ip_CreatedByID = ''partner'', ip_CreatedAt = 9,
      ip_MapID = Some prefix_mapper\<rparr>"

theorem Instantiate_correct_witness:
  "\<exists>plan. Instantiate example_instantiation = Inr plan \<and>
     map les_SourceTemplateID (df_Lessons (vn_Definition (in_Draft plan))) = [Some ''t1'']"
proof -
  have "case Instantiate example_instantiation of Inl _ \<Rightarrow> False | Inr _ \<Rightarrow> True" by code_simp
  then obtain plan where plan: "Instantiate example_instantiation = Inr plan" by (auto split: sum.splits)
  have m: "ip_MapID example_instantiation = Some prefix_mapper" by (simp add: example_instantiation_def)
  from Instantiate_correct[OF m refl] plan
  have "vn_Definition (in_Draft plan) = rename_definition prefix_mapper (stamp_lesson
      (tm_ID (ip_SourceTemplate example_instantiation)) (tv_ID (ip_SourceVersion example_instantiation)))
      (tv_Definition (ip_SourceVersion example_instantiation))" by blast
  then have "map les_SourceTemplateID (df_Lessons (vn_Definition (in_Draft plan))) = [Some ''t1'']"
    by (simp add: example_instantiation_def example_definition_def rename_definition_def stamp_lesson_def
        example_template_def)
  with plan show ?thesis by (intro exI[of _ plan] conjI)
qed

end
