(* ===== verification/Authorization.thy ===== *)
theory Authorization
  imports Campaign Personal_Access Template
begin

section \<open>Object-level permissions\<close>

text \<open>
  The package \<^verbatim>\<open>services/academy/internal/domain/authorization\<close> (\<^verbatim>\<open>policy.go\<close>): who may do what to a
  course, a version, a campaign, a personal access and a template.
\<close>

datatype Role = RoleOwner | RoleAdmin | RolePartner | RoleEmployee | RoleOther string

record Actor =
  ac_UserID :: ID
  ac_CompanyID :: ID
  ac_Role :: Role

definition validActor :: "Actor \<Rightarrow> bool" where
  "validActor actor =
     (if ac_UserID actor = '''' \<or> ac_CompanyID actor = '''' then False
      else case ac_Role actor of RoleOther _ \<Rightarrow> False | _ \<Rightarrow> True)"

definition isManager :: "Actor \<Rightarrow> bool" where
  "isManager actor \<longleftrightarrow> ac_Role actor = RoleOwner \<or> ac_Role actor = RoleAdmin"

definition isOwnedPartnerCourse :: "Actor \<Rightarrow> course \<Rightarrow> bool" where
  "isOwnedPartnerCourse actor target \<longleftrightarrow>
     crs_OwnerType target = CourseOwnerPartner \<and>
     (case crs_OwnerUserID target of None \<Rightarrow> False | Some owner \<Rightarrow> owner = ac_UserID actor)"

definition validTarget :: "Actor \<Rightarrow> course \<Rightarrow> bool" where
  "validTarget actor target \<longleftrightarrow>
     validActor actor \<and> ac_CompanyID actor = crs_CompanyID target \<and> Course_Validate target = None"

definition validTemplateTarget :: "Actor \<Rightarrow> template \<Rightarrow> bool" where
  "validTemplateTarget actor target \<longleftrightarrow>
     validActor actor \<and> ac_CompanyID actor = tm_CompanyID target \<and> Template_Validate target = None"

definition validCampaignTarget :: "Actor \<Rightarrow> campaign \<Rightarrow> bool" where
  "validCampaignTarget actor target \<longleftrightarrow>
     validActor actor \<and> ac_CompanyID actor = cp_CompanyID target \<and> Campaign_Validate target = None"

definition canMutateOwnedCourse :: "Actor \<Rightarrow> course \<Rightarrow> bool" where
  "canMutateOwnedCourse actor target =
     (if \<not> validTarget actor target then False
      else case crs_OwnerType target of
          CourseOwnerCompany \<Rightarrow> isManager actor
        | CourseOwnerPartner \<Rightarrow> ac_Role actor = RolePartner \<and> isOwnedPartnerCourse actor target
        | _ \<Rightarrow> False)"

definition canViewExternalCourseData :: "Actor \<Rightarrow> course \<Rightarrow> bool" where
  "canViewExternalCourseData actor sourceCourse =
     (if \<not> validTarget actor sourceCourse then False
      else if isManager actor then True
      else ac_Role actor = RolePartner \<and> isOwnedPartnerCourse actor sourceCourse)"

subsection \<open>Courses\<close>

definition CanCreateCompanyCourse :: "Actor \<Rightarrow> bool" where
  "CanCreateCompanyCourse actor \<longleftrightarrow> validActor actor \<and> isManager actor"

definition CanCreatePartnerCourse :: "Actor \<Rightarrow> bool" where
  "CanCreatePartnerCourse actor \<longleftrightarrow> validActor actor \<and> ac_Role actor = RolePartner"

definition CanEditCompanyCourse :: "Actor \<Rightarrow> course \<Rightarrow> bool" where
  "CanEditCompanyCourse actor target \<longleftrightarrow>
     validTarget actor target \<and> isManager actor \<and> crs_OwnerType target = CourseOwnerCompany \<and>
     crs_LifecycleStatus target \<noteq> CourseDeleted"

definition CanPublishCompanyCourse :: "Actor \<Rightarrow> course \<Rightarrow> bool" where
  "CanPublishCompanyCourse actor target \<longleftrightarrow>
     CanEditCompanyCourse actor target \<and> crs_DistributionStatus target \<noteq> DistributionBlocked"

definition CanAssignCompanyCourse :: "Actor \<Rightarrow> course \<Rightarrow> bool" where
  "CanAssignCompanyCourse actor target \<longleftrightarrow>
     CanEditCompanyCourse actor target \<and> crs_LifecycleStatus target = CourseActive \<and>
     crs_DistributionStatus target = DistributionActive"

definition CanEditPartnerCourse :: "Actor \<Rightarrow> course \<Rightarrow> bool" where
  "CanEditPartnerCourse actor target \<longleftrightarrow>
     validTarget actor target \<and> ac_Role actor = RolePartner \<and> isOwnedPartnerCourse actor target \<and>
     crs_LifecycleStatus target \<noteq> CourseDeleted"

definition CanChangeCourseVisibility :: "Actor \<Rightarrow> course \<Rightarrow> bool" where
  "CanChangeCourseVisibility actor target \<longleftrightarrow>
     CanEditCompanyCourse actor target \<or> CanEditPartnerCourse actor target"

definition CanPublishPartnerCourse :: "Actor \<Rightarrow> course \<Rightarrow> bool" where
  "CanPublishPartnerCourse actor target \<longleftrightarrow>
     CanEditPartnerCourse actor target \<and> crs_DistributionStatus target \<noteq> DistributionBlocked"

definition CanArchiveCourse :: "Actor \<Rightarrow> course \<Rightarrow> bool" where
  "CanArchiveCourse actor target \<longleftrightarrow>
     canMutateOwnedCourse actor target \<and> crs_LifecycleStatus target = CourseActive"

definition CanDeleteCourse :: "Actor \<Rightarrow> course \<Rightarrow> bool" where
  "CanDeleteCourse actor target \<longleftrightarrow>
     canMutateOwnedCourse actor target \<and> crs_LifecycleStatus target \<noteq> CourseDeleted"

definition CanPausePartnerDistribution :: "Actor \<Rightarrow> course \<Rightarrow> bool" where
  "CanPausePartnerDistribution actor target \<longleftrightarrow>
     validTarget actor target \<and> isManager actor \<and> crs_OwnerType target = CourseOwnerPartner \<and>
     crs_LifecycleStatus target = CourseActive \<and> crs_DistributionStatus target = DistributionActive"

definition CanBlockPartnerCourse :: "Actor \<Rightarrow> course \<Rightarrow> bool" where
  "CanBlockPartnerCourse actor target \<longleftrightarrow>
     validTarget actor target \<and> isManager actor \<and> crs_OwnerType target = CourseOwnerPartner \<and>
     crs_LifecycleStatus target \<noteq> CourseDeleted \<and> crs_DistributionStatus target \<noteq> DistributionBlocked"

definition CanResolvePartnerRestriction :: "Actor \<Rightarrow> course \<Rightarrow> bool" where
  "CanResolvePartnerRestriction actor target \<longleftrightarrow>
     validTarget actor target \<and> isManager actor \<and> crs_OwnerType target = CourseOwnerPartner \<and>
     crs_LifecycleStatus target \<noteq> CourseDeleted \<and>
     (crs_DistributionStatus target = DistributionPaused \<or> crs_DistributionStatus target = DistributionBlocked)"

definition CanCopyPartnerCourse :: "Actor \<Rightarrow> course \<Rightarrow> bool" where
  "CanCopyPartnerCourse actor target \<longleftrightarrow>
     validTarget actor target \<and> isManager actor \<and> crs_OwnerType target = CourseOwnerPartner \<and>
     crs_LifecycleStatus target \<noteq> CourseDeleted \<and> crs_DistributionStatus target \<noteq> DistributionBlocked"

definition CanViewPartnerCourse :: "Actor \<Rightarrow> course \<Rightarrow> bool" where
  "CanViewPartnerCourse actor target =
     (if \<not> validTarget actor target \<or> crs_OwnerType target \<noteq> CourseOwnerPartner \<or>
         crs_LifecycleStatus target = CourseDeleted
      then False
      else isManager actor \<or> isOwnedPartnerCourse actor target)"

definition CanPreviewPartnerCourse :: "Actor \<Rightarrow> course \<Rightarrow> bool" where
  "CanPreviewPartnerCourse actor target \<longleftrightarrow>
     validTarget actor target \<and> isManager actor \<and> crs_OwnerType target = CourseOwnerPartner \<and>
     crs_LifecycleStatus target \<noteq> CourseDeleted"

definition CanViewExternalLearner :: "Actor \<Rightarrow> course \<Rightarrow> bool" where
  "CanViewExternalLearner actor sourceCourse = canViewExternalCourseData actor sourceCourse"

definition CanViewEnrollmentReport :: "Actor \<Rightarrow> course \<Rightarrow> bool" where
  "CanViewEnrollmentReport actor sourceCourse = canViewExternalCourseData actor sourceCourse"

subsection \<open>Personal accesses and campaigns\<close>

definition published_version_of :: "course \<Rightarrow> course_version \<Rightarrow> bool" where
  "published_version_of target version \<longleftrightarrow>
     crs_CompanyID target = vn_CompanyID version \<and> crs_ID target = vn_CourseID version \<and>
     vn_Status version = StatusPublished \<and>
     (case Version_Rehydrate version of Inl _ \<Rightarrow> False | Inr _ \<Rightarrow> True)"

definition CanCreatePersonalAccess :: "Actor \<Rightarrow> course \<Rightarrow> course_version \<Rightarrow> bool" where
  "CanCreatePersonalAccess actor target version \<longleftrightarrow>
     validTarget actor target \<and> ac_Role actor = RolePartner \<and> isOwnedPartnerCourse actor target \<and>
     crs_LifecycleStatus target = CourseActive \<and> crs_DistributionStatus target = DistributionActive \<and>
     published_version_of target version"

definition CanManagePersonalAccess :: "email_lib \<Rightarrow> Actor \<Rightarrow> personal_access \<Rightarrow> bool" where
  "CanManagePersonalAccess el actor target \<longleftrightarrow>
     validActor actor \<and> ac_Role actor = RolePartner \<and> ac_CompanyID actor = pa_CompanyID target \<and>
     ac_UserID actor = pa_PartnerOwnerID target \<and> Access_Validate el target = None"

definition CanViewPersonalAccess :: "email_lib \<Rightarrow> Actor \<Rightarrow> personal_access \<Rightarrow> bool" where
  "CanViewPersonalAccess el actor target =
     (if \<not> validActor actor \<or> ac_CompanyID actor \<noteq> pa_CompanyID target \<or> Access_Validate el target \<noteq> None
      then False
      else isManager actor \<or> ac_Role actor = RolePartner \<and> ac_UserID actor = pa_PartnerOwnerID target)"

definition CanCreateExternalCampaign :: "Actor \<Rightarrow> course \<Rightarrow> course_version \<Rightarrow> Purpose \<Rightarrow> bool" where
  "CanCreateExternalCampaign actor target version purpose =
     (if \<not> validTarget actor target \<or> crs_LifecycleStatus target \<noteq> CourseActive \<or>
         crs_DistributionStatus target \<noteq> DistributionActive \<or> \<not> published_version_of target version
      then False
      else case purpose of
          PurposeCompanyCandidate \<Rightarrow> isManager actor \<and> crs_OwnerType target = CourseOwnerCompany
        | PurposePartnerPromo \<Rightarrow> ac_Role actor = RolePartner \<and> isOwnedPartnerCourse actor target
        | PurposeOther _ \<Rightarrow> False)"

definition CanManageExternalCampaign :: "Actor \<Rightarrow> campaign \<Rightarrow> bool" where
  "CanManageExternalCampaign actor target =
     (if \<not> validCampaignTarget actor target then False
      else case cp_OwnerType target of
          OwnerCompany \<Rightarrow> isManager actor \<and> cp_Purpose target = PurposeCompanyCandidate
        | OwnerPartner \<Rightarrow> ac_Role actor = RolePartner \<and> cp_OwnerUserID target \<noteq> None \<and>
            Some (ac_UserID actor) = cp_OwnerUserID target \<and> cp_Purpose target = PurposePartnerPromo
        | CampaignOwnerOther _ \<Rightarrow> False)"

definition CanViewExternalCampaign :: "Actor \<Rightarrow> campaign \<Rightarrow> bool" where
  "CanViewExternalCampaign actor target =
     (if \<not> validCampaignTarget actor target then False
      else isManager actor \<or> ac_Role actor = RolePartner \<and> cp_OwnerType target = OwnerPartner \<and>
        cp_OwnerUserID target \<noteq> None \<and> Some (ac_UserID actor) = cp_OwnerUserID target)"

definition CanViewExternalCampaignReport :: "Actor \<Rightarrow> campaign \<Rightarrow> bool" where
  "CanViewExternalCampaignReport actor target = CanViewExternalCampaign actor target"

subsection \<open>Templates\<close>

definition CanCreateCompanyTemplate :: "Actor \<Rightarrow> bool" where
  "CanCreateCompanyTemplate actor \<longleftrightarrow> validActor actor \<and> isManager actor"

definition CanInstantiateTemplate :: "Actor \<Rightarrow> bool" where
  "CanInstantiateTemplate actor \<longleftrightarrow> validActor actor \<and> (isManager actor \<or> ac_Role actor = RolePartner)"

definition CanViewCourseTemplate :: "Actor \<Rightarrow> template \<Rightarrow> bool" where
  "CanViewCourseTemplate actor target =
     (if \<not> validTemplateTarget actor target then False
      else if isManager actor then True
      else ac_Role actor = RolePartner \<and> tm_LifecycleStatus target = LifecycleActive \<and>
        tm_LatestPublishedVersionID target \<noteq> None)"

definition CanEditCompanyTemplate :: "Actor \<Rightarrow> template \<Rightarrow> bool" where
  "CanEditCompanyTemplate actor target \<longleftrightarrow>
     validTemplateTarget actor target \<and> isManager actor \<and> tm_Type target = TypeCompany \<and>
     tm_LifecycleStatus target = LifecycleActive"

definition CanPublishCompanyTemplate :: "Actor \<Rightarrow> template \<Rightarrow> bool" where
  "CanPublishCompanyTemplate actor target = CanEditCompanyTemplate actor target"

definition CanArchiveCompanyTemplate :: "Actor \<Rightarrow> template \<Rightarrow> bool" where
  "CanArchiveCompanyTemplate actor target = CanEditCompanyTemplate actor target"

definition CanInstantiateTemplateVersion :: "Actor \<Rightarrow> template \<Rightarrow> template_version \<Rightarrow> bool" where
  "CanInstantiateTemplateVersion actor target version =
     (if \<not> CanInstantiateTemplate actor \<or> \<not> validTemplateTarget actor target \<or>
         tm_LifecycleStatus target \<noteq> LifecycleActive \<or> tv_CompanyID version \<noteq> tm_CompanyID target \<or>
         tv_TemplateID version \<noteq> tm_ID target \<or> tv_Status version \<noteq> VersionPublished
      then False
      else case RehydrateVersion version of Inl _ \<Rightarrow> False | Inr _ \<Rightarrow> True)"

definition TemplateInstantiationOwner :: "Actor \<Rightarrow> (OwnerType \<times> ID option) option" where
  "TemplateInstantiationOwner actor =
     (if \<not> validActor actor then None
      else if isManager actor then Some (CourseOwnerCompany, None)
      else if ac_Role actor = RolePartner then Some (CourseOwnerPartner, Some (ac_UserID actor))
      else None)"

subsection \<open>The boundaries the policy keeps\<close>

text \<open>Who owns the content of a course, and the permissions by what they allow.\<close>

definition owns_content :: "Actor \<Rightarrow> course \<Rightarrow> bool" where
  "owns_content a c \<longleftrightarrow>
     crs_OwnerType c = CourseOwnerCompany \<and> isManager a \<or>
     crs_OwnerType c = CourseOwnerPartner \<and> ac_Role a = RolePartner \<and> crs_OwnerUserID c = Some (ac_UserID a)"

definition content_permissions :: "(Actor \<Rightarrow> course \<Rightarrow> bool) list" where
  "content_permissions =
     [CanEditCompanyCourse, CanPublishCompanyCourse, CanAssignCompanyCourse, CanEditPartnerCourse,
      CanChangeCourseVisibility, CanPublishPartnerCourse, CanArchiveCourse, CanDeleteCourse]"

definition oversight_permissions :: "(Actor \<Rightarrow> course \<Rightarrow> bool) list" where
  "oversight_permissions =
     [CanPausePartnerDistribution, CanBlockPartnerCourse, CanResolvePartnerRestriction, CanCopyPartnerCourse,
      CanPreviewPartnerCourse]"

definition report_permissions :: "(Actor \<Rightarrow> course \<Rightarrow> bool) list" where
  "report_permissions = [CanViewExternalLearner, CanViewEnrollmentReport]"

lemmas permission_defs = CanEditCompanyCourse_def CanPublishCompanyCourse_def CanAssignCompanyCourse_def
  CanEditPartnerCourse_def CanChangeCourseVisibility_def CanPublishPartnerCourse_def CanArchiveCourse_def
  CanDeleteCourse_def CanPausePartnerDistribution_def CanBlockPartnerCourse_def
  CanResolvePartnerRestriction_def CanCopyPartnerCourse_def CanPreviewPartnerCourse_def
  CanViewExternalLearner_def CanViewEnrollmentReport_def CanViewPartnerCourse_def

lemma isOwned_iff:
  "isOwnedPartnerCourse a c \<longleftrightarrow> crs_OwnerType c = CourseOwnerPartner \<and> crs_OwnerUserID c = Some (ac_UserID a)"
  by (auto simp: isOwnedPartnerCourse_def split: option.splits)

lemma canMutate_iff: "canMutateOwnedCourse a c \<longleftrightarrow> validTarget a c \<and> owns_content a c"
  by (cases "crs_OwnerType c") (auto simp: canMutateOwnedCourse_def owns_content_def isOwned_iff)

lemma canViewExternal_iff:
  "canViewExternalCourseData a c \<longleftrightarrow> validTarget a c \<and> (isManager a \<or> owns_content a c)"
  by (auto simp: canViewExternalCourseData_def owns_content_def isOwned_iff)

lemma content_permission:
  "p \<in> set content_permissions \<Longrightarrow> p a c \<Longrightarrow> validTarget a c \<and> owns_content a c"
  by (auto simp: content_permissions_def permission_defs canMutate_iff owns_content_def isOwned_iff)

lemma oversight_permission:
  "p \<in> set oversight_permissions \<Longrightarrow> p a c \<Longrightarrow>
     validTarget a c \<and> isManager a \<and> crs_OwnerType c = CourseOwnerPartner"
  by (auto simp: oversight_permissions_def permission_defs)

text \<open>A decision of the policy is a relation between actors and objects of one company.\<close>

locale tenant_policy =
  fixes company :: "'t \<Rightarrow> ID" and allowed :: "Actor \<Rightarrow> 't \<Rightarrow> bool"
  assumes same_company: "allowed a t \<Longrightarrow> validActor a \<and> ac_CompanyID a = company t"
begin

lemma no_cross_tenant: "allowed a t \<Longrightarrow> allowed a u \<Longrightarrow> company t = company u"
  using same_company[of a t] same_company[of a u] by simp

lemma needs_identity: "allowed a t \<Longrightarrow> ac_UserID a \<noteq> '''' \<and> company t \<noteq> ''''"
  using same_company[of a t] by (auto simp: validActor_def split: if_splits)

end

interpretation course_tenant: tenant_policy crs_CompanyID
  "\<lambda>a c. \<exists>p\<in>set (CanViewPartnerCourse # content_permissions @ oversight_permissions @ report_permissions). p a c"
proof
  fix a c
  assume "\<exists>p\<in>set (CanViewPartnerCourse # content_permissions @ oversight_permissions @ report_permissions). p a c"
  then have "validTarget a c"
    using content_permission oversight_permission
    by (auto simp: report_permissions_def permission_defs canViewExternal_iff split: if_splits)
  then show "validActor a \<and> ac_CompanyID a = crs_CompanyID c" by (simp add: validTarget_def)
qed

interpretation campaign_tenant: tenant_policy cp_CompanyID
  "\<lambda>a c. CanManageExternalCampaign a c \<or> CanViewExternalCampaign a c"
  by unfold_locales (auto simp: CanManageExternalCampaign_def CanViewExternalCampaign_def
      validCampaignTarget_def split: if_splits)

interpretation access_tenant: tenant_policy pa_CompanyID
  "\<lambda>a c. CanManagePersonalAccess el a c \<or> CanViewPersonalAccess el a c" for el
  by unfold_locales (auto simp: CanManagePersonalAccess_def CanViewPersonalAccess_def split: if_splits)

interpretation template_tenant: tenant_policy tm_CompanyID
  "\<lambda>a t. CanViewCourseTemplate a t \<or> CanEditCompanyTemplate a t \<or> (\<exists>v. CanInstantiateTemplateVersion a t v)"
  by unfold_locales (auto simp: CanViewCourseTemplate_def CanEditCompanyTemplate_def
      CanInstantiateTemplateVersion_def validTemplateTarget_def split: if_splits)

subsection \<open>Properties\<close>

definition example_partner :: Actor where
  "example_partner = \<lparr>ac_UserID = ''partner'', ac_CompanyID = ''company'', ac_Role = RolePartner\<rparr>"

definition example_admin :: Actor where
  "example_admin = \<lparr>ac_UserID = ''admin'', ac_CompanyID = ''company'', ac_Role = RoleAdmin\<rparr>"

text \<open>(C14) The boundaries of the course policy: every permission stays within the actor's own company;
  content is changed only by its owner, the managers for a company course and the owning partner
  for a partner course; oversight of partner courses is the managers' alone, so nobody has both
  content and oversight permissions on one course; an employee has none of them and nothing of a
  deleted course can be changed or overseen.\<close>

theorem course_policy_boundaries:
  "(\<forall>p\<in>set (CanViewPartnerCourse # content_permissions @ oversight_permissions @ report_permissions).
      p a c \<longrightarrow> validActor a \<and> ac_CompanyID a = crs_CompanyID c) \<and>
   (\<forall>p\<in>set content_permissions. p a c \<longrightarrow> owns_content a c) \<and>
   (\<forall>p\<in>set oversight_permissions. p a c \<longrightarrow> isManager a \<and> crs_OwnerType c = CourseOwnerPartner) \<and>
   \<not> (\<exists>p\<in>set content_permissions. \<exists>q\<in>set oversight_permissions. p a c \<and> q a c) \<and>
   (ac_Role a = RoleEmployee \<longrightarrow>
      (\<forall>p\<in>set (content_permissions @ oversight_permissions @ report_permissions). \<not> p a c)) \<and>
   (crs_LifecycleStatus c = CourseDeleted \<longrightarrow>
      (\<forall>p\<in>set (content_permissions @ oversight_permissions). \<not> p a c))"
proof (intro conjI)
  show "\<forall>p\<in>set (CanViewPartnerCourse # content_permissions @ oversight_permissions @ report_permissions).
      p a c \<longrightarrow> validActor a \<and> ac_CompanyID a = crs_CompanyID c"
    using course_tenant.same_company by blast
  show "\<forall>p\<in>set content_permissions. p a c \<longrightarrow> owns_content a c" using content_permission by blast
  show "\<forall>p\<in>set oversight_permissions. p a c \<longrightarrow> isManager a \<and> crs_OwnerType c = CourseOwnerPartner"
    using oversight_permission by blast
  show "\<not> (\<exists>p\<in>set content_permissions. \<exists>q\<in>set oversight_permissions. p a c \<and> q a c)"
    using content_permission[of _ a c] oversight_permission[of _ a c]
    by (auto simp: owns_content_def isManager_def)
  show "ac_Role a = RoleEmployee \<longrightarrow>
      (\<forall>p\<in>set (content_permissions @ oversight_permissions @ report_permissions). \<not> p a c)"
    using content_permission[of _ a c] oversight_permission[of _ a c]
    by (auto simp: owns_content_def isManager_def report_permissions_def permission_defs canViewExternal_iff)
  show "crs_LifecycleStatus c = CourseDeleted \<longrightarrow>
      (\<forall>p\<in>set (content_permissions @ oversight_permissions). \<not> p a c)"
    by (simp add: content_permissions_def oversight_permissions_def permission_defs)
qed

theorem course_policy_boundaries_witness:
  "CanEditPartnerCourse example_partner example_course \<and> \<not> CanBlockPartnerCourse example_partner example_course \<and>
   CanBlockPartnerCourse example_admin example_course \<and> \<not> CanEditPartnerCourse example_admin example_course"
proof -
  have yes: "CanEditPartnerCourse example_partner example_course" "CanBlockPartnerCourse example_admin example_course"
    by code_simp+
  moreover have "\<not> CanBlockPartnerCourse example_partner example_course"
    using course_policy_boundaries[of example_partner example_course] yes(1)
    by (auto simp: content_permissions_def oversight_permissions_def)
  moreover have "\<not> CanEditPartnerCourse example_admin example_course"
    using course_policy_boundaries[of example_admin example_course] yes(2)
    by (auto simp: content_permissions_def oversight_permissions_def)
  ultimately show ?thesis by blast
qed

text \<open>Whoever may manage a campaign, a personal access or a template may also view it, no one manages
  or views one of another company, and managing keeps the owners apart: a manager never manages
  what a partner issued and a partner only what is their own.\<close>

theorem managing_implies_viewing:
  "(CanManageExternalCampaign a c \<longrightarrow> CanViewExternalCampaign a c \<and>
      (if isManager a then cp_OwnerType c = OwnerCompany
       else cp_OwnerType c = OwnerPartner \<and> cp_OwnerUserID c = Some (ac_UserID a))) \<and>
   (CanManagePersonalAccess el a x \<longrightarrow> CanViewPersonalAccess el a x \<and> \<not> isManager a \<and>
      pa_PartnerOwnerID x = ac_UserID a) \<and>
   (CanEditCompanyTemplate a t \<longrightarrow> CanViewCourseTemplate a t \<and> isManager a) \<and>
   (CanViewExternalCampaign a c \<longrightarrow> ac_CompanyID a = cp_CompanyID c) \<and>
   (CanViewPersonalAccess el a x \<longrightarrow> ac_CompanyID a = pa_CompanyID x) \<and>
   (CanViewCourseTemplate a t \<longrightarrow> ac_CompanyID a = tm_CompanyID t)"
proof (intro conjI)
  show "CanManageExternalCampaign a c \<longrightarrow> CanViewExternalCampaign a c \<and>
      (if isManager a then cp_OwnerType c = OwnerCompany
       else cp_OwnerType c = OwnerPartner \<and> cp_OwnerUserID c = Some (ac_UserID a))"
    by (cases "cp_OwnerType c")
      (auto simp: CanManageExternalCampaign_def CanViewExternalCampaign_def isManager_def)
  show "CanManagePersonalAccess el a x \<longrightarrow> CanViewPersonalAccess el a x \<and> \<not> isManager a \<and>
      pa_PartnerOwnerID x = ac_UserID a"
    by (auto simp: CanManagePersonalAccess_def CanViewPersonalAccess_def isManager_def)
  show "CanEditCompanyTemplate a t \<longrightarrow> CanViewCourseTemplate a t \<and> isManager a"
    by (auto simp: CanEditCompanyTemplate_def CanViewCourseTemplate_def)
  show "CanViewExternalCampaign a c \<longrightarrow> ac_CompanyID a = cp_CompanyID c"
    using campaign_tenant.same_company by blast
  show "CanViewPersonalAccess el a x \<longrightarrow> ac_CompanyID a = pa_CompanyID x"
    using access_tenant.same_company by blast
  show "CanViewCourseTemplate a t \<longrightarrow> ac_CompanyID a = tm_CompanyID t"
    using template_tenant.same_company by blast
qed

theorem managing_implies_viewing_witness:
  "CanManageExternalCampaign example_partner example_campaign \<and>
   CanViewExternalCampaign example_partner example_campaign"
proof -
  have "CanManageExternalCampaign example_partner example_campaign" by code_simp
  with managing_implies_viewing[of example_partner example_campaign] show ?thesis by blast
qed

text \<open>Viewing a partner course does not test the role of its owner: a user who owns the course keeps
  viewing it after losing the partner role, while every other permission on it is gone.\<close>

theorem former_partner_still_views:
  assumes "Course_Validate c = None" "crs_OwnerType c = CourseOwnerPartner"
    "crs_LifecycleStatus c \<noteq> CourseDeleted" "crs_OwnerUserID c = Some u"
    "a = \<lparr>ac_UserID = u, ac_CompanyID = crs_CompanyID c, ac_Role = RoleEmployee\<rparr>"
  shows "CanViewPartnerCourse a c \<and>
    (\<forall>p\<in>set (content_permissions @ oversight_permissions @ report_permissions). \<not> p a c)"
proof -
  have "crs_CompanyID c \<noteq> ''''" "u \<noteq> ''''"
    using assms(1,2,4) by (auto simp: Course_Validate_def ValidateOwnership_def split: if_splits)
  then have "validTarget a c" using assms by (simp add: validTarget_def validActor_def)
  then have "CanViewPartnerCourse a c" using assms by (simp add: CanViewPartnerCourse_def isOwned_iff)
  moreover have "\<forall>p\<in>set (content_permissions @ oversight_permissions @ report_permissions). \<not> p a c"
    using content_permission[of _ a c] oversight_permission[of _ a c] assms(5)
    by (auto simp: owns_content_def isManager_def report_permissions_def permission_defs canViewExternal_iff)
  ultimately show ?thesis by blast
qed

theorem former_partner_still_views_witness:
  "CanViewPartnerCourse \<lparr>ac_UserID = ''partner'', ac_CompanyID = ''company'', ac_Role = RoleEmployee\<rparr> example_course"
proof -
  have "Course_Validate example_course = None" "crs_OwnerType example_course = CourseOwnerPartner"
    "crs_LifecycleStatus example_course \<noteq> CourseDeleted" "crs_OwnerUserID example_course = Some ''partner''"
    "crs_CompanyID example_course = ''company''" by code_simp+
  from former_partner_still_views[OF this(1-4) refl] this(5) show ?thesis by simp
qed

end
