(* ===== verification/Preview.thy ===== *)
theory Preview
  imports Course_Publication
begin

section \<open>Previews of partner courses\<close>

text \<open>
  \<^verbatim>\<open>services/academy/internal/domain/preview/session.go\<close>: an administrator walks through a published
  version of a partner course in a session of its own, which keeps no enrollment and never writes
  progress. The session holds its state and the set of the lessons of the version.
\<close>

datatype Mode = ModePreview | ModeTest | ModeOther string

datatype preview_error = Preview_ErrSessionIDRequired | Preview_ErrActorIDRequired | Preview_ErrStartedAtRequired
  | ErrUnknownMode | ErrPartnerCourseRequired | Preview_ErrPublishedVersionRequired | ErrVersionScopeMismatch
  | ErrDeletedCourse | ErrLessonNotFound | ErrActivityTimeRequired | ErrActivityBeforeSession
  | ErrRealProgressWriteForbidden | Preview_CourseErr course_error | Preview_VersionErr version_error

record preview_params =
  pp_SessionID :: ID
  pp_ActorID :: ID
  pp_Mode :: Mode
  pp_StartedAt :: time
  pp_Course :: course
  pp_Version :: course_version

record LessonActivity =
  la_LessonID :: ID
  la_ViewedAt :: time
  la_Completed :: bool

record preview_snapshot =
  pv_SessionID :: ID
  pv_ActorID :: ID
  pv_CompanyID :: ID
  pv_CourseID :: ID
  pv_VersionID :: ID
  pv_Mode :: Mode
  pv_StartedAt :: time
  pv_Activity :: "LessonActivity list"

record preview_session =
  ps_snapshot :: preview_snapshot
  ps_lessons :: "ID set"

definition Preview_New :: "preview_params \<Rightarrow> preview_error + preview_session" where
  "Preview_New params =
     (let root = pp_Course params; version = pp_Version params in
      if pp_SessionID params = '''' then Inl Preview_ErrSessionIDRequired
      else if pp_ActorID params = '''' then Inl Preview_ErrActorIDRequired
      else if IsZero (pp_StartedAt params) then Inl Preview_ErrStartedAtRequired
      else if pp_Mode params \<noteq> ModePreview \<and> pp_Mode params \<noteq> ModeTest then Inl ErrUnknownMode
      else if crs_OwnerType root \<noteq> CourseOwnerPartner then Inl ErrPartnerCourseRequired
      else if crs_LifecycleStatus root = CourseDeleted then Inl ErrDeletedCourse
      else if vn_Status version \<noteq> StatusPublished then Inl Preview_ErrPublishedVersionRequired
      else if vn_CompanyID version \<noteq> crs_CompanyID root \<or> vn_CourseID version \<noteq> crs_ID root
        then Inl ErrVersionScopeMismatch
      else case Course_Validate root of Some err \<Rightarrow> Inl (Preview_CourseErr err) | None \<Rightarrow>
      case Version_Rehydrate version of Inl err \<Rightarrow> Inl (Preview_VersionErr err) | Inr _ \<Rightarrow>
      Inr \<lparr>ps_snapshot =
             \<lparr>pv_SessionID = pp_SessionID params, pv_ActorID = pp_ActorID params,
              pv_CompanyID = crs_CompanyID root, pv_CourseID = crs_ID root, pv_VersionID = vn_ID version,
              pv_Mode = pp_Mode params, pv_StartedAt = UTC (pp_StartedAt params), pv_Activity = []\<rparr>,
           ps_lessons = les_ID ` set (df_Lessons (vn_Definition version))\<rparr>)"

text \<open>The loop over the activity: the entry of the lesson is overwritten, or appended.\<close>

fun record_activity :: "LessonActivity \<Rightarrow> LessonActivity list \<Rightarrow> LessonActivity list" where
  "record_activity a [] = [a]"
| "record_activity a (x # xs) =
     (if la_LessonID x = la_LessonID a
      then x\<lparr>la_ViewedAt := la_ViewedAt a, la_Completed := la_Completed a\<rparr> # xs
      else x # record_activity a xs)"

definition RecordLesson ::
  "preview_session \<Rightarrow> ID \<Rightarrow> bool \<Rightarrow> time \<Rightarrow> preview_session \<times> preview_error option" where
  "RecordLesson s lessonID completed at =
     (if lessonID \<notin> ps_lessons s then (s, Some ErrLessonNotFound)
      else if IsZero at then (s, Some ErrActivityTimeRequired)
      else let at = UTC at in
        if Before at (pv_StartedAt (ps_snapshot s)) then (s, Some ErrActivityBeforeSession)
        else (s\<lparr>ps_snapshot := (ps_snapshot s)\<lparr>pv_Activity :=
                  record_activity \<lparr>la_LessonID = lessonID, la_ViewedAt = at, la_Completed = completed\<rparr>
                    (pv_Activity (ps_snapshot s))\<rparr>\<rparr>, None))"

definition Preview_Snapshot :: "preview_session \<Rightarrow> preview_snapshot" where
  "Preview_Snapshot s = (ps_snapshot s)\<lparr>pv_Activity := [] @ pv_Activity (ps_snapshot s)\<rparr>"

definition RecordLesson_ptr ::
  "preview_session option \<Rightarrow> ID \<Rightarrow> bool \<Rightarrow> time \<Rightarrow> preview_session option \<times> preview_error option" where
  "RecordLesson_ptr p lessonID completed at =
     (case p of
        None \<Rightarrow> (None, Some Preview_ErrSessionIDRequired)
      | Some s \<Rightarrow> (case RecordLesson s lessonID completed at of (s', err) \<Rightarrow> (Some s', err)))"

definition GuardRealProgressWrite :: "preview_session option \<Rightarrow> preview_error option" where
  "GuardRealProgressWrite s = Some ErrRealProgressWriteForbidden"

subsection \<open>What a session keeps\<close>

definition preview_ok :: "preview_session \<Rightarrow> bool" where
  "preview_ok s \<longleftrightarrow> pv_StartedAt (ps_snapshot s) \<noteq> 0 \<and>
     distinct (map la_LessonID (pv_Activity (ps_snapshot s))) \<and>
     (\<forall>a\<in>set (pv_Activity (ps_snapshot s)).
        la_LessonID a \<in> ps_lessons s \<and> pv_StartedAt (ps_snapshot s) \<le> la_ViewedAt a)"

lemma record_activity_ids:
  "map la_LessonID (record_activity a xs) =
     (if la_LessonID a \<in> la_LessonID ` set xs then map la_LessonID xs else map la_LessonID xs @ [la_LessonID a])"
  by (induction xs) auto

lemma record_activity_set:
  "x \<in> set (record_activity a xs) \<Longrightarrow>
   x \<in> set xs \<or> la_LessonID x = la_LessonID a \<and> la_ViewedAt x = la_ViewedAt a"
  by (induction xs) (auto split: if_splits)

definition exec_preview :: "ID \<times> bool \<times> time \<Rightarrow> preview_session \<Rightarrow> preview_session" where
  "exec_preview c s = (case c of (lessonID, completed, at) \<Rightarrow> fst (RecordLesson s lessonID completed at))"

lemma exec_preview_ok: "preview_ok s \<Longrightarrow> preview_ok (exec_preview c s)"
  by (auto simp: preview_ok_def exec_preview_def RecordLesson_def Let_def record_activity_ids
      split: prod.splits dest!: record_activity_set)

lemma exec_preview_scope:
  "(exec_preview c s)\<lparr>ps_snapshot := (ps_snapshot (exec_preview c s))\<lparr>pv_Activity := []\<rparr>\<rparr> =
   s\<lparr>ps_snapshot := (ps_snapshot s)\<lparr>pv_Activity := []\<rparr>\<rparr>"
  by (cases c) (simp add: exec_preview_def RecordLesson_def Let_def)

interpretation preview_agg: pinned_aggregate preview_ok exec_preview
  "\<lambda>s. s\<lparr>ps_snapshot := (ps_snapshot s)\<lparr>pv_Activity := []\<rparr>\<rparr>"
  by unfold_locales (simp_all add: exec_preview_ok exec_preview_scope)

lemma Preview_New_ok: "Preview_New p = Inr s \<Longrightarrow> preview_ok s \<and> pv_Activity (ps_snapshot s) = []"
  by (auto simp: Preview_New_def Let_def preview_ok_def split: if_splits option.splits sum.splits)

lemma preview_sessions:
  assumes "Preview_New p = Inr s"
  shows "preview_ok (fold exec_preview cs s)"
    and "ps_lessons (fold exec_preview cs s) = les_ID ` set (df_Lessons (vn_Definition (pp_Version p)))"
    and "GuardRealProgressWrite (Some (fold exec_preview cs s)) \<noteq> None"
proof -
  have ok: "preview_ok s" using Preview_New_ok[OF assms] by simp
  then show "preview_ok (fold exec_preview cs s)" by (rule preview_agg.run_valid)
  have "ps_lessons s = les_ID ` set (df_Lessons (vn_Definition (pp_Version p)))"
    using assms by (auto simp: Preview_New_def Let_def split: if_splits option.splits sum.splits)
  moreover have "ps_lessons (fold exec_preview cs s) = ps_lessons s"
    using arg_cong[OF preview_agg.run_pin[OF ok, of cs], of ps_lessons] by simp
  ultimately show "ps_lessons (fold exec_preview cs s) = les_ID ` set (df_Lessons (vn_Definition (pp_Version p)))"
    by simp
qed (simp add: GuardRealProgressWrite_def)

end
