(* ===== verification/KB_Reuse.thy ===== *)
theory KB_Reuse
  imports Course_Publication
begin

section \<open>Reuse of knowledge base articles in courses\<close>

text \<open>
  \<^verbatim>\<open>services/academy/internal/domain/kbreuse\<close>: who may read an article (\<^verbatim>\<open>PartnerAccess\<close>), whether it may
  be copied (\<^verbatim>\<open>ArticlePolicy\<close>, \<^verbatim>\<open>policy.go\<close>) and the copy itself with fresh file identifiers
  (\<^verbatim>\<open>snapshot.go\<close>). The validator of the content and the file mapper are arguments, as in the source.
\<close>

datatype PartnerAccessMode = PartnerAccessNone | PartnerAccessAll | PartnerAccessSelected
  | PartnerAccessUnset | PartnerAccessOther string

datatype ReusePolicy = ReuseNotAllowed | ReuseCopyAllowed | ReuseUnset | ReuseOther string

datatype kb_error = ErrUnknownPartnerAccessMode | ErrSelectedPartnersRequired | ErrPartnerListForbidden
  | ErrPartnerIDRequired | ErrDuplicatePartnerID | ErrUnknownReusePolicy | KB_ErrCompanyIDRequired
  | ErrArticleIDRequired | ErrArticleVersionInvalid | KB_ErrCompanyMismatch | ErrPartnerReadDenied
  | ErrReuseNotAllowed | ErrPublishedArticleRequired | ErrArticleTitleRequired | ErrArticleContentRequired
  | ErrContentValidatorRequired | ErrInvalidArticleContent string | ErrSourcePolicyMismatch | ErrFileMapperRequired
  | ErrSourceFileIDRequired | ErrIndependentFileIDRequired | ErrDuplicateDestinationFile

record PartnerAccess =
  pt_Mode :: PartnerAccessMode
  pt_PartnerIDs :: "ID list"

record ArticlePolicy =
  ap_CompanyID :: ID
  ap_ArticleID :: ID
  ap_Version :: int
  ap_Published :: bool
  ap_Access :: PartnerAccess
  ap_Reuse :: ReusePolicy

record ArticleVersionSnapshot =
  av_CompanyID :: ID
  av_ArticleID :: ID
  av_Version :: int
  av_Title :: string
  av_Content :: string
  av_FileIDs :: "ID list"

record article_copy_params =
  ak_Policy :: ArticlePolicy
  ak_Source :: ArticleVersionSnapshot
  ak_RequestCompanyID :: ID
  ak_PartnerID :: ID
  ak_ValidateContent :: "(string \<Rightarrow> string option) option"
  ak_MapFileID :: "(ID \<Rightarrow> ID) option"

record CourseArticleSnapshot =
  ca_SourceArticleID :: ID
  ca_SourceArticleVersion :: int
  ca_Title :: string
  ca_Content :: string
  ca_FileIDs :: "ID list"

subsection \<open>policy.go\<close>

definition effectiveMode :: "PartnerAccess \<Rightarrow> PartnerAccessMode" where
  "effectiveMode p = (if pt_Mode p = PartnerAccessUnset then PartnerAccessNone else pt_Mode p)"

fun validate_partners :: "ID set \<Rightarrow> ID list \<Rightarrow> kb_error option" where
  "validate_partners seen [] = None"
| "validate_partners seen (partnerID # rest) =
     (if partnerID = '''' then Some ErrPartnerIDRequired
      else if partnerID \<in> seen then Some ErrDuplicatePartnerID
      else validate_partners (insert partnerID seen) rest)"

definition PartnerAccess_Validate :: "PartnerAccess \<Rightarrow> kb_error option" where
  "PartnerAccess_Validate p =
     (case effectiveMode p of
        PartnerAccessNone \<Rightarrow> if pt_PartnerIDs p \<noteq> [] then Some ErrPartnerListForbidden else None
      | PartnerAccessAll \<Rightarrow> if pt_PartnerIDs p \<noteq> [] then Some ErrPartnerListForbidden else None
      | PartnerAccessSelected \<Rightarrow>
          if pt_PartnerIDs p = [] then Some ErrSelectedPartnersRequired
          else validate_partners {} (pt_PartnerIDs p)
      | _ \<Rightarrow> Some ErrUnknownPartnerAccessMode)"

definition NewPartnerAccess :: "PartnerAccessMode \<Rightarrow> ID list \<Rightarrow> kb_error + PartnerAccess" where
  "NewPartnerAccess mode partnerIDs =
     (let result = \<lparr>pt_Mode = mode, pt_PartnerIDs = [] @ partnerIDs\<rparr>
      in case PartnerAccess_Validate result of Some err \<Rightarrow> Inl err | None \<Rightarrow> Inr result)"

definition Allows :: "PartnerAccess \<Rightarrow> ID \<Rightarrow> bool" where
  "Allows p partnerID =
     (if partnerID = '''' \<or> PartnerAccess_Validate p \<noteq> None then False
      else case effectiveMode p of
             PartnerAccessAll \<Rightarrow> True
           | PartnerAccessSelected \<Rightarrow> partnerID \<in> set (pt_PartnerIDs p)
           | _ \<Rightarrow> False)"

definition PartnerAccess_Snapshot :: "PartnerAccess \<Rightarrow> PartnerAccess" where
  "PartnerAccess_Snapshot p = \<lparr>pt_Mode = effectiveMode p, pt_PartnerIDs = [] @ pt_PartnerIDs p\<rparr>"

definition ArticlePolicy_Validate :: "ArticlePolicy \<Rightarrow> kb_error option" where
  "ArticlePolicy_Validate p =
     (if ap_CompanyID p = '''' then Some KB_ErrCompanyIDRequired
      else if ap_ArticleID p = '''' then Some ErrArticleIDRequired
      else if ap_Version p < 1 then Some ErrArticleVersionInvalid
      else case PartnerAccess_Validate (ap_Access p) of
             Some err \<Rightarrow> Some err
           | None \<Rightarrow> if ap_Reuse p \<noteq> ReuseUnset \<and> ap_Reuse p \<noteq> ReuseNotAllowed \<and> ap_Reuse p \<noteq> ReuseCopyAllowed
                     then Some ErrUnknownReusePolicy else None)"

definition CanRead :: "ArticlePolicy \<Rightarrow> ID \<Rightarrow> ID \<Rightarrow> bool" where
  "CanRead p companyID partnerID \<longleftrightarrow>
     ArticlePolicy_Validate p = None \<and> ap_Published p \<and> companyID \<noteq> '''' \<and> companyID = ap_CompanyID p \<and>
     Allows (ap_Access p) partnerID"

definition AuthorizeSnapshotCopy :: "ArticlePolicy \<Rightarrow> ID \<Rightarrow> ID \<Rightarrow> kb_error option" where
  "AuthorizeSnapshotCopy p companyID partnerID =
     (case ArticlePolicy_Validate p of
        Some err \<Rightarrow> Some err
      | None \<Rightarrow>
          if companyID = '''' \<or> companyID \<noteq> ap_CompanyID p then Some KB_ErrCompanyMismatch
          else if \<not> ap_Published p then Some ErrPublishedArticleRequired
          else if \<not> Allows (ap_Access p) partnerID then Some ErrPartnerReadDenied
          else if ap_Reuse p \<noteq> ReuseCopyAllowed then Some ErrReuseNotAllowed
          else None)"

lemma AuthorizeSnapshotCopy_iff [valid_iff]:
  "AuthorizeSnapshotCopy p companyID partnerID = None \<longleftrightarrow>
     CanRead p companyID partnerID \<and> ap_Reuse p = ReuseCopyAllowed"
  by (auto simp: AuthorizeSnapshotCopy_def CanRead_def split: option.split)

lemma validate_partners_None [valid_iff]:
  "validate_partners seen ps = None \<longleftrightarrow> '''' \<notin> set ps \<and> distinct ps \<and> set ps \<inter> seen = {}"
  by (induction ps arbitrary: seen) auto

lemma PartnerAccess_Snapshot_simps [simp]:
  "effectiveMode (PartnerAccess_Snapshot p) = effectiveMode p"
  "pt_PartnerIDs (PartnerAccess_Snapshot p) = pt_PartnerIDs p"
  by (simp_all add: PartnerAccess_Snapshot_def effectiveMode_def)

lemma PartnerAccess_Snapshot_valid:
  "PartnerAccess_Validate (PartnerAccess_Snapshot p) = PartnerAccess_Validate p"
  "Allows (PartnerAccess_Snapshot p) partnerID = Allows p partnerID"
  unfolding PartnerAccess_Validate_def Allows_def PartnerAccess_Snapshot_simps by (rule refl)+

subsection \<open>snapshot.go\<close>

definition validateSource :: "ArticleVersionSnapshot \<Rightarrow> kb_error option" where
  "validateSource source =
     (if av_CompanyID source = '''' then Some KB_ErrCompanyIDRequired
      else if av_ArticleID source = '''' then Some ErrArticleIDRequired
      else if av_Version source < 1 then Some ErrArticleVersionInvalid
      else if TrimSpace (av_Title source) = '''' then Some ErrArticleTitleRequired
      else if av_Content source = [] then Some ErrArticleContentRequired
      else None)"

fun map_files ::
  "(ID \<Rightarrow> ID) \<Rightarrow> (ID \<rightharpoonup> ID) \<Rightarrow> (ID \<rightharpoonup> ID) \<Rightarrow> ID list \<Rightarrow> kb_error + ID list" where
  "map_files m seen used [] = Inr []"
| "map_files m seen used (sourceID # rest) =
     (if sourceID = '''' then Inl ErrSourceFileIDRequired
      else case seen sourceID of
        Some mapped \<Rightarrow> map_sum id ((#) mapped) (map_files m seen used rest)
      | None \<Rightarrow>
          let mapped = m sourceID in
          if mapped = '''' \<or> mapped = sourceID then Inl ErrIndependentFileIDRequired
          else if (case used mapped of None \<Rightarrow> False | Some previousSource \<Rightarrow> previousSource \<noteq> sourceID)
            then Inl ErrDuplicateDestinationFile
          else map_sum id ((#) mapped)
                 (map_files m (seen(sourceID \<mapsto> mapped)) (used(mapped \<mapsto> sourceID)) rest))"

definition CopyForCourse :: "article_copy_params \<Rightarrow> kb_error + CourseArticleSnapshot" where
  "CopyForCourse params =
     (let source = ak_Source params; policy = ak_Policy params in
      case AuthorizeSnapshotCopy policy (ak_RequestCompanyID params) (ak_PartnerID params) of
        Some err \<Rightarrow> Inl err | None \<Rightarrow>
      case validateSource source of Some err \<Rightarrow> Inl err | None \<Rightarrow>
      if av_CompanyID source \<noteq> ap_CompanyID policy \<or> av_ArticleID source \<noteq> ap_ArticleID policy \<or>
         av_Version source \<noteq> ap_Version policy then Inl ErrSourcePolicyMismatch
      else case ak_ValidateContent params of None \<Rightarrow> Inl ErrContentValidatorRequired | Some check \<Rightarrow>
      case check (av_Content source) of Some err \<Rightarrow> Inl (ErrInvalidArticleContent err) | None \<Rightarrow>
      if av_FileIDs source \<noteq> [] \<and> ak_MapFileID params = None then Inl ErrFileMapperRequired
      else case map_files (case ak_MapFileID params of None \<Rightarrow> id | Some m \<Rightarrow> m) Map.empty Map.empty
                  (av_FileIDs source) of
             Inl err \<Rightarrow> Inl err
           | Inr files \<Rightarrow>
               Inr \<lparr>ca_SourceArticleID = av_ArticleID source, ca_SourceArticleVersion = av_Version source,
                    ca_Title = av_Title source, ca_Content = [] @ av_Content source, ca_FileIDs = files\<rparr>)"

definition CopiedArticle_Snapshot :: "CourseArticleSnapshot option \<Rightarrow> CourseArticleSnapshot" where
  "CopiedArticle_Snapshot c =
     (case c of
        None \<Rightarrow> \<lparr>ca_SourceArticleID = '''', ca_SourceArticleVersion = 0, ca_Title = '''', ca_Content = [], ca_FileIDs = []\<rparr>
      | Some r \<Rightarrow> r\<lparr>ca_Content := [] @ ca_Content r, ca_FileIDs := [] @ ca_FileIDs r\<rparr>)"

text \<open>The files are renamed by the mapper, injectively and away from themselves.\<close>

definition file_mapper_ok :: "(ID \<Rightarrow> ID) \<Rightarrow> ID set \<Rightarrow> bool" where
  "file_mapper_ok m F \<longleftrightarrow> (\<forall>x\<in>F. x \<noteq> '''' \<and> m x \<noteq> '''' \<and> m x \<noteq> x) \<and> inj_on m F"

lemma map_files_iff:
  assumes "seen = (\<lambda>x. if x \<in> F then Some (m x) else None)" "\<forall>y x. used y = Some x \<longleftrightarrow> x \<in> F \<and> m x = y"
    "file_mapper_ok m F"
  shows "if file_mapper_ok m (F \<union> set xs) then map_files m seen used xs = Inr (map m xs)
         else \<exists>err. map_files m seen used xs = Inl err"
  using assms
proof (induction xs arbitrary: F seen used)
  case Nil
  then show ?case by simp
next
  case (Cons x xs)
  show ?case
  proof (cases "x \<in> F")
    case True
    then have "x \<noteq> ''''" "F \<union> set (x # xs) = F \<union> set xs" using Cons.prems(3) by (auto simp: file_mapper_ok_def)
    with True Cons.IH[OF Cons.prems] Cons.prems(1) show ?thesis by (auto split: if_splits)
  next
    case False
    define F' where "F' = insert x F"
    have u: "F \<union> set (x # xs) = F' \<union> set xs" by (auto simp: F'_def)
    show ?thesis
    proof (cases "file_mapper_ok m F'")
      case True
      then have ne: "x \<noteq> ''''" "m x \<noteq> ''''" "m x \<noteq> x" "m x \<notin> m ` F"
        using False by (auto simp: file_mapper_ok_def F'_def inj_on_insert)
      then have fresh: "\<forall>z\<in>F. m z \<noteq> m x" by (metis imageI)
      from ne have free: "used (m x) = None" using Cons.prems(2) by (metis imageI not_None_eq)
      have "seen(x \<mapsto> m x) = (\<lambda>z. if z \<in> F' then Some (m z) else None)"
        using Cons.prems(1) by (auto simp: F'_def)
      moreover have "\<forall>y z. (used(m x \<mapsto> x)) y = Some z \<longleftrightarrow> z \<in> F' \<and> m z = y"
        using Cons.prems(2) fresh by (auto simp: F'_def)
      ultimately have ih: "if file_mapper_ok m (F' \<union> set xs)
          then map_files m (seen(x \<mapsto> m x)) (used(m x \<mapsto> x)) xs = Inr (map m xs)
          else \<exists>err. map_files m (seen(x \<mapsto> m x)) (used(m x \<mapsto> x)) xs = Inl err"
        using Cons.IH[OF _ _ True] by blast
      have "map_files m seen used (x # xs) =
          map_sum id ((#) (m x)) (map_files m (seen(x \<mapsto> m x)) (used(m x \<mapsto> x)) xs)"
        using ne free False Cons.prems(1) by (simp add: Let_def)
      with ih show ?thesis unfolding u by (auto split: if_splits)
    next
      case bad: False
      then have "\<not> file_mapper_ok m (F' \<union> set xs)" by (auto simp: file_mapper_ok_def inj_on_Un)
      moreover have "x = '''' \<or> m x = '''' \<or> m x = x \<or> (\<exists>z\<in>F. used (m x) = Some z \<and> z \<noteq> x)"
        using bad Cons.prems(2,3) False by (force simp: file_mapper_ok_def F'_def inj_on_insert)
      ultimately show ?thesis using False Cons.prems(1) unfolding u by (auto simp: Let_def)
    qed
  qed
qed

text \<open>An article is copied into a course exactly when the partner may read it, reuse is allowed, the content is
  accepted and the file mapper gives every file a fresh identifier of its own; the copy then carries the
  content unchanged and the renamed files. In particular nothing is copied across companies, before
  publication, or after reading or reuse was revoked.\<close>

theorem CopyForCourse_correct:
  assumes "ak_ValidateContent p = Some check" "ak_MapFileID p = Some m"
  shows "((\<exists>c. CopyForCourse p = Inr c) \<longleftrightarrow>
      CanRead (ak_Policy p) (ak_RequestCompanyID p) (ak_PartnerID p) \<and> ap_Reuse (ak_Policy p) = ReuseCopyAllowed \<and>
      validateSource (ak_Source p) = None \<and>
      av_CompanyID (ak_Source p) = ap_CompanyID (ak_Policy p) \<and> av_ArticleID (ak_Source p) = ap_ArticleID (ak_Policy p) \<and>
      av_Version (ak_Source p) = ap_Version (ak_Policy p) \<and> check (av_Content (ak_Source p)) = None \<and>
      file_mapper_ok m (set (av_FileIDs (ak_Source p)))) \<and>
    (\<forall>c. CopyForCourse p = Inr c \<longrightarrow>
      c = \<lparr>ca_SourceArticleID = av_ArticleID (ak_Source p), ca_SourceArticleVersion = av_Version (ak_Source p),
           ca_Title = av_Title (ak_Source p), ca_Content = av_Content (ak_Source p),
           ca_FileIDs = map m (av_FileIDs (ak_Source p))\<rparr>)"
proof -
  have files: "if file_mapper_ok m (set (av_FileIDs (ak_Source p)))
      then map_files m Map.empty Map.empty (av_FileIDs (ak_Source p)) = Inr (map m (av_FileIDs (ak_Source p)))
      else \<exists>err. map_files m Map.empty Map.empty (av_FileIDs (ak_Source p)) = Inl err"
    using map_files_iff[of Map.empty "{}" m Map.empty "av_FileIDs (ak_Source p)"] by (simp add: file_mapper_ok_def)
  have auth: "AuthorizeSnapshotCopy (ak_Policy p) (ak_RequestCompanyID p) (ak_PartnerID p) = None \<longleftrightarrow>
      CanRead (ak_Policy p) (ak_RequestCompanyID p) (ak_PartnerID p) \<and> ap_Reuse (ak_Policy p) = ReuseCopyAllowed"
    by (rule AuthorizeSnapshotCopy_iff)
  show ?thesis
  proof (cases "AuthorizeSnapshotCopy (ak_Policy p) (ak_RequestCompanyID p) (ak_PartnerID p) = None \<and>
      validateSource (ak_Source p) = None \<and> check (av_Content (ak_Source p)) = None \<and>
      file_mapper_ok m (set (av_FileIDs (ak_Source p)))")
    case True
    with files assms auth show ?thesis by (auto simp: CopyForCourse_def Let_def)
  next
    case False
    then have "\<nexists>c. CopyForCourse p = Inr c"
      using files assms by (auto simp: CopyForCourse_def Let_def split: option.splits if_splits)
    with False auth show ?thesis by auto
  qed
qed

definition example_article_copy :: article_copy_params where
  "example_article_copy =
     \<lparr>ak_Policy = \<lparr>ap_CompanyID = ''c1'', ap_ArticleID = ''a1'', ap_Version = 2, ap_Published = True,
        ap_Access = \<lparr>pt_Mode = PartnerAccessSelected, pt_PartnerIDs = [''p1'']\<rparr>, ap_Reuse = ReuseCopyAllowed\<rparr>,
      ak_Source = \<lparr>av_CompanyID = ''c1'', av_ArticleID = ''a1'', av_Version = 2, av_Title = ''Safety'',
        av_Content = ''{}'', av_FileIDs = [''f1'', ''f2'', ''f1'']\<rparr>,
      ak_RequestCompanyID = ''c1'', ak_PartnerID = ''p1'', ak_ValidateContent = Some (\<lambda>_. None),
      ak_MapFileID = Some ((@) ''new-'')\<rparr>"

theorem CopyForCourse_correct_witness:
  "\<exists>c. CopyForCourse example_article_copy = Inr c \<and> ca_FileIDs c = [''new-f1'', ''new-f2'', ''new-f1'']"
proof -
  let ?p = example_article_copy and ?m = "(@) ''new-''"
  have e: "ak_ValidateContent ?p = Some (\<lambda>_. None)" "ak_MapFileID ?p = Some ?m"
    by (simp_all add: example_article_copy_def)
  have "CanRead (ak_Policy ?p) (ak_RequestCompanyID ?p) (ak_PartnerID ?p)" "validateSource (ak_Source ?p) = None"
    by code_simp+
  moreover have "file_mapper_ok ?m (set (av_FileIDs (ak_Source ?p)))"
    by (auto simp: file_mapper_ok_def example_article_copy_def inj_on_def)
  ultimately show ?thesis using CopyForCourse_correct[OF e] by (auto simp: example_article_copy_def)
qed

end
