(* ===== verification/Org_Tree.thy ===== *)
theory Org_Tree
  imports Prelude Links
begin

section \<open>The organisation of a company\<close>

text \<open>
  The pure organisation rules of the company service (\<^verbatim>\<open>services/company/internal/domain/org\<close>):
  the department tree (\<^verbatim>\<open>tree.go\<close>), the guards on user updates (\<^verbatim>\<open>guards.go\<close>), the check of an
  invited address (\<^verbatim>\<open>invites.go\<close>) and their data (\<^verbatim>\<open>types.go\<close>).

  The breadth-first search of \<open>GetDescendantIDs\<close> is a loop over a queue; its termination is proved
  from the finite set of identifiers the departments mention. \<open>BuildDepartmentTree\<close> links
  nodes through pointers, so the model keeps the graph the pointers form (the node of every
  identifier and the identifiers of its children) and \<open>sortDepartmentBranch\<close> walks it from the roots;
  a depth as large as the number of identifiers is enough for every input, cyclic ones included.
\<close>

subsection \<open>types.go\<close>

datatype UserRole = UserOwner | UserAdmin | UserEmployee | UserPartner | UserRoleOther string

datatype UserStatus = UserActive | UserInvited | UserDeactivated | UserStatusOther string

record User =
  us_ID :: ID
  us_Email :: string
  us_Role :: UserRole
  us_Status :: UserStatus

record Department =
  dp_ID :: ID
  dp_Name :: string
  dp_ParentID :: "ID option"
  dp_HeadUserID :: "ID option"
  dp_ValuableFinalProduct :: "string option"
  dp_Order :: int

subsection \<open>tree.go: descendants\<close>

definition childrenByParent :: "Department list \<Rightarrow> ID \<Rightarrow> ID list" where
  "childrenByParent departments =
     fold (\<lambda>d m. case dp_ParentID d of None \<Rightarrow> m | Some p \<Rightarrow> m(p := m p @ [dp_ID d]))
       departments (\<lambda>_. [])"

lemma childrenByParent_eq:
  "childrenByParent ds p = map dp_ID (filter (\<lambda>d. dp_ParentID d = Some p) ds)"
proof -
  have "fold (\<lambda>d m. case dp_ParentID d of None \<Rightarrow> m | Some p \<Rightarrow> m(p := m p @ [dp_ID d])) ds m p =
      m p @ map dp_ID (filter (\<lambda>d. dp_ParentID d = Some p) ds)" for m
    by (induction ds arbitrary: m) (auto split: option.split)
  then show ?thesis by (simp add: childrenByParent_def)
qed

definition mentioned :: "Department list \<Rightarrow> ID set" where
  "mentioned ds = (\<Union>d\<in>set ds. insert (dp_ID d) (set_option (dp_ParentID d)))"

lemma finite_mentioned [simp]: "finite (mentioned ds)"
  by (auto simp: mentioned_def)

lemma childrenByParent_mentioned: "childrenByParent ds p \<noteq> [] \<Longrightarrow> p \<in> mentioned ds"
  by (force simp: childrenByParent_eq mentioned_def filter_empty_conv)

text \<open>The loop over the queue of \<^verbatim>\<open>GetDescendantIDs\<close>.\<close>

function descend :: "Department list \<Rightarrow> ID set \<Rightarrow> ID list \<Rightarrow> ID set" where
  "descend departments descendants [] = descendants"
| "descend departments descendants (current # queue) =
     (if current \<in> descendants then descend departments descendants queue
      else descend departments (insert current descendants)
             (queue @ childrenByParent departments current))"
  by pat_completeness auto

termination
proof (relation "measures [\<lambda>(ds, seen, queue). card (mentioned ds - seen), \<lambda>(ds, seen, queue). length queue]",
    goal_cases)
  case (3 ds seen current queue)
  show ?case
  proof (cases "current \<in> mentioned ds")
    case True
    with 3 have "mentioned ds - insert current seen \<subset> mentioned ds - seen" by blast
    then show ?thesis by (simp add: psubset_card_mono)
  next
    case False
    then have "childrenByParent ds current = []" using childrenByParent_mentioned by blast
    with False show ?thesis by simp
  qed
qed auto

definition GetDescendantIDs :: "Department list \<Rightarrow> ID \<Rightarrow> ID set" where
  "GetDescendantIDs departments x = descend departments {} (childrenByParent departments x)"

text \<open>The relation the search explores.\<close>

definition child_of :: "Department list \<Rightarrow> (ID \<times> ID) set" where
  "child_of ds = {(p, c). \<exists>d\<in>set ds. dp_ParentID d = Some p \<and> dp_ID d = c}"

lemma set_childrenByParent: "set (childrenByParent ds p) = child_of ds `` {p}"
  by (auto simp: childrenByParent_eq child_of_def)

text \<open>What the loop maintains: the children of every visited identifier are visited or queued.\<close>

lemma descend_closed:
  assumes "child_of ds `` seen \<subseteq> seen \<union> set queue"
  shows "child_of ds `` descend ds seen queue \<subseteq> descend ds seen queue \<and>
         seen \<union> set queue \<subseteq> descend ds seen queue"
  using assms
proof (induction ds seen queue rule: descend.induct)
  case (1 ds seen)
  then show ?case by simp
next
  case (2 ds seen current queue)
  show ?case
  proof (cases "current \<in> seen")
    case True
    then have "child_of ds `` seen \<subseteq> seen \<union> set queue" using 2 by auto
    from 2(1)[OF True this] True show ?thesis by auto
  next
    case False
    then have "child_of ds `` insert current seen \<subseteq> insert current seen \<union> set (queue @ childrenByParent ds current)"
      using 2(3) by (auto simp: set_childrenByParent)
    from 2(2)[OF False this] False show ?thesis by auto
  qed
qed

lemma descend_reachable:
  "descend ds seen queue \<subseteq> seen \<union> (child_of ds)\<^sup>* `` set queue"
proof (induction ds seen queue rule: descend.induct)
  case (2 ds seen current queue)
  have "(child_of ds)\<^sup>* `` set (childrenByParent ds current) \<subseteq> (child_of ds)\<^sup>* `` {current}"
    by (auto simp: set_childrenByParent intro: converse_rtrancl_into_rtrancl)
  moreover have "current \<in> (child_of ds)\<^sup>* `` {current}" by blast
  ultimately show ?case using 2 by (cases "current \<in> seen") (simp_all, blast+)
qed auto

lemma GetDescendantIDs_eq: "GetDescendantIDs ds x = (child_of ds)\<^sup>+ `` {x}"
proof
  have "GetDescendantIDs ds x \<subseteq> (child_of ds)\<^sup>* `` (child_of ds `` {x})"
    using descend_reachable[of ds "{}" "childrenByParent ds x"]
    by (simp add: GetDescendantIDs_def set_childrenByParent)
  then show "GetDescendantIDs ds x \<subseteq> (child_of ds)\<^sup>+ `` {x}"
    by (auto simp: trancl_unfold_left relcomp_unfold)
next
  have c: "child_of ds `` GetDescendantIDs ds x \<subseteq> GetDescendantIDs ds x"
    "child_of ds `` {x} \<subseteq> GetDescendantIDs ds x"
    using descend_closed[of ds "{}" "childrenByParent ds x"]
    by (auto simp: GetDescendantIDs_def set_childrenByParent)
  show "(child_of ds)\<^sup>+ `` {x} \<subseteq> GetDescendantIDs ds x"
  proof clarify
    fix y assume "(x, y) \<in> (child_of ds)\<^sup>+"
    then show "y \<in> GetDescendantIDs ds x"
      by (induction rule: trancl_induct) (use c in blast)+
  qed
qed

subsection \<open>tree.go: moves\<close>

datatype move_reason = ReasonDepartmentNotFound | ReasonMoveDepartmentIntoSelf
  | ReasonTargetDepartmentNotFound | ReasonMoveDepartmentIntoChild

record MoveValidation =
  mv_Allowed :: bool
  mv_Reason :: "move_reason option"

definition findDepartment :: "Department list \<Rightarrow> ID \<Rightarrow> Department option" where
  "findDepartment departments x = find (\<lambda>d. dp_ID d = x) departments"

definition equalOptionalIDs :: "ID option \<Rightarrow> ID option \<Rightarrow> bool" where
  "equalOptionalIDs left right =
     (case (left, right) of (Some l, Some r) \<Rightarrow> l = r | _ \<Rightarrow> left = None \<and> right = None)"

lemma equalOptionalIDs_iff [simp]: "equalOptionalIDs l r \<longleftrightarrow> l = r"
  by (auto simp: equalOptionalIDs_def split: option.split)

definition move_denied :: "move_reason \<Rightarrow> MoveValidation" where
  "move_denied r = \<lparr>mv_Allowed = False, mv_Reason = Some r\<rparr>"

definition CanMoveDepartment :: "Department list \<Rightarrow> ID \<Rightarrow> ID option \<Rightarrow> MoveValidation" where
  "CanMoveDepartment departments sourceID targetParentID =
     (case findDepartment departments sourceID of
        None \<Rightarrow> move_denied ReasonDepartmentNotFound
      | Some source \<Rightarrow>
          if targetParentID = Some sourceID then move_denied ReasonMoveDepartmentIntoSelf
          else if (case targetParentID of None \<Rightarrow> False
                   | Some t \<Rightarrow> findDepartment departments t = None)
            then move_denied ReasonTargetDepartmentNotFound
          else if equalOptionalIDs (dp_ParentID source) targetParentID
            then \<lparr>mv_Allowed = False, mv_Reason = None\<rparr>
          else if (case targetParentID of None \<Rightarrow> False
                   | Some t \<Rightarrow> t \<in> GetDescendantIDs departments sourceID)
            then move_denied ReasonMoveDepartmentIntoChild
          else \<lparr>mv_Allowed = True, mv_Reason = None\<rparr>)"

text \<open>
  What the statement \<^verbatim>\<open>MoveDepartment\<close> writes: the new parent, and as order the number of the other
  departments already under it.
\<close>

definition MoveDepartment :: "Department list \<Rightarrow> ID \<Rightarrow> ID option \<Rightarrow> Department list" where
  "MoveDepartment departments x parent =
     map (\<lambda>d. if dp_ID d = x
              then d\<lparr>dp_ParentID := parent,
                     dp_Order := int (length (filter (\<lambda>sibling. dp_ParentID sibling = parent \<and> dp_ID sibling \<noteq> x)
                                               departments))\<rparr>
              else d) departments"

lemma findDepartment_None: "findDepartment ds x = None \<longleftrightarrow> x \<notin> dp_ID ` set ds"
  by (auto simp: findDepartment_def find_None_iff)

lemma findDepartment_Some:
  "distinct (map dp_ID ds) \<Longrightarrow> findDepartment ds x = Some d \<longleftrightarrow> d \<in> set ds \<and> dp_ID d = x"
  by (induction ds) (auto simp: findDepartment_def image_iff)

lemma child_of_MoveDepartment:
  assumes "x \<in> dp_ID ` set ds"
  shows "child_of (MoveDepartment ds x t) = {(p, c) \<in> child_of ds. c \<noteq> x} \<union> (\<lambda>p. (p, x)) ` set_option t"
proof -
  have "child_of (MoveDepartment ds x t) =
      {(p, c). \<exists>d\<in>set ds. (if dp_ID d = x then t else dp_ParentID d) = Some p \<and> dp_ID d = c}"
    unfolding child_of_def MoveDepartment_def set_map bex_simps by (auto split: if_splits)
  also have "\<dots> = {(p, c) \<in> child_of ds. c \<noteq> x} \<union> (\<lambda>p. (p, x)) ` set_option t"
    using assms unfolding child_of_def by (cases t) (auto split: if_splits)
  finally show ?thesis .
qed

lemma acyclic_path_avoids_start:
  assumes "acyclic r" "(x, y) \<in> r\<^sup>+"
  shows "(x, y) \<in> {(p, c) \<in> r. c \<noteq> x}\<^sup>+"
  using assms(2)
proof (induction rule: trancl_induct)
  case (base y)
  with \<open>acyclic r\<close> have "y \<noteq> x" by (auto simp: acyclic_def)
  with base show ?case by auto
next
  case (step y z)
  then have "z \<noteq> x" using \<open>acyclic r\<close> by (auto simp: acyclic_def intro: trancl_into_trancl)
  with step show ?case by (auto intro: trancl_into_trancl)
qed

lemma acyclic_move_iff:
  assumes "acyclic r"
  shows "acyclic (insert (p, x) {(a, c) \<in> r. c \<noteq> x}) \<longleftrightarrow> p \<noteq> x \<and> (x, p) \<notin> r\<^sup>+"
proof -
  have sub: "{(a, c) \<in> r. c \<noteq> x} \<subseteq> r" by auto
  have "(x, p) \<in> {(a, c) \<in> r. c \<noteq> x}\<^sup>* \<longleftrightarrow> p = x \<or> (x, p) \<in> r\<^sup>+"
    using acyclic_path_avoids_start[OF assms, of x p] trancl_mono[OF _ sub]
    by (auto simp: rtrancl_eq_or_trancl)
  then show ?thesis
    using acyclic_subset[OF assms sub] by (auto simp: acyclic_insert)
qed

text \<open>A sound department table: unique identifiers and no cycle of parents.\<close>

definition departments_ok :: "Department list \<Rightarrow> bool" where
  "departments_ok ds \<longleftrightarrow> distinct (map dp_ID ds) \<and> acyclic (child_of ds) \<and>
     (\<forall>d\<in>set ds. set_option (dp_ParentID d) \<subseteq> dp_ID ` set ds)"

lemma CanMove_allowed:
  "mv_Allowed (CanMoveDepartment ds x t) \<longleftrightarrow>
     (\<exists>d. findDepartment ds x = Some d \<and> dp_ParentID d \<noteq> t) \<and> t \<noteq> Some x \<and>
     (\<forall>p\<in>set_option t. findDepartment ds p \<noteq> None) \<and> set_option t \<inter> GetDescendantIDs ds x = {}"
  by (auto simp: CanMoveDepartment_def move_denied_def split: option.splits)

lemma ids_MoveDepartment [simp]: "map dp_ID (MoveDepartment ds x t) = map dp_ID ds"
  by (auto simp: MoveDepartment_def)

lemma acyclic_MoveDepartment:
  assumes "acyclic (child_of ds)" "x \<in> dp_ID ` set ds"
  shows "acyclic (child_of (MoveDepartment ds x t)) \<longleftrightarrow> t \<noteq> Some x \<and> set_option t \<inter> GetDescendantIDs ds x = {}"
  using assms acyclic_subset[OF assms(1), of "{(p, c) \<in> child_of ds. c \<noteq> x}"] acyclic_move_iff[OF assms(1)]
  by (cases t) (auto simp: child_of_MoveDepartment GetDescendantIDs_eq)

fun exec_move :: "ID \<times> ID option \<Rightarrow> Department list \<Rightarrow> Department list" where
  "exec_move (x, t) ds = (if mv_Allowed (CanMoveDepartment ds x t) then MoveDepartment ds x t else ds)"

lemma image_ids_MoveDepartment [simp]: "dp_ID ` set (MoveDepartment ds x t) = dp_ID ` set ds"
  using arg_cong[OF ids_MoveDepartment, of set ds x t] by (simp only: set_map)

lemma exec_move_ok: "departments_ok ds \<Longrightarrow> departments_ok (exec_move c ds)"
proof (cases c)
  case (Pair x t)
  assume ok: "departments_ok ds"
  show ?thesis
  proof (cases "mv_Allowed (CanMoveDepartment ds x t)")
    case True
    then have x: "x \<in> dp_ID ` set ds" and t: "t \<noteq> Some x" "set_option t \<inter> GetDescendantIDs ds x = {}"
      "set_option t \<subseteq> dp_ID ` set ds"
      using findDepartment_None[of ds] by (auto simp: CanMove_allowed) (metis option.distinct(1))+
    have "\<forall>d\<in>set (MoveDepartment ds x t). set_option (dp_ParentID d) \<subseteq> dp_ID ` set ds"
      using ok t by (auto simp: MoveDepartment_def departments_ok_def)
    with ok x t True Pair show ?thesis by (simp add: departments_ok_def acyclic_MoveDepartment)
  qed (use ok Pair in simp)
qed

interpretation dept: pinned_aggregate departments_ok exec_move "map dp_ID"
  by unfold_locales (auto simp: exec_move_ok)


text \<open>(C15) \<^verbatim>\<open>GetDescendantIDs\<close> terminates on every list of departments, cyclic and dangling parents included,
  and returns exactly the identifiers reachable from the given one through one or more child edges.\<close>

theorem GetDescendantIDs_is_transitive_closure:
  "GetDescendantIDs ds x = {y. (x, y) \<in> {(p, c). \<exists>d\<in>set ds. dp_ParentID d = Some p \<and> dp_ID d = c}\<^sup>+}"
  using GetDescendantIDs_eq[of ds x] by (auto simp: child_of_def)

text \<open>(C16) On a sound department table \<^verbatim>\<open>CanMoveDepartment\<close> allows exactly the moves of an existing department
  under an existing department (or to the root) that change its parent and leave the table without a cycle;
  and any sequence of requested moves, of which the allowed ones are carried out, keeps the table sound and
  the departments themselves.\<close>

theorem department_moves_keep_tree:
  assumes "departments_ok ds"
  shows "(mv_Allowed (CanMoveDepartment ds x t) \<longleftrightarrow>
            (\<exists>d\<in>set ds. dp_ID d = x \<and> dp_ParentID d \<noteq> t) \<and> set_option t \<subseteq> dp_ID ` set ds \<and>
            acyclic (child_of (MoveDepartment ds x t))) \<and>
         departments_ok (fold exec_move moves ds) \<and> map dp_ID (fold exec_move moves ds) = map dp_ID ds"
proof (intro conjI)
  have d: "distinct (map dp_ID ds)" "acyclic (child_of ds)" using assms by (auto simp: departments_ok_def)
  have f: "(\<exists>d. findDepartment ds x = Some d \<and> dp_ParentID d \<noteq> t) \<longleftrightarrow>
      (\<exists>d\<in>set ds. dp_ID d = x \<and> dp_ParentID d \<noteq> t)"
    by (auto simp: findDepartment_Some[OF d(1)])
  show "mv_Allowed (CanMoveDepartment ds x t) \<longleftrightarrow>
      (\<exists>d\<in>set ds. dp_ID d = x \<and> dp_ParentID d \<noteq> t) \<and> set_option t \<subseteq> dp_ID ` set ds \<and>
      acyclic (child_of (MoveDepartment ds x t))"
    unfolding CanMove_allowed f using acyclic_MoveDepartment[OF d(2), of x t]
    by (auto simp: findDepartment_None subset_iff)
qed (rule dept.run_valid[OF assms] dept.run_pin[OF assms])+

definition example_departments :: "Department list" where
  "example_departments =
     [\<lparr>dp_ID = ''b'', dp_Name = ''B'', dp_ParentID = Some ''a'', dp_HeadUserID = None,
       dp_ValuableFinalProduct = None, dp_Order = 1\<rparr>,
      \<lparr>dp_ID = ''a'', dp_Name = ''A'', dp_ParentID = None, dp_HeadUserID = None,
       dp_ValuableFinalProduct = None, dp_Order = 0\<rparr>,
      \<lparr>dp_ID = ''c'', dp_Name = ''C'', dp_ParentID = Some ''b'', dp_HeadUserID = None,
       dp_ValuableFinalProduct = None, dp_Order = 0\<rparr>]"

lemma example_departments_ok: "departments_ok example_departments"
proof -
  have "child_of example_departments = {(''a'', ''b''), (''b'', ''c'')}"
    by (auto simp: child_of_def example_departments_def)
  then have "acyclic (child_of example_departments)"
    by (intro acyclicI_order[where f = "\<lambda>x. if x = ''a'' then 2 else if x = ''b'' then 1 else 0 :: nat"]) auto
  then show ?thesis by (simp add: departments_ok_def example_departments_def)
qed

theorem department_moves_keep_tree_witness:
  "mv_Reason (CanMoveDepartment example_departments ''a'' (Some ''c'')) = Some ReasonMoveDepartmentIntoChild \<and>
   mv_Allowed (CanMoveDepartment example_departments ''c'' (Some ''a'')) \<and>
   departments_ok (fold exec_move [(''c'', Some ''a''), (''b'', Some ''c'')] example_departments)"
proof (intro conjI)
  show "mv_Reason (CanMoveDepartment example_departments ''a'' (Some ''c'')) = Some ReasonMoveDepartmentIntoChild"
    "mv_Allowed (CanMoveDepartment example_departments ''c'' (Some ''a''))"
    by code_simp+
  show "departments_ok (fold exec_move [(''c'', Some ''a''), (''b'', Some ''c'')] example_departments)"
    using department_moves_keep_tree[OF example_departments_ok] by blast
qed

end
