(* ===== verification/Org_Forest.thy ===== *)
theory Org_Forest
  imports Org_Tree
begin

section \<open>The department forest\<close>

text \<open>
  \<^verbatim>\<open>BuildDepartmentTree\<close> and \<^verbatim>\<open>sortDepartmentBranch\<close> of \<^verbatim>\<open>tree.go\<close>. The nodes live behind pointers: the
  model keeps, per identifier, the department its node holds (the last one with that identifier) and the
  identifiers of its children in the order they are appended. The recursive sort follows the pointers
  from the roots. It is written with a bound on the depth; \<open>BuildDepartmentTree\<close> passes the number of
  nodes, and the proofs show that this bound is never reached.
\<close>

datatype DepartmentTreeNode =
  TreeNode (tn_Department: Department) (tn_Children: "DepartmentTreeNode list")

definition node_map :: "Department list \<Rightarrow> (ID \<rightharpoonup> Department)" where
  "node_map departments = fold (\<lambda>d m. m(dp_ID d \<mapsto> d)) departments Map.empty"

definition node_ids :: "Department list \<Rightarrow> ID list" where
  "node_ids departments =
     fold (\<lambda>d ids. if dp_ID d \<in> set ids then ids else ids @ [dp_ID d]) departments []"

definition link_node ::
  "(ID \<rightharpoonup> Department) \<Rightarrow> ID \<Rightarrow> (ID \<Rightarrow> ID list) \<times> ID list \<Rightarrow> (ID \<Rightarrow> ID list) \<times> ID list" where
  "link_node nodes x g =
     (let (children, roots) = g in
      case Option.bind (nodes x) dp_ParentID of
        Some p \<Rightarrow> if nodes p \<noteq> None then (children(p := children p @ [x]), roots) else (children, roots @ [x])
      | None \<Rightarrow> (children, roots @ [x]))"

fun sortDepartmentBranch ::
  "nat \<Rightarrow> (ID \<rightharpoonup> Department) \<Rightarrow> (ID \<Rightarrow> ID list) \<Rightarrow> ID list \<Rightarrow> DepartmentTreeNode list option" where
  "sortDepartmentBranch 0 nodes children xs = (if xs = [] then Some [] else None)"
| "sortDepartmentBranch (Suc n) nodes children xs =
     those (map (\<lambda>x. map_option (TreeNode (the (nodes x)))
                       (sortDepartmentBranch n nodes children (children x)))
             (sort_key (\<lambda>x. dp_Order (the (nodes x))) xs))"

definition BuildDepartmentTree :: "Department list \<Rightarrow> DepartmentTreeNode list option" where
  "BuildDepartmentTree departments =
     (let nodes = node_map departments; ids = node_ids departments;
          (children, roots) = fold (link_node nodes) ids (\<lambda>_. [], [])
      in sortDepartmentBranch (length ids) nodes children roots)"

subsection \<open>The graph behind the pointers\<close>

lemma node_map_ids [simp]: "node_map ds x = None \<longleftrightarrow> x \<notin> dp_ID ` set ds"
proof -
  have "fold (\<lambda>d m. m(dp_ID d \<mapsto> d)) ds m x = None \<longleftrightarrow> x \<notin> dp_ID ` set ds \<and> m x = None" for m
    by (induction ds arbitrary: m) auto
  then show ?thesis by (simp add: node_map_def)
qed

lemma node_map_ID: "node_map ds x = Some d \<Longrightarrow> dp_ID d = x \<and> d \<in> set ds"
proof -
  have "fold (\<lambda>d m. m(dp_ID d \<mapsto> d)) ds m x = Some d \<Longrightarrow> m x = Some d \<or> dp_ID d = x \<and> d \<in> set ds" for m
  proof (induction ds arbitrary: m)
    case (Cons a ds)
    have "(m(dp_ID a \<mapsto> a)) x = Some d \<or> dp_ID d = x \<and> d \<in> set ds"
      by (rule Cons.IH) (use Cons.prems in \<open>simp del: fun_upd_apply\<close>)
    then show ?case by (auto split: if_splits)
  qed simp
  from this[of Map.empty] show "node_map ds x = Some d \<Longrightarrow> dp_ID d = x \<and> d \<in> set ds"
    by (simp add: node_map_def)
qed

lemma node_map_the [simp]: "x \<in> dp_ID ` set ds \<Longrightarrow> dp_ID (the (node_map ds x)) = x"
  using node_map_ids[of ds x] node_map_ID[of ds x] by (cases "node_map ds x") auto

lemma node_map_distinct: "distinct (map dp_ID ds) \<Longrightarrow> d \<in> set ds \<Longrightarrow> node_map ds (dp_ID d) = Some d"
  using node_map_ids[of ds "dp_ID d"] node_map_ID[of ds "dp_ID d"]
  by (metis distinct_map image_eqI inj_onD not_None_eq)

lemma node_ids [simp]: "distinct (node_ids ds)" "set (node_ids ds) = dp_ID ` set ds"
proof -
  have "distinct (fold (\<lambda>d ids. if dp_ID d \<in> set ids then ids else ids @ [dp_ID d]) ds ids) \<and>
      set (fold (\<lambda>d ids. if dp_ID d \<in> set ids then ids else ids @ [dp_ID d]) ds ids) = set ids \<union> dp_ID ` set ds"
    if "distinct ids" for ids
    using that by (induction ds arbitrary: ids) auto
  from this[of "[]"] show "distinct (node_ids ds)" "set (node_ids ds) = dp_ID ` set ds"
    by (auto simp: node_ids_def)
qed

text \<open>The parent a node is linked to: the one it names, when it exists.\<close>

definition linked_parent :: "Department list \<Rightarrow> ID \<Rightarrow> ID option" where
  "linked_parent ds x =
     (case Option.bind (node_map ds x) dp_ParentID of
        None \<Rightarrow> None | Some p \<Rightarrow> if p \<in> dp_ID ` set ds then Some p else None)"

lemma link_nodes:
  "fold (link_node (node_map ds)) xs (children, roots) =
     (\<lambda>p. children p @ filter (\<lambda>x. linked_parent ds x = Some p) xs,
      roots @ filter (\<lambda>x. linked_parent ds x = None) xs)"
proof (induction xs arbitrary: children roots)
  case (Cons x xs)
  have "link_node (node_map ds) x (children, roots) =
      (\<lambda>p. children p @ (if linked_parent ds x = Some p then [x] else []),
       roots @ (if linked_parent ds x = None then [x] else []))"
    by (auto simp: link_node_def linked_parent_def fun_eq_iff split: option.split)
  then show ?case by (simp add: Cons.IH fun_eq_iff del: node_map_ids)
qed simp

definition linked_children :: "Department list \<Rightarrow> ID option \<Rightarrow> ID list" where
  "linked_children ds p = filter (\<lambda>x. linked_parent ds x = p) (node_ids ds)"

lemma BuildDepartmentTree_eq:
  "BuildDepartmentTree ds =
     sortDepartmentBranch (length (node_ids ds)) (node_map ds) (\<lambda>p. linked_children ds (Some p))
       (linked_children ds None)"
  by (simp add: BuildDepartmentTree_def link_nodes linked_children_def Let_def)

text \<open>A path from a node up to a root, the node first.\<close>

fun rooted :: "Department list \<Rightarrow> ID list \<Rightarrow> bool" where
  "rooted ds [] = True"
| "rooted ds [x] \<longleftrightarrow> x \<in> dp_ID ` set ds \<and> linked_parent ds x = None"
| "rooted ds (x # y # ys) \<longleftrightarrow> x \<in> dp_ID ` set ds \<and> linked_parent ds x = Some y \<and> rooted ds (y # ys)"

lemma rooted_Cons:
  "rooted ds (x # ys) \<longleftrightarrow> x \<in> dp_ID ` set ds \<and> rooted ds ys \<and>
     linked_parent ds x = (case ys of [] \<Rightarrow> None | y # _ \<Rightarrow> Some y)"
  by (cases ys) auto

lemma rooted_unique: "rooted ds (x # xs) \<Longrightarrow> rooted ds (x # ys) \<Longrightarrow> xs = ys"
proof (induction xs arbitrary: x ys)
  case (Cons a xs)
  then obtain zs where "ys = a # zs" by (auto simp: rooted_Cons split: list.splits)
  with Cons show ?case by (auto simp: rooted_Cons)
qed (auto simp: rooted_Cons split: list.splits)

lemma rooted_drop: "rooted ds (xs @ ys) \<Longrightarrow> rooted ds ys"
  by (induction xs) (auto simp: rooted_Cons)

lemma rooted_set: "rooted ds xs \<Longrightarrow> set xs \<subseteq> dp_ID ` set ds"
  by (induction xs) (auto simp: rooted_Cons)

lemma rooted_distinct: "rooted ds xs \<Longrightarrow> distinct xs"
proof (induction xs)
  case (Cons x xs)
  have "x \<notin> set xs"
  proof
    assume "x \<in> set xs"
    then obtain as bs where xs: "xs = as @ x # bs" by (meson split_list)
    with Cons.prems have "rooted ds (x # bs)" using rooted_drop[of ds "x # as" "x # bs"] by simp
    from rooted_unique[OF Cons.prems this] xs show False by simp
  qed
  with Cons show ?case by (auto simp: rooted_Cons)
qed simp

lemma rooted_length: "rooted ds xs \<Longrightarrow> length xs \<le> length (node_ids ds)"
  using card_mono[OF _ rooted_set[of ds xs]] rooted_distinct[of ds xs] distinct_card[of "node_ids ds"]
  by (auto simp: distinct_card)

subsection \<open>What the sort builds\<close>

definition siblings :: "Department list \<Rightarrow> ID option \<Rightarrow> ID list" where
  "siblings ds p = sort_key (\<lambda>x. dp_Order (the (node_map ds x))) (linked_children ds p)"

inductive branch_ok :: "Department list \<Rightarrow> ID option \<Rightarrow> DepartmentTreeNode list \<Rightarrow> bool" for ds where
  "map tn_Department ts = map (\<lambda>x. the (node_map ds x)) (siblings ds p) \<Longrightarrow>
   (\<And>t. t \<in> set ts \<Longrightarrow> branch_ok ds (Some (dp_ID (tn_Department t))) (tn_Children t)) \<Longrightarrow>
   branch_ok ds p ts"

primrec tree_ids :: "DepartmentTreeNode \<Rightarrow> ID list" where
  "tree_ids (TreeNode d ts) = dp_ID d # concat (map tree_ids ts)"

lemma those_map_Some: "(\<And>x. x \<in> set xs \<Longrightarrow> f x = Some (g x)) \<Longrightarrow> those (map f xs) = Some (map g xs)"
  by (induction xs) auto

lemma siblings_set [simp]: "set (siblings ds p) = {x \<in> dp_ID ` set ds. linked_parent ds x = p}"
  by (auto simp: siblings_def linked_children_def)

lemma siblings_distinct [simp]: "distinct (siblings ds p)"
  by (simp add: siblings_def linked_children_def)

lemma distinct_concat_maps:
  "distinct xs \<Longrightarrow> (\<And>x. x \<in> set xs \<Longrightarrow> distinct (g x)) \<Longrightarrow>
   (\<And>x z. x \<in> set xs \<Longrightarrow> z \<in> set xs \<Longrightarrow> x \<noteq> z \<Longrightarrow> set (g x) \<inter> set (g z) = {}) \<Longrightarrow>
   distinct (concat (map g xs))"
  by (induction xs) (simp, force)

text \<open>The branch below a rooted path \<open>ps\<close>: enough fuel, the exact children, and the identifiers
  whose path to the root passes through \<open>ps\<close>.\<close>

definition below_path :: "Department list \<Rightarrow> ID list \<Rightarrow> ID set" where
  "below_path ds ps = {y. \<exists>qs. rooted ds (y # qs @ ps)}"

definition path_head :: "ID list \<Rightarrow> ID option" where
  "path_head ps = (case ps of [] \<Rightarrow> None | x # _ \<Rightarrow> Some x)"

lemma rooted_child: "rooted ds ps \<Longrightarrow> rooted ds (x # ps) \<longleftrightarrow> x \<in> set (siblings ds (path_head ps))"
  by (auto simp: rooted_Cons path_head_def)

lemma below_path_split:
  assumes "rooted ds ps"
  shows "below_path ds ps = (\<Union>x\<in>set (siblings ds (path_head ps)). insert x (below_path ds (x # ps)))"
proof (intro equalityI subsetI)
  fix y assume "y \<in> below_path ds ps"
  then obtain qs where q: "rooted ds (y # qs @ ps)" by (auto simp: below_path_def)
  show "y \<in> (\<Union>x\<in>set (siblings ds (path_head ps)). insert x (below_path ds (x # ps)))"
  proof (cases qs rule: rev_cases)
    case Nil
    with q rooted_child[OF assms] show ?thesis by auto
  next
    case (snoc qs' x)
    with q have "rooted ds (x # ps)" using rooted_drop[of ds "y # qs'" "x # ps"] by simp
    with q snoc rooted_child[OF assms] show ?thesis by (auto simp: below_path_def)
  qed
next
  fix y assume "y \<in> (\<Union>x\<in>set (siblings ds (path_head ps)). insert x (below_path ds (x # ps)))"
  then obtain x where x: "x \<in> set (siblings ds (path_head ps))" "y = x \<or> y \<in> below_path ds (x # ps)" by auto
  then have "rooted ds (x # ps)" using rooted_child[OF assms] by simp
  with x show "y \<in> below_path ds ps"
    unfolding below_path_def by (auto intro: exI[of _ "[]"]) (metis append.assoc append_Cons append_Nil)
qed

lemma below_path_disjoint:
  assumes "rooted ds (x # ps)" "rooted ds (z # ps)" "x \<noteq> z"
  shows "insert x (below_path ds (x # ps)) \<inter> insert z (below_path ds (z # ps)) = {}"
proof -
  have "False" if "rooted ds (y # qs @ x # ps)" "rooted ds (y # rs @ z # ps)" for y qs rs
    using rooted_unique[OF that] assms(3) by simp
  moreover have "False" if "rooted ds (y # qs @ v # ps)" "rooted ds (y # ps)" for y qs v
    using rooted_unique[OF that] by simp
  ultimately show ?thesis using assms unfolding below_path_def by blast
qed

lemma below_path_irrefl: "rooted ds (x # ps) \<Longrightarrow> x \<notin> below_path ds (x # ps)"
proof
  assume r: "rooted ds (x # ps)" and "x \<in> below_path ds (x # ps)"
  then obtain qs where "rooted ds (x # qs @ x # ps)" by (auto simp: below_path_def)
  from rooted_unique[OF r this] have "length ps = length (qs @ x # ps)" by simp
  then show False by simp
qed

lemma sortDepartmentBranch_correct:
  assumes "rooted ds ps" "length (node_ids ds) \<le> n + length ps"
  shows "\<exists>ts. sortDepartmentBranch n (node_map ds) (\<lambda>p. linked_children ds (Some p)) (linked_children ds (path_head ps)) = Some ts \<and>
    branch_ok ds (path_head ps) ts \<and> distinct (concat (map tree_ids ts)) \<and>
    set (concat (map tree_ids ts)) = below_path ds ps"
  using assms
proof (induction n arbitrary: ps)
  case 0
  have none: "siblings ds (path_head ps) = []"
  proof (rule ccontr)
    assume "siblings ds (path_head ps) \<noteq> []"
    then obtain x where "x \<in> set (siblings ds (path_head ps))" by (meson last_in_set)
    with rooted_child[OF 0(1)] have "rooted ds (x # ps)" by simp
    with rooted_length[OF this] 0 show False by simp
  qed
  then have "length (siblings ds (path_head ps)) = 0" by simp
  then have "linked_children ds (path_head ps) = []" by (simp only: siblings_def length_sort length_0_conv)
  moreover have "branch_ok ds (path_head ps) []" by (rule branch_ok.intros) (simp_all add: none)
  ultimately show ?case using below_path_split[OF 0(1)] none by (intro exI[of _ "[]"]) simp
next
  case (Suc n)
  let ?S = "siblings ds (path_head ps)"
  let ?sub = "\<lambda>x. sortDepartmentBranch n (node_map ds) (\<lambda>p. linked_children ds (Some p)) (linked_children ds (Some x))"
  have sub: "\<exists>ts. ?sub x = Some ts \<and> branch_ok ds (Some x) ts \<and> distinct (concat (map tree_ids ts)) \<and>
      set (concat (map tree_ids ts)) = below_path ds (x # ps)" if "x \<in> set ?S" for x
    using Suc.IH[of "x # ps"] Suc.prems rooted_child[OF Suc.prems(1), of x] that
    by (simp add: path_head_def del: siblings_set)
  define f where "f x = TreeNode (the (node_map ds x)) (the (?sub x))" for x
  have run: "sortDepartmentBranch (Suc n) (node_map ds) (\<lambda>p. linked_children ds (Some p))
      (linked_children ds (path_head ps)) = Some (map f ?S)"
    unfolding sortDepartmentBranch.simps siblings_def[symmetric]
    by (rule those_map_Some) (use sub in \<open>force simp: f_def\<close>)
  have ids: "tree_ids (f x) = x # concat (map tree_ids (the (?sub x)))" if "x \<in> set ?S" for x
    using that by (simp add: f_def)
  have set_ids: "set (tree_ids (f x)) = insert x (below_path ds (x # ps))" if "x \<in> set ?S" for x
    using sub[OF that] ids[OF that] by auto
  have "branch_ok ds (path_head ps) (map f ?S)"
    by (rule branch_ok.intros) (use sub in \<open>force simp: f_def\<close>)+
  moreover have "set (concat (map tree_ids (map f ?S))) = below_path ds ps"
    unfolding below_path_split[OF Suc.prems(1)] using set_ids by (auto simp del: siblings_set)
  moreover have "distinct (concat (map tree_ids (map f ?S)))"
  proof -
    have d: "distinct (tree_ids (f x))" if "x \<in> set ?S" for x
      using sub[OF that] ids[OF that] below_path_irrefl[of ds x ps] rooted_child[OF Suc.prems(1), of x] that by auto
    have "set (tree_ids (f x)) \<inter> set (tree_ids (f z)) = {}" if "x \<in> set ?S" "z \<in> set ?S" "x \<noteq> z" for x z
      using below_path_disjoint[of ds x ps z] set_ids that rooted_child[OF Suc.prems(1)] by blast
    then show ?thesis using d siblings_distinct[of ds "path_head ps"]
      unfolding map_map by (intro distinct_concat_maps) auto
  qed
  ultimately show ?case using run by blast
qed

lemma finite_child_of: "finite (child_of ds)"
proof (rule finite_subset)
  show "child_of ds \<subseteq> mentioned ds \<times> mentioned ds" by (force simp: child_of_def mentioned_def)
qed simp

text \<open>In a sound table every department has a path to a root.\<close>

lemma departments_ok_rooted:
  assumes "departments_ok ds" "x \<in> dp_ID ` set ds"
  shows "\<exists>ps. rooted ds (x # ps)"
proof -
  have "wf (child_of ds)" using assms(1) finite_child_of by (simp add: departments_ok_def finite_acyclic_wf)
  then show ?thesis using assms(2)
  proof (induction x rule: wf_induct_rule)
    case (less x)
    then obtain d where d: "d \<in> set ds" "dp_ID d = x" by auto
    with assms(1) have n: "node_map ds x = Some d" using node_map_distinct by (auto simp: departments_ok_def)
    show ?case
    proof (cases "dp_ParentID d")
      case None
      with n less.prems have "rooted ds [x]" by (simp add: linked_parent_def)
      then show ?thesis ..
    next
      case (Some p)
      with assms(1) d have p: "p \<in> dp_ID ` set ds" "(p, x) \<in> child_of ds"
        by (fastforce simp: departments_ok_def child_of_def)+
      with less.IH obtain ps where "rooted ds (p # ps)" by blast
      with Some n p less.prems have "rooted ds (x # p # ps)" by (simp add: linked_parent_def)
      then show ?thesis ..
    qed
  qed
qed

text \<open>(C17) \<^verbatim>\<open>BuildDepartmentTree\<close> returns on every input, even when parents form a cycle. Below every node, and at
  the top, it puts exactly the departments whose existing parent is that node (at the top: those without an
  existing parent), sorted by order and stable for equal orders. Every department with a path to a root
  occurs exactly once, nothing else occurs; in a sound table that is every department.\<close>

theorem BuildDepartmentTree_correct:
  "\<exists>forest. BuildDepartmentTree ds = Some forest \<and> branch_ok ds None forest \<and>
     distinct (concat (map tree_ids forest)) \<and>
     set (concat (map tree_ids forest)) = {x. \<exists>path. rooted ds (x # path)} \<and>
     (departments_ok ds \<longrightarrow> mset (concat (map tree_ids forest)) = mset (map dp_ID ds))"
proof -
  obtain ts where ts: "BuildDepartmentTree ds = Some ts" "branch_ok ds None ts"
    "distinct (concat (map tree_ids ts))" "set (concat (map tree_ids ts)) = below_path ds []"
    using sortDepartmentBranch_correct[of ds "[]" "length (node_ids ds)"]
    by (auto simp: BuildDepartmentTree_eq path_head_def)
  have ids: "below_path ds [] = {x. \<exists>path. rooted ds (x # path)}" by (simp add: below_path_def)
  have "mset (concat (map tree_ids ts)) = mset (map dp_ID ds)" if ok: "departments_ok ds"
  proof -
    have "set (concat (map tree_ids ts)) = set (map dp_ID ds)"
      unfolding ts(4) ids using departments_ok_rooted[OF ok] rooted_set by fastforce
    with ts(3) ok show ?thesis by (simp only: set_eq_iff_mset_eq_distinct departments_ok_def)
  qed
  with ts ids show ?thesis by (intro exI[of _ ts]) simp
qed

theorem BuildDepartmentTree_correct_witness:
  "\<exists>forest. BuildDepartmentTree example_departments = Some forest \<and>
     mset (concat (map tree_ids forest)) = {#''a'', ''b'', ''c''#}"
proof -
  have "mset (map dp_ID example_departments) = {#''a'', ''b'', ''c''#}" by (simp add: example_departments_def)
  with BuildDepartmentTree_correct[of example_departments] example_departments_ok show ?thesis by fastforce
qed

subsection \<open>guards.go\<close>

datatype org_error = ErrMultiplePositions | ErrOwnerRoleChange | ErrOwnerDeactivate | ErrSelfRoleDemotion
  | ErrSelfDeactivate | ErrInvalidInviteEmail | ErrInviteEmailAlreadyExists

record UserUpdateInput =
  ui_Role :: "UserRole option"
  ui_Status :: "UserStatus option"

record UserUpdateContext =
  uc_OwnerID :: ID
  uc_CurrentUserID :: ID

definition ValidatePositionAssignment :: "ID list \<Rightarrow> org_error option" where
  "ValidatePositionAssignment positionIDs = (if length positionIDs > 1 then Some ErrMultiplePositions else None)"

definition roleRank :: "UserRole \<Rightarrow> nat" where
  "roleRank role =
     (case role of UserOwner \<Rightarrow> 0 | UserAdmin \<Rightarrow> 1 | UserEmployee \<Rightarrow> 2 | UserPartner \<Rightarrow> 3
      | UserRoleOther _ \<Rightarrow> length [UserOwner, UserAdmin, UserEmployee, UserPartner])"

definition ValidateUserUpdate :: "User \<Rightarrow> UserUpdateInput \<Rightarrow> UserUpdateContext \<Rightarrow> org_error option" where
  "ValidateUserUpdate user input context =
     (let isOwner = (us_ID user = uc_OwnerID context); isSelf = (us_ID user = uc_CurrentUserID context) in
      if isOwner \<and> ui_Role input \<noteq> None \<and> ui_Role input \<noteq> Some UserOwner then Some ErrOwnerRoleChange
      else if isOwner \<and> ui_Status input \<noteq> None \<and> ui_Status input \<noteq> Some UserActive then Some ErrOwnerDeactivate
      else if isSelf \<and> (case ui_Role input of None \<Rightarrow> False
             | Some r \<Rightarrow> r \<noteq> us_Role user \<and> roleRank r > roleRank (us_Role user)) then Some ErrSelfRoleDemotion
      else if isSelf \<and> ui_Status input = Some UserDeactivated then Some ErrSelfDeactivate
      else None)"

text \<open>What an accepted update writes.\<close>

definition updated_user :: "User \<Rightarrow> UserUpdateInput \<Rightarrow> User" where
  "updated_user u input =
     u\<lparr>us_Role := case_option (us_Role u) id (ui_Role input),
       us_Status := case_option (us_Status u) id (ui_Status input)\<rparr>"

text \<open>The owner of a company stays its active owner, and nobody loses rank or access by an update of
  their own.\<close>

lemma ValidateUserUpdate_protects:
  assumes "ValidateUserUpdate u input ctx = None"
  shows "us_ID u = uc_OwnerID ctx \<Longrightarrow> us_Role u = UserOwner \<Longrightarrow> us_Role (updated_user u input) = UserOwner"
    and "us_ID u = uc_OwnerID ctx \<Longrightarrow> us_Status u = UserActive \<Longrightarrow> us_Status (updated_user u input) = UserActive"
    and "us_ID u = uc_CurrentUserID ctx \<Longrightarrow> roleRank (us_Role (updated_user u input)) \<le> roleRank (us_Role u)"
    and "us_ID u = uc_CurrentUserID ctx \<Longrightarrow> us_Status (updated_user u input) = UserDeactivated \<Longrightarrow>
         us_Status u = UserDeactivated"
  using assms by (auto simp: ValidateUserUpdate_def updated_user_def Let_def split: if_splits option.splits)

subsection \<open>invites.go\<close>

definition ValidateInviteEmail :: "email_lib \<Rightarrow> string \<Rightarrow> User list \<Rightarrow> org_error option" where
  "ValidateInviteEmail el email users =
     (let normalized = NormalizeEmail el email in
      if el_ParseAddress el normalized \<noteq> Some normalized then Some ErrInvalidInviteEmail
      else first_error (\<lambda>user. if NormalizeEmail el (us_Email user) = normalized \<and> us_Status user \<noteq> UserDeactivated
                              then Some ErrInviteEmailAlreadyExists else None) users)"

lemma ValidateInviteEmail_None [valid_iff]:
  "ValidateInviteEmail el email users = None \<longleftrightarrow>
     el_ParseAddress el (NormalizeEmail el email) = Some (NormalizeEmail el email) \<and>
     (\<forall>u\<in>set users. NormalizeEmail el (us_Email u) = NormalizeEmail el email \<longrightarrow> us_Status u = UserDeactivated)"
  by (auto simp: ValidateInviteEmail_def Let_def first_error_None split: if_splits)

end
