(* ===== verification/Distribution.thy ===== *)
theory Distribution
  imports Prelude
begin

section \<open>Distribution of deals over the members of a group\<close>

text \<open>
  \<^verbatim>\<open>services/company/internal/domain/distribution/pick.go\<close>: the choice of the member who receives the
  next deal. \<open>deal\<close> is the step the service makes around it (\<^verbatim>\<open>SimulateDistributionDeal\<close> in
  \<^verbatim>\<open>application/distribution.go\<close>, after the checks of the caller and of the g): pick a member from
  the recorded events, newest first, and record the new event as accepted.
\<close>

datatype Algorithm = RoundRobin | LeastLoaded | Priority | AlgorithmOther string

datatype distribution_error = ErrNoEnabledMembers

record Group =
  gr_ID :: ID
  gr_Algorithm :: Algorithm
  gr_MemberIDs :: "ID list"
  gr_DisabledMemberIDs :: "ID list"

record Event =
  ev_GroupID :: ID
  ev_UserID :: ID
  ev_Status :: string
  ev_CreatedAt :: time

definition enabled_members :: "Group \<Rightarrow> ID list" where
  "enabled_members g = filter (\<lambda>x. x \<notin> set (gr_DisabledMemberIDs g)) (gr_MemberIDs g)"

definition last_event :: "ID \<Rightarrow> Event list \<Rightarrow> Event option" where
  "last_event gid events =
     fold (\<lambda>event last. if ev_GroupID event = gid \<and>
                           (case last of None \<Rightarrow> True | Some l \<Rightarrow> After (ev_CreatedAt event) (ev_CreatedAt l))
                        then Some event else last) events None"

fun index_of :: "ID \<Rightarrow> ID list \<Rightarrow> int" where
  "index_of u [] = -1"
| "index_of u (x # xs) = (if x = u then 0 else let i = index_of u xs in if i < 0 then -1 else i + 1)"

definition load_of :: "ID \<Rightarrow> ID list \<Rightarrow> Event list \<Rightarrow> (ID \<rightharpoonup> nat)" where
  "load_of gid enabled events =
     fold (\<lambda>event load.
             if ev_GroupID event \<noteq> gid \<or> ev_Status event = ''declined'' \<or> ev_Status event = ''reassigned'' then load
             else case load (ev_UserID event) of None \<Rightarrow> load | Some n \<Rightarrow> load(ev_UserID event \<mapsto> n + 1))
       events (fold (\<lambda>x load. load(x \<mapsto> 0)) enabled Map.empty)"

definition PickMember :: "Group \<Rightarrow> Event list \<Rightarrow> distribution_error + ID" where
  "PickMember g events =
     (let enabled = enabled_members g in
      if enabled = [] then Inl ErrNoEnabledMembers
      else if gr_Algorithm g = Priority then Inr (enabled ! 0)
      else if gr_Algorithm g = RoundRobin then
        let lastIndex = (case last_event (gr_ID g) events of
                           None \<Rightarrow> -1 | Some l \<Rightarrow> index_of (ev_UserID l) enabled)
        in Inr (enabled ! nat ((lastIndex + 1) mod int (length enabled)))
      else let load = load_of (gr_ID g) enabled events
           in Inr (sort_key (\<lambda>x. the (load x)) enabled ! 0))"

definition deal :: "Group \<Rightarrow> time \<Rightarrow> Event list \<Rightarrow> distribution_error + ID \<times> Event list" where
  "deal g now events =
     (case PickMember g events of
        Inl err \<Rightarrow> Inl err
      | Inr userID \<Rightarrow> Inr (userID, \<lparr>ev_GroupID = gr_ID g, ev_UserID = userID, ev_Status = ''accepted'',
                               ev_CreatedAt = now\<rparr> # events))"

fun deals :: "Group \<Rightarrow> time list \<Rightarrow> Event list \<Rightarrow> distribution_error + ID list \<times> Event list" where
  "deals g [] events = Inr ([], events)"
| "deals g (now # ts) events =
     (case deal g now events of
        Inl err \<Rightarrow> Inl err
      | Inr (userID, events') \<Rightarrow>
          (case deals g ts events' of Inl err \<Rightarrow> Inl err | Inr (users, final) \<Rightarrow> Inr (userID # users, final)))"

subsection \<open>Positions and loads\<close>

lemma index_of_nth: "distinct xs \<Longrightarrow> i < length xs \<Longrightarrow> index_of (xs ! i) xs = int i"
proof (induction xs arbitrary: i)
  case (Cons x xs)
  then show ?case by (cases i) (auto simp: nth_eq_iff_index_eq Let_def)
qed simp

lemma index_of_absent: "u \<notin> set xs \<Longrightarrow> index_of u xs = -1"
  by (induction xs) (auto simp: Let_def)

lemma index_of_bounds: "-1 \<le> index_of u xs \<and> index_of u xs < int (length xs)"
  by (induction xs) (auto simp: Let_def)

text \<open>The number of deals of the group a member holds.\<close>

definition held :: "ID \<Rightarrow> Event list \<Rightarrow> ID \<Rightarrow> nat" where
  "held gid events u =
     length (filter (\<lambda>e. ev_GroupID e = gid \<and> ev_Status e \<noteq> ''declined'' \<and> ev_Status e \<noteq> ''reassigned'' \<and>
                         ev_UserID e = u) events)"

lemma load_of_eq:
  "load_of gid enabled events = (\<lambda>u. if u \<in> set enabled then Some (held gid events u) else None)"
proof -
  let ?step = "\<lambda>event load. if ev_GroupID event \<noteq> gid \<or> ev_Status event = ''declined'' \<or> ev_Status event = ''reassigned'' then load
             else case load (ev_UserID event) of None \<Rightarrow> load | Some n \<Rightarrow> load(ev_UserID event \<mapsto> n + (1::nat))"
  have zero: "fold (\<lambda>x load. load(x \<mapsto> 0)) enabled m = (\<lambda>u. if u \<in> set enabled then Some 0 else m u)"
    for m :: "ID \<rightharpoonup> nat"
    by (induction enabled arbitrary: m) (auto simp: fun_eq_iff)
  have "fold ?step events load = (\<lambda>u. map_option (\<lambda>n. n + held gid events u) (load u))" for load
  proof (induction events arbitrary: load)
    case Nil
    show ?case by (simp add: held_def fun_eq_iff option.map_ident)
  next
    case (Cons e events)
    have "?step e load = (\<lambda>u. map_option (\<lambda>n. n + held gid [e] u) (load u))"
      by (auto simp: held_def fun_eq_iff option.map_ident split: option.split)
    moreover have "held gid (e # events) u = held gid [e] u + held gid events u" for u
      by (simp add: held_def)
    ultimately show ?case
      by (simp only: fold_simps Cons.IH) (simp add: fun_eq_iff option.map_comp comp_def add.assoc)
  qed
  then show ?thesis by (auto simp: load_of_def zero fun_eq_iff)
qed

lemma sort_key_hd_min:
  assumes "xs \<noteq> []"
  shows "sort_key f xs ! 0 \<in> set xs \<and> (\<forall>x\<in>set xs. f (sort_key f xs ! 0) \<le> f x)"
proof -
  obtain y ys where s: "sort_key f xs = y # ys" using assms by (metis length_0_conv length_sort list.exhaust)
  then have "sorted (map f (y # ys))" by (metis sorted_sort_key)
  moreover have "set xs = set (y # ys)" using s set_sort by metis
  ultimately show ?thesis using s by auto
qed

lemma PickMember_least_loaded:
  assumes "enabled_members g \<noteq> []" "gr_Algorithm g = LeastLoaded"
  shows "\<exists>u. PickMember g events = Inr u \<and> u \<in> set (enabled_members g) \<and>
     (\<forall>v\<in>set (enabled_members g). held (gr_ID g) events u \<le> held (gr_ID g) events v)"
proof -
  let ?f = "\<lambda>x. the (load_of (gr_ID g) (enabled_members g) events x)"
  from sort_key_hd_min[OF assms(1), of ?f] show ?thesis
    using assms by (auto simp: PickMember_def Let_def load_of_eq)
qed

lemma PickMember_enabled:
  "case PickMember g events of Inl err \<Rightarrow> enabled_members g = [] | Inr u \<Rightarrow> u \<in> set (enabled_members g)"
proof (cases "enabled_members g = []")
  case True
  then show ?thesis by (simp add: PickMember_def)
next
  case False
  have "i mod int (length (enabled_members g)) < int (length (enabled_members g))" for i using False by simp
  then have "nat (i mod int (length (enabled_members g))) < length (enabled_members g)" for i
    using False by (metis nat_less_iff of_nat_0_less_iff length_greater_0_conv pos_mod_sign)
  then show ?thesis
    using False sort_key_hd_min[OF False] by (auto simp: PickMember_def Let_def)
qed

subsection \<open>Fairness\<close>

definition newest_first :: "Group \<Rightarrow> time list \<Rightarrow> Event list \<Rightarrow> bool" where
  "newest_first g ts events \<longleftrightarrow>
     sorted_wrt (<) ts \<and> (\<forall>e\<in>set events. \<forall>t\<in>set ts. ev_GroupID e = gr_ID g \<longrightarrow> ev_CreatedAt e < t)"

lemma last_event_newest:
  assumes "\<forall>e\<in>set events. ev_GroupID e = gid \<longrightarrow> ev_CreatedAt e < ev_CreatedAt n" "ev_GroupID n = gid"
  shows "last_event gid (n # events) = Some n"
proof -
  have "fold (\<lambda>event last. if ev_GroupID event = gid \<and>
             (case last of None \<Rightarrow> True | Some l \<Rightarrow> After (ev_CreatedAt event) (ev_CreatedAt l))
           then Some event else last) es (Some n) = Some n"
    if "\<forall>e\<in>set es. ev_GroupID e = gid \<longrightarrow> ev_CreatedAt e < ev_CreatedAt n" for es
    using that by (induction es) auto
  with assms show ?thesis by (simp add: last_event_def)
qed

text \<open>The position the next deal goes to.\<close>

definition turn :: "Group \<Rightarrow> Event list \<Rightarrow> nat" where
  "turn g events =
     nat (((case last_event (gr_ID g) events of None \<Rightarrow> -1 | Some l \<Rightarrow> index_of (ev_UserID l) (enabled_members g)) + 1)
          mod int (length (enabled_members g)))"

lemma turn_bound: "enabled_members g \<noteq> [] \<Longrightarrow> turn g events < length (enabled_members g)"
  by (simp add: turn_def nat_less_iff)

lemma PickMember_turn:
  "gr_Algorithm g = RoundRobin \<Longrightarrow> enabled_members g \<noteq> [] \<Longrightarrow>
   PickMember g events = Inr (enabled_members g ! turn g events)"
  by (simp add: PickMember_def turn_def Let_def)

lemma round_robin_deals:
  assumes "gr_Algorithm g = RoundRobin" "distinct (enabled_members g)" "enabled_members g \<noteq> []"
    "newest_first g ts events"
  shows "\<exists>final. deals g ts events =
    Inr (map (\<lambda>i. enabled_members g ! ((turn g events + i) mod length (enabled_members g))) [0..<length ts], final)"
  using assms(4)
proof (induction ts arbitrary: events)
  case (Cons now ts)
  let ?E = "enabled_members g" and ?n = "length (enabled_members g)"
  define u where "u = ?E ! turn g events"
  define e where "e = \<lparr>ev_GroupID = gr_ID g, ev_UserID = u, ev_Status = ''accepted'', ev_CreatedAt = now\<rparr>"
  have tb: "turn g events < ?n" using turn_bound assms(3) by blast
  have deal: "deal g now events = Inr (u, e # events)"
    using assms by (simp add: deal_def PickMember_turn u_def e_def)
  have "last_event (gr_ID g) (e # events) = Some e"
    by (rule last_event_newest) (use Cons.prems in \<open>auto simp: e_def newest_first_def\<close>)
  then have "turn g (e # events) = nat ((int (turn g events) + 1) mod int ?n)"
    using index_of_nth[OF assms(2) tb] by (simp add: turn_def e_def u_def)
  then have turn': "turn g (e # events) = Suc (turn g events) mod ?n"
    by (simp add: nat_mod_as_int add.commute)
  have "newest_first g ts (e # events)" using Cons.prems by (auto simp: newest_first_def e_def)
  from Cons.IH[OF this] obtain final where
    "deals g ts (e # events) = Inr (map (\<lambda>i. ?E ! ((Suc (turn g events) mod ?n + i) mod ?n)) [0..<length ts], final)"
    unfolding turn' by blast
  then show ?case using deal tb
    by (simp add: u_def mod_simps map_upt_Suc del: upt_Suc)
qed simp

lemma rotation_mset:
  assumes "xs \<noteq> []"
  shows "mset (map (\<lambda>i. xs ! ((s + i) mod length xs)) [0..<length xs]) = mset xs"
proof -
  have "map (\<lambda>i. xs ! ((s + i) mod length xs)) [0..<length xs] = rotate s xs"
    by (rule nth_equalityI) (auto simp: nth_rotate)
  moreover have "mset (rotate s xs) = mset (take (s mod length xs) xs @ drop (s mod length xs) xs)"
    unfolding rotate_drop_take by (simp only: mset_append add.commute)
  ultimately show ?thesis by simp
qed

text \<open>Least loaded: the difference between two members never exceeds one deal.\<close>

definition balanced :: "Group \<Rightarrow> Event list \<Rightarrow> bool" where
  "balanced g events \<longleftrightarrow>
     (\<forall>u\<in>set (enabled_members g). \<forall>v\<in>set (enabled_members g).
        held (gr_ID g) events u \<le> held (gr_ID g) events v + 1)"

lemma least_loaded_deals:
  assumes "gr_Algorithm g = LeastLoaded" "enabled_members g \<noteq> []" "balanced g events"
  shows "\<exists>users final. deals g ts events = Inr (users, final) \<and> balanced g final \<and>
     length users = length ts \<and> set users \<subseteq> set (enabled_members g)"
  using assms(3)
proof (induction ts arbitrary: events)
  case (Cons now ts)
  obtain u where u: "PickMember g events = Inr u" "u \<in> set (enabled_members g)"
    "\<forall>v\<in>set (enabled_members g). held (gr_ID g) events u \<le> held (gr_ID g) events v"
    using PickMember_least_loaded[OF assms(2,1)] by blast
  define e where "e = \<lparr>ev_GroupID = gr_ID g, ev_UserID = u, ev_Status = ''accepted'', ev_CreatedAt = now\<rparr>"
  have "held (gr_ID g) (e # events) v = held (gr_ID g) events v + (if v = u then 1 else 0)" for v
    by (simp add: held_def e_def)
  then have "balanced g (e # events)" using Cons.prems u(2,3) by (auto simp: balanced_def le_SucI)
  from Cons.IH[OF this] u show ?case by (auto simp: deal_def e_def)
qed simp

text \<open>(C18) Deals are shared out fairly. Round robin: from any history, as many consecutive deals as there are enabled
  members go to each enabled member exactly once. Least loaded: the numbers of deals two enabled
  members hold never come to differ by more than one. No deal goes to a disabled member or to a stranger.\<close>

theorem distribution_is_fair:
  assumes "enabled_members g \<noteq> []"
  shows "(gr_Algorithm g = RoundRobin \<and> distinct (enabled_members g) \<and> newest_first g ts events \<and>
            length ts = length (enabled_members g) \<longrightarrow>
            (\<exists>users final. deals g ts events = Inr (users, final) \<and> mset users = mset (enabled_members g))) \<and>
         (gr_Algorithm g = LeastLoaded \<and> balanced g events \<longrightarrow>
            (\<exists>users final. deals g ts events = Inr (users, final) \<and> balanced g final \<and> length users = length ts)) \<and>
         (\<exists>u. PickMember g events = Inr u \<and> u \<in> set (gr_MemberIDs g) \<and> u \<notin> set (gr_DisabledMemberIDs g))"
proof (intro conjI impI)
  assume "gr_Algorithm g = RoundRobin \<and> distinct (enabled_members g) \<and> newest_first g ts events \<and>
    length ts = length (enabled_members g)"
  then show "\<exists>users final. deals g ts events = Inr (users, final) \<and> mset users = mset (enabled_members g)"
    using round_robin_deals[OF _ _ assms] rotation_mset[OF assms] by metis
next
  assume "gr_Algorithm g = LeastLoaded \<and> balanced g events"
  then show "\<exists>users final. deals g ts events = Inr (users, final) \<and> balanced g final \<and> length users = length ts"
    using least_loaded_deals[OF _ assms] by blast
next
  show "\<exists>u. PickMember g events = Inr u \<and> u \<in> set (gr_MemberIDs g) \<and> u \<notin> set (gr_DisabledMemberIDs g)"
    using PickMember_enabled[of g events] assms by (auto simp: enabled_members_def split: sum.splits)
qed

definition example_group :: Group where
  "example_group = \<lparr>gr_ID = ''g'', gr_Algorithm = RoundRobin, gr_MemberIDs = [''a'', ''b'', ''c'', ''d''],
     gr_DisabledMemberIDs = [''b'']\<rparr>"

definition example_events :: "Event list" where
  "example_events = [\<lparr>ev_GroupID = ''g'', ev_UserID = ''c'', ev_Status = ''accepted'', ev_CreatedAt = 5\<rparr>]"

theorem distribution_is_fair_witness:
  "\<exists>users final. deals example_group [6, 7, 8] example_events = Inr (users, final) \<and>
     mset users = {#''a'', ''c'', ''d''#}"
proof -
  have e: "enabled_members example_group = [''a'', ''c'', ''d'']" by code_simp
  have n: "newest_first example_group [6, 7, 8] example_events"
    by (simp add: newest_first_def example_group_def example_events_def)
  have a: "gr_Algorithm example_group = RoundRobin" by (simp add: example_group_def)
  from distribution_is_fair[of example_group "[6, 7, 8]" example_events] n show ?thesis by (simp add: e a)
qed

end
