(* ===== verification/Schedule_Calendar.thy ===== *)
theory Schedule_Calendar
  imports Prelude "HOL-Library.Signed_Division" "HOL-Library.Char_ord" "HOL-Library.List_Lexorder"
begin

section \<open>Work schedules: templates and day states\<close>

text \<open>
  \<^verbatim>\<open>services/company/internal/domain/schedule/calendar.go\<close>. A civil date, which the source passes
  around as a \<^verbatim>\<open>time.Time\<close> at midnight UTC, is the number of days since 0001-01-01; its midnight is
  that many days after the zero time. \<open>getnum\<close>, \<open>parse_clock\<close> and \<open>parse_date\<close> are what
  \<^verbatim>\<open>time.Parse\<close> does for the layouts \<^verbatim>\<open>15:04\<close> (an hour of one or two digits, a minute of two) and
  \<^verbatim>\<open>2006-01-02\<close>. A division by zero, at which the source panics, is \<open>None\<close>.
\<close>

type_synonym civil_day = int

datatype ShiftType = ShiftWork | ShiftOff | ShiftVacation | ShiftSick | ShiftTrip | ShiftOther string

datatype schedule_error = ErrShiftStartInvalid | ErrShiftEndInvalid | ErrWorkingDaysRequired | ErrWeekdayRange
  | ErrWeekdayRepeated | ErrCycleLengths | ErrCycleStartInvalid | ErrTemplateTypeUnknown | ErrShiftTypeUnknown

record schedule_template =
  sc_Type :: string
  sc_Days :: "int list"
  sc_On :: int
  sc_Off :: int
  sc_Start :: string
  sc_End :: string
  sc_CycleStart :: string

record shift_exception =
  ex_Type :: ShiftType
  ex_Start :: string
  ex_End :: string
  ex_Note :: string

record DayState =
  ds_Type :: ShiftType
  ds_Start :: string
  ds_End :: string
  ds_Note :: string

subsection \<open>Reading clock times and dates\<close>

definition digit :: "char \<Rightarrow> int option" where
  "digit c = (if CHR ''0'' \<le> c \<and> c \<le> CHR ''9'' then Some (of_char c - 48) else None)"

fun getnum :: "bool \<Rightarrow> string \<Rightarrow> (int \<times> string) option" where
  "getnum fixed [] = None"
| "getnum fixed [c] = (case digit c of None \<Rightarrow> None | Some d \<Rightarrow> if fixed then None else Some (d, []))"
| "getnum fixed (c # c' # rest) =
     (case digit c of
        None \<Rightarrow> None
      | Some d \<Rightarrow> (case digit c' of
                     None \<Rightarrow> if fixed then None else Some (d, c' # rest)
                   | Some d' \<Rightarrow> Some (10 * d + d', rest)))"

definition parseTime :: "string \<Rightarrow> int option" where
  "parseTime value =
     (case getnum False value of
        Some (hour, sep # rest) \<Rightarrow>
          if hour \<ge> 24 \<or> sep \<noteq> CHR '':'' then None
          else (case getnum True rest of
                  Some (minute, []) \<Rightarrow> if minute \<ge> 60 then None else Some (hour * 60 + minute)
                | _ \<Rightarrow> None)
      | _ \<Rightarrow> None)"

definition is_leap :: "int \<Rightarrow> bool" where
  "is_leap y \<longleftrightarrow> y mod 4 = 0 \<and> (y mod 100 \<noteq> 0 \<or> y mod 400 = 0)"

definition days_in :: "int \<Rightarrow> int \<Rightarrow> int" where
  "days_in month year =
     (if month = 2 then (if is_leap year then 29 else 28)
      else if month \<in> {4, 6, 9, 11} then 30 else 31)"

definition day_number :: "int \<Rightarrow> int \<Rightarrow> int \<Rightarrow> civil_day" where
  "day_number year month day =
     365 * (year - 1) + (year - 1) div 4 - (year - 1) div 100 + (year - 1) div 400 +
     sum_list (map (\<lambda>m. days_in m year) [1..month - 1]) + day - 1"

definition parse_date :: "string \<Rightarrow> civil_day option" where
  "parse_date value =
     (case value of
        y1 # y2 # y3 # y4 # sep # rest \<Rightarrow>
          (case (getnum True [y1, y2], getnum True [y3, y4]) of
             (Some (yh, _), Some (yl, _)) \<Rightarrow>
               let year = 100 * yh + yl
               in if sep \<noteq> CHR ''-'' then None
                  else (case getnum True rest of
                          Some (month, sep' # rest') \<Rightarrow>
                            if month \<le> 0 \<or> 12 < month \<or> sep' \<noteq> CHR ''-'' then None
                            else (case getnum True rest' of
                                    Some (day, []) \<Rightarrow>
                                      if day < 1 \<or> day > days_in month year then None
                                      else Some (day_number year month day)
                                  | _ \<Rightarrow> None)
                        | _ \<Rightarrow> None)
           | _ \<Rightarrow> None)
      | _ \<Rightarrow> None)"

subsection \<open>Validation\<close>

definition validateTimeRange :: "string \<Rightarrow> string \<Rightarrow> schedule_error option" where
  "validateTimeRange start end =
     (if parseTime start = None then Some ErrShiftStartInvalid
      else if parseTime end = None then Some ErrShiftEndInvalid else None)"

fun validate_days :: "int set \<Rightarrow> int list \<Rightarrow> schedule_error option" where
  "validate_days seen [] = None"
| "validate_days seen (day # rest) =
     (if day < 0 \<or> day > 6 then Some ErrWeekdayRange
      else if day \<in> seen then Some ErrWeekdayRepeated
      else validate_days (insert day seen) rest)"

definition ValidateTemplate :: "schedule_template \<Rightarrow> schedule_error option" where
  "ValidateTemplate template =
     and_then (validateTimeRange (sc_Start template) (sc_End template))
       (if sc_Type template = ''week'' then
          (if sc_Days template = [] then Some ErrWorkingDaysRequired
           else validate_days {} (sc_Days template))
        else if sc_Type template = ''cycle'' then
          (if sc_On template < 1 \<or> sc_Off template < 1 then Some ErrCycleLengths
           else if parse_date (sc_CycleStart template) = None then Some ErrCycleStartInvalid
           else None)
        else Some ErrTemplateTypeUnknown)"

definition ValidateException :: "shift_exception \<Rightarrow> schedule_error option" where
  "ValidateException exception =
     (case ex_Type exception of
        ShiftWork \<Rightarrow> validateTimeRange (ex_Start exception) (ex_End exception)
      | ShiftOther _ \<Rightarrow> Some ErrShiftTypeUnknown
      | _ \<Rightarrow> None)"

subsection \<open>The state of a day\<close>

definition WeekdayIndex :: "civil_day \<Rightarrow> int" where
  "WeekdayIndex date = (let weekday = (date + 1) mod 7 in (weekday + 6) mod 7)"

definition IsWeekend :: "civil_day \<Rightarrow> bool" where
  "IsWeekend date \<longleftrightarrow> WeekdayIndex date \<ge> 5"

definition DaysInMonth :: "int \<Rightarrow> int \<Rightarrow> int" where
  "DaysInMonth year month = days_in ((month - 1) mod 12 + 1) (year + (month - 1) div 12)"

definition work_state :: "schedule_template \<Rightarrow> DayState" where
  "work_state template =
     \<lparr>ds_Type = ShiftWork, ds_Start = sc_Start template, ds_End = sc_End template, ds_Note = ''''\<rparr>"

definition off_state :: DayState where
  "off_state = \<lparr>ds_Type = ShiftOff, ds_Start = '''', ds_End = '''', ds_Note = ''''\<rparr>"

text \<open>A date that does not parse leaves the zero time, day 0. The division of the saturated
  difference by 24 hours is exact except at the bounds of a duration, where it is truncated.\<close>

definition cycle_start_day :: "schedule_template \<Rightarrow> civil_day" where
  "cycle_start_day template = (case parse_date (sc_CycleStart template) of None \<Rightarrow> 0 | Some d \<Rightarrow> d)"

definition cycle_state :: "schedule_template \<Rightarrow> int \<Rightarrow> DayState option" where
  "cycle_state template days =
     (let cycle = wrap64 (sc_On template + sc_Off template) in
      if cycle = 0 then None
      else let index = days smod cycle; index = (if index < 0 then wrap64 (index + cycle) else index)
           in Some (if index < sc_On template then work_state template else off_state))"

definition BaseState :: "schedule_template \<Rightarrow> civil_day \<Rightarrow> DayState option" where
  "BaseState template date =
     (if sc_Type template = ''week'' then
        Some (if WeekdayIndex date \<in> set (sc_Days template) then work_state template else off_state)
      else cycle_state template (Time_Sub (date * Day) (cycle_start_day template * Day) sdiv Day))"

definition exception_state :: "shift_exception \<Rightarrow> DayState" where
  "exception_state ex =
     \<lparr>ds_Type = ex_Type ex, ds_Start = ex_Start ex, ds_End = ex_End ex, ds_Note = ex_Note ex\<rparr>"

definition State :: "schedule_template \<Rightarrow> shift_exception option \<Rightarrow> civil_day \<Rightarrow> DayState option" where
  "State template exception date =
     (case exception of None \<Rightarrow> BaseState template date | Some ex \<Rightarrow> Some (exception_state ex))"

subsection \<open>Facts\<close>

lemma digit_range: "digit c = Some d \<Longrightarrow> 0 \<le> d \<and> d \<le> 9"
proof -
  assume "digit c = Some d"
  then have c: "CHR ''0'' \<le> c" "c \<le> CHR ''9''" "d = of_char c - 48" by (auto simp: digit_def split: if_splits)
  then have "(of_char (CHR ''0'') :: nat) \<le> of_char c" "(of_char c :: nat) \<le> of_char (CHR ''9'')"
    by (simp_all only: less_eq_char_def)
  moreover have "(of_char c :: int) = int (of_char c)" by (simp only: of_nat_of_char)
  ultimately show ?thesis using c(3) by simp
qed

lemma getnum_range: "getnum fixed s = Some (n, rest) \<Longrightarrow> 0 \<le> n \<and> n \<le> 99"
  by (induction fixed s rule: getnum.induct) (auto split: option.splits if_splits dest!: digit_range)

lemma parseTime_range: "parseTime s = Some m \<Longrightarrow> 0 \<le> m \<and> m < 1440"
  by (auto simp: parseTime_def split: option.splits list.splits if_splits dest!: getnum_range)

lemma validate_days_None [valid_iff]:
  "validate_days seen ds = None \<longleftrightarrow> (\<forall>d\<in>set ds. 0 \<le> d \<and> d \<le> 6) \<and> distinct ds \<and> set ds \<inter> seen = {}"
  by (induction ds arbitrary: seen) auto

text \<open>The schedule repeats: the index of a day in its cycle is the mathematical remainder.\<close>

lemma smod_normalised: "0 < c \<Longrightarrow> (if d smod c < 0 then d smod c + c else d smod c) = d mod c" for c d :: int
proof -
  assume c: "0 < c"
  have r: "- c < d smod c" "d smod c < c" using smod_int_range[of c d] c by auto
  have "d mod c = (d smod c) mod c" by (metis mod_mult_self2 smod_mult_sdiv_eq)
  also have "\<dots> = (if d smod c < 0 then d smod c + c else d smod c)"
  proof (cases "d smod c < 0")
    case True
    then have "(d smod c + c) mod c = d smod c + c" using r by (intro mod_pos_pos_trivial) auto
    with True show ?thesis by simp
  qed (use r in simp)
  finally show ?thesis by simp
qed

lemma cycle_state_eq:
  assumes "1 \<le> sc_On t" "1 \<le> sc_Off t" "sc_On t + sc_Off t \<le> max_int64"
  shows "cycle_state t days =
    Some (if days mod (sc_On t + sc_Off t) < sc_On t then work_state t else off_state)"
proof -
  let ?c = "sc_On t + sc_Off t"
  have c: "wrap64 ?c = ?c" using assms by (intro wrap64_id) (simp add: in_int64_def min_int64_def)
  have "in_int64 (days smod ?c + ?c)" if "days smod ?c < 0"
    using that smod_int_range[of ?c days] assms by (auto simp: in_int64_def min_int64_def)
  then have "(if days smod ?c < 0 then wrap64 (days smod ?c + ?c) else days smod ?c) = days mod ?c"
    using smod_normalised[of ?c days] assms by (auto split: if_splits)
  with c assms show ?thesis by (simp add: cycle_state_def Let_def)
qed

text \<open>A duration holds at most 106751 whole days.\<close>

lemma Time_Sub_days:
  assumes "\<bar>a - b\<bar> \<le> 106751"
  shows "Time_Sub (a * Day) (b * Day) sdiv Day = a - b"
proof -
  have "\<bar>a * Day - b * Day\<bar> = \<bar>a - b\<bar> * Day" by (simp add: abs_mult abs_of_pos[OF Day_pos(1)] flip: left_diff_distrib)
  also have "\<dots> \<le> max_int64" using assms by (simp add: Day_def Hour_def max_int64_def)
  finally have "Time_Sub (a * Day) (b * Day) = (a - b) * Day"
    by (simp add: Time_Sub_exact left_diff_distrib)
  then show ?thesis by (simp add: signed_divide_int_def abs_mult sgn_mult mult_sgn_abs)
qed

lemma Time_Sub_days_saturated:
  assumes "106751 < a - b"
  shows "Time_Sub (a * Day) (b * Day) sdiv Day = 106751"
proof -
  have "max_int64 \<le> (a - b) * Day" using assms by (simp add: Day_def Hour_def max_int64_def)
  then have "Time_Sub (a * Day) (b * Day) = max_int64"
    by (simp add: Time_Sub_def left_diff_distrib max_int64_def min_int64_def)
  then show ?thesis by (simp add: signed_divide_int_def max_int64_def Day_def Hour_def)
qed

end
