(* ===== verification/Schedule_Availability.thy ===== *)
theory Schedule_Availability
  imports Schedule_Calendar
begin

section \<open>Work schedules: who is at work now\<close>

text \<open>
  \<^verbatim>\<open>services/company/internal/domain/schedule/availability.go\<close>. A location, which comes from the time
  zone database (\<^verbatim>\<open>time.LoadLocation\<close>), is a parameter: the offset in seconds that holds at an
  instant. The exceptions, a map keyed by the formatted date, are a map keyed by the civil day.
  \<open>day_shift\<close> is the body of the search loop up to the comparison with the present time, \<open>scan\<close> the
  loop over the days from yesterday to the end of the horizon.
\<close>

type_synonym zone = "time \<Rightarrow> int"

record schedule_availability =
  av_Available :: bool
  av_Reason :: string
  av_Until :: "time option"
  av_Next :: "time option"

definition Second :: duration where
  "Second = 1000000000"

definition not_available :: "string \<Rightarrow> schedule_availability" where
  "not_available reason = \<lparr>av_Available = False, av_Reason = reason, av_Until = None, av_Next = None\<rparr>"

text \<open>The name of a shift type, \<^verbatim>\<open>string(ex.Type)\<close>.\<close>

definition shift_name :: "ShiftType \<Rightarrow> string" where
  "shift_name t =
     (case t of ShiftWork \<Rightarrow> ''work'' | ShiftOff \<Rightarrow> ''off'' | ShiftVacation \<Rightarrow> ''vacation'' | ShiftSick \<Rightarrow> ''sick''
      | ShiftTrip \<Rightarrow> ''trip'' | ShiftOther s \<Rightarrow> s)"

definition availabilityState ::
  "schedule_template \<Rightarrow> shift_exception option \<Rightarrow> civil_day \<Rightarrow> DayState option" where
  "availabilityState template exception date =
     (if exception \<noteq> None \<or> sc_Type template \<noteq> ''cycle'' then State template exception date
      else cycle_state template (date - cycle_start_day template))"

text \<open>The instant a clock of the location shows the given time of the day, if there is exactly one.\<close>

definition local_minute :: "zone \<Rightarrow> time \<Rightarrow> int" where
  "local_minute loc t = (t + loc t * Second) div Minute"

definition localBoundary :: "civil_day \<Rightarrow> string \<Rightarrow> zone \<Rightarrow> time option" where
  "localBoundary date clock loc =
     (case parseTime clock of
        None \<Rightarrow> None
      | Some minutes \<Rightarrow>
          let wall = date * Day + minutes * Minute;
              offsets = remdups (map (\<lambda>h. loc (wall + h * Hour)) [-48..48]);
              candidates = filter (\<lambda>t. local_minute loc t = wall div Minute)
                             (map (\<lambda>offset. wall - offset * Second) offsets)
          in case candidates of [t] \<Rightarrow> Some t | _ \<Rightarrow> None)"

definition bad_exception :: "shift_exception \<Rightarrow> bool" where
  "bad_exception ex \<longleftrightarrow> ValidateException ex \<noteq> None \<or> ex_Type ex = ShiftWork \<and> ex_Start ex = ex_End ex"

datatype day_shift = NoShift | BadShift | Shift time time | ShiftPanic

text \<open>An explicit non-working exception on the next day cuts the tail of a night shift at midnight.\<close>

definition night_end ::
  "zone \<Rightarrow> (civil_day \<rightharpoonup> shift_exception) \<Rightarrow> civil_day \<Rightarrow> civil_day \<Rightarrow> time \<Rightarrow> time option" where
  "night_end loc exceptions day endDay end =
     (if endDay \<noteq> day
      then case exceptions endDay of
             None \<Rightarrow> Some end
           | Some next_ex \<Rightarrow>
               if ex_Type next_ex = ShiftWork then Some end
               else if ValidateException next_ex \<noteq> None then None
               else localBoundary endDay ''00:00'' loc
      else Some end)"

definition shift_bounds ::
  "zone \<Rightarrow> (civil_day \<rightharpoonup> shift_exception) \<Rightarrow> civil_day \<Rightarrow> DayState \<Rightarrow> day_shift" where
  "shift_bounds loc exceptions day state =
     (let endDay = (if ds_End state \<le> ds_Start state then day + 1 else day)
      in case localBoundary day (ds_Start state) loc of
           None \<Rightarrow> BadShift
         | Some start \<Rightarrow>
        (case localBoundary endDay (ds_End state) loc of
           None \<Rightarrow> BadShift
         | Some end \<Rightarrow>
        if ds_Start state = ds_End state then BadShift
        else (case night_end loc exceptions day endDay end of
                None \<Rightarrow> BadShift
              | Some end \<Rightarrow> if After end start then Shift start end else NoShift)))"

definition day_shift ::
  "zone \<Rightarrow> schedule_template \<Rightarrow> (civil_day \<rightharpoonup> shift_exception) \<Rightarrow> civil_day \<Rightarrow> day_shift" where
  "day_shift loc template exceptions day =
     (if (case exceptions day of None \<Rightarrow> False | Some ex \<Rightarrow> bad_exception ex) then BadShift
      else case availabilityState template (exceptions day) day of
             None \<Rightarrow> ShiftPanic
           | Some state \<Rightarrow>
               if ds_Type state \<noteq> ShiftWork then NoShift else shift_bounds loc exceptions day state)"

fun scan ::
  "(civil_day \<Rightarrow> day_shift) \<Rightarrow> civil_day \<Rightarrow> time \<Rightarrow> string \<Rightarrow> int list \<Rightarrow> schedule_availability option" where
  "scan shift date now reason [] =
     Some (not_available (if reason = ''outside_shift'' then ''shift_not_found_within_horizon'' else reason))"
| "scan shift date now reason (offset # rest) =
     (case shift (date + offset) of
        ShiftPanic \<Rightarrow> None
      | NoShift \<Rightarrow> scan shift date now reason rest
      | BadShift \<Rightarrow> scan shift date now (if offset \<le> 0 then ''schedule_invalid'' else reason) rest
      | Shift start end \<Rightarrow>
          if \<not> Before now start \<and> Before now end
          then Some \<lparr>av_Available = True, av_Reason = ''available'', av_Until = Some end, av_Next = None\<rparr>
          else if After start now then Some ((not_available reason)\<lparr>av_Next := Some start\<rparr>)
          else scan shift date now reason rest)"

definition local_day :: "zone \<Rightarrow> time \<Rightarrow> civil_day" where
  "local_day loc now = (now + loc now * Second) div Day"

definition template_usable :: "schedule_template \<Rightarrow> bool" where
  "template_usable template \<longleftrightarrow>
     \<not> (ValidateTemplate template \<noteq> None \<or> sc_Start template = sc_End template \<or>
        (sc_Type template = ''cycle'' \<and> sc_On template > max_int64 - sc_Off template))"

definition AvailableAt ::
  "(string \<Rightarrow> zone option) \<Rightarrow> schedule_template option \<Rightarrow> (civil_day \<rightharpoonup> shift_exception) \<Rightarrow> string \<Rightarrow> time \<Rightarrow>
   schedule_availability option" where
  "AvailableAt LoadLocation template exceptions timezone now =
     (case LoadLocation timezone of
        None \<Rightarrow> Some (not_available ''timezone_required'')
      | Some loc \<Rightarrow>
         if timezone = '''' \<or> timezone = ''Local'' then Some (not_available ''timezone_required'')
         else case template of
           None \<Rightarrow> Some (not_available ''schedule_missing'')
         | Some template \<Rightarrow>
            if \<not> template_usable template then Some (not_available ''schedule_invalid'')
            else let date = local_day loc now
                 in case exceptions date of
                      None \<Rightarrow> scan (day_shift loc template exceptions) date now ''outside_shift'' [-1..35]
                    | Some ex \<Rightarrow>
                        if bad_exception ex then Some (not_available ''schedule_invalid'')
                        else scan (day_shift loc template exceptions) date now
                               (if ex_Type ex \<noteq> ShiftWork then shift_name (ex_Type ex) else ''outside_shift'')
                               [-1..35])"

subsection \<open>The calendar and the availability search agree\<close>

lemma availabilityState_cycle:
  assumes "ValidateTemplate t = None" "sc_Type t = ''cycle''" "sc_On t \<le> max_int64 - sc_Off t"
  shows "availabilityState t None d =
    Some (if (d - cycle_start_day t) mod (sc_On t + sc_Off t) < sc_On t then work_state t else off_state)"
  using assms cycle_state_eq[of t]
  by (auto simp: availabilityState_def ValidateTemplate_def and_then_def split: option.splits if_splits)

lemma template_usable_state:
  assumes "template_usable t"
  shows "\<exists>st. availabilityState t ex d = Some st"
proof (cases "ex = None \<and> sc_Type t = ''cycle''")
  case True
  with assms availabilityState_cycle[of t d] show ?thesis by (auto simp: template_usable_def)
next
  case False
  with assms show ?thesis
    by (auto simp: template_usable_def availabilityState_def State_def BaseState_def ValidateTemplate_def
        split: option.splits if_splits)
qed

lemma shift_bounds_cases:
  "shift_bounds loc exceptions d st \<noteq> ShiftPanic"
  "shift_bounds loc exceptions d st = Shift s e \<Longrightarrow> localBoundary d (ds_Start st) loc = Some s \<and> s < e"
  by (simp_all add: shift_bounds_def Let_def split: option.splits if_splits)

lemma day_shift_no_panic: "template_usable t \<Longrightarrow> day_shift loc t exceptions d \<noteq> ShiftPanic"
  using template_usable_state[of t "exceptions d" d] shift_bounds_cases(1)
  by (auto simp: day_shift_def split: if_splits)

subsection \<open>What the search returns\<close>

text \<open>The shifts of the days searched, and what an answer says about them: present in one of them
  until its end, or the start of the next one if there is any.\<close>

definition shifts_on :: "(civil_day \<Rightarrow> day_shift) \<Rightarrow> civil_day \<Rightarrow> int list \<Rightarrow> (time \<times> time) set" where
  "shifts_on shift date os = {(s, e). \<exists>i\<in>set os. shift (date + i) = Shift s e}"

definition answers :: "(time \<times> time) set \<Rightarrow> time \<Rightarrow> schedule_availability \<Rightarrow> bool" where
  "answers S now a \<longleftrightarrow>
     (av_Available a \<longleftrightarrow> (\<exists>(s, e)\<in>S. s \<le> now \<and> now < e)) \<and>
     (av_Available a \<longrightarrow> av_Next a = None \<and> (\<exists>(s, e)\<in>S. s \<le> now \<and> now < e \<and> av_Until a = Some e)) \<and>
     (\<not> av_Available a \<longrightarrow> av_Until a = None \<and>
        (case av_Next a of None \<Rightarrow> \<forall>(s, e)\<in>S. s \<le> now
         | Some n \<Rightarrow> now < n \<and> n \<in> fst ` S \<and> (\<forall>(s, e)\<in>S. now < s \<longrightarrow> n \<le> s)))"

text \<open>The days come in order: a later day does not start its shift before an earlier one.\<close>

definition starts_in_order :: "(civil_day \<Rightarrow> day_shift) \<Rightarrow> civil_day \<Rightarrow> int list \<Rightarrow> bool" where
  "starts_in_order shift date os \<longleftrightarrow>
     sorted_wrt (\<lambda>i j. \<forall>s e s' e'. shift (date + i) = Shift s e \<longrightarrow> shift (date + j) = Shift s' e' \<longrightarrow> s \<le> s') os"

lemma shifts_on_Cons:
  "shifts_on shift date (i # os) =
     (case shift (date + i) of Shift s e \<Rightarrow> insert (s, e) (shifts_on shift date os) | _ \<Rightarrow> shifts_on shift date os)"
  by (auto simp: shifts_on_def split: day_shift.splits)

lemma answers_past_shift:
  assumes "answers S now a" "s \<le> now" "e \<le> now"
  shows "answers (insert (s, e) S) now a"
  using assms unfolding answers_def by (cases "av_Next a") auto

lemma scan_correct:
  assumes "\<forall>i\<in>set os. shift (date + i) \<noteq> ShiftPanic" "starts_in_order shift date os"
  shows "\<exists>a. scan shift date now reason os = Some a \<and> answers (shifts_on shift date os) now a"
  using assms
proof (induction os arbitrary: reason)
  case Nil
  show ?case by (simp add: shifts_on_def answers_def not_available_def)
next
  case (Cons i os)
  then have IH: "\<exists>a. scan shift date now r os = Some a \<and> answers (shifts_on shift date os) now a" for r
    by (auto simp: starts_in_order_def)
  show ?case
  proof (cases "shift (date + i)")
    case (Shift s e)
    have later: "\<forall>(s', e')\<in>shifts_on shift date os. s \<le> s'"
      using Cons.prems(2) Shift by (auto simp: starts_in_order_def shifts_on_def)
    consider "s \<le> now" "now < e" | "now < s" | "s \<le> now" "e \<le> now" by linarith
    then show ?thesis
    proof cases
      case 1
      then show ?thesis using Shift by (auto simp: shifts_on_Cons answers_def)
    next
      case 2
      then show ?thesis using Shift later by (force simp: shifts_on_Cons answers_def not_available_def)
    next
      case 3
      then show ?thesis using Shift IH[of reason] answers_past_shift[of _ now _ s e]
        by (auto simp: shifts_on_Cons)
    qed
  qed (use Cons.prems(1) IH in \<open>auto simp: shifts_on_Cons\<close>)
qed

text \<open>In a location with a constant offset every clock time exists exactly once a day, and the
  shifts start in the order of the days.\<close>

lemma remdups_const: "xs \<noteq> [] \<Longrightarrow> remdups (map (\<lambda>_. c) xs) = [c]"
  by (induction xs rule: list_nonempty_induct) (auto simp: image_constant_conv)

lemma localBoundary_fixed:
  "localBoundary d clock (\<lambda>_. off) =
     map_option (\<lambda>minutes. d * Day + minutes * Minute - off * Second) (parseTime clock)"
proof -
  have "remdups (map (\<lambda>h. off) [-48..48]) = [off]" by (rule remdups_const) simp
  then show ?thesis
    by (simp add: localBoundary_def Let_def local_minute_def split: option.split)
qed

lemma day_shift_start:
  "day_shift loc t exceptions d = Shift s e \<Longrightarrow> \<exists>clock. localBoundary d clock loc = Some s"
  by (auto simp: day_shift_def dest: shift_bounds_cases(2) split: if_splits option.splits)

lemma fixed_zone_in_order:
  assumes "sorted_wrt (<) os"
  shows "starts_in_order (day_shift (\<lambda>_. off) t exceptions) date os"
proof -
  have "s \<le> s'" if shifts: "day_shift (\<lambda>_. off) t exceptions (date + i) = Shift s e"
      "day_shift (\<lambda>_. off) t exceptions (date + j) = Shift s' e'" and "i < j" for i j s e s' e'
  proof -
    from shifts[THEN day_shift_start] obtain m m' clock clock' where
      m: "parseTime clock = Some m" "s = (date + i) * Day + m * Minute - off * Second"
         "parseTime clock' = Some m'" "s' = (date + j) * Day + m' * Minute - off * Second"
      by (auto simp: localBoundary_fixed)
    have "(i + 1) * Day \<le> j * Day" using \<open>i < j\<close> by (intro mult_right_mono) (auto simp: less_imp_le)
    moreover have "m * Minute \<le> Day" "0 \<le> m' * Minute"
      using parseTime_range[OF m(1)] parseTime_range[OF m(3)] by (auto simp: Day_def Hour_def Minute_def)
    ultimately show ?thesis unfolding m(2,4) by (simp add: algebra_simps)
  qed
  then show ?thesis using sorted_wrt_mono_rel[OF _ assms] by (fastforce simp: starts_in_order_def)
qed

lemma scan_total: "\<forall>i\<in>set os. shift (date + i) \<noteq> ShiftPanic \<Longrightarrow> scan shift date now reason os \<noteq> None"
  by (induction os arbitrary: reason) (auto split: day_shift.splits)

lemma AvailableAt_total: "AvailableAt load template exceptions timezone now \<noteq> None"
  using scan_total day_shift_no_panic
  by (auto simp: AvailableAt_def Let_def split: option.splits)

subsection \<open>Properties\<close>

text \<open>For a usable schedule in a known time zone the search never fails and answers correctly for the days
  from yesterday to 35 days ahead: available exactly when the present lies in one of their shifts, then with the end of that
  shift; otherwise with the earliest later start of a shift, if there is one. (The shifts are to start
  in the order of their days, which holds in every zone of constant offset.)\<close>

theorem AvailableAt_correct:
  assumes "load tz = Some loc" "tz \<notin> {'''', ''Local''}" "template_usable t"
    "\<forall>ex. exceptions (local_day loc now) = Some ex \<longrightarrow> \<not> bad_exception ex"
    "starts_in_order (day_shift loc t exceptions) (local_day loc now) [-1..35]"
  shows "\<exists>a. AvailableAt load (Some t) exceptions tz now = Some a \<and>
     answers {(s, e). \<exists>i\<in>{-1..35}. day_shift loc t exceptions (local_day loc now + i) = Shift s e} now a"
proof -
  have "\<exists>a. scan (day_shift loc t exceptions) (local_day loc now) now reason [-1..35] = Some a \<and>
      answers {(s, e). \<exists>i\<in>{-1..35}. day_shift loc t exceptions (local_day loc now + i) = Shift s e} now a" for reason
    using scan_correct[OF _ assms(5), of now reason] day_shift_no_panic[OF assms(3)]
    by (simp only: shifts_on_def set_upto) blast
  then show ?thesis
    using assms(1-4) by (cases "exceptions (local_day loc now)") (simp_all add: AvailableAt_def Let_def)
qed

definition example_schedule :: schedule_template where
  "example_schedule = \<lparr>sc_Type = ''week'', sc_Days = [0], sc_On = 0, sc_Off = 0, sc_Start = ''22:00'',
     sc_End = ''06:00'', sc_CycleStart = ''''\<rparr>"

definition example_monday :: civil_day where
  "example_monday = day_number 2026 10 5"

theorem AvailableAt_correct_witness:
  "\<exists>a. AvailableAt [''Europe/Moscow'' \<mapsto> \<lambda>_. 10800] (Some example_schedule) Map.empty ''Europe/Moscow''
         (example_monday * Day + 23 * Hour) = Some a \<and> av_Available a"
proof -
  let ?loc = "\<lambda>_::time. 10800 :: int" and ?now = "example_monday * Day + 23 * Hour"
  have u: "template_usable example_schedule" by code_simp
  have ord: "starts_in_order (day_shift ?loc example_schedule Map.empty) (local_day ?loc ?now) [-1..35]"
    by (rule fixed_zone_in_order) (rule sorted_wrt_upto)
  have sh: "day_shift ?loc example_schedule Map.empty (local_day ?loc ?now + -1) =
      Shift (example_monday * Day + 19 * Hour) (example_monday * Day + 27 * Hour)" by code_simp
  from AvailableAt_correct[of "[''Europe/Moscow'' \<mapsto> ?loc]" "''Europe/Moscow''" ?loc example_schedule Map.empty ?now]
  obtain a where a: "AvailableAt [''Europe/Moscow'' \<mapsto> ?loc] (Some example_schedule) Map.empty ''Europe/Moscow'' ?now = Some a"
    "answers {(s, e). \<exists>i\<in>{-1..35}. day_shift ?loc example_schedule Map.empty (local_day ?loc ?now + i) = Shift s e} ?now a"
    using u ord by auto
  have mem: "(example_monday * Day + 19 * Hour, example_monday * Day + 27 * Hour)
      \<in> {(s, e). \<exists>i\<in>{-1..35}. day_shift ?loc example_schedule Map.empty (local_day ?loc ?now + i) = Shift s e}"
    using sh by force
  have "\<exists>(s, e)\<in>{(s, e). \<exists>i\<in>{-1..35}. day_shift ?loc example_schedule Map.empty (local_day ?loc ?now + i) = Shift s e}.
      s \<le> ?now \<and> ?now < e"
    by (rule bexI[OF _ mem]) (simp add: Hour_def)
  with a(2) have "av_Available a" unfolding answers_def by blast
  with a(1) show ?thesis by blast
qed

text \<open>The state of a day in a cyclic schedule. The availability search and the calendar agree, and
  give the position of the day in the cycle, up to 106751 days (some 292 years) from the start of the
  cycle. Further on the search stays right, but the calendar, which computes with a saturated
  duration, shows one and the same state for every later day.\<close>

theorem cycle_states:
  assumes "ValidateTemplate t = None" "sc_Type t = ''cycle''" "sc_On t \<le> max_int64 - sc_Off t"
  shows "availabilityState t None d =
      Some (if (d - cycle_start_day t) mod (sc_On t + sc_Off t) < sc_On t then work_state t else off_state) \<and>
    (\<bar>d - cycle_start_day t\<bar> \<le> 106751 \<longrightarrow> BaseState t d = availabilityState t None d) \<and>
    (106751 < d - cycle_start_day t \<longrightarrow> BaseState t d = BaseState t (cycle_start_day t + 106751))"
proof (intro conjI impI)
  show "availabilityState t None d =
      Some (if (d - cycle_start_day t) mod (sc_On t + sc_Off t) < sc_On t then work_state t else off_state)"
    using assms by (rule availabilityState_cycle)
next
  assume "\<bar>d - cycle_start_day t\<bar> \<le> 106751"
  then show "BaseState t d = availabilityState t None d"
    using assms(2) by (simp add: BaseState_def availabilityState_def Time_Sub_days)
next
  assume "106751 < d - cycle_start_day t"
  then show "BaseState t d = BaseState t (cycle_start_day t + 106751)"
    using assms(2) Time_Sub_days[of "cycle_start_day t + 106751" "cycle_start_day t"]
    by (simp add: BaseState_def Time_Sub_days_saturated)
qed

definition example_cycle :: schedule_template where
  "example_cycle = \<lparr>sc_Type = ''cycle'', sc_Days = [], sc_On = 1, sc_Off = 1, sc_Start = ''09:00'', sc_End = ''18:00'',
     sc_CycleStart = ''0001-01-01''\<rparr>"

theorem cycle_states_witness:
  "availabilityState example_cycle None 739684 = Some (work_state example_cycle) \<and>
   BaseState example_cycle 739684 = Some off_state"
proof -
  have "ValidateTemplate example_cycle = None" "sc_Type example_cycle = ''cycle''" "cycle_start_day example_cycle = 0"
    "BaseState example_cycle 106751 = Some off_state" by code_simp+
  then show ?thesis using cycle_states[of example_cycle 739684] by (simp add: example_cycle_def max_int64_def)
qed

text \<open>Whether a shift passes midnight is decided by comparing the clock times as texts. A start with a
  one-digit hour, which the validation accepts, compares above a later two-digit end, and the shift is
  taken to end a day later than it does.\<close>

theorem one_digit_hour_adds_a_day:
  assumes "template_usable t" "sc_Type t = ''week''" "WeekdayIndex d \<in> set (sc_Days t)"
    "parseTime (sc_Start t) = Some m" "parseTime (sc_End t) = Some n" "m < n" "sc_End t \<le> sc_Start t"
  shows "day_shift (\<lambda>_. off) t Map.empty d =
    Shift (d * Day + m * Minute - off * Second) ((d + 1) * Day + n * Minute - off * Second)"
proof -
  have "sc_Start t \<noteq> sc_End t" using assms(1) by (simp add: template_usable_def)
  moreover have "availabilityState t None d = Some (work_state t)"
    using assms(2,3) by (simp add: availabilityState_def State_def BaseState_def)
  moreover have "d * Day + m * Minute - off * Second < (d + 1) * Day + n * Minute - off * Second"
    using assms(6) by (simp add: distrib_right add_pos_pos mult_strict_right_mono add_strict_increasing)
  ultimately show ?thesis using assms(4,5,7)
    by (simp add: day_shift_def shift_bounds_def work_state_def localBoundary_fixed night_end_def Let_def)
qed

theorem one_digit_hour_adds_a_day_witness:
  "day_shift (\<lambda>_. 0) (example_schedule\<lparr>sc_Start := ''9:00'', sc_End := ''18:00''\<rparr>) Map.empty example_monday =
     Shift (example_monday * Day + 9 * Hour) ((example_monday + 1) * Day + 18 * Hour)"
proof -
  let ?t = "example_schedule\<lparr>sc_Start := ''9:00'', sc_End := ''18:00''\<rparr>"
  have "template_usable ?t" "sc_Type ?t = ''week''" "WeekdayIndex example_monday \<in> set (sc_Days ?t)"
    "parseTime (sc_Start ?t) = Some 540" "parseTime (sc_End ?t) = Some 1080" "sc_End ?t \<le> sc_Start ?t"
    by code_simp+
  from one_digit_hour_adds_a_day[OF this(1-5) _ this(6), of 0] show ?thesis by (simp add: Hour_def Minute_def)
qed

end
