(* ===== verification/Recurrence.thy ===== *)
theory Recurrence
  imports Schedule_Availability
begin

section \<open>Recurring tasks\<close>

text \<open>
  \<^verbatim>\<open>services/tasks/internal/domain/recurrence/recurrence.go\<close>: the next due date of a recurring task. A
  date is given by its year, month and day in the location of the task, and the result by its civil
  day; the time of the day is kept by all operations (\<^verbatim>\<open>AddDate\<close>). The instants at which the days of the
  location begin are an argument, since \<^verbatim>\<open>weeksBetween\<close> measures the time between two of them.
  The number of rounds of the search is the one of the source, an \<^verbatim>\<open>int\<close> product.
\<close>

datatype Frequency = FrequencyDaily | FrequencyWeekly | FrequencyMonthly | FrequencyOther string

datatype recurrence_error = ErrIntervalInvalid | ErrFrequencyUnsupported | ErrWeekdayInvalid | ErrNextDateNotFound

record Rule =
  ru_Frequency :: Frequency
  ru_Interval :: int
  ru_Weekdays :: "int list"

definition Weekday :: "civil_day \<Rightarrow> int" where
  "Weekday date = (date + 1) mod 7"

definition startOfWeek :: "civil_day \<Rightarrow> civil_day" where
  "startOfWeek value = (let weekday = (if Weekday value = 0 then 7 else Weekday value) in value - (weekday - 1))"

definition weeksBetween :: "(civil_day \<Rightarrow> time) \<Rightarrow> civil_day \<Rightarrow> civil_day \<Rightarrow> int" where
  "weeksBetween midnight from_day to_day =
     (Time_Sub (midnight (startOfWeek to_day)) (midnight (startOfWeek from_day)) sdiv Day) sdiv 7"

fun weekly_search :: "nat \<Rightarrow> (civil_day \<Rightarrow> bool) \<Rightarrow> civil_day \<Rightarrow> civil_day option" where
  "weekly_search 0 ok candidate = None"
| "weekly_search (Suc n) ok candidate =
     (if ok candidate then Some candidate else weekly_search n ok (candidate + 1))"

definition nextWeekly :: "(civil_day \<Rightarrow> time) \<Rightarrow> Rule \<Rightarrow> civil_day \<Rightarrow> recurrence_error + civil_day" where
  "nextWeekly midnight rule from_day =
     (if ru_Weekdays rule = [] then Inr (from_day + 7 * ru_Interval rule)
      else if list_ex (\<lambda>w. w < 0 \<or> w > 6) (ru_Weekdays rule) then Inl ErrWeekdayInvalid
      else case weekly_search (nat (wrap64 (366 * ru_Interval rule)))
                  (\<lambda>candidate. Weekday candidate \<in> set (ru_Weekdays rule) \<and>
                     weeksBetween midnight from_day candidate smod ru_Interval rule = 0)
                  (from_day + 1) of
             None \<Rightarrow> Inl ErrNextDateNotFound
           | Some d \<Rightarrow> Inr d)"

text \<open>\<^verbatim>\<open>AddDate(0, n, 0)\<close>: a day beyond the end of the month runs over into the next one.\<close>

definition add_months :: "int \<Rightarrow> int \<Rightarrow> int \<Rightarrow> int \<Rightarrow> civil_day" where
  "add_months n year month day = day_number (year + (month - 1 + n) div 12) ((month - 1 + n) mod 12 + 1) day"

definition NextDueDate ::
  "(civil_day \<Rightarrow> time) \<Rightarrow> Rule \<Rightarrow> int \<times> int \<times> int \<Rightarrow> recurrence_error + civil_day" where
  "NextDueDate midnight rule from_date =
     (case from_date of (year, month, day) \<Rightarrow>
      if ru_Interval rule < 1 then Inl ErrIntervalInvalid
      else case ru_Frequency rule of
             FrequencyDaily \<Rightarrow> Inr (day_number year month day + ru_Interval rule)
           | FrequencyWeekly \<Rightarrow> nextWeekly midnight rule (day_number year month day)
           | FrequencyMonthly \<Rightarrow> Inr (add_months (ru_Interval rule) year month day)
           | FrequencyOther _ \<Rightarrow> Inl ErrFrequencyUnsupported)"

subsection \<open>The search\<close>

lemma weekly_search_first:
  assumes "ok d" "c \<le> d" "d < c + int n"
  shows "\<exists>d'. weekly_search n ok c = Some d' \<and> ok d' \<and> c \<le> d' \<and> d' \<le> d \<and> (\<forall>x. c \<le> x \<and> x < d' \<longrightarrow> \<not> ok x)"
  using assms
proof (induction n arbitrary: c)
  case (Suc n)
  show ?case
  proof (cases "ok c")
    case False
    with Suc.prems have "c + 1 \<le> d" by (cases "c = d") auto
    with Suc.IH[of "c + 1"] Suc.prems obtain d' where d': "weekly_search n ok (c + 1) = Some d'" "ok d'"
      "c + 1 \<le> d'" "d' \<le> d" "\<forall>x. c + 1 \<le> x \<and> x < d' \<longrightarrow> \<not> ok x" by auto
    moreover have "\<not> ok x" if "c \<le> x" "x < d'" for x using that d'(5) False by (cases "x = c") auto
    ultimately show ?thesis using False by auto
  qed (use Suc.prems in auto)
qed simp

lemma startOfWeek_eq: "startOfWeek d = d - d mod 7"
  by (simp add: startOfWeek_def Weekday_def Let_def) presburger

text \<open>In a location of constant offset the weeks are counted exactly, as far as a duration reaches.\<close>

lemma weeksBetween_fixed:
  assumes "\<bar>startOfWeek b - startOfWeek a\<bar> \<le> 106751"
  shows "weeksBetween (\<lambda>d. d * Day - off * Second) a b = (startOfWeek b - startOfWeek a) div 7"
proof -
  have "Time_Sub (startOfWeek b * Day - off * Second) (startOfWeek a * Day - off * Second) =
      Time_Sub (startOfWeek b * Day) (startOfWeek a * Day)" by (simp add: Time_Sub_def)
  moreover have "7 dvd startOfWeek b - startOfWeek a" by (simp add: startOfWeek_eq dvd_diff)
  ultimately show ?thesis using Time_Sub_days[OF assms]
    by (auto simp: weeksBetween_def signed_divide_int_def abs_mult sgn_mult mult_sgn_abs elim!: dvdE)
qed

lemma smod_zero_iff: "0 < n \<Longrightarrow> (k smod n = 0) = (n dvd k)" for k n :: int
  by (auto simp: signed_modulo_int_def sgn_0_0 simp flip: dvd_eq_mod_eq_0)

lemma week_multiple:
  assumes "0 < n" "from_day < x" "x \<le> from_day + 7 * n + 6" "n \<le> 15000"
  shows "weeksBetween (\<lambda>d. d * Day - off * Second) from_day x smod n = 0 \<longleftrightarrow>
    7 * n dvd startOfWeek x - startOfWeek from_day"
proof -
  have "0 \<le> startOfWeek x - startOfWeek from_day" "startOfWeek x - startOfWeek from_day \<le> 7 * n + 12"
    using assms(2,3) unfolding startOfWeek_eq by presburger+
  then have "weeksBetween (\<lambda>d. d * Day - off * Second) from_day x = (startOfWeek x - startOfWeek from_day) div 7"
    using assms(4) by (intro weeksBetween_fixed) linarith
  moreover obtain w where "startOfWeek x - startOfWeek from_day = 7 * w"
    by (metis dvd_diff dvd_minus_mod startOfWeek_eq dvdE)
  ultimately show ?thesis using assms(1) by (simp add: smod_zero_iff)
qed

lemma weekday_in_next_round:
  assumes "0 \<le> w" "w \<le> 6"
  shows "Weekday (startOfWeek d + 7 * n + (w + 6) mod 7) = w \<and>
    startOfWeek (startOfWeek d + 7 * n + (w + 6) mod 7) = startOfWeek d + 7 * n"
proof -
  define r where "r = (w + 6) mod 7"
  have r: "0 \<le> r" "r \<le> 6" "(r + 1) mod 7 = w" using assms unfolding r_def by presburger+
  obtain q where q: "startOfWeek d = 7 * q" by (metis dvd_minus_mod startOfWeek_eq dvdE)
  have "(7 * q + 7 * n + r + 1) mod 7 = (r + 1) mod 7" by presburger
  moreover have "(7 * q + 7 * n + r) mod 7 = r" using r by presburger
  ultimately show ?thesis using r by (simp add: Weekday_def startOfWeek_eq[of "_ + _"] q flip: r_def)
qed

text \<open>A weekly rule with weekdays always has a next due date, found within the rounds the search makes: the first day
  after the given one that falls on one of the weekdays in a week a multiple of the interval away
  (intervals up to 15000 weeks, locations of constant offset).\<close>

theorem NextDueDate_weekly:
  assumes "ru_Frequency rule = FrequencyWeekly" "1 \<le> ru_Interval rule" "ru_Interval rule \<le> 15000"
    "ru_Weekdays rule \<noteq> []" "\<forall>w\<in>set (ru_Weekdays rule). 0 \<le> w \<and> w \<le> 6" "from_day = day_number y m d"
  shows "\<exists>next_day. NextDueDate (\<lambda>d. d * Day - off * Second) rule (y, m, d) = Inr next_day \<and>
    from_day < next_day \<and> next_day \<le> from_day + 7 * ru_Interval rule + 6 \<and>
    Weekday next_day \<in> set (ru_Weekdays rule) \<and>
    7 * ru_Interval rule dvd startOfWeek next_day - startOfWeek from_day \<and>
    (\<forall>x. from_day < x \<and> x < next_day \<longrightarrow>
       \<not> (Weekday x \<in> set (ru_Weekdays rule) \<and> 7 * ru_Interval rule dvd startOfWeek x - startOfWeek from_day))"
proof -
  let ?n = "ru_Interval rule"
  let ?P = "\<lambda>c. Weekday c \<in> set (ru_Weekdays rule) \<and>
    weeksBetween (\<lambda>d. d * Day - off * Second) from_day c smod ?n = 0"
  obtain w where w: "w \<in> set (ru_Weekdays rule)" "0 \<le> w" "w \<le> 6" using assms(4,5) by (meson last_in_set)
  define d0 where "d0 = startOfWeek from_day + 7 * ?n + (w + 6) mod 7"
  have "0 \<le> from_day mod 7" "from_day mod 7 \<le> 6" "0 \<le> (w + 6) mod 7" "(w + 6) mod 7 \<le> 6"
    using pos_mod_bound[of 7 from_day] pos_mod_bound[of 7 "w + 6"] by auto
  then have d0: "from_day + 1 \<le> d0" "d0 \<le> from_day + 7 * ?n + 6"
    using assms(2) unfolding d0_def startOfWeek_eq by linarith+
  have P0: "?P d0" using week_multiple[of ?n from_day d0 off] weekday_in_next_round[OF w(2,3), of from_day ?n] w(1) d0 assms(2,3)
    by (simp add: d0_def)
  have fuel: "int (nat (wrap64 (366 * ?n))) = 366 * ?n"
    using assms(2,3) by (simp add: in_int64_def min_int64_def max_int64_def)
  obtain d' where d': "weekly_search (nat (wrap64 (366 * ?n))) ?P (from_day + 1) = Some d'" "?P d'"
    "from_day + 1 \<le> d'" "d' \<le> d0" "\<forall>x. from_day + 1 \<le> x \<and> x < d' \<longrightarrow> \<not> ?P x"
    using weekly_search_first[of ?P d0 "from_day + 1" "nat (wrap64 (366 * ?n))"] P0 d0 fuel assms(2) by auto
  have "NextDueDate (\<lambda>d. d * Day - off * Second) rule (y, m, d) = Inr d'"
    using assms d'(1) by (auto simp: NextDueDate_def nextWeekly_def list_ex_iff)
  moreover have "7 * ?n dvd startOfWeek d' - startOfWeek from_day"
    using week_multiple[of ?n from_day d' off] d' d0 assms(2,3) by simp
  moreover have "\<not> (Weekday x \<in> set (ru_Weekdays rule) \<and> 7 * ?n dvd startOfWeek x - startOfWeek from_day)"
    if "from_day < x" "x < d'" for x
    using week_multiple[of ?n from_day x off] that d'(4,5) d0 assms(2,3) by auto
  ultimately show ?thesis using d' d0 by (intro exI[of _ d']) auto
qed

theorem NextDueDate_weekly_witness:
  "\<exists>next_day. NextDueDate (\<lambda>d. d * Day - 10800 * Second)
      \<lparr>ru_Frequency = FrequencyWeekly, ru_Interval = 2, ru_Weekdays = [1, 5]\<rparr> (2026, 10, 9) = Inr next_day \<and>
     next_day \<le> day_number 2026 10 9 + 20"
  using NextDueDate_weekly[of "\<lparr>ru_Frequency = FrequencyWeekly, ru_Interval = 2, ru_Weekdays = [1, 5]\<rparr>"
      "day_number 2026 10 9" 2026 10 9 10800] by auto

end
