(* ===== verification/Task_Board.thy ===== *)
theory Task_Board
  imports Prelude
begin

section \<open>The task board\<close>

text \<open>
  \<^verbatim>\<open>services/tasks/internal/domain/board/board.go\<close>: which tasks are overdue, stuck or due today, the
  counters of a board, and the renumbering of the tasks of a column after a move. Orders are
  32-bit integers; an index is converted to one by \<open>wrap32\<close>. \<^verbatim>\<open>sort.Slice\<close> does not keep the order of
  equal elements: the sorting function is an argument, of which the properties only assume that it
  returns a sorted rearrangement. The end of today depends on the location of the clock, which is
  an argument too.
\<close>

definition wrap32 :: "int \<Rightarrow> int" where
  "wrap32 x = (x + 2 ^ 31) mod 2 ^ 32 - 2 ^ 31"

lemma wrap32_id [simp]: "0 \<le> x \<Longrightarrow> x < 2 ^ 31 \<Longrightarrow> wrap32 x = x"
  by (simp add: wrap32_def)

definition sorts :: "('b \<Rightarrow> int) \<Rightarrow> ('b list \<Rightarrow> 'b list) \<Rightarrow> bool" where
  "sorts key srt \<longleftrightarrow> (\<forall>xs. mset (srt xs) = mset xs \<and> sorted (map key (srt xs)))"

record Column =
  col_ID :: ID
  col_BoardID :: ID
  col_Name :: string
  col_Order :: int
  col_Color :: "string option"

record Task =
  tk_ID :: ID
  tk_BoardID :: ID
  tk_ColumnID :: ID
  tk_Order :: int
  tk_Title :: string
  tk_AuthorID :: ID
  tk_DueDate :: "time option"
  tk_Priority :: string
  tk_CompletedAt :: "time option"
  tk_CreatedAt :: time
  tk_UpdatedAt :: time

record Stats =
  sta_InWork :: int
  sta_Today :: int
  sta_Overdue :: int
  sta_DoneLast7Days :: int

record MovableTask =
  mt_ID :: ID
  mt_ColumnID :: ID
  mt_Order :: int

record OrderUpdate =
  ou_ID :: ID
  ou_ColumnID :: ID
  ou_Order :: int

definition StuckThresholdDays :: int where
  "StuckThresholdDays = 3"

definition DoneWindowDays :: int where
  "DoneWindowDays = 7"

subsection \<open>What a task counts as\<close>

definition IsDueTodayOrOverdue :: "(time \<Rightarrow> time) \<Rightarrow> time option \<Rightarrow> time \<Rightarrow> bool" where
  "IsDueTodayOrOverdue endOfToday dueDate now =
     (case dueDate of None \<Rightarrow> False | Some due \<Rightarrow> \<not> After due (endOfToday now))"

definition IsOverdue :: "Task \<Rightarrow> time \<Rightarrow> bool" where
  "IsOverdue task now =
     (case tk_DueDate task of None \<Rightarrow> False | Some due \<Rightarrow> tk_CompletedAt task = None \<and> Before due now)"

definition WorkColumnIDs :: "(Column list \<Rightarrow> Column list) \<Rightarrow> Column list \<Rightarrow> ID set" where
  "WorkColumnIDs srt columns =
     (let ordered = srt columns
      in if length ordered \<le> 2 then {} else col_ID ` set (butlast (tl ordered)))"

definition IsStuck :: "Task \<Rightarrow> ID set \<Rightarrow> time \<Rightarrow> int \<Rightarrow> bool" where
  "IsStuck task workIDs now thresholdDays =
     (let thresholdDays = (if thresholdDays \<le> 0 then StuckThresholdDays else thresholdDays) in
      if tk_CompletedAt task \<noteq> None then False
      else if tk_ColumnID task \<notin> workIDs then False
      else \<not> After (tk_UpdatedAt task) (now + wrap64 (wrap64 (wrap64 (- thresholdDays) * 24) * Hour)))"

definition count_task :: "(time \<Rightarrow> time) \<Rightarrow> ID set \<Rightarrow> time \<Rightarrow> Task \<Rightarrow> Stats \<Rightarrow> Stats" where
  "count_task endOfToday workIDs now task stats =
     (let stats = (if tk_CompletedAt task = None \<and> tk_ColumnID task \<in> workIDs
                   then stats\<lparr>sta_InWork := sta_InWork stats + 1\<rparr> else stats);
          stats = (if tk_CompletedAt task = None \<and> IsDueTodayOrOverdue endOfToday (tk_DueDate task) now
                   then stats\<lparr>sta_Today := sta_Today stats + 1\<rparr> else stats);
          stats = (if IsOverdue task now then stats\<lparr>sta_Overdue := sta_Overdue stats + 1\<rparr> else stats)
      in case tk_CompletedAt task of
           None \<Rightarrow> stats
         | Some done_at \<Rightarrow>
             if \<not> Before done_at (now + (- DoneWindowDays) * 24 * Hour) \<and> \<not> After done_at now
             then stats\<lparr>sta_DoneLast7Days := sta_DoneLast7Days stats + 1\<rparr> else stats)"

definition BoardStats ::
  "(time \<Rightarrow> time) \<Rightarrow> (Column list \<Rightarrow> Column list) \<Rightarrow> Task list \<Rightarrow> Column list \<Rightarrow> time \<Rightarrow> Stats" where
  "BoardStats endOfToday srt tasks columns now =
     fold (count_task endOfToday (WorkColumnIDs srt columns) now) tasks
       \<lparr>sta_InWork = 0, sta_Today = 0, sta_Overdue = 0, sta_DoneLast7Days = 0\<rparr>"

subsection \<open>Renumbering after a move\<close>

definition siblings_of :: "(MovableTask list \<Rightarrow> MovableTask list) \<Rightarrow> ID \<Rightarrow> MovableTask list \<Rightarrow> ID \<Rightarrow> MovableTask list" where
  "siblings_of srt movedID tasks columnID =
     srt (filter (\<lambda>task. \<not> (mt_ID task = movedID \<or> mt_ColumnID task \<noteq> columnID)) tasks)"

definition clamp_order :: "ID \<Rightarrow> ID \<Rightarrow> int \<Rightarrow> MovableTask list \<Rightarrow> int" where
  "clamp_order movedID newColumnID newOrder tasks =
     (let targetSize = wrap32 (int (length (filter (\<lambda>t. mt_ID t \<noteq> movedID \<and> mt_ColumnID t = newColumnID) tasks)));
          newOrder = (if newOrder < 0 then 0 else newOrder)
      in if newOrder > targetSize then targetSize else newOrder)"

definition new_position :: "ID \<Rightarrow> ID \<Rightarrow> int \<Rightarrow> nat \<Rightarrow> int" where
  "new_position columnID newColumnID newOrder index =
     (if columnID = newColumnID \<and> wrap32 (int index) \<ge> newOrder then wrap32 (wrap32 (int index) + 1)
      else wrap32 (int index))"

definition position_updates :: "ID \<Rightarrow> (nat \<Rightarrow> int) \<Rightarrow> nat \<Rightarrow> MovableTask list \<Rightarrow> OrderUpdate list" where
  "position_updates columnID position start siblings =
     concat (map (\<lambda>(index, sibling).
                    let order = position index
                    in if mt_Order sibling \<noteq> order
                       then [\<lparr>ou_ID = mt_ID sibling, ou_ColumnID = columnID, ou_Order = order\<rparr>] else [])
               (enumerate start siblings))"

definition ReorderAfterMove ::
  "(MovableTask list \<Rightarrow> MovableTask list) \<Rightarrow> ID \<Rightarrow> ID \<Rightarrow> ID \<Rightarrow> int \<Rightarrow> MovableTask list \<Rightarrow> OrderUpdate list" where
  "ReorderAfterMove srt movedID oldColumnID newColumnID newOrder tasks =
     (let newOrder = clamp_order movedID newColumnID newOrder tasks;
          columnIDs = remdups (oldColumnID # (if newColumnID \<noteq> oldColumnID then [newColumnID] else []))
      in \<lparr>ou_ID = movedID, ou_ColumnID = newColumnID, ou_Order = newOrder\<rparr> #
         concat (map (\<lambda>columnID. position_updates columnID (new_position columnID newColumnID newOrder) 0
                                   (siblings_of srt movedID tasks columnID)) columnIDs))"

text \<open>How the service writes the updates: column and order of the moved task, the order of the others.\<close>

definition write_update :: "ID \<Rightarrow> OrderUpdate \<Rightarrow> MovableTask \<Rightarrow> MovableTask" where
  "write_update movedID u t =
     (if mt_ID t \<noteq> ou_ID u then t
      else if ou_ID u = movedID then t\<lparr>mt_ColumnID := ou_ColumnID u, mt_Order := ou_Order u\<rparr>
      else t\<lparr>mt_Order := ou_Order u\<rparr>)"

definition MoveTask ::
  "(MovableTask list \<Rightarrow> MovableTask list) \<Rightarrow> ID \<Rightarrow> ID \<Rightarrow> ID \<Rightarrow> int \<Rightarrow> MovableTask list \<Rightarrow> MovableTask list" where
  "MoveTask srt movedID oldColumnID newColumnID newOrder tasks =
     fold (\<lambda>u. map (write_update movedID u)) (ReorderAfterMove srt movedID oldColumnID newColumnID newOrder tasks) tasks"

subsection \<open>The renumbering, task by task\<close>

lemma fold_map_pointwise: "fold (\<lambda>u. map (g u)) us xs = map (\<lambda>x. fold g us x) xs"
  by (induction us arbitrary: xs) (auto simp: comp_def)

lemma write_update_ID [simp]: "mt_ID (write_update m u t) = mt_ID t"
  by (simp add: write_update_def)

lemma fold_write_ID [simp]: "mt_ID (fold (write_update m) us t) = mt_ID t"
  by (induction us arbitrary: t) auto

lemma write_update_other: "\<forall>u\<in>set us. ou_ID u \<noteq> mt_ID t \<Longrightarrow> fold (write_update m) us t = t"
proof (induction us)
  case (Cons u us)
  then have "write_update m u t = t" by (auto simp: write_update_def)
  with Cons show ?case by simp
qed simp

lemma position_updates_Cons:
  "position_updates c p n (x # xs) =
     (if mt_Order x \<noteq> p n then [\<lparr>ou_ID = mt_ID x, ou_ColumnID = c, ou_Order = p n\<rparr>] else []) @
     position_updates c p (Suc n) xs"
  by (simp add: position_updates_def Let_def)

lemma position_updates_IDs: "ou_ID ` set (position_updates c p n xs) \<subseteq> mt_ID ` set xs"
proof (induction xs arbitrary: n)
  case (Cons x xs)
  then have "ou_ID ` set (position_updates c p (Suc n) xs) \<subseteq> mt_ID ` set xs" .
  then show ?case by (auto simp: position_updates_Cons)
qed (simp add: position_updates_def)

lemma position_updates_write:
  assumes "distinct (map mt_ID xs)" "m \<notin> mt_ID ` set xs" "i < length xs"
  shows "fold (write_update m) (position_updates c p n xs) (xs ! i) = (xs ! i)\<lparr>mt_Order := p (n + i)\<rparr>"
  using assms
proof (induction xs arbitrary: n i)
  case (Cons x xs)
  have rest: "\<forall>u\<in>set (position_updates c p (Suc n) xs). ou_ID u \<noteq> mt_ID x"
    using position_updates_IDs[of c p "Suc n" xs] Cons.prems(1) by (metis distinct.simps(2) image_eqI list.set_map list.simps(9) subsetD)
  show ?case
  proof (cases i)
    case 0
    let ?x = "x\<lparr>mt_Order := p n\<rparr>"
    have "mt_ID x \<noteq> m" using Cons.prems(2) by auto
    then have "fold (write_update m)
        (if mt_Order x \<noteq> p n then [\<lparr>ou_ID = mt_ID x, ou_ColumnID = c, ou_Order = p n\<rparr>] else []) x = ?x"
      by (auto simp: write_update_def)
    moreover have "fold (write_update m) (position_updates c p (Suc n) xs) ?x = ?x"
      by (rule write_update_other) (use rest in simp)
    ultimately show ?thesis using 0 by (simp add: position_updates_Cons)
  next
    case (Suc j)
    have "mt_ID x \<noteq> mt_ID (xs ! j)" using Cons.prems(1,3) Suc nth_mem[of j xs] by force
    then have "fold (write_update m)
        (if mt_Order x \<noteq> p n then [\<lparr>ou_ID = mt_ID x, ou_ColumnID = c, ou_Order = p n\<rparr>] else []) (xs ! j) = xs ! j"
      by (intro write_update_other) auto
    with Cons.IH[of j "Suc n"] Cons.prems Suc show ?thesis by (simp add: position_updates_Cons)
  qed
qed simp

text \<open>Sorting keeps the tasks; the siblings of a column are its tasks other than the moved one.\<close>

lemma sorts_set [simp]: "sorts key srt \<Longrightarrow> set (srt xs) = set xs"
  by (metis sorts_def mset_eq_setD)

lemma sorts_length [simp]: "sorts key srt \<Longrightarrow> length (srt xs) = length xs"
  by (metis sorts_def mset_eq_length)

lemma column_siblings_set:
  "sorts mt_Order srt \<Longrightarrow>
   set (siblings_of srt m ts c) = {t \<in> set ts. mt_ID t \<noteq> m \<and> mt_ColumnID t = c}"
  by (auto simp: siblings_of_def)

lemma column_siblings_distinct:
  assumes "sorts mt_Order srt" "distinct (map mt_ID ts)"
  shows "distinct (map mt_ID (siblings_of srt m ts c))"
proof -
  let ?f = "filter (\<lambda>task. \<not> (mt_ID task = m \<or> mt_ColumnID task \<noteq> c)) ts"
  have "mset (map mt_ID (srt ?f)) = mset (map mt_ID ?f)" using assms(1) by (simp add: sorts_def)
  then have "distinct (map mt_ID (srt ?f)) \<longleftrightarrow> distinct (map mt_ID ?f)" by (rule mset_eq_imp_distinct_iff)
  then show ?thesis unfolding siblings_of_def using assms(2) by (simp add: distinct_map_filter)
qed

text \<open>The identifiers of a column in the order of their tasks, which are numbered from 0.\<close>

definition arranged :: "MovableTask list \<Rightarrow> ID \<Rightarrow> ID list \<Rightarrow> bool" where
  "arranged ts c xs \<longleftrightarrow> distinct xs \<and> set xs = mt_ID ` {t \<in> set ts. mt_ColumnID t = c} \<and>
     (\<forall>t\<in>set ts. mt_ColumnID t = c \<longrightarrow>
        0 \<le> mt_Order t \<and> mt_Order t < int (length xs) \<and> xs ! nat (mt_Order t) = mt_ID t)"

definition insert_at :: "nat \<Rightarrow> 'b \<Rightarrow> 'b list \<Rightarrow> 'b list" where
  "insert_at k x xs = take k xs @ x # drop k xs"

lemma insert_at_simps:
  assumes "k \<le> length xs"
  shows "length (insert_at k x xs) = Suc (length xs)" "set (insert_at k x xs) = insert x (set xs)"
    "insert_at k x xs ! k = x"
    "i < length xs \<Longrightarrow> insert_at k x xs ! (if k \<le> i then Suc i else i) = xs ! i"
    "distinct (insert_at k x xs) \<longleftrightarrow> distinct xs \<and> x \<notin> set xs"
proof -
  have app: "xs = take k xs @ drop k xs" by simp
  show "length (insert_at k x xs) = Suc (length xs)" using assms by (simp add: insert_at_def)
  show "set (insert_at k x xs) = insert x (set xs)"
    unfolding insert_at_def by (subst (3) app) (simp only: set_append set_simps, blast)
  show "insert_at k x xs ! k = x" using assms by (simp add: insert_at_def nth_append)
  show "i < length xs \<Longrightarrow> insert_at k x xs ! (if k \<le> i then Suc i else i) = xs ! i"
    using assms by (simp add: insert_at_def nth_append Suc_diff_le)
  show "distinct (insert_at k x xs) \<longleftrightarrow> distinct xs \<and> x \<notin> set xs"
    unfolding insert_at_def by (subst (3 4) app) (simp only: distinct_append set_append distinct.simps set_simps, blast)
qed

lemma other_column_updates:
  assumes "sorts mt_Order srt" "distinct (map mt_ID ts)" "t \<in> set ts" "mt_ID t' = mt_ID t"
    "mt_ColumnID t \<noteq> c \<or> mt_ID t = m"
  shows "fold (write_update m) (position_updates c p n (siblings_of srt m ts c)) t' = t'"
proof (rule write_update_other, rule ballI, rule notI)
  fix u assume "u \<in> set (position_updates c p n (siblings_of srt m ts c))" "ou_ID u = mt_ID t'"
  with position_updates_IDs[of c p n "siblings_of srt m ts c"]
  obtain s where s: "s \<in> set (siblings_of srt m ts c)" "mt_ID s = mt_ID t" using assms(4) by force
  with assms(1-3) have "s = t" by (auto simp: column_siblings_set distinct_map inj_on_def)
  with s assms(1,5) show False by (auto simp: column_siblings_set)
qed

lemma column_updates_write:
  assumes "sorts mt_Order srt" "distinct (map mt_ID ts)" "c \<in> set cs" "distinct cs"
    "i < length (siblings_of srt m ts c)" "t = siblings_of srt m ts c ! i"
  shows "fold (write_update m) (concat (map (\<lambda>c. position_updates c (p c) 0 (siblings_of srt m ts c)) cs)) t =
    t\<lparr>mt_Order := p c i\<rparr>"
proof -
  let ?S = "siblings_of srt m ts"
  have t: "t \<in> set ts" "mt_ColumnID t = c"
    using nth_mem[OF assms(5)] assms(1,6) by (auto simp: column_siblings_set)
  have same: "fold (write_update m) (concat (map (\<lambda>c. position_updates c (p c) 0 (?S c)) ds)) t' = t'"
    if "c \<notin> set ds" "mt_ID t' = mt_ID t" for ds t'
    using that t by (induction ds) (auto simp: other_column_updates[OF assms(1,2) t(1)])
  obtain as bs where cs: "cs = as @ c # bs" "c \<notin> set as" "c \<notin> set bs"
    using assms(3,4) by (metis distinct.simps(2) distinct_append not_distinct_conv_prefix split_list_first)
  have "m \<notin> mt_ID ` set (?S c)" using assms(1) by (auto simp: column_siblings_set)
  then have "fold (write_update m) (position_updates c (p c) 0 (?S c)) t = t\<lparr>mt_Order := p c i\<rparr>"
    using position_updates_write[of "?S c" m i c "p c" 0] column_siblings_distinct[OF assms(1,2)] assms(5,6) by simp
  then show ?thesis using same[OF cs(2)] same[OF cs(3)] by (simp add: cs(1))
qed

definition target_index :: "int \<Rightarrow> nat \<Rightarrow> nat" where
  "target_index newOrder n = nat (max 0 (min newOrder (int n)))"

lemma clamp_order_eq:
  assumes "sorts mt_Order srt" "length ts < 2 ^ 31 - 1"
  shows "clamp_order m new k ts = int (target_index k (length (siblings_of srt m ts new)))"
proof -
  let ?n = "length (filter (\<lambda>t. mt_ID t \<noteq> m \<and> mt_ColumnID t = new) ts)"
  have "int ?n < 2 ^ 31" using le_less_trans[OF length_filter_le[of "\<lambda>t. mt_ID t \<noteq> m \<and> mt_ColumnID t = new" ts] assms(2)]
    by simp
  moreover have "length (siblings_of srt m ts new) = ?n" using assms(1) by (simp add: siblings_of_def)
  ultimately show ?thesis by (auto simp: clamp_order_def target_index_def Let_def)
qed

lemma target_index_le: "target_index k n \<le> n"
  by (auto simp: target_index_def)

lemma MoveTask_tasks:
  fixes m old new :: ID and newOrder :: int
  assumes "sorts mt_Order srt" "distinct (map mt_ID ts)" "length ts < 2 ^ 31 - 1" "t \<in> set ts"
  defines "k \<equiv> target_index newOrder (length (siblings_of srt m ts new))"
  defines "t' \<equiv> fold (write_update m) (ReorderAfterMove srt m old new newOrder ts) t"
  shows "mt_ID t = m \<Longrightarrow> t' = t\<lparr>mt_ColumnID := new, mt_Order := int k\<rparr>"
    and "mt_ID t \<noteq> m \<Longrightarrow> mt_ColumnID t \<in> {old, new} \<Longrightarrow>
      \<exists>i. i < length (siblings_of srt m ts (mt_ColumnID t)) \<and> t = siblings_of srt m ts (mt_ColumnID t) ! i \<and>
        t' = t\<lparr>mt_Order := if mt_ColumnID t = new \<and> k \<le> i then int i + 1 else int i\<rparr>"
    and "mt_ID t \<noteq> m \<Longrightarrow> mt_ColumnID t \<notin> {old, new} \<Longrightarrow> t' = t"
proof -
  let ?S = "siblings_of srt m ts"
  define cs where "cs = remdups (old # (if new \<noteq> old then [new] else []))"
  let ?us = "concat (map (\<lambda>c. position_updates c (new_position c new (int k)) 0 (?S c)) cs)"
  have us: "ReorderAfterMove srt m old new newOrder ts = \<lparr>ou_ID = m, ou_ColumnID = new, ou_Order = int k\<rparr> # ?us"
    by (simp only: ReorderAfterMove_def clamp_order_eq[OF assms(1,3)] Let_def k_def cs_def)
  have cs: "set cs = {old, new}" "distinct cs" by (auto simp: cs_def)
  have skip: "fold (write_update m) (concat (map (\<lambda>c. position_updates c (new_position c new (int k)) 0 (?S c)) ds)) x = x"
    if "mt_ID x = mt_ID t" "mt_ID t = m \<or> mt_ColumnID t \<notin> set ds" for x ds
    using that by (induction ds) (auto simp: other_column_updates[OF assms(1,2,4)])
  show "t' = t\<lparr>mt_ColumnID := new, mt_Order := int k\<rparr>" if "mt_ID t = m"
    using that skip[of "t\<lparr>mt_ColumnID := new, mt_Order := int k\<rparr>" cs]
    by (simp add: t'_def us write_update_def)
  have fst: "write_update m \<lparr>ou_ID = m, ou_ColumnID = new, ou_Order = int k\<rparr> t = t" if "mt_ID t \<noteq> m"
    using that by (simp add: write_update_def)
  show "t' = t" if "mt_ID t \<noteq> m" "mt_ColumnID t \<notin> {old, new}"
    using fst[OF that(1)] skip[of t cs] that(2) cs(1) by (simp add: t'_def us)
  show "\<exists>i. i < length (?S (mt_ColumnID t)) \<and> t = ?S (mt_ColumnID t) ! i \<and>
        t' = t\<lparr>mt_Order := if mt_ColumnID t = new \<and> k \<le> i then int i + 1 else int i\<rparr>"
    if m: "mt_ID t \<noteq> m" and c: "mt_ColumnID t \<in> {old, new}"
  proof -
    let ?c = "mt_ColumnID t"
    have "t \<in> set (?S ?c)" using m assms(1,4) by (simp add: column_siblings_set)
    then obtain i where i: "i < length (?S ?c)" "t = ?S ?c ! i" by (metis in_set_conv_nth)
    have len: "int (length (?S ?c)) < 2 ^ 31 - 1"
      using le_less_trans[OF length_filter_le[of "\<lambda>t. \<not> (mt_ID t = m \<or> mt_ColumnID t \<noteq> ?c)" ts] assms(3)] assms(1)
      by (simp add: siblings_of_def)
    have "new_position ?c new (int k) i = (if ?c = new \<and> k \<le> i then int i + 1 else int i)"
      using i(1) len by (simp add: new_position_def)
    moreover have "t' = t\<lparr>mt_Order := new_position ?c new (int k) i\<rparr>"
      using column_updates_write[OF assms(1,2) _ cs(2) i, where p = "\<lambda>c. new_position c new (int k)"] c cs(1) fst[OF m]
      by (simp add: t'_def us)
    ultimately show ?thesis using i by auto
  qed
qed

lemma arranged_map:
  assumes "distinct xs" "set xs = mt_ID ` {t \<in> set ts. mt_ColumnID (f t) = c}" "\<And>t. mt_ID (f t) = mt_ID t"
    "\<And>t. t \<in> set ts \<Longrightarrow> mt_ColumnID (f t) = c \<Longrightarrow> \<exists>i<length xs. mt_Order (f t) = int i \<and> xs ! i = mt_ID t"
  shows "arranged (map f ts) c xs"
proof -
  have "mt_ID ` {t \<in> set (map f ts). mt_ColumnID t = c} = mt_ID ` {t \<in> set ts. mt_ColumnID (f t) = c}"
    using assms(3) by (auto simp: image_iff) metis+
  with assms show ?thesis unfolding arranged_def by fastforce
qed

lemma siblings_not_moved: "sorts mt_Order srt \<Longrightarrow> m \<notin> set (map mt_ID (siblings_of srt m ts c))"
  by (auto simp: column_siblings_set)

lemma moved_column:
  fixes m old new :: ID and newOrder :: int
  assumes "sorts mt_Order srt" "distinct (map mt_ID ts)" "length ts < 2 ^ 31 - 1"
  defines "f \<equiv> fold (write_update m) (ReorderAfterMove srt m old new newOrder ts)"
  assumes t: "t \<in> set ts"
  shows "mt_ColumnID (f t) = (if mt_ID t = m then new else mt_ColumnID t)"
proof -
  note tasks = MoveTask_tasks[OF assms(1-3), where m = m and new = new and old = old and newOrder = newOrder, folded f_def]
  consider "mt_ID t = m" | "mt_ID t \<noteq> m" "mt_ColumnID t \<in> {old, new}" | "mt_ID t \<noteq> m" "mt_ColumnID t \<notin> {old, new}"
    by blast
  then show ?thesis
  proof cases
    case 2
    then obtain n where "f t = t\<lparr>mt_Order := n\<rparr>" using tasks(2)[OF t] by blast
    with 2 show ?thesis by simp
  qed (use tasks(1,3)[OF t] in simp_all)
qed

lemma arranged_new_column:
  fixes m old new :: ID and newOrder :: int
  assumes "sorts mt_Order srt" "distinct (map mt_ID ts)" "length ts < 2 ^ 31 - 1"
  defines "f \<equiv> fold (write_update m) (ReorderAfterMove srt m old new newOrder ts)"
  defines "k \<equiv> target_index newOrder (length (siblings_of srt m ts new))"
  assumes present: "\<exists>t\<in>set ts. mt_ID t = m \<and> mt_ColumnID t = old"
  shows "arranged (map f ts) new (insert_at k m (map mt_ID (siblings_of srt m ts new)))"
proof -
  note tasks = MoveTask_tasks[OF assms(1-3), where m = m and new = new and old = old and newOrder = newOrder, folded f_def k_def]
  note col = moved_column[OF assms(1-3), where m = m and new = new and old = old and newOrder = newOrder, folded f_def]
  have kle: "k \<le> length (map mt_ID (siblings_of srt m ts new))" by (simp add: k_def target_index_le)
  show ?thesis
  proof (rule arranged_map)
    show "distinct (insert_at k m (map mt_ID (siblings_of srt m ts new)))"
      using column_siblings_distinct[OF assms(1,2)] siblings_not_moved[OF assms(1)] by (simp add: insert_at_simps(5)[OF kle] del: set_map)
    show "set (insert_at k m (map mt_ID (siblings_of srt m ts new))) = mt_ID ` {t \<in> set ts. mt_ColumnID (f t) = new}"
    proof -
      have "{t \<in> set ts. mt_ColumnID (f t) = new} = {t \<in> set ts. mt_ID t = m} \<union> set (siblings_of srt m ts new)"
        using col assms(1) by (auto simp: column_siblings_set split: if_splits)
      moreover have "mt_ID ` {t \<in> set ts. mt_ID t = m} = {m}" using present by auto
      ultimately show ?thesis by (simp add: insert_at_simps(2)[OF kle] image_Un)
    qed
    fix t assume t: "t \<in> set ts" "mt_ColumnID (f t) = new"
    show "\<exists>i<length (insert_at k m (map mt_ID (siblings_of srt m ts new))). mt_Order (f t) = int i \<and>
        insert_at k m (map mt_ID (siblings_of srt m ts new)) ! i = mt_ID t"
    proof (cases "mt_ID t = m")
      case True
      with tasks(1)[OF t(1)] kle insert_at_simps(1,3)[OF kle] show ?thesis by (intro exI[of _ k]) simp
    next
      case False
      with t col have c: "mt_ColumnID t = new" by simp
      with tasks(2)[OF t(1) False] obtain i where i: "i < length (siblings_of srt m ts new)" "t = siblings_of srt m ts new ! i"
        "f t = t\<lparr>mt_Order := if k \<le> i then int i + 1 else int i\<rparr>" by auto
      with insert_at_simps(1)[OF kle] insert_at_simps(4)[OF kle, of i m] show ?thesis
        by (intro exI[of _ "if k \<le> i then Suc i else i"]) auto
    qed
  qed (simp add: f_def)
qed

lemma arranged_old_column:
  fixes m old new :: ID and newOrder :: int
  assumes "sorts mt_Order srt" "distinct (map mt_ID ts)" "length ts < 2 ^ 31 - 1"
  defines "f \<equiv> fold (write_update m) (ReorderAfterMove srt m old new newOrder ts)"
  assumes ne: "old \<noteq> new"
  shows "arranged (map f ts) old (map mt_ID (siblings_of srt m ts old))"
proof -
  note tasks = MoveTask_tasks[OF assms(1-3), where m = m and new = new and old = old and newOrder = newOrder, folded f_def]
  note col = moved_column[OF assms(1-3), where m = m and new = new and old = old and newOrder = newOrder, folded f_def]
  show ?thesis
  proof (rule arranged_map)
    show "distinct (map mt_ID (siblings_of srt m ts old))" by (rule column_siblings_distinct[OF assms(1,2)])
    show "set (map mt_ID (siblings_of srt m ts old)) = mt_ID ` {t \<in> set ts. mt_ColumnID (f t) = old}"
      using assms(1) col ne by (force simp: column_siblings_set)
    fix t assume t: "t \<in> set ts" "mt_ColumnID (f t) = old"
    with col ne have c: "mt_ID t \<noteq> m" "mt_ColumnID t = old" by (auto split: if_splits)
    with tasks(2)[OF t(1)] ne obtain i where "i < length (siblings_of srt m ts old)" "t = siblings_of srt m ts old ! i" "f t = t\<lparr>mt_Order := int i\<rparr>"
      by auto
    then show "\<exists>i<length (map mt_ID (siblings_of srt m ts old)). mt_Order (f t) = int i \<and> map mt_ID (siblings_of srt m ts old) ! i = mt_ID t"
      by (intro exI[of _ i]) auto
  qed (simp add: f_def)
qed

text \<open>Moving a task to a place in a column: afterwards the target column is numbered from 0 without gaps or
  duplicates, with the moved task at the requested place (brought into range) and the other tasks in the
  order they had; the column it left is renumbered the same way; every other task is untouched.\<close>

theorem MoveTask_renumbers:
  assumes "sorts mt_Order srt" "distinct (map mt_ID ts)" "length ts < 2 ^ 31 - 1"
    "\<exists>t\<in>set ts. mt_ID t = m \<and> mt_ColumnID t = old"
  shows "map mt_ID (MoveTask srt m old new newOrder ts) = map mt_ID ts \<and>
    arranged (MoveTask srt m old new newOrder ts) new
      (insert_at (nat (max 0 (min newOrder (int (length (siblings_of srt m ts new))))))
         m (map mt_ID (siblings_of srt m ts new))) \<and>
    (old \<noteq> new \<longrightarrow> arranged (MoveTask srt m old new newOrder ts) old (map mt_ID (siblings_of srt m ts old))) \<and>
    (\<forall>t\<in>set ts. mt_ID t \<noteq> m \<and> mt_ColumnID t \<notin> {old, new} \<longrightarrow> t \<in> set (MoveTask srt m old new newOrder ts))"
proof -
  let ?f = "fold (write_update m) (ReorderAfterMove srt m old new newOrder ts)"
  have mv: "MoveTask srt m old new newOrder ts = map ?f ts"
    by (simp add: MoveTask_def fold_map_pointwise)
  have "t \<in> set (map ?f ts)" if "t \<in> set ts" "mt_ID t \<noteq> m \<and> mt_ColumnID t \<notin> {old, new}" for t
    using MoveTask_tasks(3)[OF assms(1-3) that(1), of m old new newOrder] that by force
  with arranged_new_column[OF assms, of new newOrder] arranged_old_column[OF assms(1-3), of old new m newOrder]
  show ?thesis unfolding mv by (simp add: comp_def target_index_def)
qed

definition example_board :: "MovableTask list" where
  "example_board =
     [\<lparr>mt_ID = ''a'', mt_ColumnID = ''todo'', mt_Order = 0\<rparr>, \<lparr>mt_ID = ''b'', mt_ColumnID = ''todo'', mt_Order = 4\<rparr>,
      \<lparr>mt_ID = ''c'', mt_ColumnID = ''work'', mt_Order = 7\<rparr>, \<lparr>mt_ID = ''d'', mt_ColumnID = ''work'', mt_Order = 1\<rparr>]"

theorem MoveTask_renumbers_witness:
  "arranged (MoveTask (sort_key mt_Order) ''a'' ''todo'' ''work'' 1 example_board) ''work'' [''d'', ''a'', ''c'']"
proof -
  have s: "sorts mt_Order (sort_key mt_Order)" by (simp add: sorts_def)
  have h: "distinct (map mt_ID example_board)" "length example_board < 2 ^ 31 - 1"
    "\<exists>t\<in>set example_board. mt_ID t = ''a'' \<and> mt_ColumnID t = ''todo''"
    by (simp_all add: example_board_def)
  have w: "map mt_ID (siblings_of (sort_key mt_Order) ''a'' example_board ''work'') = [''d'', ''c'']" by code_simp
  moreover have "length (siblings_of (sort_key mt_Order) ''a'' example_board ''work'') = 2"
    using arg_cong[OF w, of length] by simp
  ultimately show ?thesis
    using MoveTask_renumbers[OF s h, of "''work''" 1] by (simp add: insert_at_def)
qed

end
