(* ===== verification/KB_Access.thy ===== *)
theory KB_Access
  imports Prelude
begin

section \<open>Access to the sections of the knowledge base\<close>

text \<open>
  \<^verbatim>\<open>services/kb/internal/domain/access/access.go\<close>: a section without access settings of its own
  inherits those of its parent. The sections are a map keyed by identifier, here an association list,
  so that it is finite and the walk towards the root terminates: every round either returns or visits
  an identifier for the first time.
\<close>

datatype Scope = ScopeCompany | ScopeCustom | ScopeOther string

record Settings =
  se_Scope :: Scope
  se_DepartmentIDs :: "ID list"
  se_PositionIDs :: "ID list"
  se_UserIDs :: "ID list"

record kb_section =
  ks_ID :: ID
  ks_ParentID :: "ID option"
  ks_Access :: Settings

record Subject =
  sj_UserID :: ID
  sj_Role :: string
  sj_PositionIDs :: "ID list"
  sj_DepartmentIDs :: "ID list"

type_synonym sections = "(ID \<times> kb_section) list"

definition open_settings :: "Scope \<Rightarrow> Settings" where
  "open_settings scope = \<lparr>se_Scope = scope, se_DepartmentIDs = [], se_PositionIDs = [], se_UserIDs = []\<rparr>"

function inherit_access :: "sections \<Rightarrow> ID set \<Rightarrow> kb_section \<Rightarrow> Settings" where
  "inherit_access byID visited current =
     (if ks_ID current \<in> visited then open_settings ScopeCustom
      else if se_Scope (ks_Access current) = ScopeCustom then ks_Access current
      else case ks_ParentID current of
             None \<Rightarrow> open_settings ScopeCompany
           | Some p \<Rightarrow> (case map_of byID p of
                          None \<Rightarrow> open_settings ScopeCompany
                        | Some parent \<Rightarrow> inherit_access byID (insert (ks_ID current) visited) parent))"
  by pat_completeness auto

termination
proof (relation "measure (\<lambda>(byID, visited, current). card (insert (ks_ID current) (ks_ID ` snd ` set byID) - visited))",
    goal_cases)
  case (2 byID visited current p parent)
  have "ks_ID parent \<in> ks_ID ` snd ` set byID" using map_of_SomeD[OF 2(4)] by force
  then have "insert (ks_ID parent) (ks_ID ` snd ` set byID) - insert (ks_ID current) visited \<subset>
      insert (ks_ID current) (ks_ID ` snd ` set byID) - visited" using 2(1) by auto
  then show ?case by (simp add: psubset_card_mono)
qed simp

definition EffectiveAccess :: "kb_section \<Rightarrow> sections \<Rightarrow> Settings" where
  "EffectiveAccess section byID = inherit_access byID {} section"

definition intersects :: "ID list \<Rightarrow> ID list \<Rightarrow> bool" where
  "intersects left right \<longleftrightarrow> left \<noteq> [] \<and> right \<noteq> [] \<and> list_ex (\<lambda>x. x \<in> set left) right"

definition Allowed :: "Subject \<Rightarrow> Settings \<Rightarrow> bool" where
  "Allowed subject settings =
     (if sj_Role subject = ''partner'' \<and> se_Scope settings = ScopeCompany then False
      else if se_Scope settings = ScopeCompany then sj_Role subject \<noteq> ''partner''
      else if sj_UserID subject \<in> set (se_UserIDs settings) then True
      else if intersects (se_PositionIDs settings) (sj_PositionIDs subject) then True
      else intersects (se_DepartmentIDs settings) (sj_DepartmentIDs subject))"

definition CanManage :: "Subject \<Rightarrow> bool" where
  "CanManage subject \<longleftrightarrow> sj_Role subject = ''owner'' \<or> sj_Role subject = ''admin''"

subsection \<open>Inheritance as a relation\<close>

text \<open>The settings a section gets in \<open>n\<close> steps up: its own, those its parent gets, or at the top
  those of the whole company.\<close>

inductive inherits :: "sections \<Rightarrow> nat \<Rightarrow> kb_section \<Rightarrow> Settings \<Rightarrow> bool" for byID where
  own: "se_Scope (ks_Access s) = ScopeCustom \<Longrightarrow> inherits byID 0 s (ks_Access s)"
| top: "se_Scope (ks_Access s) \<noteq> ScopeCustom \<Longrightarrow> Option.bind (ks_ParentID s) (map_of byID) = None \<Longrightarrow>
        inherits byID 0 s (open_settings ScopeCompany)"
| up: "se_Scope (ks_Access s) \<noteq> ScopeCustom \<Longrightarrow> Option.bind (ks_ParentID s) (map_of byID) = Some p \<Longrightarrow>
       inherits byID n p r \<Longrightarrow> inherits byID (Suc n) s r"

inductive_cases inherits_Suc_E: "inherits byID (Suc n) s r"
inductive_cases inherits_0_E: "inherits byID 0 s r"

lemma inherits_unique: "inherits byID n s r \<Longrightarrow> inherits byID m s r' \<Longrightarrow> n = m \<and> r = r'"
  by (induction n s r arbitrary: m r' rule: inherits.induct) (erule inherits.cases; simp)+

definition sections_ok :: "sections \<Rightarrow> bool" where
  "sections_ok byID \<longleftrightarrow> (\<forall>k s. map_of byID k = Some s \<longrightarrow> ks_ID s = k)"

declare inherit_access.simps [simp del]

lemma inherit_access_inherits:
  assumes "inherits byID n s r" "sections_ok byID" "map_of byID (ks_ID s) = Some s"
    "\<forall>v\<in>visited. \<forall>t m r'. map_of byID v = Some t \<longrightarrow> inherits byID m t r' \<longrightarrow> n < m"
  shows "inherit_access byID visited s = r"
  using assms
proof (induction n s r arbitrary: visited rule: inherits.induct)
  case (up s p n r)
  have s: "inherits byID (Suc n) s r" using up.hyps by (rule inherits.up)
  have "ks_ID s \<notin> visited" using up.prems s by blast
  moreover have "inherit_access byID (insert (ks_ID s) visited) p = r"
  proof (rule up.IH)
    show "map_of byID (ks_ID p) = Some p" using up.hyps(2) up.prems(1) by (auto simp: sections_ok_def bind_eq_Some_conv)
    show "\<forall>v\<in>insert (ks_ID s) visited. \<forall>t m r'. map_of byID v = Some t \<longrightarrow> inherits byID m t r' \<longrightarrow> n < m"
    proof (intro ballI allI impI)
      fix v t m r' assume a: "v \<in> insert (ks_ID s) visited" "map_of byID v = Some t" "inherits byID m t r'"
      show "n < m"
      proof (cases "v = ks_ID s")
        case True
        with a(2,3) up.prems(2) inherits_unique[OF s] show ?thesis by auto
      next
        case False
        with a up.prems(3) have "Suc n < m" by blast
        then show ?thesis by simp
      qed
    qed
  qed (rule up.prems(1))
  ultimately show ?case using up.hyps(1,2)
    by (subst inherit_access.simps) (auto simp: bind_eq_Some_conv)
next
  case (own s)
  then have "ks_ID s \<notin> visited" by (blast intro: inherits.own)
  with own show ?case by (subst inherit_access.simps) simp
next
  case (top s)
  then have "ks_ID s \<notin> visited" by (blast intro: inherits.top)
  with top show ?case by (subst inherit_access.simps) (auto simp: bind_eq_None_conv split: option.splits)
qed

lemma inherit_access_cycle:
  assumes "\<nexists>n r. inherits byID n s r"
  shows "inherit_access byID visited s = open_settings ScopeCustom"
  using assms
proof (induction byID visited s rule: inherit_access.induct)
  case (1 byID visited s)
  then have c: "se_Scope (ks_Access s) \<noteq> ScopeCustom" by (blast intro: inherits.own)
  then have "Option.bind (ks_ParentID s) (map_of byID) \<noteq> None"
    using 1(2) inherits.top[of s byID] by metis
  then obtain q p where p: "ks_ParentID s = Some q" "map_of byID q = Some p" by (auto simp: bind_eq_None_conv)
  with 1(2) c have "\<nexists>n r. inherits byID n p r" using inherits.up[of s byID p] by auto
  with 1(1) p c show ?case
    by (subst inherit_access.simps) simp
qed

lemma closed_to_everyone: "\<not> Allowed subject (open_settings ScopeCustom)"
  by (simp add: Allowed_def open_settings_def intersects_def)

text \<open>(C19) The access of a section is that of the nearest section upwards with settings of its own, or of the whole
  company when the top is reached without one (partners excepted). When the parents form a cycle the
  search still ends, and the section is closed to everyone.\<close>

theorem EffectiveAccess_correct:
  assumes "sections_ok byID" "map_of byID (ks_ID s) = Some s"
  shows "(\<forall>n r. inherits byID n s r \<longrightarrow> EffectiveAccess s byID = r) \<and>
    ((\<nexists>n r. inherits byID n s r) \<longrightarrow> (\<forall>subject. \<not> Allowed subject (EffectiveAccess s byID))) \<and>
    (EffectiveAccess s byID = open_settings ScopeCompany \<longrightarrow>
       (\<forall>subject. Allowed subject (EffectiveAccess s byID) \<longleftrightarrow> sj_Role subject \<noteq> ''partner''))"
proof (intro conjI allI impI)
  fix n r assume "inherits byID n s r"
  then show "EffectiveAccess s byID = r"
    unfolding EffectiveAccess_def using assms by (intro inherit_access_inherits) auto
next
  fix subject assume "\<nexists>n r. inherits byID n s r"
  then show "\<not> Allowed subject (EffectiveAccess s byID)"
    unfolding EffectiveAccess_def by (simp only: inherit_access_cycle closed_to_everyone not_False_eq_True)
qed (simp add: Allowed_def open_settings_def)

definition example_sections :: sections where
  "example_sections =
     (let sec = \<lambda>x p a. (x, \<lparr>ks_ID = x, ks_ParentID = p, ks_Access = a\<rparr>) in
      [sec ''root'' None \<lparr>se_Scope = ScopeCustom, se_DepartmentIDs = [''d1''], se_PositionIDs = [], se_UserIDs = []\<rparr>,
       sec ''leaf'' (Some ''root'') (open_settings ScopeCompany),
       sec ''x'' (Some ''y'') (open_settings ScopeCompany), sec ''y'' (Some ''x'') (open_settings ScopeCompany)])"

definition example_leaf :: kb_section where
  "example_leaf = \<lparr>ks_ID = ''leaf'', ks_ParentID = Some ''root'', ks_Access = open_settings ScopeCompany\<rparr>"

theorem EffectiveAccess_correct_witness:
  "se_DepartmentIDs (EffectiveAccess example_leaf example_sections) = [''d1'']"
proof -
  let ?r = "\<lparr>se_Scope = ScopeCustom, se_DepartmentIDs = [''d1''], se_PositionIDs = [], se_UserIDs = []\<rparr>"
  let ?p = "\<lparr>ks_ID = ''root'', ks_ParentID = None, ks_Access = ?r\<rparr>"
  have "inherits example_sections 0 ?p (ks_Access ?p)" by (rule inherits.own) simp
  then have "inherits example_sections (Suc 0) example_leaf ?r"
    by (intro inherits.up[of _ _ ?p]) (simp_all add: example_leaf_def example_sections_def open_settings_def)
  moreover have "sections_ok example_sections" "map_of example_sections (ks_ID example_leaf) = Some example_leaf"
    by (auto simp: sections_ok_def example_sections_def example_leaf_def split: if_splits)
  ultimately show ?thesis using EffectiveAccess_correct[of example_sections example_leaf] by simp
qed

end
