(* ===== verification/Token_Mutation.thy ===== *)
theory Token_Mutation
  imports Authorization
begin

section \<open>Idempotent token mutations\<close>

text \<open>
  The file \<^verbatim>\<open>services/academy/internal/application/external_token_idempotency.go\<close> and the queries of
  \<^verbatim>\<open>storage/db/external_token_mutation_idempotency.sql.go\<close> it runs: how the services that hand out
  a secret link derive the token from the idempotency key of the request, reserve the key in the
  transaction, and answer a repeated request from the stored response.

  HMAC-SHA256 and the digest of the marshalled request are parameters (\<open>token_lib\<close>), like
  \<^verbatim>\<open>uuid.New\<close>, whose result is an argument. Identifiers are the texts of UUIDs. A stored
  response is the value its JSON text encodes.
\<close>

subsection \<open>Application errors and results\<close>

datatype ErrorKind = ErrorValidation | ErrorUnauthenticated | ErrorForbidden | ErrorNotFound
  | ErrorConflict | ErrorUnavailable | ErrorInternal

text \<open>\<^verbatim>\<open>value, err := f(); if err != nil { return err }\<close> and its two special cases: a guard and a
  lookup that may find nothing.\<close>

definition try_bind :: "'e + 'a \<Rightarrow> ('a \<Rightarrow> 'e + 'b) \<Rightarrow> 'e + 'b" where
  "try_bind m f = (case m of Inl e \<Rightarrow> Inl e | Inr x \<Rightarrow> f x)"

definition check_that :: "bool \<Rightarrow> 'e \<Rightarrow> 'e + unit" where
  "check_that b e = (if b then Inr () else Inl e)"

definition found_or :: "'e \<Rightarrow> 'a option \<Rightarrow> 'e + 'a" where
  "found_or e v = (case v of None \<Rightarrow> Inl e | Some x \<Rightarrow> Inr x)"

definition no_error_or :: "'e \<Rightarrow> 'd + 'a \<Rightarrow> 'e + 'a" where
  "no_error_or e r = (case r of Inl _ \<Rightarrow> Inl e | Inr x \<Rightarrow> Inr x)"

lemma try_bind_simps [simp]: "try_bind (Inl e) f = Inl e" "try_bind (Inr x) f = f x"
  by (simp_all add: try_bind_def)

lemma try_bind_Inr: "try_bind m f = Inr y \<longleftrightarrow> (\<exists>x. m = Inr x \<and> f x = Inr y)"
  by (cases m) simp_all

lemma check_that_Inr: "check_that b e = Inr u \<longleftrightarrow> b"
  by (simp add: check_that_def)

lemma found_or_Inr: "found_or e v = Inr x \<longleftrightarrow> v = Some x"
  by (cases v) (simp_all add: found_or_def)

lemma no_error_or_Inr: "no_error_or e r = Inr x \<longleftrightarrow> r = Inr x"
  by (cases r) (simp_all add: no_error_or_def)

text \<open>A method of an aggregate that fails turns into the error of the request.\<close>

lemma method_Inr:
  "(case r of (_, Some err) \<Rightarrow> Inl e | (x, None) \<Rightarrow> f x) = Inr y \<longleftrightarrow> (\<exists>x. r = (x, None) \<and> f x = Inr y)"
  by (auto split: prod.splits option.splits)

lemma try_bindE:
  assumes "try_bind m f = Inr y" obtains x where "m = Inr x" "f x = Inr y"
  using assms by (auto simp: try_bind_Inr)

lemma pair_InrE:
  assumes "(case p of (a, b) \<Rightarrow> f a b) = z" obtains a b where "p = (a, b)" "f a b = z"
  using assms by (cases p) simp

lemma method_InrE:
  assumes "(case r of (_, Some err) \<Rightarrow> Inl e | (x, None) \<Rightarrow> f x) = Inr y"
  obtains x where "r = (x, None)" "f x = Inr y"
  using assms by (auto simp: method_Inr)

lemmas result_iffs = try_bind_Inr check_that_Inr found_or_Inr no_error_or_Inr method_Inr

subsection \<open>An UPDATE of the row a query selects\<close>

text \<open>A table is the list of its rows. An \<^verbatim>\<open>UPDATE ... RETURNING\<close> read with \<^verbatim>\<open>:one\<close> changes every row
  the condition selects and fails with \<^verbatim>\<open>ErrNoRows\<close> when there is none.\<close>

definition sql_update :: "('a \<Rightarrow> bool) \<Rightarrow> ('a \<Rightarrow> 'a) \<Rightarrow> 'a list \<Rightarrow> 'a list option" where
  "sql_update hit f rows =
     (if list_ex hit rows then Some (map (\<lambda>r. if hit r then f r else r) rows) else None)"

lemma sql_update_Some:
  "sql_update hit f rows = Some rows' \<longleftrightarrow>
     (\<exists>r\<in>set rows. hit r) \<and> rows' = map (\<lambda>r. if hit r then f r else r) rows"
  by (auto simp: sql_update_def list_ex_iff)

text \<open>When the condition selects by a key no two rows share, one given row is changed.\<close>

lemma distinct_key: "distinct (map f xs) \<Longrightarrow> x \<in> set xs \<Longrightarrow> y \<in> set xs \<Longrightarrow> f x = f y \<Longrightarrow> x = y"
  by (auto simp: distinct_map dest: inj_onD)

lemma sql_update_hit:
  assumes "sql_update hit f rows = Some rows'" "distinct (map k rows)" "c \<in> set rows"
    and "\<And>r. hit r \<Longrightarrow> k r = k c"
  shows "hit c"
proof -
  from assms(1) obtain r where r: "r \<in> set rows" "hit r" by (auto simp: sql_update_Some)
  with assms(2,3,4) have "r = c" by (metis distinct_key)
  with r show ?thesis by simp
qed

lemma sql_update_key:
  assumes "sql_update hit f rows = Some rows'" "distinct (map k rows)" "c \<in> set rows"
    and "\<And>r. hit r \<Longrightarrow> k r = k c" "f c = g c"
  shows "rows' = map (\<lambda>d. if k d = k c then g d else d) rows"
proof -
  have hit: "hit c" by (rule sql_update_hit[OF assms(1-4)])
  have "(if hit d then f d else d) = (if k d = k c then g d else d)" if "d \<in> set rows" for d
    using that hit assms(2,3,5) assms(4)[of d] by (auto dest: distinct_key)
  with assms(1) show ?thesis by (simp add: sql_update_Some)
qed

subsection \<open>base64.RawURLEncoding\<close>

definition url_alphabet :: string where
  "url_alphabet = ''ABCDEFGHIJKLMNOPQRSTUVWXYZabcdefghijklmnopqrstuvwxyz0123456789-_''"

definition url_char :: "nat \<Rightarrow> char" where
  "url_char n = url_alphabet ! (n mod 64)"

fun RawURLEncoding :: "bytes \<Rightarrow> string" where
  "RawURLEncoding [] = []"
| "RawURLEncoding [a] = [url_char (unat a div 4), url_char (unat a mod 4 * 16)]"
| "RawURLEncoding [a, b] =
     [url_char (unat a div 4), url_char (unat a mod 4 * 16 + unat b div 16), url_char (unat b mod 16 * 4)]"
| "RawURLEncoding (a # b # c # rest) =
     [url_char (unat a div 4), url_char (unat a mod 4 * 16 + unat b div 16),
      url_char (unat b mod 16 * 4 + unat c div 64), url_char (unat c mod 64)] @ RawURLEncoding rest"

lemma url_char_token: "token_char (url_char n)"
proof -
  have "list_all token_char url_alphabet" by code_simp
  moreover have "n mod 64 < length url_alphabet" by (simp add: url_alphabet_def)
  ultimately show ?thesis by (simp add: url_char_def list_all_length)
qed

lemma RawURLEncoding_token: "list_all token_char (RawURLEncoding bs)"
  by (induction bs rule: RawURLEncoding.induct) (simp_all add: url_char_token)

lemma length_RawURLEncoding: "length (RawURLEncoding bs) = (4 * length bs + 2) div 3"
  by (induction bs rule: RawURLEncoding.induct) simp_all

subsection \<open>Deriving the token\<close>

datatype token_operation = OperationCreatePersonalAccess | OperationRotatePersonalAccess
  | OperationRepeatPersonalAccess | OperationCreateCampaign | OperationRotateCampaign

fun operation_text :: "token_operation \<Rightarrow> string" where
  "operation_text OperationCreatePersonalAccess = ''create_personal_access''"
| "operation_text OperationRotatePersonalAccess = ''rotate_personal_access_token''"
| "operation_text OperationRepeatPersonalAccess = ''repeat_personal_access''"
| "operation_text OperationCreateCampaign = ''create_external_campaign''"
| "operation_text OperationRotateCampaign = ''rotate_external_campaign_token''"

record token_lib =
  tl_secret :: bytes \<comment> \<open>\<open>Service.externalSecret\<close>\<close>
  tl_hmac :: "bytes \<Rightarrow> string \<Rightarrow> bytes" \<comment> \<open>HMAC-SHA256 of a text under a key\<close>

definition externalTokenPrefixLength :: nat where
  "externalTokenPrefixLength = 10"

definition externalTokenHash :: "'l token_lib_scheme \<Rightarrow> string \<Rightarrow> bytes" where
  "externalTokenHash lib token = tl_hmac lib (tl_secret lib) (TrimSpace token)"

definition idempotentExternalToken ::
  "'l token_lib_scheme \<Rightarrow> Actor \<Rightarrow> token_operation \<Rightarrow> string \<Rightarrow> (string \<times> bytes \<times> string) option" where
  "idempotentExternalToken lib actor operation idempotencyKey =
     (if length (tl_secret lib) < 32 then None
      else
        let digest = tl_hmac lib (tl_secret lib)
              (''academy-external-token'' @ [CHR 0x00] @ ac_CompanyID actor @ [CHR 0x00] @
               ac_UserID actor @ [CHR 0x00] @ operation_text operation @ [CHR 0x00] @ idempotencyKey);
            token = RawURLEncoding digest;
            hash = externalTokenHash lib token;
            tokenPrefix = take (min externalTokenPrefixLength (length token)) token
        in Some (token, hash, tokenPrefix))"

subsection \<open>Reserving a key\<close>

record 'r reservation =
  rv_ID :: ID
  rv_CompanyID :: ID
  rv_ActorUserID :: ID
  rv_Operation :: token_operation
  rv_IdempotencyKey :: string
  rv_RequestHash :: string
  rv_ResultID :: ID
  rv_ResponsePayload :: "'r option"
  rv_CompletedAt :: "time option"
  rv_CreatedAt :: time

definition same_reservation_key :: "'r reservation \<Rightarrow> 'r reservation \<Rightarrow> bool" where
  "same_reservation_key a b \<longleftrightarrow>
     rv_CompanyID a = rv_CompanyID b \<and> rv_ActorUserID a = rv_ActorUserID b \<and>
     rv_Operation a = rv_Operation b \<and> rv_IdempotencyKey a = rv_IdempotencyKey b"

text \<open>The insertion returns the row that already holds the key unchanged (\<^verbatim>\<open>ON CONFLICT ... DO
  UPDATE SET id\<close> of itself); a duplicate primary key is an error.\<close>

definition sql_ReserveTokenMutation ::
  "'r reservation \<Rightarrow> 'r reservation list \<Rightarrow> ('r reservation list \<times> 'r reservation) option" where
  "sql_ReserveTokenMutation new rows =
     (case List.find (same_reservation_key new) rows of
        Some r \<Rightarrow> Some (rows, r)
      | None \<Rightarrow> if rv_ID new \<in> set (map rv_ID rows) then None else Some (rows @ [new], new))"

definition sql_CompleteTokenMutation ::
  "'r \<Rightarrow> time \<Rightarrow> ID \<Rightarrow> ID \<Rightarrow> 'r reservation list \<Rightarrow> 'r reservation list option" where
  "sql_CompleteTokenMutation payload completedAt company reservationID =
     sql_update (\<lambda>r. rv_CompanyID r = company \<and> rv_ID r = reservationID \<and> rv_CompletedAt r = None)
       (\<lambda>r. r\<lparr>rv_ResponsePayload := Some payload, rv_CompletedAt := Some completedAt\<rparr>)"

definition normalizeEnrollmentIdempotencyKey :: "string \<Rightarrow> ErrorKind + string" where
  "normalizeEnrollmentIdempotencyKey value =
     (let key = TrimSpace value
      in if length key < 8 \<or> length key > 255 then Inl ErrorValidation else Inr key)"

definition normalizeExternalTokenKey :: "string \<Rightarrow> ErrorKind + string" where
  "normalizeExternalTokenKey value = normalizeEnrollmentIdempotencyKey (TrimSpace value)"

definition reserveExternalTokenMutationInTx ::
  "'r reservation list \<Rightarrow> Actor \<Rightarrow> token_operation \<Rightarrow> string \<Rightarrow> string \<Rightarrow> ID \<Rightarrow> ID \<Rightarrow> time \<Rightarrow>
     ErrorKind + 'r reservation list \<times> 'r reservation \<times> bool" where
  "reserveExternalTokenMutationInTx rows actor operation idempotencyKey requestHash resultID reservationID now =
     try_bind (normalizeEnrollmentIdempotencyKey idempotencyKey) (\<lambda>key.
     try_bind (found_or ErrorInternal
        (sql_ReserveTokenMutation
          \<lparr>rv_ID = reservationID, rv_CompanyID = ac_CompanyID actor, rv_ActorUserID = ac_UserID actor,
           rv_Operation = operation, rv_IdempotencyKey = key, rv_RequestHash = requestHash,
           rv_ResultID = resultID, rv_ResponsePayload = None, rv_CompletedAt = None, rv_CreatedAt = now\<rparr>
          rows)) (\<lambda>(rows, r).
     if rv_RequestHash r \<noteq> requestHash then Inl ErrorConflict
     else let replayed = rv_ID r \<noteq> reservationID
       in if replayed \<and> (rv_CompletedAt r = None \<or> rv_ResponsePayload r = None) then Inl ErrorInternal
          else Inr (rows, r, replayed)))"

definition completeExternalTokenMutationInTx ::
  "'r reservation list \<Rightarrow> ID \<Rightarrow> ID \<Rightarrow> 'r \<Rightarrow> time \<Rightarrow> ErrorKind + 'r reservation list" where
  "completeExternalTokenMutationInTx rows company reservationID response completedAt =
     found_or ErrorInternal (sql_CompleteTokenMutation response completedAt company reservationID rows)"

definition decodeExternalTokenMutationReplay :: "'r option \<Rightarrow> ErrorKind + 'r" where
  "decodeExternalTokenMutationReplay payload = found_or ErrorInternal payload"

subsection \<open>Facts about reservations\<close>

definition reservation_key :: "'r reservation \<Rightarrow> ID \<times> ID \<times> token_operation \<times> string" where
  "reservation_key r = (rv_CompanyID r, rv_ActorUserID r, rv_Operation r, rv_IdempotencyKey r)"

text \<open>What every committed transaction leaves: one row per key, all of them completed.\<close>

definition reservations_ok :: "'r reservation list \<Rightarrow> bool" where
  "reservations_ok rows \<longleftrightarrow>
     distinct (map rv_ID rows) \<and> distinct (map reservation_key rows) \<and>
     (\<forall>r\<in>set rows. rv_CompletedAt r \<noteq> None \<and> rv_ResponsePayload r \<noteq> None)"

lemma same_reservation_key_iff: "same_reservation_key a b \<longleftrightarrow> reservation_key a = reservation_key b"
  by (auto simp: same_reservation_key_def reservation_key_def)

lemma find_key_None:
  "List.find (same_reservation_key r) rows = None \<longleftrightarrow> reservation_key r \<notin> reservation_key ` set rows"
  unfolding find_None_iff same_reservation_key_iff by auto

lemma find_key_Some:
  "List.find (same_reservation_key r) rows = Some q \<Longrightarrow> q \<in> set rows \<and> reservation_key q = reservation_key r"
  unfolding find_Some_iff same_reservation_key_iff by auto

lemma normalize_idem:
  "normalizeEnrollmentIdempotencyKey value = Inr key \<Longrightarrow> normalizeEnrollmentIdempotencyKey key = Inr key"
  by (auto simp: normalizeEnrollmentIdempotencyKey_def Let_def split: if_splits)

lemma normalizeExternal_eq [simp]: "normalizeExternalTokenKey value = normalizeEnrollmentIdempotencyKey value"
  by (simp add: normalizeExternalTokenKey_def normalizeEnrollmentIdempotencyKey_def)

lemma reserve_replayed:
  assumes "reserveExternalTokenMutationInTx rows actor operation key requestHash resultID rid now =
      Inr (rows', r, True)"
    and "normalizeEnrollmentIdempotencyKey key = Inr key"
  shows "rows' = rows" "r \<in> set rows" "rv_RequestHash r = requestHash"
    "reservation_key r = (ac_CompanyID actor, ac_UserID actor, operation, key)"
  using assms by (auto simp: reserveExternalTokenMutationInTx_def result_iffs Let_def
      sql_ReserveTokenMutation_def find_Some_iff same_reservation_key_def reservation_key_def
      split: option.splits if_splits)

lemma reserve_fresh:
  fixes rows :: "'r reservation list"
  assumes "reserveExternalTokenMutationInTx rows actor operation key requestHash resultID rid now =
      Inr (rows', r, False)"
    and "normalizeEnrollmentIdempotencyKey key = Inr key" "reservations_ok rows"
    and "completeExternalTokenMutationInTx rows' (ac_CompanyID actor) (rv_ID r) response now = Inr rows''"
  shows "\<exists>done_row. rows'' = rows @ [done_row] \<and> rv_RequestHash done_row = requestHash \<and>
      rv_ResponsePayload done_row = Some response \<and> rv_CompletedAt done_row \<noteq> None \<and>
      reservation_key done_row = (ac_CompanyID actor, ac_UserID actor, operation, key) \<and>
      rv_ID done_row = rid \<and> rid \<notin> rv_ID ` set rows \<and>
      (ac_CompanyID actor, ac_UserID actor, operation, key) \<notin> reservation_key ` set rows"
proof -
  let ?new = "(\<lparr>rv_ID = rid, rv_CompanyID = ac_CompanyID actor, rv_ActorUserID = ac_UserID actor,
     rv_Operation = operation, rv_IdempotencyKey = key, rv_RequestHash = requestHash,
     rv_ResultID = resultID, rv_ResponsePayload = None, rv_CompletedAt = None, rv_CreatedAt = now\<rparr>) :: 'r reservation"
  have reserve: "sql_ReserveTokenMutation ?new rows = Some (rows', r)" "rv_ID r = rid"
    using assms(1,2) by (auto simp: reserveExternalTokenMutationInTx_def result_iffs Let_def split: if_splits)
  obtain q where q: "q \<in> set rows'" "rv_ID q = rv_ID r" "rv_CompletedAt q = None"
    and rows'': "rows'' = map (\<lambda>q. if rv_CompanyID q = ac_CompanyID actor \<and> rv_ID q = rv_ID r \<and> rv_CompletedAt q = None
        then q\<lparr>rv_ResponsePayload := Some response, rv_CompletedAt := Some now\<rparr> else q) rows'"
    using assms(4) by (auto simp: completeExternalTokenMutationInTx_def result_iffs
        sql_CompleteTokenMutation_def sql_update_Some)
  have new: "rows' = rows @ [?new]" "r = ?new" "List.find (same_reservation_key ?new) rows = None"
    "rid \<notin> rv_ID ` set rows"
    using reserve q assms(3) by (auto simp: sql_ReserveTokenMutation_def reservations_ok_def find_None_iff
        split: option.splits if_splits)
  have "map (\<lambda>q. if rv_CompanyID q = ac_CompanyID actor \<and> rv_ID q = rv_ID r \<and> rv_CompletedAt q = None
        then q\<lparr>rv_ResponsePayload := Some response, rv_CompletedAt := Some now\<rparr> else q) rows = rows"
    using assms(3) by (intro map_idI) (auto simp: reservations_ok_def)
  with rows'' new have "rows'' = rows @ [?new\<lparr>rv_ResponsePayload := Some response, rv_CompletedAt := Some now\<rparr>]"
    by simp
  moreover have "reservation_key ?new \<notin> reservation_key ` set rows"
    using new(3) unfolding find_key_None .
  ultimately show ?thesis using new(4) by (auto simp: reservation_key_def)
qed

lemma reservations_ok_snoc:
  "reservations_ok rows \<Longrightarrow> rv_CompletedAt r \<noteq> None \<Longrightarrow> rv_ResponsePayload r \<noteq> None \<Longrightarrow>
     rv_ID r \<notin> rv_ID ` set rows \<Longrightarrow> reservation_key r \<notin> reservation_key ` set rows \<Longrightarrow>
     reservations_ok (rows @ [r])"
  by (auto simp: reservations_ok_def)

text \<open>A key that is in the table is answered from it.\<close>

lemma reserve_again:
  fixes rows :: "'r reservation list"
  assumes "reservations_ok rows" "r \<in> set rows" "rv_ID r \<noteq> rid" "rv_RequestHash r = requestHash"
    and "reservation_key r = (ac_CompanyID actor, ac_UserID actor, operation, key)"
    and "normalizeEnrollmentIdempotencyKey key = Inr key"
  shows "reserveExternalTokenMutationInTx rows actor operation key requestHash resultID rid now =
      Inr (rows, r, True)"
proof -
  let ?new = "(\<lparr>rv_ID = rid, rv_CompanyID = ac_CompanyID actor, rv_ActorUserID = ac_UserID actor,
     rv_Operation = operation, rv_IdempotencyKey = key, rv_RequestHash = requestHash,
     rv_ResultID = resultID, rv_ResponsePayload = None, rv_CompletedAt = None, rv_CreatedAt = now\<rparr>) :: 'r reservation"
  have same: "reservation_key ?new = reservation_key r" using assms(5) by (simp add: reservation_key_def)
  then have "reservation_key ?new \<in> reservation_key ` set rows" using assms(2) by (metis imageI)
  then obtain q where q: "List.find (same_reservation_key ?new) rows = Some q"
    using find_key_None[of ?new rows] by (cases "List.find (same_reservation_key ?new) rows") auto
  then have "q \<in> set rows" "reservation_key q = reservation_key r"
    using same find_key_Some by fastforce+
  with assms(1,2) have "q = r" unfolding reservations_ok_def by (metis distinct_key)
  with q assms show ?thesis
    by (simp add: reserveExternalTokenMutationInTx_def sql_ReserveTokenMutation_def found_or_def
        reservations_ok_def)
qed

end
