(* ===== verification/Campaign_Service.thy ===== *)
theory Campaign_Service
  imports Token_Mutation Campaign
begin

section \<open>The campaign service\<close>

text \<open>
  The file \<^verbatim>\<open>services/academy/internal/application/campaigns.go\<close> over the queries of
  \<^verbatim>\<open>storage/db/external_campaigns.sql.go\<close>: the requests that create, read, pause, resume, revoke and
  re-key a campaign, each one transaction that loads the row, asks the policy, runs the aggregate,
  repeats the change as an SQL update and records history, audit and event.

  A request that fails rolls its transaction back: its result is an error and no store. Failures of
  the database connection itself, which have that same effect, are not modelled. Identifiers are
  the texts of UUIDs on both sides of the mapping functions; a text column with a check
  constraint is the datatype of its values. Timestamps are stored as given, though PostgreSQL keeps
  whole microseconds, and \<^verbatim>\<open>s.now()\<close> is read once.
\<close>

subsection \<open>Rows, responses and the store\<close>

record ExternalCampaign =
  ec_ID :: ID
  ec_CompanyID :: ID
  ec_CourseID :: ID
  ec_CourseVersionID :: ID
  ec_OwnerType :: campaign_owner
  ec_OwnerUserID :: "ID option"
  ec_Purpose :: Purpose
  ec_Name :: string
  ec_DeadlineDays :: int
  ec_Status :: campaign_status
  ec_TokenPrefix :: string
  ec_CreatedByID :: ID
  ec_CreatedAt :: time
  ec_PausedAt :: "time option"
  ec_RevokedAt :: "time option"

record campaign_history =
  ch_CompanyID :: ID
  ch_CampaignID :: ID
  ch_EventType :: string
  ch_ActorID :: ID
  ch_PreviousStatus :: "campaign_status option"
  ch_CurrentStatus :: campaign_status
  ch_PreviousTokenPrefix :: "string option"
  ch_CurrentTokenPrefix :: string
  ch_OccurredAt :: time

record campaign_audit =
  au_CompanyID :: ID
  au_ActorID :: ID
  au_ActorRole :: Role
  au_Action :: string
  au_AggregateID :: ID
  au_BeforeState :: "ExternalCampaign option"
  au_AfterState :: ExternalCampaign

datatype ProtoOwnerType = PROTO_OWNER_COMPANY | PROTO_OWNER_PARTNER

datatype ProtoPurpose = PROTO_COMPANY_CANDIDATE | PROTO_PARTNER_PROMO

datatype ProtoStatus = PROTO_STATUS_UNSPECIFIED | PROTO_STATUS_ACTIVE | PROTO_STATUS_PAUSED
  | PROTO_STATUS_REVOKED | PROTO_STATUS_CLOSED

datatype campaign_event =
    CampaignCreatedPayload ID ID ID ProtoOwnerType "ID option" ProtoPurpose ID time
  | CampaignStatusChangedPayload ID ID ProtoStatus ProtoStatus ID time

record campaign_store =
  st_courses :: "course list"
  st_versions :: "course_version list"
  st_campaigns :: "campaign list"
  st_history :: "campaign_history list"
  st_audit :: "campaign_audit list"
  st_outbox :: "campaign_event list"
  st_reservations :: "ExternalCampaign reservation list"

definition campaignFromSnapshot :: "campaign \<Rightarrow> ExternalCampaign" where
  "campaignFromSnapshot value =
     \<lparr>ec_ID = cp_ID value, ec_CompanyID = cp_CompanyID value, ec_CourseID = cp_CourseID value,
      ec_CourseVersionID = cp_CourseVersionID value, ec_OwnerType = cp_OwnerType value,
      ec_OwnerUserID = cp_OwnerUserID value, ec_Purpose = cp_Purpose value, ec_Name = cp_Name value,
      ec_DeadlineDays = cp_DeadlineDays value, ec_Status = cp_Status value,
      ec_TokenPrefix = cp_TokenPrefix value, ec_CreatedByID = cp_CreatedByID value,
      ec_CreatedAt = cp_CreatedAt value, ec_PausedAt = cp_PausedAt value,
      ec_RevokedAt = cp_RevokedAt value\<rparr>"

text \<open>The rows the queries return hold the same columns: \<^verbatim>\<open>campaignFromCreateRow\<close>,
  \<^verbatim>\<open>campaignFromGetRow\<close> and \<^verbatim>\<open>campaignFromListRow\<close> copy them.\<close>

definition campaignFromRow :: "campaign \<Rightarrow> ExternalCampaign" where
  "campaignFromRow row =
     \<lparr>ec_ID = cp_ID row, ec_CompanyID = cp_CompanyID row, ec_CourseID = cp_CourseID row,
      ec_CourseVersionID = cp_CourseVersionID row, ec_OwnerType = cp_OwnerType row,
      ec_OwnerUserID = cp_OwnerUserID row, ec_Purpose = cp_Purpose row, ec_Name = cp_Name row,
      ec_DeadlineDays = cp_DeadlineDays row, ec_Status = cp_Status row,
      ec_TokenPrefix = cp_TokenPrefix row, ec_CreatedByID = cp_CreatedByID row,
      ec_CreatedAt = cp_CreatedAt row, ec_PausedAt = cp_PausedAt row,
      ec_RevokedAt = cp_RevokedAt row\<rparr>"

definition campaignDomainSnapshot :: "ExternalCampaign \<Rightarrow> bytes \<Rightarrow> campaign" where
  "campaignDomainSnapshot value tokenHash =
     \<lparr>cp_ID = ec_ID value, cp_CompanyID = ec_CompanyID value, cp_CourseID = ec_CourseID value,
      cp_CourseVersionID = ec_CourseVersionID value, cp_OwnerType = ec_OwnerType value,
      cp_OwnerUserID = ec_OwnerUserID value, cp_Purpose = ec_Purpose value, cp_Name = ec_Name value,
      cp_DeadlineDays = ec_DeadlineDays value, cp_Status = ec_Status value, cp_TokenHash = tokenHash,
      cp_TokenPrefix = ec_TokenPrefix value, cp_CreatedByID = ec_CreatedByID value,
      cp_CreatedAt = ec_CreatedAt value, cp_PausedAt = ec_PausedAt value, cp_TokenRotatedAt = None,
      cp_RevokedAt = ec_RevokedAt value, cp_ClosedAt = None, cp_UpdatedAt = ec_CreatedAt value\<rparr>"

subsection \<open>Queries\<close>

definition sql_GetCourse :: "ID \<Rightarrow> ID \<Rightarrow> course list \<Rightarrow> course option" where
  "sql_GetCourse company key = List.find (\<lambda>c. crs_CompanyID c = company \<and> crs_ID c = key)"

definition sql_GetCourseVersion :: "ID \<Rightarrow> ID \<Rightarrow> course_version list \<Rightarrow> course_version option" where
  "sql_GetCourseVersion company key = List.find (\<lambda>v. vn_CompanyID v = company \<and> vn_ID v = key)"

text \<open>The condition on tenant, key and partner every query on one campaign has.\<close>

definition sql_scoped :: "ID \<Rightarrow> ID \<Rightarrow> ID option \<Rightarrow> campaign \<Rightarrow> bool" where
  "sql_scoped company key partnerID row \<longleftrightarrow>
     cp_CompanyID row = company \<and> cp_ID row = key \<and>
     (partnerID = None \<or> cp_OwnerUserID row = partnerID)"

definition sql_GetExternalCampaign :: "ID \<Rightarrow> ID \<Rightarrow> ID option \<Rightarrow> campaign list \<Rightarrow> campaign option" where
  "sql_GetExternalCampaign company key partnerID = List.find (sql_scoped company key partnerID)"

definition sql_GetExternalCampaignForUpdate ::
  "ID \<Rightarrow> ID \<Rightarrow> ID option \<Rightarrow> campaign list \<Rightarrow> campaign option" where
  "sql_GetExternalCampaignForUpdate company key partnerID = List.find (sql_scoped company key partnerID)"

text \<open>The insertion sets the status and leaves the columns of later changes empty. It fails on a
  used primary key, a used token hash and a name of more than 300 characters; the other checks
  of the table and its trigger hold for what \<^verbatim>\<open>New\<close> and the policy accepted.\<close>

definition sql_char_length :: "string \<Rightarrow> nat" where
  "sql_char_length s = length (filter (\<lambda>c. (of_char c :: nat) div 64 \<noteq> 2) s)"

definition sql_CreateExternalCampaign :: "campaign \<Rightarrow> campaign list \<Rightarrow> (campaign list \<times> campaign) option" where
  "sql_CreateExternalCampaign args rows =
     (let row = \<lparr>cp_ID = cp_ID args, cp_CompanyID = cp_CompanyID args, cp_CourseID = cp_CourseID args,
        cp_CourseVersionID = cp_CourseVersionID args, cp_OwnerType = cp_OwnerType args,
        cp_OwnerUserID = cp_OwnerUserID args, cp_Purpose = cp_Purpose args, cp_Name = cp_Name args,
        cp_DeadlineDays = cp_DeadlineDays args, cp_Status = Campaign_Active,
        cp_TokenHash = cp_TokenHash args, cp_TokenPrefix = cp_TokenPrefix args,
        cp_CreatedByID = cp_CreatedByID args, cp_CreatedAt = cp_CreatedAt args, cp_PausedAt = None,
        cp_TokenRotatedAt = None, cp_RevokedAt = None, cp_ClosedAt = None,
        cp_UpdatedAt = cp_CreatedAt args\<rparr>
      in if cp_ID row \<in> set (map cp_ID rows) \<or> cp_TokenHash row \<in> set (map cp_TokenHash rows) \<or>
            sql_char_length (cp_Name row) > 300
         then None else Some (rows @ [row], row))"

definition sql_PauseExternalCampaign ::
  "time \<Rightarrow> ID \<Rightarrow> ID \<Rightarrow> ID option \<Rightarrow> campaign list \<Rightarrow> campaign list option" where
  "sql_PauseExternalCampaign changedAt company key partnerID =
     sql_update (\<lambda>row. sql_scoped company key partnerID row \<and> cp_Status row = Campaign_Active)
       (\<lambda>row. row\<lparr>cp_Status := Campaign_Paused, cp_PausedAt := Some changedAt, cp_UpdatedAt := changedAt\<rparr>)"

definition sql_ResumeExternalCampaign ::
  "time \<Rightarrow> ID \<Rightarrow> ID \<Rightarrow> ID option \<Rightarrow> course list \<Rightarrow> course_version list \<Rightarrow> campaign list \<Rightarrow>
     campaign list option" where
  "sql_ResumeExternalCampaign changedAt company key partnerID courses versions =
     sql_update (\<lambda>row. sql_scoped company key partnerID row \<and> cp_Status row = Campaign_Paused \<and>
         list_ex (\<lambda>c. crs_CompanyID c = cp_CompanyID row \<and> crs_ID c = cp_CourseID row \<and>
           crs_LifecycleStatus c = CourseActive \<and> crs_DistributionStatus c \<noteq> DistributionBlocked) courses \<and>
         list_ex (\<lambda>v. vn_CompanyID v = cp_CompanyID row \<and> vn_ID v = cp_CourseVersionID row \<and>
           vn_Status v = StatusPublished) versions)
       (\<lambda>row. row\<lparr>cp_Status := Campaign_Active, cp_PausedAt := None, cp_UpdatedAt := changedAt\<rparr>)"

text \<open>The new hash may be that of another campaign: the unique key of the column refuses it, with an
  error that is not \<^verbatim>\<open>ErrNoRows\<close>.\<close>

datatype sql_error = NoRows | UniqueViolation

definition sql_RotateExternalCampaignToken ::
  "bytes \<Rightarrow> string \<Rightarrow> time \<Rightarrow> ID \<Rightarrow> ID \<Rightarrow> ID option \<Rightarrow> campaign list \<Rightarrow> sql_error + campaign list" where
  "sql_RotateExternalCampaignToken tokenHash tokenPrefix rotatedAt company key partnerID rows =
     (let hit = (\<lambda>row. sql_scoped company key partnerID row \<and>
            (cp_Status row = Campaign_Active \<or> cp_Status row = Campaign_Paused))
      in case sql_update hit
            (\<lambda>row. row\<lparr>cp_TokenHash := tokenHash, cp_TokenPrefix := tokenPrefix,
              cp_TokenRotatedAt := Some rotatedAt, cp_UpdatedAt := rotatedAt\<rparr>) rows of
           None \<Rightarrow> Inl NoRows
         | Some updated \<Rightarrow>
             if list_ex (\<lambda>row. \<not> hit row \<and> cp_TokenHash row = tokenHash) rows
             then Inl UniqueViolation else Inr updated)"

text \<open>\<^verbatim>\<open>isNoRows(err)\<close> is a conflict, any other error of the update an internal error.\<close>

definition update_result :: "sql_error + 'a \<Rightarrow> ErrorKind + 'a" where
  "update_result r =
     (case r of
        Inl NoRows \<Rightarrow> Inl ErrorConflict
      | Inl UniqueViolation \<Rightarrow> Inl ErrorInternal
      | Inr x \<Rightarrow> Inr x)"

lemma update_result_Inr: "update_result r = Inr x \<longleftrightarrow> r = Inr x"
  by (auto simp: update_result_def split: sum.splits sql_error.splits)

definition sql_RevokeExternalCampaign ::
  "time \<Rightarrow> ID \<Rightarrow> ID \<Rightarrow> ID option \<Rightarrow> campaign list \<Rightarrow> campaign list option" where
  "sql_RevokeExternalCampaign changedAt company key partnerID =
     sql_update (\<lambda>row. sql_scoped company key partnerID row \<and>
         (cp_Status row = Campaign_Active \<or> cp_Status row = Campaign_Paused))
       (\<lambda>row. row\<lparr>cp_Status := Campaign_Revoked, cp_PausedAt := None, cp_RevokedAt := Some changedAt,
         cp_UpdatedAt := changedAt\<rparr>)"

subsection \<open>Records of a change\<close>

definition recordCampaignHistory ::
  "ID \<Rightarrow> ID \<Rightarrow> string \<Rightarrow> Actor \<Rightarrow> campaign_status option \<Rightarrow> campaign_status \<Rightarrow> string option \<Rightarrow> string \<Rightarrow> time \<Rightarrow>
     campaign_history list \<Rightarrow> campaign_history list" where
  "recordCampaignHistory companyID campaignID eventType actor previousStatus currentStatus
      previousPrefix currentPrefix occurredAt rows =
     rows @ [\<lparr>ch_CompanyID = companyID, ch_CampaignID = campaignID, ch_EventType = eventType,
       ch_ActorID = ac_UserID actor, ch_PreviousStatus = previousStatus, ch_CurrentStatus = currentStatus,
       ch_PreviousTokenPrefix = previousPrefix, ch_CurrentTokenPrefix = currentPrefix,
       ch_OccurredAt = occurredAt\<rparr>]"

definition auditCampaign ::
  "Actor \<Rightarrow> string \<Rightarrow> ExternalCampaign option \<Rightarrow> ExternalCampaign \<Rightarrow> campaign_audit list \<Rightarrow> campaign_audit list" where
  "auditCampaign actor action before after rows =
     rows @ [\<lparr>au_CompanyID = ac_CompanyID actor, au_ActorID = ac_UserID actor, au_ActorRole = ac_Role actor,
       au_Action = action, au_AggregateID = ec_ID after, au_BeforeState = before, au_AfterState = after\<rparr>]"

definition campaignHistoryEventType :: "string \<Rightarrow> string" where
  "campaignHistoryEventType action =
     (if action = ''campaign_paused'' then ''paused''
      else if action = ''campaign_resumed'' then ''resumed''
      else if action = ''campaign_revoked'' then ''revoked''
      else if action = ''campaign_token_rotated'' then ''token_rotated''
      else action)"

definition campaignOwnerTypeToEvent :: "campaign_owner \<Rightarrow> ProtoOwnerType" where
  "campaignOwnerTypeToEvent value = (if value = OwnerPartner then PROTO_OWNER_PARTNER else PROTO_OWNER_COMPANY)"

definition campaignPurposeToEvent :: "Purpose \<Rightarrow> ProtoPurpose" where
  "campaignPurposeToEvent value =
     (if value = PurposePartnerPromo then PROTO_PARTNER_PROMO else PROTO_COMPANY_CANDIDATE)"

definition campaignStatusToEvent :: "campaign_status \<Rightarrow> ProtoStatus" where
  "campaignStatusToEvent value =
     (case value of
        Campaign_Active \<Rightarrow> PROTO_STATUS_ACTIVE
      | Campaign_Paused \<Rightarrow> PROTO_STATUS_PAUSED
      | Campaign_Revoked \<Rightarrow> PROTO_STATUS_REVOKED
      | Campaign_Closed \<Rightarrow> PROTO_STATUS_CLOSED
      | CampaignStatusOther _ \<Rightarrow> PROTO_STATUS_UNSPECIFIED)"

subsection \<open>Requests\<close>

datatype token_request = CreateCampaignRequest ID ID string Purpose int | RotateCampaignRequest ID

record service_lib = token_lib +
  sl_RequestHash :: "token_request \<Rightarrow> string" \<comment> \<open>\<open>enrollmentMutationRequestHash\<close>\<close>

record CreateExternalCampaignInput =
  ci_CourseID :: ID
  ci_CourseVersionID :: ID
  ci_Name :: string
  ci_Purpose :: Purpose
  ci_DeadlineDays :: int
  ci_IdempotencyKey :: string

definition canManage :: "Actor \<Rightarrow> bool" where
  "canManage actor \<longleftrightarrow> ac_Role actor = RoleOwner \<or> ac_Role actor = RoleAdmin"

definition campaignPartnerScope :: "Actor \<Rightarrow> ErrorKind + ID option" where
  "campaignPartnerScope actor =
     (if canManage actor then Inr None
      else if ac_Role actor = RolePartner then Inr (Some (ac_UserID actor))
      else Inl ErrorForbidden)"

text \<open>\<^verbatim>\<open>domaincampaign.OwnerType(course.OwnerType)\<close>: the same text under another type.\<close>

definition campaign_owner_of :: "OwnerType \<Rightarrow> campaign_owner" where
  "campaign_owner_of value =
     (case value of
        CourseOwnerCompany \<Rightarrow> OwnerCompany
      | CourseOwnerPartner \<Rightarrow> OwnerPartner
      | OwnerTypeOther other \<Rightarrow> CampaignOwnerOther other)"

definition CreateExternalCampaign ::
  "service_lib \<Rightarrow> campaign_store \<Rightarrow> Actor \<Rightarrow> CreateExternalCampaignInput \<Rightarrow> ID \<Rightarrow> ID \<Rightarrow> time \<Rightarrow>
     ErrorKind + campaign_store \<times> ExternalCampaign \<times> string" where
  "CreateExternalCampaign lib st actor input campaignID reservationID now =
     try_bind (normalizeExternalTokenKey (ci_IdempotencyKey input)) (\<lambda>key.
     try_bind (found_or ErrorInternal
        (idempotentExternalToken lib actor OperationCreateCampaign key)) (\<lambda>(token, tokenHash, tokenPrefix).
     try_bind (reserveExternalTokenMutationInTx (st_reservations st) actor OperationCreateCampaign key
        (sl_RequestHash lib (CreateCampaignRequest (ci_CourseID input) (ci_CourseVersionID input)
          (ci_Name input) (ci_Purpose input) (ci_DeadlineDays input)))
        campaignID reservationID now) (\<lambda>(reservations, r, replayed).
     if replayed
     then try_bind (decodeExternalTokenMutationReplay (rv_ResponsePayload r)) (\<lambda>campaign.
          Inr (st\<lparr>st_reservations := reservations\<rparr>, campaign, token))
     else
     try_bind (found_or ErrorNotFound
        (sql_GetCourse (ac_CompanyID actor) (ci_CourseID input) (st_courses st))) (\<lambda>root.
     try_bind (found_or ErrorNotFound
        (sql_GetCourseVersion (ac_CompanyID actor) (ci_CourseVersionID input) (st_versions st))) (\<lambda>versionRow.
     try_bind (check_that (vn_CourseID versionRow = ci_CourseID input) ErrorNotFound) (\<lambda>_.
     try_bind (no_error_or ErrorInternal (Version_Rehydrate versionRow)) (\<lambda>domainVersion.
     try_bind (check_that (CanCreateExternalCampaign actor root domainVersion (ci_Purpose input))
        ErrorForbidden) (\<lambda>_.
     try_bind (no_error_or ErrorValidation (Campaign_New
        \<lparr>np_ID = campaignID, np_CompanyID = ac_CompanyID actor, np_CourseID = ci_CourseID input,
         np_CourseVersionID = ci_CourseVersionID input,
         np_OwnerType = campaign_owner_of (crs_OwnerType root), np_OwnerUserID = crs_OwnerUserID root,
         np_Purpose = ci_Purpose input, np_Name = ci_Name input, np_DeadlineDays = ci_DeadlineDays input,
         np_TokenHash = tokenHash, np_TokenPrefix = tokenPrefix, np_CreatedByID = ac_UserID actor,
         np_CreatedAt = now\<rparr>)) (\<lambda>agg.
     try_bind (found_or ErrorInternal
        (sql_CreateExternalCampaign agg (st_campaigns st))) (\<lambda>(campaigns, row).
     let value = campaignFromRow row in
     try_bind (completeExternalTokenMutationInTx reservations (ac_CompanyID actor) (rv_ID r) value now)
        (\<lambda>reservations.
     Inr (st\<lparr>st_campaigns := campaigns,
             st_history := recordCampaignHistory (ec_CompanyID value) (ec_ID value) ''created'' actor
               None (ec_Status value) None (ec_TokenPrefix value) now (st_history st),
             st_audit := auditCampaign actor ''campaign_created'' None value (st_audit st),
             st_outbox := st_outbox st @ [CampaignCreatedPayload (ec_ID value) (ec_CourseID value)
               (ec_CourseVersionID value) (campaignOwnerTypeToEvent (ec_OwnerType value))
               (ec_OwnerUserID value) (campaignPurposeToEvent (ec_Purpose value)) (ac_UserID actor) now],
             st_reservations := reservations\<rparr>, value, token))))))))))))"

definition GetExternalCampaign ::
  "campaign_store \<Rightarrow> Actor \<Rightarrow> ID \<Rightarrow> ErrorKind + ExternalCampaign" where
  "GetExternalCampaign st actor campaignID =
     try_bind (campaignPartnerScope actor) (\<lambda>partnerID.
     try_bind (found_or ErrorNotFound
        (sql_GetExternalCampaign (ac_CompanyID actor) campaignID partnerID (st_campaigns st))) (\<lambda>row.
     let value = campaignFromRow row in
     if \<not> CanViewExternalCampaign actor (campaignDomainSnapshot value []) then Inl ErrorNotFound
     else Inr value))"

text \<open>The frame of every change of one campaign: \<open>change\<close> is the request's own part, with the
  aggregate and the partner scope; what it returns is the store with its update and the aggregate
  it leaves.\<close>

type_synonym campaign_change =
  "campaign_store \<Rightarrow> campaign \<Rightarrow> time \<Rightarrow> ID option \<Rightarrow> ErrorKind + campaign_store \<times> campaign"

definition changeExternalCampaign ::
  "campaign_store \<Rightarrow> Actor \<Rightarrow> ID \<Rightarrow> string \<Rightarrow> campaign_change \<Rightarrow> time \<Rightarrow>
     ErrorKind + campaign_store \<times> ExternalCampaign" where
  "changeExternalCampaign st actor campaignID action change now =
     try_bind (campaignPartnerScope actor) (\<lambda>partnerID.
     try_bind (found_or ErrorNotFound
        (sql_GetExternalCampaignForUpdate (ac_CompanyID actor) campaignID partnerID (st_campaigns st))) (\<lambda>row.
     try_bind (no_error_or ErrorInternal (Campaign_Rehydrate row)) (\<lambda>before.
     try_bind (check_that (CanManageExternalCampaign actor before) ErrorForbidden) (\<lambda>_.
     try_bind (change st before now partnerID) (\<lambda>(st, afterSnapshot).
     let after = campaignFromSnapshot afterSnapshot in
     Inr (st\<lparr>st_history := recordCampaignHistory (ac_CompanyID actor) campaignID
               (campaignHistoryEventType action) actor (Some (cp_Status before)) (cp_Status afterSnapshot)
               (Some (cp_TokenPrefix before)) (cp_TokenPrefix afterSnapshot) now (st_history st),
             st_audit := auditCampaign actor action (Some (campaignFromSnapshot before)) after (st_audit st),
             st_outbox := st_outbox st @
               (if cp_Status before \<noteq> cp_Status afterSnapshot
                then [CampaignStatusChangedPayload campaignID (ec_CourseID after)
                  (campaignStatusToEvent (cp_Status before)) (campaignStatusToEvent (ec_Status after))
                  (ac_UserID actor) now]
                else [])\<rparr>, after))))))"

definition PauseExternalCampaign ::
  "campaign_store \<Rightarrow> Actor \<Rightarrow> ID \<Rightarrow> time \<Rightarrow> ErrorKind + campaign_store \<times> ExternalCampaign" where
  "PauseExternalCampaign st actor campaignID =
     changeExternalCampaign st actor campaignID ''campaign_paused'' (\<lambda>st agg now partnerID.
       case Campaign_Pause agg now of
         (_, Some err) \<Rightarrow> Inl ErrorConflict
       | (agg, None) \<Rightarrow>
           try_bind (found_or ErrorConflict
              (sql_PauseExternalCampaign now (ac_CompanyID actor) campaignID partnerID (st_campaigns st)))
              (\<lambda>campaigns. Inr (st\<lparr>st_campaigns := campaigns\<rparr>, agg)))"

definition ResumeExternalCampaign ::
  "campaign_store \<Rightarrow> Actor \<Rightarrow> ID \<Rightarrow> time \<Rightarrow> ErrorKind + campaign_store \<times> ExternalCampaign" where
  "ResumeExternalCampaign st actor campaignID =
     changeExternalCampaign st actor campaignID ''campaign_resumed'' (\<lambda>st agg now partnerID.
       try_bind (found_or ErrorConflict
          (sql_GetCourse (ac_CompanyID actor) (cp_CourseID agg) (st_courses st))) (\<lambda>root.
       try_bind (found_or ErrorConflict
          (sql_GetCourseVersion (ac_CompanyID actor) (cp_CourseVersionID agg) (st_versions st)))
          (\<lambda>versionRow.
       try_bind (no_error_or ErrorInternal (Version_Rehydrate versionRow)) (\<lambda>domainVersion.
       case Campaign_Resume agg root domainVersion now of
         (_, Some err) \<Rightarrow> Inl ErrorConflict
       | (agg, None) \<Rightarrow>
           try_bind (found_or ErrorConflict
              (sql_ResumeExternalCampaign now (ac_CompanyID actor) campaignID partnerID (st_courses st)
                (st_versions st) (st_campaigns st)))
              (\<lambda>campaigns. Inr (st\<lparr>st_campaigns := campaigns\<rparr>, agg))))))"

definition RevokeExternalCampaign ::
  "campaign_store \<Rightarrow> Actor \<Rightarrow> ID \<Rightarrow> time \<Rightarrow> ErrorKind + campaign_store \<times> ExternalCampaign" where
  "RevokeExternalCampaign st actor campaignID =
     changeExternalCampaign st actor campaignID ''campaign_revoked'' (\<lambda>st agg now partnerID.
       case Campaign_Revoke agg now of
         (_, Some err) \<Rightarrow> Inl ErrorConflict
       | (agg, None) \<Rightarrow>
           try_bind (found_or ErrorConflict
              (sql_RevokeExternalCampaign now (ac_CompanyID actor) campaignID partnerID (st_campaigns st)))
              (\<lambda>campaigns. Inr (st\<lparr>st_campaigns := campaigns\<rparr>, agg)))"

definition RotateExternalCampaignToken ::
  "service_lib \<Rightarrow> campaign_store \<Rightarrow> Actor \<Rightarrow> ID \<Rightarrow> string \<Rightarrow> ID \<Rightarrow> time \<Rightarrow>
     ErrorKind + campaign_store \<times> ExternalCampaign \<times> string" where
  "RotateExternalCampaignToken lib st actor campaignID idempotencyKey reservationID now =
     try_bind (normalizeExternalTokenKey idempotencyKey) (\<lambda>key.
     try_bind (found_or ErrorInternal
        (idempotentExternalToken lib actor OperationRotateCampaign key)) (\<lambda>(token, tokenHash, tokenPrefix).
     try_bind (campaignPartnerScope actor) (\<lambda>partnerID.
     try_bind (reserveExternalTokenMutationInTx (st_reservations st) actor OperationRotateCampaign key
        (sl_RequestHash lib (RotateCampaignRequest campaignID)) campaignID reservationID now)
        (\<lambda>(reservations, r, replayed).
     if replayed
     then try_bind (decodeExternalTokenMutationReplay (rv_ResponsePayload r)) (\<lambda>campaign.
          Inr (st\<lparr>st_reservations := reservations\<rparr>, campaign, token))
     else
     try_bind (found_or ErrorNotFound
        (sql_GetExternalCampaignForUpdate (ac_CompanyID actor) campaignID partnerID (st_campaigns st))) (\<lambda>row.
     try_bind (no_error_or ErrorInternal (Campaign_Rehydrate row)) (\<lambda>before.
     try_bind (check_that (CanManageExternalCampaign actor before) ErrorForbidden) (\<lambda>_.
     case Campaign_RotateToken before tokenHash tokenPrefix now of
       (_, Some err) \<Rightarrow> Inl ErrorConflict
     | (agg, None) \<Rightarrow>
     try_bind (update_result (sql_RotateExternalCampaignToken tokenHash tokenPrefix now
        (ac_CompanyID actor) campaignID partnerID (st_campaigns st))) (\<lambda>campaigns.
     let after = campaignFromSnapshot agg in
     try_bind (completeExternalTokenMutationInTx reservations (ac_CompanyID actor) (rv_ID r) after now)
        (\<lambda>reservations.
     Inr (st\<lparr>st_campaigns := campaigns,
             st_history := recordCampaignHistory (ac_CompanyID actor) campaignID ''token_rotated'' actor
               (Some (cp_Status before)) (ec_Status after) (Some (cp_TokenPrefix before))
               (ec_TokenPrefix after) now (st_history st),
             st_audit := auditCampaign actor ''campaign_token_rotated''
               (Some (campaignFromSnapshot before)) after (st_audit st),
             st_reservations := reservations\<rparr>, after, token))))))))))"

subsection \<open>Sequences of requests\<close>

text \<open>A request with what its handler reads outside the store: fresh identifiers and the clock.\<close>

datatype campaign_request =
    RequestCreate Actor CreateExternalCampaignInput ID ID time
  | RequestPause Actor ID time
  | RequestResume Actor ID time
  | RequestRevoke Actor ID time
  | RequestRotate Actor ID string ID time

fun request_actor :: "campaign_request \<Rightarrow> Actor" where
  "request_actor (RequestCreate actor _ _ _ _) = actor"
| "request_actor (RequestPause actor _ _) = actor"
| "request_actor (RequestResume actor _ _) = actor"
| "request_actor (RequestRevoke actor _ _) = actor"
| "request_actor (RequestRotate actor _ _ _ _) = actor"

definition committed :: "campaign_store \<Rightarrow> ErrorKind + campaign_store \<times> 'a \<Rightarrow> campaign_store" where
  "committed st r = (case r of Inl _ \<Rightarrow> st | Inr (st', _) \<Rightarrow> st')"

fun serve :: "service_lib \<Rightarrow> campaign_request \<Rightarrow> campaign_store \<Rightarrow> campaign_store" where
  "serve lib (RequestCreate actor input cid rid now) st =
     committed st (CreateExternalCampaign lib st actor input cid rid now)"
| "serve lib (RequestPause actor cid now) st = committed st (PauseExternalCampaign st actor cid now)"
| "serve lib (RequestResume actor cid now) st = committed st (ResumeExternalCampaign st actor cid now)"
| "serve lib (RequestRevoke actor cid now) st = committed st (RevokeExternalCampaign st actor cid now)"
| "serve lib (RequestRotate actor cid key rid now) st =
     committed st (RotateExternalCampaignToken lib st actor cid key rid now)"

end
