(* ===== verification/Campaign_Requests.thy ===== *)
theory Campaign_Requests
  imports Campaign_Service
begin

section \<open>What the campaign requests keep\<close>

text \<open>
  The table of campaigns as the requests may change it, stated without transactions, queries or
  keys; every request of \<^verbatim>\<open>Campaign_Service\<close> is one such step. From it: the store stays
  well-formed, nobody changes a campaign without the right to manage it, the history replays to the
  current row, and a repeated request returns the stored response.
\<close>

subsection \<open>The store\<close>

definition campaign_table_ok :: "campaign list \<Rightarrow> bool" where
  "campaign_table_ok rows \<longleftrightarrow>
     distinct (map cp_ID rows) \<and> distinct (map cp_TokenHash rows) \<and> (\<forall>c\<in>set rows. campaign_valid c)"

definition row_state :: "campaign \<Rightarrow> campaign_status \<times> string" where
  "row_state c = (cp_Status c, cp_TokenPrefix c)"

definition history_before :: "campaign_history \<Rightarrow> (campaign_status \<times> string) option" where
  "history_before h =
     (case (ch_PreviousStatus h, ch_PreviousTokenPrefix h) of
        (Some s, Some p) \<Rightarrow> Some (s, p) | _ \<Rightarrow> None)"

definition history_after :: "campaign_history \<Rightarrow> campaign_status \<times> string" where
  "history_after h = (ch_CurrentStatus h, ch_CurrentTokenPrefix h)"

text \<open>A trail of history rows leads from one state to another when each row starts where the one
  before it ended.\<close>

fun trail :: "(campaign_status \<times> string) option \<Rightarrow> campaign_history list \<Rightarrow>
    (campaign_status \<times> string) option \<Rightarrow> bool" where
  "trail s [] t \<longleftrightarrow> s = t"
| "trail s (h # hs) t \<longleftrightarrow> history_before h = s \<and> trail (Some (history_after h)) hs t"

lemma trail_snoc: "trail s (hs @ [h]) t \<longleftrightarrow> trail s hs (history_before h) \<and> t = Some (history_after h)"
  by (induction hs arbitrary: s) auto

definition history_ok :: "campaign list \<Rightarrow> campaign_history list \<Rightarrow> bool" where
  "history_ok rows history \<longleftrightarrow>
     (\<forall>h\<in>set history. ch_CampaignID h \<in> cp_ID ` set rows) \<and>
     (\<forall>c\<in>set rows. trail None (filter (\<lambda>h. ch_CampaignID h = cp_ID c) history) (Some (row_state c)))"

definition store_ok :: "campaign_store \<Rightarrow> bool" where
  "store_ok st \<longleftrightarrow>
     campaign_table_ok (st_campaigns st) \<and> history_ok (st_campaigns st) (st_history st) \<and>
     reservations_ok (st_reservations st)"

subsection \<open>Steps of the table\<close>

definition update_row :: "ID \<Rightarrow> campaign_cmd \<Rightarrow> campaign list \<Rightarrow> campaign list" where
  "update_row key cmd = map (\<lambda>d. if cp_ID d = key then exec_campaign cmd d else d)"

inductive table_step :: "Actor \<Rightarrow> campaign list \<Rightarrow> campaign list \<Rightarrow> bool" for actor where
  stay: "table_step actor rows rows"
| create: "campaign_valid c \<Longrightarrow> cp_Status c = Campaign_Active \<Longrightarrow> CanManageExternalCampaign actor c \<Longrightarrow>
    cp_ID c \<notin> cp_ID ` set rows \<Longrightarrow> cp_TokenHash c \<notin> cp_TokenHash ` set rows \<Longrightarrow>
    table_step actor rows (rows @ [c])"
| command: "c \<in> set rows \<Longrightarrow> CanManageExternalCampaign actor c \<Longrightarrow>
    distinct (map cp_TokenHash (update_row (cp_ID c) cmd rows)) \<Longrightarrow>
    table_step actor rows (update_row (cp_ID c) cmd rows)"

lemma exec_campaign_ID [simp]: "cp_ID (exec_campaign cmd c) = cp_ID c"
  using exec_campaign_cases[of cmd c] campaign_step_identity[of c "exec_campaign cmd c"]
  by (metis campaign.ext_inject campaign.surjective campaign.update_convs campaign_identity_def)

lemma campaign_identity_fields:
  assumes "campaign_identity d = campaign_identity c"
  shows "cp_ID d = cp_ID c" "cp_CompanyID d = cp_CompanyID c" "cp_OwnerType d = cp_OwnerType c"
    "cp_OwnerUserID d = cp_OwnerUserID c" "cp_Purpose d = cp_Purpose c"
  using assms by (cases c; cases d; simp add: campaign_identity_def)+

lemma CanManage_identity:
  assumes "campaign_valid c" "campaign_valid d" "campaign_identity d = campaign_identity c"
  shows "CanManageExternalCampaign actor d = CanManageExternalCampaign actor c"
  using assms campaign_identity_fields[OF assms(3)]
  by (simp add: CanManageExternalCampaign_def validCampaignTarget_def Campaign_Validate_def
      campaign_valid_rehydrates split: campaign_owner.split)

lemma CanManage_run:
  "campaign_valid c \<Longrightarrow>
     CanManageExternalCampaign actor (fold exec_campaign cmds c) = CanManageExternalCampaign actor c"
  by (rule CanManage_identity) (auto intro: campaign_pin.run_valid simp: campaign_pin.run_pin)

lemma map_ID_update_row [simp]: "map cp_ID (update_row key cmd rows) = map cp_ID rows"
  by (simp add: update_row_def comp_def if_distrib cong: if_cong)

lemma table_step_ok: "table_step actor rows rows' \<Longrightarrow> campaign_table_ok rows \<Longrightarrow> campaign_table_ok rows'"
proof (induction rule: table_step.induct)
  case (command c rows cmd)
  then show ?case
    by (auto simp: campaign_table_ok_def) (auto simp: update_row_def intro: exec_campaign_valid)
qed (auto simp: campaign_table_ok_def)

text \<open>Where a campaign of the table is after a step.\<close>

lemma table_step_follows:
  assumes "table_step actor rows rows'" "campaign_table_ok rows" "c \<in> set rows"
  shows "c \<in> set rows' \<or> CanManageExternalCampaign actor c \<and> (\<exists>cmd. exec_campaign cmd c \<in> set rows')"
  using assms
proof (induction rule: table_step.induct)
  case (command d rows cmd)
  show ?case
  proof (cases "cp_ID c = cp_ID d")
    case True
    with command have "c = d" by (metis campaign_table_ok_def distinct_key)
    with command show ?thesis by (auto simp: update_row_def)
  next
    case False
    with command show ?thesis by (auto simp: update_row_def)
  qed
qed auto

subsection \<open>What a request commits\<close>

definition row_changed :: "campaign_store \<Rightarrow> Actor \<Rightarrow> campaign \<Rightarrow> campaign_cmd \<Rightarrow> campaign_store \<Rightarrow> bool" where
  "row_changed st actor c cmd st' \<longleftrightarrow>
     c \<in> set (st_campaigns st) \<and> CanManageExternalCampaign actor c \<and>
     st_campaigns st' = update_row (cp_ID c) cmd (st_campaigns st) \<and>
     distinct (map cp_TokenHash (st_campaigns st')) \<and>
     (\<exists>h. st_history st' = st_history st @ [h] \<and> ch_CampaignID h = cp_ID c \<and>
        history_before h = Some (row_state c) \<and> history_after h = row_state (exec_campaign cmd c))"

lemma find_scoped:
  assumes "List.find (sql_scoped company key partnerID) rows = Some c"
  shows "c \<in> set rows" "cp_ID c = key" "sql_scoped company key partnerID c"
  using assms by (auto simp: find_Some_iff sql_scoped_def)

lemma same_hashes:
  assumes "distinct (map cp_ID rows)" "c \<in> set rows" "cp_TokenHash (exec_campaign cmd c) = cp_TokenHash c"
  shows "map cp_TokenHash (update_row (cp_ID c) cmd rows) = map cp_TokenHash rows"
proof -
  have "cp_TokenHash (exec_campaign cmd d) = cp_TokenHash d" if "d \<in> set rows" "cp_ID d = cp_ID c" for d
    using assms distinct_key[of cp_ID rows d c] that by simp
  then show ?thesis by (simp add: update_row_def)
qed

lemma change_effect:
  assumes "changeExternalCampaign st actor key action change now = Inr (st', v)"
    and table: "campaign_table_ok (st_campaigns st)"
    and change: "\<And>c partnerID st2 d. change st c now partnerID = Inr (st2, d) \<Longrightarrow>
      c \<in> set (st_campaigns st) \<Longrightarrow> cp_ID c = key \<Longrightarrow>
      st2 = st\<lparr>st_campaigns := update_row key cmd (st_campaigns st)\<rparr> \<and> d = exec_campaign cmd c \<and>
      cp_TokenHash d = cp_TokenHash c"
  shows "\<exists>c. cp_ID c = key \<and> row_changed st actor c cmd st' \<and> v = campaignFromSnapshot (exec_campaign cmd c) \<and>
      st_reservations st' = st_reservations st \<and> st_courses st' = st_courses st \<and>
      st_versions st' = st_versions st"
proof -
  from assms(1) obtain partnerID c where c: "c \<in> set (st_campaigns st)" "cp_ID c = key"
    and re: "Campaign_Rehydrate c = Inr c" and manage: "CanManageExternalCampaign actor c"
    and rest: "\<exists>st2 d. change st c now partnerID = Inr (st2, d) \<and>
      st' = st2\<lparr>st_history := recordCampaignHistory (ac_CompanyID actor) key
          (campaignHistoryEventType action) actor (Some (cp_Status c)) (cp_Status d)
          (Some (cp_TokenPrefix c)) (cp_TokenPrefix d) now (st_history st2),
        st_audit := st_audit st', st_outbox := st_outbox st'\<rparr> \<and> v = campaignFromSnapshot d"
    using table
    by (fastforce simp: changeExternalCampaign_def result_iffs sql_GetExternalCampaignForUpdate_def Let_def
        campaign_table_ok_def campaign_valid_rehydrates dest: find_scoped split: prod.splits)
  then obtain st2 d where d: "change st c now partnerID = Inr (st2, d)" and
    st': "st' = st2\<lparr>st_history := recordCampaignHistory (ac_CompanyID actor) key
          (campaignHistoryEventType action) actor (Some (cp_Status c)) (cp_Status d)
          (Some (cp_TokenPrefix c)) (cp_TokenPrefix d) now (st_history st2),
        st_audit := st_audit st', st_outbox := st_outbox st'\<rparr>" "v = campaignFromSnapshot d" by blast
  note eff = change[OF d c]
  have "map cp_TokenHash (update_row (cp_ID c) cmd (st_campaigns st)) = map cp_TokenHash (st_campaigns st)"
    using eff c table by (intro same_hashes) (auto simp: campaign_table_ok_def)
  then have "row_changed st actor c cmd st'"
    using eff c manage table
    by (subst st'(1)) (simp add: row_changed_def recordCampaignHistory_def history_before_def
        history_after_def row_state_def campaign_table_ok_def)
  moreover have "st_reservations st' = st_reservations st2" by (subst st'(1)) simp
  moreover have "st_courses st' = st_courses st2" by (subst st'(1)) simp
  moreover have "st_versions st' = st_versions st2" by (subst st'(1)) simp
  ultimately show ?thesis using c eff st'(2) by auto
qed

text \<open>The SQL update of the row the handler holds is the aggregate's own change.\<close>

lemma row_update:
  assumes "sql_update hit f rows = Some rows'" "campaign_table_ok rows" "c \<in> set rows"
    and "\<And>r. hit r \<Longrightarrow> cp_ID r = cp_ID c" "f c = exec_campaign cmd c"
  shows "rows' = update_row (cp_ID c) cmd rows"
  using sql_update_key[OF assms(1) _ assms(3), of cp_ID "exec_campaign cmd"] assms
  by (simp add: campaign_table_ok_def update_row_def)

definition request_effect ::
  "campaign_store \<Rightarrow> Actor \<Rightarrow> ID \<Rightarrow> campaign_cmd \<Rightarrow> campaign_store \<Rightarrow> ExternalCampaign \<Rightarrow> bool" where
  "request_effect st actor key cmd st' v \<longleftrightarrow>
     (\<exists>c. cp_ID c = key \<and> row_changed st actor c cmd st' \<and> v = campaignFromSnapshot (exec_campaign cmd c) \<and>
        st_reservations st' = st_reservations st \<and> st_courses st' = st_courses st \<and>
        st_versions st' = st_versions st)"

lemma Pause_effect:
  assumes "PauseExternalCampaign st actor key now = Inr (st', v)" "campaign_table_ok (st_campaigns st)"
  shows "request_effect st actor key (Cmd_Pause now) st' v"
  unfolding request_effect_def
proof (rule change_effect[OF assms(1)[unfolded PauseExternalCampaign_def] assms(2)], goal_cases)
  case (1 c partnerID st2 d)
  then obtain rows where pause: "Campaign_Pause c now = (d, None)"
    and rows: "sql_PauseExternalCampaign now (ac_CompanyID actor) key partnerID (st_campaigns st) = Some rows"
    and st2: "st2 = st\<lparr>st_campaigns := rows\<rparr>"
    by (auto simp: result_iffs)
  have d: "d = c\<lparr>cp_Status := Campaign_Paused, cp_PausedAt := Some now, cp_UpdatedAt := now\<rparr>"
    using pause by (auto simp: Campaign_Pause_def split: campaign_status.splits option.splits)
  have "rows = update_row (cp_ID c) (Cmd_Pause now) (st_campaigns st)"
    by (rule row_update[OF rows[unfolded sql_PauseExternalCampaign_def] assms(2)])
      (use 1 pause d in \<open>auto simp: sql_scoped_def\<close>)
  with 1 pause d st2 show ?case by simp
qed

lemma Resume_effect:
  assumes "ResumeExternalCampaign st actor key now = Inr (st', v)" "campaign_table_ok (st_campaigns st)"
  shows "\<exists>root version. request_effect st actor key (Cmd_Resume root version now) st' v"
proof -
  obtain c where c: "c \<in> set (st_campaigns st)" "cp_ID c = key"
    using assms(1) by (auto simp: ResumeExternalCampaign_def changeExternalCampaign_def result_iffs
        sql_GetExternalCampaignForUpdate_def dest: find_scoped)
  let ?root = "the (sql_GetCourse (ac_CompanyID actor) (cp_CourseID c) (st_courses st))"
  let ?version = "projr (Version_Rehydrate
      (the (sql_GetCourseVersion (ac_CompanyID actor) (cp_CourseVersionID c) (st_versions st))))"
  have "request_effect st actor key (Cmd_Resume ?root ?version now) st' v"
    unfolding request_effect_def
  proof (rule change_effect[OF assms(1)[unfolded ResumeExternalCampaign_def] assms(2)], goal_cases)
    case (1 c' partnerID st2 d)
    then have "c' = c" using c assms(2) unfolding campaign_table_ok_def by (metis distinct_key)
    with 1 obtain rows where resume: "Campaign_Resume c ?root ?version now = (d, None)"
      and rows: "sql_ResumeExternalCampaign now (ac_CompanyID actor) key partnerID (st_courses st)
        (st_versions st) (st_campaigns st) = Some rows"
      and st2: "st2 = st\<lparr>st_campaigns := rows\<rparr>"
      by (auto simp: result_iffs)
    have d: "d = c\<lparr>cp_Status := Campaign_Active, cp_PausedAt := None, cp_UpdatedAt := now\<rparr>"
      using resume by (auto simp: Campaign_Resume_def split: campaign_status.splits option.splits)
    have "rows = update_row (cp_ID c) (Cmd_Resume ?root ?version now) (st_campaigns st)"
      by (rule row_update[OF rows[unfolded sql_ResumeExternalCampaign_def] assms(2)])
        (use c resume d in \<open>auto simp: sql_scoped_def\<close>)
    with c \<open>c' = c\<close> resume d st2 show ?case by simp
  qed
  then show ?thesis by blast
qed

lemma Revoke_effect:
  assumes "RevokeExternalCampaign st actor key now = Inr (st', v)" "campaign_table_ok (st_campaigns st)"
  shows "request_effect st actor key (Cmd_Revoke now) st' v"
  unfolding request_effect_def
proof (rule change_effect[OF assms(1)[unfolded RevokeExternalCampaign_def] assms(2)], goal_cases)
  case (1 c partnerID st2 d)
  then obtain rows where revoke: "Campaign_Revoke c now = (d, None)"
    and rows: "sql_RevokeExternalCampaign now (ac_CompanyID actor) key partnerID (st_campaigns st) = Some rows"
    and st2: "st2 = st\<lparr>st_campaigns := rows\<rparr>"
    by (auto simp: result_iffs)
  have "cp_Status c = Campaign_Active \<or> cp_Status c = Campaign_Paused"
    using sql_update_hit[OF rows[unfolded sql_RevokeExternalCampaign_def], of cp_ID c] 1 assms(2)
    by (auto simp: campaign_table_ok_def sql_scoped_def)
  then have d: "d = c\<lparr>cp_Status := Campaign_Revoked, cp_PausedAt := None, cp_RevokedAt := Some now, cp_UpdatedAt := now\<rparr>"
    using revoke by (auto simp: Campaign_Revoke_def split: if_splits option.splits)
  have "rows = update_row (cp_ID c) (Cmd_Revoke now) (st_campaigns st)"
    by (rule row_update[OF rows[unfolded sql_RevokeExternalCampaign_def] assms(2)])
      (use 1 revoke d in \<open>auto simp: sql_scoped_def\<close>)
  with 1 revoke d st2 show ?case by simp
qed

lemma distinct_hash_update:
  assumes "distinct (map cp_ID rows)" "distinct (map cp_TokenHash rows)" "c \<in> set rows"
    and "\<And>d. d \<in> set rows \<Longrightarrow> cp_ID d \<noteq> cp_ID c \<Longrightarrow> cp_TokenHash d \<noteq> cp_TokenHash (exec_campaign cmd c)"
  shows "distinct (map cp_TokenHash (update_row (cp_ID c) cmd rows))"
proof -
  let ?g = "\<lambda>d. if cp_ID d = cp_ID c then exec_campaign cmd d else d"
  have same: "d = c" if "d \<in> set rows" "cp_ID d = cp_ID c" for d
    using distinct_key[OF assms(1) that(1) assms(3) that(2)] .
  have "inj_on (\<lambda>d. cp_TokenHash (?g d)) (set rows)"
  proof (rule inj_onI)
    fix x y assume xy: "x \<in> set rows" "y \<in> set rows" "cp_TokenHash (?g x) = cp_TokenHash (?g y)"
    show "x = y"
    proof (cases "cp_ID x = cp_ID c"; cases "cp_ID y = cp_ID c")
      assume "cp_ID x \<noteq> cp_ID c" "cp_ID y \<noteq> cp_ID c"
      then show ?thesis using xy distinct_key[OF assms(2) xy(1,2)] by simp
    qed (use xy same assms(4) in \<open>auto, metis+\<close>)
  qed
  with assms(1) show ?thesis by (auto simp: update_row_def distinct_map comp_def)
qed

definition new_reservation ::
  "campaign_store \<Rightarrow> Actor \<Rightarrow> token_operation \<Rightarrow> string \<Rightarrow> string \<Rightarrow> ID \<Rightarrow> ExternalCampaign \<Rightarrow> campaign_store \<Rightarrow> bool" where
  "new_reservation st actor operation key requestHash rid v st' \<longleftrightarrow>
     (\<exists>r. st_reservations st' = st_reservations st @ [r] \<and> rv_RequestHash r = requestHash \<and>
        rv_ResponsePayload r = Some v \<and> rv_CompletedAt r \<noteq> None \<and>
        reservation_key r = (ac_CompanyID actor, ac_UserID actor, operation, key) \<and> rv_ID r = rid \<and>
        rid \<notin> rv_ID ` set (st_reservations st) \<and>
        reservation_key r \<notin> reservation_key ` set (st_reservations st))"

definition reservations_grow :: "campaign_store \<Rightarrow> campaign_store \<Rightarrow> bool" where
  "reservations_grow st st' \<longleftrightarrow>
     reservations_ok (st_reservations st') \<and> prefix (st_reservations st) (st_reservations st')"

lemma new_reservation_grows:
  "new_reservation st actor operation key requestHash rid v st' \<Longrightarrow> reservations_ok (st_reservations st) \<Longrightarrow>
     reservations_grow st st'"
  unfolding new_reservation_def reservations_grow_def by (metis option.distinct(1) prefixI reservations_ok_snoc)

lemma Rotate_effect:
  assumes "RotateExternalCampaignToken lib st actor key ikey rid now = Inr (st', v, token)" and ok: "store_ok st"
  shows "st' = st \<or>
    (\<exists>c h p k. cp_ID c = key \<and> row_changed st actor c (Cmd_Rotate h p now) st' \<and>
       v = campaignFromSnapshot (exec_campaign (Cmd_Rotate h p now) c) \<and>
       st_courses st' = st_courses st \<and> st_versions st' = st_versions st \<and>
       new_reservation st actor OperationRotateCampaign k (sl_RequestHash lib (RotateCampaignRequest key)) rid v st')"
  using assms(1) unfolding RotateExternalCampaignToken_def
proof (elim try_bindE pair_InrE, goal_cases)
  case (1 k t tok tp h p partnerID x rs y r replayed)
  then have k: "normalizeEnrollmentIdempotencyKey k = Inr k" by (auto dest: normalize_idem)
  have reserve: "reserveExternalTokenMutationInTx (st_reservations st) actor OperationRotateCampaign k
        (sl_RequestHash lib (RotateCampaignRequest key)) key rid now = Inr (rs, r, replayed)"
    using 1 by simp
  show ?case
  proof (cases replayed)
    case True
    with reserve k have "rs = st_reservations st" by (simp add: reserve_replayed(1))
    with 1 True show ?thesis by (auto simp: result_iffs)
  next
    case False
    with 1 have "try_bind (found_or ErrorNotFound
        (sql_GetExternalCampaignForUpdate (ac_CompanyID actor) key partnerID (st_campaigns st))) (\<lambda>row.
     try_bind (no_error_or ErrorInternal (Campaign_Rehydrate row)) (\<lambda>before.
     try_bind (check_that (CanManageExternalCampaign actor before) ErrorForbidden) (\<lambda>_.
     case Campaign_RotateToken before h p now of
       (_, Some err) \<Rightarrow> Inl ErrorConflict
     | (agg, None) \<Rightarrow>
     try_bind (update_result (sql_RotateExternalCampaignToken h p now
        (ac_CompanyID actor) key partnerID (st_campaigns st))) (\<lambda>campaigns.
     let after = campaignFromSnapshot agg in
     try_bind (completeExternalTokenMutationInTx rs (ac_CompanyID actor) (rv_ID r) after now)
        (\<lambda>reservations.
     Inr (st\<lparr>st_campaigns := campaigns,
             st_history := recordCampaignHistory (ac_CompanyID actor) key ''token_rotated'' actor
               (Some (cp_Status before)) (ec_Status after) (Some (cp_TokenPrefix before))
               (ec_TokenPrefix after) now (st_history st),
             st_audit := auditCampaign actor ''campaign_token_rotated''
               (Some (campaignFromSnapshot before)) after (st_audit st),
             st_reservations := reservations\<rparr>, after, tok)))))) = Inr (st', v, token)"
      by simp
    then show ?thesis
    proof (elim try_bindE method_InrE, unfold Let_def, elim try_bindE, goal_cases)
      case (1 c before u d rows rs')
      have table: "campaign_table_ok (st_campaigns st)" using ok by (simp add: store_ok_def)
      have sel: "sql_GetExternalCampaignForUpdate (ac_CompanyID actor) key partnerID (st_campaigns st) = Some c"
        using 1 by (simp add: found_or_Inr)
      note c = find_scoped(1,2)[OF sel[unfolded sql_GetExternalCampaignForUpdate_def]]
      have before: "before = c"
        using 1 c table by (simp add: no_error_or_Inr campaign_table_ok_def campaign_valid_rehydrates)
      have rotate: "Campaign_RotateToken c h p now = (d, None)" using 1 before by simp
      then have d: "d = c\<lparr>cp_TokenHash := h, cp_TokenPrefix := p, cp_TokenRotatedAt := Some now, cp_UpdatedAt := now\<rparr>"
        by (auto simp: Campaign_RotateToken_def split: if_splits option.splits)
      let ?hit = "\<lambda>row. sql_scoped (ac_CompanyID actor) key partnerID row \<and>
          (cp_Status row = Campaign_Active \<or> cp_Status row = Campaign_Paused)"
      have upd: "sql_update ?hit (\<lambda>row. row\<lparr>cp_TokenHash := h, cp_TokenPrefix := p,
            cp_TokenRotatedAt := Some now, cp_UpdatedAt := now\<rparr>) (st_campaigns st) = Some rows"
        and free: "\<And>row. row \<in> set (st_campaigns st) \<Longrightarrow> \<not> ?hit row \<Longrightarrow> cp_TokenHash row \<noteq> h"
        using 1 by (auto simp: update_result_Inr sql_RotateExternalCampaignToken_def Let_def list_ex_iff
            split: option.splits if_splits)
      have "rows = update_row (cp_ID c) (Cmd_Rotate h p now) (st_campaigns st)"
        by (rule row_update[OF upd table c(1)]) (use c rotate d in \<open>auto simp: sql_scoped_def\<close>)
      moreover have "distinct (map cp_TokenHash (update_row (cp_ID c) (Cmd_Rotate h p now) (st_campaigns st)))"
        using table c free d rotate
        by (intro distinct_hash_update) (auto simp: campaign_table_ok_def sql_scoped_def)
      moreover have "v = campaignFromSnapshot d" using 1 by simp
      ultimately have "row_changed st actor c (Cmd_Rotate h p now) st'"
        using 1 c before rotate d
        by (auto simp: row_changed_def recordCampaignHistory_def history_before_def history_after_def
            row_state_def campaignFromSnapshot_def check_that_Inr)
      moreover have "new_reservation st actor OperationRotateCampaign k
          (sl_RequestHash lib (RotateCampaignRequest key)) rid v st'"
        using reserve_fresh[of _ _ _ _ _ key rid now rs r "campaignFromSnapshot d" rs'] reserve False k ok 1
        unfolding new_reservation_def store_ok_def by fastforce
      moreover have "v = campaignFromSnapshot (exec_campaign (Cmd_Rotate h p now) c)"
        "st_courses st' = st_courses st" "st_versions st' = st_versions st"
        using 1 rotate by auto
      ultimately show ?case using c(2) by blast
    qed
  qed
qed

text \<open>A campaign as \<^verbatim>\<open>New\<close> leaves it is what the insertion stores.\<close>

lemma New_row:
  assumes "Campaign_New params = Inr c" "sql_CreateExternalCampaign c rows = Some (rows', row)"
  shows "row = c" "rows' = rows @ [c]" "cp_ID c \<notin> cp_ID ` set rows" "cp_TokenHash c \<notin> cp_TokenHash ` set rows"
proof -
  have "cp_Status c = Campaign_Active" "cp_PausedAt c = None" "cp_TokenRotatedAt c = None"
    "cp_RevokedAt c = None" "cp_ClosedAt c = None" "cp_UpdatedAt c = cp_CreatedAt c"
    using assms(1) by (auto simp: Campaign_New_def Campaign_Rehydrate_iff)
  then show "row = c" "rows' = rows @ [c]" "cp_ID c \<notin> cp_ID ` set rows" "cp_TokenHash c \<notin> cp_TokenHash ` set rows"
    using assms(2) by (auto simp: sql_CreateExternalCampaign_def Let_def split: if_splits)
qed

lemma New_manageable:
  assumes "Campaign_New
        \<lparr>np_ID = cid, np_CompanyID = ac_CompanyID actor, np_CourseID = crs, np_CourseVersionID = ver,
         np_OwnerType = campaign_owner_of (crs_OwnerType root), np_OwnerUserID = crs_OwnerUserID root,
         np_Purpose = purpose, np_Name = name, np_DeadlineDays = days,
         np_TokenHash = h, np_TokenPrefix = p, np_CreatedByID = ac_UserID actor, np_CreatedAt = now\<rparr> = Inr c"
    and "CanCreateExternalCampaign actor root version purpose"
  shows "campaign_valid c" "cp_Status c = Campaign_Active" "CanManageExternalCampaign actor c"
    "cp_CompanyID c = ac_CompanyID actor" "cp_ID c = cid" "cp_CourseID c = crs" "cp_CourseVersionID c = ver"
    "cp_OwnerType c = campaign_owner_of (crs_OwnerType root)" "cp_OwnerUserID c = crs_OwnerUserID root"
    "cp_TokenHash c = h" "cp_TokenPrefix c = p"
proof -
  show valid: "campaign_valid c" using assms(1) by (auto simp: Campaign_New_def intro: Campaign_Rehydrate_valid)
  show fields: "cp_Status c = Campaign_Active" "cp_CompanyID c = ac_CompanyID actor" "cp_ID c = cid"
    "cp_CourseID c = crs" "cp_CourseVersionID c = ver"
    "cp_OwnerType c = campaign_owner_of (crs_OwnerType root)" "cp_OwnerUserID c = crs_OwnerUserID root"
    "cp_TokenHash c = h" "cp_TokenPrefix c = p"
    using assms(1) by (auto simp: Campaign_New_def Campaign_Rehydrate_iff)
  have purpose: "cp_Purpose c = purpose"
    using assms(1) by (auto simp: Campaign_New_def Campaign_Rehydrate_iff)
  have "validActor actor" using assms(2) by (auto simp: CanCreateExternalCampaign_def validTarget_def split: if_splits)
  then show "CanManageExternalCampaign actor c"
    using assms(2) valid fields(2,6,7) purpose
    by (auto simp: CanCreateExternalCampaign_def CanManageExternalCampaign_def validCampaignTarget_def
        Campaign_Validate_def campaign_valid_rehydrates isOwnedPartnerCourse_def campaign_owner_of_def
        split: Purpose.splits if_splits option.splits)
qed

definition campaign_created ::
  "campaign_store \<Rightarrow> Actor \<Rightarrow> CreateExternalCampaignInput \<Rightarrow> campaign \<Rightarrow> course \<Rightarrow> course_version \<Rightarrow>
     campaign_store \<Rightarrow> bool" where
  "campaign_created st actor input c root ver st' \<longleftrightarrow>
     st_campaigns st' = st_campaigns st @ [c] \<and> cp_ID c \<notin> cp_ID ` set (st_campaigns st) \<and>
     cp_TokenHash c \<notin> cp_TokenHash ` set (st_campaigns st) \<and> campaign_valid c \<and>
     cp_Status c = Campaign_Active \<and> CanManageExternalCampaign actor c \<and>
     (\<exists>h. st_history st' = st_history st @ [h] \<and> ch_CampaignID h = cp_ID c \<and>
        history_before h = None \<and> history_after h = row_state c) \<and>
     sql_GetCourse (ac_CompanyID actor) (ci_CourseID input) (st_courses st) = Some root \<and>
     sql_GetCourseVersion (ac_CompanyID actor) (ci_CourseVersionID input) (st_versions st) = Some ver \<and>
     CanCreateExternalCampaign actor root ver (ci_Purpose input) \<and>
     cp_CompanyID c = ac_CompanyID actor \<and> cp_CourseID c = ci_CourseID input \<and>
     cp_CourseVersionID c = ci_CourseVersionID input \<and> vn_CourseID ver = ci_CourseID input \<and>
     cp_OwnerType c = campaign_owner_of (crs_OwnerType root) \<and> cp_OwnerUserID c = crs_OwnerUserID root \<and>
     validateVersion ver = None"

abbreviation create_request :: "CreateExternalCampaignInput \<Rightarrow> token_request" where
  "create_request input \<equiv> CreateCampaignRequest (ci_CourseID input) (ci_CourseVersionID input)
     (ci_Name input) (ci_Purpose input) (ci_DeadlineDays input)"

lemma Version_Rehydrate_Inr: "Version_Rehydrate v = Inr w \<Longrightarrow> w = v \<and> validateVersion v = None"
  by (auto simp: Version_Rehydrate_def split: option.splits)

lemma Create_effect:
  assumes "CreateExternalCampaign lib st actor input cid rid now = Inr (st', v, token)" and ok: "store_ok st"
  shows "\<exists>k h p. normalizeEnrollmentIdempotencyKey (ci_IdempotencyKey input) = Inr k \<and>
    idempotentExternalToken lib actor OperationCreateCampaign k = Some (token, h, p) \<and>
    (st' = st \<or>
      (\<exists>c root ver. campaign_created st actor input c root ver st' \<and> v = campaignFromSnapshot c \<and>
         cp_TokenHash c = h \<and> cp_TokenPrefix c = p \<and>
         st_courses st' = st_courses st \<and> st_versions st' = st_versions st \<and>
         new_reservation st actor OperationCreateCampaign k (sl_RequestHash lib (create_request input)) rid v st'))"
  using assms(1) unfolding CreateExternalCampaign_def
proof (elim try_bindE pair_InrE, goal_cases)
  case (1 k t tok tp h p x rs y r replayed)
  then have k: "normalizeEnrollmentIdempotencyKey k = Inr k" by (auto dest: normalize_idem)
  have reserve: "reserveExternalTokenMutationInTx (st_reservations st) actor OperationCreateCampaign k
        (sl_RequestHash lib (create_request input)) cid rid now = Inr (rs, r, replayed)"
    using 1 by simp
  have key: "normalizeEnrollmentIdempotencyKey (ci_IdempotencyKey input) = Inr k"
    "idempotentExternalToken lib actor OperationCreateCampaign k = Some (tok, h, p)"
    using 1 by (auto simp: found_or_Inr)
  show ?case
  proof (cases replayed)
    case True
    with reserve k have "rs = st_reservations st" by (simp add: reserve_replayed(1))
    with 1(8) True have "st' = st" "token = tok" by (auto simp: result_iffs)
    with key show ?thesis by blast
  next
    case False
    with 1(8) show ?thesis
    proof (simp only: if_False simp_thms, elim try_bindE pair_InrE, unfold Let_def, elim try_bindE, goal_cases)
      case (1 root vrow u ver u2 c pr rows row rs')
      have ver: "ver = vrow" "validateVersion vrow = None"
        using 1 Version_Rehydrate_Inr by (auto simp: no_error_or_Inr)
      have new: "Campaign_New
        \<lparr>np_ID = cid, np_CompanyID = ac_CompanyID actor, np_CourseID = ci_CourseID input,
         np_CourseVersionID = ci_CourseVersionID input,
         np_OwnerType = campaign_owner_of (crs_OwnerType root), np_OwnerUserID = crs_OwnerUserID root,
         np_Purpose = ci_Purpose input, np_Name = ci_Name input, np_DeadlineDays = ci_DeadlineDays input,
         np_TokenHash = h, np_TokenPrefix = p, np_CreatedByID = ac_UserID actor,
         np_CreatedAt = now\<rparr> = Inr c"
        using 1 by (simp add: no_error_or_Inr)
      have can: "CanCreateExternalCampaign actor root ver (ci_Purpose input)"
        using 1 by (simp add: check_that_Inr)
      note fields = New_manageable[OF new can]
      note stored = New_row[OF new, of "st_campaigns st" rows row]
      have insert: "sql_CreateExternalCampaign c (st_campaigns st) = Some (rows, row)"
        using 1 by (simp add: found_or_Inr)
      have shown: "campaignFromRow row = campaignFromSnapshot c"
        using stored(1)[OF insert] by (simp add: campaignFromRow_def campaignFromSnapshot_def)
      have "campaign_created st actor input c root ver st'"
        using 1 ver fields stored[OF insert] can shown
        by (auto simp: campaign_created_def found_or_Inr check_that_Inr recordCampaignHistory_def
            history_before_def history_after_def row_state_def campaignFromSnapshot_def)
      moreover have "new_reservation st actor OperationCreateCampaign k
          (sl_RequestHash lib (create_request input)) rid v st'"
        using reserve_fresh[of _ _ _ _ _ cid rid now rs r "campaignFromSnapshot c" rs'] reserve False k ok 1 shown
        unfolding new_reservation_def store_ok_def by fastforce
      moreover have "v = campaignFromSnapshot c" "token = tok" "st_courses st' = st_courses st"
        "st_versions st' = st_versions st"
        using 1 shown by auto
      ultimately show ?case using key fields(10,11) by blast
    qed
  qed
qed

subsection \<open>The store stays well-formed\<close>

lemma row_changed_ok:
  assumes "row_changed st actor c cmd st'" "store_ok st" "reservations_ok (st_reservations st')"
  shows "store_ok st'"
proof -
  have table: "campaign_table_ok (st_campaigns st)" and hist: "history_ok (st_campaigns st) (st_history st)"
    using assms(2) by (simp_all add: store_ok_def)
  from assms(1) obtain h where c: "c \<in> set (st_campaigns st)"
    and rows: "st_campaigns st' = update_row (cp_ID c) cmd (st_campaigns st)"
    and h: "st_history st' = st_history st @ [h]" "ch_CampaignID h = cp_ID c"
      "history_before h = Some (row_state c)" "history_after h = row_state (exec_campaign cmd c)"
    unfolding row_changed_def by blast
  have step: "table_step actor (st_campaigns st) (st_campaigns st')"
    using assms(1) unfolding row_changed_def by (metis table_step.command)
  have ids: "cp_ID ` set (st_campaigns st') = cp_ID ` set (st_campaigns st)"
    unfolding rows by (metis list.set_map map_ID_update_row)
  have "trail None (filter (\<lambda>h. ch_CampaignID h = cp_ID d) (st_history st')) (Some (row_state d))"
    if "d \<in> set (st_campaigns st')" for d
  proof -
    from that rows obtain e where e: "e \<in> set (st_campaigns st)"
      "d = (if cp_ID e = cp_ID c then exec_campaign cmd e else e)" by (auto simp: update_row_def)
    have old: "trail None (filter (\<lambda>h. ch_CampaignID h = cp_ID e) (st_history st)) (Some (row_state e))"
      using hist e(1) by (simp add: history_ok_def)
    show ?thesis
    proof (cases "cp_ID e = cp_ID c")
      case True
      with table c e(1) have "e = c" unfolding campaign_table_ok_def by (metis distinct_key)
      with e(2) old h show ?thesis by (simp add: trail_snoc)
    next
      case False
      with e(2) old h show ?thesis by simp
    qed
  qed
  moreover have "\<forall>k\<in>set (st_history st'). ch_CampaignID k \<in> cp_ID ` set (st_campaigns st')"
    using hist h c by (auto simp: ids history_ok_def)
  ultimately show ?thesis
    using table_step_ok[OF step table] assms(3) by (simp add: store_ok_def history_ok_def)
qed

lemma campaign_created_ok:
  assumes "campaign_created st actor input c root ver st'" "store_ok st" "reservations_ok (st_reservations st')"
  shows "store_ok st'"
proof -
  have table: "campaign_table_ok (st_campaigns st)" and hist: "history_ok (st_campaigns st) (st_history st)"
    using assms(2) by (simp_all add: store_ok_def)
  from assms(1) obtain h where rows: "st_campaigns st' = st_campaigns st @ [c]"
    and new: "cp_ID c \<notin> cp_ID ` set (st_campaigns st)"
    and h: "st_history st' = st_history st @ [h]" "ch_CampaignID h = cp_ID c" "history_before h = None"
      "history_after h = row_state c"
    unfolding campaign_created_def by blast
  have step: "table_step actor (st_campaigns st) (st_campaigns st')"
    using assms(1) unfolding campaign_created_def by (metis table_step.create)
  have "ch_CampaignID k \<noteq> cp_ID c" if "k \<in> set (st_history st)" for k
    using that hist new unfolding history_ok_def by metis
  then have "filter (\<lambda>k. ch_CampaignID k = cp_ID c) (st_history st) = []" by (simp add: filter_empty_conv)
  then have "history_ok (st_campaigns st') (st_history st')"
    using hist rows h new by (auto simp: history_ok_def)
  then show ?thesis using table_step_ok[OF step table] assms(3) by (simp add: store_ok_def)
qed

text \<open>A request leaves the store, changes one row, or creates one.\<close>

lemma committed_cases:
  "committed st r = st \<or> (\<exists>st' v. r = Inr (st', v) \<and> committed st r = st')"
  by (cases r) (auto simp: committed_def)

lemma serve_cases:
  assumes "store_ok st" and "serve lib req st \<noteq> st"
  obtains
    (changed) c cmd where "row_changed st (request_actor req) c cmd (serve lib req st)"
      "reservations_grow st (serve lib req st)"
  | (created) input c root ver where "campaign_created st (request_actor req) input c root ver (serve lib req st)"
      "reservations_grow st (serve lib req st)"
proof -
  have table: "campaign_table_ok (st_campaigns st)" and res: "reservations_ok (st_reservations st)"
    using assms(1) by (simp_all add: store_ok_def)
  have effect: thesis if "request_effect st (request_actor req) key cmd (serve lib req st) v" for key cmd v
    using that res changed unfolding request_effect_def reservations_grow_def by (metis prefix_order.refl)
  show thesis
  proof (cases req)
    case (RequestCreate actor input cid rid now)
    with assms(2) obtain st' v token where
      "CreateExternalCampaign lib st actor input cid rid now = Inr (st', v, token)" and st': "serve lib req st = st'"
      using committed_cases[of st "CreateExternalCampaign lib st actor input cid rid now"] by fastforce
    from Create_effect[OF this(1) assms(1)] assms(2) st' res show thesis
      using created RequestCreate new_reservation_grows by (metis request_actor.simps(1))
  next
    case (RequestPause actor key now)
    with assms(2) obtain v where "PauseExternalCampaign st actor key now = Inr (serve lib req st, v)"
      using committed_cases[of st "PauseExternalCampaign st actor key now"] by fastforce
    from Pause_effect[OF this table] RequestPause show thesis by (intro effect) simp
  next
    case (RequestResume actor key now)
    with assms(2) obtain v where "ResumeExternalCampaign st actor key now = Inr (serve lib req st, v)"
      using committed_cases[of st "ResumeExternalCampaign st actor key now"] by fastforce
    from Resume_effect[OF this table] RequestResume show thesis by (metis effect request_actor.simps(3))
  next
    case (RequestRevoke actor key now)
    with assms(2) obtain v where "RevokeExternalCampaign st actor key now = Inr (serve lib req st, v)"
      using committed_cases[of st "RevokeExternalCampaign st actor key now"] by fastforce
    from Revoke_effect[OF this table] RequestRevoke show thesis by (intro effect) simp
  next
    case (RequestRotate actor key ikey rid now)
    with assms(2) obtain st' v token where
      "RotateExternalCampaignToken lib st actor key ikey rid now = Inr (st', v, token)" and st': "serve lib req st = st'"
      using committed_cases[of st "RotateExternalCampaignToken lib st actor key ikey rid now"] by fastforce
    from Rotate_effect[OF this(1) assms(1)] assms(2) st' res show thesis
      using changed RequestRotate new_reservation_grows by (metis request_actor.simps(5))
  qed
qed

lemma serve_ok:
  assumes "store_ok st" shows "store_ok (serve lib req st)"
proof (cases "serve lib req st = st")
  case False
  from assms this show ?thesis
    by (cases rule: serve_cases) (use assms in \<open>auto simp: reservations_grow_def intro: row_changed_ok campaign_created_ok\<close>)
qed (simp add: assms)

text \<open>The requests refine the steps of the table.\<close>

lemma serve_table_step:
  assumes "store_ok st"
  shows "table_step (request_actor req) (st_campaigns st) (st_campaigns (serve lib req st))"
proof (cases "serve lib req st = st")
  case False
  from assms this show ?thesis
  proof (cases rule: serve_cases)
    case (changed c cmd)
    then show ?thesis unfolding row_changed_def by (metis table_step.command)
  next
    case (created input c root ver)
    then show ?thesis unfolding campaign_created_def by (metis table_step.create)
  qed
qed (simp add: table_step.stay)

definition store_below :: "campaign_store \<Rightarrow> campaign_store \<Rightarrow> bool" where
  "store_below st st' \<longleftrightarrow>
     prefix (st_reservations st) (st_reservations st') \<and> prefix (st_history st) (st_history st')"

lemma serve_below: "store_ok st \<Longrightarrow> store_below st (serve lib req st)"
  by (cases "serve lib req st = st")
    (auto simp: store_below_def reservations_grow_def row_changed_def campaign_created_def elim!: serve_cases)

interpretation requests: growing_aggregate store_ok "serve lib" store_below for lib
  by unfold_locales
    (auto simp: store_below_def serve_ok serve_below[unfolded store_below_def] intro: prefix_order.trans)

text \<open>A campaign follows the commands of the requests by those who may manage it.\<close>

lemma campaign_follows:
  assumes "store_ok st" "c \<in> set (st_campaigns st)"
  shows "\<exists>cmds. fold exec_campaign cmds c \<in> set (st_campaigns (fold (serve lib) reqs st)) \<and>
     length cmds \<le> length (filter (\<lambda>r. CanManageExternalCampaign (request_actor r) c) reqs)"
  using assms
proof (induction reqs arbitrary: st c)
  case Nil
  then show ?case by (intro exI[of _ "[]"]) simp
next
  case (Cons r reqs)
  have valid: "campaign_valid c" using Cons.prems by (simp add: store_ok_def campaign_table_ok_def)
  have next_ok: "store_ok (serve lib r st)" using Cons.prems(1) by (rule serve_ok)
  from table_step_follows[OF serve_table_step[OF Cons.prems(1)] _ Cons.prems(2)] Cons.prems(1)
  consider "c \<in> set (st_campaigns (serve lib r st))"
    | cmd where "CanManageExternalCampaign (request_actor r) c"
      "exec_campaign cmd c \<in> set (st_campaigns (serve lib r st))"
    by (auto simp: store_ok_def)
  then show ?case
  proof cases
    case 1
    from Cons.IH[OF next_ok this] show ?thesis by force
  next
    case 2
    have same: "CanManageExternalCampaign a (exec_campaign cmd c) = CanManageExternalCampaign a c" for a
      using CanManage_run[OF valid, of a "[cmd]"] by simp
    from Cons.IH[OF next_ok 2(2)] obtain cmds where
      "fold exec_campaign cmds (exec_campaign cmd c) \<in> set (st_campaigns (fold (serve lib) (r # reqs) st))"
      "length cmds \<le> length (filter (\<lambda>r. CanManageExternalCampaign (request_actor r) c) reqs)"
      by (auto simp: same)
    with 2(1) show ?thesis by (intro exI[of _ "cmd # cmds"]) simp
  qed
qed

text \<open>A committed creation, repeated or not, is answered by a stored reservation.\<close>

lemma Create_reserved:
  assumes "CreateExternalCampaign lib st actor input cid rid now = Inr (st', v, token)" and ok: "store_ok st"
  shows "\<exists>k h p r. normalizeEnrollmentIdempotencyKey (ci_IdempotencyKey input) = Inr k \<and>
    idempotentExternalToken lib actor OperationCreateCampaign k = Some (token, h, p) \<and>
    r \<in> set (st_reservations st') \<and> rv_RequestHash r = sl_RequestHash lib (create_request input) \<and>
    reservation_key r = (ac_CompanyID actor, ac_UserID actor, OperationCreateCampaign, k) \<and>
    rv_ResponsePayload r = Some v"
proof (cases "st' = st")
  case False
  from Create_effect[OF assms] this show ?thesis by (fastforce simp: new_reservation_def)
next
  case same: True
  show ?thesis using assms(1) unfolding CreateExternalCampaign_def
  proof (elim try_bindE pair_InrE, goal_cases)
    case (1 k t tok tp h p x rs y r replayed)
    then have k: "normalizeEnrollmentIdempotencyKey k = Inr k" by (auto dest: normalize_idem)
    have reserve: "reserveExternalTokenMutationInTx (st_reservations st) actor OperationCreateCampaign k
        (sl_RequestHash lib (create_request input)) cid rid now = Inr (rs, r, replayed)"
      using 1 by simp
    have replayed
    proof (rule ccontr)
      assume "\<not> replayed"
      with 1(8) obtain rs' v where "completeExternalTokenMutationInTx rs (ac_CompanyID actor) (rv_ID r) v now = Inr rs'"
        "st_reservations st' = rs'" by (auto simp: result_iffs Let_def split: prod.splits)
      with reserve_fresh[of _ _ _ _ _ cid rid now rs r v rs'] reserve k ok same \<open>\<not> replayed\<close>
      show False by (fastforce simp: store_ok_def)
    qed
    with reserve have "reserveExternalTokenMutationInTx (st_reservations st) actor OperationCreateCampaign k
        (sl_RequestHash lib (create_request input)) cid rid now = Inr (rs, r, True)" by simp
    note stored = reserve_replayed[OF this k]
    have "rv_ResponsePayload r = Some v" "tok = token"
      using 1(8) \<open>replayed\<close> by (auto simp: decodeExternalTokenMutationReplay_def result_iffs)
    with stored 1 same show ?thesis
      by (intro exI[of _ k] exI[of _ h] exI[of _ p] exI[of _ r]) (simp add: found_or_Inr)
  qed
qed

lemma Create_again:
  assumes "store_ok st" "r \<in> set (st_reservations st)" "rid \<notin> rv_ID ` set (st_reservations st)"
    and "normalizeEnrollmentIdempotencyKey (ci_IdempotencyKey input) = Inr k"
    and "idempotentExternalToken lib actor OperationCreateCampaign k = Some (token, h, p)"
    and "rv_RequestHash r = sl_RequestHash lib (create_request input)"
    and "reservation_key r = (ac_CompanyID actor, ac_UserID actor, OperationCreateCampaign, k)"
    and "rv_ResponsePayload r = Some v"
  shows "CreateExternalCampaign lib st actor input cid rid now = Inr (st, v, token)"
proof -
  have "reserveExternalTokenMutationInTx (st_reservations st) actor OperationCreateCampaign k
      (sl_RequestHash lib (create_request input)) cid rid now = Inr (st_reservations st, r, True)"
    using assms by (intro reserve_again) (auto simp: store_ok_def dest: normalize_idem)
  then show ?thesis
    using assms by (simp add: CreateExternalCampaign_def found_or_def decodeExternalTokenMutationReplay_def)
qed

end
