(* ===== verification/Campaign_Store.thy ===== *)
theory Campaign_Store
  imports Campaign_Requests
begin

section \<open>Properties of the campaign service\<close>

text \<open>
  The claims on \<^verbatim>\<open>application/campaigns.go\<close> and \<^verbatim>\<open>external_token_idempotency.go\<close>, with a concrete
  store: the partner's course of the other examples with its published version.
\<close>

definition example_service_lib :: service_lib where
  "example_service_lib =
     \<lparr>tl_secret = replicate 32 7, tl_hmac = (\<lambda>key text. replicate 32 (if length text < 50 then 1 else 2)),
      sl_RequestHash = (\<lambda>r. case r of
        CreateCampaignRequest crs ver name _ _ \<Rightarrow> ''create'' @ crs @ ver @ name
      | RotateCampaignRequest key \<Rightarrow> ''rotate'' @ key)\<rparr>"

definition example_store :: campaign_store where
  "example_store =
     \<lparr>st_courses = [example_course], st_versions = [fst example_publish], st_campaigns = [],
      st_history = [], st_audit = [], st_outbox = [], st_reservations = []\<rparr>"

definition example_input :: CreateExternalCampaignInput where
  "example_input =
     \<lparr>ci_CourseID = ''course'', ci_CourseVersionID = ''v1'', ci_Name = ''Spring'',
      ci_Purpose = PurposePartnerPromo, ci_DeadlineDays = 5, ci_IdempotencyKey = ''key-00001''\<rparr>"

lemma campaignFromRow_eq: "campaignFromRow row = campaignFromSnapshot row"
  by (simp add: campaignFromRow_def campaignFromSnapshot_def)

lemma example_partner_fields: "ac_CompanyID example_partner = ''company''" "ac_UserID example_partner = ''partner''"
  by (simp_all add: example_partner_def)

definition example_token :: string where
  "example_token = RawURLEncoding (replicate 32 2)"

definition example_hash :: bytes where
  "example_hash = replicate 32 1"

definition example_row :: campaign where
  "example_row = projr (Campaign_New
     \<lparr>np_ID = ''p1'', np_CompanyID = ''company'', np_CourseID = ''course'', np_CourseVersionID = ''v1'',
      np_OwnerType = OwnerPartner, np_OwnerUserID = Some ''partner'', np_Purpose = PurposePartnerPromo,
      np_Name = ''Spring'', np_DeadlineDays = 5, np_TokenHash = example_hash,
      np_TokenPrefix = take 10 example_token, np_CreatedByID = ''partner'', np_CreatedAt = 10\<rparr>)"

lemma example_key: "normalizeEnrollmentIdempotencyKey ''key-00001'' = Inr ''key-00001''"
  by code_simp

lemma example_derived:
  "idempotentExternalToken example_service_lib example_partner OperationCreateCampaign ''key-00001'' =
     Some (example_token, example_hash, take 10 example_token)"
  by code_simp

lemma example_row_new:
  "Campaign_New
     \<lparr>np_ID = ''p1'', np_CompanyID = ''company'', np_CourseID = ''course'', np_CourseVersionID = ''v1'',
      np_OwnerType = OwnerPartner, np_OwnerUserID = Some ''partner'', np_Purpose = PurposePartnerPromo,
      np_Name = ''Spring'', np_DeadlineDays = 5, np_TokenHash = example_hash,
      np_TokenPrefix = take 10 example_token, np_CreatedByID = ''partner'', np_CreatedAt = 10\<rparr> = Inr example_row"
proof -
  have "case Campaign_New
     \<lparr>np_ID = ''p1'', np_CompanyID = ''company'', np_CourseID = ''course'', np_CourseVersionID = ''v1'',
      np_OwnerType = OwnerPartner, np_OwnerUserID = Some ''partner'', np_Purpose = PurposePartnerPromo,
      np_Name = ''Spring'', np_DeadlineDays = 5, np_TokenHash = example_hash,
      np_TokenPrefix = take 10 example_token, np_CreatedByID = ''partner'', np_CreatedAt = 10\<rparr> of
     Inr _ \<Rightarrow> True | Inl _ \<Rightarrow> False" by code_simp
  then show ?thesis by (auto simp: example_row_def split: sum.splits)
qed

lemma example_found:
  "sql_GetCourse ''company'' ''course'' [example_course] = Some example_course"
  "sql_GetCourseVersion ''company'' ''v1'' [fst example_publish] = Some (fst example_publish)"
  "vn_CourseID (fst example_publish) = ''course''"
  "Version_Rehydrate (fst example_publish) = Inr (fst example_publish)"
  "CanCreateExternalCampaign example_partner example_course (fst example_publish) PurposePartnerPromo"
  "crs_OwnerType example_course = CourseOwnerPartner" "crs_OwnerUserID example_course = Some ''partner''"
  by code_simp+

lemma example_stored: "sql_CreateExternalCampaign example_row [] = Some ([example_row], example_row)"
  by code_simp

lemma example_creation:
  "\<exists>st'. CreateExternalCampaign example_service_lib example_store example_partner example_input ''p1'' ''r1'' 10 =
     Inr (st', campaignFromSnapshot example_row, example_token) \<and> st_campaigns st' = [example_row] \<and>
     map rv_ID (st_reservations st') = [''r1'']"
  by (simp add: CreateExternalCampaign_def example_input_def example_store_def example_key example_derived
      example_found example_stored example_row_new reserveExternalTokenMutationInTx_def
      sql_ReserveTokenMutation_def found_or_def check_that_def no_error_or_def campaign_owner_of_def Let_def
      completeExternalTokenMutationInTx_def sql_CompleteTokenMutation_def sql_update_def
      example_partner_fields campaignFromRow_eq)

lemma example_store_ok: "store_ok example_store"
  by (simp add: store_ok_def example_store_def campaign_table_ok_def history_ok_def reservations_ok_def)

definition example_after :: campaign_store where
  "example_after = serve example_service_lib (RequestCreate example_partner example_input ''p1'' ''r1'' 10) example_store"

lemma example_after_creation:
  "CreateExternalCampaign example_service_lib example_store example_partner example_input ''p1'' ''r1'' 10 =
     Inr (example_after, campaignFromSnapshot example_row, example_token)"
  "st_campaigns example_after = [example_row]"
  "map rv_ID (st_reservations example_after) = [''r1'']"
  using example_creation by (auto simp: example_after_def committed_def)

lemma example_after_ok: "store_ok example_after"
  unfolding example_after_def by (rule serve_ok[OF example_store_ok])

subsection \<open>A repeated revocation\<close>

text \<open>The aggregate takes a second revocation as done, but the update it is paired with selects only active
  and paused rows, so the request answers with a conflict.\<close>

lemma Revoke_again_conflicts:
  assumes "store_ok st" "c \<in> set (st_campaigns st)" "cp_Status c = Campaign_Revoked"
    and "CanManageExternalCampaign actor c"
  shows "Campaign_Revoke c now = (c, None)" "RevokeExternalCampaign st actor (cp_ID c) now = Inl ErrorConflict"
proof -
  show revoke: "Campaign_Revoke c now = (c, None)" using assms(3) by (simp add: Campaign_Revoke_def)
  have table: "campaign_table_ok (st_campaigns st)" using assms(1) by (simp add: store_ok_def)
  obtain partnerID where scope: "campaignPartnerScope actor = Inr partnerID"
    and scoped: "sql_scoped (ac_CompanyID actor) (cp_ID c) partnerID c"
    using assms(4) by (auto simp: CanManageExternalCampaign_def validCampaignTarget_def campaignPartnerScope_def
        canManage_def isManager_def sql_scoped_def split: if_splits campaign_owner.splits)
  have only: "d = c" if "d \<in> set (st_campaigns st)" "cp_ID d = cp_ID c" for d
    using distinct_key[of cp_ID "st_campaigns st" d c] that assms(2) table by (simp add: campaign_table_ok_def)
  have "List.find (sql_scoped (ac_CompanyID actor) (cp_ID c) partnerID) (st_campaigns st) \<noteq> None"
    using scoped assms(2) by (auto simp: find_None_iff)
  then have found: "List.find (sql_scoped (ac_CompanyID actor) (cp_ID c) partnerID) (st_campaigns st) = Some c"
    using only find_scoped by fastforce
  have "sql_RevokeExternalCampaign now (ac_CompanyID actor) (cp_ID c) partnerID (st_campaigns st) = None"
    using only assms(3) unfolding sql_RevokeExternalCampaign_def sql_update_def list_ex_iff sql_scoped_def
    by (metis campaign_status.distinct(3) campaign_status.distinct(9))
  moreover have "Campaign_Rehydrate c = Inr c"
    using table assms(2) by (simp add: campaign_table_ok_def campaign_valid_rehydrates)
  ultimately show "RevokeExternalCampaign st actor (cp_ID c) now = Inl ErrorConflict"
    using scope found revoke assms(4)
    by (simp add: RevokeExternalCampaign_def changeExternalCampaign_def sql_GetExternalCampaignForUpdate_def
        found_or_def no_error_or_def check_that_def)
qed

subsection \<open>Claims\<close>

text \<open>(C20) Whatever the requests, the store stays well-formed: identifiers and token hashes of campaigns
  are unique, every row passes the full validation of the aggregate, every key of a token mutation is
  reserved once and answered, and the history of a campaign, read from its creation, leads step by
  step to the status and token prefix the row has now. History and reservations only grow.\<close>

theorem campaign_requests_keep_store:
  assumes "store_ok st"
  shows "store_ok (fold (serve lib) reqs st) \<and> store_below st (fold (serve lib) reqs st)"
  using requests.run_valid[OF assms] requests.run_below[OF assms] by blast

theorem campaign_requests_keep_store_witness:
  "store_ok (fold (serve example_service_lib)
     [RequestCreate example_partner example_input ''p1'' ''r1'' 10, RequestPause example_partner ''p1'' 11]
     example_store)"
  using campaign_requests_keep_store[OF example_store_ok] by blast

text \<open>(C21) Only its managers change a campaign: after any requests a stored campaign is what some commands of
  the aggregate make of it, at most one for each request whose actor may manage it. Requests of
  another company, of other partners or of employees leave it as it is, and its token with it.\<close>

theorem campaign_changes_need_rights:
  assumes "store_ok st" "c \<in> set (st_campaigns st)"
  shows "(\<exists>cmds. fold exec_campaign cmds c \<in> set (st_campaigns (fold (serve lib) reqs st)) \<and>
       length cmds \<le> length (filter (\<lambda>r. CanManageExternalCampaign (request_actor r) c) reqs)) \<and>
     ((\<forall>r\<in>set reqs. ac_CompanyID (request_actor r) \<noteq> cp_CompanyID c \<or>
         \<not> isManager (request_actor r) \<and> Some (ac_UserID (request_actor r)) \<noteq> cp_OwnerUserID c) \<longrightarrow>
       c \<in> set (st_campaigns (fold (serve lib) reqs st)))"
proof -
  obtain cmds where cmds: "fold exec_campaign cmds c \<in> set (st_campaigns (fold (serve lib) reqs st))"
    "length cmds \<le> length (filter (\<lambda>r. CanManageExternalCampaign (request_actor r) c) reqs)"
    using campaign_follows[OF assms] by blast
  have "\<not> CanManageExternalCampaign a c" if "ac_CompanyID a \<noteq> cp_CompanyID c \<or>
      \<not> isManager a \<and> Some (ac_UserID a) \<noteq> cp_OwnerUserID c" for a
    using that by (auto simp: CanManageExternalCampaign_def validCampaignTarget_def split: campaign_owner.splits)
  then have "filter (\<lambda>r. CanManageExternalCampaign (request_actor r) c) reqs = []"
    if "\<forall>r\<in>set reqs. ac_CompanyID (request_actor r) \<noteq> cp_CompanyID c \<or>
         \<not> isManager (request_actor r) \<and> Some (ac_UserID (request_actor r)) \<noteq> cp_OwnerUserID c"
    using that by (auto simp: filter_empty_conv)
  with cmds show ?thesis by fastforce
qed

theorem campaign_changes_need_rights_witness:
  "example_row \<in> set (st_campaigns (serve example_service_lib
     (RequestRevoke (example_admin\<lparr>ac_CompanyID := ''other''\<rparr>) ''p1'' 12) example_after))"
proof -
  have "cp_CompanyID example_row = ''company''" by code_simp
  with campaign_changes_need_rights[OF example_after_ok, of example_row example_service_lib
      "[RequestRevoke (example_admin\<lparr>ac_CompanyID := ''other''\<rparr>) ''p1'' 12]"]
  show ?thesis by (simp add: example_after_creation(2))
qed

text \<open>(C22) A repeated creation is answered, not executed: once a creation was committed, the same actor's same
  request under the same idempotency key returns the same campaign and the same token and leaves the
  store as it is, whatever requests came in between and whatever the course has become.\<close>

theorem campaign_creation_replays:
  assumes "store_ok st"
    and "CreateExternalCampaign lib st actor input cid rid now = Inr (st1, v, token)"
    and "st2 = fold (serve lib) reqs st1" "rid' \<notin> rv_ID ` set (st_reservations st2)"
  shows "CreateExternalCampaign lib st2 actor input cid' rid' now' = Inr (st2, v, token)"
proof -
  have "serve lib (RequestCreate actor input cid rid now) st = st1" using assms(2) by (simp add: committed_def)
  then have "store_ok st1" using serve_ok[OF assms(1)] by metis
  with assms(3) have "store_ok st2" "set (st_reservations st1) \<subseteq> set (st_reservations st2)"
    using requests.run_valid[of st1 lib reqs] requests.run_below[of st1 lib reqs]
    by (auto simp: store_below_def dest: set_mono_prefix)
  with Create_reserved[OF assms(2,1)] assms(4) show ?thesis by (blast intro: Create_again)
qed

theorem campaign_creation_replays_witness:
  "CreateExternalCampaign example_service_lib example_after example_partner example_input ''p9'' ''r9'' 99 =
     Inr (example_after, campaignFromSnapshot example_row, example_token)"
  using campaign_creation_replays[OF example_store_ok example_after_creation(1), of example_after "[]" "''r9''"]
    example_after_creation(3)[THEN arg_cong, of set] by simp

text \<open>A link works from the moment it is handed out: a creation that was not a repetition stores a campaign
  its creator may manage and view, that accepts learners of its course version, and whose stored
  hash is the hash of the token in the answer.\<close>

theorem created_campaign_is_live:
  assumes "store_ok st"
    and "CreateExternalCampaign lib st actor input cid rid now = Inr (st1, v, token)" "st1 \<noteq> st"
  shows "\<exists>c root ver. c \<in> set (st_campaigns st1) \<and> v = campaignFromSnapshot c \<and>
     root \<in> set (st_courses st) \<and> ver \<in> set (st_versions st) \<and>
     CanManageExternalCampaign actor c \<and> CanViewExternalCampaign actor c \<and>
     CanAcceptLearner c root ver \<and> Campaign_MatchesTokenHash (Some c) (externalTokenHash lib token)"
proof -
  from Create_effect[OF assms(2,1)] assms(3) obtain c root ver h p k where
    created: "campaign_created st actor input c root ver st1" and v: "v = campaignFromSnapshot c"
    and token: "idempotentExternalToken lib actor OperationCreateCampaign k = Some (token, h, p)"
    "cp_TokenHash c = h" by blast
  have found: "crs_CompanyID root = ac_CompanyID actor" "crs_ID root = ci_CourseID input"
    "root \<in> set (st_courses st)" "vn_CompanyID ver = ac_CompanyID actor"
    "vn_ID ver = ci_CourseVersionID input" "ver \<in> set (st_versions st)"
    using created by (auto simp: campaign_created_def sql_GetCourse_def sql_GetCourseVersion_def find_Some_iff)
  have can: "CanCreateExternalCampaign actor root ver (ci_Purpose input)"
    and manage: "CanManageExternalCampaign actor c" and valid: "campaign_valid c"
    and active: "cp_Status c = Campaign_Active"
    using created by (simp_all add: campaign_created_def)
  have root: "Course_Validate root = None" "crs_LifecycleStatus root = CourseActive"
    "crs_DistributionStatus root = DistributionActive" "vn_Status ver = StatusPublished"
    and owner: "crs_OwnerType root = CourseOwnerCompany \<or>
      crs_OwnerType root = CourseOwnerPartner \<and> (\<exists>u. crs_OwnerUserID root = Some u)"
    using can by (auto simp: CanCreateExternalCampaign_def validTarget_def published_version_of_def
        isOwnedPartnerCourse_def split: if_splits Purpose.splits option.splits)
  have "campaign_context_ok c root ver"
    using created found root owner by (auto simp: campaign_context_ok_def campaign_created_def campaign_owner_of_def)
  then have "CanAcceptLearner c root ver"
    using EffectiveAvailability_available root active by (simp add: CanAcceptLearner_def)
  moreover have "CanViewExternalCampaign actor c"
    using manage by (auto simp: CanManageExternalCampaign_def CanViewExternalCampaign_def
        split: if_splits campaign_owner.splits)
  moreover have "Campaign_MatchesTokenHash (Some c) (externalTokenHash lib token)"
    using token valid by (auto simp: idempotentExternalToken_def Let_def Campaign_MatchesTokenHash_def
        constantTimeEqual_iff campaign_valid_def valid_iff split: if_splits)
  ultimately show ?thesis using manage v found created by (auto simp: campaign_created_def)
qed

theorem created_campaign_is_live_witness:
  "\<exists>root ver. CanAcceptLearner example_row root ver \<and>
     Campaign_MatchesTokenHash (Some example_row) (externalTokenHash example_service_lib example_token)"
proof -
  have "example_after \<noteq> example_store"
    using example_after_creation(2) by (metis campaign_store.select_convs(3) example_store_def list.distinct(1))
  from created_campaign_is_live[OF example_store_ok example_after_creation(1) this]
  show ?thesis by (auto simp: example_after_creation(2))
qed

text \<open>(C23) The request that reads one campaign never returns it: whatever the store, an owner, an administrator or
  a partner is told that there is no such campaign and everyone else is refused. The handler asks the
  policy about a snapshot without a token hash, which the policy's validation rejects.\<close>

theorem GetExternalCampaign_never_found:
  "GetExternalCampaign st actor key =
     Inl (if canManage actor \<or> ac_Role actor = RolePartner then ErrorNotFound else ErrorForbidden)"
proof -
  have "Campaign_Validate (campaignDomainSnapshot v []) \<noteq> None" for v
    by (auto simp: Campaign_Validate_def Campaign_Rehydrate_def campaignDomainSnapshot_def
        campaign_validateSnapshot_def Let_def split: option.splits sum.splits)
  then have "\<not> CanViewExternalCampaign actor (campaignDomainSnapshot v [])" for v
    by (simp add: CanViewExternalCampaign_def validCampaignTarget_def)
  then show ?thesis
    by (auto simp: GetExternalCampaign_def campaignPartnerScope_def try_bind_def found_or_def Let_def
        split: option.splits)
qed

text \<open>Every token the services derive has the shape the aggregates ask for: 43 characters of the URL
  alphabet, a prefix of ten of them that the aggregates' pattern accepts, and a 32-byte hash
  that is the hash of the token a visitor will present.\<close>

theorem derived_token_is_accepted:
  assumes "\<And>key text. length (tl_hmac lib key text) = 32"
    and "idempotentExternalToken lib actor operation key = Some (token, hash, tokenPrefix)"
  shows "length token = 43 \<and> list_all token_char token \<and> prefix tokenPrefix token \<and>
     length tokenPrefix = 10 \<and> tokenPrefixPattern tokenPrefix \<and>
     length hash = 32 \<and> hash = externalTokenHash lib token"
proof -
  obtain digest where digest: "length digest = 32" "token = RawURLEncoding digest"
    "hash = externalTokenHash lib token" "tokenPrefix = take 10 token"
    using assms(2) assms(1)
    by (auto simp: idempotentExternalToken_def Let_def externalTokenPrefixLength_def length_RawURLEncoding
        split: if_splits)
  then have "length token = 43" "list_all token_char token"
    by (simp_all add: length_RawURLEncoding RawURLEncoding_token)
  moreover from this have "tokenPrefixPattern (take 10 token)"
    by (auto simp: tokenPrefixPattern_def list_all_iff dest: in_set_takeD)
  moreover have "length hash = 32" using digest assms(1) by (simp add: externalTokenHash_def)
  ultimately show ?thesis using digest by (simp add: take_is_prefix)
qed

theorem derived_token_is_accepted_witness:
  "length example_token = 43 \<and> tokenPrefixPattern (take 10 example_token)"
  using derived_token_is_accepted[OF _ example_derived] by (simp add: example_service_lib_def)

end
