(* ===== verification/Strconv.thy ===== *)
theory Strconv
  imports Prelude "HOL-Library.Char_ord" "HOL-Library.List_Lexorder"
begin

section \<open>Numbers and runes in text\<close>

text \<open>
  What several packages use of the Go standard library on text: \<^verbatim>\<open>strconv.ParseInt\<close> and
  \<^verbatim>\<open>strconv.FormatInt\<close> in base 10 with 64 bits, \<^verbatim>\<open>utf8.RuneCountInString\<close> and \<^verbatim>\<open>strings.Split\<close>. A slice that may be nil
  is an option; \<open>items\<close> are its elements, none for the nil slice.
\<close>

type_synonym 'a slice = "'a list option"

definition items :: "'a slice \<Rightarrow> 'a list" where
  "items s = (case s of None \<Rightarrow> [] | Some xs \<Rightarrow> xs)"

lemma items_simps [simp]: "items None = []" "items (Some xs) = xs"
  by (simp_all add: items_def)

subsection \<open>ParseInt and FormatInt\<close>

definition digit_value :: "char \<Rightarrow> nat option" where
  "digit_value c = (if CHR ''0'' \<le> c \<and> c \<le> CHR ''9'' then Some (of_char c - 48) else None)"

fun parse_digits :: "nat \<Rightarrow> string \<Rightarrow> nat option" where
  "parse_digits acc [] = Some acc"
| "parse_digits acc (c # rest) =
     (case digit_value c of None \<Rightarrow> None | Some d \<Rightarrow> parse_digits (10 * acc + d) rest)"

text \<open>The value and whether the error is nil. A syntax error gives 0, a number out of range the bound
  it exceeds.\<close>

definition ParseInt :: "string \<Rightarrow> int \<times> bool" where
  "ParseInt s =
     (case s of
        [] \<Rightarrow> (0, False)
      | c # rest \<Rightarrow>
          let neg = (c = CHR ''-''); body = (if c = CHR ''-'' \<or> c = CHR ''+'' then rest else s) in
          case (if body = [] then None else parse_digits 0 body) of
            None \<Rightarrow> (0, False)
          | Some un \<Rightarrow>
              if \<not> neg \<and> un \<ge> 2 ^ 63 then (max_int64, False)
              else if neg \<and> un > 2 ^ 63 then (min_int64, False)
              else (if neg then - int un else int un, True))"

definition digit_char :: "nat \<Rightarrow> char" where
  "digit_char d = char_of (48 + d)"

fun decimal :: "nat \<Rightarrow> string" where
  "decimal n = (if n < 10 then [digit_char n] else decimal (n div 10) @ [digit_char (n mod 10)])"

declare decimal.simps [simp del]

definition FormatInt :: "int \<Rightarrow> string" where
  "FormatInt v = (if v < 0 then CHR ''-'' # decimal (nat (- v)) else decimal (nat v))"

lemma digit_value_char [simp]: "d < 10 \<Longrightarrow> digit_value (digit_char d) = Some d"
proof -
  assume "d < 10"
  then have "d = 0 \<or> d = 1 \<or> d = 2 \<or> d = 3 \<or> d = 4 \<or> d = 5 \<or> d = 6 \<or> d = 7 \<or> d = 8 \<or> d = 9" by arith
  then show ?thesis by (elim disjE; simp only:; code_simp)
qed

lemma digit_char_not_sign: "d < 10 \<Longrightarrow> digit_char d \<noteq> CHR ''-'' \<and> digit_char d \<noteq> CHR ''+''"
  using digit_value_char[of d] by (auto simp: digit_value_def less_eq_char_def)

lemma parse_digits_append:
  "parse_digits acc (s @ t) = (case parse_digits acc s of None \<Rightarrow> None | Some v \<Rightarrow> parse_digits v t)"
  by (induction acc s rule: parse_digits.induct) (auto split: option.splits)

lemma parse_decimal: "parse_digits 0 (decimal n) = Some n"
proof (induction n rule: decimal.induct)
  case (1 n)
  then show ?case by (subst decimal.simps) (auto simp: parse_digits_append)
qed

lemma decimal_ne [simp]: "decimal n \<noteq> []"
  by (subst decimal.simps) simp

lemma decimal_inject [simp]: "decimal m = decimal n \<longleftrightarrow> m = n"
  by (metis option.inject parse_decimal)

lemma decimal_hd: "\<exists>d < 10. hd (decimal n) = digit_char d"
proof (induction n rule: decimal.induct)
  case (1 n)
  then show ?case by (subst decimal.simps) (auto simp: hd_append)
qed

lemma ParseInt_decimal:
  assumes "n < 2 ^ 63" shows "ParseInt (decimal n) = (int n, True)"
proof -
  obtain c rest where s: "decimal n = c # rest" by (cases "decimal n") auto
  obtain d where "d < 10" "c = digit_char d" using decimal_hd[of n] s by auto
  then have "c \<noteq> CHR ''-''" "c \<noteq> CHR ''+''" using digit_char_not_sign[of d] by simp_all
  then show ?thesis using parse_decimal[of n] assms by (simp add: ParseInt_def s)
qed

lemma FormatInt_nat [simp]: "FormatInt (int n) = decimal n"
  by (simp add: FormatInt_def)

subsection \<open>Runes\<close>

text \<open>The length of the encoding at the start of the text: a complete, shortest encoding of a scalar
  value, or one byte.\<close>

definition continuation :: "nat \<Rightarrow> nat \<Rightarrow> string \<Rightarrow> bool" where
  "continuation lo hi s = (case s of [] \<Rightarrow> False | c # _ \<Rightarrow> lo \<le> of_char c \<and> of_char c \<le> hi)"

definition rune_size :: "string \<Rightarrow> nat" where
  "rune_size s =
     (case s of
        [] \<Rightarrow> 1
      | c # r1 \<Rightarrow>
          let b = (of_char c :: nat); r2 = drop 1 r1; r3 = drop 2 r1 in
          if 0xC2 \<le> b \<and> b \<le> 0xDF then (if continuation 0x80 0xBF r1 then 2 else 1)
          else if 0xE0 \<le> b \<and> b \<le> 0xEF then
            (if continuation (if b = 0xE0 then 0xA0 else 0x80) (if b = 0xED then 0x9F else 0xBF) r1 \<and>
                continuation 0x80 0xBF r2 then 3 else 1)
          else if 0xF0 \<le> b \<and> b \<le> 0xF4 then
            (if continuation (if b = 0xF0 then 0x90 else 0x80) (if b = 0xF4 then 0x8F else 0xBF) r1 \<and>
                continuation 0x80 0xBF r2 \<and> continuation 0x80 0xBF r3 then 4 else 1)
          else 1)"

lemma rune_size_pos: "0 < rune_size s"
  by (simp add: rune_size_def Let_def split: list.splits)

function runes :: "string \<Rightarrow> string list" where
  "runes s = (if s = [] then [] else take (rune_size s) s # runes (drop (rune_size s) s))"
  by pat_completeness auto
termination
  by (relation "measure length") (auto simp: rune_size_pos)

declare runes.simps [simp del]

definition RuneCount :: "string \<Rightarrow> nat" where
  "RuneCount s = length (runes s)"

lemma concat_runes [simp]: "concat (runes s) = s"
proof (induction s rule: runes.induct)
  case (1 s)
  then show ?case by (subst runes.simps) simp
qed

lemma runes_ne: "r \<in> set (runes s) \<Longrightarrow> r \<noteq> []"
proof (induction s rule: runes.induct)
  case (1 s)
  then show ?case using rune_size_pos[of s] by (subst (asm) runes.simps) (auto split: if_splits)
qed

lemma RuneCount_le: "RuneCount s \<le> length s"
proof -
  have "length rs \<le> length (concat rs)" if "\<forall>r\<in>set rs. r \<noteq> []" for rs :: "string list"
    using that
  proof (induction rs)
    case (Cons r rs)
    then show ?case by (cases r) auto
  qed simp
  then show ?thesis using runes_ne[of _ s] by (metis RuneCount_def concat_runes)
qed

text \<open>A character outside the ASCII range is part of a rune that has none inside it.\<close>

definition ascii :: "char \<Rightarrow> bool" where
  "ascii c \<longleftrightarrow> (of_char c :: nat) < 0x80"

lemma continuation_high: "continuation lo hi s \<Longrightarrow> 0x80 \<le> lo \<Longrightarrow> \<exists>d t. s = d # t \<and> \<not> ascii d"
  by (auto simp: continuation_def ascii_def split: list.splits)

lemma rune_size_high:
  assumes "rune_size (c # r) \<noteq> 1"
  shows "\<not> ascii c \<and> (\<forall>d\<in>set (take (rune_size (c # r) - 1) r). \<not> ascii d)"
proof -
  define b where "b = (of_char c :: nat)"
  have size: "rune_size (c # r) =
     (if 0xC2 \<le> b \<and> b \<le> 0xDF then (if continuation 0x80 0xBF r then 2 else 1)
      else if 0xE0 \<le> b \<and> b \<le> 0xEF then
        (if continuation (if b = 0xE0 then 0xA0 else 0x80) (if b = 0xED then 0x9F else 0xBF) r \<and>
            continuation 0x80 0xBF (drop 1 r) then 3 else 1)
      else if 0xF0 \<le> b \<and> b \<le> 0xF4 then
        (if continuation (if b = 0xF0 then 0x90 else 0x80) (if b = 0xF4 then 0x8F else 0xBF) r \<and>
            continuation 0x80 0xBF (drop 1 r) \<and> continuation 0x80 0xBF (drop 2 r) then 4 else 1)
      else 1)"
    by (simp add: rune_size_def b_def Let_def)
  have c: "\<not> ascii c" using assms unfolding size by (auto simp: ascii_def b_def split: if_splits)
  define high where "high = (\<lambda>x. \<exists>d t. x = d # t \<and> \<not> ascii d)"
  have cont: "continuation 128 hi x \<Longrightarrow> high x" "continuation 160 hi x \<Longrightarrow> high x" "continuation 144 hi x \<Longrightarrow> high x"
    for hi x unfolding high_def by (erule continuation_high, simp)+
  from assms consider "rune_size (c # r) = 2" "high r" | "rune_size (c # r) = 3" "high r" "high (drop 1 r)"
    | "rune_size (c # r) = 4" "high r" "high (drop 1 r)" "high (drop 2 r)"
    unfolding size by (auto split: if_split_asm dest!: cont)
  then show ?thesis unfolding high_def using c by cases (auto simp: numeral_eq_Suc)
qed

lemma runes_shape: "r \<in> set (runes s) \<Longrightarrow> (\<exists>c. r = [c]) \<or> (\<forall>c\<in>set r. \<not> ascii c)"
proof (induction s rule: runes.induct)
  case (1 s)
  show ?case
  proof (cases s)
    case Nil
    with 1 show ?thesis by (simp add: runes.simps[of "[]"])
  next
    case (Cons c rest)
    have "runes s = take (rune_size s) s # runes (drop (rune_size s) s)"
      using Cons by (subst runes.simps) simp
    with 1 Cons consider "r = take (rune_size s) s" | "r \<in> set (runes (drop (rune_size s) s))" by auto
    then show ?thesis
    proof cases
      case 1
      show ?thesis
      proof (cases "rune_size s = 1")
        case False
        obtain k where "rune_size s = Suc k" using rune_size_pos[of s] by (cases "rune_size s") auto
        with 1 False Cons rune_size_high[of c rest] show ?thesis by auto
      qed (use 1 Cons in simp)
    qed (use 1 Cons in auto)
  qed
qed

subsection \<open>strings.Split\<close>

text \<open>With a separator of one byte.\<close>

fun Split :: "char \<Rightarrow> string \<Rightarrow> string list" where
  "Split sep [] = [[]]"
| "Split sep (c # s) =
     (if c = sep then [] # Split sep s else (c # hd (Split sep s)) # tl (Split sep s))"

lemma Split_plain: "sep \<notin> set s \<Longrightarrow> Split sep s = [s]"
  by (induction s) auto

lemma Split_join: "sep \<notin> set s \<Longrightarrow> Split sep (s @ sep # t) = s # Split sep t"
  by (induction s) auto

subsection \<open>strings.Fields\<close>

lemma spaces_ne: "[] \<notin> set space_encodings"
  by (simp add: space_encodings_def)

text \<open>\<^verbatim>\<open>strings.Fields\<close>: the words between white space.\<close>

function words_from :: "string \<Rightarrow> string \<Rightarrow> string list" where
  "words_from word s =
     (case strip_one space_encodings s of
        Some rest \<Rightarrow> (if word = [] then [] else [word]) @ words_from [] rest
      | None \<Rightarrow>
          (case s of
             [] \<Rightarrow> (if word = [] then [] else [word])
           | c # rest \<Rightarrow> words_from (word @ [c]) rest))"
  by pat_completeness auto
termination
  by (relation "measure (\<lambda>(word, s). length s)") (auto dest: strip_one_shorter[OF _ spaces_ne])

declare words_from.simps [simp del]

definition Fields :: "string \<Rightarrow> string list" where
  "Fields s = words_from [] s"

text \<open>\<^verbatim>\<open>time.Second\<close>.\<close>

definition second :: duration where "second = 1000000000"

end
