(* ===== verification/Control_Rules.thy ===== *)
theory Control_Rules
  imports Strconv
begin

section \<open>Task control: rules and their canonical form\<close>

text \<open>
  \<^verbatim>\<open>services/company/internal/domain/taskcontrol\<close>: \<^verbatim>\<open>access.go\<close>, \<^verbatim>\<open>rules.go\<close> and the identifiers of
  \<^verbatim>\<open>model.go\<close>. A rule names CRM users, pipelines with their stages and customer statuses by
  decimal identifiers; its validation, and the ordered numeric form of which the widget and the
  server compare checksums.

  A UUID is its canonical text. What the sources read of one with the UUID library, whether it is
  nil, its version and its variant, is the parameter \<open>uuid_lib\<close>; SHA-256 in hexadecimal is the
  parameter of the checksum. \<^verbatim>\<open>sort.Slice\<close> is a stable sort here; its keys are pairwise different
  in validated rules, so the result does not depend on that. The text of a message is a constructor.
\<close>

subsection \<open>Access\<close>

record Permissions =
  pm_Read :: bool
  pm_Manage :: bool

definition control_Access :: "string \<Rightarrow> Permissions option \<Rightarrow> Permissions" where
  "control_Access role override =
     (let admin = (role = ''owner'' \<or> role = ''admin'');
          p = \<lparr>pm_Read = admin, pm_Manage = admin\<rparr>
      in case override of
           None \<Rightarrow> p
         | Some o' \<Rightarrow> p\<lparr>pm_Read := pm_Read o', pm_Manage := admin \<and> pm_Read o' \<and> pm_Manage o'\<rparr>)"

definition RequiredAccess :: "string \<Rightarrow> bool \<times> bool" where
  "RequiredAccess operation =
     (if operation \<in> {''connections'', ''installation'', ''draft'', ''publications'', ''history'',
           ''references'', ''application''} then (False, True)
      else if operation \<in> {''link'', ''revoke'', ''mode'', ''updateDraft'', ''validate'', ''publish'',
           ''rollback'', ''imports'', ''sourceRequests'', ''refreshReferences'', ''intent''} then (True, True)
      else (False, False))"

subsection \<open>Identifiers\<close>

definition ValidCRMID :: "string \<Rightarrow> bool" where
  "ValidCRMID s =
     (let (v, ok) = ParseInt s in ok \<and> v > 0 \<and> v \<le> 9007199254740991 \<and> FormatInt v = s)"

definition crm_number :: "string \<Rightarrow> int" where
  "crm_number s = fst (ParseInt s)"

lemma ValidCRMID_iff: "ValidCRMID s \<longleftrightarrow> (\<exists>n. 0 < n \<and> n \<le> 9007199254740991 \<and> s = decimal n)"
proof
  assume "ValidCRMID s"
  then obtain v where "0 < v" "v \<le> 9007199254740991" "FormatInt v = s"
    by (auto simp: ValidCRMID_def split: prod.splits)
  then show "\<exists>n. 0 < n \<and> n \<le> 9007199254740991 \<and> s = decimal n"
    by (intro exI[of _ "nat v"]) (auto simp: FormatInt_def)
next
  assume "\<exists>n. 0 < n \<and> n \<le> 9007199254740991 \<and> s = decimal n"
  then show "ValidCRMID s" by (auto simp: ValidCRMID_def ParseInt_decimal)
qed

lemma crm_number_inj: "ValidCRMID s \<Longrightarrow> ValidCRMID t \<Longrightarrow> crm_number s = crm_number t \<Longrightarrow> s = t"
  by (auto simp: ValidCRMID_iff crm_number_def ParseInt_decimal)

record uuid_lib =
  ul_Nil :: ID
  ul_Version :: "ID \<Rightarrow> int"
  ul_RFC4122 :: "ID \<Rightarrow> bool"

definition validUUID :: "uuid_lib \<Rightarrow> ID \<Rightarrow> bool" where
  "validUUID ul v \<longleftrightarrow> v \<noteq> ul_Nil ul \<and> ul_RFC4122 ul v \<and> ul_Version ul v \<ge> 1 \<and> ul_Version ul v \<le> 5"

subsection \<open>Rules\<close>

record Pipeline =
  pp_PipelineID :: string
  pp_StatusIDs :: "string slice"

record control_rule =
  cr_RuleUID :: ID
  cr_Name :: string
  cr_Users :: "string slice"
  cr_Pipelines :: "Pipeline slice"
  cr_Customers :: bool
  cr_CustomerStatuses :: "string slice"
  cr_ShowModal :: bool
  cr_DenyExit :: bool
  cr_CheckResponsible :: bool
  cr_Enabled :: bool
  cr_Archived :: bool

datatype control_message = MsgRuleArray | MsgRuleUID | MsgRuleName | MsgRuleLists | MsgRulePipeline
  | MsgRuleTarget | MsgUserMissing | MsgUserInactive | MsgPipelineMissing | MsgStatusMissing
  | MsgCustomerStatusMissing | MsgCustomersUnavailable | MsgCustomersUnconfirmed
  | MsgVersionName | MsgAllLinkedLists | MsgAudienceEmpty | MsgEmployeeUUID | MsgDepartmentUUID
  | MsgAudienceKind | MsgLeadsLists | MsgPipelinesEmpty | MsgPipelineInvalid | MsgAllOpenStages
  | MsgStagesEmpty | MsgStageClosed | MsgStagesKind | MsgLeadsKind | MsgCustomersLists
  | MsgCustomersEmpty | MsgCustomersKind | MsgNoTarget | MsgIntentKind
  | MsgIssueLimit | MsgNoRows | MsgEmployeeMissing | MsgDepartmentMissing | MsgEmployeeExcluded
  | MsgRuleLimit | MsgRuntimeLimit | MsgPipelineAbsent | MsgStageAbsent | MsgStageNotOpen
  | MsgCustomerStatusAbsent | MsgCustomersAbsent | MsgDirectoryUnconfirmed

record Issue =
  is_Path :: string
  is_Code :: string
  is_Message :: control_message

text \<open>\<^verbatim>\<open>fmt.Sprintf("name[%d]", i)\<close>.\<close>

definition indexed :: "string \<Rightarrow> nat \<Rightarrow> string" where
  "indexed name i = name @ ''['' @ decimal i @ '']''"

text \<open>A loop that collects the values it has seen and stops at one that is wrong or repeated.\<close>

fun distinct_valid :: "('a \<Rightarrow> bool) \<Rightarrow> 'a list \<Rightarrow> 'a list \<Rightarrow> bool" where
  "distinct_valid ok seen [] \<longleftrightarrow> True"
| "distinct_valid ok seen (v # vs) \<longleftrightarrow> (if \<not> ok v \<or> v \<in> set seen then False else distinct_valid ok (v # seen) vs)"

definition crmSet :: "string slice \<Rightarrow> bool \<Rightarrow> bool" where
  "crmSet v required =
     (if v = None \<or> length (items v) > 1000 \<or> required \<and> length (items v) = 0 then False
      else distinct_valid ValidCRMID [] (items v))"

definition rule_issue :: "nat \<Rightarrow> control_message \<Rightarrow> Issue" where
  "rule_issue i message = \<lparr>is_Path = indexed ''rules'' i, is_Code = ''invalid_rule'', is_Message = message\<rparr>"

fun validate_pipelines :: "nat \<Rightarrow> string list \<Rightarrow> Pipeline list \<Rightarrow> Issue list" where
  "validate_pipelines i seen [] = []"
| "validate_pipelines i seen (p # ps) =
     (if \<not> ValidCRMID (pp_PipelineID p) \<or> pp_PipelineID p \<in> set seen \<or> \<not> crmSet (pp_StatusIDs p) True
      then [rule_issue i MsgRulePipeline] else []) @
     validate_pipelines i (pp_PipelineID p # seen) ps"

definition bad_uid :: "uuid_lib \<Rightarrow> ID list \<Rightarrow> ID \<Rightarrow> bool" where
  "bad_uid ul seen uid \<longleftrightarrow>
     uid = ul_Nil ul \<or> ul_Version ul uid < 1 \<or> ul_Version ul uid > 5 \<or> \<not> ul_RFC4122 ul uid \<or> uid \<in> set seen"

definition validate_rule :: "uuid_lib \<Rightarrow> nat \<Rightarrow> ID list \<Rightarrow> control_rule \<Rightarrow> Issue list" where
  "validate_rule ul i seen r =
     (if bad_uid ul seen (cr_RuleUID r)
      then [\<lparr>is_Path = indexed ''rules'' i @ ''.ruleUid'', is_Code = ''duplicate_uid'', is_Message = MsgRuleUID\<rparr>]
      else []) @
     (if TrimSpace (cr_Name r) = '''' \<or> RuneCount (cr_Name r) > 200 then [rule_issue i MsgRuleName] else []) @
     (if \<not> crmSet (cr_Users r) True \<or> \<not> crmSet (cr_CustomerStatuses r) False \<or>
         cr_Pipelines r = None \<or> length (items (cr_Pipelines r)) > 1000
      then [rule_issue i MsgRuleLists] else []) @
     validate_pipelines i [] (items (cr_Pipelines r)) @
     (if \<not> cr_Customers r \<and> length (items (cr_Pipelines r)) = 0 then [rule_issue i MsgRuleTarget] else [])"

fun validate_rules_from :: "uuid_lib \<Rightarrow> nat \<Rightarrow> ID list \<Rightarrow> control_rule list \<Rightarrow> Issue list" where
  "validate_rules_from ul i seen [] = []"
| "validate_rules_from ul i seen (r # rs) =
     validate_rule ul i seen r @ validate_rules_from ul (Suc i) (cr_RuleUID r # seen) rs"

definition ValidateRules :: "uuid_lib \<Rightarrow> control_rule slice \<Rightarrow> Issue list" where
  "ValidateRules ul rules =
     (if rules = None \<or> length (items rules) > 1000 then [rule_issue 0 MsgRuleArray] else []) @
     validate_rules_from ul 0 [] (items rules)"

subsection \<open>The numeric form\<close>

record LegacyPipeline =
  lg_PipelineID :: int
  lg_StatusIDs :: "int list"

record LegacyRule =
  lr_UID :: string
  lr_Name :: string
  lr_Users :: "int list"
  lr_Pipelines :: "LegacyPipeline list"
  lr_CustomerStatuses :: "int list"
  lr_ShowModal :: bool
  lr_DenyExit :: bool
  lr_CheckResponsible :: bool
  lr_Customers :: bool
  lr_Enabled :: bool
  lr_Archived :: bool

definition legacy_ids :: "string list \<Rightarrow> int list" where
  "legacy_ids a = sort (map crm_number a)"

definition legacy_pipeline :: "Pipeline \<Rightarrow> LegacyPipeline" where
  "legacy_pipeline v =
     \<lparr>lg_PipelineID = crm_number (pp_PipelineID v), lg_StatusIDs = legacy_ids (items (pp_StatusIDs v))\<rparr>"

definition legacy_rule :: "control_rule \<Rightarrow> LegacyRule" where
  "legacy_rule r =
     \<lparr>lr_UID = cr_RuleUID r, lr_Name = TrimSpace (cr_Name r), lr_Users = legacy_ids (items (cr_Users r)),
      lr_Pipelines = sort_key lg_PipelineID (map legacy_pipeline (items (cr_Pipelines r))),
      lr_CustomerStatuses = legacy_ids (items (cr_CustomerStatuses r)), lr_ShowModal = cr_ShowModal r,
      lr_DenyExit = cr_DenyExit r, lr_CheckResponsible = cr_CheckResponsible r,
      lr_Customers = cr_Customers r, lr_Enabled = cr_Enabled r, lr_Archived = cr_Archived r\<rparr>"

definition legacy_rules :: "control_rule list \<Rightarrow> LegacyRule list" where
  "legacy_rules rules = sort_key lr_UID (map legacy_rule rules)"

end
