(* ===== verification/Control_Json.thy ===== *)
theory Control_Json
  imports Control_Rules
begin

section \<open>Task control: JSON text and checksums\<close>

text \<open>
  The canonical JSON of \<^verbatim>\<open>references_revision.go\<close> and the checksum of \<^verbatim>\<open>rules.go\<close>, over what
  \<^verbatim>\<open>encoding/json\<close> writes. An encoder escapes quotes, backslashes, control characters, invalid bytes
  and the two Unicode line separators; ECMAScript leaves the separators as they are, so both sources
  put them back, \<^verbatim>\<open>canonicalJSON\<close> by reading escape by escape, \<^verbatim>\<open>Legacy\<close> by replacing text.

  A JSON value holds its fields in the order they are written; a Go map is a value of distinct keys.
  Reading text into a value is \<^verbatim>\<open>encoding/json\<close>'s, and the models of the decoders start from the value.
\<close>

datatype json = JNull | JBool bool | JNumber string | JString string | JArray "json list"
  | JObject "(string \<times> json) list"

subsection \<open>Strings\<close>

definition backslash :: char where "backslash = CHR 0x5C"
definition quote :: char where "quote = CHR 0x22"

definition line_separator :: string where "line_separator = [CHR 0xE2, CHR 0x80, CHR 0xA8]"
definition paragraph_separator :: string where "paragraph_separator = [CHR 0xE2, CHR 0x80, CHR 0xA9]"

definition hex_digit :: "nat \<Rightarrow> char" where
  "hex_digit d = (if d < 10 then char_of (48 + d) else char_of (87 + d))"

text \<open>One rune of a string as the encoder writes it; \<open>keep\<close> tells which separators stay.\<close>

definition json_escape :: "bool \<Rightarrow> (string \<Rightarrow> bool) \<Rightarrow> string \<Rightarrow> string" where
  "json_escape html keep r =
     (if r = line_separator then (if keep r then r else backslash # ''u2028'')
      else if r = paragraph_separator then (if keep r then r else backslash # ''u2029'')
      else case r of
        [c] \<Rightarrow>
          let b = (of_char c :: nat) in
          if \<not> ascii c then backslash # ''ufffd''
          else if c = quote \<or> c = backslash then [backslash, c]
          else if b = 8 then backslash # ''b''
          else if b = 12 then backslash # ''f''
          else if b = 10 then backslash # ''n''
          else if b = 13 then backslash # ''r''
          else if b = 9 then backslash # ''t''
          else if b < 0x20 \<or> html \<and> (c = CHR ''<'' \<or> c = CHR ''>'' \<or> c = CHR ''&'')
          then backslash # ''u00'' @ [hex_digit (b div 16), hex_digit (b mod 16)]
          else [c]
      | _ \<Rightarrow> r)"

definition json_body :: "bool \<Rightarrow> (string \<Rightarrow> bool) \<Rightarrow> string \<Rightarrow> string" where
  "json_body html keep s = concat (map (json_escape html keep) (runes s))"

definition json_quoted :: "bool \<Rightarrow> (string \<Rightarrow> bool) \<Rightarrow> string \<Rightarrow> string" where
  "json_quoted html keep s = quote # json_body html keep s @ [quote]"

subsection \<open>Putting the separators back\<close>

text \<open>The loop of \<^verbatim>\<open>canonicalJSON\<close>.\<close>

function canonical_unescape :: "string \<Rightarrow> string" where
  "canonical_unescape s =
     (case s of
        [] \<Rightarrow> []
      | c # rest \<Rightarrow>
          if c = backslash \<and> rest \<noteq> [] then
            if prefix ''u2028'' rest then line_separator @ canonical_unescape (drop 5 rest)
            else if prefix ''u2029'' rest then paragraph_separator @ canonical_unescape (drop 5 rest)
            else c # hd rest # canonical_unescape (tl rest)
          else c # canonical_unescape rest)"
  by pat_completeness auto
termination by (relation "measure length") auto

text \<open>\<^verbatim>\<open>bytes.ReplaceAll\<close> with a non-empty pattern.\<close>

function ReplaceAll :: "string \<Rightarrow> string \<Rightarrow> string \<Rightarrow> string" where
  "ReplaceAll old new s =
     (if old = [] \<or> s = [] then s
      else if prefix old s then new @ ReplaceAll old new (drop (length old) s)
      else hd s # ReplaceAll old new (tl s))"
  by pat_completeness auto
termination by (relation "measure (\<lambda>(old, new, s). length s)") auto

declare canonical_unescape.simps [simp del] ReplaceAll.simps [simp del]

definition separators_replaced :: "string \<Rightarrow> string" where
  "separators_replaced raw =
     ReplaceAll (backslash # ''u2029'') paragraph_separator
       (ReplaceAll (backslash # ''u2028'') line_separator raw)"

subsection \<open>Values\<close>

fun join :: "string \<Rightarrow> string list \<Rightarrow> string" where
  "join sep [] = []"
| "join sep [x] = x"
| "join sep (x # y # ys) = x @ sep @ join sep (y # ys)"

text \<open>The text of a value, as compact as \<^verbatim>\<open>json.Marshal\<close> and \<^verbatim>\<open>JSON.stringify\<close> write it.\<close>

fun json_text :: "bool \<Rightarrow> (string \<Rightarrow> bool) \<Rightarrow> json \<Rightarrow> string" where
  "json_text html keep JNull = ''null''"
| "json_text html keep (JBool b) = (if b then ''true'' else ''false'')"
| "json_text html keep (JNumber n) = n"
| "json_text html keep (JString s) = json_quoted html keep s"
| "json_text html keep (JArray vs) = ''['' @ join '','' (map (json_text html keep) vs) @ '']''"
| "json_text html keep (JObject fs) =
     ''{'' @ join '','' (map (\<lambda>(k, v). json_quoted html keep k @ '':'' @ json_text html keep v) fs) @ ''}''"

definition json_marshal :: "bool \<Rightarrow> json \<Rightarrow> string" where
  "json_marshal html v = json_text html (\<lambda>_. False) v"

definition JSON_stringify :: "json \<Rightarrow> string" where
  "JSON_stringify v = json_text False (\<lambda>_. True) v"

text \<open>The keys of an object are sorted; a value that is no string, object or array is marshalled.\<close>

definition canonical_string :: "string \<Rightarrow> string" where
  "canonical_string s = canonical_unescape (json_quoted False (\<lambda>_. False) s)"

fun canonicalJSON :: "json \<Rightarrow> string" where
  "canonicalJSON (JString s) = canonical_string s"
| "canonicalJSON (JObject fs) =
     ''{'' @ join '','' (map (\<lambda>(k, v). canonical_string k @ '':'' @ v)
       (sort_key fst (map (\<lambda>(k, v). (k, canonicalJSON v)) fs))) @ ''}''"
| "canonicalJSON (JArray vs) = ''['' @ join '','' (map canonicalJSON vs) @ '']''"
| "canonicalJSON JNull = ''null''"
| "canonicalJSON (JBool b) = (if b then ''true'' else ''false'')"
| "canonicalJSON (JNumber n) = n"

subsection \<open>Legacy\<close>

definition json_int :: "int \<Rightarrow> json" where
  "json_int v = JNumber (FormatInt v)"

definition legacy_pipeline_json :: "LegacyPipeline \<Rightarrow> json" where
  "legacy_pipeline_json p =
     JObject [(''pipeline_id'', json_int (lg_PipelineID p)),
              (''status_ids'', JArray (map json_int (lg_StatusIDs p)))]"

definition legacy_json :: "LegacyRule \<Rightarrow> json" where
  "legacy_json r =
     JObject [(''uid'', JString (lr_UID r)), (''name'', JString (lr_Name r)),
       (''users'', JArray (map json_int (lr_Users r))),
       (''pipelines'', JArray (map legacy_pipeline_json (lr_Pipelines r))),
       (''customer_statuses'', JArray (map json_int (lr_CustomerStatuses r))),
       (''show_modal'', JBool (lr_ShowModal r)), (''deny_exit'', JBool (lr_DenyExit r)),
       (''check_responsible'', JBool (lr_CheckResponsible r)), (''customers'', JBool (lr_Customers r)),
       (''enabled'', JBool (lr_Enabled r)), (''archived'', JBool (lr_Archived r))]"

definition Legacy :: "(string \<Rightarrow> string) \<Rightarrow> control_rule list \<Rightarrow> LegacyRule list \<times> string" where
  "Legacy sha256 rules =
     (let out = legacy_rules rules;
          raw = json_marshal False (JArray (map legacy_json out))
      in (out, sha256 (separators_replaced raw)))"

subsection \<open>The two ways to put the separators back\<close>

lemma backslash_ascii [simp]: "ascii backslash" "ascii quote" "backslash \<noteq> quote"
  by (simp_all add: backslash_def quote_def ascii_def)

lemma separators_high: "c \<in> set line_separator \<union> set paragraph_separator \<Longrightarrow> \<not> ascii c"
  by (auto simp: line_separator_def paragraph_separator_def ascii_def)

lemma unescape_plain: "c \<noteq> backslash \<Longrightarrow> canonical_unescape (c # s) = c # canonical_unescape s"
  by (subst canonical_unescape.simps) simp

lemma unescape_plain_list: "backslash \<notin> set p \<Longrightarrow> canonical_unescape (p @ s) = p @ canonical_unescape s"
  by (induction p) (auto simp: unescape_plain)

lemma unescape_line: "canonical_unescape (backslash # ''u2028'' @ s) = line_separator @ canonical_unescape s"
  by (subst canonical_unescape.simps) simp

lemma unescape_paragraph: "canonical_unescape (backslash # ''u2029'' @ s) = paragraph_separator @ canonical_unescape s"
  by (subst canonical_unescape.simps) (simp add: prefix_def)

lemma unescape_other:
  "\<not> prefix ''u2028'' (c # s) \<Longrightarrow> \<not> prefix ''u2029'' (c # s) \<Longrightarrow>
     canonical_unescape (backslash # c # s) = backslash # c # canonical_unescape s"
  by (subst canonical_unescape.simps) (simp only: list.simps if_True if_False simp_thms list.sel)

lemma hex_digit_plain: "d < 16 \<Longrightarrow> hex_digit d \<noteq> backslash"
proof -
  assume "d < 16"
  then have "d \<in> set [0..<16]" by simp
  moreover have "\<forall>d\<in>set [0..<16]. hex_digit d \<noteq> backslash" by code_simp
  ultimately show ?thesis by blast
qed

text \<open>An escaped rune is plain text or one escape sequence; only a backslash is escaped by two.\<close>

definition escape_form :: "string \<Rightarrow> bool" where
  "escape_form e \<longleftrightarrow> backslash \<notin> set e \<or> (\<exists>x. e = [backslash, x] \<and> x \<noteq> CHR ''u'') \<or>
     (\<exists>t. e = backslash # ''u'' @ t \<and> (t = ''fffd'' \<or> prefix ''00'' t) \<and> backslash \<notin> set t)"

lemma escape_cases:
  assumes "r \<in> set (runes s)"
  shows "r = line_separator \<or> r = paragraph_separator \<or>
    (json_escape html keep r = json_escape html keep' r \<and> escape_form (json_escape html keep r) \<and>
     (r \<noteq> [backslash] \<longrightarrow> (\<forall>x. json_escape html keep r = [backslash, x] \<longrightarrow> x \<noteq> backslash)))"
proof (cases "\<exists>c. r = [c]")
  case False
  then have high: "\<forall>c\<in>set r. \<not> ascii c" and "r \<noteq> []" using assms runes_shape runes_ne by blast+
  with False have r: "\<exists>c d t. r = c # d # t" by (metis list.exhaust)
  then have "r \<noteq> line_separator \<Longrightarrow> r \<noteq> paragraph_separator \<Longrightarrow> json_escape html k r = r" for k
    by (auto simp: json_escape_def)
  moreover have "backslash \<notin> set r" using high by auto
  ultimately show ?thesis unfolding escape_form_def by (metis list.set_intros(1))
next
  case True
  then obtain c where r: "r = [c]" by blast
  have "(of_char c :: nat) div 16 < 16" by (simp add: less_mult_imp_div_less of_char_def)
  then have h1: "hex_digit (of_char c div 16) \<noteq> backslash" by (rule hex_digit_plain)
  have h2: "hex_digit (of_char c mod 16) \<noteq> backslash" by (rule hex_digit_plain) simp
  have "[c] \<noteq> line_separator" "[c] \<noteq> paragraph_separator"
    by (simp_all add: line_separator_def paragraph_separator_def)
  with h1 h2 show ?thesis
    unfolding r json_escape_def Let_def escape_form_def
    by (auto simp: backslash_def quote_def)
qed

lemma unescape_form:
  assumes "escape_form e" shows "canonical_unescape (e @ t) = e @ canonical_unescape t"
proof -
  have escape: "canonical_unescape (backslash # x # u @ t) = backslash # x # u @ canonical_unescape t"
    if "x \<noteq> CHR ''u'' \<or> u = ''fffd'' \<or> prefix ''00'' u" "backslash \<notin> set u" for x u
  proof -
    have "\<not> prefix ''u2028'' (x # u @ t)" "\<not> prefix ''u2029'' (x # u @ t)"
      using that(1) by (auto simp: prefix_def)
    then have "canonical_unescape (backslash # x # u @ t) = backslash # x # canonical_unescape (u @ t)"
      by (rule unescape_other)
    with that(2) show ?thesis by (simp add: unescape_plain_list)
  qed
  from assms consider "backslash \<notin> set e" | x where "e = [backslash, x]" "x \<noteq> CHR ''u''"
    | u where "e = backslash # CHR ''u'' # u" "u = ''fffd'' \<or> prefix ''00'' u" "backslash \<notin> set u"
    by (auto simp: escape_form_def)
  then show ?thesis
  proof cases
    case 2
    then show ?thesis using escape[of x "[]"] by simp
  qed (use escape in \<open>simp_all add: unescape_plain_list\<close>)
qed

lemma json_escape_separators [simp]:
  "json_escape html keep line_separator = (if keep line_separator then line_separator else backslash # ''u2028'')"
  "json_escape html keep paragraph_separator =
     (if keep paragraph_separator then paragraph_separator else backslash # ''u2029'')"
  by (simp_all add: json_escape_def line_separator_def paragraph_separator_def)

lemma unescape_rune:
  "r \<in> set (runes s) \<Longrightarrow> canonical_unescape (json_escape html (\<lambda>_. False) r @ t) =
     json_escape html (\<lambda>_. True) r @ canonical_unescape t"
  using escape_cases[of r s html "\<lambda>_. False" "\<lambda>_. True"] unescape_line[of t] unescape_paragraph[of t]
  by (auto simp: unescape_form)

lemma unescape_body:
  "set rs \<subseteq> set (runes s) \<Longrightarrow>
     canonical_unescape (concat (map (json_escape html (\<lambda>_. False)) rs) @ t) =
     concat (map (json_escape html (\<lambda>_. True)) rs) @ canonical_unescape t"
  by (induction rs) (auto simp: unescape_rune)

lemma canonical_string_ecma: "canonical_string s = json_quoted False (\<lambda>_. True) s"
proof -
  have "canonical_unescape [quote] = [quote]"
    by (subst canonical_unescape.simps) (simp, subst canonical_unescape.simps, simp)
  then show ?thesis
    unfolding canonical_string_def json_quoted_def json_body_def
    using unescape_body[of "runes s" s False "[quote]"] backslash_ascii(3)
    by (simp add: unescape_plain not_sym)
qed

subsection \<open>The canonical text\<close>

fun sorted_fields :: "json \<Rightarrow> json" where
  "sorted_fields (JObject fs) = JObject (sort_key fst (map (\<lambda>(k, v). (k, sorted_fields v)) fs))"
| "sorted_fields (JArray vs) = JArray (map sorted_fields vs)"
| "sorted_fields v = v"

lemma insort_key_map: "insort_key f (h x) (map h xs) = map h (insort_key (\<lambda>y. f (h y)) x xs)"
  by (induction xs) auto

lemma sort_key_map: "sort_key f (map h xs) = map h (sort_key (\<lambda>y. f (h y)) xs)"
  by (induction xs) (simp_all add: insort_key_map)

lemma canonicalJSON_text: "canonicalJSON v = json_text False (\<lambda>_. True) (sorted_fields v)"
proof (induction v rule: canonicalJSON.induct)
  case (2 fs)
  have ext: "map (\<lambda>(k, v). (k, canonicalJSON v)) fs =
      map (\<lambda>(k, v). (k, json_text False (\<lambda>_. True) v)) (map (\<lambda>(k, v). (k, sorted_fields v)) fs)"
    using 2 by fastforce
  show ?case
    unfolding canonicalJSON.simps ext sort_key_map
    by (simp add: comp_def case_prod_unfold canonical_string_ecma sort_key_map)
qed (simp_all add: canonical_string_ecma cong: map_cong)

subsection \<open>Replacing text\<close>

text \<open>Text that a replacement turns into other text whatever follows.\<close>

definition replaces :: "string \<Rightarrow> string \<Rightarrow> string \<Rightarrow> string \<Rightarrow> bool" where
  "replaces old new p q \<longleftrightarrow> (\<forall>t. ReplaceAll old new (p @ t) = q @ ReplaceAll old new t)"

lemma replaces_append: "replaces old new p q \<Longrightarrow> replaces old new p' q' \<Longrightarrow> replaces old new (p @ p') (q @ q')"
  by (simp add: replaces_def)

lemma replaces_Nil [simp]: "replaces old new [] []"
  by (simp add: replaces_def)

lemma replaces_concat:
  "(\<And>x. x \<in> set xs \<Longrightarrow> replaces old new (f x) (g x)) \<Longrightarrow>
     replaces old new (concat (map f xs)) (concat (map g xs))"
  by (induction xs) (auto intro: replaces_append)

lemma replaces_join:
  "replaces old new sep sep \<Longrightarrow> (\<And>x. x \<in> set xs \<Longrightarrow> replaces old new (f x) (g x)) \<Longrightarrow>
     replaces old new (join sep (map f xs)) (join sep (map g xs))"
proof (induction xs rule: induct_list012)
  case (3 x y zs)
  then show ?case by (auto intro!: replaces_append)
qed auto

lemma ReplaceAll_step: "\<not> prefix (b # old) (c # t) \<Longrightarrow> ReplaceAll (b # old) new (c # t) = c # ReplaceAll (b # old) new t"
  by (subst ReplaceAll.simps) auto

lemma replaces_plain: "backslash \<notin> set p \<Longrightarrow> replaces (backslash # old) new p p"
  unfolding replaces_def
proof (induction p)
  case (Cons c p)
  then have "\<not> prefix (backslash # old) (c # p @ t)" for t by auto
  with Cons show ?case by (simp add: ReplaceAll_step)
qed simp

lemma replaces_hit: "replaces (backslash # old) new (backslash # old) new"
  unfolding replaces_def
proof
  fix t
  show "ReplaceAll (backslash # old) new ((backslash # old) @ t) = new @ ReplaceAll (backslash # old) new t"
    by (subst ReplaceAll.simps) simp
qed

lemma replaces_escape:
  assumes "\<And>t. \<not> prefix old (p @ t)" "backslash \<notin> set p"
  shows "replaces (backslash # old) new (backslash # p) (backslash # p)"
proof -
  have "ReplaceAll (backslash # old) new (backslash # p @ t) = backslash # p @ ReplaceAll (backslash # old) new t" for t
  proof -
    have "\<not> prefix (backslash # old) (backslash # p @ t)" using assms(1) by simp
    then show ?thesis
      using replaces_plain[OF assms(2), of old new] by (simp add: ReplaceAll_step replaces_def)
  qed
  then show ?thesis by (simp add: replaces_def)
qed

lemma replaces_form:
  assumes "escape_form e" "\<And>x. e = [backslash, x] \<Longrightarrow> x \<noteq> backslash"
  shows "replaces (backslash # ''u202'' @ [d]) new e e"
proof -
  from assms(1) consider "backslash \<notin> set e" | x where "e = [backslash, x]" "x \<noteq> CHR ''u''"
    | u where "e = backslash # CHR ''u'' # u" "u = ''fffd'' \<or> prefix ''00'' u" "backslash \<notin> set u"
    by (auto simp: escape_form_def)
  then show ?thesis
  proof cases
    case 2
    with assms(2) show ?thesis by (auto intro!: replaces_escape)
  next
    case 3
    then have "replaces (backslash # ''u202'' @ [d]) new (backslash # ''u'' @ u) (backslash # ''u'' @ u)"
      by (intro replaces_escape) (auto simp: prefix_def backslash_def)
    with 3 show ?thesis by simp
  qed (rule replaces_plain)
qed

abbreviation keep_line :: "string \<Rightarrow> bool" where
  "keep_line r \<equiv> r = line_separator"

lemma separators_differ [simp]: "line_separator \<noteq> paragraph_separator" "paragraph_separator \<noteq> line_separator"
  by (simp_all add: line_separator_def paragraph_separator_def)

lemma separators_plain [simp]: "backslash \<notin> set line_separator" "backslash \<notin> set paragraph_separator"
  by (simp_all add: line_separator_def paragraph_separator_def backslash_def)

lemma replaces_rune:
  assumes r: "r \<in> set (runes s)" and plain: "r \<noteq> [backslash]"
  shows "replaces (backslash # ''u2028'') line_separator (json_escape html (\<lambda>_. False) r) (json_escape html keep_line r)"
    and "replaces (backslash # ''u2029'') paragraph_separator (json_escape html keep_line r) (json_escape html (\<lambda>_. True) r)"
proof -
  have other: "replaces (backslash # ''u2028'') line_separator (backslash # ''u2029'') (backslash # ''u2029'')"
    by (rule replaces_escape) (simp_all add: backslash_def)
  consider "r = line_separator" | "r = paragraph_separator"
    | "r \<noteq> line_separator" "r \<noteq> paragraph_separator" by blast
  then have "replaces (backslash # ''u2028'') line_separator (json_escape html (\<lambda>_. False) r) (json_escape html keep_line r) \<and>
    replaces (backslash # ''u2029'') paragraph_separator (json_escape html keep_line r) (json_escape html (\<lambda>_. True) r)"
  proof cases
    case 3
    then have "escape_form (json_escape html k r)" "json_escape html k r = json_escape html k' r"
      "json_escape html k r = [backslash, x] \<Longrightarrow> x \<noteq> backslash" for k k' x
      using escape_cases[OF r, of html k k'] plain by blast+
    then show ?thesis
      using replaces_form[of _ "CHR ''8''" line_separator] replaces_form[of _ "CHR ''9''" paragraph_separator]
      by (metis append_Cons append_Nil)
  qed (simp_all add: replaces_hit replaces_plain other)
  then show "replaces (backslash # ''u2028'') line_separator (json_escape html (\<lambda>_. False) r) (json_escape html keep_line r)"
    "replaces (backslash # ''u2029'') paragraph_separator (json_escape html keep_line r) (json_escape html (\<lambda>_. True) r)"
    by simp_all
qed

text \<open>
  An escaped backslash is followed by the rest of the string, and together they may be the pattern. They
  are not, where the string does not hold the six characters of an escape itself.
\<close>

definition no_escape :: "string \<Rightarrow> bool" where
  "no_escape s \<longleftrightarrow> \<not> sublist (backslash # ''u2028'') s \<and> \<not> sublist (backslash # ''u2029'') s"

lemma no_escape_plain: "backslash \<notin> set s \<Longrightarrow> no_escape s"
  by (auto simp: no_escape_def dest: set_mono_sublist)

lemma json_escape_ne: "r \<noteq> [] \<Longrightarrow> json_escape html keep r \<noteq> []"
  by (auto simp: json_escape_def Let_def line_separator_def paragraph_separator_def split: list.splits)

lemma json_escape_plain_hd:
  assumes "r \<in> set (runes s)" "json_escape html keep r = c # z" "ascii c" "c \<noteq> backslash"
  shows "r = [c] \<and> z = []"
proof (cases "\<exists>d. r = [d]")
  case True
  then obtain d where "r = [d]" by blast
  with assms(2-4) show ?thesis
    by (auto simp: json_escape_def Let_def line_separator_def paragraph_separator_def split: if_splits)
next
  case False
  then have "\<forall>c\<in>set r. \<not> ascii c" "r \<noteq> []" using assms(1) runes_shape runes_ne by blast+
  with False have "json_escape html keep r = r \<or> hd (json_escape html keep r) = backslash"
    by (auto simp: json_escape_def split: list.splits)
  with assms(2-4) \<open>\<forall>c\<in>set r. \<not> ascii c\<close> show ?thesis by auto
qed

lemma escaped_prefix:
  "prefix w (concat (map (json_escape html keep) rs) @ quote # t) \<Longrightarrow> set rs \<subseteq> set (runes s) \<Longrightarrow>
     \<forall>c\<in>set w. ascii c \<and> c \<noteq> backslash \<and> c \<noteq> quote \<Longrightarrow> prefix w (concat rs)"
proof (induction rs arbitrary: w)
  case Nil
  then show ?case by (cases w) auto
next
  case (Cons r rs)
  show ?case
  proof (cases w)
    case (Cons c w')
    have "r \<noteq> []" using Cons.prems(2) runes_ne by auto
    then obtain z where z: "json_escape html keep r = c # z"
      using Cons.prems(1) json_escape_ne[of r html keep] by (cases "json_escape html keep r") (auto simp: Cons)
    then have r: "r = [c]" "z = []"
      using json_escape_plain_hd[OF _ z] Cons.prems(2,3) Cons by auto
    with Cons.IH[of w'] Cons.prems z Cons show ?thesis by auto
  qed simp
qed

lemma ReplaceAll_body:
  assumes d: "d = CHR ''8'' \<or> d = CHR ''9''"
    and other: "\<And>r. r \<in> set (runes s) \<Longrightarrow> r \<noteq> [backslash] \<Longrightarrow>
      replaces (backslash # ''u202'' @ [d]) new (json_escape html keep r) (json_escape html keep' r)"
  shows "set rs \<subseteq> set (runes s) \<Longrightarrow> \<not> sublist (backslash # ''u202'' @ [d]) (concat rs) \<Longrightarrow>
    ReplaceAll (backslash # ''u202'' @ [d]) new (concat (map (json_escape html keep) rs) @ quote # t) =
      concat (map (json_escape html keep') rs) @ quote # ReplaceAll (backslash # ''u202'' @ [d]) new t"
proof (induction rs)
  case Nil
  have "\<not> prefix (backslash # ''u202'' @ [d]) (quote # t)" by simp
  then show ?case by (simp add: ReplaceAll_step)
next
  case (Cons r rs)
  let ?old = "backslash # ''u202'' @ [d]" and ?rest = "concat (map (json_escape html keep) rs) @ quote # t"
  have sub: "\<not> sublist ?old (concat rs)" "\<not> sublist ?old (r @ concat rs)"
    using Cons.prems(2) by (auto simp: sublist_append)
  with Cons have IH: "ReplaceAll ?old new ?rest = concat (map (json_escape html keep') rs) @ quote # ReplaceAll ?old new t"
    by simp
  show ?case
  proof (cases "r = [backslash]")
    case False
    then have "replaces ?old new (json_escape html keep r) (json_escape html keep' r)" using Cons.prems(1) other by auto
    then show ?thesis using IH by (simp add: replaces_def)
  next
    case True
    have escape: "json_escape html k [backslash] = [backslash, backslash]" for k
      by (simp add: json_escape_def line_separator_def paragraph_separator_def)
    have "\<not> prefix (''u202'' @ [d]) ?rest"
    proof
      assume "prefix (''u202'' @ [d]) ?rest"
      then have "prefix (''u202'' @ [d]) (concat rs)"
        by (rule escaped_prefix) (use Cons.prems(1) d in \<open>auto simp: ascii_def backslash_def quote_def\<close>)
      then have "prefix ?old (r @ concat rs)" using True by simp
      with sub(2) show False by (auto dest: prefix_imp_sublist)
    qed
    then have "\<not> prefix ?old (backslash # ?rest)" "\<not> prefix ?old (backslash # backslash # ?rest)"
      by (auto simp: backslash_def)
    then show ?thesis using IH by (simp add: True escape ReplaceAll_step)
  qed
qed

lemma replaces_quoted:
  assumes "no_escape s"
  shows "replaces (backslash # ''u2028'') line_separator (json_quoted html (\<lambda>_. False) s) (json_quoted html keep_line s)"
    and "replaces (backslash # ''u2029'') paragraph_separator (json_quoted html keep_line s) (json_quoted html (\<lambda>_. True) s)"
proof -
  have quoted: "ReplaceAll (backslash # ''u202'' @ [d]) new (json_quoted html keep s @ t) =
      json_quoted html keep' s @ ReplaceAll (backslash # ''u202'' @ [d]) new t"
    if "d = CHR ''8'' \<or> d = CHR ''9''" "\<not> sublist (backslash # ''u202'' @ [d]) s" 
      "\<And>r. r \<in> set (runes s) \<Longrightarrow> r \<noteq> [backslash] \<Longrightarrow>
         replaces (backslash # ''u202'' @ [d]) new (json_escape html keep r) (json_escape html keep' r)" for d new keep keep' t
  proof -
    have "\<not> prefix (backslash # ''u202'' @ [d]) (quote # x)" for x by simp
    with ReplaceAll_body[where s = s, OF that(1) that(3) subset_refl, of t] that(2) show ?thesis
      by (simp add: json_quoted_def json_body_def ReplaceAll_step)
  qed
  show "replaces (backslash # ''u2028'') line_separator (json_quoted html (\<lambda>_. False) s) (json_quoted html keep_line s)"
    using quoted[of "CHR ''8''" line_separator "\<lambda>_. False" keep_line] replaces_rune(1)[of _ s html] assms
    by (simp add: replaces_def no_escape_def)
  show "replaces (backslash # ''u2029'') paragraph_separator (json_quoted html keep_line s) (json_quoted html (\<lambda>_. True) s)"
    using quoted[of "CHR ''9''" paragraph_separator keep_line "\<lambda>_. True"] replaces_rune(2)[of _ s html] assms
    by (simp add: replaces_def no_escape_def)
qed

fun no_escapes :: "json \<Rightarrow> bool" where
  "no_escapes (JString s) \<longleftrightarrow> no_escape s"
| "no_escapes (JNumber n) \<longleftrightarrow> backslash \<notin> set n"
| "no_escapes (JArray vs) \<longleftrightarrow> (\<forall>v\<in>set vs. no_escapes v)"
| "no_escapes (JObject fs) \<longleftrightarrow> (\<forall>(k, v)\<in>set fs. no_escape k \<and> no_escapes v)"
| "no_escapes v \<longleftrightarrow> True"

lemma backslash_differs [simp]:
  "c \<in> set ''[]{},:-truefalsn0123456789'' \<Longrightarrow> backslash \<noteq> c"
  by (auto simp: backslash_def)

lemma replaces_text:
  assumes quoted: "\<And>s. no_escape s \<Longrightarrow>
    replaces (backslash # old) new (json_quoted html keep s) (json_quoted html keep' s)"
  shows "no_escapes v \<Longrightarrow> replaces (backslash # old) new (json_text html keep v) (json_text html keep' v)"
proof (induction v rule: no_escapes.induct)
  case (3 vs)
  then show ?case
    unfolding json_text.simps
    by (intro replaces_append replaces_join) (auto intro: replaces_plain)
next
  case (4 fs)
  have "replaces (backslash # old) new
     (case x of (k, v) \<Rightarrow> json_quoted html keep k @ '':'' @ json_text html keep v)
     (case x of (k, v) \<Rightarrow> json_quoted html keep' k @ '':'' @ json_text html keep' v)" if "x \<in> set fs" for x
  proof (cases x)
    case (Pair k v)
    then have "no_escape k" "replaces (backslash # old) new (json_text html keep v) (json_text html keep' v)"
      using 4 that by auto
    then show ?thesis
      unfolding Pair prod.case by (intro replaces_append quoted) (simp_all add: replaces_plain)
  qed
  then show ?case
    unfolding json_text.simps
    by (intro replaces_append replaces_join) (auto intro: replaces_plain)
qed (auto simp: quoted intro: replaces_plain)

lemma separators_replaced_text:
  assumes "no_escapes v"
  shows "separators_replaced (json_text html (\<lambda>_. False) v) = json_text html (\<lambda>_. True) v"
proof -
  have "replaces (backslash # ''u2028'') line_separator (json_text html (\<lambda>_. False) v) (json_text html keep_line v)"
    "replaces (backslash # ''u2029'') paragraph_separator (json_text html keep_line v) (json_text html (\<lambda>_. True) v)"
    using assms by (auto intro: replaces_text replaces_quoted)
  from this[unfolded replaces_def, THEN spec[of _ "[]"]]
  show ?thesis by (simp add: separators_replaced_def ReplaceAll.simps[of _ _ "[]"])
qed

end
