(* ===== verification/Control_Checksum.thy ===== *)
theory Control_Checksum
  imports Control_Json
begin

section \<open>Task control: what the checksums compare\<close>

text \<open>
  The numeric form of \<^verbatim>\<open>rules.go\<close> is a canonical one: two valid lists of rules have the same form
  exactly when they hold the same rules with the same selections, in whatever order they name them.
\<close>

subsection \<open>Valid rules\<close>

lemma distinct_valid_iff: "distinct_valid ok seen vs \<longleftrightarrow> (\<forall>v\<in>set vs. ok v \<and> v \<notin> set seen) \<and> distinct vs"
  by (induction ok seen vs rule: distinct_valid.induct) auto

definition crm_list :: "string slice \<Rightarrow> bool" where
  "crm_list s \<longleftrightarrow> s \<noteq> None \<and> length (items s) \<le> 1000 \<and> distinct (items s) \<and> (\<forall>v\<in>set (items s). ValidCRMID v)"

lemma crmSet_iff: "crmSet s required \<longleftrightarrow> crm_list s \<and> (required \<longrightarrow> items s \<noteq> [])"
  by (auto simp: crmSet_def crm_list_def distinct_valid_iff)

definition valid_rule :: "uuid_lib \<Rightarrow> control_rule \<Rightarrow> bool" where
  "valid_rule ul r \<longleftrightarrow>
     validUUID ul (cr_RuleUID r) \<and> TrimSpace (cr_Name r) \<noteq> '''' \<and> RuneCount (cr_Name r) \<le> 200 \<and>
     crm_list (cr_Users r) \<and> items (cr_Users r) \<noteq> [] \<and> crm_list (cr_CustomerStatuses r) \<and>
     cr_Pipelines r \<noteq> None \<and> length (items (cr_Pipelines r)) \<le> 1000 \<and>
     distinct (map pp_PipelineID (items (cr_Pipelines r))) \<and>
     (\<forall>p\<in>set (items (cr_Pipelines r)). ValidCRMID (pp_PipelineID p) \<and> crm_list (pp_StatusIDs p) \<and> items (pp_StatusIDs p) \<noteq> []) \<and>
     (cr_Customers r \<or> items (cr_Pipelines r) \<noteq> [])"

lemma validate_pipelines_iff:
  "validate_pipelines i seen ps = [] \<longleftrightarrow>
     (\<forall>p\<in>set ps. ValidCRMID (pp_PipelineID p) \<and> pp_PipelineID p \<notin> set seen \<and>
        crm_list (pp_StatusIDs p) \<and> items (pp_StatusIDs p) \<noteq> []) \<and>
     distinct (map pp_PipelineID ps)"
  by (induction i seen ps rule: validate_pipelines.induct) (auto simp: crmSet_iff image_iff eq_commute)

lemma validate_rule_iff: "validate_rule ul i seen r = [] \<longleftrightarrow> valid_rule ul r \<and> cr_RuleUID r \<notin> set seen"
  by (auto simp: validate_rule_def valid_rule_def bad_uid_def validUUID_def crmSet_iff validate_pipelines_iff
      simp del: length_greater_0_conv)

lemma validate_rules_from_iff:
  "validate_rules_from ul i seen rs = [] \<longleftrightarrow>
     (\<forall>r\<in>set rs. valid_rule ul r \<and> cr_RuleUID r \<notin> set seen) \<and> distinct (map cr_RuleUID rs)"
proof (induction ul i seen rs rule: validate_rules_from.induct)
  case (2 ul i seen r rs)
  have "(\<forall>x\<in>set rs. cr_RuleUID x \<noteq> cr_RuleUID r) \<longleftrightarrow> cr_RuleUID r \<notin> cr_RuleUID ` set rs"
    by (auto simp: image_iff)
  with 2 show ?case by (auto simp: validate_rule_iff)
qed simp

lemma ValidateRules_valid:
  "ValidateRules ul rules = [] \<longleftrightarrow>
     rules \<noteq> None \<and> length (items rules) \<le> 1000 \<and> distinct (map cr_RuleUID (items rules)) \<and>
     (\<forall>r\<in>set (items rules). valid_rule ul r)"
  by (auto simp: ValidateRules_def validate_rules_from_iff)

subsection \<open>The numeric form of a rule\<close>

text \<open>What a rule says, without the order in which it says it.\<close>

definition pipeline_meaning :: "Pipeline \<Rightarrow> string \<times> string set" where
  "pipeline_meaning p = (pp_PipelineID p, set (items (pp_StatusIDs p)))"

definition rule_flags :: "control_rule \<Rightarrow> bool list" where
  "rule_flags r = [cr_ShowModal r, cr_DenyExit r, cr_CheckResponsible r, cr_Customers r, cr_Enabled r, cr_Archived r]"

definition rule_meaning ::
    "control_rule \<Rightarrow> ID \<times> string \<times> string set \<times> (string \<times> string set) set \<times> string set \<times> bool list" where
  "rule_meaning r =
     (cr_RuleUID r, TrimSpace (cr_Name r), set (items (cr_Users r)),
      pipeline_meaning ` set (items (cr_Pipelines r)), set (items (cr_CustomerStatuses r)), rule_flags r)"

lemma crm_numbers_inj: "inj_on crm_number {s. ValidCRMID s}"
  by (auto simp: inj_on_def crm_number_inj)

lemma sort_key_of_set:
  assumes "set xs = set ys" "distinct xs" "distinct ys" "inj_on k (set xs)"
  shows "sort_key k xs = sort_key k ys"
  by (rule map_sorted_distinct_set_unique[where f = k]) (use assms in \<open>auto simp: distinct_map\<close>)

lemma legacy_ids_of_set:
  assumes "crm_list a" "crm_list b"
  shows "legacy_ids (items a) = legacy_ids (items b) \<longleftrightarrow> set (items a) = set (items b)"
proof
  assume "legacy_ids (items a) = legacy_ids (items b)"
  then have "crm_number ` set (items a) = crm_number ` set (items b)"
    by (metis legacy_ids_def set_map set_sort)
  with assms show "set (items a) = set (items b)"
    using inj_on_image_eq_iff[OF crm_numbers_inj] by (simp add: crm_list_def subset_iff)
next
  assume "set (items a) = set (items b)"
  with assms show "legacy_ids (items a) = legacy_ids (items b)"
    unfolding legacy_ids_def sort_key_map
    by (intro arg_cong[where f = "map crm_number"] sort_key_of_set)
       (auto simp: crm_list_def inj_on_def crm_number_inj)
qed

lemma legacy_pipeline_of_meaning:
  assumes "ValidCRMID (pp_PipelineID p)" "ValidCRMID (pp_PipelineID q)" "crm_list (pp_StatusIDs p)" "crm_list (pp_StatusIDs q)"
  shows "legacy_pipeline p = legacy_pipeline q \<longleftrightarrow> pipeline_meaning p = pipeline_meaning q"
  using assms by (auto simp: legacy_pipeline_def pipeline_meaning_def legacy_ids_of_set crm_number_inj)

lemma image_eq_of_meaning:
  fixes f :: "'a \<Rightarrow> 'z" and g :: "'a \<Rightarrow> 'y"
  assumes "\<And>x y. x \<in> A \<Longrightarrow> y \<in> B \<Longrightarrow> f x = f y \<longleftrightarrow> g x = g y"
  shows "f ` A = f ` B \<longleftrightarrow> g ` A = g ` B"
proof -
  have sub: "h ` X \<subseteq> h ` Y \<longleftrightarrow> (\<forall>x\<in>X. \<exists>y\<in>Y. h x = h y)" for h :: "'a \<Rightarrow> 'z" and X Y
    by (simp add: image_subset_iff image_iff)
  have sub': "h ` X \<subseteq> h ` Y \<longleftrightarrow> (\<forall>x\<in>X. \<exists>y\<in>Y. h x = h y)" for h :: "'a \<Rightarrow> 'y" and X Y
    by (simp add: image_subset_iff image_iff)
  have "(\<forall>x\<in>A. \<exists>y\<in>B. f x = f y) \<longleftrightarrow> (\<forall>x\<in>A. \<exists>y\<in>B. g x = g y)" using assms by simp
  moreover have "(\<forall>y\<in>B. \<exists>x\<in>A. f y = f x) \<longleftrightarrow> (\<forall>y\<in>B. \<exists>x\<in>A. g y = g x)"
  proof (intro ball_cong bex_cong refl)
    fix y x assume "y \<in> B" "x \<in> A"
    then show "f y = f x \<longleftrightarrow> g y = g x" using assms[of x y] by auto
  qed
  ultimately show ?thesis by (simp add: set_eq_subset sub sub')
qed

lemma sorted_map_of_meaning:
  assumes "distinct (map k (map f xs))" "distinct (map k (map f ys))"
    and "\<And>x y. x \<in> set xs \<Longrightarrow> y \<in> set ys \<Longrightarrow> f x = f y \<longleftrightarrow> g x = g y"
  shows "sort_key k (map f xs) = sort_key k (map f ys) \<longleftrightarrow> g ` set xs = g ` set ys"
proof -
  have "inj_on k (set (map f xs))" "distinct (map f xs)" "distinct (map f ys)"
    using assms(1,2) by (simp_all only: distinct_map[of k])
  then have "set (map f xs) = set (map f ys) \<Longrightarrow> sort_key k (map f xs) = sort_key k (map f ys)"
    by (intro sort_key_of_set)
  moreover have "sort_key k (map f xs) = sort_key k (map f ys) \<Longrightarrow> set (map f xs) = set (map f ys)"
    by (metis set_sort)
  ultimately show ?thesis using image_eq_of_meaning[of "set xs" "set ys" f g] assms(3) by auto
qed

lemma legacy_rule_of_meaning:
  assumes "valid_rule ul r" "valid_rule ul q"
  shows "legacy_rule r = legacy_rule q \<longleftrightarrow> rule_meaning r = rule_meaning q"
proof -
  have keys: "distinct (map lg_PipelineID (map legacy_pipeline (items (cr_Pipelines x))))" if "valid_rule ul x" for x
    using that crm_number_inj
    by (auto simp: valid_rule_def distinct_map legacy_pipeline_def inj_on_def)
  have "legacy_pipeline x = legacy_pipeline y \<longleftrightarrow> pipeline_meaning x = pipeline_meaning y"
    if "x \<in> set (items (cr_Pipelines r))" "y \<in> set (items (cr_Pipelines q))" for x y
    by (rule legacy_pipeline_of_meaning) (use assms that in \<open>simp_all add: valid_rule_def\<close>)
  with assms have "sort_key lg_PipelineID (map legacy_pipeline (items (cr_Pipelines r))) =
      sort_key lg_PipelineID (map legacy_pipeline (items (cr_Pipelines q))) \<longleftrightarrow>
    pipeline_meaning ` set (items (cr_Pipelines r)) = pipeline_meaning ` set (items (cr_Pipelines q))"
    by (intro sorted_map_of_meaning keys)
  moreover have "crm_list (cr_Users r)" "crm_list (cr_Users q)" "crm_list (cr_CustomerStatuses r)" "crm_list (cr_CustomerStatuses q)"
    using assms by (simp_all add: valid_rule_def)
  ultimately show ?thesis
    by (auto simp: legacy_rule_def rule_meaning_def rule_flags_def legacy_ids_of_set)
qed

lemma legacy_rules_of_meaning:
  assumes "ValidateRules ul rules = []" "ValidateRules ul rules' = []"
  shows "legacy_rules (items rules) = legacy_rules (items rules') \<longleftrightarrow>
    rule_meaning ` set (items rules) = rule_meaning ` set (items rules')"
proof -
  have uid: "map lr_UID (map legacy_rule rs) = map cr_RuleUID rs" for rs
    by (simp add: legacy_rule_def)
  show ?thesis
    unfolding legacy_rules_def
    by (rule sorted_map_of_meaning) (use assms in \<open>auto simp: uid ValidateRules_valid legacy_rule_of_meaning simp del: map_map\<close>)
qed

lemma decimal_plain: "backslash \<notin> set (decimal n)"
proof (induction n rule: decimal.induct)
  case (1 n)
  have "digit_char d \<noteq> backslash" if "d < 10" for d
    using digit_value_char[OF that] by (auto simp: digit_value_def backslash_def)
  with 1 show ?case by (subst decimal.simps) (auto simp: eq_commute[of backslash])
qed

lemma legacy_json_plain:
  assumes "no_escape (lr_UID r)" "no_escape (lr_Name r)"
  shows "no_escapes (legacy_json r)"
proof -
  have "backslash \<notin> set (FormatInt v)" for v by (simp add: FormatInt_def decimal_plain)
  then have "no_escapes (json_int v)" for v by (simp add: json_int_def)
  moreover have "no_escape k" if "backslash \<notin> set k" for k using that by (rule no_escape_plain)
  ultimately show ?thesis
    using assms by (auto simp: legacy_json_def legacy_pipeline_json_def) (simp_all add: no_escape_plain backslash_def)
qed

lemma no_escape_TrimSpace: "no_escape s \<Longrightarrow> no_escape (TrimSpace s)"
proof -
  obtain pre suf where "s = pre @ TrimSpace s @ suf" using TrimSpace_infix[of s] by blast
  then have "sublist (TrimSpace s) s" by (metis sublist_appendI)
  then show "no_escape s \<Longrightarrow> no_escape (TrimSpace s)"
    unfolding no_escape_def by (blast intro: sublist_order.order.trans)
qed

lemma legacy_checksum_plain:
  assumes "\<forall>r\<in>set rules. no_escape (cr_RuleUID r) \<and> no_escape (cr_Name r)"
  shows "snd (Legacy sha256 rules) = sha256 (JSON_stringify (JArray (map legacy_json (legacy_rules rules))))"
proof -
  have "no_escape (lr_UID l) \<and> no_escape (lr_Name l)" if "l \<in> set (legacy_rules rules)" for l
    using that assms by (auto simp: legacy_rules_def legacy_rule_def no_escape_TrimSpace)
  then have "no_escapes (JArray (map legacy_json (legacy_rules rules)))"
    by (auto simp: legacy_json_plain)
  then show ?thesis
    by (simp only: Legacy_def Let_def fst_conv snd_conv JSON_stringify_def json_marshal_def separators_replaced_text)
qed

subsection \<open>The properties\<close>

definition uuid_example :: uuid_lib where
  "uuid_example = \<lparr>ul_Nil = ''nil'', ul_Version = (\<lambda>_. 4), ul_RFC4122 = (\<lambda>_. True)\<rparr>"

definition rule_example :: "string \<Rightarrow> string list \<Rightarrow> control_rule" where
  "rule_example name users =
     \<lparr>cr_RuleUID = ''r1'', cr_Name = name, cr_Users = Some users,
      cr_Pipelines = Some [\<lparr>pp_PipelineID = ''7'', pp_StatusIDs = Some [''10'', ''9'']\<rparr>],
      cr_Customers = False, cr_CustomerStatuses = Some [], cr_ShowModal = True, cr_DenyExit = False,
      cr_CheckResponsible = False, cr_Enabled = True, cr_Archived = False\<rparr>"

text \<open>The canonical JSON of the reference revision is, on every value, the text that
  \<^verbatim>\<open>JSON.stringify\<close> writes for the value with the keys of its objects sorted: the loop that puts the
  line separators back undoes exactly the encoder's escapes and no literal text.\<close>

theorem canonicalJSON_is_stringify: "canonicalJSON v = JSON_stringify (sorted_fields v)"
  by (simp add: canonicalJSON_text JSON_stringify_def)

abbreviation escaped_name :: string where
  "escaped_name \<equiv> backslash # ''u2028''"

lemma escaped_name_trimmed: "TrimSpace escaped_name = escaped_name"
  by code_simp

lemma crm_number_decimal: "n < 2 ^ 63 \<Longrightarrow> crm_number (decimal n) = int n"
  by (simp add: crm_number_def ParseInt_decimal)

lemma small_decimals: "decimal 5 = ''5''" "decimal 7 = ''7''" "decimal 9 = ''9''" "decimal 10 = ''10''"
  by (simp_all add: decimal.simps digit_char_def char_of_def bit_Suc_0_iff)

lemma escaped_example_ids: "crm_number ''5'' = 5" "crm_number ''7'' = 7" "crm_number ''9'' = 9" "crm_number ''10'' = 10"
  using crm_number_decimal[of 5] crm_number_decimal[of 7] crm_number_decimal[of 9] crm_number_decimal[of 10]
  by (simp_all add: small_decimals)

lemma escaped_example_form:
  "legacy_rules [rule_example escaped_name [''5'']] =
     [\<lparr>lr_UID = ''r1'', lr_Name = escaped_name, lr_Users = [5],
       lr_Pipelines = [\<lparr>lg_PipelineID = 7, lg_StatusIDs = [9, 10]\<rparr>], lr_CustomerStatuses = [],
       lr_ShowModal = True, lr_DenyExit = False, lr_CheckResponsible = False, lr_Customers = False,
       lr_Enabled = True, lr_Archived = False\<rparr>]"
  by (simp add: legacy_rules_def legacy_rule_def rule_example_def escaped_name_trimmed escaped_example_ids
      legacy_pipeline_def legacy_ids_def)

lemma escaped_name_text:
  "separators_replaced (json_marshal False (JArray (map legacy_json (legacy_rules [rule_example escaped_name [''5'']])))) \<noteq>
     JSON_stringify (JArray (map legacy_json (legacy_rules [rule_example escaped_name [''5'']])))"
  unfolding escaped_example_form by code_simp

text \<open>(C29) For rules whose identifiers and names do not hold the six characters of an escaped line separator, a
  backslash, \<^verbatim>\<open>u202\<close> and \<^verbatim>\<open>8\<close> or \<^verbatim>\<open>9\<close>, the legacy checksum is that of the text \<^verbatim>\<open>JSON.stringify\<close> writes for the numeric
  form; quotes, other backslashes and line separators do not matter. With a name that does hold them the
  hashed text is another one, since \<^verbatim>\<open>Legacy\<close> replaces them too.\<close>

theorem Legacy_checksum_text:
  "((\<forall>r\<in>set rules. no_escape (cr_RuleUID r) \<and> no_escape (cr_Name r)) \<longrightarrow>
     snd (Legacy sha256 rules) = sha256 (JSON_stringify (JArray (map legacy_json (fst (Legacy sha256 rules)))))) \<and>
   snd (Legacy (\<lambda>text. text) [rule_example escaped_name [''5'']]) \<noteq>
     JSON_stringify (JArray (map legacy_json (fst (Legacy (\<lambda>text. text) [rule_example escaped_name [''5'']]))))"
proof (intro conjI impI)
  assume "\<forall>r\<in>set rules. no_escape (cr_RuleUID r) \<and> no_escape (cr_Name r)"
  from legacy_checksum_plain[OF this]
  show "snd (Legacy sha256 rules) = sha256 (JSON_stringify (JArray (map legacy_json (fst (Legacy sha256 rules)))))"
    by (simp add: Legacy_def Let_def)
qed (use escaped_name_text in \<open>simp add: Legacy_def Let_def\<close>)

theorem Legacy_checksum_text_witness:
  "snd (Legacy (\<lambda>text. text) [rule_example (CHR ''A'' # backslash # ''u20'') [''5'']]) =
     (JSON_stringify (JArray (map legacy_json (fst (Legacy (\<lambda>text. text) [rule_example (CHR ''A'' # backslash # ''u20'') [''5'']])))))"
proof -
  have "no_escape ''r1''" by (rule no_escape_plain) (simp add: backslash_def)
  moreover have "no_escape (CHR ''A'' # backslash # ''u20'')"
    by (auto simp: no_escape_def sublist_Cons_right prefix_def backslash_def)
  ultimately show ?thesis
    using Legacy_checksum_text[of "[rule_example (CHR ''A'' # backslash # ''u20'') [''5'']]" "\<lambda>text. text"]
    by (simp add: rule_example_def)
qed

text \<open>The numeric form is canonical: two valid lists of rules have the same form, and so the same
  checksum, exactly when they hold the same rules, each with the same selections and settings,
  whatever the order of rules, users, pipelines and stages and the space around the names.\<close>

theorem Legacy_canonical:
  assumes "ValidateRules ul rules = []" "ValidateRules ul rules' = []"
  shows "(fst (Legacy sha256 (items rules)) = fst (Legacy sha256 (items rules')) \<longleftrightarrow>
       rule_meaning ` set (items rules) = rule_meaning ` set (items rules')) \<and>
     (rule_meaning ` set (items rules) = rule_meaning ` set (items rules') \<longrightarrow>
       snd (Legacy sha256 (items rules)) = snd (Legacy sha256 (items rules')))"
  using legacy_rules_of_meaning[OF assms] by (auto simp: Legacy_def Let_def)

lemma ValidCRMID_decimal: "0 < n \<Longrightarrow> n \<le> 9007199254740991 \<Longrightarrow> ValidCRMID (decimal n)"
  by (auto simp: ValidCRMID_iff)

lemma example_ids_valid: "ValidCRMID ''5''" "ValidCRMID ''7''" "ValidCRMID ''9''" "ValidCRMID ''10''"
  using ValidCRMID_decimal[of 5] ValidCRMID_decimal[of 7] ValidCRMID_decimal[of 9] ValidCRMID_decimal[of 10]
  by (simp_all add: small_decimals)

lemma example_names: "TrimSpace '' A'' = ''A''" "TrimSpace ''A'' = ''A''" "RuneCount '' A'' = 2" "RuneCount ''A'' = 1"
  by code_simp+

lemma example_rules_valid:
  "ValidateRules uuid_example (Some [rule_example '' A'' [''9'', ''5'']]) = []"
  "ValidateRules uuid_example (Some [rule_example ''A'' [''5'', ''9'']]) = []"
  by (simp_all add: ValidateRules_valid valid_rule_def rule_example_def uuid_example_def validUUID_def
      crm_list_def example_ids_valid example_names)

theorem Legacy_canonical_witness:
  "snd (Legacy (\<lambda>text. text) [rule_example '' A'' [''9'', ''5'']]) = snd (Legacy (\<lambda>text. text) [rule_example ''A'' [''5'', ''9'']])"
  using Legacy_canonical[OF example_rules_valid, of "\<lambda>text. text"]
  by (simp add: rule_meaning_def rule_example_def example_names rule_flags_def insert_commute)

end
