(* ===== verification/Control_Intent.thy ===== *)
theory Control_Intent
  imports Control_Checksum
begin

section \<open>Task control: dynamic rules\<close>

text \<open>
  \<^verbatim>\<open>intent.go\<close>: a dynamic rule selects employees, leads and customers by intent instead of listing CRM
  identifiers. Its data, its structural validation, and the order \<^verbatim>\<open>IntentChecksum\<close> brings it into
  before it is hashed. \<^verbatim>\<open>Kind\<close> fields are the text they are in the source; a slice that may be nil is
  an option.
\<close>

subsection \<open>Data\<close>

record DepartmentSelection =
  ds_DepartmentID :: ID
  ds_IncludeDescendants :: bool

record AudienceSelection =
  as_Kind :: string
  as_EmployeeIDs :: "ID slice"
  as_Departments :: "DepartmentSelection slice"

record StageSelection =
  ss_Kind :: string
  ss_StatusIDs :: "string slice"

record PipelineSelection =
  ps_PipelineID :: string
  ps_Stages :: StageSelection

record LeadSelection =
  ls_Kind :: string
  ls_Pipelines :: "PipelineSelection slice"

record CustomerSelection =
  cs_Kind :: string
  cs_StatusIDs :: "string slice"

record RuleV2 =
  rv_SchemaVersion :: int
  rv_RuleUID :: ID
  rv_Name :: string
  rv_Audience :: AudienceSelection
  rv_Leads :: LeadSelection
  rv_Customers :: CustomerSelection
  rv_ShowModal :: bool
  rv_DenyExit :: bool
  rv_CheckResponsible :: bool
  rv_Enabled :: bool
  rv_Archived :: bool

record IntentRule =
  ir_Kind :: string
  ir_Dynamic :: "RuleV2 option"
  ir_Legacy :: "control_rule option"

subsection \<open>Validation\<close>

text \<open>The messages of one rule, in the order of the calls of \<^verbatim>\<open>add\<close>.\<close>

fun invalid_ids :: "('a \<Rightarrow> bool) \<Rightarrow> control_message \<Rightarrow> 'a list \<Rightarrow> 'a list \<Rightarrow> control_message list" where
  "invalid_ids ok m seen [] = []"
| "invalid_ids ok m seen (v # vs) =
     (if \<not> ok v \<or> v \<in> set seen then [m] else []) @ invalid_ids ok m (v # seen) vs"

definition audience_messages :: "uuid_lib \<Rightarrow> AudienceSelection \<Rightarrow> control_message list" where
  "audience_messages ul a =
     (if as_Kind a = ''allLinked'' then
        (if as_EmployeeIDs a \<noteq> None \<or> as_Departments a \<noteq> None then [MsgAllLinkedLists] else [])
      else if as_Kind a = ''selected'' then
        (if as_EmployeeIDs a = None \<or> as_Departments a = None \<or>
            length (items (as_EmployeeIDs a)) + length (items (as_Departments a)) = 0 \<or>
            length (items (as_EmployeeIDs a)) > 1000 \<or> length (items (as_Departments a)) > 1000
         then [MsgAudienceEmpty] else []) @
        invalid_ids (validUUID ul) MsgEmployeeUUID [] (items (as_EmployeeIDs a)) @
        invalid_ids (validUUID ul) MsgDepartmentUUID [] (map ds_DepartmentID (items (as_Departments a)))
      else [MsgAudienceKind])"

definition stage_messages :: "StageSelection \<Rightarrow> control_message list" where
  "stage_messages s =
     (if ss_Kind s = ''allOpen'' then (if ss_StatusIDs s \<noteq> None then [MsgAllOpenStages] else [])
      else if ss_Kind s = ''selected'' then
        (if \<not> crmSet (ss_StatusIDs s) True then [MsgStagesEmpty] else []) @
        concat (map (\<lambda>i. if i = ''142'' \<or> i = ''143'' then [MsgStageClosed] else []) (items (ss_StatusIDs s)))
      else [MsgStagesKind])"

fun pipeline_messages :: "string list \<Rightarrow> PipelineSelection list \<Rightarrow> control_message list" where
  "pipeline_messages seen [] = []"
| "pipeline_messages seen (p # ps) =
     (if \<not> ValidCRMID (ps_PipelineID p) \<or> ps_PipelineID p \<in> set seen then [MsgPipelineInvalid] else []) @
     stage_messages (ps_Stages p) @ pipeline_messages (ps_PipelineID p # seen) ps"

definition lead_messages :: "LeadSelection \<Rightarrow> control_message list" where
  "lead_messages l =
     (if ls_Kind l = ''disabled'' \<or> ls_Kind l = ''allOpen'' then
        (if ls_Pipelines l \<noteq> None then [MsgLeadsLists] else [])
      else if ls_Kind l = ''selected'' then
        (if length (items (ls_Pipelines l)) = 0 \<or> length (items (ls_Pipelines l)) > 1000
         then [MsgPipelinesEmpty] else []) @
        pipeline_messages [] (items (ls_Pipelines l))
      else [MsgLeadsKind])"

definition customer_messages :: "CustomerSelection \<Rightarrow> control_message list" where
  "customer_messages c =
     (if cs_Kind c = ''disabled'' \<or> cs_Kind c = ''all'' then
        (if cs_StatusIDs c \<noteq> None then [MsgCustomersLists] else [])
      else if cs_Kind c = ''selected'' then
        (if \<not> crmSet (cs_StatusIDs c) True then [MsgCustomersEmpty] else [])
      else [MsgCustomersKind])"

definition dynamic_messages :: "uuid_lib \<Rightarrow> RuleV2 \<Rightarrow> control_message list" where
  "dynamic_messages ul r =
     (if rv_SchemaVersion r \<noteq> 2 \<or> TrimSpace (rv_Name r) = '''' \<or> RuneCount (rv_Name r) > 200
      then [MsgVersionName] else []) @
     audience_messages ul (rv_Audience r) @ lead_messages (rv_Leads r) @ customer_messages (rv_Customers r) @
     (if ls_Kind (rv_Leads r) = ''disabled'' \<and> cs_Kind (rv_Customers r) = ''disabled'' then [MsgNoTarget] else [])"

text \<open>The nil identifier stands for a rule of neither kind.\<close>

definition intent_uid :: "uuid_lib \<Rightarrow> IntentRule \<Rightarrow> ID" where
  "intent_uid ul item =
     (case (ir_Legacy item, ir_Dynamic item) of
        (Some l, None) \<Rightarrow> if ir_Kind item = ''legacyExplicit'' then cr_RuleUID l else ul_Nil ul
      | (None, Some d) \<Rightarrow> if ir_Kind item = ''dynamic'' then rv_RuleUID d else ul_Nil ul
      | _ \<Rightarrow> ul_Nil ul)"

definition intent_messages :: "uuid_lib \<Rightarrow> IntentRule \<Rightarrow> control_message list" where
  "intent_messages ul item =
     (case (ir_Legacy item, ir_Dynamic item) of
        (Some l, None) \<Rightarrow>
          if ir_Kind item = ''legacyExplicit'' then map is_Message (ValidateRules ul (Some [l])) else [MsgIntentKind]
      | (None, Some d) \<Rightarrow> if ir_Kind item = ''dynamic'' then dynamic_messages ul d else [MsgIntentKind]
      | _ \<Rightarrow> [MsgIntentKind])"

definition intent_issue :: "nat \<Rightarrow> control_message \<Rightarrow> Issue" where
  "intent_issue i m = \<lparr>is_Path = indexed ''intentRules'' i, is_Code = ''invalid_selection'', is_Message = m\<rparr>"

fun validate_intents_from :: "uuid_lib \<Rightarrow> nat \<Rightarrow> ID list \<Rightarrow> IntentRule list \<Rightarrow> Issue list" where
  "validate_intents_from ul i seen [] = []"
| "validate_intents_from ul i seen (item # rest) =
     (let uid = intent_uid ul item
      in map (intent_issue i) (intent_messages ul item) @
         (if \<not> validUUID ul uid \<or> uid \<in> set seen then [intent_issue i MsgRuleUID] else []) @
         validate_intents_from ul (Suc i) (uid # seen) rest)"

definition ValidateIntentRules :: "uuid_lib \<Rightarrow> IntentRule slice \<Rightarrow> Issue list" where
  "ValidateIntentRules ul rules =
     (if rules = None \<or> length (items rules) > 1000 then [intent_issue 0 MsgRuleArray] else []) @
     validate_intents_from ul 0 [] (items rules)"

subsection \<open>Well-formed intents\<close>

definition valid_audience :: "uuid_lib \<Rightarrow> AudienceSelection \<Rightarrow> bool" where
  "valid_audience ul a \<longleftrightarrow>
     as_Kind a = ''allLinked'' \<and> as_EmployeeIDs a = None \<and> as_Departments a = None \<or>
     as_Kind a = ''selected'' \<and> as_EmployeeIDs a \<noteq> None \<and> as_Departments a \<noteq> None \<and>
     (items (as_EmployeeIDs a) \<noteq> [] \<or> items (as_Departments a) \<noteq> []) \<and>
     length (items (as_EmployeeIDs a)) \<le> 1000 \<and> length (items (as_Departments a)) \<le> 1000 \<and>
     distinct (items (as_EmployeeIDs a)) \<and> distinct (map ds_DepartmentID (items (as_Departments a))) \<and>
     (\<forall>e\<in>set (items (as_EmployeeIDs a)). validUUID ul e) \<and>
     (\<forall>d\<in>set (items (as_Departments a)). validUUID ul (ds_DepartmentID d))"

definition valid_stages :: "StageSelection \<Rightarrow> bool" where
  "valid_stages s \<longleftrightarrow>
     ss_Kind s = ''allOpen'' \<and> ss_StatusIDs s = None \<or>
     ss_Kind s = ''selected'' \<and> crm_list (ss_StatusIDs s) \<and> items (ss_StatusIDs s) \<noteq> [] \<and>
     ''142'' \<notin> set (items (ss_StatusIDs s)) \<and> ''143'' \<notin> set (items (ss_StatusIDs s))"

definition valid_leads :: "LeadSelection \<Rightarrow> bool" where
  "valid_leads l \<longleftrightarrow>
     (ls_Kind l = ''disabled'' \<or> ls_Kind l = ''allOpen'') \<and> ls_Pipelines l = None \<or>
     ls_Kind l = ''selected'' \<and> items (ls_Pipelines l) \<noteq> [] \<and> length (items (ls_Pipelines l)) \<le> 1000 \<and>
     distinct (map ps_PipelineID (items (ls_Pipelines l))) \<and>
     (\<forall>p\<in>set (items (ls_Pipelines l)). ValidCRMID (ps_PipelineID p) \<and> valid_stages (ps_Stages p))"

definition valid_customers :: "CustomerSelection \<Rightarrow> bool" where
  "valid_customers c \<longleftrightarrow>
     (cs_Kind c = ''disabled'' \<or> cs_Kind c = ''all'') \<and> cs_StatusIDs c = None \<or>
     cs_Kind c = ''selected'' \<and> crm_list (cs_StatusIDs c) \<and> items (cs_StatusIDs c) \<noteq> []"

definition valid_dynamic :: "uuid_lib \<Rightarrow> RuleV2 \<Rightarrow> bool" where
  "valid_dynamic ul r \<longleftrightarrow>
     rv_SchemaVersion r = 2 \<and> TrimSpace (rv_Name r) \<noteq> '''' \<and> RuneCount (rv_Name r) \<le> 200 \<and>
     valid_audience ul (rv_Audience r) \<and> valid_leads (rv_Leads r) \<and> valid_customers (rv_Customers r) \<and>
     \<not> (ls_Kind (rv_Leads r) = ''disabled'' \<and> cs_Kind (rv_Customers r) = ''disabled'')"

definition valid_intent :: "uuid_lib \<Rightarrow> IntentRule \<Rightarrow> bool" where
  "valid_intent ul item \<longleftrightarrow>
     (\<exists>l. item = \<lparr>ir_Kind = ''legacyExplicit'', ir_Dynamic = None, ir_Legacy = Some l\<rparr> \<and> valid_rule ul l) \<or>
     (\<exists>d. item = \<lparr>ir_Kind = ''dynamic'', ir_Dynamic = Some d, ir_Legacy = None\<rparr> \<and>
        valid_dynamic ul d \<and> validUUID ul (rv_RuleUID d))"

lemma invalid_ids_iff: "invalid_ids ok m seen vs = [] \<longleftrightarrow> (\<forall>v\<in>set vs. ok v \<and> v \<notin> set seen) \<and> distinct vs"
  by (induction ok m seen vs rule: invalid_ids.induct) auto

lemma audience_messages_iff: "audience_messages ul a = [] \<longleftrightarrow> valid_audience ul a"
  by (auto simp: audience_messages_def valid_audience_def invalid_ids_iff)

lemma stage_messages_iff: "stage_messages s = [] \<longleftrightarrow> valid_stages s"
  by (auto simp: stage_messages_def valid_stages_def crmSet_iff)

lemma pipeline_messages_iff:
  "pipeline_messages seen ps = [] \<longleftrightarrow>
     (\<forall>p\<in>set ps. ValidCRMID (ps_PipelineID p) \<and> ps_PipelineID p \<notin> set seen \<and> valid_stages (ps_Stages p)) \<and>
     distinct (map ps_PipelineID ps)"
proof (induction seen ps rule: pipeline_messages.induct)
  case (2 seen p ps)
  have "(\<forall>x\<in>set ps. ps_PipelineID x \<noteq> ps_PipelineID p) \<longleftrightarrow> ps_PipelineID p \<notin> ps_PipelineID ` set ps"
    by (auto simp: image_iff)
  with 2 show ?case by (auto simp: stage_messages_iff)
qed simp

lemma lead_messages_iff: "lead_messages l = [] \<longleftrightarrow> valid_leads l"
  by (auto simp: lead_messages_def valid_leads_def pipeline_messages_iff)

lemma customer_messages_iff: "customer_messages c = [] \<longleftrightarrow> valid_customers c"
  by (auto simp: customer_messages_def valid_customers_def crmSet_iff)

lemma dynamic_messages_iff: "dynamic_messages ul r = [] \<longleftrightarrow> valid_dynamic ul r"
  by (auto simp: dynamic_messages_def valid_dynamic_def audience_messages_iff lead_messages_iff
      customer_messages_iff)

lemma intent_messages_iff:
  "intent_messages ul item = [] \<and> validUUID ul (intent_uid ul item) \<longleftrightarrow> valid_intent ul item"
  by (cases item)
     (auto simp: intent_messages_def intent_uid_def valid_intent_def dynamic_messages_iff ValidateRules_valid
       validUUID_def valid_rule_def split: option.splits)

lemma validate_intents_from_iff:
  "validate_intents_from ul i seen rules = [] \<longleftrightarrow>
     (\<forall>r\<in>set rules. valid_intent ul r \<and> intent_uid ul r \<notin> set seen) \<and> distinct (map (intent_uid ul) rules)"
proof (induction ul i seen rules rule: validate_intents_from.induct)
  case (2 ul i seen r rs)
  have "(\<forall>x\<in>set rs. intent_uid ul x \<noteq> intent_uid ul r) \<longleftrightarrow> intent_uid ul r \<notin> intent_uid ul ` set rs"
    by (auto simp: image_iff)
  with 2 intent_messages_iff[of ul r] show ?case by (auto simp: Let_def)
qed simp

lemma ValidateIntentRules_iff:
  "ValidateIntentRules ul rules = [] \<longleftrightarrow>
     rules \<noteq> None \<and> length (items rules) \<le> 1000 \<and> (\<forall>r\<in>set (items rules). valid_intent ul r) \<and>
     distinct (map (intent_uid ul) (items rules))"
  by (auto simp: ValidateIntentRules_def validate_intents_from_iff)

end
