(* ===== verification/Control_Reference.thy ===== *)
theory Control_Reference
  imports Control_Intent
begin

section \<open>Task control: the CRM directory\<close>

text \<open>
  \<^verbatim>\<open>references.go\<close>, \<^verbatim>\<open>references_revision.go\<close> and \<^verbatim>\<open>reference_rules.go\<close>: the snapshot of the CRM account
  (users, groups, pipelines with their stages, customer statuses), the check that it is complete and
  belongs to the installation, its revision, and the check of legacy rules against it.

  Writing a value as JSON text and reading it back leaves it as it is, except that bytes of a string
  that are no UTF-8 become the replacement character: \<open>ToValidUTF8\<close>.
\<close>

subsection \<open>Data\<close>

record ReferenceScope =
  sc_CompanyID :: ID
  sc_AccountID :: string
  sc_IntegrationID :: ID
  sc_InstallationID :: ID
  sc_Generation :: int
  sc_Product :: string

record ReferenceProvenance =
  pv_Source :: string
  pv_FetchedAt :: time
  pv_FetchStartedAt :: time

record ReferenceUser =
  ru_ID :: string
  ru_Name :: string
  ru_IsActive :: bool
  ru_GroupID :: "string option"

record ReferenceGroup =
  rg_ID :: string
  rg_Name :: string

record ReferenceStatus =
  rs_ID :: string
  rs_Name :: string
  rs_Sort :: int
  rs_Color :: "string option"
  rs_Kind :: string

record ReferencePipeline =
  rp_ID :: string
  rp_Name :: string
  rp_Sort :: int
  rp_Statuses :: "ReferenceStatus slice"

record ReferenceCustomerStatus =
  rc_ID :: string
  rc_Name :: string
  rc_Sort :: int
  rc_Color :: "string option"

record ReferenceCustomers =
  ru_Availability :: string
  ru_Statuses :: "ReferenceCustomerStatus slice"
  ru_CheckedAt :: time
  ru_ErrorCode :: "string option"

record ReferenceSnapshot =
  rf_SchemaVersion :: int
  rf_Scope :: ReferenceScope
  rf_Revision :: string
  rf_Provenance :: ReferenceProvenance
  rf_FreshUntil :: time
  rf_Complete :: bool
  rf_Users :: "ReferenceUser slice"
  rf_Groups :: "ReferenceGroup slice"
  rf_Pipelines :: "ReferencePipeline slice"
  rf_Customers :: ReferenceCustomers

definition Product :: string where "Product = ''task-control''"

subsection \<open>The revision\<close>

definition ToValidUTF8 :: "string \<Rightarrow> string" where
  "ToValidUTF8 s =
     concat (map (\<lambda>r. case r of [c] \<Rightarrow> if ascii c then r else [CHR 0xEF, CHR 0xBF, CHR 0xBD] | _ \<Rightarrow> r) (runes s))"

definition reread_user :: "ReferenceUser \<Rightarrow> ReferenceUser" where
  "reread_user u = u\<lparr>ru_ID := ToValidUTF8 (ru_ID u), ru_Name := ToValidUTF8 (ru_Name u),
     ru_GroupID := map_option ToValidUTF8 (ru_GroupID u)\<rparr>"

definition reread_group :: "ReferenceGroup \<Rightarrow> ReferenceGroup" where
  "reread_group g = g\<lparr>rg_ID := ToValidUTF8 (rg_ID g), rg_Name := ToValidUTF8 (rg_Name g)\<rparr>"

definition reread_status :: "ReferenceStatus \<Rightarrow> ReferenceStatus" where
  "reread_status v = v\<lparr>rs_ID := ToValidUTF8 (rs_ID v), rs_Name := ToValidUTF8 (rs_Name v),
     rs_Color := map_option ToValidUTF8 (rs_Color v), rs_Kind := ToValidUTF8 (rs_Kind v)\<rparr>"

definition reread_pipeline :: "ReferencePipeline \<Rightarrow> ReferencePipeline" where
  "reread_pipeline p = p\<lparr>rp_ID := ToValidUTF8 (rp_ID p), rp_Name := ToValidUTF8 (rp_Name p),
     rp_Statuses := map_option (map reread_status) (rp_Statuses p)\<rparr>"

definition reread_customer :: "ReferenceCustomerStatus \<Rightarrow> ReferenceCustomerStatus" where
  "reread_customer v = v\<lparr>rc_ID := ToValidUTF8 (rc_ID v), rc_Name := ToValidUTF8 (rc_Name v),
     rc_Color := map_option ToValidUTF8 (rc_Color v)\<rparr>"

definition reread_scope :: "ReferenceScope \<Rightarrow> ReferenceScope" where
  "reread_scope s = s\<lparr>sc_AccountID := ToValidUTF8 (sc_AccountID s), sc_Product := ToValidUTF8 (sc_Product s)\<rparr>"

text \<open>\<^verbatim>\<open>ParseInt\<close> of an identifier that is no number is 0 and the error is dropped.\<close>

definition sorted_pipeline :: "ReferencePipeline \<Rightarrow> ReferencePipeline" where
  "sorted_pipeline p = p\<lparr>rp_Statuses := map_option (sort_key (\<lambda>v. crm_number (rs_ID v))) (rp_Statuses p)\<rparr>"

definition json_slice :: "('a \<Rightarrow> json) \<Rightarrow> 'a slice \<Rightarrow> json" where
  "json_slice f s = (case s of None \<Rightarrow> JNull | Some xs \<Rightarrow> JArray (map f xs))"

definition json_option :: "string option \<Rightarrow> json" where
  "json_option v = (case v of None \<Rightarrow> JNull | Some s \<Rightarrow> JString s)"

definition scope_json :: "ReferenceScope \<Rightarrow> json" where
  "scope_json s = JObject
     [(''companyId'', JString (sc_CompanyID s)), (''accountId'', JString (sc_AccountID s)),
      (''integrationId'', JString (sc_IntegrationID s)), (''installationId'', JString (sc_InstallationID s)),
      (''generation'', json_int (sc_Generation s)), (''product'', JString (sc_Product s))]"

definition user_json :: "ReferenceUser \<Rightarrow> json" where
  "user_json u = JObject
     [(''id'', JString (ru_ID u)), (''name'', JString (ru_Name u)), (''isActive'', JBool (ru_IsActive u)),
      (''groupId'', json_option (ru_GroupID u))]"

definition group_json :: "ReferenceGroup \<Rightarrow> json" where
  "group_json g = JObject [(''id'', JString (rg_ID g)), (''name'', JString (rg_Name g))]"

definition status_json :: "ReferenceStatus \<Rightarrow> json" where
  "status_json v = JObject
     [(''id'', JString (rs_ID v)), (''name'', JString (rs_Name v)), (''sort'', json_int (rs_Sort v)),
      (''color'', json_option (rs_Color v)), (''kind'', JString (rs_Kind v))]"

definition pipeline_json :: "ReferencePipeline \<Rightarrow> json" where
  "pipeline_json p = JObject
     [(''id'', JString (rp_ID p)), (''name'', JString (rp_Name p)), (''sort'', json_int (rp_Sort p)),
      (''statuses'', json_slice status_json (rp_Statuses p))]"

definition customer_json :: "ReferenceCustomerStatus \<Rightarrow> json" where
  "customer_json v = JObject
     [(''id'', JString (rc_ID v)), (''name'', JString (rc_Name v)), (''sort'', json_int (rc_Sort v)),
      (''color'', json_option (rc_Color v))]"

definition revision_value :: "ReferenceSnapshot \<Rightarrow> json" where
  "revision_value s =
     (let c = rf_Customers s;
          users = map_option (\<lambda>us. sort_key (\<lambda>u. crm_number (ru_ID u)) (map reread_user us)) (rf_Users s);
          groups = map_option (\<lambda>gs. sort_key (\<lambda>g. crm_number (rg_ID g)) (map reread_group gs)) (rf_Groups s);
          pipelines = map_option (\<lambda>ps. map sorted_pipeline
            (sort_key (\<lambda>p. crm_number (rp_ID p)) (map reread_pipeline ps))) (rf_Pipelines s);
          statuses = map_option (\<lambda>vs. sort_key (\<lambda>v. crm_number (rc_ID v)) (map reread_customer vs)) (ru_Statuses c)
      in JObject
        [(''scope'', scope_json (reread_scope (rf_Scope s))), (''users'', json_slice user_json users),
         (''groups'', json_slice group_json groups), (''pipelines'', json_slice pipeline_json pipelines),
         (''customers'', JObject [(''availability'', JString (ToValidUTF8 (ru_Availability c))),
                                (''statuses'', json_slice customer_json statuses)])])"

definition ReferenceRevision :: "(string \<Rightarrow> string) \<Rightarrow> ReferenceSnapshot \<Rightarrow> string" where
  "ReferenceRevision sha256 s = ''sha256:'' @ sha256 (canonicalJSON (revision_value s))"

subsection \<open>Validation\<close>

definition hex_char :: "char \<Rightarrow> bool" where
  "hex_char c \<longleftrightarrow> CHR ''0'' \<le> c \<and> c \<le> CHR ''9'' \<or> CHR ''a'' \<le> c \<and> c \<le> CHR ''f'' \<or> CHR ''A'' \<le> c \<and> c \<le> CHR ''F''"

text \<open>\<^verbatim>\<open>hex.DecodeString\<close> gives no error; on text that passes it, \<^verbatim>\<open>strings.ToLower\<close> changes the letters A
  to F.\<close>

definition decodes_hex :: "string \<Rightarrow> bool" where
  "decodes_hex s \<longleftrightarrow> even (length s) \<and> list_all hex_char s"

definition upper_hex :: "char \<Rightarrow> bool" where
  "upper_hex c \<longleftrightarrow> CHR ''A'' \<le> c \<and> c \<le> CHR ''F''"

definition validate_head :: "uuid_lib \<Rightarrow> ReferenceSnapshot \<Rightarrow> ReferenceScope \<Rightarrow> time \<Rightarrow> bool" where
  "validate_head ul s scope now =
     (if rf_Scope s \<noteq> scope \<or> sc_CompanyID (rf_Scope s) = ul_Nil ul \<or> sc_IntegrationID (rf_Scope s) = ul_Nil ul \<or>
         sc_InstallationID (rf_Scope s) = ul_Nil ul \<or> sc_Generation (rf_Scope s) < 1 \<or>
         \<not> ValidCRMID (sc_AccountID (rf_Scope s)) \<or> sc_Product (rf_Scope s) \<noteq> Product \<or>
         rf_SchemaVersion s \<noteq> 1 \<or> \<not> rf_Complete s \<or> length (rf_Revision s) \<noteq> 71 \<or>
         \<not> prefix ''sha256:'' (rf_Revision s)
      then False
      else if \<not> decodes_hex (drop 7 (rf_Revision s)) \<or> list_ex upper_hex (rf_Revision s) then False
      else let p = rf_Provenance s in
        \<not> (pv_Source p \<noteq> ''coreAmocrm'' \<or> IsZero (pv_FetchStartedAt p) \<or>
           After (pv_FetchStartedAt p) (now + 5 * second) \<or> Before (pv_FetchedAt p) (pv_FetchStartedAt p) \<or>
           After (pv_FetchedAt p) (now + 5 * second) \<or> rf_FreshUntil s \<noteq> pv_FetchStartedAt p + 300 * second))"

fun validate_users :: "string list \<Rightarrow> string list \<Rightarrow> ReferenceUser list \<Rightarrow> bool" where
  "validate_users groups seen [] = True"
| "validate_users groups seen (u # us) =
     (if \<not> ValidCRMID (ru_ID u) \<or> ru_ID u \<in> set seen \<or>
         (case ru_GroupID u of None \<Rightarrow> False | Some g \<Rightarrow> g \<notin> set groups)
      then False else validate_users groups (ru_ID u # seen) us)"

definition bad_status :: "ReferenceStatus \<Rightarrow> bool" where
  "bad_status v \<longleftrightarrow>
     \<not> ValidCRMID (rs_ID v) \<or>
     (rs_Kind v \<noteq> ''open'' \<and> rs_Kind v \<noteq> ''won'' \<and> rs_Kind v \<noteq> ''lost'') \<or>
     (rs_ID v = ''142'' \<and> rs_Kind v \<noteq> ''won'') \<or> (rs_ID v = ''143'' \<and> rs_Kind v \<noteq> ''lost'') \<or>
     (rs_Kind v = ''won'' \<and> rs_ID v \<noteq> ''142'') \<or> (rs_Kind v = ''lost'' \<and> rs_ID v \<noteq> ''143'')"

definition status_key :: "string \<Rightarrow> ReferenceStatus \<Rightarrow> string" where
  "status_key p v = p @ '':'' @ rs_ID v"

fun validate_statuses :: "string \<Rightarrow> string list \<Rightarrow> ReferenceStatus list \<Rightarrow> string list option" where
  "validate_statuses p seen [] = Some seen"
| "validate_statuses p seen (v # vs) =
     (if bad_status v \<or> status_key p v \<in> set seen then None else validate_statuses p (status_key p v # seen) vs)"

fun validate_reference_pipelines :: "string list \<Rightarrow> string list \<Rightarrow> ReferencePipeline list \<Rightarrow> bool" where
  "validate_reference_pipelines seen statuses [] = True"
| "validate_reference_pipelines seen statuses (p # ps) =
     (if \<not> ValidCRMID (rp_ID p) \<or> rp_ID p \<in> set seen \<or> rp_Statuses p = None \<or> length (items (rp_Statuses p)) > 1000
      then False
      else case validate_statuses (rp_ID p) statuses (items (rp_Statuses p)) of
          None \<Rightarrow> False
        | Some statuses' \<Rightarrow> validate_reference_pipelines (rp_ID p # seen) statuses' ps)"

definition validate_customers :: "ReferenceCustomers \<Rightarrow> time \<Rightarrow> bool" where
  "validate_customers c now =
     (if IsZero (ru_CheckedAt c) \<or> After (ru_CheckedAt c) (now + 5 * second) then False
      else if ru_Availability c \<noteq> ''supported'' \<and> ru_Availability c \<noteq> ''unsupported'' \<and> ru_Availability c \<noteq> ''unknown''
      then False
      else if ru_Availability c \<noteq> ''supported'' \<and> length (items (ru_Statuses c)) \<noteq> 0 then False
      else distinct_valid ValidCRMID [] (map rc_ID (items (ru_Statuses c))))"

definition ReferenceSnapshot_Validate ::
    "uuid_lib \<Rightarrow> (string \<Rightarrow> string) \<Rightarrow> ReferenceSnapshot \<Rightarrow> ReferenceScope \<Rightarrow> time \<Rightarrow> bool" where
  "ReferenceSnapshot_Validate ul sha256 s scope now =
     (if \<not> validate_head ul s scope now then False
      else if rf_Users s = None \<or> rf_Groups s = None \<or> rf_Pipelines s = None \<or> ru_Statuses (rf_Customers s) = None \<or>
         length (items (rf_Users s)) > 1000 \<or> length (items (rf_Groups s)) > 1000 \<or>
         length (items (rf_Pipelines s)) > 1000 \<or> length (items (ru_Statuses (rf_Customers s))) > 1000
      then False
      else if \<not> distinct_valid ValidCRMID [] (map rg_ID (items (rf_Groups s))) then False
      else if \<not> validate_users (map rg_ID (items (rf_Groups s))) [] (items (rf_Users s)) then False
      else if \<not> validate_reference_pipelines [] [] (items (rf_Pipelines s)) then False
      else if \<not> validate_customers (rf_Customers s) now then False
      else ReferenceRevision sha256 s = rf_Revision s)"

subsection \<open>Legacy rules against the directory\<close>

text \<open>A map built in a loop keeps the last entry of a key.\<close>

definition last_of :: "('a \<times> 'b) list \<Rightarrow> 'a \<rightharpoonup> 'b" where
  "last_of kvs = map_of (rev kvs)"

definition user_active :: "ReferenceSnapshot \<Rightarrow> string \<rightharpoonup> bool" where
  "user_active refs = last_of (map (\<lambda>u. (ru_ID u, ru_IsActive u)) (items (rf_Users refs)))"

definition pipeline_statuses :: "ReferenceSnapshot \<Rightarrow> string \<rightharpoonup> string list" where
  "pipeline_statuses refs =
     last_of (map (\<lambda>p. (rp_ID p, map rs_ID (items (rp_Statuses p)))) (items (rf_Pipelines refs)))"

definition customer_ids :: "ReferenceSnapshot \<Rightarrow> string list" where
  "customer_ids refs = map rc_ID (items (ru_Statuses (rf_Customers refs)))"

definition located :: "string \<Rightarrow> string \<Rightarrow> control_message \<Rightarrow> Issue" where
  "located path code message = \<lparr>is_Path = path, is_Code = code, is_Message = message\<rparr>"

definition user_issues :: "ReferenceSnapshot \<Rightarrow> string \<Rightarrow> string list \<Rightarrow> Issue list" where
  "user_issues refs path ids =
     concat (map (\<lambda>(j, i). case user_active refs i of
         None \<Rightarrow> [located (indexed (path @ ''.users'') j) ''unknown_crm_id'' MsgUserMissing]
       | Some active \<Rightarrow>
           if active then [] else [located (indexed (path @ ''.users'') j) ''inactive_user'' MsgUserInactive])
     (enumerate 0 ids))"

definition pipeline_issues :: "ReferenceSnapshot \<Rightarrow> string \<Rightarrow> Pipeline list \<Rightarrow> Issue list" where
  "pipeline_issues refs path ps =
     concat (map (\<lambda>(j, p). let pPath = indexed (path @ ''.pipelines'') j in
       case pipeline_statuses refs (pp_PipelineID p) of
         None \<Rightarrow> [located (pPath @ ''.pipelineId'') ''unknown_crm_id'' MsgPipelineMissing]
       | Some statuses \<Rightarrow> concat (map (\<lambda>(k, i).
           if i \<notin> set statuses then [located (indexed (pPath @ ''.statusIds'') k) ''unknown_crm_id'' MsgStatusMissing]
           else []) (enumerate 0 (items (pp_StatusIDs p)))))
     (enumerate 0 ps))"

definition customer_issues :: "ReferenceSnapshot \<Rightarrow> string \<Rightarrow> control_rule \<Rightarrow> Issue list" where
  "customer_issues refs path r =
     (if \<not> cr_Customers r then []
      else if ru_Availability (rf_Customers refs) = ''supported'' then
        concat (map (\<lambda>(j, i). if i \<notin> set (customer_ids refs)
          then [located (indexed (path @ ''.customerStatuses'') j) ''unknown_crm_id'' MsgCustomerStatusMissing] else [])
        (enumerate 0 (items (cr_CustomerStatuses r))))
      else if ru_Availability (rf_Customers refs) = ''unsupported'' then
        [located (path @ ''.customers'') ''unknown_crm_id'' MsgCustomersUnavailable]
      else [located (path @ ''.customers'') ''incomplete_source'' MsgCustomersUnconfirmed])"

definition ValidateReferenceRules :: "control_rule list \<Rightarrow> ReferenceSnapshot \<Rightarrow> Issue list" where
  "ValidateReferenceRules rules refs =
     concat (map (\<lambda>(i, r). let path = indexed ''rules'' i in
       if \<not> cr_Enabled r \<or> cr_Archived r then []
       else user_issues refs path (items (cr_Users r)) @ pipeline_issues refs path (items (cr_Pipelines r)) @
            customer_issues refs path r)
     (enumerate 0 rules))"

end
