(* ===== verification/Control_Resolver.thy ===== *)
theory Control_Resolver
  imports Control_Reference
begin

section \<open>Task control: resolution of dynamic rules\<close>

text \<open>
  \<^verbatim>\<open>resolver.go\<close>: \<^verbatim>\<open>ResolveIntentRules\<close> turns intent rules into executable ones against one snapshot of
  the CRM directory and of the organisation, and \<^verbatim>\<open>ProjectRuntimeRules\<close> hands an actor the rules that
  address him.

  A Go map built from a checked list of distinct keys is that list; the order of its iteration does
  not matter here, because what is collected is a set or is sorted by distinct keys. The walk from a
  department to its ancestors is a loop without a bound in the source: \<open>reaches\<close> is the value of the
  loop if it ends, and a resolution that would not end is \<open>None\<close>.
\<close>

subsection \<open>Data\<close>

record OrganizationEmployee =
  oe_ID :: ID
  oe_Active :: bool
  oe_DepartmentIDs :: "ID list"

record OrganizationDepartment =
  od_ID :: ID
  od_ParentID :: "ID option"

record EmployeeMapping =
  em_EmployeeID :: ID
  em_AccountID :: string
  em_CRMUserID :: string

record OrganizationSnapshot =
  os_CompanyID :: ID
  os_AccountID :: string
  os_OrganizationRevision :: int
  os_MappingRevision :: int
  os_Employees :: "OrganizationEmployee list"
  os_Departments :: "OrganizationDepartment list"
  os_Mappings :: "EmployeeMapping list"

record IntentIssue =
  ii_RuleUID :: ID
  ii_Code :: string
  ii_Path :: string
  ii_Message :: control_message
  ii_Blocking :: bool

record Resolution =
  re_Rules :: "control_rule list"
  re_RuntimeRules :: "LegacyRule list"
  re_ResolvedChecksum :: string
  re_Issues :: "IntentIssue list"

datatype resolve_error = IntentInvalid control_message | OtherAccount | SnapshotLimit
  | EmployeeUUIDInvalid | EmployeeRepeated | DepartmentUUIDInvalid | DepartmentRepeated
  | DepartmentCycle | MappingInvalid

definition RuntimeMaxBytes :: nat where "RuntimeMaxBytes = 1048576"
definition ResolutionMaxIssues :: nat where "ResolutionMaxIssues = 10000"

subsection \<open>The organisation\<close>

fun check_ids :: "uuid_lib \<Rightarrow> 'e \<Rightarrow> 'e \<Rightarrow> ID list \<Rightarrow> ID list \<Rightarrow> 'e option" where
  "check_ids ul bad repeated seen [] = None"
| "check_ids ul bad repeated seen (i # is) =
     (if \<not> validUUID ul i then Some bad else if i \<in> set seen then Some repeated
      else check_ids ul bad repeated (i # seen) is)"

definition dep_parent :: "OrganizationDepartment list \<Rightarrow> ID \<rightharpoonup> ID" where
  "dep_parent ds i = (case map_of (map (\<lambda>d. (od_ID d, od_ParentID d)) ds) i of Some (Some p) \<Rightarrow> Some p | _ \<Rightarrow> None)"

lemma dep_parent_dom: "dep_parent ds i = Some p \<Longrightarrow> i \<in> od_ID ` set ds"
  by (force simp: dep_parent_def split: option.splits dest: map_of_SomeD)

text \<open>The walk of the check for cycles, which remembers where it has been.\<close>

function meets_cycle :: "OrganizationDepartment list \<Rightarrow> ID list \<Rightarrow> ID \<Rightarrow> bool" where
  "meets_cycle ds seen current =
     (if current \<in> set seen then True
      else case dep_parent ds current of
          None \<Rightarrow> False
        | Some p \<Rightarrow> meets_cycle ds (current # seen) p)"
  by pat_completeness auto
termination
proof (relation "measure (\<lambda>(ds, seen, current). card (od_ID ` set ds - set seen))", goal_cases)
  case (2 ds seen current p)
  then have "current \<in> od_ID ` set ds - set seen" using dep_parent_dom by fastforce
  then show ?case by (simp only: in_measure prod.case, intro psubset_card_mono) auto
qed simp

declare meets_cycle.simps [simp del]

definition has_cycle :: "OrganizationDepartment list \<Rightarrow> bool" where
  "has_cycle ds = list_ex (\<lambda>d. meets_cycle ds [] (od_ID d)) ds"

text \<open>The walk that looks for a selected department among the ancestors.\<close>

partial_function (option) reaches :: "OrganizationDepartment list \<Rightarrow> ID \<Rightarrow> ID \<Rightarrow> bool option" where
  "reaches ds sel current =
     (if current = sel then Some True
      else case dep_parent ds current of
          None \<Rightarrow> Some False
        | Some p \<Rightarrow> reaches ds sel p)"

fun filter_ended :: "('a \<Rightarrow> bool option) \<Rightarrow> 'a list \<Rightarrow> 'a list option" where
  "filter_ended f [] = Some []"
| "filter_ended f (x # xs) =
     (case f x of
        None \<Rightarrow> None
      | Some b \<Rightarrow> map_option (\<lambda>ys. if b then x # ys else ys) (filter_ended f xs))"

definition included_departments :: "OrganizationDepartment list \<Rightarrow> DepartmentSelection \<Rightarrow> ID list option" where
  "included_departments ds s =
     (if ds_IncludeDescendants s
      then map_option (\<lambda>is. ds_DepartmentID s # is) (filter_ended (reaches ds (ds_DepartmentID s)) (map od_ID ds))
      else Some [ds_DepartmentID s])"

definition members_of :: "OrganizationSnapshot \<Rightarrow> ID list \<Rightarrow> ID list" where
  "members_of org included =
     map oe_ID (filter (\<lambda>e. \<exists>i\<in>set (oe_DepartmentIDs e). i \<in> set included) (os_Employees org))"

definition account_mappings :: "OrganizationSnapshot \<Rightarrow> EmployeeMapping list" where
  "account_mappings org = filter (\<lambda>m. em_AccountID m = os_AccountID org) (os_Mappings org)"

definition mapped :: "OrganizationSnapshot \<Rightarrow> ID \<Rightarrow> string list" where
  "mapped org e = remdups (map em_CRMUserID (filter (\<lambda>m. em_EmployeeID m = e) (account_mappings org)))"

definition reverse_mapped :: "OrganizationSnapshot \<Rightarrow> string \<Rightarrow> ID list" where
  "reverse_mapped org c = remdups (map em_EmployeeID (filter (\<lambda>m. em_CRMUserID m = c) (account_mappings org)))"

definition check_organization :: "uuid_lib \<Rightarrow> OrganizationSnapshot \<Rightarrow> resolve_error option" where
  "check_organization ul org =
     (if length (os_Employees org) > 10000 \<or> length (os_Departments org) > 1000 \<or> length (os_Mappings org) > 20000
      then Some SnapshotLimit
      else case check_ids ul EmployeeUUIDInvalid EmployeeRepeated [] (map oe_ID (os_Employees org)) of
        Some e \<Rightarrow> Some e
      | None \<Rightarrow>
        case check_ids ul DepartmentUUIDInvalid DepartmentRepeated [] (map od_ID (os_Departments org)) of
          Some e \<Rightarrow> Some e
        | None \<Rightarrow>
          if has_cycle (os_Departments org) then Some DepartmentCycle
          else if list_ex (\<lambda>m. \<not> ValidCRMID (em_CRMUserID m)) (account_mappings org) then Some MappingInvalid
          else None)"

subsection \<open>Issues\<close>

type_synonym diagnostics = "IntentIssue list \<times> bool"

definition intent_problem :: "ID \<Rightarrow> string \<Rightarrow> string \<Rightarrow> control_message \<Rightarrow> bool \<Rightarrow> IntentIssue" where
  "intent_problem uid path code message blocking =
     \<lparr>ii_RuleUID = uid, ii_Code = code, ii_Path = path, ii_Message = message, ii_Blocking = blocking\<rparr>"

definition add_issue :: "IntentIssue \<Rightarrow> diagnostics \<Rightarrow> diagnostics" where
  "add_issue i st =
     (case st of (issues, limited) \<Rightarrow>
        if length issues \<ge> ResolutionMaxIssues then
          (if limited then issues
           else issues @ [intent_problem (ii_RuleUID i) (ii_Path i) ''runtime_payload_too_large'' MsgIssueLimit True], True)
        else (issues @ [i], limited))"

subsection \<open>Legacy rules\<close>

definition resolved_pipelines :: "ReferenceSnapshot \<Rightarrow> Pipeline list \<Rightarrow> Pipeline list" where
  "resolved_pipelines refs ps =
     concat (map (\<lambda>p. case pipeline_statuses refs (pp_PipelineID p) of
         None \<Rightarrow> []
       | Some available \<Rightarrow>
           let statuses = filter (\<lambda>i. i \<in> set available) (items (pp_StatusIDs p))
           in if length statuses > 0
              then [\<lparr>pp_PipelineID = pp_PipelineID p, pp_StatusIDs = Some statuses\<rparr>] else []) ps)"

definition legacy_resolved :: "ReferenceSnapshot \<Rightarrow> control_rule \<Rightarrow> control_rule" where
  "legacy_resolved refs old =
     (let statuses = filter (\<lambda>i. i \<in> set (customer_ids refs)) (items (cr_CustomerStatuses old))
      in old\<lparr>cr_Users := Some (filter (\<lambda>i. user_active refs i = Some True) (items (cr_Users old))),
             cr_Pipelines := Some (resolved_pipelines refs (items (cr_Pipelines old))),
             cr_CustomerStatuses := Some statuses,
             cr_Customers :=
               (if cr_Customers old \<and> length (items (cr_CustomerStatuses old)) > 0 \<and> length statuses = 0 then False
                else cr_Customers old \<and> ru_Availability (rf_Customers refs) = ''supported'')\<rparr>)"

definition executable :: "control_rule \<Rightarrow> bool" where
  "executable r \<longleftrightarrow> length (items (cr_Users r)) > 0 \<and> (length (items (cr_Pipelines r)) > 0 \<or> cr_Customers r)"

definition resolve_legacy ::
    "ReferenceSnapshot \<Rightarrow> bool \<Rightarrow> string \<Rightarrow> control_rule \<Rightarrow> IntentIssue list \<times> control_rule option" where
  "resolve_legacy refs publish path old =
     (if \<not> cr_Enabled old \<or> cr_Archived old then ([], None)
      else
        let uid = cr_RuleUID old; r = legacy_resolved refs old;
            found = map (\<lambda>e. intent_problem uid (path @ drop (length ''rules[0]'') (is_Path e)) (is_Code e) (is_Message e) publish)
              (ValidateReferenceRules [old] refs);
            unknown = (if cr_Customers old \<and> ru_Availability (rf_Customers refs) = ''unknown''
              then [intent_problem uid (path @ ''.customers'') ''incomplete_source'' MsgDirectoryUnconfirmed True] else [])
        in if executable r then (found @ unknown, Some r)
           else (found @ unknown @ [intent_problem uid path ''empty_resolution'' MsgNoRows False], None))"

subsection \<open>Dynamic rules\<close>

text \<open>The audience: what is missing, and the employees selected. \<open>publish\<close> makes a missing one blocking.\<close>

definition explicit_employees ::
    "OrganizationSnapshot \<Rightarrow> bool \<Rightarrow> string \<Rightarrow> ID \<Rightarrow> ID list \<Rightarrow> IntentIssue list \<times> ID list" where
  "explicit_employees org publish path uid ids =
     (concat (map (\<lambda>(i, e). if e \<in> oe_ID ` set (os_Employees org) then []
        else [intent_problem uid (indexed (path @ ''.audience.employeeIds'') i) ''employee_missing'' MsgEmployeeMissing publish])
        (enumerate 0 ids)),
      filter (\<lambda>e. e \<in> oe_ID ` set (os_Employees org)) ids)"

fun select_departments :: "OrganizationSnapshot \<Rightarrow> bool \<Rightarrow> string \<Rightarrow> ID \<Rightarrow> nat \<Rightarrow> DepartmentSelection list \<Rightarrow>
    (IntentIssue list \<times> ID list) option" where
  "select_departments org publish path uid i [] = Some ([], [])"
| "select_departments org publish path uid i (s # ss) =
     (if ds_DepartmentID s \<notin> od_ID ` set (os_Departments org) then
        map_option (\<lambda>(issues, selected).
          (intent_problem uid (indexed (path @ ''.audience.departments'') i) ''department_missing'' MsgDepartmentMissing publish # issues,
           selected)) (select_departments org publish path uid (Suc i) ss)
      else case included_departments (os_Departments org) s of
          None \<Rightarrow> None
        | Some included \<Rightarrow>
            map_option (\<lambda>(issues, selected). (issues, members_of org included @ selected))
              (select_departments org publish path uid (Suc i) ss))"

definition select_audience :: "OrganizationSnapshot \<Rightarrow> bool \<Rightarrow> string \<Rightarrow> ID \<Rightarrow> AudienceSelection \<Rightarrow>
    (IntentIssue list \<times> ID list) option" where
  "select_audience org publish path uid a =
     (if as_Kind a = ''allLinked'' then Some ([], map oe_ID (os_Employees org))
      else
        let (missing, selected) = explicit_employees org publish path uid (items (as_EmployeeIDs a))
        in map_option (\<lambda>(issues, members). (missing @ issues, selected @ members))
             (select_departments org publish path uid 0 (items (as_Departments a))))"

text \<open>Why an employee is excluded, or the CRM user he is linked to.\<close>

definition employee_active :: "OrganizationSnapshot \<Rightarrow> ID \<Rightarrow> bool" where
  "employee_active org e = (map_of (map (\<lambda>x. (oe_ID x, oe_Active x)) (os_Employees org)) e = Some True)"

definition linked_user :: "OrganizationSnapshot \<Rightarrow> ReferenceSnapshot \<Rightarrow> ID \<Rightarrow> string + string" where
  "linked_user org refs e =
     (if \<not> employee_active org e then Inl ''employee_inactive''
      else if length (mapped org e) = 0 then Inl ''mapping_missing''
      else if length (mapped org e) \<noteq> 1 then Inl ''mapping_ambiguous''
      else let crm = hd (mapped org e) in
        if length (reverse_mapped org crm) \<noteq> 1 then Inl ''mapping_ambiguous''
        else case user_active refs crm of
            None \<Rightarrow> Inl ''crm_user_missing''
          | Some active \<Rightarrow> if active then Inr crm else Inl ''crm_user_inactive'')"

definition sortCRM :: "string list \<Rightarrow> string list" where
  "sortCRM v = sort_key crm_number v"

definition resolve_users :: "OrganizationSnapshot \<Rightarrow> ReferenceSnapshot \<Rightarrow> bool \<Rightarrow> string \<Rightarrow> ID \<Rightarrow> ID list \<Rightarrow> ID list \<Rightarrow>
    IntentIssue list \<times> string list" where
  "resolve_users org refs publish path uid explicit selected =
     (let employees = sort (remdups selected);
          excluded = concat (map (\<lambda>e. case linked_user org refs e of
              Inl code \<Rightarrow> [intent_problem uid (path @ ''.audience'') code MsgEmployeeExcluded (publish \<and> e \<in> set explicit)]
            | Inr _ \<Rightarrow> []) employees);
          crm = concat (map (\<lambda>e. case linked_user org refs e of Inl _ \<Rightarrow> [] | Inr c \<Rightarrow> [c]) employees)
      in (excluded, sortCRM (remdups crm)))"

text \<open>The stages of one pipeline.\<close>

definition pipeline_of :: "ReferenceSnapshot \<Rightarrow> string \<rightharpoonup> ReferencePipeline" where
  "pipeline_of refs = last_of (map (\<lambda>p. (rp_ID p, p)) (items (rf_Pipelines refs)))"

definition status_of :: "ReferencePipeline \<Rightarrow> string \<rightharpoonup> ReferenceStatus" where
  "status_of p = last_of (map (\<lambda>s. (rs_ID s, s)) (items (rp_Statuses p)))"

definition closed_status :: "ReferenceStatus \<Rightarrow> string \<Rightarrow> bool" where
  "closed_status s i \<longleftrightarrow> rs_Kind s \<noteq> ''open'' \<or> i = ''142'' \<or> i = ''143''"

definition resolve_stages :: "bool \<Rightarrow> string \<Rightarrow> ID \<Rightarrow> ReferencePipeline \<Rightarrow> StageSelection \<Rightarrow> IntentIssue list \<times> string list" where
  "resolve_stages publish pPath uid p sel =
     (if ss_Kind sel = ''allOpen'' then
        ([], map rs_ID (filter (\<lambda>s. \<not> closed_status s (rs_ID s)) (items (rp_Statuses p))))
      else
        (concat (map (\<lambda>i. case status_of p i of
             None \<Rightarrow> [intent_problem uid (pPath @ ''.stages'') ''status_missing'' MsgStageAbsent publish]
           | Some s \<Rightarrow> if closed_status s i
               then [intent_problem uid (pPath @ ''.stages'') ''closed_status'' MsgStageNotOpen publish] else [])
           (items (ss_StatusIDs sel))),
         filter (\<lambda>i. case status_of p i of None \<Rightarrow> False | Some s \<Rightarrow> \<not> closed_status s i) (items (ss_StatusIDs sel))))"

definition lead_selections :: "ReferenceSnapshot \<Rightarrow> LeadSelection \<Rightarrow> PipelineSelection list" where
  "lead_selections refs l =
     (if ls_Kind l = ''allOpen'' then
        sort_key (\<lambda>s. crm_number (ps_PipelineID s))
          (map (\<lambda>i. \<lparr>ps_PipelineID = i, ps_Stages = \<lparr>ss_Kind = ''allOpen'', ss_StatusIDs = None\<rparr>\<rparr>)
             (remdups (map rp_ID (items (rf_Pipelines refs)))))
      else items (ls_Pipelines l))"

definition resolve_pipeline :: "ReferenceSnapshot \<Rightarrow> bool \<Rightarrow> string \<Rightarrow> ID \<Rightarrow> nat \<times> PipelineSelection \<Rightarrow>
    IntentIssue list \<times> Pipeline list" where
  "resolve_pipeline refs publish path uid sel =
     (case sel of (i, selection) \<Rightarrow>
        let pPath = indexed (path @ ''.leads.pipelines'') i in
        case pipeline_of refs (ps_PipelineID selection) of
          None \<Rightarrow> ([intent_problem uid pPath ''pipeline_missing'' MsgPipelineAbsent publish], [])
        | Some p \<Rightarrow>
            let (issues, ids) = resolve_stages publish pPath uid p (ps_Stages selection)
            in (issues, if length ids > 0 then [\<lparr>pp_PipelineID = rp_ID p, pp_StatusIDs = Some (sortCRM ids)\<rparr>] else []))"

definition resolve_leads :: "ReferenceSnapshot \<Rightarrow> bool \<Rightarrow> string \<Rightarrow> ID \<Rightarrow> LeadSelection \<Rightarrow> IntentIssue list \<times> Pipeline list" where
  "resolve_leads refs publish path uid l =
     (let resolved = map (resolve_pipeline refs publish path uid) (enumerate 0 (lead_selections refs l))
      in (concat (map fst resolved), concat (map snd resolved)))"

definition resolve_customers ::
    "ReferenceSnapshot \<Rightarrow> bool \<Rightarrow> string \<Rightarrow> ID \<Rightarrow> CustomerSelection \<Rightarrow> IntentIssue list \<times> bool \<times> string list" where
  "resolve_customers refs publish path uid c =
     (let availability = ru_Availability (rf_Customers refs) in
      if cs_Kind c = ''disabled'' then ([], False, [])
      else if availability = ''supported'' then
        if cs_Kind c = ''selected'' then
          (concat (map (\<lambda>i. if i \<in> set (customer_ids refs) then []
             else [intent_problem uid (path @ ''.customers'') ''customer_status_missing'' MsgCustomerStatusAbsent publish])
             (items (cs_StatusIDs c))),
           let found = filter (\<lambda>i. i \<in> set (customer_ids refs)) (items (cs_StatusIDs c)) in (length found > 0, found))
        else ([], True, [])
      else if availability = ''unsupported'' then
        ([intent_problem uid (path @ ''.customers'') ''customers_unsupported'' MsgCustomersAbsent publish], False, [])
      else ([intent_problem uid (path @ ''.customers'') ''incomplete_source'' MsgDirectoryUnconfirmed True], False, []))"

definition materialized :: "RuleV2 \<Rightarrow> string list \<Rightarrow> Pipeline list \<Rightarrow> bool \<Rightarrow> string list \<Rightarrow> control_rule" where
  "materialized d users pipelines customers statuses =
     \<lparr>cr_RuleUID = rv_RuleUID d, cr_Name = rv_Name d, cr_Users = Some users, cr_Pipelines = Some pipelines,
      cr_Customers = customers, cr_CustomerStatuses = Some statuses, cr_ShowModal = rv_ShowModal d,
      cr_DenyExit = rv_DenyExit d, cr_CheckResponsible = rv_CheckResponsible d,
      cr_Enabled = rv_Enabled d, cr_Archived = rv_Archived d\<rparr>"

definition resolve_dynamic :: "OrganizationSnapshot \<Rightarrow> ReferenceSnapshot \<Rightarrow> bool \<Rightarrow> string \<Rightarrow> RuleV2 \<Rightarrow>
    (IntentIssue list \<times> control_rule option) option" where
  "resolve_dynamic org refs publish path d =
     (if \<not> rv_Enabled d \<or> rv_Archived d then Some ([], None)
      else
        let uid = rv_RuleUID d;
            explicit = (if as_Kind (rv_Audience d) = ''allLinked'' then [] else items (as_EmployeeIDs (rv_Audience d)))
        in map_option (\<lambda>(missing, selected).
          let (excluded, users) = resolve_users org refs publish path uid explicit selected;
              (absent, pipelines) = resolve_leads refs publish path uid (rv_Leads d);
              (problems, customers, statuses) = resolve_customers refs publish path uid (rv_Customers d);
              issues = missing @ excluded @ absent @ problems;
              r = materialized d users pipelines customers statuses
          in if length users > 1000 \<or> length pipelines > 1000 then
               (issues @ [intent_problem uid path ''runtime_payload_too_large'' MsgRuleLimit True], None)
             else if executable r then (issues, Some r)
             else (issues @ [intent_problem uid path ''empty_resolution'' MsgNoRows False], None))
          (select_audience org publish path uid (rv_Audience d)))"

subsection \<open>The resolution\<close>

definition resolve_rule :: "OrganizationSnapshot \<Rightarrow> ReferenceSnapshot \<Rightarrow> bool \<Rightarrow> nat \<Rightarrow> IntentRule \<Rightarrow>
    (IntentIssue list \<times> control_rule option) option" where
  "resolve_rule org refs publish i item =
     (let path = indexed ''intentRules'' i @ ''.rule'' in
      case ir_Legacy item of
        Some old \<Rightarrow> Some (resolve_legacy refs publish path old)
      | None \<Rightarrow> (case ir_Dynamic item of
            Some d \<Rightarrow> resolve_dynamic org refs publish path d
          | None \<Rightarrow> Some ([], None)))"

fun resolve_from :: "OrganizationSnapshot \<Rightarrow> ReferenceSnapshot \<Rightarrow> bool \<Rightarrow> nat \<Rightarrow> diagnostics \<Rightarrow> IntentRule list \<Rightarrow>
    (diagnostics \<times> control_rule list) option" where
  "resolve_from org refs publish i st [] = Some (st, [])"
| "resolve_from org refs publish i st (item # rest) =
     (if snd st then Some (st, [])
      else case resolve_rule org refs publish i item of
          None \<Rightarrow> None
        | Some (issues, r) \<Rightarrow>
            map_option (\<lambda>(st', out). (st', (case r of None \<Rightarrow> out | Some x \<Rightarrow> x # out)))
              (resolve_from org refs publish (Suc i) (fold add_issue issues st) rest))"

definition ResolveIntentRules :: "uuid_lib \<Rightarrow> (string \<Rightarrow> string) \<Rightarrow> IntentRule slice \<Rightarrow> ReferenceSnapshot \<Rightarrow>
    OrganizationSnapshot \<Rightarrow> bool \<Rightarrow> (resolve_error + Resolution) option" where
  "ResolveIntentRules ul sha256 rules refs org publish =
     (case ValidateIntentRules ul rules of
        i # _ \<Rightarrow> Some (Inl (IntentInvalid (is_Message i)))
      | [] \<Rightarrow>
        if os_CompanyID org \<noteq> sc_CompanyID (rf_Scope refs) \<or> os_AccountID org \<noteq> sc_AccountID (rf_Scope refs)
        then Some (Inl OtherAccount)
        else case check_organization ul org of
          Some e \<Rightarrow> Some (Inl e)
        | None \<Rightarrow>
          map_option (\<lambda>((issues, limited), out).
            if limited then
              Inr \<lparr>re_Rules = out, re_RuntimeRules = [], re_ResolvedChecksum = '''', re_Issues = issues\<rparr>
            else
              let (runtime, checksum) = Legacy sha256 out;
                  payload = json_marshal True (JArray (map legacy_json runtime));
                  issues' = (if length payload > RuntimeMaxBytes
                    then fst (add_issue (intent_problem (ul_Nil ul) ''runtimeRules'' ''runtime_payload_too_large'' MsgRuntimeLimit True)
                      (issues, limited)) else issues)
              in Inr \<lparr>re_Rules = out, re_RuntimeRules = runtime, re_ResolvedChecksum = checksum, re_Issues = issues'\<rparr>)
            (resolve_from org refs publish 0 ([], False) (items rules)))"

definition HasBlockingIssues :: "Resolution \<Rightarrow> bool" where
  "HasBlockingIssues r = list_ex ii_Blocking (re_Issues r)"

definition project_rule :: "string \<Rightarrow> control_rule \<Rightarrow> control_rule list" where
  "project_rule actor r =
     (if \<not> cr_Enabled r \<or> cr_Archived r then []
      else if actor \<in> set (items (cr_Users r)) then [r\<lparr>cr_Users := Some [actor]\<rparr>] else [])"

definition ProjectRuntimeRules :: "(string \<Rightarrow> string) \<Rightarrow> control_rule list \<Rightarrow> string \<Rightarrow> LegacyRule list \<times> string" where
  "ProjectRuntimeRules sha256 rules actor = Legacy sha256 (concat (map (project_rule actor) rules))"

end
