(* ===== verification/Control_Resolution.thy ===== *)
theory Control_Resolution
  imports Control_Resolver "HOL-Library.Sublist"
begin

section \<open>Task control: what a resolution guarantees\<close>

text \<open>
  Every resolution ends; the users of a resolved rule are exactly the active CRM users that are linked
  one to one with active employees of its audience; resolved rules are valid; a publication without
  blocking issues keeps everything selected by hand; a projection tells an actor nothing of others.
\<close>

subsection \<open>The tree of departments\<close>

definition dep_edges :: "OrganizationDepartment list \<Rightarrow> (ID \<times> ID) set" where
  "dep_edges ds = {(c, p). dep_parent ds c = Some p}"

lemma dep_edges_step: "dep_parent ds c = Some p \<Longrightarrow> (c, x) \<in> (dep_edges ds)\<^sup>* \<longleftrightarrow> c = x \<or> (p, x) \<in> (dep_edges ds)\<^sup>*"
  by (auto simp: dep_edges_def elim: converse_rtranclE intro: converse_rtrancl_into_rtrancl)

lemma dep_edges_top: "dep_parent ds c = None \<Longrightarrow> (c, x) \<in> (dep_edges ds)\<^sup>* \<longleftrightarrow> c = x"
  by (auto simp: dep_edges_def elim: converse_rtranclE)

lemma reaches_iff:
  "\<not> meets_cycle ds seen c \<Longrightarrow> reaches ds sel c = Some ((c, sel) \<in> (dep_edges ds)\<^sup>*)"
proof (induction ds seen c rule: meets_cycle.induct)
  case (1 ds seen c)
  then show ?case
    by (subst reaches.simps, subst (asm) (3) meets_cycle.simps)
       (auto simp: dep_edges_step dep_edges_top split: option.splits if_splits)
qed

lemma no_meeting_no_cycle: "\<not> meets_cycle ds seen c \<Longrightarrow> (c, c) \<notin> (dep_edges ds)\<^sup>+"
proof (induction ds seen c rule: meets_cycle.induct)
  case (1 ds seen c)
  show ?case
  proof
    assume "(c, c) \<in> (dep_edges ds)\<^sup>+"
    then obtain p where p: "dep_parent ds c = Some p" "(p, c) \<in> (dep_edges ds)\<^sup>*"
      by (auto simp: dep_edges_def dest: tranclD)
    then have "(p, p) \<in> (dep_edges ds)\<^sup>+" by (auto simp: dep_edges_def intro: rtrancl_into_trancl1)
    moreover have "c \<notin> set seen" "\<not> meets_cycle ds (c # seen) p"
      using 1(2) p(1) by (subst (asm) meets_cycle.simps, auto split: if_splits)+
    ultimately show False using 1(1) p(1) by blast
  qed
qed

lemma meeting_cycle:
  "meets_cycle ds seen c \<Longrightarrow> \<forall>s\<in>set seen. (s, c) \<in> (dep_edges ds)\<^sup>+ \<Longrightarrow> \<exists>x. (x, x) \<in> (dep_edges ds)\<^sup>+"
proof (induction ds seen c rule: meets_cycle.induct)
  case (1 ds seen c)
  show ?case
  proof (cases "c \<in> set seen")
    case False
    then obtain p where p: "dep_parent ds c = Some p" "meets_cycle ds (c # seen) p"
      using 1(2) by (subst (asm) meets_cycle.simps) (auto split: option.splits)
    then have "(c, p) \<in> dep_edges ds" by (simp add: dep_edges_def)
    with 1(3) have "\<forall>s\<in>set (c # seen). (s, p) \<in> (dep_edges ds)\<^sup>+"
      by (auto intro: trancl_into_trancl)
    with 1(1) False p show ?thesis by blast
  qed (use 1(3) in blast)
qed

lemma has_cycle_iff: "has_cycle ds \<longleftrightarrow> \<not> acyclic (dep_edges ds)"
proof
  assume "has_cycle ds"
  then show "\<not> acyclic (dep_edges ds)"
    using meeting_cycle[of ds "[]"] by (auto simp: has_cycle_def list_ex_iff acyclic_def)
next
  assume "\<not> acyclic (dep_edges ds)"
  then obtain x where x: "(x, x) \<in> (dep_edges ds)\<^sup>+" by (auto simp: acyclic_def)
  then have "x \<in> od_ID ` set ds" by (auto simp: dep_edges_def dest!: tranclD dep_parent_dom)
  with x no_meeting_no_cycle show "has_cycle ds" by (auto simp: has_cycle_def list_ex_iff)
qed

subsection \<open>The audience\<close>

lemma filter_ended_Some: "(\<And>x. x \<in> set xs \<Longrightarrow> f x = Some (g x)) \<Longrightarrow> filter_ended f xs = Some (filter g xs)"
  by (induction xs) auto

definition covers :: "OrganizationDepartment list \<Rightarrow> DepartmentSelection \<Rightarrow> ID \<Rightarrow> bool" where
  "covers ds s i \<longleftrightarrow>
     i = ds_DepartmentID s \<or> ds_IncludeDescendants s \<and> (i, ds_DepartmentID s) \<in> (dep_edges ds)\<^sup>*"

lemma included_departments_covers:
  assumes "\<not> has_cycle ds"
  shows "\<exists>ids. included_departments ds s = Some ids \<and> set ids = Collect (covers ds s)"
proof -
  have outside: "(i, x) \<in> (dep_edges ds)\<^sup>* \<Longrightarrow> i = x" if "i \<notin> od_ID ` set ds" for i x
    using that dep_edges_top[of ds i x] dep_parent_dom[of ds i] by (cases "dep_parent ds i") auto
  have "reaches ds sel (od_ID d) = Some ((od_ID d, sel) \<in> (dep_edges ds)\<^sup>*)" if "d \<in> set ds" for d sel
    using assms that by (auto simp: has_cycle_def list_ex_iff intro: reaches_iff)
  then have "filter_ended (reaches ds sel) (map od_ID ds) =
      Some (filter (\<lambda>i. (i, sel) \<in> (dep_edges ds)\<^sup>*) (map od_ID ds))" for sel
    by (intro filter_ended_Some) auto
  with outside show ?thesis
    by (fastforce simp: included_departments_def covers_def)
qed

definition in_audience :: "OrganizationSnapshot \<Rightarrow> AudienceSelection \<Rightarrow> ID \<Rightarrow> bool" where
  "in_audience org a i \<longleftrightarrow>
     (\<exists>e\<in>set (os_Employees org). oe_ID e = i \<and>
        (as_Kind a = ''allLinked'' \<or> i \<in> set (items (as_EmployeeIDs a)) \<or>
         (\<exists>s\<in>set (items (as_Departments a)). ds_DepartmentID s \<in> od_ID ` set (os_Departments org) \<and>
            (\<exists>d\<in>set (oe_DepartmentIDs e). covers (os_Departments org) s d))))"

lemma select_departments_set:
  assumes "\<not> has_cycle (os_Departments org)"
  shows "\<exists>issues selected. select_departments org publish path uid i ss = Some (issues, selected) \<and>
     set selected = {oe_ID e | e. e \<in> set (os_Employees org) \<and>
       (\<exists>s\<in>set ss. ds_DepartmentID s \<in> od_ID ` set (os_Departments org) \<and>
          (\<exists>d\<in>set (oe_DepartmentIDs e). covers (os_Departments org) s d))}"
proof (induction ss arbitrary: i)
  case (Cons s ss)
  obtain ids where ids: "included_departments (os_Departments org) s = Some ids"
    "set ids = Collect (covers (os_Departments org) s)"
    using included_departments_covers[OF assms] by blast
  have "set (members_of org ids) = {oe_ID e | e. e \<in> set (os_Employees org) \<and>
      (\<exists>d\<in>set (oe_DepartmentIDs e). covers (os_Departments org) s d)}"
    by (auto simp: members_of_def ids(2))
  with Cons[of "Suc i"] ids(1) show ?case by fastforce
qed simp

lemma select_audience_set:
  assumes "\<not> has_cycle (os_Departments org)"
  shows "\<exists>issues selected. select_audience org publish path uid a = Some (issues, selected) \<and>
     set selected = Collect (in_audience org a)"
proof (cases "as_Kind a = ''allLinked''")
  case True
  then show ?thesis by (auto simp: select_audience_def in_audience_def)
next
  case False
  show ?thesis
    using select_departments_set[OF assms, of publish path uid 0 "items (as_Departments a)"] False
    by (fastforce simp: select_audience_def explicit_employees_def in_audience_def)
qed

subsection \<open>Linked employees\<close>

text \<open>An employee and a CRM user confirmed as the same, and nobody else as either of them.\<close>

definition linked :: "OrganizationSnapshot \<Rightarrow> ReferenceSnapshot \<Rightarrow> ID \<Rightarrow> string \<Rightarrow> bool" where
  "linked org refs e c \<longleftrightarrow>
     employee_active org e \<and> user_active refs c = Some True \<and>
     (\<exists>m\<in>set (account_mappings org). em_EmployeeID m = e \<and> em_CRMUserID m = c) \<and>
     (\<forall>m\<in>set (account_mappings org). em_EmployeeID m = e \<longleftrightarrow> em_CRMUserID m = c)"

lemma remdups_singleton: "length (remdups xs) = 1 \<and> hd (remdups xs) = c \<longleftrightarrow> set xs = {c}"
proof -
  have "length (remdups xs) = card (set xs)" by (simp add: length_remdups_card_conv)
  moreover have "remdups xs = [c] \<longleftrightarrow> set xs = {c}" if "length (remdups xs) = 1"
    using that by (metis (no_types) One_nat_def hd_Cons_tl length_0_conv length_Suc_conv list.sel(1) list.set(1) list.set(2) set_remdups singleton_inject)
  ultimately show ?thesis
    by (metis One_nat_def card_1_singletonE is_singletonI is_singleton_altdef length_0_conv length_Suc_conv list.sel(1))
qed

lemma linked_user_iff: "linked_user org refs e = Inr c \<longleftrightarrow> linked org refs e c"
proof -
  have "linked_user org refs e = Inr c \<longleftrightarrow>
    employee_active org e \<and> user_active refs c = Some True \<and>
    (length (mapped org e) = 1 \<and> hd (mapped org e) = c) \<and> length (reverse_mapped org c) = 1"
    by (auto simp: linked_user_def Let_def split: option.splits if_splits)
  also have "\<dots> \<longleftrightarrow> employee_active org e \<and> user_active refs c = Some True \<and>
    em_CRMUserID ` {m \<in> set (account_mappings org). em_EmployeeID m = e} = {c} \<and>
    (\<exists>x. em_EmployeeID ` {m \<in> set (account_mappings org). em_CRMUserID m = c} = {x})"
  proof -
    have "length (mapped org e) = 1 \<and> hd (mapped org e) = c \<longleftrightarrow>
        em_CRMUserID ` {m \<in> set (account_mappings org). em_EmployeeID m = e} = {c}"
      unfolding mapped_def remdups_singleton by simp
    moreover have "length (reverse_mapped org c) = 1 \<longleftrightarrow>
        (\<exists>x. em_EmployeeID ` {m \<in> set (account_mappings org). em_CRMUserID m = c} = {x})"
    proof -
      have "length (reverse_mapped org c) = 1 \<longleftrightarrow> (\<exists>x. length (reverse_mapped org c) = 1 \<and> hd (reverse_mapped org c) = x)"
        by simp
      then show ?thesis unfolding reverse_mapped_def remdups_singleton by simp
    qed
    ultimately show ?thesis by blast
  qed
  also have "\<dots> \<longleftrightarrow> linked org refs e c"
    unfolding linked_def by (rule conj_cong[OF refl], rule conj_cong[OF refl]) (auto simp: set_eq_iff image_iff, metis+)
  finally show ?thesis .
qed

lemma linked_inj: "linked org refs e c \<Longrightarrow> linked org refs e' c \<Longrightarrow> e = e'"
  by (auto simp: linked_def)

lemma resolve_users_set:
  "set (snd (resolve_users org refs publish path uid explicit selected)) =
     {c. \<exists>e\<in>set selected. linked org refs e c}"
proof -
  have "c \<in> set (case linked_user org refs e of Inl _ \<Rightarrow> [] | Inr c \<Rightarrow> [c]) \<longleftrightarrow> linked org refs e c" for c e
    unfolding linked_user_iff[symmetric] by (auto split: sum.splits)
  then show ?thesis by (auto simp: resolve_users_def sortCRM_def Let_def)
qed

lemma resolve_users_distinct: "distinct (snd (resolve_users org refs publish path uid explicit selected))"
  by (simp add: resolve_users_def sortCRM_def Let_def)

subsection \<open>Issues\<close>

lemma add_issue_limited: "snd st \<Longrightarrow> snd (add_issue i st)"
  by (cases st) (auto simp: add_issue_def)

lemma fold_add_limited: "snd st \<Longrightarrow> snd (fold add_issue is st)"
  by (induction "is" arbitrary: st) (auto simp: add_issue_limited)

lemma fold_add_all: "\<not> snd (fold add_issue is st) \<Longrightarrow> fst (fold add_issue is st) = fst st @ is"
proof (induction "is" arbitrary: st)
  case (Cons i "is")
  then have "\<not> snd (add_issue i st)" using fold_add_limited by fastforce
  then have "fst (add_issue i st) = fst st @ [i]" by (cases st) (auto simp: add_issue_def split: if_splits)
  with Cons show ?case by simp
qed simp

definition limit_noted :: "diagnostics \<Rightarrow> bool" where
  "limit_noted st \<longleftrightarrow> (snd st \<longrightarrow> list_ex ii_Blocking (fst st))"

lemma add_issue_noted: "limit_noted st \<Longrightarrow> limit_noted (add_issue i st)"
  by (cases st) (auto simp: add_issue_def limit_noted_def intent_problem_def list_ex_iff)

lemma fold_add_noted: "limit_noted st \<Longrightarrow> limit_noted (fold add_issue is st)"
  by (induction "is" arbitrary: st) (auto simp: add_issue_noted)

subsection \<open>The loop over the rules\<close>

lemma resolve_from_noted: "resolve_from org refs publish i st rules = Some (st', out) \<Longrightarrow> limit_noted st \<Longrightarrow> limit_noted st'"
  by (induction org refs publish i st rules arbitrary: st' out rule: resolve_from.induct)
     (auto split: if_splits option.splits simp: fold_add_noted)

lemma resolve_from_rule:
  "resolve_from org refs publish i st rules = Some (st', out) \<Longrightarrow> r \<in> set out \<Longrightarrow>
     \<exists>j < length rules. \<exists>issues. resolve_rule org refs publish (i + j) (rules ! j) = Some (issues, Some r)"
proof (induction org refs publish i st rules arbitrary: st' out rule: resolve_from.induct)
  case (2 org refs publish i st item rest)
  show ?case
  proof (cases "\<exists>issues. resolve_rule org refs publish i item = Some (issues, Some r)")
    case True
    then show ?thesis by (intro exI[of _ 0]) simp
  next
    case False
    with 2(2,3) obtain issues x st'' out' where x: "\<not> snd st" "resolve_rule org refs publish i item = Some (issues, x)"
      "resolve_from org refs publish (Suc i) (fold add_issue issues st) rest = Some (st'', out')" "r \<in> set out'"
      by (auto split: if_splits option.splits)
    from 2(1)[OF x(1) x(2) refl x(3,4)] obtain j where "j < length rest"
      "\<exists>issues. resolve_rule org refs publish (Suc i + j) (rest ! j) = Some (issues, Some r)" by blast
    then show ?thesis by (intro exI[of _ "Suc j"]) simp
  qed
qed simp

lemma resolve_from_all:
  "resolve_from org refs publish i st rules = Some (st', out) \<Longrightarrow> \<not> snd st' \<Longrightarrow>
     (\<forall>j < length rules. \<exists>issues x. resolve_rule org refs publish (i + j) (rules ! j) = Some (issues, x) \<and>
        set issues \<subseteq> set (fst st') \<and> (case x of None \<Rightarrow> True | Some r \<Rightarrow> r \<in> set out)) \<and>
     set (fst st) \<subseteq> set (fst st') \<and> \<not> snd st"
proof (induction org refs publish i st rules arbitrary: st' out rule: resolve_from.induct)
  case (2 org refs publish i st item rest)
  then obtain issues x out' where x: "\<not> snd st" "resolve_rule org refs publish i item = Some (issues, x)"
    "resolve_from org refs publish (Suc i) (fold add_issue issues st) rest = Some (st', out')"
    "out = (case x of None \<Rightarrow> out' | Some r \<Rightarrow> r # out')"
    by (auto split: if_splits option.splits)
  note IH = 2(1)[OF x(1,2) refl x(3) 2(3)]
  then have "set (fst st) \<union> set issues \<subseteq> set (fst st')" using fold_add_all[of issues st] by simp
  moreover have "\<exists>issues x. resolve_rule org refs publish (i + j) ((item # rest) ! j) = Some (issues, x) \<and>
        set issues \<subseteq> set (fst st') \<and> (case x of None \<Rightarrow> True | Some r \<Rightarrow> r \<in> set out)" if "j < Suc (length rest)" for j
  proof (cases j)
    case 0
    with x calculation show ?thesis by (auto split: option.splits)
  next
    case (Suc k)
    with that IH obtain is' x' where "resolve_rule org refs publish (i + j) ((item # rest) ! j) = Some (is', x')"
      "set is' \<subseteq> set (fst st')" "case x' of None \<Rightarrow> True | Some r \<Rightarrow> r \<in> set out'" by auto
    with x(4) show ?thesis by (auto split: option.splits)
  qed
  ultimately show ?case using x(1) by simp
qed simp

subsection \<open>Every resolution ends\<close>

lemma check_ids_None: "check_ids ul bad repeated seen is = None \<longleftrightarrow> (\<forall>i\<in>set is. validUUID ul i \<and> i \<notin> set seen) \<and> distinct is"
  by (induction ul bad repeated seen "is" rule: check_ids.induct) auto

definition coherent_organization :: "uuid_lib \<Rightarrow> OrganizationSnapshot \<Rightarrow> bool" where
  "coherent_organization ul org \<longleftrightarrow>
     length (os_Employees org) \<le> 10000 \<and> length (os_Departments org) \<le> 1000 \<and> length (os_Mappings org) \<le> 20000 \<and>
     distinct (map oe_ID (os_Employees org)) \<and> distinct (map od_ID (os_Departments org)) \<and>
     (\<forall>e\<in>set (os_Employees org). validUUID ul (oe_ID e)) \<and> (\<forall>d\<in>set (os_Departments org). validUUID ul (od_ID d)) \<and>
     acyclic (dep_edges (os_Departments org)) \<and> (\<forall>m\<in>set (account_mappings org). ValidCRMID (em_CRMUserID m))"

lemma check_organization_None: "check_organization ul org = None \<longleftrightarrow> coherent_organization ul org"
proof -
  have first: "(case x of None \<Rightarrow> y | Some e \<Rightarrow> Some e) = None \<longleftrightarrow> x = None \<and> y = None" for x y :: "'x option"
    by (cases x) auto
  show ?thesis
    by (auto simp: check_organization_def coherent_organization_def first check_ids_None has_cycle_iff list_ex_iff)
qed

lemma check_ids_error: "check_ids ul bad repeated seen is = Some e \<Longrightarrow> e = bad \<or> e = repeated"
  by (induction ul bad repeated seen "is" rule: check_ids.induct) (auto split: if_splits)

lemma check_organization_cycle:
  "check_organization ul org = Some DepartmentCycle \<Longrightarrow> \<not> acyclic (dep_edges (os_Departments org))"
  by (auto simp: check_organization_def has_cycle_iff split: if_splits option.splits dest: check_ids_error)

lemma resolve_dynamic_ends:
  assumes "acyclic (dep_edges (os_Departments org))"
  shows "resolve_dynamic org refs publish path d \<noteq> None"
  using select_audience_set[of org publish path "rv_RuleUID d" "rv_Audience d"] assms
  by (auto simp: resolve_dynamic_def has_cycle_iff Let_def)

lemma resolve_from_ends:
  "acyclic (dep_edges (os_Departments org)) \<Longrightarrow> resolve_from org refs publish i st rules \<noteq> None"
proof (induction org refs publish i st rules rule: resolve_from.induct)
  case (2 org refs publish i st item rest)
  have "resolve_rule org refs publish i item \<noteq> None"
    using resolve_dynamic_ends[OF 2(2)] by (simp add: resolve_rule_def Let_def split: option.splits)
  with 2 show ?case by (auto split: option.splits)
qed simp

lemma ResolveIntentRules_ends: "ResolveIntentRules ul sha256 rules refs org publish \<noteq> None"
  using resolve_from_ends[of org refs publish 0 "([], False)" "items rules"] check_organization_None[of ul org]
  by (auto simp: ResolveIntentRules_def coherent_organization_def split: list.splits option.splits)

text \<open>What is known of a resolution that succeeds.\<close>

lemma resolved_run:
  assumes "ResolveIntentRules ul sha256 rules refs org publish = Some (Inr res)"
  shows "ValidateIntentRules ul rules = []" "os_CompanyID org = sc_CompanyID (rf_Scope refs)"
    "os_AccountID org = sc_AccountID (rf_Scope refs)" "coherent_organization ul org"
    "\<exists>st. resolve_from org refs publish 0 ([], False) (items rules) = Some (st, re_Rules res) \<and>
       (snd st \<longrightarrow> HasBlockingIssues res) \<and> set (fst st) \<subseteq> set (re_Issues res) \<and>
       (\<not> HasBlockingIssues res \<longrightarrow> (re_RuntimeRules res, re_ResolvedChecksum res) = Legacy sha256 (re_Rules res))"
proof -
  have start: "ValidateIntentRules ul rules = [] \<and> os_CompanyID org = sc_CompanyID (rf_Scope refs) \<and>
    os_AccountID org = sc_AccountID (rf_Scope refs) \<and> check_organization ul org = None"
    using assms by (auto simp: ResolveIntentRules_def split: list.splits option.splits if_splits)
  moreover from this obtain issues limited out where
    run: "resolve_from org refs publish 0 ([], False) (items rules) = Some ((issues, limited), out)"
    using assms by (auto simp: ResolveIntentRules_def split: list.splits option.splits)
  moreover have noted: "limit_noted (issues, limited)"
    using resolve_from_noted[OF run] by (simp add: limit_noted_def)
  moreover have kept: "x \<in> set is \<Longrightarrow> x \<in> set (fst (add_issue i (is, b)))" for x i "is" b
    by (simp add: add_issue_def)
  ultimately have "re_Rules res = out \<and> (limited \<longrightarrow> HasBlockingIssues res) \<and> set issues \<subseteq> set (re_Issues res) \<and>
     (\<not> HasBlockingIssues res \<longrightarrow> (re_RuntimeRules res, re_ResolvedChecksum res) = Legacy sha256 (re_Rules res))"
    using assms
    by (auto simp: ResolveIntentRules_def HasBlockingIssues_def limit_noted_def list_ex_iff Let_def kept
        split: if_splits prod.splits dest: sym)
  with run start show "ValidateIntentRules ul rules = []" "os_CompanyID org = sc_CompanyID (rf_Scope refs)"
    "os_AccountID org = sc_AccountID (rf_Scope refs)" "coherent_organization ul org"
    "\<exists>st. resolve_from org refs publish 0 ([], False) (items rules) = Some (st, re_Rules res) \<and>
       (snd st \<longrightarrow> HasBlockingIssues res) \<and> set (fst st) \<subseteq> set (re_Issues res) \<and>
       (\<not> HasBlockingIssues res \<longrightarrow> (re_RuntimeRules res, re_ResolvedChecksum res) = Legacy sha256 (re_Rules res))"
    using check_organization_None by auto
qed

lemma resolve_dynamic_rule:
  assumes "resolve_dynamic org refs publish path d = Some (issues, Some r)"
    "as_Kind (rv_Audience d) = ''allLinked'' \<longrightarrow> as_EmployeeIDs (rv_Audience d) = None"
  obtains missing selected excluded users absent pipelines problems customers statuses where
    "rv_Enabled d" "\<not> rv_Archived d"
    "select_audience org publish path (rv_RuleUID d) (rv_Audience d) = Some (missing, selected)"
    "resolve_users org refs publish path (rv_RuleUID d) (items (as_EmployeeIDs (rv_Audience d))) selected = (excluded, users)"
    "resolve_leads refs publish path (rv_RuleUID d) (rv_Leads d) = (absent, pipelines)"
    "resolve_customers refs publish path (rv_RuleUID d) (rv_Customers d) = (problems, customers, statuses)"
    "length users \<le> 1000" "length pipelines \<le> 1000" "r = materialized d users pipelines customers statuses"
    "executable r"
proof -
  have "rv_Enabled d" "\<not> rv_Archived d" using assms by (auto simp: resolve_dynamic_def split: if_splits)
  moreover obtain missing selected where "select_audience org publish path (rv_RuleUID d) (rv_Audience d) = Some (missing, selected)"
    using assms calculation by (auto simp: resolve_dynamic_def Let_def)
  moreover obtain excluded users where
    "resolve_users org refs publish path (rv_RuleUID d) (items (as_EmployeeIDs (rv_Audience d))) selected = (excluded, users)"
    by fastforce
  moreover obtain absent pipelines where "resolve_leads refs publish path (rv_RuleUID d) (rv_Leads d) = (absent, pipelines)"
    by fastforce
  moreover obtain problems customers statuses where
    "resolve_customers refs publish path (rv_RuleUID d) (rv_Customers d) = (problems, customers, statuses)"
    using prod_cases3 by blast
  ultimately show ?thesis
    using assms that by (auto simp: resolve_dynamic_def Let_def split: if_splits)
qed

lemma resolve_rule_uid:
  assumes "valid_intent ul item" "resolve_rule org refs publish i item = Some (issues, Some r)"
  shows "cr_RuleUID r = intent_uid ul item"
proof (cases "ir_Legacy item")
  case (Some l)
  with assms have "intent_uid ul item = cr_RuleUID l" by (auto simp: valid_intent_def intent_uid_def)
  moreover have "r = legacy_resolved refs l"
    using assms(2) Some by (auto simp: resolve_rule_def resolve_legacy_def Let_def split: if_splits)
  ultimately show ?thesis by (simp add: legacy_resolved_def Let_def)
next
  case None
  with assms(1) obtain d where d: "ir_Dynamic item = Some d" "intent_uid ul item = rv_RuleUID d"
    by (auto simp: valid_intent_def intent_uid_def)
  moreover from this assms(1) None have "as_Kind (rv_Audience d) = ''allLinked'' \<longrightarrow> as_EmployeeIDs (rv_Audience d) = None"
    by (auto simp: valid_intent_def valid_dynamic_def valid_audience_def)
  moreover have "resolve_dynamic org refs publish (indexed ''intentRules'' i @ ''.rule'') d = Some (issues, Some r)"
    using None assms(2) d by (simp add: resolve_rule_def)
  ultimately show ?thesis by (elim resolve_dynamic_rule) (simp_all add: materialized_def)
qed

lemma resolved_from_item:
  assumes "ResolveIntentRules ul sha256 rules refs org publish = Some (Inr res)" "r \<in> set (re_Rules res)"
  obtains i item issues where "item \<in> set (items rules)" "valid_intent ul item" "intent_uid ul item = cr_RuleUID r"
    "resolve_rule org refs publish i item = Some (issues, Some r)"
proof -
  obtain st where "resolve_from org refs publish 0 ([], False) (items rules) = Some (st, re_Rules res)"
    using resolved_run(5)[OF assms(1)] by blast
  from resolve_from_rule[OF this assms(2)] obtain j issues where
    j: "j < length (items rules)" "resolve_rule org refs publish j (items rules ! j) = Some (issues, Some r)" by auto
  moreover from j resolved_run(1)[OF assms(1)] have "valid_intent ul (items rules ! j)"
    by (simp add: ValidateIntentRules_iff)
  ultimately show ?thesis using that[of "items rules ! j" j issues] resolve_rule_uid by force
qed

lemma dynamic_rule_run:
  assumes "ResolveIntentRules ul sha256 rules refs org publish = Some (Inr res)" "r \<in> set (re_Rules res)"
    and "item \<in> set (items rules)" "ir_Dynamic item = Some d" "rv_RuleUID d = cr_RuleUID r"
  obtains path issues where "valid_dynamic ul d" "resolve_dynamic org refs publish path d = Some (issues, Some r)"
    "\<not> has_cycle (os_Departments org)"
    "as_Kind (rv_Audience d) = ''allLinked'' \<longrightarrow> as_EmployeeIDs (rv_Audience d) = None"
proof -
  have valid: "distinct (map (intent_uid ul) (items rules))" "valid_intent ul item"
    using resolved_run(1)[OF assms(1)] assms(3) by (simp_all add: ValidateIntentRules_iff)
  obtain i item' issues where item': "item' \<in> set (items rules)" "intent_uid ul item' = cr_RuleUID r"
    "resolve_rule org refs publish i item' = Some (issues, Some r)"
    by (rule resolved_from_item[OF assms(1,2)])
  have d: "item = \<lparr>ir_Kind = ''dynamic'', ir_Dynamic = Some d, ir_Legacy = None\<rparr>" "valid_dynamic ul d"
    using valid(2) assms(4) by (auto simp: valid_intent_def)
  then have "intent_uid ul item = cr_RuleUID r" using assms(5) by (simp add: intent_uid_def)
  with valid(1) item' assms(3) have "item' = item" by (auto simp: distinct_map inj_on_def)
  with d item'(3) have "resolve_dynamic org refs publish (indexed ''intentRules'' i @ ''.rule'') d = Some (issues, Some r)"
    by (simp add: resolve_rule_def)
  moreover have "\<not> has_cycle (os_Departments org)"
    using resolved_run(4)[OF assms(1)] by (simp add: has_cycle_iff coherent_organization_def)
  ultimately show ?thesis
    using that d by (auto simp: valid_dynamic_def valid_audience_def)
qed

subsection \<open>Resolved rules are valid\<close>

definition directory_ok :: "ReferenceSnapshot \<Rightarrow> bool" where
  "directory_ok refs \<longleftrightarrow>
     length (items (rf_Pipelines refs)) \<le> 1000 \<and> distinct (map rp_ID (items (rf_Pipelines refs))) \<and>
     (\<forall>p\<in>set (items (rf_Pipelines refs)). ValidCRMID (rp_ID p) \<and> length (items (rp_Statuses p)) \<le> 1000 \<and>
        distinct (map rs_ID (items (rp_Statuses p))) \<and> (\<forall>s\<in>set (items (rp_Statuses p)). \<not> bad_status s))"

lemma validate_statuses_distinct:
  "validate_statuses p seen vs = Some seen' \<Longrightarrow>
     distinct (map rs_ID vs) \<and> (\<forall>v\<in>set vs. \<not> bad_status v \<and> status_key p v \<notin> set seen)"
proof (induction p seen vs rule: validate_statuses.induct)
  case (2 p seen v vs)
  from 2(2) have v: "\<not> (bad_status v \<or> status_key p v \<in> set seen)" "validate_statuses p (status_key p v # seen) vs = Some seen'"
    by (simp_all split: if_split_asm)
  from 2(1)[OF v] v(1) have "distinct (map rs_ID vs) \<and> (\<forall>x\<in>set vs. \<not> bad_status x \<and> status_key p x \<notin> set (status_key p v # seen))"
    and "\<not> bad_status v \<and> status_key p v \<notin> set seen" by blast+
  moreover have "rs_ID v \<notin> rs_ID ` set vs"
  proof
    assume "rs_ID v \<in> rs_ID ` set vs"
    then obtain x where "x \<in> set vs" "status_key p x = status_key p v" by (auto simp: status_key_def)
    with calculation(1) show False by force
  qed
  ultimately show ?case by simp
qed simp

lemma validate_reference_pipelines_ok:
  "validate_reference_pipelines seen statuses ps \<Longrightarrow>
     distinct (map rp_ID ps) \<and> (\<forall>p\<in>set ps. rp_ID p \<notin> set seen \<and> ValidCRMID (rp_ID p) \<and>
        length (items (rp_Statuses p)) \<le> 1000 \<and> distinct (map rs_ID (items (rp_Statuses p))) \<and>
        (\<forall>s\<in>set (items (rp_Statuses p)). \<not> bad_status s))"
proof (induction seen statuses ps rule: validate_reference_pipelines.induct)
  case (2 seen statuses p ps)
  from 2(2) obtain statuses' where p: "validate_statuses (rp_ID p) statuses (items (rp_Statuses p)) = Some statuses'"
    "validate_reference_pipelines (rp_ID p # seen) statuses' ps" "ValidCRMID (rp_ID p)" "rp_ID p \<notin> set seen"
    "length (items (rp_Statuses p)) \<le> 1000" "rp_Statuses p \<noteq> None"
    by (simp split: if_split_asm option.split_asm)
  then have "\<not> (\<not> ValidCRMID (rp_ID p) \<or> rp_ID p \<in> set seen \<or> rp_Statuses p = None \<or> length (items (rp_Statuses p)) > 1000)"
    by simp
  note IH = 2(1)[OF this p(1,2)]
  then have "rp_ID p \<notin> rp_ID ` set ps" by auto
  with IH p validate_statuses_distinct[OF p(1)] show ?case by simp
qed simp

lemma Validate_directory: "ReferenceSnapshot_Validate ul sha256 refs scope now \<Longrightarrow> directory_ok refs"
  using validate_reference_pipelines_ok[of "[]" "[]" "items (rf_Pipelines refs)"]
  by (auto simp: ReferenceSnapshot_Validate_def directory_ok_def split: if_splits)

text \<open>Lists collected from at most one element each.\<close>

lemma subseq_collect:
  assumes "\<And>x. x \<in> set xs \<Longrightarrow> f x = [] \<or> (\<exists>y. f x = [y] \<and> k y = g x)"
  shows "subseq (map k (concat (map f xs))) (map g xs)"
  using assms
proof (induction xs)
  case (Cons x xs)
  then have "subseq (map k (concat (map f xs))) (map g xs)" by simp
  moreover have "f x = [] \<or> (\<exists>y. f x = [y] \<and> k y = g x)" using Cons(2) by simp
  ultimately show ?case by auto
qed simp

lemma subseq_distinct: "subseq ys xs \<Longrightarrow> distinct xs \<Longrightarrow> distinct ys"
  using subseqs_distinctD[of ys xs] by (simp add: in_set_subseqs)

lemma crm_list_filter: "crm_list s \<Longrightarrow> crm_list (Some (filter P (items s)))"
  by (auto simp: crm_list_def intro: le_trans[OF length_filter_le])

lemma crm_list_sortCRM: "crm_list (Some v) \<Longrightarrow> crm_list (Some (sortCRM v))"
  by (simp add: crm_list_def sortCRM_def)

definition valid_pipelines :: "Pipeline list \<Rightarrow> bool" where
  "valid_pipelines ps \<longleftrightarrow> length ps \<le> 1000 \<and> distinct (map pp_PipelineID ps) \<and>
     (\<forall>p\<in>set ps. ValidCRMID (pp_PipelineID p) \<and> crm_list (pp_StatusIDs p) \<and> items (pp_StatusIDs p) \<noteq> [])"

lemma resolved_pipelines_valid:
  assumes "valid_pipelines ps" shows "valid_pipelines (resolved_pipelines refs ps)"
proof -
  have "subseq (map pp_PipelineID (resolved_pipelines refs ps)) (map pp_PipelineID ps)"
    unfolding resolved_pipelines_def by (rule subseq_collect) (auto simp: Let_def split: option.splits)
  then have "length (resolved_pipelines refs ps) \<le> length ps" "distinct (map pp_PipelineID (resolved_pipelines refs ps))"
    using assms by (auto simp: valid_pipelines_def dest: list_emb_length subseq_distinct)
  moreover have "ValidCRMID (pp_PipelineID p) \<and> crm_list (pp_StatusIDs p) \<and> items (pp_StatusIDs p) \<noteq> []"
    if "p \<in> set (resolved_pipelines refs ps)" for p
    using that assms
    by (auto simp: resolved_pipelines_def valid_pipelines_def Let_def crm_list_filter split: option.splits if_splits)
  ultimately show ?thesis using assms by (simp add: valid_pipelines_def)
qed

lemma legacy_resolved_valid:
  assumes "valid_rule ul old" "executable (legacy_resolved refs old)"
  shows "valid_rule ul (legacy_resolved refs old)"
proof -
  have "valid_pipelines (resolved_pipelines refs (items (cr_Pipelines old)))"
    by (rule resolved_pipelines_valid) (use assms(1) in \<open>simp add: valid_rule_def valid_pipelines_def\<close>)
  with assms show ?thesis
    by (auto simp: valid_rule_def legacy_resolved_def Let_def executable_def crm_list_filter valid_pipelines_def)
qed

lemma last_of_Some: "last_of kvs k = Some v \<Longrightarrow> (k, v) \<in> set kvs"
  by (auto simp: last_of_def dest: map_of_SomeD)

lemma pipeline_of_Some: "pipeline_of refs i = Some p \<Longrightarrow> p \<in> set (items (rf_Pipelines refs)) \<and> rp_ID p = i"
  by (auto simp: pipeline_of_def dest!: last_of_Some)

lemma status_valid: "\<not> bad_status s \<Longrightarrow> ValidCRMID (rs_ID s)"
  unfolding bad_status_def by blast

lemma sortCRM_Nil [simp]: "sortCRM v = [] \<longleftrightarrow> v = []"
  unfolding sortCRM_def by (metis length_0_conv length_sort)

lemma resolve_stages_valid:
  assumes "directory_ok refs" "p \<in> set (items (rf_Pipelines refs))" "valid_stages sel"
  shows "crm_list (Some (snd (resolve_stages publish path uid p sel)))"
proof (cases "ss_Kind sel = ''allOpen''")
  case True
  have "length (items (rp_Statuses p)) \<le> 1000" "distinct (map rs_ID (items (rp_Statuses p)))"
    "\<forall>s\<in>set (items (rp_Statuses p)). ValidCRMID (rs_ID s)"
    using assms(1,2) by (auto simp: directory_ok_def status_valid)
  then have "length (filter P (items (rp_Statuses p))) \<le> 1000" "distinct (map rs_ID (filter P (items (rp_Statuses p))))"
    "\<forall>s\<in>set (filter P (items (rp_Statuses p))). ValidCRMID (rs_ID s)" for P
    using le_trans[OF length_filter_le] by (simp_all add: distinct_map_filter)
  then show ?thesis using True by (simp add: resolve_stages_def crm_list_def)
next
  case False
  then show ?thesis
    using assms(3) by (auto simp: resolve_stages_def valid_stages_def crm_list_filter)
qed

lemma lead_selections_valid:
  assumes "directory_ok refs" "valid_leads l"
  shows "length (lead_selections refs l) \<le> 1000 \<and> distinct (map ps_PipelineID (lead_selections refs l)) \<and>
    (\<forall>s\<in>set (lead_selections refs l). ValidCRMID (ps_PipelineID s) \<and> valid_stages (ps_Stages s))"
proof (cases "ls_Kind l = ''allOpen''")
  case True
  let ?sel = "\<lambda>i. \<lparr>ps_PipelineID = i, ps_Stages = \<lparr>ss_Kind = ''allOpen'', ss_StatusIDs = None\<rparr>\<rparr>"
  have ids: "distinct (map rp_ID (items (rf_Pipelines refs)))" "length (items (rf_Pipelines refs)) \<le> 1000"
    "\<forall>p\<in>set (items (rf_Pipelines refs)). ValidCRMID (rp_ID p)"
    using assms(1) by (simp_all add: directory_ok_def)
  then have "lead_selections refs l = sort_key (\<lambda>s. crm_number (ps_PipelineID s)) (map ?sel (map rp_ID (items (rf_Pipelines refs))))"
    using True by (simp add: lead_selections_def distinct_remdups_id del: map_map)
  also have "\<dots> = map ?sel (sort_key crm_number (map rp_ID (items (rf_Pipelines refs))))"
    by (simp only: sort_key_map PipelineSelection.select_convs)
  finally have "lead_selections refs l = map ?sel (sort_key crm_number (map rp_ID (items (rf_Pipelines refs))))" .
  with ids show ?thesis by (auto simp: comp_def valid_stages_def)
next
  case False
  then show ?thesis using assms(2) by (auto simp: lead_selections_def valid_leads_def)
qed

lemma resolve_leads_valid:
  assumes "directory_ok refs" "valid_leads l"
  shows "valid_pipelines (snd (resolve_leads refs publish path uid l))"
proof -
  let ?f = "\<lambda>x. snd (resolve_pipeline refs publish path uid x)"
  let ?xs = "enumerate 0 (lead_selections refs l)"
  have out: "snd (resolve_leads refs publish path uid l) = concat (map ?f ?xs)"
    by (simp add: resolve_leads_def Let_def comp_def)
  have sel: "snd x \<in> set (lead_selections refs l)" if "x \<in> set ?xs" for x
    using that by (metis imageI map_snd_enumerate set_map)
  have one: "?f x = [] \<or> (\<exists>y. ?f x = [y] \<and> pp_PipelineID y = ps_PipelineID (snd x))" for x
    by (cases x) (auto simp: resolve_pipeline_def Let_def split: option.splits prod.splits dest: pipeline_of_Some)
  have "subseq (map pp_PipelineID (concat (map ?f ?xs))) (map (\<lambda>x. ps_PipelineID (snd x)) ?xs)"
    by (rule subseq_collect) (rule one)
  then have "subseq (map pp_PipelineID (concat (map ?f ?xs))) (map ps_PipelineID (lead_selections refs l))"
    by (metis (no_types, lifting) comp_apply map_cong map_map map_snd_enumerate)
  moreover have "ValidCRMID (pp_PipelineID y) \<and> crm_list (pp_StatusIDs y) \<and> items (pp_StatusIDs y) \<noteq> []"
    if xs: "x \<in> set ?xs" and y: "y \<in> set (?f x)" for x y
  proof -
    obtain i s where x: "x = (i, s)" by (cases x)
    with sel[OF xs] lead_selections_valid[OF assms] have s: "ValidCRMID (ps_PipelineID s)" "valid_stages (ps_Stages s)" by auto
    obtain p where p: "pipeline_of refs (ps_PipelineID s) = Some p"
      using y x by (auto simp: resolve_pipeline_def Let_def split: option.splits)
    note valid = resolve_stages_valid[OF assms(1) conjunct1[OF pipeline_of_Some[OF p]] s(2)]
    obtain issues ids where ids: "resolve_stages publish (indexed (path @ ''.leads.pipelines'') i) uid p (ps_Stages s) = (issues, ids)"
      by fastforce
    then have "crm_list (Some ids)" using valid[of publish "indexed (path @ ''.leads.pipelines'') i" uid] by simp
    with y x p ids s(1) pipeline_of_Some[OF p] show ?thesis
      by (auto simp: resolve_pipeline_def Let_def crm_list_sortCRM split: if_splits)
  qed
  moreover from calculation(1) have "distinct (map pp_PipelineID (concat (map ?f ?xs)))"
    by (rule subseq_distinct) (use lead_selections_valid[OF assms] in simp)
  ultimately show ?thesis
    using lead_selections_valid[OF assms] unfolding out valid_pipelines_def
    by (auto dest!: list_emb_length)
qed

lemma resolve_customers_valid:
  assumes "valid_customers c" "resolve_customers refs publish path uid c = (problems, customers, statuses)"
  shows "crm_list (Some statuses)"
  using assms by (auto simp: resolve_customers_def Let_def valid_customers_def crm_list_filter split: if_splits)
    (simp_all add: crm_list_def)

lemma dynamic_resolved_valid:
  assumes "directory_ok refs" "coherent_organization ul org" "valid_dynamic ul d" "validUUID ul (rv_RuleUID d)"
    and "resolve_dynamic org refs publish path d = Some (issues, Some r)"
  shows "valid_rule ul r"
proof -
  have kind: "as_Kind (rv_Audience d) = ''allLinked'' \<longrightarrow> as_EmployeeIDs (rv_Audience d) = None"
    and parts: "valid_leads (rv_Leads d)" "valid_customers (rv_Customers d)"
    using assms(3) by (auto simp: valid_dynamic_def valid_audience_def)
  obtain missing selected excluded users absent pipelines problems customers statuses where
    run: "resolve_users org refs publish path (rv_RuleUID d) (items (as_EmployeeIDs (rv_Audience d))) selected = (excluded, users)"
    "resolve_leads refs publish path (rv_RuleUID d) (rv_Leads d) = (absent, pipelines)"
    "resolve_customers refs publish path (rv_RuleUID d) (rv_Customers d) = (problems, customers, statuses)"
    "length users \<le> 1000" "r = materialized d users pipelines customers statuses" "executable r"
    by (rule resolve_dynamic_rule[OF assms(5) kind])
  have "ValidCRMID c" if "c \<in> set users" for c
    using that resolve_users_set[of org refs publish path "rv_RuleUID d" "items (as_EmployeeIDs (rv_Audience d))" selected]
      assms(2) run(1) by (auto simp: linked_def coherent_organization_def)
  moreover have "distinct users"
    using resolve_users_distinct[of org refs publish path "rv_RuleUID d" "items (as_EmployeeIDs (rv_Audience d))" selected]
      run(1) by simp
  moreover have "valid_pipelines pipelines"
    using resolve_leads_valid[OF assms(1) parts(1), of publish path "rv_RuleUID d"] run(2) by simp
  moreover have "crm_list (Some statuses)" by (rule resolve_customers_valid[OF parts(2) run(3)])
  ultimately show ?thesis
    using run(4-6) assms(3,4)
    by (auto simp: valid_rule_def materialized_def executable_def crm_list_def valid_pipelines_def valid_dynamic_def)
qed

lemma resolve_rule_valid:
  assumes "directory_ok refs" "coherent_organization ul org" "valid_intent ul item"
    and "resolve_rule org refs publish i item = Some (issues, Some r)"
  shows "valid_rule ul r"
proof (cases "ir_Legacy item")
  case (Some l)
  then have "r = legacy_resolved refs l" "executable r"
    using assms(4) by (auto simp: resolve_rule_def resolve_legacy_def Let_def split: if_splits)
  with Some assms(3) show ?thesis by (auto simp: valid_intent_def intro: legacy_resolved_valid)
next
  case None
  with assms(3) obtain d where d: "ir_Dynamic item = Some d" "valid_dynamic ul d" "validUUID ul (rv_RuleUID d)"
    by (auto simp: valid_intent_def)
  with None assms(4) have "resolve_dynamic org refs publish (indexed ''intentRules'' i @ ''.rule'') d = Some (issues, Some r)"
    by (simp add: resolve_rule_def)
  with assms(1,2) d(2,3) show ?thesis by (rule dynamic_resolved_valid)
qed

lemma resolve_from_uids:
  "resolve_from org refs publish i st rules = Some (st', out) \<Longrightarrow> \<forall>r\<in>set rules. valid_intent ul r \<Longrightarrow>
     subseq (map cr_RuleUID out) (map (intent_uid ul) rules)"
proof (induction org refs publish i st rules arbitrary: st' out rule: resolve_from.induct)
  case (2 org refs publish i st item rest)
  show ?case
  proof (cases "snd st")
    case False
    then obtain issues x out' where x: "resolve_rule org refs publish i item = Some (issues, x)"
      "resolve_from org refs publish (Suc i) (fold add_issue issues st) rest = Some (st', out')"
      "out = (case x of None \<Rightarrow> out' | Some r \<Rightarrow> r # out')"
      using 2(2) by (auto split: option.splits)
    have "subseq (map cr_RuleUID out') (map (intent_uid ul) rest)"
      using 2(1)[OF False x(1) refl x(2)] 2(3) by simp
    moreover have "x = Some r \<Longrightarrow> cr_RuleUID r = intent_uid ul item" for r
      using resolve_rule_uid[of ul item] 2(3) x(1) by auto
    ultimately show ?thesis by (cases x) (auto simp: x(3))
  qed (use 2(2) in auto)
qed simp

end
