(* ===== verification/Control_Publication.thy ===== *)
theory Control_Publication
  imports Control_Resolution
begin

section \<open>Task control: publication and projection\<close>

text \<open>
  Two uses of \<^verbatim>\<open>resolver.go\<close>: a publication is refused when the resolution has a blocking issue, so that
  an enabled explicit rule is published and an enabled dynamic one names nothing that is not there; a widget receives the rules of its actor only.
\<close>

subsection \<open>A resolution without blocking issues\<close>

lemma concat_map_nil: "concat (map f xs) = [] \<longleftrightarrow> (\<forall>x\<in>set xs. f x = [])"
  by (induction xs) auto

lemma enumerate_all: "(\<forall>x\<in>set (enumerate n xs). P (snd x)) \<longleftrightarrow> (\<forall>x\<in>set xs. P x)"
proof -
  have "snd ` set (enumerate n xs) = set xs" by (metis map_snd_enumerate set_map)
  then show ?thesis by (metis (no_types, lifting) image_iff)
qed

definition blocking :: "IntentIssue list \<Rightarrow> bool" where
  "blocking is = list_ex ii_Blocking is"

lemma blocking_simps [simp]:
  "\<not> blocking []" "blocking (i # is) \<longleftrightarrow> ii_Blocking i \<or> blocking is"
  "blocking (is @ js) \<longleftrightarrow> blocking is \<or> blocking js"
  by (simp_all add: blocking_def)

lemma blocking_concat: "blocking (concat (map f xs)) \<longleftrightarrow> (\<exists>x\<in>set xs. blocking (f x))"
  by (induction xs) auto

lemma intent_problem_blocking [simp]: "ii_Blocking (intent_problem uid path code message b) = b"
  by (simp add: intent_problem_def)

subsection \<open>Legacy rules\<close>

lemma user_issues_nil: "user_issues refs path ids = [] \<longleftrightarrow> (\<forall>i\<in>set ids. user_active refs i = Some True)"
proof -
  have "user_issues refs path ids = [] \<longleftrightarrow> (\<forall>x\<in>set (enumerate 0 ids). user_active refs (snd x) = Some True)"
    by (auto simp: user_issues_def concat_map_nil split: option.splits if_splits)
  then show ?thesis by (simp add: enumerate_all[where P = "\<lambda>i. user_active refs i = Some True"])
qed

lemma pipeline_issues_nil:
  "pipeline_issues refs path ps = [] \<longleftrightarrow>
     (\<forall>p\<in>set ps. \<exists>available. pipeline_statuses refs (pp_PipelineID p) = Some available \<and>
        set (items (pp_StatusIDs p)) \<subseteq> set available)"
proof -
  let ?P = "\<lambda>p. \<exists>available. pipeline_statuses refs (pp_PipelineID p) = Some available \<and> set (items (pp_StatusIDs p)) \<subseteq> set available"
  have stages: "(\<forall>x\<in>set (enumerate 0 ids). snd x \<in> set available) \<longleftrightarrow> set ids \<subseteq> set available" for ids available :: "string list"
    by (simp add: enumerate_all[where P = "\<lambda>i. i \<in> set available"] subset_eq)
  let ?F = "\<lambda>(j, p). let pPath = indexed (path @ ''.pipelines'') j in
       case pipeline_statuses refs (pp_PipelineID p) of
         None \<Rightarrow> [located (pPath @ ''.pipelineId'') ''unknown_crm_id'' MsgPipelineMissing]
       | Some statuses \<Rightarrow> concat (map (\<lambda>(k, i).
           if i \<notin> set statuses then [located (indexed (pPath @ ''.statusIds'') k) ''unknown_crm_id'' MsgStatusMissing]
           else []) (enumerate 0 (items (pp_StatusIDs p))))"
  have "?F x = [] \<longleftrightarrow> ?P (snd x)" for x
  proof (cases x)
    case (Pair j p)
    have "concat (map (\<lambda>(k, i). if i \<notin> set available then [f k] else []) (enumerate 0 ids)) = [] \<longleftrightarrow>
        set ids \<subseteq> set available" for f :: "nat \<Rightarrow> Issue" and ids available :: "string list"
    proof -
      have "(\<forall>x\<in>set (enumerate 0 ids). (case x of (k, i) \<Rightarrow> if i \<notin> set available then [f k] else []) = []) \<longleftrightarrow>
          (\<forall>x\<in>set (enumerate 0 ids). snd x \<in> set available)"
        by (rule ball_cong) (auto split: if_splits)
      also note stages[of ids available]
      finally show ?thesis unfolding concat_map_nil .
    qed
    then show ?thesis unfolding Pair prod.case Let_def snd_conv
      by (cases "pipeline_statuses refs (pp_PipelineID p)") simp_all
  qed
  then have "pipeline_issues refs path ps = [] \<longleftrightarrow> (\<forall>x\<in>set (enumerate 0 ps). ?P (snd x))"
    unfolding pipeline_issues_def concat_map_nil by blast
  then show ?thesis by (simp add: enumerate_all[where P = ?P])
qed

lemma resolved_pipelines_same:
  assumes "pipeline_issues refs path ps = []" "\<forall>p\<in>set ps. pp_StatusIDs p \<noteq> None \<and> items (pp_StatusIDs p) \<noteq> []"
  shows "resolved_pipelines refs ps = ps"
proof -
  have "(case pipeline_statuses refs (pp_PipelineID p) of None \<Rightarrow> []
       | Some available \<Rightarrow> let statuses = filter (\<lambda>i. i \<in> set available) (items (pp_StatusIDs p))
           in if length statuses > 0 then [\<lparr>pp_PipelineID = pp_PipelineID p, pp_StatusIDs = Some statuses\<rparr>] else []) = [p]"
    if p: "p \<in> set ps" for p
  proof -
    obtain available where a: "pipeline_statuses refs (pp_PipelineID p) = Some available"
      "set (items (pp_StatusIDs p)) \<subseteq> set available"
      using assms(1) p by (auto simp: pipeline_issues_nil)
    then have "filter (\<lambda>i. i \<in> set available) (items (pp_StatusIDs p)) = items (pp_StatusIDs p)"
      by (auto simp: filter_id_conv)
    with a assms(2) p show ?thesis by (cases p) auto
  qed
  then show ?thesis by (simp add: resolved_pipelines_def cong: map_cong)
qed

lemma customer_issues_nil:
  "customer_issues refs path r = [] \<longleftrightarrow>
     (cr_Customers r \<longrightarrow> ru_Availability (rf_Customers refs) = ''supported'' \<and>
        set (items (cr_CustomerStatuses r)) \<subseteq> set (customer_ids refs))"
proof -
  have "(\<forall>x\<in>set (enumerate 0 ids). snd x \<in> A) \<longleftrightarrow> set ids \<subseteq> A" for ids and A :: "string set"
    by (simp add: enumerate_all[where P = "\<lambda>i. i \<in> A"] subset_eq)
  from this[of "items (cr_CustomerStatuses r)" "set (customer_ids refs)", symmetric] show ?thesis
    by (auto simp: customer_issues_def concat_map_nil split: if_splits)
qed

lemma legacy_kept:
  assumes "valid_rule ul l" "cr_Enabled l" "\<not> cr_Archived l"
    and "resolve_legacy refs True path l = (issues, x)" "\<not> blocking issues"
  obtains r where "x = Some r" "r\<lparr>cr_CustomerStatuses := cr_CustomerStatuses l\<rparr> = l" "cr_Customers l \<longrightarrow> r = l"
proof -
  let ?path = "indexed ''rules'' 0" let ?r = "legacy_resolved refs l"
  have "set (map (\<lambda>e. intent_problem (cr_RuleUID l) (path @ drop (length ''rules[0]'') (is_Path e)) (is_Code e) (is_Message e) True)
      (ValidateReferenceRules [l] refs)) \<subseteq> set issues"
    using assms(2-4) by (auto simp: resolve_legacy_def Let_def split: if_splits)
  then have "ValidateReferenceRules [l] refs = []"
    using assms(5) by (cases "ValidateReferenceRules [l] refs") (auto simp: blocking_def list_ex_iff)
  then have none: "user_issues refs ?path (items (cr_Users l)) = []" "pipeline_issues refs ?path (items (cr_Pipelines l)) = []"
    "customer_issues refs ?path l = []"
    using assms(2,3) by (simp_all add: ValidateReferenceRules_def Let_def enumerate_eq_zip)
  have users: "filter (\<lambda>i. user_active refs i = Some True) (items (cr_Users l)) = items (cr_Users l)"
    using none(1) by (auto simp: user_issues_nil filter_id_conv)
  have pipelines: "resolved_pipelines refs (items (cr_Pipelines l)) = items (cr_Pipelines l)"
    by (rule resolved_pipelines_same[OF none(2)]) (use assms(1) in \<open>auto simp: valid_rule_def crm_list_def\<close>)
  have statuses: "filter (\<lambda>i. i \<in> set (customer_ids refs)) (items (cr_CustomerStatuses l)) = items (cr_CustomerStatuses l)"
    if "cr_Customers l"
    using none(3) that by (auto simp: customer_issues_nil filter_id_conv)
  have some: "Some (items (cr_Users l)) = cr_Users l" "Some (items (cr_Pipelines l)) = cr_Pipelines l"
    "Some (items (cr_CustomerStatuses l)) = cr_CustomerStatuses l"
    using assms(1) by (auto simp: valid_rule_def crm_list_def)
  have customers: "cr_Customers ?r = cr_Customers l"
    using none(3) statuses by (auto simp: legacy_resolved_def Let_def customer_issues_nil)
  then have same: "?r\<lparr>cr_CustomerStatuses := cr_CustomerStatuses l\<rparr> = l" "cr_Customers l \<longrightarrow> ?r = l"
    using users pipelines statuses some by (auto simp: legacy_resolved_def Let_def)
  then have "executable ?r"
    using assms(1) by (metis (no_types, lifting) executable_def valid_rule_def control_rule.surjective control_rule.update_convs(6) control_rule.select_convs(3,4,5) length_greater_0_conv)
  then have "x = Some ?r" using assms(2-4) by (auto simp: resolve_legacy_def Let_def split: if_splits)
  with same that show ?thesis by blast
qed

subsection \<open>Dynamic rules\<close>

text \<open>What a rule names is there: the stages of a selected pipeline open, the customer statuses listed.\<close>

definition lead_live :: "ReferenceSnapshot \<Rightarrow> PipelineSelection \<Rightarrow> bool" where
  "lead_live refs s \<longleftrightarrow>
     (\<exists>p. pipeline_of refs (ps_PipelineID s) = Some p \<and>
        (ss_Kind (ps_Stages s) \<noteq> ''allOpen'' \<longrightarrow> (\<forall>i\<in>set (items (ss_StatusIDs (ps_Stages s))).
           \<exists>v. status_of p i = Some v \<and> \<not> closed_status v i)))"

definition customers_live :: "ReferenceSnapshot \<Rightarrow> CustomerSelection \<Rightarrow> bool" where
  "customers_live refs c \<longleftrightarrow>
     (cs_Kind c \<noteq> ''disabled'' \<longrightarrow> ru_Availability (rf_Customers refs) = ''supported'' \<and>
        (cs_Kind c = ''selected'' \<longrightarrow> set (items (cs_StatusIDs c)) \<subseteq> set (customer_ids refs)))"

text \<open>Everything a rule names is there, and what a rule made of it does for what the rule names.\<close>

definition references_live :: "OrganizationSnapshot \<Rightarrow> ReferenceSnapshot \<Rightarrow> RuleV2 \<Rightarrow> bool" where
  "references_live org refs d \<longleftrightarrow>
     (\<forall>e\<in>set (items (as_EmployeeIDs (rv_Audience d))). \<exists>c. linked org refs e c) \<and>
     (\<forall>s\<in>set (items (as_Departments (rv_Audience d))). ds_DepartmentID s \<in> od_ID ` set (os_Departments org)) \<and>
     (\<forall>s\<in>set (items (ls_Pipelines (rv_Leads d))). lead_live refs s) \<and> customers_live refs (rv_Customers d)"

definition carries_out :: "OrganizationSnapshot \<Rightarrow> ReferenceSnapshot \<Rightarrow> RuleV2 \<Rightarrow> control_rule \<Rightarrow> bool" where
  "carries_out org refs d r \<longleftrightarrow>
       (\<forall>e\<in>set (items (as_EmployeeIDs (rv_Audience d))). \<exists>c\<in>set (items (cr_Users r)). linked org refs e c) \<and>
       (\<forall>s\<in>set (items (ls_Pipelines (rv_Leads d))). ss_Kind (ps_Stages s) = ''selected'' \<longrightarrow>
          \<lparr>pp_PipelineID = ps_PipelineID s, pp_StatusIDs = Some (sortCRM (items (ss_StatusIDs (ps_Stages s))))\<rparr>
            \<in> set (items (cr_Pipelines r))) \<and>
       (cs_Kind (rv_Customers d) \<noteq> ''disabled'' \<longrightarrow>
          cr_Customers r \<and> items (cr_CustomerStatuses r) = items (cs_StatusIDs (rv_Customers d)))"

definition names_targets :: "RuleV2 \<Rightarrow> bool" where
  "names_targets d \<longleftrightarrow> items (as_EmployeeIDs (rv_Audience d)) \<noteq> [] \<and>
     ((\<exists>s\<in>set (items (ls_Pipelines (rv_Leads d))). ss_Kind (ps_Stages s) = ''selected'') \<or>
      cs_Kind (rv_Customers d) \<noteq> ''disabled'')"

lemma explicit_employees_live:
  "\<not> blocking (fst (explicit_employees org True path uid ids)) \<longleftrightarrow> set ids \<subseteq> oe_ID ` set (os_Employees org)"
proof -
  have "\<not> blocking (fst (explicit_employees org True path uid ids)) \<longleftrightarrow>
      (\<forall>x\<in>set (enumerate 0 ids). snd x \<in> oe_ID ` set (os_Employees org))"
    unfolding explicit_employees_def fst_conv blocking_concat
    by (auto simp: case_prod_unfold)
  then show ?thesis by (simp add: enumerate_all[where P = "\<lambda>e. e \<in> oe_ID ` set (os_Employees org)"] subset_eq)
qed

lemma select_departments_live:
  "select_departments org True path uid i ss = Some (issues, selected) \<Longrightarrow> \<not> blocking issues \<Longrightarrow>
     \<forall>s\<in>set ss. ds_DepartmentID s \<in> od_ID ` set (os_Departments org)"
  by (induction ss arbitrary: i issues selected) (auto split: if_splits option.splits)

lemma resolve_stages_live:
  assumes "\<not> blocking (fst (resolve_stages True path uid p sel))" "ss_Kind sel \<noteq> ''allOpen''"
  shows "(\<forall>i\<in>set (items (ss_StatusIDs sel)). \<exists>v. status_of p i = Some v \<and> \<not> closed_status v i) \<and>
    snd (resolve_stages True path uid p sel) = items (ss_StatusIDs sel)"
proof -
  have live: "\<exists>v. status_of p i = Some v \<and> \<not> closed_status v i" if "i \<in> set (items (ss_StatusIDs sel))" for i
    using assms that by (force simp: resolve_stages_def blocking_concat split: option.splits if_splits)
  then have "filter (\<lambda>i. case status_of p i of None \<Rightarrow> False | Some s \<Rightarrow> \<not> closed_status s i) (items (ss_StatusIDs sel)) =
      items (ss_StatusIDs sel)"
    by (force simp: filter_id_conv)
  with live assms(2) show ?thesis by (simp add: resolve_stages_def)
qed

lemma resolve_pipeline_live:
  assumes "\<not> blocking (fst (resolve_pipeline refs True path uid (i, s)))"
  shows "lead_live refs s \<and> (ss_Kind (ps_Stages s) \<noteq> ''allOpen'' \<and> items (ss_StatusIDs (ps_Stages s)) \<noteq> [] \<longrightarrow>
    snd (resolve_pipeline refs True path uid (i, s)) =
      [\<lparr>pp_PipelineID = ps_PipelineID s, pp_StatusIDs = Some (sortCRM (items (ss_StatusIDs (ps_Stages s))))\<rparr>])"
proof -
  let ?path = "indexed (path @ ''.leads.pipelines'') i"
  obtain p where p: "pipeline_of refs (ps_PipelineID s) = Some p"
    using assms by (cases "pipeline_of refs (ps_PipelineID s)") (auto simp: resolve_pipeline_def)
  then have "\<not> blocking (fst (resolve_stages True ?path uid p (ps_Stages s)))"
    using assms by (auto simp: resolve_pipeline_def Let_def split: prod.splits)
  note stages = resolve_stages_live[OF this]
  obtain found ids where ids: "resolve_stages True ?path uid p (ps_Stages s) = (found, ids)" by fastforce
  with p pipeline_of_Some[OF p] stages show ?thesis
    by (cases "ss_Kind (ps_Stages s) = ''allOpen''") (auto simp: lead_live_def resolve_pipeline_def Let_def)
qed

lemma resolve_leads_live:
  assumes "\<not> blocking (fst (resolve_leads refs True path uid l))" "s \<in> set (items (ls_Pipelines l))" "ls_Kind l \<noteq> ''allOpen''"
  shows "lead_live refs s \<and> (ss_Kind (ps_Stages s) \<noteq> ''allOpen'' \<and> items (ss_StatusIDs (ps_Stages s)) \<noteq> [] \<longrightarrow>
    \<lparr>pp_PipelineID = ps_PipelineID s, pp_StatusIDs = Some (sortCRM (items (ss_StatusIDs (ps_Stages s))))\<rparr>
      \<in> set (snd (resolve_leads refs True path uid l)))"
proof -
  have "s \<in> snd ` set (enumerate 0 (lead_selections refs l))"
  proof -
    have "snd ` set (enumerate 0 (lead_selections refs l)) = set (lead_selections refs l)"
      by (metis map_snd_enumerate set_map)
    with assms(2,3) show ?thesis by (simp add: lead_selections_def)
  qed
  then obtain i where i: "(i, s) \<in> set (enumerate 0 (lead_selections refs l))" by auto
  then have "\<not> blocking (fst (resolve_pipeline refs True path uid (i, s)))"
    using assms(1) by (auto simp: resolve_leads_def Let_def blocking_concat)
  note live = resolve_pipeline_live[OF this]
  have "set (snd (resolve_pipeline refs True path uid (i, s))) \<subseteq> set (snd (resolve_leads refs True path uid l))"
    using i by (auto simp: resolve_leads_def Let_def)
  with live show ?thesis by auto
qed

lemma resolve_customers_live:
  assumes "\<not> blocking (fst (resolve_customers refs True path uid c))"
  shows "customers_live refs c \<and> (valid_customers c \<and> cs_Kind c \<noteq> ''disabled'' \<longrightarrow>
     snd (resolve_customers refs True path uid c) = (True, items (cs_StatusIDs c)))"
proof (cases "cs_Kind c = ''disabled'' \<or> ru_Availability (rf_Customers refs) \<noteq> ''supported''")
  case True
  with assms show ?thesis by (auto simp: customers_live_def resolve_customers_def Let_def split: if_splits)
next
  case False
  then have "cs_Kind c = ''selected'' \<Longrightarrow> i \<in> set (items (cs_StatusIDs c)) \<Longrightarrow> i \<in> set (customer_ids refs)" for i
    using assms by (auto simp: resolve_customers_def Let_def blocking_concat split: if_splits)
  moreover from this have "cs_Kind c = ''selected'' \<Longrightarrow>
      filter (\<lambda>i. i \<in> set (customer_ids refs)) (items (cs_StatusIDs c)) = items (cs_StatusIDs c)"
    by (simp add: filter_id_conv)
  ultimately show ?thesis
    using False by (auto simp: customers_live_def resolve_customers_def Let_def valid_customers_def)
qed

lemma resolve_users_live:
  assumes "\<not> blocking (fst (resolve_users org refs True path uid explicit selected))" "e \<in> set explicit" "e \<in> set selected"
  shows "\<exists>c\<in>set (snd (resolve_users org refs True path uid explicit selected)). linked org refs e c"
proof (cases "linked_user org refs e")
  case (Inl code)
  with assms show ?thesis by (force simp: resolve_users_def Let_def blocking_concat)
next
  case (Inr c)
  then have "linked org refs e c" by (simp add: linked_user_iff)
  with assms(3) show ?thesis unfolding resolve_users_set by blast
qed

lemma resolve_dynamic_parts:
  assumes "resolve_dynamic org refs True path d = Some (issues, x)" "\<not> blocking issues" "rv_Enabled d" "\<not> rv_Archived d"
    and kind: "as_Kind (rv_Audience d) = ''allLinked'' \<longrightarrow> as_EmployeeIDs (rv_Audience d) = None"
  obtains missing selected excluded users absent pipelines problems customers statuses where
    "select_audience org True path (rv_RuleUID d) (rv_Audience d) = Some (missing, selected)" "\<not> blocking missing"
    "resolve_users org refs True path (rv_RuleUID d) (items (as_EmployeeIDs (rv_Audience d))) selected = (excluded, users)"
    "\<not> blocking excluded"
    "resolve_leads refs True path (rv_RuleUID d) (rv_Leads d) = (absent, pipelines)" "\<not> blocking absent"
    "resolve_customers refs True path (rv_RuleUID d) (rv_Customers d) = (problems, customers, statuses)" "\<not> blocking problems"
    "x = (if executable (materialized d users pipelines customers statuses)
          then Some (materialized d users pipelines customers statuses) else None)"
proof -
  obtain missing selected where 1: "select_audience org True path (rv_RuleUID d) (rv_Audience d) = Some (missing, selected)"
    using assms(1,3,4) by (auto simp: resolve_dynamic_def Let_def)
  obtain excluded users where 2:
    "resolve_users org refs True path (rv_RuleUID d) (items (as_EmployeeIDs (rv_Audience d))) selected = (excluded, users)"
    by fastforce
  obtain absent pipelines where 3: "resolve_leads refs True path (rv_RuleUID d) (rv_Leads d) = (absent, pipelines)"
    by fastforce
  obtain problems customers statuses where 4:
    "resolve_customers refs True path (rv_RuleUID d) (rv_Customers d) = (problems, customers, statuses)"
    using prod_cases3 by blast
  have users: "(if as_Kind (rv_Audience d) = ''allLinked'' then [] else items (as_EmployeeIDs (rv_Audience d))) =
      items (as_EmployeeIDs (rv_Audience d))" using kind by auto
  have "(let issues = missing @ excluded @ absent @ problems; r = materialized d users pipelines customers statuses in
      if length users > 1000 \<or> length pipelines > 1000 then
        (issues @ [intent_problem (rv_RuleUID d) path ''runtime_payload_too_large'' MsgRuleLimit True], None)
      else if executable r then (issues, Some r)
      else (issues @ [intent_problem (rv_RuleUID d) path ''empty_resolution'' MsgNoRows False], None)) = (issues, x)"
    using assms(1,3,4) 1 2 3 4 by (simp add: resolve_dynamic_def Let_def users)
  with assms(2) that[OF 1 _ 2 _ 3 _ 4] show ?thesis by (auto simp: Let_def split: if_splits)
qed

lemma dynamic_references_live:
  assumes "valid_dynamic ul d" "\<not> has_cycle (os_Departments org)" "rv_Enabled d" "\<not> rv_Archived d"
    and "resolve_dynamic org refs True path d = Some (issues, x)" "\<not> blocking issues"
  shows "references_live org refs d"
    and "names_targets d \<Longrightarrow> \<exists>r. x = Some r \<and> carries_out org refs d r"
proof -
  have kind: "as_Kind (rv_Audience d) = ''allLinked'' \<longrightarrow> as_EmployeeIDs (rv_Audience d) = None \<and> as_Departments (rv_Audience d) = None"
    and parts: "valid_leads (rv_Leads d)" "valid_customers (rv_Customers d)"
    using assms(1) by (auto simp: valid_dynamic_def valid_audience_def)
  then have kind': "as_Kind (rv_Audience d) = ''allLinked'' \<longrightarrow> as_EmployeeIDs (rv_Audience d) = None" by simp
  obtain missing selected excluded users absent pipelines problems customers statuses where
    run: "select_audience org True path (rv_RuleUID d) (rv_Audience d) = Some (missing, selected)" "\<not> blocking missing"
    "resolve_users org refs True path (rv_RuleUID d) (items (as_EmployeeIDs (rv_Audience d))) selected = (excluded, users)"
    "\<not> blocking excluded"
    "resolve_leads refs True path (rv_RuleUID d) (rv_Leads d) = (absent, pipelines)" "\<not> blocking absent"
    "resolve_customers refs True path (rv_RuleUID d) (rv_Customers d) = (problems, customers, statuses)" "\<not> blocking problems"
    and x: "x = (if executable (materialized d users pipelines customers statuses)
          then Some (materialized d users pipelines customers statuses) else None)"
    by (rule resolve_dynamic_parts[OF assms(5,6,3,4) kind'])
  have audience: "set (items (as_EmployeeIDs (rv_Audience d))) \<subseteq> oe_ID ` set (os_Employees org) \<and>
     (\<forall>s\<in>set (items (as_Departments (rv_Audience d))). ds_DepartmentID s \<in> od_ID ` set (os_Departments org))"
  proof (cases "as_Kind (rv_Audience d) = ''allLinked''")
    case False
    with run(1,2) show ?thesis
      using explicit_employees_live[of org path "rv_RuleUID d" "items (as_EmployeeIDs (rv_Audience d))"]
      by (auto simp: select_audience_def split: prod.splits dest: select_departments_live)
  qed (use kind in simp)
  moreover have "set selected = Collect (in_audience org (rv_Audience d))"
    using select_audience_set[OF assms(2), of True path "rv_RuleUID d" "rv_Audience d"] run(1) by auto
  ultimately have "set (items (as_EmployeeIDs (rv_Audience d))) \<subseteq> set selected" by (auto simp: in_audience_def subset_iff image_iff)
  then have users: "\<forall>e\<in>set (items (as_EmployeeIDs (rv_Audience d))). \<exists>c\<in>set users. linked org refs e c"
    using resolve_users_live[of org refs path "rv_RuleUID d" "items (as_EmployeeIDs (rv_Audience d))" selected] run(3,4) by auto
  have leads: "lead_live refs s \<and> (ss_Kind (ps_Stages s) = ''selected'' \<longrightarrow>
      \<lparr>pp_PipelineID = ps_PipelineID s, pp_StatusIDs = Some (sortCRM (items (ss_StatusIDs (ps_Stages s))))\<rparr> \<in> set pipelines)"
    if s: "s \<in> set (items (ls_Pipelines (rv_Leads d)))" for s
  proof -
    have "ls_Kind (rv_Leads d) \<noteq> ''allOpen''" "valid_stages (ps_Stages s)"
      using parts(1) s by (auto simp: valid_leads_def)
    with resolve_leads_live[of refs path "rv_RuleUID d" "rv_Leads d" s] s run(5,6) show ?thesis
      by (auto simp: valid_stages_def)
  qed
  have customers: "customers_live refs (rv_Customers d) \<and> (cs_Kind (rv_Customers d) \<noteq> ''disabled'' \<longrightarrow>
      customers \<and> statuses = items (cs_StatusIDs (rv_Customers d)))"
    using resolve_customers_live[of refs path "rv_RuleUID d" "rv_Customers d"] run(7,8) parts(2) by simp
  from users audience leads customers
  show "references_live org refs d"
    unfolding references_live_def by blast
  assume "names_targets d"
  then have named: "items (as_EmployeeIDs (rv_Audience d)) \<noteq> []"
    "(\<exists>s\<in>set (items (ls_Pipelines (rv_Leads d))). ss_Kind (ps_Stages s) = ''selected'') \<or> cs_Kind (rv_Customers d) \<noteq> ''disabled''"
    by (simp_all add: names_targets_def)
  then have "users \<noteq> []" using users by (metis empty_iff last_in_set list.set(1))
  moreover have "pipelines \<noteq> [] \<or> customers" using named(2) leads customers by fastforce
  ultimately have "x = Some (materialized d users pipelines customers statuses)"
    by (simp add: x executable_def materialized_def)
  with users leads customers show "\<exists>r. x = Some r \<and> carries_out org refs d r"
    by (simp add: materialized_def carries_out_def)
qed

subsection \<open>An example\<close>

definition status_example :: "string \<Rightarrow> string \<Rightarrow> ReferenceStatus" where
  "status_example i kind = \<lparr>rs_ID = i, rs_Name = ''S'', rs_Sort = 1, rs_Color = None, rs_Kind = kind\<rparr>"

definition scope_example :: ReferenceScope where
  "scope_example = \<lparr>sc_CompanyID = ''c1'', sc_AccountID = ''5'', sc_IntegrationID = ''i1'',
     sc_InstallationID = ''n1'', sc_Generation = 1, sc_Product = Product\<rparr>"

definition digest_example :: "string \<Rightarrow> string" where
  "digest_example text = replicate 64 (CHR ''0'')"

definition refs_example :: ReferenceSnapshot where
  "refs_example =
     \<lparr>rf_SchemaVersion = 1, rf_Scope = scope_example, rf_Revision = ''sha256:'' @ digest_example '''',
      rf_Provenance = \<lparr>pv_Source = ''coreAmocrm'', pv_FetchedAt = 2, pv_FetchStartedAt = 1\<rparr>,
      rf_FreshUntil = 300 * second + 1, rf_Complete = True,
      rf_Users = Some [\<lparr>ru_ID = ''5'', ru_Name = ''U'', ru_IsActive = True, ru_GroupID = None\<rparr>], rf_Groups = Some [],
      rf_Pipelines = Some [\<lparr>rp_ID = ''7'', rp_Name = ''P'', rp_Sort = 1, rp_Statuses = Some [status_example ''9'' ''open'']\<rparr>],
      rf_Customers = \<lparr>ru_Availability = ''unsupported'', ru_Statuses = Some [], ru_CheckedAt = 1, ru_ErrorCode = None\<rparr>\<rparr>"

definition org_example :: OrganizationSnapshot where
  "org_example =
     \<lparr>os_CompanyID = ''c1'', os_AccountID = ''5'', os_OrganizationRevision = 1, os_MappingRevision = 1,
      os_Employees = [\<lparr>oe_ID = ''e1'', oe_Active = True, oe_DepartmentIDs = [''d2'']\<rparr>],
      os_Departments = [\<lparr>od_ID = ''d1'', od_ParentID = None\<rparr>, \<lparr>od_ID = ''d2'', od_ParentID = Some ''d1''\<rparr>],
      os_Mappings = [\<lparr>em_EmployeeID = ''e1'', em_AccountID = ''5'', em_CRMUserID = ''5''\<rparr>]\<rparr>"

definition dynamic_example :: RuleV2 where
  "dynamic_example =
     \<lparr>rv_SchemaVersion = 2, rv_RuleUID = ''r1'', rv_Name = ''A'',
      rv_Audience = \<lparr>as_Kind = ''selected'', as_EmployeeIDs = Some [''e1''],
        as_Departments = Some [\<lparr>ds_DepartmentID = ''d1'', ds_IncludeDescendants = True\<rparr>]\<rparr>,
      rv_Leads = \<lparr>ls_Kind = ''selected'',
        ls_Pipelines = Some [\<lparr>ps_PipelineID = ''7'', ps_Stages = \<lparr>ss_Kind = ''selected'', ss_StatusIDs = Some [''9'']\<rparr>\<rparr>]\<rparr>,
      rv_Customers = \<lparr>cs_Kind = ''disabled'', cs_StatusIDs = None\<rparr>,
      rv_ShowModal = True, rv_DenyExit = False, rv_CheckResponsible = False, rv_Enabled = True, rv_Archived = False\<rparr>"

definition intents_example :: "IntentRule slice" where
  "intents_example = Some [\<lparr>ir_Kind = ''dynamic'', ir_Dynamic = Some dynamic_example, ir_Legacy = None\<rparr>]"

definition resolved_example :: control_rule where
  "resolved_example =
     \<lparr>cr_RuleUID = ''r1'', cr_Name = ''A'', cr_Users = Some [''5''],
      cr_Pipelines = Some [\<lparr>pp_PipelineID = ''7'', pp_StatusIDs = Some [''9'']\<rparr>], cr_Customers = False,
      cr_CustomerStatuses = Some [], cr_ShowModal = True, cr_DenyExit = False, cr_CheckResponsible = False,
      cr_Enabled = True, cr_Archived = False\<rparr>"

lemma intents_example_valid: "ValidateIntentRules uuid_example intents_example = []"
  by (simp add: ValidateIntentRules_iff intents_example_def valid_intent_def dynamic_example_def valid_dynamic_def
      valid_audience_def valid_leads_def valid_stages_def valid_customers_def crm_list_def uuid_example_def
      validUUID_def intent_uid_def example_names example_ids_valid)

lemma parents_example:
  "dep_parent (os_Departments org_example) ''d1'' = None" "dep_parent (os_Departments org_example) ''d2'' = Some ''d1''"
  by (simp_all add: dep_parent_def org_example_def)

lemma org_example_coherent: "coherent_organization uuid_example org_example"
proof -
  have "\<not> meets_cycle (os_Departments org_example) seen ''d1''" if "''d1'' \<notin> set seen" for seen
    using that by (subst meets_cycle.simps) (simp add: parents_example)
  then have "\<not> meets_cycle (os_Departments org_example) [] ''d1''" "\<not> meets_cycle (os_Departments org_example) [] ''d2''"
    by (simp, subst meets_cycle.simps, simp add: parents_example)
  then have "\<not> has_cycle (os_Departments org_example)"
    by (simp add: has_cycle_def org_example_def)
  then show ?thesis
    by (simp add: has_cycle_iff coherent_organization_def)
      (simp add: org_example_def uuid_example_def validUUID_def account_mappings_def example_ids_valid)
qed

lemma audience_example:
  "select_audience org_example publish path ''r1'' (rv_Audience dynamic_example) = Some ([], [''e1'', ''e1''])"
proof -
  have top: "reaches (os_Departments org_example) ''d1'' ''d1'' = Some True" by (subst reaches.simps) simp
  then have "reaches (os_Departments org_example) ''d1'' ''d2'' = Some True"
    by (subst reaches.simps) (simp add: parents_example)
  with top show ?thesis
    by (simp add: select_audience_def dynamic_example_def explicit_employees_def included_departments_def members_of_def
        org_example_def)
qed

lemma users_example:
  "resolve_users org_example refs_example publish path ''r1'' [''e1''] [''e1'', ''e1''] = ([], [''5''])"
  by (simp add: resolve_users_def linked_user_def employee_active_def mapped_def reverse_mapped_def account_mappings_def
      org_example_def user_active_def refs_example_def last_of_def sortCRM_def)

lemma leads_example:
  "resolve_leads refs_example publish path ''r1'' (rv_Leads dynamic_example) =
     ([], [\<lparr>pp_PipelineID = ''7'', pp_StatusIDs = Some [''9'']\<rparr>])"
  by (simp add: resolve_leads_def lead_selections_def resolve_pipeline_def pipeline_of_def last_of_def refs_example_def
      resolve_stages_def status_of_def closed_status_def dynamic_example_def status_example_def sortCRM_def enumerate_eq_zip)

lemma resolution_example:
  "resolve_from org_example refs_example publish 0 ([], False) (items intents_example) = Some (([], False), [resolved_example])"
proof -
  have "resolve_dynamic org_example refs_example publish path dynamic_example = Some ([], Some resolved_example)" for path
    using audience_example[of publish path] users_example[of publish path] leads_example[of publish path]
    by (simp add: resolve_dynamic_def)
      (simp add: dynamic_example_def resolve_customers_def materialized_def executable_def resolved_example_def)
  then show ?thesis by (simp add: intents_example_def resolve_rule_def)
qed

lemma resolved_example_form:
  "legacy_rules [resolved_example] =
     [\<lparr>lr_UID = ''r1'', lr_Name = ''A'', lr_Users = [5], lr_Pipelines = [\<lparr>lg_PipelineID = 7, lg_StatusIDs = [9]\<rparr>],
       lr_CustomerStatuses = [], lr_ShowModal = True, lr_DenyExit = False, lr_CheckResponsible = False,
       lr_Customers = False, lr_Enabled = True, lr_Archived = False\<rparr>]"
  by (simp add: legacy_rules_def legacy_rule_def resolved_example_def example_names escaped_example_ids
      legacy_pipeline_def legacy_ids_def)

lemma payload_example: "length (json_marshal True (JArray (map legacy_json (legacy_rules [resolved_example])))) \<le> RuntimeMaxBytes"
proof -
  have "length (json_marshal True (JArray (map legacy_json (legacy_rules [resolved_example])))) \<le> 300"
    unfolding resolved_example_form by code_simp
  then show ?thesis by (simp add: RuntimeMaxBytes_def)
qed

lemma run_example:
  "\<exists>res. ResolveIntentRules uuid_example digest_example intents_example refs_example org_example True = Some (Inr res) \<and>
     re_Rules res = [resolved_example] \<and> \<not> HasBlockingIssues res"
proof -
  have "os_CompanyID org_example = sc_CompanyID (rf_Scope refs_example)" "os_AccountID org_example = sc_AccountID (rf_Scope refs_example)"
    by (simp_all add: org_example_def refs_example_def scope_example_def)
  moreover have "check_organization uuid_example org_example = None"
    using org_example_coherent by (simp add: check_organization_None)
  ultimately show ?thesis
    using payload_example resolution_example[of True]
    by (simp add: ResolveIntentRules_def intents_example_valid Legacy_def Let_def HasBlockingIssues_def)
qed

lemma refs_example_valid: "ReferenceSnapshot_Validate uuid_example digest_example refs_example scope_example 2"
proof -
  have "validate_head uuid_example refs_example scope_example 2"
    by (simp add: validate_head_def refs_example_def scope_example_def uuid_example_def Product_def digest_example_def
        second_def decodes_hex_def hex_char_def upper_hex_def less_eq_char_def example_ids_valid list_ex_iff list_all_iff)
  moreover have "\<not> bad_status (status_example ''9'' ''open'')"
    by (simp add: bad_status_def status_example_def example_ids_valid)
  ultimately show ?thesis
    by (simp add: ReferenceSnapshot_Validate_def)
      (simp add: refs_example_def validate_customers_def second_def example_ids_valid ReferenceRevision_def digest_example_def)
qed

subsection \<open>The properties\<close>

text \<open>(C26) Every resolution ends, though the walk to a department's ancestors has no bound of its own: the
  check before it finds exactly the organisations whose departments form a cycle. A resolution succeeds
  exactly for valid intents over a coherent snapshot of the same account.\<close>

theorem ResolveIntentRules_terminates:
  "\<exists>result. ResolveIntentRules ul sha256 rules refs org publish = Some result \<and>
     ((\<exists>res. result = Inr res) \<longleftrightarrow>
        ValidateIntentRules ul rules = [] \<and> os_CompanyID org = sc_CompanyID (rf_Scope refs) \<and>
        os_AccountID org = sc_AccountID (rf_Scope refs) \<and> coherent_organization ul org)"
proof -
  obtain result where result: "ResolveIntentRules ul sha256 rules refs org publish = Some result"
    using ResolveIntentRules_ends by blast
  let ?start = "ValidateIntentRules ul rules = [] \<and> os_CompanyID org = sc_CompanyID (rf_Scope refs) \<and>
    os_AccountID org = sc_AccountID (rf_Scope refs) \<and> coherent_organization ul org"
  have "?start \<Longrightarrow> \<exists>res. result = Inr res"
    using result check_organization_None[of ul org]
    by (auto simp: ResolveIntentRules_def Let_def split: if_splits prod.splits)
  moreover have "result = Inr res \<Longrightarrow> ?start" for res
    using result resolved_run(1-4)[of ul sha256 rules refs org publish res] by simp
  ultimately show ?thesis using result by blast
qed

text \<open>(C25) The users of a resolved dynamic rule are exactly the active CRM users confirmed one to one with
  an active employee of the rule's audience: every linked employee for everyone, otherwise those chosen
  by name and the members of the chosen departments and, if asked for, of all departments below them.\<close>

theorem resolved_users_exact:
  assumes "ResolveIntentRules ul sha256 rules refs org publish = Some (Inr res)"
    and "r \<in> set (re_Rules res)" "item \<in> set (items rules)" "ir_Dynamic item = Some d" "rv_RuleUID d = cr_RuleUID r"
  shows "set (items (cr_Users r)) = {c. \<exists>e. in_audience org (rv_Audience d) e \<and> linked org refs e c}"
proof -
  obtain path issues where "valid_dynamic ul d"
    and run: "resolve_dynamic org refs publish path d = Some (issues, Some r)" "\<not> has_cycle (os_Departments org)"
    "as_Kind (rv_Audience d) = ''allLinked'' \<longrightarrow> as_EmployeeIDs (rv_Audience d) = None"
    by (rule dynamic_rule_run[OF assms])
  obtain missing selected users pipelines customers statuses excluded where
    r: "select_audience org publish path (rv_RuleUID d) (rv_Audience d) = Some (missing, selected)"
    "resolve_users org refs publish path (rv_RuleUID d) (items (as_EmployeeIDs (rv_Audience d))) selected = (excluded, users)"
    "r = materialized d users pipelines customers statuses"
    by (rule resolve_dynamic_rule[OF run(1,3)])
  have "set selected = Collect (in_audience org (rv_Audience d))"
    using select_audience_set[OF run(2), of publish path "rv_RuleUID d" "rv_Audience d"] r(1) by auto
  moreover have "set users = {c. \<exists>e\<in>set selected. linked org refs e c}"
    using resolve_users_set[of org refs publish path "rv_RuleUID d" "items (as_EmployeeIDs (rv_Audience d))" selected] r(2)
    by simp
  ultimately show ?thesis by (simp add: r(3) materialized_def)
qed

theorem resolved_users_exact_witness:
  "\<exists>c. in_audience org_example (rv_Audience dynamic_example) ''e1'' \<and> linked org_example refs_example ''e1'' c"
proof -
  obtain res where res: "ResolveIntentRules uuid_example digest_example intents_example refs_example org_example True = Some (Inr res)"
    "re_Rules res = [resolved_example]" using run_example by blast
  have "set (items (cr_Users resolved_example)) =
      {c. \<exists>e. in_audience org_example (rv_Audience dynamic_example) e \<and> linked org_example refs_example e c}"
    by (rule resolved_users_exact[OF res(1), of _ "hd (items intents_example)"])
       (simp_all add: res(2) intents_example_def dynamic_example_def resolved_example_def)
  moreover have "in_audience org_example (rv_Audience dynamic_example) e \<Longrightarrow> e = ''e1''" for e
    by (auto simp: in_audience_def org_example_def)
  ultimately show ?thesis by (force simp: resolved_example_def)
qed

text \<open>(C27) Resolution yields rules that pass the validation of executable rules: whatever the intents and
  the organisation, over a directory that passed its own validation every resolved rule has valid,
  distinct identifiers within the limits, at least one user and something to act on, and no two
  resolved rules share an identifier.\<close>

theorem resolved_rules_valid:
  assumes "ResolveIntentRules ul sha256 rules refs org publish = Some (Inr res)"
    and "ReferenceSnapshot_Validate ul sha256 refs scope now"
  shows "ValidateRules ul (Some (re_Rules res)) = []"
proof -
  obtain st where run: "resolve_from org refs publish 0 ([], False) (items rules) = Some (st, re_Rules res)"
    using resolved_run(5)[OF assms(1)] by blast
  have valid: "\<forall>r\<in>set (items rules). valid_intent ul r" "distinct (map (intent_uid ul) (items rules))"
    "length (items rules) \<le> 1000"
    using resolved_run(1)[OF assms(1)] by (simp_all add: ValidateIntentRules_iff)
  note uids = resolve_from_uids[OF run valid(1)]
  have "length (re_Rules res) \<le> 1000" using list_emb_length[OF uids] valid(3) by simp
  moreover have "distinct (map cr_RuleUID (re_Rules res))" by (rule subseq_distinct[OF uids valid(2)])
  moreover have "valid_rule ul r" if "r \<in> set (re_Rules res)" for r
    by (rule resolved_from_item[OF assms(1) that])
      (rule resolve_rule_valid[OF Validate_directory[OF assms(2)] resolved_run(4)[OF assms(1)]])
  ultimately show ?thesis by (simp add: ValidateRules_valid)
qed

theorem resolved_rules_valid_witness: "ValidateRules uuid_example (Some [resolved_example]) = []"
proof -
  obtain res where res: "ResolveIntentRules uuid_example digest_example intents_example refs_example org_example True = Some (Inr res)"
    "re_Rules res = [resolved_example]" using run_example by blast
  from resolved_rules_valid[OF res(1) refs_example_valid] show ?thesis by (simp add: res(2))
qed

text \<open>(C24) What a publication without blocking issues makes of the rules. An enabled explicit
  rule is published as it is, only customer statuses it does not use may be missing. Of an enabled dynamic
  rule every employee named is linked to an active user, every department, pipeline, stage and customer
  status named is there and open, and if it names employees and something for them to act on, it is
  published with the users of these employees, exactly the stages and the customer statuses chosen.\<close>

theorem publication_keeps_selection:
  assumes "ResolveIntentRules ul sha256 rules refs org True = Some (Inr res)" "\<not> HasBlockingIssues res"
    and "item \<in> set (items rules)"
  shows "(\<forall>l. ir_Legacy item = Some l \<and> cr_Enabled l \<and> \<not> cr_Archived l \<longrightarrow>
       (\<exists>r\<in>set (re_Rules res). r\<lparr>cr_CustomerStatuses := cr_CustomerStatuses l\<rparr> = l \<and> (cr_Customers l \<longrightarrow> r = l))) \<and>
     (\<forall>d. ir_Dynamic item = Some d \<and> rv_Enabled d \<and> \<not> rv_Archived d \<longrightarrow>
       references_live org refs d \<and>
       (names_targets d \<longrightarrow> (\<exists>r\<in>set (re_Rules res). cr_RuleUID r = rv_RuleUID d \<and> carries_out org refs d r)))"
proof -
  obtain st where st: "resolve_from org refs True 0 ([], False) (items rules) = Some (st, re_Rules res)"
    "\<not> snd st" "set (fst st) \<subseteq> set (re_Issues res)"
    using resolved_run(5)[OF assms(1)] assms(2) by blast
  have valid: "valid_intent ul item" using resolved_run(1)[OF assms(1)] assms(3) by (simp add: ValidateIntentRules_iff)
  have acyclic: "\<not> has_cycle (os_Departments org)"
    using resolved_run(4)[OF assms(1)] by (simp add: has_cycle_iff coherent_organization_def)
  obtain i where "i < length (items rules)" "items rules ! i = item" using assms(3) by (auto simp: in_set_conv_nth)
  then obtain issues x where x: "resolve_rule org refs True i item = Some (issues, x)" "set issues \<subseteq> set (fst st)"
    "case x of None \<Rightarrow> True | Some r \<Rightarrow> r \<in> set (re_Rules res)"
    using resolve_from_all[OF st(1,2)] by auto
  then have quiet: "\<not> blocking issues"
    using st(3) assms(2) by (auto simp: blocking_def HasBlockingIssues_def list_ex_iff)
  let ?path = "indexed ''intentRules'' i @ ''.rule''"
  have legacy: "\<exists>r\<in>set (re_Rules res). r\<lparr>cr_CustomerStatuses := cr_CustomerStatuses l\<rparr> = l \<and> (cr_Customers l \<longrightarrow> r = l)"
    if l: "ir_Legacy item = Some l" "cr_Enabled l" "\<not> cr_Archived l" for l
  proof -
    have "valid_rule ul l" using valid l(1) by (auto simp: valid_intent_def)
    moreover have "resolve_legacy refs True ?path l = (issues, x)" using x(1) l(1) by (simp add: resolve_rule_def)
    ultimately obtain r where "x = Some r" "r\<lparr>cr_CustomerStatuses := cr_CustomerStatuses l\<rparr> = l" "cr_Customers l \<longrightarrow> r = l"
      by (rule legacy_kept[OF _ l(2,3) _ quiet])
    with x(3) show ?thesis by auto
  qed
  have dynamic: "references_live org refs d \<and>
      (names_targets d \<longrightarrow> (\<exists>r\<in>set (re_Rules res). cr_RuleUID r = rv_RuleUID d \<and> carries_out org refs d r))"
    if d: "ir_Dynamic item = Some d" "rv_Enabled d" "\<not> rv_Archived d" for d
  proof -
    have dyn: "valid_dynamic ul d" and item: "ir_Legacy item = None" "intent_uid ul item = rv_RuleUID d"
      using valid d(1) by (auto simp: valid_intent_def intent_uid_def)
    then have run: "resolve_dynamic org refs True ?path d = Some (issues, x)"
      using x(1) d(1) by (simp add: resolve_rule_def)
    note live = dynamic_references_live[OF dyn acyclic d(2,3) run quiet]
    have "x = Some r \<Longrightarrow> cr_RuleUID r = rv_RuleUID d" for r
      using resolve_rule_uid[OF valid] x(1) item(2) by auto
    with live x(3) show ?thesis by fastforce
  qed
  from legacy dynamic show ?thesis by blast
qed

theorem publication_keeps_selection_witness:
  "\<exists>r. cr_RuleUID r = ''r1'' \<and> carries_out org_example refs_example dynamic_example r \<and> r = resolved_example"
proof -
  obtain res where res: "ResolveIntentRules uuid_example digest_example intents_example refs_example org_example True = Some (Inr res)"
    "re_Rules res = [resolved_example]" "\<not> HasBlockingIssues res" using run_example by blast
  have "names_targets dynamic_example" by (simp add: names_targets_def dynamic_example_def)
  then show ?thesis
    using publication_keeps_selection[OF res(1,3), of "hd (items intents_example)"] res(2)
    by (simp add: intents_example_def dynamic_example_def)
qed

definition shown_to :: "string \<Rightarrow> control_rule \<Rightarrow> bool" where
  "shown_to actor r \<longleftrightarrow> cr_Enabled r \<and> \<not> cr_Archived r \<and> actor \<in> set (items (cr_Users r))"

text \<open>(C28) A projection is private to its actor. It shows exactly the enabled rules that name him, each
  with himself as the only user, and it is the same for all rules that differ only in the other users
  they name.\<close>

theorem projection_is_private:
  "mset (map lr_UID (fst (ProjectRuntimeRules sha256 rules actor))) = mset (map cr_RuleUID (filter (shown_to actor) rules)) \<and>
   (\<forall>l\<in>set (fst (ProjectRuntimeRules sha256 rules actor)). lr_Users l = [crm_number actor]) \<and>
   (\<forall>rules'. map (\<lambda>r. (r\<lparr>cr_Users := None\<rparr>, actor \<in> set (items (cr_Users r)))) rules' =
             map (\<lambda>r. (r\<lparr>cr_Users := None\<rparr>, actor \<in> set (items (cr_Users r)))) rules \<longrightarrow>
      ProjectRuntimeRules sha256 rules' actor = ProjectRuntimeRules sha256 rules actor)"
proof -
  define seen :: "control_rule \<Rightarrow> control_rule \<times> bool" where "seen = (\<lambda>r. (r\<lparr>cr_Users := None\<rparr>, actor \<in> set (items (cr_Users r))))"
  define rebuilt :: "control_rule \<times> bool \<Rightarrow> control_rule list" where
    "rebuilt = (\<lambda>(q, named). if cr_Enabled q \<and> \<not> cr_Archived q \<and> named then [q\<lparr>cr_Users := Some [actor]\<rparr>] else [])"
  have project: "project_rule actor = rebuilt \<circ> seen"
    by (rule ext) (simp add: project_rule_def rebuilt_def seen_def)
  let ?out = "concat (map (project_rule actor) rules)"
  have out: "fst (ProjectRuntimeRules sha256 rules actor) = legacy_rules ?out"
    by (simp add: ProjectRuntimeRules_def Legacy_def Let_def)
  have "lr_UID \<circ> legacy_rule = cr_RuleUID" by (auto simp: legacy_rule_def)
  then have "mset (map lr_UID (legacy_rules ?out)) = mset (map cr_RuleUID ?out)"
    by (simp add: legacy_rules_def multiset.map_comp)
  also have "map cr_RuleUID ?out = map cr_RuleUID (filter (shown_to actor) rules)"
    by (induction rules) (auto simp: project_rule_def shown_to_def)
  finally have uids: "mset (map lr_UID (legacy_rules ?out)) = mset (map cr_RuleUID (filter (shown_to actor) rules))" .
  have "cr_Users r = Some [actor]" if "r \<in> set ?out" for r
    using that by (auto simp: project_rule_def split: if_splits)
  then have users: "\<forall>l\<in>set (legacy_rules ?out). lr_Users l = [crm_number actor]"
    unfolding legacy_rules_def set_sort set_map ball_simps by (simp add: legacy_rule_def legacy_ids_def)
  have same: "ProjectRuntimeRules sha256 rules' actor = ProjectRuntimeRules sha256 rules actor" if "map seen rules' = map seen rules" for rules'
    using that unfolding ProjectRuntimeRules_def project by (metis map_map)
  show ?thesis
    using uids users same unfolding out seen_def by blast
qed

theorem projection_is_private_witness:
  "ProjectRuntimeRules digest_example [rule_example ''A'' [''5'', ''9'']] ''5'' = ProjectRuntimeRules digest_example [rule_example ''A'' [''5'']] ''5''"
  by (rule projection_is_private[THEN conjunct2, THEN conjunct2, THEN spec, THEN mp]) (simp add: rule_example_def)

end
