(* ===== verification/Control_Codec.thy ===== *)
theory Control_Codec
  imports Control_Reference
begin

section \<open>Task control: intents as JSON\<close>

text \<open>
  The JSON methods of \<^verbatim>\<open>intent.go\<close> and \<^verbatim>\<open>rules.go\<close>. An encoder gives the value the library prints, a
  decoder starts from the value the library reads; a string that is printed and read back is
  \<open>ToValidUTF8\<close> of itself. The decoders of the intents accept exactly the fields of their struct, each once
  and none null; the decoder of an explicit rule asks for its fields but matches further ones as the
  library does, by the folded name.

  Parameters of \<open>json_lib\<close>: \<^verbatim>\<open>uuid.Parse\<close>, the nil UUID, and the folding of names.
\<close>

record json_lib =
  jl_parse :: "string \<Rightarrow> ID option"
  jl_nil :: ID
  jl_fold :: "string \<Rightarrow> string"

subsection \<open>Encoders\<close>

definition encode_strings :: "string slice \<Rightarrow> json" where
  "encode_strings s = json_slice JString s"

definition encode_department :: "DepartmentSelection \<Rightarrow> json" where
  "encode_department d = JObject
     [(''departmentId'', JString (ds_DepartmentID d)), (''includeDescendants'', JBool (ds_IncludeDescendants d))]"

definition encode_audience :: "AudienceSelection \<Rightarrow> json" where
  "encode_audience r =
     (if as_Kind r = ''selected'' then JObject
        [(''kind'', JString (as_Kind r)), (''employeeIds'', encode_strings (as_EmployeeIDs r)),
         (''departments'', json_slice encode_department (as_Departments r))]
      else JObject [(''kind'', JString (as_Kind r))])"

definition encode_stages :: "StageSelection \<Rightarrow> json" where
  "encode_stages r =
     (if ss_Kind r = ''selected'' then JObject
        [(''kind'', JString (ss_Kind r)), (''statusIds'', encode_strings (ss_StatusIDs r))]
      else JObject [(''kind'', JString (ss_Kind r))])"

definition encode_selection :: "PipelineSelection \<Rightarrow> json" where
  "encode_selection r = JObject
     [(''pipelineId'', JString (ps_PipelineID r)), (''stages'', encode_stages (ps_Stages r))]"

definition encode_leads :: "LeadSelection \<Rightarrow> json" where
  "encode_leads r =
     (if ls_Kind r = ''selected'' then JObject
        [(''kind'', JString (ls_Kind r)), (''pipelines'', json_slice encode_selection (ls_Pipelines r))]
      else JObject [(''kind'', JString (ls_Kind r))])"

definition encode_customers :: "CustomerSelection \<Rightarrow> json" where
  "encode_customers r =
     (if cs_Kind r = ''selected'' then JObject
        [(''kind'', JString (cs_Kind r)), (''statusIds'', encode_strings (cs_StatusIDs r))]
      else JObject [(''kind'', JString (cs_Kind r))])"

definition encode_dynamic :: "RuleV2 \<Rightarrow> json" where
  "encode_dynamic r = JObject
     [(''schemaVersion'', json_int (rv_SchemaVersion r)), (''ruleUid'', JString (rv_RuleUID r)),
      (''name'', JString (rv_Name r)), (''audience'', encode_audience (rv_Audience r)),
      (''leads'', encode_leads (rv_Leads r)), (''customers'', encode_customers (rv_Customers r)),
      (''showModal'', JBool (rv_ShowModal r)), (''denyExit'', JBool (rv_DenyExit r)),
      (''checkResponsible'', JBool (rv_CheckResponsible r)), (''enabled'', JBool (rv_Enabled r)),
      (''archived'', JBool (rv_Archived r))]"

definition encode_pipeline :: "Pipeline \<Rightarrow> json" where
  "encode_pipeline p = JObject
     [(''pipelineId'', JString (pp_PipelineID p)), (''statusIds'', encode_strings (pp_StatusIDs p))]"

definition encode_rule :: "control_rule \<Rightarrow> json" where
  "encode_rule r = JObject
     [(''ruleUid'', JString (cr_RuleUID r)), (''name'', JString (cr_Name r)), (''users'', encode_strings (cr_Users r)),
      (''pipelines'', json_slice encode_pipeline (cr_Pipelines r)), (''customers'', JBool (cr_Customers r)),
      (''customerStatuses'', encode_strings (cr_CustomerStatuses r)), (''showModal'', JBool (cr_ShowModal r)),
      (''denyExit'', JBool (cr_DenyExit r)), (''checkResponsible'', JBool (cr_CheckResponsible r)),
      (''enabled'', JBool (cr_Enabled r)), (''archived'', JBool (cr_Archived r))]"

definition encode_intent :: "IntentRule \<Rightarrow> json option" where
  "encode_intent r =
     map_option (\<lambda>rule. JObject [(''kind'', JString (ir_Kind r)), (''rule'', rule)])
       (case (ir_Dynamic r, ir_Legacy r) of
          (Some d, None) \<Rightarrow> if ir_Kind r = ''dynamic'' then Some (encode_dynamic d) else None
        | (None, Some l) \<Rightarrow> if ir_Kind r = ''legacyExplicit'' then Some (encode_rule l) else None
        | _ \<Rightarrow> None)"

text \<open>Printed and read back.\<close>

fun reread :: "json \<Rightarrow> json" where
  "reread (JString s) = JString (ToValidUTF8 s)"
| "reread (JArray vs) = JArray (map reread vs)"
| "reread (JObject fs) = JObject (map (\<lambda>(k, v). (ToValidUTF8 k, reread v)) fs)"
| "reread v = v"

subsection \<open>Strict decoders\<close>

fun unique_json :: "json \<Rightarrow> bool" where
  "unique_json (JObject fs) \<longleftrightarrow> distinct (map fst fs) \<and> (\<forall>(k, v)\<in>set fs. unique_json v)"
| "unique_json (JArray vs) \<longleftrightarrow> (\<forall>v\<in>set vs. unique_json v)"
| "unique_json v \<longleftrightarrow> True"

definition strict_object :: "string list \<Rightarrow> json \<Rightarrow> (string \<rightharpoonup> json) option" where
  "strict_object names v =
     (case v of
        JObject fs \<Rightarrow>
          if \<not> unique_json v \<or> length fs \<noteq> length names \<or>
             list_ex (\<lambda>f. map_of fs f = None \<or> map_of fs f = Some JNull) names
          then None else Some (map_of fs)
      | _ \<Rightarrow> None)"

fun dec_string :: "json \<Rightarrow> string option" where
  "dec_string (JString s) = Some s"
| "dec_string v = None"

fun dec_bool :: "json \<Rightarrow> bool option" where
  "dec_bool (JBool b) = Some b"
| "dec_bool v = None"

fun dec_int :: "json \<Rightarrow> int option" where
  "dec_int (JNumber n) = (let (v, ok) = ParseInt n in if ok then Some v else None)"
| "dec_int v = None"

definition dec_uuid :: "json_lib \<Rightarrow> json \<Rightarrow> ID option" where
  "dec_uuid lib v = Option.bind (dec_string v) (jl_parse lib)"

fun those_opt :: "'a option list \<Rightarrow> 'a list option" where
  "those_opt [] = Some []"
| "those_opt (x # xs) = (case x of None \<Rightarrow> None | Some y \<Rightarrow> map_option ((#) y) (those_opt xs))"

text \<open>A slice; a null element of a plain type leaves the element at its zero value, \<^verbatim>\<open>null\<close> is the nil
  slice.\<close>

definition dec_slice :: "'a option \<Rightarrow> (json \<Rightarrow> 'a option) \<Rightarrow> json \<Rightarrow> 'a slice option" where
  "dec_slice zero dec v =
     (case v of
        JNull \<Rightarrow> Some None
      | JArray vs \<Rightarrow> map_option Some (those_opt (map (\<lambda>x. if x = JNull \<and> zero \<noteq> None then zero else dec x) vs))
      | _ \<Rightarrow> None)"

definition dec_strings :: "json \<Rightarrow> string slice option" where
  "dec_strings v = dec_slice (Some '''') dec_string v"

definition field :: "(string \<rightharpoonup> json) \<Rightarrow> string \<Rightarrow> (json \<Rightarrow> 'a option) \<Rightarrow> 'a option" where
  "field m f dec = Option.bind (m f) dec"

text \<open>The kind is read before the fields are checked; a text whose kind goes by another spelling of the
  name has a field too many or lacks \<^verbatim>\<open>kind\<close>, so reading the exact name accepts the same.\<close>

definition kind_of :: "json \<Rightarrow> string option" where
  "kind_of v = (case v of JObject fs \<Rightarrow> Option.bind (map_of fs ''kind'') dec_string | _ \<Rightarrow> None)"

definition decode_department :: "json_lib \<Rightarrow> json \<Rightarrow> DepartmentSelection option" where
  "decode_department lib v =
     Option.bind (strict_object [''departmentId'', ''includeDescendants''] v) (\<lambda>m.
     Option.bind (field m ''departmentId'' (dec_uuid lib)) (\<lambda>d.
     Option.bind (field m ''includeDescendants'' dec_bool) (\<lambda>b.
     Some \<lparr>ds_DepartmentID = d, ds_IncludeDescendants = b\<rparr>)))"

definition decode_audience :: "json_lib \<Rightarrow> json \<Rightarrow> AudienceSelection option" where
  "decode_audience lib v =
     Option.bind (kind_of v) (\<lambda>kind.
     if kind = ''selected'' then
       Option.bind (strict_object [''kind'', ''employeeIds'', ''departments''] v) (\<lambda>m.
       Option.bind (field m ''employeeIds'' (dec_slice (Some (jl_nil lib)) (dec_uuid lib))) (\<lambda>es.
       Option.bind (field m ''departments'' (dec_slice None (decode_department lib))) (\<lambda>ds.
       Some \<lparr>as_Kind = kind, as_EmployeeIDs = es, as_Departments = ds\<rparr>)))
     else if kind = ''allLinked'' then
       Option.bind (strict_object [''kind''] v) (\<lambda>m. Some \<lparr>as_Kind = kind, as_EmployeeIDs = None, as_Departments = None\<rparr>)
     else None)"

definition decode_stages :: "json \<Rightarrow> StageSelection option" where
  "decode_stages v =
     Option.bind (kind_of v) (\<lambda>kind.
     if kind = ''selected'' then
       Option.bind (strict_object [''kind'', ''statusIds''] v) (\<lambda>m.
       Option.bind (field m ''statusIds'' dec_strings) (\<lambda>ids. Some \<lparr>ss_Kind = kind, ss_StatusIDs = ids\<rparr>))
     else if kind = ''allOpen'' then
       Option.bind (strict_object [''kind''] v) (\<lambda>m. Some \<lparr>ss_Kind = kind, ss_StatusIDs = None\<rparr>)
     else None)"

definition decode_selection :: "json \<Rightarrow> PipelineSelection option" where
  "decode_selection v =
     Option.bind (strict_object [''pipelineId'', ''stages''] v) (\<lambda>m.
     Option.bind (field m ''pipelineId'' dec_string) (\<lambda>p.
     Option.bind (field m ''stages'' decode_stages) (\<lambda>s. Some \<lparr>ps_PipelineID = p, ps_Stages = s\<rparr>)))"

definition decode_leads :: "json \<Rightarrow> LeadSelection option" where
  "decode_leads v =
     Option.bind (kind_of v) (\<lambda>kind.
     if kind = ''selected'' then
       Option.bind (strict_object [''kind'', ''pipelines''] v) (\<lambda>m.
       Option.bind (field m ''pipelines'' (dec_slice None decode_selection)) (\<lambda>ps. Some \<lparr>ls_Kind = kind, ls_Pipelines = ps\<rparr>))
     else if kind = ''allOpen'' \<or> kind = ''disabled'' then
       Option.bind (strict_object [''kind''] v) (\<lambda>m. Some \<lparr>ls_Kind = kind, ls_Pipelines = None\<rparr>)
     else None)"

definition decode_customers :: "json \<Rightarrow> CustomerSelection option" where
  "decode_customers v =
     Option.bind (kind_of v) (\<lambda>kind.
     if kind = ''selected'' then
       Option.bind (strict_object [''kind'', ''statusIds''] v) (\<lambda>m.
       Option.bind (field m ''statusIds'' dec_strings) (\<lambda>ids. Some \<lparr>cs_Kind = kind, cs_StatusIDs = ids\<rparr>))
     else if kind = ''all'' \<or> kind = ''disabled'' then
       Option.bind (strict_object [''kind''] v) (\<lambda>m. Some \<lparr>cs_Kind = kind, cs_StatusIDs = None\<rparr>)
     else None)"

definition dynamic_fields :: "string list" where
  "dynamic_fields = [''schemaVersion'', ''ruleUid'', ''name'', ''audience'', ''leads'', ''customers'', ''showModal'',
     ''denyExit'', ''checkResponsible'', ''enabled'', ''archived'']"

definition decode_dynamic :: "json_lib \<Rightarrow> json \<Rightarrow> RuleV2 option" where
  "decode_dynamic lib v =
     Option.bind (strict_object dynamic_fields v) (\<lambda>m.
     Option.bind (field m ''schemaVersion'' dec_int) (\<lambda>version.
     Option.bind (field m ''ruleUid'' (dec_uuid lib)) (\<lambda>uid.
     Option.bind (field m ''name'' dec_string) (\<lambda>name.
     Option.bind (field m ''audience'' (decode_audience lib)) (\<lambda>audience.
     Option.bind (field m ''leads'' decode_leads) (\<lambda>leads.
     Option.bind (field m ''customers'' decode_customers) (\<lambda>customers.
     Option.bind (field m ''showModal'' dec_bool) (\<lambda>modal.
     Option.bind (field m ''denyExit'' dec_bool) (\<lambda>deny.
     Option.bind (field m ''checkResponsible'' dec_bool) (\<lambda>check.
     Option.bind (field m ''enabled'' dec_bool) (\<lambda>enabled.
     Option.bind (field m ''archived'' dec_bool) (\<lambda>archived.
     Some \<lparr>rv_SchemaVersion = version, rv_RuleUID = uid, rv_Name = name, rv_Audience = audience, rv_Leads = leads,
       rv_Customers = customers, rv_ShowModal = modal, rv_DenyExit = deny, rv_CheckResponsible = check,
       rv_Enabled = enabled, rv_Archived = archived\<rparr>))))))))))))"

subsection \<open>Explicit rules\<close>

text \<open>A key of an object is the field of this name or else the first field of the same folded name; a key of
  no field is refused. The keys are read in order and \<^verbatim>\<open>null\<close> leaves a field that is no slice.\<close>

definition field_named :: "json_lib \<Rightarrow> string list \<Rightarrow> string \<Rightarrow> string option" where
  "field_named lib names k =
     (if k \<in> set names then Some k else List.find (\<lambda>n. jl_fold lib n = jl_fold lib k) names)"

definition set_unless_null :: "json \<Rightarrow> 'a \<Rightarrow> (json \<Rightarrow> 'b option) \<Rightarrow> ('b \<Rightarrow> 'a) \<Rightarrow> 'a option" where
  "set_unless_null v r dec upd = (if v = JNull then Some r else map_option upd (dec v))"

definition pipeline_names :: "string list" where
  "pipeline_names = [''pipelineId'', ''statusIds'']"

definition set_pipeline_field :: "string \<Rightarrow> json \<Rightarrow> Pipeline \<Rightarrow> Pipeline option" where
  "set_pipeline_field n v p =
     (if n = ''pipelineId'' then set_unless_null v p dec_string (\<lambda>s. p\<lparr>pp_PipelineID := s\<rparr>)
      else map_option (\<lambda>s. p\<lparr>pp_StatusIDs := s\<rparr>) (dec_strings v))"

fun set_fields :: "(string \<Rightarrow> string option) \<Rightarrow> (string \<Rightarrow> json \<Rightarrow> 'a \<Rightarrow> 'a option) \<Rightarrow> (string \<times> json) list \<Rightarrow> 'a \<Rightarrow> 'a option" where
  "set_fields named upd [] r = Some r"
| "set_fields named upd ((k, v) # fs) r =
     (case named k of
        None \<Rightarrow> None
      | Some n \<Rightarrow> Option.bind (upd n v r) (set_fields named upd fs))"

definition zero_pipeline :: Pipeline where
  "zero_pipeline = \<lparr>pp_PipelineID = '''', pp_StatusIDs = None\<rparr>"

definition decode_pipeline :: "json_lib \<Rightarrow> json \<Rightarrow> Pipeline option" where
  "decode_pipeline lib v =
     (case v of
        JObject fs \<Rightarrow> set_fields (field_named lib pipeline_names) set_pipeline_field fs zero_pipeline
      | _ \<Rightarrow> None)"

definition rule_names :: "string list" where
  "rule_names = [''ruleUid'', ''name'', ''users'', ''pipelines'', ''customers'', ''customerStatuses'', ''showModal'',
     ''denyExit'', ''checkResponsible'', ''enabled'', ''archived'']"

definition set_rule_field :: "json_lib \<Rightarrow> string \<Rightarrow> json \<Rightarrow> control_rule \<Rightarrow> control_rule option" where
  "set_rule_field lib n v r =
     (if n = ''ruleUid'' then set_unless_null v r (dec_uuid lib) (\<lambda>x. r\<lparr>cr_RuleUID := x\<rparr>)
      else if n = ''name'' then set_unless_null v r dec_string (\<lambda>x. r\<lparr>cr_Name := x\<rparr>)
      else if n = ''users'' then map_option (\<lambda>x. r\<lparr>cr_Users := x\<rparr>) (dec_strings v)
      else if n = ''pipelines'' then
        map_option (\<lambda>x. r\<lparr>cr_Pipelines := x\<rparr>) (dec_slice (Some zero_pipeline) (decode_pipeline lib) v)
      else if n = ''customers'' then set_unless_null v r dec_bool (\<lambda>x. r\<lparr>cr_Customers := x\<rparr>)
      else if n = ''customerStatuses'' then map_option (\<lambda>x. r\<lparr>cr_CustomerStatuses := x\<rparr>) (dec_strings v)
      else if n = ''showModal'' then set_unless_null v r dec_bool (\<lambda>x. r\<lparr>cr_ShowModal := x\<rparr>)
      else if n = ''denyExit'' then set_unless_null v r dec_bool (\<lambda>x. r\<lparr>cr_DenyExit := x\<rparr>)
      else if n = ''checkResponsible'' then set_unless_null v r dec_bool (\<lambda>x. r\<lparr>cr_CheckResponsible := x\<rparr>)
      else if n = ''enabled'' then set_unless_null v r dec_bool (\<lambda>x. r\<lparr>cr_Enabled := x\<rparr>)
      else set_unless_null v r dec_bool (\<lambda>x. r\<lparr>cr_Archived := x\<rparr>))"

definition zero_rule :: "json_lib \<Rightarrow> control_rule" where
  "zero_rule lib =
     \<lparr>cr_RuleUID = jl_nil lib, cr_Name = '''', cr_Users = None, cr_Pipelines = None, cr_Customers = False,
      cr_CustomerStatuses = None, cr_ShowModal = False, cr_DenyExit = False, cr_CheckResponsible = False,
      cr_Enabled = False, cr_Archived = False\<rparr>"

text \<open>The map of the fields keeps the last of repeated keys.\<close>

definition decode_rule :: "json_lib \<Rightarrow> json \<Rightarrow> control_rule option" where
  "decode_rule lib v =
     (case v of
        JObject fs \<Rightarrow>
          if list_ex (\<lambda>f. last_of fs f = None \<or> last_of fs f = Some JNull) rule_names then None
          else set_fields (field_named lib rule_names) (set_rule_field lib) fs (zero_rule lib)
      | _ \<Rightarrow> None)"

subsection \<open>Intents\<close>

definition decode_intent :: "json_lib \<Rightarrow> json \<Rightarrow> IntentRule option" where
  "decode_intent lib v =
     Option.bind (strict_object [''kind'', ''rule''] v) (\<lambda>m.
     Option.bind (field m ''kind'' dec_string) (\<lambda>kind.
     if kind = ''dynamic'' then
       map_option (\<lambda>d. \<lparr>ir_Kind = kind, ir_Dynamic = Some d, ir_Legacy = None\<rparr>) (field m ''rule'' (decode_dynamic lib))
     else if kind = ''legacyExplicit'' then
       map_option (\<lambda>l. \<lparr>ir_Kind = kind, ir_Dynamic = None, ir_Legacy = Some l\<rparr>) (field m ''rule'' (decode_rule lib))
     else None))"

definition decode_intents :: "json_lib \<Rightarrow> json \<Rightarrow> IntentRule slice option" where
  "decode_intents lib v = dec_slice None (decode_intent lib) v"

definition IntentMaxBytes :: nat where
  "IntentMaxBytes = 2 ^ 20"

text \<open>\<open>read\<close> is the library's reading of a text that holds one value and nothing after it.\<close>

definition ParseIntentRules ::
    "uuid_lib \<Rightarrow> json_lib \<Rightarrow> (string \<Rightarrow> json option) \<Rightarrow> string \<Rightarrow> IntentRule slice option" where
  "ParseIntentRules ul lib read raw =
     (if length raw > IntentMaxBytes then None
      else case read raw of
        None \<Rightarrow> None
      | Some v \<Rightarrow>
          if \<not> unique_json v then None
          else Option.bind (decode_intents lib v) (\<lambda>rules. if ValidateIntentRules ul rules = [] then Some rules else None))"

subsection \<open>Text that stays as it is\<close>

lemma ToValidUTF8_ascii: "list_all ascii s \<Longrightarrow> ToValidUTF8 s = s"
proof -
  assume s: "list_all ascii s"
  have "(case r of [c] \<Rightarrow> if ascii c then r else [CHR 0xEF, CHR 0xBF, CHR 0xBD] | _ \<Rightarrow> r) = r" if r: "r \<in> set (runes s)" for r
  proof -
    have "set r \<subseteq> set (concat (runes s))" using r unfolding set_concat by blast
    then have "\<forall>c\<in>set r. ascii c" using s by (auto simp: list_all_iff)
    then show ?thesis by (auto split: list.splits)
  qed
  then have "map (\<lambda>r. case r of [c] \<Rightarrow> if ascii c then r else [CHR 0xEF, CHR 0xBF, CHR 0xBD] | _ \<Rightarrow> r) (runes s) = runes s"
    by (simp add: map_idI)
  then show ?thesis by (simp add: ToValidUTF8_def)
qed

lemma decimal_ascii: "list_all ascii (decimal n)"
proof (induction n rule: decimal.induct)
  case (1 n)
  have "ascii (digit_char d)" if "d < 10" for d
    using that by (simp add: ascii_def digit_char_def)
  with 1 show ?case by (subst decimal.simps) auto
qed

lemma crm_stable: "ValidCRMID s \<Longrightarrow> ToValidUTF8 s = s"
  by (auto simp: ValidCRMID_iff intro: ToValidUTF8_ascii decimal_ascii)

text \<open>The names of fields.\<close>

lemma names_stable:
  assumes "list_all (list_all ascii) names" shows "list_all (\<lambda>n. ToValidUTF8 n = n) names"
  using assms by (auto simp: list_all_iff[of _ names] intro: ToValidUTF8_ascii)

definition codec_names :: "string list" where
  "codec_names = [''schemaVersion'', ''ruleUid'', ''name'', ''audience'', ''leads'', ''customers'', ''showModal'',
     ''denyExit'', ''checkResponsible'', ''enabled'', ''archived'', ''users'', ''pipelines'', ''customerStatuses'',
     ''pipelineId'', ''statusIds'', ''kind'', ''rule'', ''departmentId'', ''includeDescendants'', ''employeeIds'',
     ''departments'', ''stages'', ''selected'', ''allLinked'', ''allOpen'', ''disabled'', ''all'', ''dynamic'',
     ''legacyExplicit'']"

lemma codec_names_ascii: "list_all (list_all ascii) codec_names"
  by (simp add: codec_names_def ascii_def)

lemmas stable_names = names_stable[OF codec_names_ascii, unfolded codec_names_def list.pred_inject simp_thms]

subsection \<open>Slices\<close>

lemma those_opt_map: "(\<And>x. x \<in> set xs \<Longrightarrow> f x = Some (g x)) \<Longrightarrow> those_opt (map f xs) = Some (map g xs)"
  by (induction xs) auto

lemma reread_slice: "reread (json_slice f s) = json_slice (\<lambda>x. reread (f x)) s"
  by (simp add: json_slice_def split: option.splits)

lemma dec_slice_encoded:
  assumes "\<And>x. x \<in> set (items s) \<Longrightarrow> f x \<noteq> JNull \<and> dec (f x) = Some x"
  shows "dec_slice zero dec (json_slice f s) = Some s"
proof (cases s)
  case (Some xs)
  have "those_opt (map (\<lambda>x. if f x = JNull \<and> zero \<noteq> None then zero else dec (f x)) xs) = Some (map (\<lambda>x. x) xs)"
    by (rule those_opt_map) (use assms Some in auto)
  with Some show ?thesis by (simp add: dec_slice_def json_slice_def comp_def)
qed (simp add: dec_slice_def json_slice_def)

lemma dec_strings_encoded:
  assumes "\<forall>s\<in>set (items v). ToValidUTF8 s = s"
  shows "dec_strings (reread (encode_strings v)) = Some v"
  unfolding dec_strings_def encode_strings_def reread_slice by (rule dec_slice_encoded) (use assms in simp)

lemma unique_slice: "(\<And>x. x \<in> set (items s) \<Longrightarrow> unique_json (f x)) \<Longrightarrow> unique_json (json_slice f s)"
  by (cases s) (auto simp: json_slice_def)

lemma unique_strings: "unique_json (reread (encode_strings s))"
  unfolding encode_strings_def reread_slice by (rule unique_slice) simp

lemma slice_not_null: "s \<noteq> None \<Longrightarrow> reread (json_slice f s) \<noteq> JNull"
  by (auto simp: json_slice_def)

subsection \<open>Round trips\<close>

text \<open>A UUID is its canonical text.\<close>

definition canonical_uuid :: "json_lib \<Rightarrow> ID \<Rightarrow> bool" where
  "canonical_uuid lib u \<longleftrightarrow> jl_parse lib u = Some u \<and> ToValidUTF8 u = u"

lemma dec_uuid_canonical [simp]: "canonical_uuid lib u \<Longrightarrow> dec_uuid lib (JString (ToValidUTF8 u)) = Some u"
  by (simp add: dec_uuid_def canonical_uuid_def)

lemma department_roundtrip:
  "canonical_uuid lib (ds_DepartmentID d) \<Longrightarrow> decode_department lib (reread (encode_department d)) = Some d"
  by (simp add: decode_department_def encode_department_def stable_names strict_object_def field_def)

lemma audience_roundtrip:
  assumes "valid_audience ul a" "\<And>u. validUUID ul u \<Longrightarrow> canonical_uuid lib u"
  shows "decode_audience lib (reread (encode_audience a)) = Some a"
proof (cases "as_Kind a = ''selected''")
  case True
  then have a: "as_EmployeeIDs a \<noteq> None" "as_Departments a \<noteq> None"
    and ids: "\<forall>e\<in>set (items (as_EmployeeIDs a)). canonical_uuid lib e"
      "\<forall>d\<in>set (items (as_Departments a)). canonical_uuid lib (ds_DepartmentID d)"
    using assms by (auto simp: valid_audience_def)
  have es: "dec_slice (Some (jl_nil lib)) (dec_uuid lib) (reread (encode_strings (as_EmployeeIDs a))) = Some (as_EmployeeIDs a)"
    unfolding encode_strings_def reread_slice by (rule dec_slice_encoded) (use ids(1) in simp)
  have ds: "dec_slice None (decode_department lib) (reread (json_slice encode_department (as_Departments a))) = Some (as_Departments a)"
    unfolding reread_slice
    by (rule dec_slice_encoded) (use ids(2) in \<open>simp add: department_roundtrip\<close>, simp add: encode_department_def)
  have unique: "unique_json (reread (encode_strings (as_EmployeeIDs a)))"
    "unique_json (reread (json_slice encode_department (as_Departments a)))"
    by (rule unique_strings) (unfold reread_slice, rule unique_slice, simp add: encode_department_def stable_names)
  have "reread (encode_strings (as_EmployeeIDs a)) \<noteq> JNull" "reread (json_slice encode_department (as_Departments a)) \<noteq> JNull"
    unfolding encode_strings_def using a by (simp_all add: slice_not_null)
  with True es ds unique show ?thesis
    by (cases a) (simp add: decode_audience_def encode_audience_def stable_names kind_of_def strict_object_def field_def)
next
  case False
  with assms(1) have "a = \<lparr>as_Kind = ''allLinked'', as_EmployeeIDs = None, as_Departments = None\<rparr>"
    by (cases a) (auto simp: valid_audience_def)
  then show ?thesis
    by (simp add: decode_audience_def encode_audience_def stable_names kind_of_def strict_object_def)
qed

lemma strings_field:
  assumes "crm_list s"
  shows "dec_strings (reread (encode_strings s)) = Some s" "reread (encode_strings s) \<noteq> JNull"
  using assms by (auto simp: crm_list_def crm_stable encode_strings_def slice_not_null intro!: dec_strings_encoded[unfolded encode_strings_def])

lemma stages_roundtrip:
  assumes "valid_stages r" shows "decode_stages (reread (encode_stages r)) = Some r"
proof (cases "ss_Kind r = ''selected''")
  case True
  with assms have "crm_list (ss_StatusIDs r)" by (auto simp: valid_stages_def)
  note strings_field[OF this] unique_strings[of "ss_StatusIDs r"]
  with True show ?thesis
    by (cases r) (simp add: decode_stages_def encode_stages_def stable_names kind_of_def strict_object_def field_def)
next
  case False
  with assms have "r = \<lparr>ss_Kind = ''allOpen'', ss_StatusIDs = None\<rparr>" by (cases r) (auto simp: valid_stages_def)
  then show ?thesis
    by (simp add: decode_stages_def encode_stages_def stable_names kind_of_def strict_object_def)
qed

lemma customers_roundtrip:
  assumes "valid_customers r" shows "decode_customers (reread (encode_customers r)) = Some r"
proof (cases "cs_Kind r = ''selected''")
  case True
  with assms have "crm_list (cs_StatusIDs r)" by (auto simp: valid_customers_def)
  note strings_field[OF this] unique_strings[of "cs_StatusIDs r"]
  with True show ?thesis
    by (cases r) (simp add: decode_customers_def encode_customers_def stable_names kind_of_def strict_object_def field_def)
next
  case False
  with assms have "r = \<lparr>cs_Kind = ''all'', cs_StatusIDs = None\<rparr> \<or> r = \<lparr>cs_Kind = ''disabled'', cs_StatusIDs = None\<rparr>"
    by (cases r) (auto simp: valid_customers_def)
  then show ?thesis
    by (auto simp: decode_customers_def encode_customers_def stable_names kind_of_def strict_object_def)
qed

lemma unique_stages: "unique_json (reread (encode_stages r))"
  using unique_strings[of "ss_StatusIDs r"] by (simp add: encode_stages_def stable_names)

lemma selection_roundtrip:
  assumes "ValidCRMID (ps_PipelineID r)" "valid_stages (ps_Stages r)"
  shows "decode_selection (reread (encode_selection r)) = Some r"
proof -
  have "reread (encode_stages (ps_Stages r)) \<noteq> JNull" by (simp add: encode_stages_def)
  with unique_stages[of "ps_Stages r"] stages_roundtrip[OF assms(2)] crm_stable[OF assms(1)] show ?thesis
    by (simp add: decode_selection_def encode_selection_def stable_names strict_object_def field_def)
qed

lemma leads_roundtrip:
  assumes "valid_leads r" shows "decode_leads (reread (encode_leads r)) = Some r"
proof (cases "ls_Kind r = ''selected''")
  case True
  with assms have ps: "ls_Pipelines r \<noteq> None"
    "\<forall>p\<in>set (items (ls_Pipelines r)). ValidCRMID (ps_PipelineID p) \<and> valid_stages (ps_Stages p)"
    by (cases "ls_Pipelines r"; simp add: valid_leads_def)+
  have "dec_slice None decode_selection (reread (json_slice encode_selection (ls_Pipelines r))) = Some (ls_Pipelines r)"
    unfolding reread_slice
    by (rule dec_slice_encoded) (use ps(2) in \<open>simp add: selection_roundtrip\<close>, simp add: encode_selection_def)
  moreover have "unique_json (reread (json_slice encode_selection (ls_Pipelines r)))"
    unfolding reread_slice by (rule unique_slice) (simp add: encode_selection_def stable_names unique_stages)
  ultimately show ?thesis
    using True slice_not_null[OF ps(1), of encode_selection]
    by (cases r) (simp add: decode_leads_def encode_leads_def stable_names kind_of_def strict_object_def field_def)
next
  case False
  with assms have "r = \<lparr>ls_Kind = ''disabled'', ls_Pipelines = None\<rparr> \<or> r = \<lparr>ls_Kind = ''allOpen'', ls_Pipelines = None\<rparr>"
    by (cases r) (auto simp: valid_leads_def)
  then show ?thesis
    by (auto simp: decode_leads_def encode_leads_def stable_names kind_of_def strict_object_def)
qed

lemma unique_department: "unique_json (reread (encode_department d))"
  by (simp add: encode_department_def stable_names)

lemma unique_audience: "unique_json (reread (encode_audience a))"
proof -
  have "unique_json (reread (json_slice encode_department s))" for s
    unfolding reread_slice by (rule unique_slice) (rule unique_department)
  then show ?thesis using unique_strings by (simp add: encode_audience_def stable_names)
qed

lemma unique_leads: "unique_json (reread (encode_leads r))"
proof -
  have "unique_json (reread (json_slice encode_selection s))" for s
    unfolding reread_slice by (rule unique_slice) (simp add: encode_selection_def stable_names unique_stages)
  then show ?thesis by (simp add: encode_leads_def stable_names)
qed

lemma unique_customers: "unique_json (reread (encode_customers r))"
  using unique_strings[of "cs_StatusIDs r"] by (simp add: encode_customers_def stable_names)

lemma unique_int: "unique_json (reread (json_int v))"
  by (simp add: json_int_def)

lemma encoded_not_null:
  "reread (encode_audience a) \<noteq> JNull" "reread (encode_leads l) \<noteq> JNull" "reread (encode_customers c) \<noteq> JNull"
  by (simp_all add: encode_audience_def encode_leads_def encode_customers_def)

lemma dec_version: "dec_int (reread (json_int 2)) = Some 2" "reread (json_int 2) \<noteq> JNull"
  using ParseInt_decimal[of 2] FormatInt_nat[of 2] by (simp_all add: json_int_def)

lemma unique_dynamic: "unique_json (reread (encode_dynamic r))"
  by (simp add: encode_dynamic_def stable_names unique_audience unique_leads unique_customers unique_int del: reread.simps(2))

lemma dynamic_roundtrip:
  assumes "valid_dynamic ul r" "canonical_uuid lib (rv_RuleUID r)" "ToValidUTF8 (rv_Name r) = rv_Name r"
    and uuids: "\<And>u. validUUID ul u \<Longrightarrow> canonical_uuid lib u"
  shows "decode_dynamic lib (reread (encode_dynamic r)) = Some r"
proof -
  have parts: "decode_audience lib (reread (encode_audience (rv_Audience r))) = Some (rv_Audience r)"
    "decode_leads (reread (encode_leads (rv_Leads r))) = Some (rv_Leads r)"
    "decode_customers (reread (encode_customers (rv_Customers r))) = Some (rv_Customers r)" "rv_SchemaVersion r = 2"
    using assms(1) by (auto simp: valid_dynamic_def intro: audience_roundtrip[OF _ uuids] leads_roundtrip customers_roundtrip)
  then show ?thesis
    using assms(2,3) unique_audience[of "rv_Audience r"] unique_leads[of "rv_Leads r"] unique_customers[of "rv_Customers r"]
    by (simp add: decode_dynamic_def dynamic_fields_def encode_dynamic_def stable_names strict_object_def field_def
        unique_int dec_version encoded_not_null)
qed

subsection \<open>Explicit rules\<close>

lemma pipeline_roundtrip:
  assumes "ValidCRMID (pp_PipelineID p)" "crm_list (pp_StatusIDs p)"
  shows "decode_pipeline lib (reread (encode_pipeline p)) = Some p"
  using strings_field[OF assms(2)] crm_stable[OF assms(1)]
  by (cases p) (simp add: decode_pipeline_def encode_pipeline_def stable_names field_named_def pipeline_names_def
      set_pipeline_field_def set_unless_null_def zero_pipeline_def)

lemma pipelines_field:
  assumes "cr_Pipelines r \<noteq> None"
    "\<forall>p\<in>set (items (cr_Pipelines r)). ValidCRMID (pp_PipelineID p) \<and> crm_list (pp_StatusIDs p)"
  shows "dec_slice (Some zero_pipeline) (decode_pipeline lib) (reread (json_slice encode_pipeline (cr_Pipelines r))) = Some (cr_Pipelines r)"
    "reread (json_slice encode_pipeline (cr_Pipelines r)) \<noteq> JNull"
  using assms slice_not_null[OF assms(1), of encode_pipeline] unfolding reread_slice
  by (auto intro!: dec_slice_encoded simp: pipeline_roundtrip) (simp add: encode_pipeline_def)

lemma unique_rule: "unique_json (reread (encode_rule r))"
proof -
  have "unique_json (reread (encode_pipeline p))" for p
    using unique_strings[of "pp_StatusIDs p"] by (simp add: encode_pipeline_def stable_names)
  then have "unique_json (reread (json_slice encode_pipeline s))" for s
    unfolding reread_slice by (rule unique_slice)
  then show ?thesis by (simp add: encode_rule_def stable_names unique_strings)
qed

lemma rule_roundtrip:
  assumes "valid_rule ul r" "canonical_uuid lib (cr_RuleUID r)" "ToValidUTF8 (cr_Name r) = cr_Name r"
  shows "decode_rule lib (reread (encode_rule r)) = Some r"
proof -
  have "crm_list (cr_Users r)" "crm_list (cr_CustomerStatuses r)" and ps: "cr_Pipelines r \<noteq> None"
    "\<forall>p\<in>set (items (cr_Pipelines r)). ValidCRMID (pp_PipelineID p) \<and> crm_list (pp_StatusIDs p)"
    using assms(1) by (simp_all add: valid_rule_def)
  note strings_field[OF this(1)] strings_field[OF this(2)] pipelines_field(1)[OF ps, of lib] pipelines_field(2)[OF ps]
  then show ?thesis
    using assms(2,3)
    by (cases r) (simp add: decode_rule_def encode_rule_def stable_names rule_names_def last_of_def field_named_def
        set_rule_field_def set_unless_null_def zero_rule_def)
qed

end
