(* ===== verification/Control_Canonical.thy ===== *)
theory Control_Canonical
  imports Control_Codec Control_Publication
begin

section \<open>Task control: the checksum of intents\<close>

text \<open>
  \<^verbatim>\<open>IntentChecksum\<close> of \<^verbatim>\<open>intent.go\<close>: it copies the intents through their JSON, sorts everything whose
  order means nothing and hashes the canonical text. Validated intents survive the copy, and two lists
  are brought to the same order exactly when they mean the same.
\<close>

subsection \<open>The copy\<close>

definition encode_intents :: "IntentRule list \<Rightarrow> json option" where
  "encode_intents rules = map_option JArray (those_opt (map encode_intent rules))"

definition utf8_names :: "IntentRule \<Rightarrow> bool" where
  "utf8_names item \<longleftrightarrow>
     (\<forall>d. ir_Dynamic item = Some d \<longrightarrow> ToValidUTF8 (rv_Name d) = rv_Name d) \<and>
     (\<forall>l. ir_Legacy item = Some l \<longrightarrow> ToValidUTF8 (cr_Name l) = cr_Name l)"

definition encoded_intent :: "IntentRule \<Rightarrow> json" where
  "encoded_intent item = the (encode_intent item)"

lemma intent_roundtrip:
  assumes "valid_intent ul item" "utf8_names item" and uuids: "\<And>u. validUUID ul u \<Longrightarrow> canonical_uuid lib u"
  shows "encode_intent item = Some (encoded_intent item) \<and> unique_json (reread (encoded_intent item)) \<and>
     decode_intent lib (reread (encoded_intent item)) = Some item \<and> reread (encoded_intent item) \<noteq> JNull"
proof -
  from assms(1) consider l where "item = \<lparr>ir_Kind = ''legacyExplicit'', ir_Dynamic = None, ir_Legacy = Some l\<rparr>" "valid_rule ul l"
    | d where "item = \<lparr>ir_Kind = ''dynamic'', ir_Dynamic = Some d, ir_Legacy = None\<rparr>" "valid_dynamic ul d" "validUUID ul (rv_RuleUID d)"
    by (auto simp: valid_intent_def)
  then show ?thesis
  proof cases
    case (1 l)
    then have "decode_rule lib (reread (encode_rule l)) = Some l"
      using assms(2) uuids by (auto simp: utf8_names_def valid_rule_def intro!: rule_roundtrip[of ul])
    moreover have "reread (encode_rule l) \<noteq> JNull" by (simp add: encode_rule_def)
    ultimately show ?thesis
      using unique_rule[of l]
      by (simp add: 1(1) encoded_intent_def encode_intent_def stable_names decode_intent_def strict_object_def field_def)
  next
    case (2 d)
    then have "decode_dynamic lib (reread (encode_dynamic d)) = Some d"
      using assms(2) uuids by (auto simp: utf8_names_def intro!: dynamic_roundtrip[of ul])
    moreover have "reread (encode_dynamic d) \<noteq> JNull" by (simp add: encode_dynamic_def)
    ultimately show ?thesis
      using unique_dynamic[of d]
      by (simp add: 2(1) encoded_intent_def encode_intent_def stable_names decode_intent_def strict_object_def field_def)
  qed
qed

lemma intents_copied:
  assumes "\<forall>r\<in>set rules. valid_intent ul r \<and> utf8_names r" "\<And>u. validUUID ul u \<Longrightarrow> canonical_uuid lib u"
  shows "encode_intents rules = Some (JArray (map encoded_intent rules))"
    "decode_intents lib (reread (JArray (map encoded_intent rules))) = Some (Some rules)"
    "unique_json (reread (JArray (map encoded_intent rules)))"
proof -
  have one: "encode_intent r = Some (encoded_intent r) \<and> unique_json (reread (encoded_intent r)) \<and>
      decode_intent lib (reread (encoded_intent r)) = Some r \<and> reread (encoded_intent r) \<noteq> JNull" if "r \<in> set rules" for r
    using intent_roundtrip[of ul r lib] assms that by blast
  show "encode_intents rules = Some (JArray (map encoded_intent rules))"
    using those_opt_map[of rules encode_intent encoded_intent] assms(1) one by (simp add: encode_intents_def)
  have "dec_slice None (decode_intent lib) (json_slice (\<lambda>r. reread (encoded_intent r)) (Some rules)) = Some (Some rules)"
    by (rule dec_slice_encoded) (use assms(1) one in simp)
  then show "decode_intents lib (reread (JArray (map encoded_intent rules))) = Some (Some rules)"
    by (simp add: decode_intents_def json_slice_def comp_def)
  show "unique_json (reread (JArray (map encoded_intent rules)))" using assms(1) one by simp
qed

subsection \<open>The order\<close>

definition sorted_stages :: "StageSelection \<Rightarrow> StageSelection" where
  "sorted_stages s = s\<lparr>ss_StatusIDs := map_option sortCRM (ss_StatusIDs s)\<rparr>"

definition sorted_selection :: "PipelineSelection \<Rightarrow> PipelineSelection" where
  "sorted_selection p = p\<lparr>ps_Stages := sorted_stages (ps_Stages p)\<rparr>"

definition sorted_dynamic :: "RuleV2 \<Rightarrow> RuleV2" where
  "sorted_dynamic r =
     (let a = rv_Audience r; l = rv_Leads r; c = rv_Customers r
      in r\<lparr>rv_Name := TrimSpace (rv_Name r),
           rv_Audience := a\<lparr>as_EmployeeIDs := map_option sort (as_EmployeeIDs a),
             as_Departments := map_option (sort_key ds_DepartmentID) (as_Departments a)\<rparr>,
           rv_Leads := l\<lparr>ls_Pipelines := map_option (\<lambda>ps. map sorted_selection (sort_key (\<lambda>p. crm_number (ps_PipelineID p)) ps)) (ls_Pipelines l)\<rparr>,
           rv_Customers := c\<lparr>cs_StatusIDs := map_option sortCRM (cs_StatusIDs c)\<rparr>\<rparr>)"

definition sorted_rule_pipeline :: "Pipeline \<Rightarrow> Pipeline" where
  "sorted_rule_pipeline p = p\<lparr>pp_StatusIDs := map_option sortCRM (pp_StatusIDs p)\<rparr>"

definition sorted_rule :: "control_rule \<Rightarrow> control_rule" where
  "sorted_rule r =
     r\<lparr>cr_Name := TrimSpace (cr_Name r), cr_Users := map_option sortCRM (cr_Users r),
       cr_CustomerStatuses := map_option sortCRM (cr_CustomerStatuses r),
       cr_Pipelines := map_option (\<lambda>ps. map sorted_rule_pipeline (sort_key (\<lambda>p. crm_number (pp_PipelineID p)) ps)) (cr_Pipelines r)\<rparr>"

definition sorted_intent :: "IntentRule \<Rightarrow> IntentRule" where
  "sorted_intent item =
     (case ir_Dynamic item of
        Some r \<Rightarrow> item\<lparr>ir_Dynamic := Some (sorted_dynamic r)\<rparr>
      | None \<Rightarrow> item\<lparr>ir_Legacy := map_option sorted_rule (ir_Legacy item)\<rparr>)"

definition rule_uid :: "IntentRule \<Rightarrow> ID" where
  "rule_uid item = (case ir_Dynamic item of Some d \<Rightarrow> rv_RuleUID d | None \<Rightarrow> cr_RuleUID (the (ir_Legacy item)))"

definition canonical_intents :: "IntentRule list \<Rightarrow> IntentRule list" where
  "canonical_intents copy = map sorted_intent (sort_key rule_uid copy)"

definition IntentChecksum :: "uuid_lib \<Rightarrow> json_lib \<Rightarrow> (string \<Rightarrow> string) \<Rightarrow> IntentRule slice \<Rightarrow> string option" where
  "IntentChecksum ul lib sha256 rules =
     (if ValidateIntentRules ul rules \<noteq> [] then None
      else Option.bind (encode_intents (items rules)) (\<lambda>raw.
           Option.bind (decode_intents lib (reread raw)) (\<lambda>copy.
           map_option (\<lambda>raw'. sha256 (canonicalJSON (reread raw'))) (encode_intents (canonical_intents (items copy))))))"

subsection \<open>What an intent means\<close>

definition stages_meaning :: "StageSelection \<Rightarrow> string \<times> string set" where
  "stages_meaning s = (ss_Kind s, set (items (ss_StatusIDs s)))"

definition selection_meaning :: "PipelineSelection \<Rightarrow> string \<times> string \<times> string set" where
  "selection_meaning p = (ps_PipelineID p, stages_meaning (ps_Stages p))"

definition dynamic_meaning where
  "dynamic_meaning r =
     ((rv_SchemaVersion r, rv_RuleUID r, TrimSpace (rv_Name r)),
      (as_Kind (rv_Audience r), set (items (as_EmployeeIDs (rv_Audience r))), set (items (as_Departments (rv_Audience r)))),
      (ls_Kind (rv_Leads r), selection_meaning ` set (items (ls_Pipelines (rv_Leads r)))),
      (cs_Kind (rv_Customers r), set (items (cs_StatusIDs (rv_Customers r)))),
      [rv_ShowModal r, rv_DenyExit r, rv_CheckResponsible r, rv_Enabled r, rv_Archived r])"

definition intent_meaning where
  "intent_meaning item = (map_option dynamic_meaning (ir_Dynamic item), map_option rule_meaning (ir_Legacy item))"

lemma sorted_slice:
  assumes "distinct (items s)" "distinct (items t)" "inj_on k (set (items s))" "s = None \<longleftrightarrow> t = None"
  shows "map_option (sort_key k) s = map_option (sort_key k) t \<longleftrightarrow> set (items s) = set (items t)"
proof (cases s)
  case (Some xs)
  with assms(4) obtain ys where t: "t = Some ys" by auto
  have "sort_key k xs = sort_key k ys \<longleftrightarrow> set xs = set ys"
    using assms(1-3) Some t sort_key_of_set[of xs ys k] by (auto dest: arg_cong[where f = set])
  then show ?thesis by (simp add: Some t)
qed (use assms(4) in simp)

lemma crm_sorted:
  assumes "crm_list s" "crm_list t"
  shows "map_option sortCRM s = map_option sortCRM t \<longleftrightarrow> set (items s) = set (items t)"
  unfolding sortCRM_def[abs_def]
  by (rule sorted_slice) (use assms crm_number_inj in \<open>auto simp: crm_list_def inj_on_def\<close>)

text \<open>A list of records sorted by a key that is kept by what is done to each of them.\<close>

lemma sorted_records:
  assumes "distinct (map k xs)" "distinct (map k ys)" "\<And>x. k (h x) = k x"
    and "\<And>x y. x \<in> set xs \<Longrightarrow> y \<in> set ys \<Longrightarrow> h x = h y \<longleftrightarrow> g x = g y"
  shows "map h (sort_key k xs) = map h (sort_key k ys) \<longleftrightarrow> g ` set xs = g ` set ys"
proof -
  have "map h (sort_key k zs) = sort_key k (map h zs)" for zs
    by (simp add: sort_key_map assms(3))
  moreover have "sort_key k (map h xs) = sort_key k (map h ys) \<longleftrightarrow> g ` set xs = g ` set ys"
    by (rule sorted_map_of_meaning) (use assms in \<open>simp_all add: comp_def\<close>)
  ultimately show ?thesis by simp
qed

lemma valid_stages_cases:
  "valid_stages s \<Longrightarrow> ss_Kind s = ''allOpen'' \<and> ss_StatusIDs s = None \<or> ss_Kind s = ''selected'' \<and> crm_list (ss_StatusIDs s)"
  unfolding valid_stages_def by blast

lemma valid_customers_cases:
  "valid_customers c \<Longrightarrow> cs_Kind c \<noteq> ''selected'' \<and> cs_StatusIDs c = None \<or> cs_Kind c = ''selected'' \<and> crm_list (cs_StatusIDs c)"
  unfolding valid_customers_def by (elim disjE conjE) simp_all

lemma stages_of_meaning:
  assumes "valid_stages s" "valid_stages t"
  shows "sorted_stages s = sorted_stages t \<longleftrightarrow> stages_meaning s = stages_meaning t"
proof -
  have "ss_Kind s = ss_Kind t \<Longrightarrow> map_option sortCRM (ss_StatusIDs s) = map_option sortCRM (ss_StatusIDs t) \<longleftrightarrow>
      set (items (ss_StatusIDs s)) = set (items (ss_StatusIDs t))"
    using valid_stages_cases[OF assms(1)] valid_stages_cases[OF assms(2)] crm_sorted[of "ss_StatusIDs s" "ss_StatusIDs t"]
    by (elim disjE) simp_all
  moreover have "sorted_stages s = sorted_stages t \<longleftrightarrow>
      ss_Kind s = ss_Kind t \<and> map_option sortCRM (ss_StatusIDs s) = map_option sortCRM (ss_StatusIDs t)"
    by (cases s; cases t) (simp add: sorted_stages_def)
  ultimately show ?thesis by (auto simp: stages_meaning_def)
qed

lemma selection_of_meaning:
  assumes "valid_stages (ps_Stages p)" "valid_stages (ps_Stages q)"
  shows "sorted_selection p = sorted_selection q \<longleftrightarrow> selection_meaning p = selection_meaning q"
  using stages_of_meaning[OF assms] by (cases p; cases q) (auto simp: sorted_selection_def selection_meaning_def)

lemma rule_pipeline_of_meaning:
  assumes "crm_list (pp_StatusIDs p)" "crm_list (pp_StatusIDs q)"
  shows "sorted_rule_pipeline p = sorted_rule_pipeline q \<longleftrightarrow> pipeline_meaning p = pipeline_meaning q"
  using crm_sorted[OF assms] by (cases p; cases q) (auto simp: sorted_rule_pipeline_def pipeline_meaning_def)

lemma crm_keys_distinct:
  "distinct (map f xs) \<Longrightarrow> \<forall>x\<in>set xs. ValidCRMID (f x) \<Longrightarrow> distinct (map (\<lambda>x. crm_number (f x)) xs)"
  by (auto simp: distinct_map inj_on_def dest!: crm_number_inj[rotated 2])

lemma rule_of_meaning:
  assumes "valid_rule ul r" "valid_rule ul q"
  shows "sorted_rule r = sorted_rule q \<longleftrightarrow> rule_meaning r = rule_meaning q"
proof -
  obtain ps qs where p: "cr_Pipelines r = Some ps" "cr_Pipelines q = Some qs"
    using assms by (auto simp: valid_rule_def)
  have "map sorted_rule_pipeline (sort_key (\<lambda>p. crm_number (pp_PipelineID p)) ps) =
      map sorted_rule_pipeline (sort_key (\<lambda>p. crm_number (pp_PipelineID p)) qs) \<longleftrightarrow>
      pipeline_meaning ` set ps = pipeline_meaning ` set qs"
  proof (rule sorted_records)
    have valid: "distinct (map pp_PipelineID ps)" "distinct (map pp_PipelineID qs)"
      "\<forall>x\<in>set ps. ValidCRMID (pp_PipelineID x) \<and> crm_list (pp_StatusIDs x)"
      "\<forall>x\<in>set qs. ValidCRMID (pp_PipelineID x) \<and> crm_list (pp_StatusIDs x)"
      using assms p by (simp_all add: valid_rule_def)
    then show "distinct (map (\<lambda>p. crm_number (pp_PipelineID p)) ps)" "distinct (map (\<lambda>p. crm_number (pp_PipelineID p)) qs)"
      by (simp_all add: crm_keys_distinct)
    show "sorted_rule_pipeline x = sorted_rule_pipeline y \<longleftrightarrow> pipeline_meaning x = pipeline_meaning y"
      if "x \<in> set ps" "y \<in> set qs" for x y
      using valid that by (intro rule_pipeline_of_meaning) simp_all
  qed (simp add: sorted_rule_pipeline_def)
  moreover have "map_option sortCRM (cr_Users r) = map_option sortCRM (cr_Users q) \<longleftrightarrow> set (items (cr_Users r)) = set (items (cr_Users q))"
    "map_option sortCRM (cr_CustomerStatuses r) = map_option sortCRM (cr_CustomerStatuses q) \<longleftrightarrow>
      set (items (cr_CustomerStatuses r)) = set (items (cr_CustomerStatuses q))"
    by (rule crm_sorted; use assms in \<open>simp add: valid_rule_def\<close>)+
  ultimately show ?thesis
    using p by (cases r; cases q) (auto simp: sorted_rule_def rule_meaning_def rule_flags_def)
qed

subsection \<open>Dynamic rules\<close>

lemma customers_of_meaning:
  assumes "valid_customers c" "valid_customers d" "cs_Kind c = cs_Kind d"
  shows "map_option sortCRM (cs_StatusIDs c) = map_option sortCRM (cs_StatusIDs d) \<longleftrightarrow>
    set (items (cs_StatusIDs c)) = set (items (cs_StatusIDs d))"
  using valid_customers_cases[OF assms(1)] valid_customers_cases[OF assms(2)] crm_sorted[of "cs_StatusIDs c" "cs_StatusIDs d"] assms(3)
  by (elim disjE) simp_all

lemma audience_of_meaning:
  assumes "valid_audience ul a" "valid_audience ul b" "as_Kind a = as_Kind b"
  shows "map_option sort (as_EmployeeIDs a) = map_option sort (as_EmployeeIDs b) \<and>
      map_option (sort_key ds_DepartmentID) (as_Departments a) = map_option (sort_key ds_DepartmentID) (as_Departments b) \<longleftrightarrow>
    set (items (as_EmployeeIDs a)) = set (items (as_EmployeeIDs b)) \<and> set (items (as_Departments a)) = set (items (as_Departments b))"
proof -
  have parts: "(as_EmployeeIDs x = None \<longleftrightarrow> as_Kind x = ''allLinked'') \<and> (as_Departments x = None \<longleftrightarrow> as_Kind x = ''allLinked'') \<and>
      distinct (items (as_EmployeeIDs x)) \<and> distinct (map ds_DepartmentID (items (as_Departments x)))"
    if "valid_audience ul x" for x
    using that unfolding valid_audience_def by (elim disjE conjE) simp_all
  have "map_option (sort_key (\<lambda>x. x)) (as_EmployeeIDs a) = map_option (sort_key (\<lambda>x. x)) (as_EmployeeIDs b) \<longleftrightarrow>
      set (items (as_EmployeeIDs a)) = set (items (as_EmployeeIDs b))"
    by (rule sorted_slice) (use parts[OF assms(1)] parts[OF assms(2)] assms(3) in simp_all)
  moreover have "map_option (sort_key ds_DepartmentID) (as_Departments a) = map_option (sort_key ds_DepartmentID) (as_Departments b) \<longleftrightarrow>
      set (items (as_Departments a)) = set (items (as_Departments b))"
    by (rule sorted_slice) (use parts[OF assms(1)] parts[OF assms(2)] assms(3) in \<open>simp_all add: distinct_map\<close>)
  ultimately show ?thesis by simp
qed

lemma leads_of_meaning:
  assumes "valid_leads l" "valid_leads m" "ls_Kind l = ls_Kind m"
  shows "map_option (\<lambda>ps. map sorted_selection (sort_key (\<lambda>p. crm_number (ps_PipelineID p)) ps)) (ls_Pipelines l) =
      map_option (\<lambda>ps. map sorted_selection (sort_key (\<lambda>p. crm_number (ps_PipelineID p)) ps)) (ls_Pipelines m) \<longleftrightarrow>
    selection_meaning ` set (items (ls_Pipelines l)) = selection_meaning ` set (items (ls_Pipelines m))"
proof -
  have parts: "(ls_Pipelines x = None \<longleftrightarrow> ls_Kind x \<noteq> ''selected'') \<and> distinct (map ps_PipelineID (items (ls_Pipelines x))) \<and>
      (\<forall>p\<in>set (items (ls_Pipelines x)). ValidCRMID (ps_PipelineID p) \<and> valid_stages (ps_Stages p))" if "valid_leads x" for x
    using that unfolding valid_leads_def by (elim disjE conjE) (simp_all, cases "ls_Pipelines x", simp_all)
  show ?thesis
  proof (cases "ls_Pipelines l")
    case None
    then have "ls_Pipelines m = None" using parts[OF assms(1)] parts[OF assms(2)] assms(3) by simp
    with None show ?thesis by simp
  next
    case (Some ps)
    then obtain qs where m: "ls_Pipelines m = Some qs"
      using parts[OF assms(1)] parts[OF assms(2)] assms(3) by (cases "ls_Pipelines m") simp_all
    have "map sorted_selection (sort_key (\<lambda>p. crm_number (ps_PipelineID p)) ps) =
        map sorted_selection (sort_key (\<lambda>p. crm_number (ps_PipelineID p)) qs) \<longleftrightarrow> selection_meaning ` set ps = selection_meaning ` set qs"
    proof (rule sorted_records)
      show "distinct (map (\<lambda>p. crm_number (ps_PipelineID p)) ps)" "distinct (map (\<lambda>p. crm_number (ps_PipelineID p)) qs)"
        using parts[OF assms(1)] parts[OF assms(2)] Some m by (simp_all add: crm_keys_distinct)
      show "sorted_selection x = sorted_selection y \<longleftrightarrow> selection_meaning x = selection_meaning y"
        if "x \<in> set ps" "y \<in> set qs" for x y
        using parts[OF assms(1)] parts[OF assms(2)] Some m that by (intro selection_of_meaning) simp_all
    qed (simp add: sorted_selection_def)
    then show ?thesis by (simp add: Some m)
  qed
qed

lemma updated_audience_eq:
  "a\<lparr>as_EmployeeIDs := x, as_Departments := y\<rparr> = b\<lparr>as_EmployeeIDs := x', as_Departments := y'\<rparr> \<longleftrightarrow>
     as_Kind a = as_Kind b \<and> x = x' \<and> y = y'" for a b :: AudienceSelection
  by (cases a; cases b) simp

lemma updated_leads_eq:
  "l\<lparr>ls_Pipelines := p\<rparr> = m\<lparr>ls_Pipelines := p'\<rparr> \<longleftrightarrow> ls_Kind l = ls_Kind m \<and> p = p'" for l m :: LeadSelection
  by (cases l; cases m) simp

lemma updated_customers_eq:
  "c\<lparr>cs_StatusIDs := s\<rparr> = d\<lparr>cs_StatusIDs := s'\<rparr> \<longleftrightarrow> cs_Kind c = cs_Kind d \<and> s = s'" for c d :: CustomerSelection
  by (cases c; cases d) simp

lemma updated_rule_eq:
  "r\<lparr>rv_Name := n, rv_Audience := a, rv_Leads := l, rv_Customers := c\<rparr> =
     q\<lparr>rv_Name := n', rv_Audience := a', rv_Leads := l', rv_Customers := c'\<rparr> \<longleftrightarrow>
   rv_SchemaVersion r = rv_SchemaVersion q \<and> rv_RuleUID r = rv_RuleUID q \<and> n = n' \<and> a = a' \<and> l = l' \<and> c = c' \<and>
   [rv_ShowModal r, rv_DenyExit r, rv_CheckResponsible r, rv_Enabled r, rv_Archived r] =
   [rv_ShowModal q, rv_DenyExit q, rv_CheckResponsible q, rv_Enabled q, rv_Archived q]" for r q :: RuleV2
  by (cases r; cases q) auto

lemma dynamic_of_meaning:
  assumes "valid_dynamic ul r" "valid_dynamic ul q"
  shows "sorted_dynamic r = sorted_dynamic q \<longleftrightarrow> dynamic_meaning r = dynamic_meaning q"
proof -
  have v: "valid_audience ul (rv_Audience r)" "valid_audience ul (rv_Audience q)" "valid_leads (rv_Leads r)" "valid_leads (rv_Leads q)"
    "valid_customers (rv_Customers r)" "valid_customers (rv_Customers q)"
    using assms by (simp_all add: valid_dynamic_def)
  have "sorted_dynamic r = sorted_dynamic q \<longleftrightarrow>
    rv_SchemaVersion r = rv_SchemaVersion q \<and> rv_RuleUID r = rv_RuleUID q \<and> TrimSpace (rv_Name r) = TrimSpace (rv_Name q) \<and>
    (as_Kind (rv_Audience r) = as_Kind (rv_Audience q) \<and>
     map_option sort (as_EmployeeIDs (rv_Audience r)) = map_option sort (as_EmployeeIDs (rv_Audience q)) \<and>
     map_option (sort_key ds_DepartmentID) (as_Departments (rv_Audience r)) = map_option (sort_key ds_DepartmentID) (as_Departments (rv_Audience q))) \<and>
    (ls_Kind (rv_Leads r) = ls_Kind (rv_Leads q) \<and>
     map_option (\<lambda>ps. map sorted_selection (sort_key (\<lambda>p. crm_number (ps_PipelineID p)) ps)) (ls_Pipelines (rv_Leads r)) =
     map_option (\<lambda>ps. map sorted_selection (sort_key (\<lambda>p. crm_number (ps_PipelineID p)) ps)) (ls_Pipelines (rv_Leads q))) \<and>
    (cs_Kind (rv_Customers r) = cs_Kind (rv_Customers q) \<and>
     map_option sortCRM (cs_StatusIDs (rv_Customers r)) = map_option sortCRM (cs_StatusIDs (rv_Customers q))) \<and>
    [rv_ShowModal r, rv_DenyExit r, rv_CheckResponsible r, rv_Enabled r, rv_Archived r] =
    [rv_ShowModal q, rv_DenyExit q, rv_CheckResponsible q, rv_Enabled q, rv_Archived q]"
    unfolding sorted_dynamic_def Let_def
    by (simp only: updated_rule_eq updated_audience_eq updated_leads_eq updated_customers_eq conj_assoc)
  then show ?thesis
    using audience_of_meaning[OF v(1,2)] leads_of_meaning[OF v(3,4)] customers_of_meaning[OF v(5,6)]
    by (simp only: dynamic_meaning_def prod.inject) blast
qed

subsection \<open>The checksum\<close>

lemma intent_of_meaning:
  assumes "valid_intent ul x" "valid_intent ul y"
  shows "sorted_intent x = sorted_intent y \<longleftrightarrow> intent_meaning x = intent_meaning y"
  using assms
  by (auto simp: valid_intent_def sorted_intent_def intent_meaning_def rule_of_meaning dynamic_of_meaning)

lemma sorted_intent_uid: "valid_intent ul x \<Longrightarrow> rule_uid (sorted_intent x) = rule_uid x"
  by (auto simp: valid_intent_def sorted_intent_def rule_uid_def sorted_dynamic_def sorted_rule_def Let_def)

lemma canonical_of_meaning:
  assumes "ValidateIntentRules ul rules = []" "ValidateIntentRules ul rules' = []"
  shows "canonical_intents (items rules) = canonical_intents (items rules') \<longleftrightarrow>
    intent_meaning ` set (items rules) = intent_meaning ` set (items rules')"
proof -
  have valid: "\<forall>x\<in>set (items rules). valid_intent ul x" "\<forall>x\<in>set (items rules'). valid_intent ul x"
    and uids: "distinct (map (intent_uid ul) (items rules))" "distinct (map (intent_uid ul) (items rules'))"
    using assms by (simp_all add: ValidateIntentRules_iff)
  have uid: "valid_intent ul x \<Longrightarrow> rule_uid x = intent_uid ul x" for x
    by (auto simp: valid_intent_def rule_uid_def intent_uid_def)
  define h where "h = (\<lambda>x. if valid_intent ul x then sorted_intent x else x)"
  have "canonical_intents xs = map h (sort_key rule_uid xs)" if "\<forall>x\<in>set xs. valid_intent ul x" for xs
    using that by (simp add: canonical_intents_def h_def)
  moreover have "map h (sort_key rule_uid (items rules)) = map h (sort_key rule_uid (items rules')) \<longleftrightarrow>
      intent_meaning ` set (items rules) = intent_meaning ` set (items rules')"
  proof (rule sorted_records)
    show "distinct (map rule_uid (items rules))" "distinct (map rule_uid (items rules'))"
      using valid uids uid by (simp_all add: distinct_map inj_on_def)
    show "rule_uid (h x) = rule_uid x" for x by (simp add: h_def sorted_intent_uid)
    show "h x = h y \<longleftrightarrow> intent_meaning x = intent_meaning y" if "x \<in> set (items rules)" "y \<in> set (items rules')" for x y
      using valid that intent_of_meaning[of ul x y] by (simp add: h_def)
  qed
  ultimately show ?thesis using valid by simp
qed

lemma sorted_intent_encoded: "valid_intent ul x \<Longrightarrow> \<exists>v. encode_intent (sorted_intent x) = Some v"
  by (auto simp: valid_intent_def sorted_intent_def encode_intent_def)

lemma encoded_all: "\<forall>x\<in>set xs. \<exists>v. encode_intent x = Some v \<Longrightarrow> \<exists>v. encode_intents xs = Some v"
  using those_opt_map[of xs encode_intent "\<lambda>x. the (encode_intent x)"] by (force simp: encode_intents_def)

text \<open>(C30) What is written is read back: validated intents whose names are UTF-8 are written as a text.
  If the text has no more than 1 MiB and the library reads back the value it has written, \<^verbatim>\<open>ParseIntentRules\<close>
  returns the same intents, every field of every selection included, whether the rules are dynamic or
  explicit; a longer text of valid intents it refuses.\<close>

theorem intents_read_back:
  assumes "ValidateIntentRules ul rules = []" "\<forall>r\<in>set (items rules). utf8_names r"
    and "\<And>u. validUUID ul u \<Longrightarrow> canonical_uuid lib u"
  shows "\<exists>v. encode_intents (items rules) = Some v \<and>
    (length (json_marshal True v) \<le> IntentMaxBytes \<longrightarrow> read (json_marshal True v) = Some (reread v) \<longrightarrow>
       ParseIntentRules ul lib read (json_marshal True v) = Some rules) \<and>
    (length (json_marshal True v) > IntentMaxBytes \<longrightarrow> ParseIntentRules ul lib read (json_marshal True v) = None)"
proof -
  have valid: "\<forall>r\<in>set (items rules). valid_intent ul r \<and> utf8_names r" and "rules = Some (items rules)"
    using assms(1,2) by (auto simp: ValidateIntentRules_iff)
  with intents_copied[OF valid assms(3)] assms(1) show ?thesis by (auto simp: ParseIntentRules_def)
qed

text \<open>(C31) The checksum of validated intents exists, and it depends on nothing but what they mean: the
  canonical form whose JSON text is hashed is the same exactly for lists with the same rules, whatever the
  order of rules, employees, departments, pipelines and stages and the space around the names.\<close>

theorem IntentChecksum_of_meaning:
  assumes "ValidateIntentRules ul rules = []" "ValidateIntentRules ul rules' = []"
    and "\<forall>r\<in>set (items rules) \<union> set (items rules'). utf8_names r"
    and "\<And>u. validUUID ul u \<Longrightarrow> canonical_uuid lib u"
  shows "(canonical_intents (items rules) = canonical_intents (items rules') \<longleftrightarrow>
      intent_meaning ` set (items rules) = intent_meaning ` set (items rules')) \<and>
    (\<exists>v. encode_intents (canonical_intents (items rules)) = Some v \<and>
      IntentChecksum ul lib sha256 rules = Some (sha256 (JSON_stringify (sorted_fields (reread v))))) \<and>
    (intent_meaning ` set (items rules) = intent_meaning ` set (items rules') \<longrightarrow>
      IntentChecksum ul lib sha256 rules = IntentChecksum ul lib sha256 rules')"
proof -
  have run: "\<exists>v. encode_intents (canonical_intents (items rs)) = Some v \<and>
      IntentChecksum ul lib sha256 rs = Some (sha256 (canonicalJSON (reread v)))"
    if rs: "ValidateIntentRules ul rs = []" "\<forall>r\<in>set (items rs). utf8_names r" for rs
  proof -
    have valid: "\<forall>r\<in>set (items rs). valid_intent ul r \<and> utf8_names r" using rs by (simp add: ValidateIntentRules_iff)
    then have "\<exists>v. encode_intents (canonical_intents (items rs)) = Some v"
      by (intro encoded_all) (auto simp: canonical_intents_def sorted_intent_encoded)
    with intents_copied[OF valid assms(4)] rs(1) show ?thesis by (auto simp: IntentChecksum_def)
  qed
  have order: "canonical_intents (items rules) = canonical_intents (items rules') \<longleftrightarrow>
      intent_meaning ` set (items rules) = intent_meaning ` set (items rules')"
    by (rule canonical_of_meaning[OF assms(1,2)])
  obtain v v' where "encode_intents (canonical_intents (items rules)) = Some v"
    "IntentChecksum ul lib sha256 rules = Some (sha256 (canonicalJSON (reread v)))"
    "encode_intents (canonical_intents (items rules')) = Some v'"
    "IntentChecksum ul lib sha256 rules' = Some (sha256 (canonicalJSON (reread v')))"
    using run[OF assms(1)] run[OF assms(2)] assms(3) by auto
  with order show ?thesis by (auto simp: canonicalJSON_text JSON_stringify_def)
qed

definition json_example :: json_lib where
  "json_example = \<lparr>jl_parse = Some, jl_nil = ''nil'', jl_fold = (\<lambda>s. s)\<rparr>"

definition uuid_ascii :: uuid_lib where
  "uuid_ascii = \<lparr>ul_Nil = ''nil'', ul_Version = (\<lambda>_. 4), ul_RFC4122 = list_all ascii\<rparr>"

lemma json_example_canonical: "validUUID uuid_ascii u \<Longrightarrow> canonical_uuid json_example u"
  by (simp add: validUUID_def uuid_ascii_def canonical_uuid_def json_example_def ToValidUTF8_ascii)

lemma intents_example_ascii:
  "ValidateIntentRules uuid_ascii intents_example = []" "\<forall>r\<in>set (items intents_example). utf8_names r"
proof -
  show "ValidateIntentRules uuid_ascii intents_example = []"
    by (simp add: ValidateIntentRules_iff intents_example_def valid_intent_def dynamic_example_def valid_dynamic_def
        valid_audience_def valid_leads_def valid_stages_def valid_customers_def crm_list_def uuid_ascii_def
        validUUID_def intent_uid_def example_names example_ids_valid ascii_def)
  have "ToValidUTF8 ''A'' = ''A''" by (rule ToValidUTF8_ascii) (simp add: ascii_def)
  then show "\<forall>r\<in>set (items intents_example). utf8_names r"
    by (simp add: intents_example_def utf8_names_def dynamic_example_def)
qed

text \<open>A library that reads one text.\<close>

definition example_text_read :: "string \<Rightarrow> json option" where
  "example_text_read =
     (case encode_intents (items intents_example) of
        None \<Rightarrow> Map.empty
      | Some v \<Rightarrow> [json_marshal True v \<mapsto> reread v])"

lemma example_text_short:
  assumes "encode_intents (items intents_example) = Some v"
  shows "length (json_marshal True v) \<le> IntentMaxBytes"
proof -
  have "case encode_intents (items intents_example) of None \<Rightarrow> True | Some v \<Rightarrow> drop 600 (json_marshal True v) = []"
    by code_simp
  with assms have "length (json_marshal True v) \<le> 600" by simp
  then show ?thesis by (simp add: IntentMaxBytes_def)
qed

theorem intents_read_back_witness:
  "\<exists>v. encode_intents (items intents_example) = Some v \<and>
     ParseIntentRules uuid_ascii json_example example_text_read (json_marshal True v) = Some intents_example"
  using intents_read_back[OF intents_example_ascii json_example_canonical, of example_text_read] example_text_short
  by (auto simp: example_text_read_def)

theorem IntentChecksum_of_meaning_witness:
  "\<exists>v. IntentChecksum uuid_ascii json_example digest_example intents_example =
     Some (digest_example (JSON_stringify (sorted_fields (reread v))))"
  using IntentChecksum_of_meaning[OF intents_example_ascii(1) intents_example_ascii(1) _ json_example_canonical, of digest_example]
    intents_example_ascii(2) by auto

end
