(* ===== verification/Base64.thy ===== *)
theory Base64
  imports Strconv Token_Mutation
begin

section \<open>Reading base64\<close>

text \<open>
  The decoder of \<^verbatim>\<open>base64.RawURLEncoding\<close>, of which \<open>Token_Mutation\<close> has the encoder, and that it reads back
  what the encoder writes. The tokens of the core service and of amoCRM are read with it.
\<close>

subsection \<open>RawURLEncoding.DecodeString\<close>

definition url_index :: "char \<Rightarrow> nat option" where
  "url_index c = map_of (zip url_alphabet [0..<64]) c"

text \<open>The decoder skips line ends and takes no notice of the unused bits of a last group.\<close>

fun decode_groups :: "nat list \<Rightarrow> bytes option" where
  "decode_groups [] = Some []"
| "decode_groups [a] = None"
| "decode_groups [a, b] = Some [word_of_nat (a * 4 + b div 16)]"
| "decode_groups [a, b, c] = Some [word_of_nat (a * 4 + b div 16), word_of_nat (b mod 16 * 16 + c div 4)]"
| "decode_groups (a # b # c # d # rest) =
     map_option (\<lambda>bs. word_of_nat (a * 4 + b div 16) # word_of_nat (b mod 16 * 16 + c div 4) #
        word_of_nat (c mod 4 * 64 + d) # bs) (decode_groups rest)"

fun url_indices :: "string \<Rightarrow> nat list option" where
  "url_indices [] = Some []"
| "url_indices (c # s) =
     (case url_index c of
        None \<Rightarrow> None
      | Some i \<Rightarrow> map_option ((#) i) (url_indices s))"

definition RawURLDecoding :: "string \<Rightarrow> bytes option" where
  "RawURLDecoding s =
     Option.bind (url_indices (filter (\<lambda>c. c \<noteq> CHR 0x0A \<and> c \<noteq> CHR 0x0D) s)) decode_groups"

lemma url_index_char [simp]: "url_index (url_char n) = Some (n mod 64)"
proof -
  have "distinct url_alphabet" by code_simp
  moreover have "length url_alphabet = 64" by (simp add: url_alphabet_def)
  ultimately have "map_of (zip url_alphabet [0..<64]) (url_alphabet ! (n mod 64)) = Some ([0..<64] ! (n mod 64))"
    by (intro map_of_zip_nth) simp_all
  then show ?thesis by (simp add: url_index_def url_char_def)
qed

lemma url_char_in: "url_char n \<in> set url_alphabet"
  unfolding url_char_def by (rule nth_mem) (simp add: url_alphabet_def)

lemma url_char_plain: "url_char n \<noteq> CHR 0x0A" "url_char n \<noteq> CHR 0x0D" "url_char n \<noteq> CHR ''.''"
  using url_char_in[of n] by (auto simp: url_alphabet_def)

lemma RawURLEncoding_plain: "c \<in> set (RawURLEncoding bs) \<Longrightarrow> c \<noteq> CHR 0x0A \<and> c \<noteq> CHR 0x0D \<and> c \<noteq> CHR ''.''"
  by (induction bs rule: RawURLEncoding.induct) (auto simp: url_char_plain)

text \<open>Every byte is split into two parts that the decoder puts together.\<close>

lemma byte_less: "unat (a :: 8 word) < 256"
  using unsigned_less[of a, where ?'a = nat] by simp

lemma word_of_nat_unat: "n = unat a \<Longrightarrow> word_of_nat n = (a :: 8 word)"
  by simp

lemma first_byte: "word_of_nat ((unat a div 4) mod 64 * 4 + (unat a mod 4 * 16 + k) mod 64 div 16) = (a :: 8 word)" if "k < 16"
proof -
  have "unat a < 256" by (rule byte_less)
  then have "(unat a div 4) mod 64 = unat a div 4" by simp
  moreover have "(unat a mod 4 * 16 + k) mod 64 div 16 = unat a mod 4" using that by simp
  ultimately have "(unat a div 4) mod 64 * 4 + (unat a mod 4 * 16 + k) mod 64 div 16 = unat a" by simp
  then show ?thesis by (rule word_of_nat_unat)
qed

lemma second_byte:
  "word_of_nat ((h * 16 + unat b div 16) mod 64 mod 16 * 16 + (unat b mod 16 * 4 + k) mod 64 div 4) = (b :: 8 word)" if "k < 4"
proof -
  have b: "unat b < 256" by (rule byte_less)
  have "(h * 16 + unat b div 16) mod 64 mod 16 = unat b div 16" using b by (simp add: mod_mod_cancel)
  moreover have "(unat b mod 16 * 4 + k) mod 64 div 4 = unat b mod 16" using that by simp
  ultimately have "(h * 16 + unat b div 16) mod 64 mod 16 * 16 + (unat b mod 16 * 4 + k) mod 64 div 4 = unat b" by simp
  then show ?thesis by (rule word_of_nat_unat)
qed

lemma third_byte: "word_of_nat ((h * 4 + unat c div 64) mod 64 mod 4 * 64 + unat c mod 64 mod 64) = (c :: 8 word)"
proof -
  have c: "unat c < 256" by (rule byte_less)
  have "(h * 4 + unat c div 64) mod 64 mod 4 = unat c div 64" using c by (simp add: mod_mod_cancel)
  then have "(h * 4 + unat c div 64) mod 64 mod 4 * 64 + unat c mod 64 mod 64 = unat c" by simp
  then show ?thesis by (rule word_of_nat_unat)
qed

lemma decode_encoded: "Option.bind (url_indices (RawURLEncoding bs)) decode_groups = Some bs"
proof (induction bs rule: RawURLEncoding.induct)
  case (2 a)
  then show ?case using first_byte[of 0 a] by simp
next
  case (3 a b)
  have "unat b div 16 < 16" using byte_less[of b] by simp
  then show ?case using first_byte[of "unat b div 16" a] second_byte[of 0 "unat a mod 4" b] by simp
next
  case (4 a b c rest)
  then obtain rest_ids where "url_indices (RawURLEncoding rest) = Some rest_ids" "decode_groups rest_ids = Some rest"
    by (cases "url_indices (RawURLEncoding rest)") auto
  moreover have "unat b div 16 < 16" "unat c div 64 < 4"
    using byte_less[of b] byte_less[of c] by simp_all
  ultimately show ?case
    using first_byte[of "unat b div 16" a] second_byte[of "unat c div 64" "unat a mod 4" b] third_byte[of "unat b mod 16" c]
    by simp
qed simp

lemma RawURL_roundtrip: "RawURLDecoding (RawURLEncoding bs) = Some bs"
proof -
  have "filter (\<lambda>c. c \<noteq> CHR 0x0A \<and> c \<noteq> CHR 0x0D) (RawURLEncoding bs) = RawURLEncoding bs"
    using RawURLEncoding_plain by (auto simp: filter_id_conv)
  then show ?thesis by (simp add: RawURLDecoding_def decode_encoded)
qed

end
