(* ===== verification/Control_Assertion.thy ===== *)
theory Control_Assertion
  imports Base64 Control_Reference
begin

section \<open>Task control: assertions of the core and installations\<close>

text \<open>
  The rest of \<^verbatim>\<open>services/company/internal/domain/taskcontrol/model.go\<close>: \<^verbatim>\<open>Verify\<close> reads the assertion the
  core service signs for one request, a key identifier, a body and a signature joined by dots, and
  checks its claims; \<^verbatim>\<open>Installation.Valid\<close> checks what the core says of an installation.

  Ed25519, the reading of the claims from JSON and \<^verbatim>\<open>uuid.Parse\<close> are parameters. The keys are the map
  of the caller. \<^verbatim>\<open>int64\<close> subtraction wraps around, which the check of the lifetime can be made to do.
\<close>

subsection \<open>Assertions\<close>

record Assertion =
  at_Audience :: string
  at_ID :: string
  at_IssuedAt :: int
  at_ExpiresAt :: int
  at_CompanyID :: ID
  at_InstallationID :: ID
  at_IntegrationID :: ID
  at_AccountID :: string
  at_ActorID :: string
  at_Product :: string
  at_Generation :: int
  at_Admin :: bool
  at_Purpose :: string
  at_RequestID :: ID

record assertion_lib =
  al_verify :: "bytes \<Rightarrow> string \<Rightarrow> bytes \<Rightarrow> bool"
  al_claims :: "bytes \<Rightarrow> Assertion option"
  al_parse :: "string \<Rightarrow> ID option"
  al_nil :: ID

text \<open>Seconds since 1970; the zero time is 62135596800 seconds before.\<close>

definition Unix :: "time \<Rightarrow> int" where
  "Unix t = t div second - 62135596800"

definition valid_claims :: "assertion_lib \<Rightarrow> Assertion \<Rightarrow> time \<Rightarrow> bool" where
  "valid_claims lib a now =
     (\<not> (al_parse lib (at_ID a) = None \<or> al_parse lib (at_ID a) = Some (al_nil lib) \<or>
         at_CompanyID a = al_nil lib \<or> at_InstallationID a = al_nil lib \<or> at_IntegrationID a = al_nil lib \<or>
         at_RequestID a = al_nil lib \<or> at_Audience a \<noteq> ''teamos-task-control'' \<or> at_Product a \<noteq> Product \<or>
         \<not> ValidCRMID (at_AccountID a) \<or> \<not> ValidCRMID (at_ActorID a) \<or> at_Generation a \<le> 0 \<or>
         at_ExpiresAt a \<le> Unix now \<or> at_IssuedAt a > wrap64 (Unix now + 5) \<or> at_ExpiresAt a \<le> at_IssuedAt a \<or>
         wrap64 (at_ExpiresAt a - at_IssuedAt a) > 60 \<or>
         (at_Purpose a \<noteq> ''runtime'' \<and> at_Purpose a \<noteq> ''link'' \<and> at_Purpose a \<noteq> ''revoke'' \<and>
          at_Purpose a \<noteq> ''mode'' \<and> at_Purpose a \<noteq> ''adminBridge'')))"

definition signed_text :: "string \<Rightarrow> string \<Rightarrow> string" where
  "signed_text kid body = ''teamos-task-control/v1'' @ [CHR 0x0A] @ kid @ ''.'' @ body"

definition Verify :: "assertion_lib \<Rightarrow> (string \<rightharpoonup> bytes) \<Rightarrow> time \<Rightarrow> string \<Rightarrow> (Assertion \<times> string) option" where
  "Verify lib keys now raw =
     (if length raw > 8192 then None
      else case Split (CHR ''.'') raw of
        [kid, body, sig] \<Rightarrow>
          let key = (case keys kid of None \<Rightarrow> [] | Some k \<Rightarrow> k) in
          (case RawURLDecoding sig of
             None \<Rightarrow> None
           | Some signature \<Rightarrow>
               if length key \<noteq> 32 \<or> \<not> al_verify lib key (signed_text kid body) signature then None
               else case Option.bind (RawURLDecoding body) (al_claims lib) of
                   None \<Rightarrow> None
                 | Some a \<Rightarrow> if valid_claims lib a now then Some (a, kid) else None)
      | _ \<Rightarrow> None)"

subsection \<open>Installations\<close>

record Installation =
  in_RuntimeVersion :: string
  in_RuntimeCapabilities :: "string list"
  in_CompanyID :: ID
  in_AccountID :: string
  in_InstallationID :: "ID option"
  in_IntegrationID :: "ID option"
  in_Product :: string
  in_State :: string
  in_Revision :: int
  in_Generation :: int
  in_CheckedAt :: time
  in_FreshUntil :: time
  in_ReasonCode :: string

definition Installation_Valid :: "uuid_lib \<Rightarrow> Installation \<Rightarrow> ID \<Rightarrow> string \<Rightarrow> time \<Rightarrow> bool" where
  "Installation_Valid ul s company account now =
     (if in_CompanyID s \<noteq> company \<or> in_AccountID s \<noteq> account \<or> in_Product s \<noteq> Product \<or>
         (in_State s \<noteq> ''installed'' \<and> in_State s \<noteq> ''notInstalled'' \<and> in_State s \<noteq> ''unknown'') \<or>
         After (in_CheckedAt s) (now + 5 * second) \<or> \<not> After (in_FreshUntil s) now \<or>
         Time_Sub (in_FreshUntil s) (in_CheckedAt s) > 5 * Minute
      then False
      else in_State s \<noteq> ''installed'' \<or>
         (in_InstallationID s \<noteq> None \<and> in_InstallationID s \<noteq> Some (ul_Nil ul) \<and>
          in_IntegrationID s \<noteq> None \<and> in_IntegrationID s \<noteq> Some (ul_Nil ul) \<and>
          in_Revision s > 0 \<and> in_Generation s > 0))"

subsection \<open>Properties\<close>

definition assertion_text :: "string \<Rightarrow> bytes \<Rightarrow> bytes \<Rightarrow> string" where
  "assertion_text kid body signature = kid @ ''.'' @ RawURLEncoding body @ ''.'' @ RawURLEncoding signature"

lemma Split_assertion:
  "CHR ''.'' \<notin> set kid \<Longrightarrow>
     Split (CHR ''.'') (assertion_text kid body signature) = [kid, RawURLEncoding body, RawURLEncoding signature]"
proof -
  assume kid: "CHR ''.'' \<notin> set kid"
  have "CHR ''.'' \<notin> set (RawURLEncoding bs)" for bs using RawURLEncoding_plain by blast
  with kid show ?thesis by (simp add: assertion_text_def Split_join Split_plain)
qed

text \<open>(C32) What the core issues is read back: of a text put together from a key identifier, the encoded
  claims and their encoded signature, \<^verbatim>\<open>Verify\<close> returns exactly the claims and the identifier, and it
  does so exactly if the key is known, the signature is the key's over this identifier and body, and
  the claims are valid at the moment.\<close>

theorem Verify_reads_issued:
  assumes "CHR ''.'' \<notin> set kid" "length (assertion_text kid body signature) \<le> 8192"
  shows "Verify lib keys now (assertion_text kid body signature) = Some (a, k) \<longleftrightarrow>
     k = kid \<and> (\<exists>key. keys kid = Some key \<and> length key = 32 \<and>
       al_verify lib key (signed_text kid (RawURLEncoding body)) signature) \<and>
     al_claims lib body = Some a \<and> valid_claims lib a now"
proof -
  have "length (assertion_text kid body signature) > 8192 \<longleftrightarrow> False" using assms(2) by simp
  then show ?thesis
    by (auto simp: Verify_def Split_assertion[OF assms(1)] RawURL_roundtrip split: option.splits)
qed

text \<open>(C33) The times an assertion may have, its other claims being valid: it has not expired, was issued at
  most five seconds in the future, ends after it was issued, and lives at most a minute, or else at least
  \<open>2 ^ 63\<close> seconds, for which the subtraction of the check wraps around. No such life begins after 1970, so
  an accepted assertion issued since then ends at most 65 seconds from now.\<close>

theorem assertion_lifetime:
  assumes "valid_claims lib a now" "in_int64 (Unix now + 5)" "in_int64 i" "in_int64 e"
  shows "(valid_claims lib (a\<lparr>at_IssuedAt := i, at_ExpiresAt := e\<rparr>) now \<longleftrightarrow>
       Unix now < e \<and> i \<le> Unix now + 5 \<and> i < e \<and> (e - i \<le> 60 \<or> 2 ^ 63 \<le> e - i)) \<and>
    (valid_claims lib (a\<lparr>at_IssuedAt := i, at_ExpiresAt := e\<rparr>) now \<and> 0 \<le> i \<longrightarrow> e - i \<le> 60 \<and> e \<le> Unix now + 65)"
proof -
  have wraps: "wrap64 (e - i) \<le> 60 \<longleftrightarrow> e - i \<le> 60 \<or> 2 ^ 63 \<le> e - i" if "i < e"
  proof (cases "2 ^ 63 \<le> e - i")
    case True
    have "(e - i + 2 ^ 63) mod 2 ^ 64 = (e - i + 2 ^ 63 - 2 ^ 64) mod 2 ^ 64" by (rule minus_mod_self2[symmetric])
    also have "\<dots> = e - i + 2 ^ 63 - 2 ^ 64"
      using True assms(3,4) by (intro mod_pos_pos_trivial) (simp_all add: in_int64_def min_int64_def max_int64_def)
    finally have "wrap64 (e - i) = e - i - 2 ^ 64" by (simp add: wrap64_def)
    with True assms(3,4) show ?thesis by (auto simp: in_int64_def min_int64_def max_int64_def)
  next
    case False
    with that have "in_int64 (e - i)" by (simp add: in_int64_def min_int64_def max_int64_def)
    with False show ?thesis by simp
  qed
  have "valid_claims lib (a\<lparr>at_IssuedAt := i, at_ExpiresAt := e\<rparr>) now \<longleftrightarrow>
      Unix now < e \<and> i \<le> Unix now + 5 \<and> i < e \<and> wrap64 (e - i) \<le> 60"
    using assms(1,2) by (auto simp: valid_claims_def)
  with wraps have exact: "valid_claims lib (a\<lparr>at_IssuedAt := i, at_ExpiresAt := e\<rparr>) now \<longleftrightarrow>
      Unix now < e \<and> i \<le> Unix now + 5 \<and> i < e \<and> (e - i \<le> 60 \<or> 2 ^ 63 \<le> e - i)" by blast
  moreover have "\<not> 2 ^ 63 \<le> e - i" if "0 \<le> i" using assms(4) that by (simp add: in_int64_def max_int64_def)
  ultimately show ?thesis by auto
qed

definition claims_example :: Assertion where
  "claims_example =
     \<lparr>at_Audience = ''teamos-task-control'', at_ID = ''j1'', at_IssuedAt = 100, at_ExpiresAt = 160, at_CompanyID = ''c1'',
      at_InstallationID = ''n1'', at_IntegrationID = ''i1'', at_AccountID = ''5'', at_ActorID = ''7'', at_Product = Product,
      at_Generation = 1, at_Admin = False, at_Purpose = ''runtime'', at_RequestID = ''q1''\<rparr>"

definition assertion_lib_example :: assertion_lib where
  "assertion_lib_example =
     \<lparr>al_verify = (\<lambda>key text sig. sig = key), al_claims = (\<lambda>body. if body = [1] then Some claims_example else None),
      al_parse = Some, al_nil = ''nil''\<rparr>"

definition now_example :: time where
  "now_example = (62135596800 + 110) * second"

lemma claims_example_valid: "valid_claims assertion_lib_example claims_example now_example"
  by (simp add: valid_claims_def assertion_lib_example_def claims_example_def now_example_def Unix_def second_def
      example_ids_valid in_int64_def min_int64_def max_int64_def)

theorem Verify_reads_issued_witness:
  "Verify assertion_lib_example [''k'' \<mapsto> replicate 32 0] now_example (assertion_text ''k'' [1] (replicate 32 0)) =
     Some (claims_example, ''k'')"
proof -
  have "length (assertion_text ''k'' [1] (replicate 32 0)) \<le> 8192"
    by (simp add: assertion_text_def length_RawURLEncoding)
  then show ?thesis
    using Verify_reads_issued[of "''k''" "[1]" "replicate 32 0" assertion_lib_example "[''k'' \<mapsto> replicate 32 0]"
        now_example claims_example "''k''"] claims_example_valid
    by (simp add: assertion_lib_example_def)
qed

theorem assertion_lifetime_witness:
  "\<not> valid_claims assertion_lib_example (claims_example\<lparr>at_IssuedAt := - (10 ^ 15), at_ExpiresAt := 200\<rparr>) now_example \<and>
   valid_claims assertion_lib_example (claims_example\<lparr>at_IssuedAt := min_int64, at_ExpiresAt := 10 ^ 18\<rparr>) now_example"
  using assertion_lifetime[OF claims_example_valid, of "- (10 ^ 15)" 200]
    assertion_lifetime[OF claims_example_valid, of min_int64 "10 ^ 18"]
  by (simp add: now_example_def Unix_def second_def in_int64_def min_int64_def max_int64_def)

end
