(* ===== verification/Json_Inverse.thy ===== *)
theory Json_Inverse
  imports Control_Codec
begin

section \<open>JSON text determines the value\<close>

text \<open>
  The text \<^verbatim>\<open>JSON.stringify\<close> and the canonical encoder write determines the value that is read back from
  it. The proof has the decoder of a quoted string; around the strings the text is prefix-free. A checksum of
  such a text is therefore a checksum of the value: two values with one checksum are the same or
  their texts are a collision of the hash.
\<close>

subsection \<open>Strings\<close>

definition hex_value :: "char \<Rightarrow> nat" where
  "hex_value c = (let b = of_char c in if b < 58 then b - 48 else b - 87)"

definition escaped_char :: "char \<Rightarrow> char" where
  "escaped_char c =
     (if c = CHR ''b'' then CHR 0x08 else if c = CHR ''f'' then CHR 0x0C else if c = CHR ''n'' then CHR 0x0A
      else if c = CHR ''r'' then CHR 0x0D else if c = CHR ''t'' then CHR 0x09 else c)"

definition replacement :: string where "replacement = [CHR 0xEF, CHR 0xBF, CHR 0xBD]"

text \<open>A body up to its closing quote.\<close>

function read_body :: "string \<Rightarrow> string \<times> string" where
  "read_body s =
     (case s of
        [] \<Rightarrow> ([], [])
      | c # t \<Rightarrow>
          if c = quote then ([], t)
          else if c \<noteq> backslash then apfst ((#) c) (read_body t)
          else if prefix ''ufffd'' t then apfst ((@) replacement) (read_body (drop 5 t))
          else if prefix ''u00'' t
          then apfst ((#) (char_of (hex_value (t ! 3) * 16 + hex_value (t ! 4)))) (read_body (drop 5 t))
          else apfst ((#) (escaped_char (hd t))) (read_body (tl t)))"
  by pat_completeness auto
termination by (relation "measure length") auto

declare read_body.simps [simp del]

definition shown :: "string \<Rightarrow> string" where
  "shown r = (case r of [c] \<Rightarrow> if ascii c then r else replacement | _ \<Rightarrow> r)"

lemma ToValidUTF8_shown: "ToValidUTF8 s = concat (map shown (runes s))"
  unfolding ToValidUTF8_def shown_def[abs_def] replacement_def ..

lemma read_plain: "quote \<notin> set p \<Longrightarrow> backslash \<notin> set p \<Longrightarrow> read_body (p @ t) = apfst ((@) p) (read_body t)"
proof (induction p)
  case (Cons c p)
  then have "c \<noteq> quote" "c \<noteq> backslash" by auto
  then have "read_body (c # p @ t) = apfst ((#) c) (read_body (p @ t))"
    by (subst read_body.simps) (simp only: list.case if_True if_False simp_thms)
  with Cons show ?case by (cases "read_body t") auto
qed (cases "read_body t", simp)

lemma hex_value_digit: "d < 16 \<Longrightarrow> hex_value (hex_digit d) = d"
  by (simp add: hex_value_def hex_digit_def Let_def)

lemma read_control:
  assumes "(of_char c :: nat) < 0x20"
  shows "read_body (backslash # ''u00'' @ [hex_digit (of_char c div 16), hex_digit (of_char c mod 16)] @ t) =
     apfst ((#) c) (read_body t)"
proof -
  have "(of_char c :: nat) div 16 < 16" using assms by simp
  then have "char_of (hex_value (hex_digit (of_char c div 16)) * 16 + hex_value (hex_digit (of_char c mod 16))) = c"
    by (simp add: hex_value_digit)
  then show ?thesis by (subst read_body.simps) simp
qed

lemma read_escaped:
  "x \<noteq> CHR ''u'' \<Longrightarrow> read_body (backslash # x # t) = apfst ((#) (escaped_char x)) (read_body t)"
  by (subst read_body.simps) (auto simp: prefix_def)

lemma read_replaced: "read_body (backslash # ''ufffd'' @ t) = apfst ((@) replacement) (read_body t)"
  by (subst read_body.simps) simp

lemma char_of_code: "(of_char c :: nat) = n \<Longrightarrow> c = char_of n"
  by auto

lemma control_codes:
  "char_of (8 :: nat) = CHR 0x08" "char_of (12 :: nat) = CHR 0x0C" "char_of (10 :: nat) = CHR 0x0A"
  "char_of (13 :: nat) = CHR 0x0D" "char_of (9 :: nat) = CHR 0x09"
  by code_simp+

lemma read_rune:
  assumes "r \<in> set (runes s)"
  shows "read_body (json_escape False (\<lambda>_. True) r @ t) = apfst ((@) (shown r)) (read_body t)"
proof (cases "\<exists>c. r = [c]")
  case False
  then have high: "\<forall>c\<in>set r. \<not> ascii c" and "r \<noteq> []" using assms runes_shape runes_ne by blast+
  with False obtain c d u where r: "r = c # d # u" by (metis list.exhaust)
  then have "json_escape False (\<lambda>_. True) r = r" "shown r = r" by (auto simp: json_escape_def shown_def)
  then show ?thesis using high by (auto intro!: read_plain)
next
  case True
  then obtain c where r: "r = [c]" by blast
  have sep: "[c] \<noteq> line_separator" "[c] \<noteq> paragraph_separator"
    by (simp_all add: line_separator_def paragraph_separator_def)
  define b where "b = (of_char c :: nat)"
  have codes: "b = 8 \<Longrightarrow> c = CHR 0x08" "b = 12 \<Longrightarrow> c = CHR 0x0C" "b = 10 \<Longrightarrow> c = CHR 0x0A"
    "b = 13 \<Longrightarrow> c = CHR 0x0D" "b = 9 \<Longrightarrow> c = CHR 0x09"
    unfolding b_def by (auto dest!: char_of_code simp: control_codes)
  consider "\<not> ascii c" | "ascii c" "c = quote \<or> c = backslash"
    | "ascii c" "c \<noteq> quote" "c \<noteq> backslash" "b \<in> {8, 12, 10, 13, 9}"
    | "ascii c" "c \<noteq> quote" "c \<noteq> backslash" "b \<notin> {8, 12, 10, 13, 9}" "b < 0x20"
    | "ascii c" "c \<noteq> quote" "c \<noteq> backslash" "\<not> b < 0x20" by force
  then show ?thesis
  proof cases
    case 1
    with sep show ?thesis using read_replaced[of t] by (simp add: r json_escape_def shown_def)
  next
    case 2
    then have "c \<noteq> CHR ''u''" "escaped_char c = c" by (auto simp: quote_def backslash_def escaped_char_def)
    with 2 sep show ?thesis using read_escaped[of c t] by (auto simp: r json_escape_def shown_def)
  next
    case 3
    then show ?thesis using sep codes
      by (auto simp: r json_escape_def shown_def b_def[symmetric] read_escaped escaped_char_def)
  next
    case 4
    then show ?thesis using sep read_control[of c t]
      by (simp add: r json_escape_def shown_def b_def Let_def)
  next
    case 5
    then have "read_body ([c] @ t) = apfst ((@) [c]) (read_body t)" by (intro read_plain) auto
    with 5 sep show ?thesis by (auto simp: r json_escape_def shown_def b_def)
  qed
qed

lemma read_json_body: "read_body (json_body False (\<lambda>_. True) s @ quote # t) = (ToValidUTF8 s, t)"
proof -
  have "read_body (concat (map (json_escape False (\<lambda>_. True)) rs) @ quote # t) = (concat (map shown rs), t)"
    if "set rs \<subseteq> set (runes s)" for rs
    using that
  proof (induction rs)
    case Nil
    show ?case by (subst read_body.simps) simp
  qed (auto simp: read_rune)
  then show ?thesis by (simp add: json_body_def ToValidUTF8_shown)
qed

lemma quoted_inject:
  assumes "json_quoted False (\<lambda>_. True) s @ t = json_quoted False (\<lambda>_. True) s' @ t'"
  shows "ToValidUTF8 s = ToValidUTF8 s' \<and> t = t'"
  using assms read_json_body[of s t] read_json_body[of s' t'] by (simp add: json_quoted_def)

subsection \<open>Values\<close>

definition number_char :: "char \<Rightarrow> bool" where
  "number_char c \<longleftrightarrow> c \<in> set ''0123456789+-.eE''"

definition number_text :: "string \<Rightarrow> bool" where
  "number_text n \<longleftrightarrow> n \<noteq> [] \<and> list_all number_char n \<and> hd n \<noteq> CHR ''e''"

fun numbers_ok :: "json \<Rightarrow> bool" where
  "numbers_ok (JNumber n) \<longleftrightarrow> number_text n"
| "numbers_ok (JArray vs) \<longleftrightarrow> (\<forall>v\<in>set vs. numbers_ok v)"
| "numbers_ok (JObject fs) \<longleftrightarrow> (\<forall>(k, v)\<in>set fs. numbers_ok v)"
| "numbers_ok v \<longleftrightarrow> True"

text \<open>What may follow a value.\<close>

definition delimited :: "string \<Rightarrow> bool" where
  "delimited r \<longleftrightarrow> r = [] \<or> hd r \<in> set '',]}''"

abbreviation "stringified \<equiv> json_text False (\<lambda>_. True)"

lemma delimited_simps [simp]:
  "delimited []" "delimited (CHR '','' # r)" "delimited (CHR '']'' # r)" "delimited (CHR ''}'' # r)"
  by (simp_all add: delimited_def)

lemma number_inject:
  assumes "list_all number_char n" "list_all number_char m" "delimited r" "delimited r'" "n @ r = m @ r'"
  shows "n = m \<and> r = r'"
  using assms
proof (induction n arbitrary: m)
  case Nil
  then show ?case by (cases m) (auto simp: delimited_def number_char_def)
next
  case (Cons c n)
  show ?case
  proof (cases m)
    case Nil
    then have "r' = c # n @ r" using Cons.prems(5) by simp
    with Cons.prems(1,4) show ?thesis by (auto simp: delimited_def number_char_def)
  next
    case (Cons d m')
    with Cons.prems Cons.IH[of m'] show ?thesis by simp
  qed
qed

text \<open>The first character tells the kind of a value.\<close>

definition kind_char :: "json \<Rightarrow> char \<Rightarrow> bool" where
  "kind_char v c =
     (case v of
        JNull \<Rightarrow> c = CHR ''n''
      | JBool b \<Rightarrow> c = (if b then CHR ''t'' else CHR ''f'')
      | JNumber n \<Rightarrow> number_char c \<and> c \<noteq> CHR ''e''
      | JString s \<Rightarrow> c = quote
      | JArray vs \<Rightarrow> c = CHR ''[''
      | JObject fs \<Rightarrow> c = CHR ''{'')"

lemma text_head: "numbers_ok v \<Longrightarrow> \<exists>c t. stringified v = c # t \<and> kind_char v c"
proof (cases v)
  case (JNumber n)
  moreover assume "numbers_ok v"
  ultimately show ?thesis by (cases n) (auto simp: kind_char_def number_text_def)
qed (auto simp: kind_char_def json_quoted_def)

lemma kind_char_not_delimiter: "kind_char v c \<Longrightarrow> c \<notin> set '',]}''"
  by (auto simp: kind_char_def number_char_def quote_def split: json.splits if_splits)

lemma same_kind:
  assumes "numbers_ok v" "numbers_ok w" "stringified v @ r = stringified w @ r'"
  obtains "v = JNull" "w = JNull" | b where "v = JBool b" "w = JBool b"
    | n m where "v = JNumber n" "w = JNumber m" | s s' where "v = JString s" "w = JString s'"
    | vs ws where "v = JArray vs" "w = JArray ws" | fs gs where "v = JObject fs" "w = JObject gs"
proof -
  obtain c t where v: "stringified v = c # t" "kind_char v c" using text_head[OF assms(1)] by blast
  obtain d u where "stringified w = d # u" "kind_char w d" using text_head[OF assms(2)] by blast
  with v assms(3) have "kind_char v c" "kind_char w c" by auto
  then show thesis using that
    by (cases v; cases w) (auto simp: kind_char_def number_char_def quote_def split: if_splits)
qed

text \<open>A list of texts each of which ends where it can be told.\<close>

lemma join_inject:
  assumes step: "\<And>x y r r'. x \<in> set xs \<Longrightarrow> y \<in> set ys \<Longrightarrow> delimited r \<Longrightarrow> delimited r' \<Longrightarrow>
      f x @ r = f y @ r' \<Longrightarrow> g x = g y \<and> r = r'"
    and start: "\<And>x. x \<in> set xs \<union> set ys \<Longrightarrow> \<exists>c t. f x = c # t \<and> c \<noteq> b"
    and b: "b = CHR '']'' \<or> b = CHR ''}''"
    and eq: "join '','' (map f xs) @ b # r = join '','' (map f ys) @ b # r'"
  shows "map g xs = map g ys \<and> r = r'"
  using assms
proof (induction xs arbitrary: ys)
  case Nil
  show ?case
  proof (cases ys)
    case (Cons y zs)
    obtain c t where "f y = c # t" "c \<noteq> b" using Nil(2)[of y] Cons by auto
    with Nil(4) Cons show ?thesis by (cases zs) auto
  qed (use Nil in simp)
next
  case (Cons x xs)
  obtain c t where x: "f x = c # t" "c \<noteq> b" using Cons.prems(2)[of x] by auto
  show ?case
  proof (cases ys)
    case Nil
    with Cons.prems(4) x show ?thesis by (cases xs) auto
  next
    case ys: (Cons y zs)
    define p where "p = (\<lambda>l. (if l = [] then [] else '','' @ join '','' (map f l)) @ [b])"
    have join: "join '','' (map f (z # l)) @ b # q = f z @ p l @ q" for z l q
      by (cases l) (simp_all add: p_def)
    have "delimited (p l @ q)" for l q using b by (auto simp: p_def)
    then have one: "g x = g y" "p xs @ r = p zs @ r'"
      using Cons.prems(1)[of x y "p xs @ r" "p zs @ r'"] Cons.prems(4) join[of x xs r] join[of y zs r'] ys by auto
    have "xs = [] \<longleftrightarrow> zs = []" using one(2) b by (auto simp: p_def split: if_splits)
    then have "join '','' (map f xs) @ b # r = join '','' (map f zs) @ b # r'"
      using one(2) by (auto simp: p_def split: if_splits)
    then have "map g xs = map g zs \<and> r = r'"
      using Cons.prems(1,2) b ys by (intro Cons.IH) auto
    with one(1) ys show ?thesis by simp
  qed
qed

lemma text_inject:
  assumes "numbers_ok v" "numbers_ok w" "delimited r" "delimited r'" "stringified v @ r = stringified w @ r'"
  shows "reread v = reread w \<and> r = r'"
  using assms
proof (induction v arbitrary: w r r')
  case (JNumber n)
  from same_kind[OF JNumber.prems(1,2,5)] obtain m where "w = JNumber m" by auto
  with JNumber number_inject[of n m r r'] show ?case by (auto simp: number_text_def)
next
  case (JString s)
  from same_kind[OF JString.prems(1,2,5)] obtain s' where "w = JString s'" by auto
  with JString quoted_inject[of s r s' r'] show ?case by simp
next
  case (JArray vs)
  from same_kind[OF JArray.prems(1,2,5)] obtain ws where w: "w = JArray ws" by auto
  have "map reread vs = map reread ws \<and> r = r'"
  proof (rule join_inject[of vs ws stringified reread "CHR '']''"])
    fix x assume "x \<in> set vs \<union> set ws"
    then have "numbers_ok x" using JArray.prems(1,2) w by auto
    then show "\<exists>c t. stringified x = c # t \<and> c \<noteq> CHR '']''"
      using text_head[of x] kind_char_not_delimiter[of x] by fastforce
  qed (use JArray w in auto)
  with w show ?case by simp
next
  case (JObject fs)
  from same_kind[OF JObject.prems(1,2,5)] obtain gs where w: "w = JObject gs" by auto
  let ?f = "\<lambda>(k, v). json_quoted False (\<lambda>_. True) k @ '':'' @ stringified v"
  have "map (\<lambda>(k, v). (ToValidUTF8 k, reread v)) fs = map (\<lambda>(k, v). (ToValidUTF8 k, reread v)) gs \<and> r = r'"
  proof (rule join_inject[of fs gs ?f _ "CHR ''}''"])
    fix x y q q' assume xy: "x \<in> set fs" "y \<in> set gs" "delimited q" "delimited q'" "?f x @ q = ?f y @ q'"
    obtain k v l u where [simp]: "x = (k, v)" "y = (l, u)" by (cases x, cases y) auto
    have k: "ToValidUTF8 k = ToValidUTF8 l" "stringified v @ q = stringified u @ q'"
      using quoted_inject[of k "'':'' @ stringified v @ q" l "'':'' @ stringified u @ q'"] xy(5) by auto
    have "numbers_ok v" "numbers_ok u" using JObject.prems(1,2) xy(1,2) w by auto
    with JObject.IH[of x v u q q'] xy k show "(case x of (k, v) \<Rightarrow> (ToValidUTF8 k, reread v)) = (case y of (k, v) \<Rightarrow> (ToValidUTF8 k, reread v)) \<and> q = q'"
      by auto
  next
    fix x assume "x \<in> set fs \<union> set gs"
    show "\<exists>c t. ?f x = c # t \<and> c \<noteq> CHR ''}''" by (cases x) (simp add: json_quoted_def quote_def)
  qed (use JObject w in auto)
  with w show ?case by simp
next
  case JNull
  from same_kind[OF JNull(1,2,5)] have "w = JNull" by auto
  with JNull(5) show ?case by simp
next
  case (JBool b)
  from same_kind[OF JBool(1,2,5)] have "w = JBool b" by auto
  with JBool(5) show ?case by (auto split: if_splits)
qed

theorem stringify_inject:
  assumes "numbers_ok v" "numbers_ok w" "JSON_stringify v = JSON_stringify w"
  shows "reread v = reread w"
  using text_inject[of v w "[]" "[]"] assms by (simp add: JSON_stringify_def)

end
