(* ===== verification/Control_Import.thy ===== *)
theory Control_Import
  imports Token_Mutation Json_Inverse
begin

section \<open>Task control: import of rules from the CRM\<close>

text \<open>
  \<^verbatim>\<open>services/company/internal/domain/taskcontrol/import.go\<close>: rules kept in the CRM, as the elements of a
  catalog or as the published configuration of the widget, are captured as one JSON text. An import
  is accepted when the rules to be stored are those the text holds.

  Reading a text as one JSON value is the parameter \<open>im_read\<close>, which fails on anything after the value;
  SHA-256 in hexadecimal is a parameter too. A missing key of a map reads as \<^verbatim>\<open>nil\<close>, here \<open>JNull\<close>. The map
  of field identifiers is the list of its entries in the order it is iterated. The texts of the
  errors are constructors.
\<close>

subsection \<open>Reading\<close>

record import_lib =
  im_json :: json_lib
  im_uuid :: uuid_lib
  im_read :: "string \<Rightarrow> json option"
  im_sha256 :: "string \<Rightarrow> string"

datatype import_error = ErrJSON | ErrIDType | ErrIDUnsafe | ErrIDList | ErrIDsRepeated | ErrRuleExpected
  | ErrRuleFields | ErrRuleField string | ErrPipelinesExpected | ErrPipeline | ErrFlag | ErrRuleDecode
  | ErrSourceCode | ErrNoCatalog | ErrCatalog | ErrCatalogAccount | ErrFieldMap | ErrFieldMapID | ErrNoConfig
  | ErrSchema | ErrNoConfigRules | ErrConfigHash | ErrNoStorage | ErrStorageCatalog | ErrStorageFields
  | ErrStorageChanged | ErrSourceKind | ErrRules control_message | ErrDifferent
  | ErrField | ErrFieldRepeated | ErrFieldDefinitions | ErrElements | ErrElement | ErrElementRepeated
  | ErrNoValues | ErrFieldValue | ErrValueRepeated | ErrFieldAbsent string | ErrOneValue | ErrValue
  | ErrNoEnum | ErrUnknownEnum | ErrBoolEnum | ErrBoolNumber | ErrNoBool

datatype import_issue = ImportRule Issue | ImportCapture import_error | ImportWarning string

type_synonym json_map = "(string \<times> json) list"

definition json_get :: "json_map \<Rightarrow> string \<Rightarrow> json" where
  "json_get m k = (case map_of m k of None \<Rightarrow> JNull | Some v \<Rightarrow> v)"

definition importJSON :: "import_lib \<Rightarrow> string \<Rightarrow> import_error + json" where
  "importJSON lib raw =
     (case im_read lib raw of
        None \<Rightarrow> Inl ErrJSON
      | Some v \<Rightarrow> if unique_json v then Inr v else Inl ErrJSON)"

definition importID :: "json \<Rightarrow> import_error + string" where
  "importID v =
     (case (case v of JNumber n \<Rightarrow> Some n | JString s \<Rightarrow> Some s | _ \<Rightarrow> None) of
        None \<Rightarrow> Inl ErrIDType
      | Some i \<Rightarrow> if ValidCRMID i then Inr i else Inl ErrIDUnsafe)"

fun import_ids_from :: "string list \<Rightarrow> json list \<Rightarrow> import_error + string list" where
  "import_ids_from seen [] = Inr []"
| "import_ids_from seen (v # vs) =
     (case importID v of
        Inl _ \<Rightarrow> Inl ErrIDsRepeated
      | Inr i \<Rightarrow> if i \<in> set seen then Inl ErrIDsRepeated
                else try_bind (import_ids_from (i # seen) vs) (\<lambda>is. Inr (i # is)))"

definition importIDs :: "json \<Rightarrow> import_error + string list" where
  "importIDs v = (case v of JArray a \<Rightarrow> import_ids_from [] a | _ \<Rightarrow> Inl ErrIDList)"

fun try_map :: "('a \<Rightarrow> 'e + 'b) \<Rightarrow> 'a list \<Rightarrow> 'e + 'b list" where
  "try_map f [] = Inr []"
| "try_map f (x # xs) = try_bind (f x) (\<lambda>y. try_bind (try_map f xs) (\<lambda>ys. Inr (y # ys)))"

subsection \<open>A rule of the widget\<close>

definition import_pipeline :: "json \<Rightarrow> import_error + Pipeline" where
  "import_pipeline v =
     (case v of
        JObject p \<Rightarrow>
          if length p \<noteq> 2 then Inl ErrPipeline
          else try_bind (importID (json_get p ''pipeline_id'')) (\<lambda>i.
               try_bind (importIDs (json_get p ''status_ids'')) (\<lambda>ids.
               Inr \<lparr>pp_PipelineID = i, pp_StatusIDs = Some ids\<rparr>))
      | _ \<Rightarrow> Inl ErrPipeline)"

definition import_flag :: "json_map \<Rightarrow> string \<Rightarrow> import_error + bool" where
  "import_flag m k = (case json_get m k of JBool b \<Rightarrow> Inr b | _ \<Rightarrow> Inl ErrFlag)"

definition import_required :: "string list" where
  "import_required = [''uid'', ''name'', ''users'', ''pipelines'', ''customer_statuses'', ''show_modal'', ''deny_exit'',
     ''check_responsible'', ''customers'', ''enabled'', ''archived'']"

text \<open>The rule on the wire; a map is marshalled with its keys sorted.\<close>

definition wire_rule ::
    "json \<Rightarrow> json \<Rightarrow> string list \<Rightarrow> Pipeline list \<Rightarrow> string list \<Rightarrow> bool \<Rightarrow> bool \<Rightarrow> bool \<Rightarrow> bool \<Rightarrow> bool \<Rightarrow> bool \<Rightarrow> json" where
  "wire_rule uid name users pipelines statuses modal deny check customers enabled archived = JObject
     [(''archived'', JBool archived), (''checkResponsible'', JBool check),
      (''customerStatuses'', encode_strings (Some statuses)), (''customers'', JBool customers),
      (''denyExit'', JBool deny), (''enabled'', JBool enabled), (''name'', name),
      (''pipelines'', json_slice encode_pipeline (Some pipelines)), (''ruleUid'', uid),
      (''showModal'', JBool modal), (''users'', encode_strings (Some users))]"

definition importLegacy :: "import_lib \<Rightarrow> json \<Rightarrow> import_error + control_rule" where
  "importLegacy lib v =
     (case v of
        JObject m \<Rightarrow>
          if length m \<noteq> length import_required then Inl ErrRuleFields
          else (case List.find (\<lambda>k. map_of m k = None) import_required of
            Some k \<Rightarrow> Inl (ErrRuleField k)
          | None \<Rightarrow>
              try_bind (importIDs (json_get m ''users'')) (\<lambda>users.
              try_bind (importIDs (json_get m ''customer_statuses'')) (\<lambda>statuses.
              try_bind (case json_get m ''pipelines'' of JArray ps \<Rightarrow> try_map import_pipeline ps | _ \<Rightarrow> Inl ErrPipelinesExpected) (\<lambda>pipelines.
              try_bind (import_flag m ''show_modal'') (\<lambda>modal.
              try_bind (import_flag m ''deny_exit'') (\<lambda>deny.
              try_bind (import_flag m ''check_responsible'') (\<lambda>check.
              try_bind (import_flag m ''customers'') (\<lambda>customers.
              try_bind (import_flag m ''enabled'') (\<lambda>enabled.
              try_bind (import_flag m ''archived'') (\<lambda>archived.
              case decode_rule (im_json lib) (reread (wire_rule (json_get m ''uid'') (json_get m ''name'') users pipelines
                  statuses modal deny check customers enabled archived)) of
                None \<Rightarrow> Inl ErrRuleDecode
              | Some r \<Rightarrow> Inr r))))))))))
      | _ \<Rightarrow> Inl ErrRuleExpected)"

subsection \<open>The catalog\<close>

text \<open>Key, code and type of the fields.\<close>

definition importFields :: "(string \<times> string \<times> string) list" where
  "importFields =
     [(''rule_uid'', ''RKRS_WT_RULE_UID'', ''text''), (''users'', ''RKRS_WT_USERS'', ''text''),
      (''pipelines'', ''RKRS_WT_PIPELINES'', ''text''), (''customer_statuses'', ''RKRS_WT_CUSTOMER_STATUSES'', ''text''),
      (''show_modal'', ''RKRS_WT_SHOW_MODAL'', ''select''), (''deny_exit'', ''RKRS_WT_DENY_EXIT'', ''select''),
      (''check_responsible'', ''RKRS_WT_CHECK_RESP'', ''select''), (''customers'', ''RKRS_WT_CUSTOMERS'', ''select''),
      (''enabled'', ''RKRS_WT_ENABLED'', ''select''), (''archived'', ''RKRS_WT_ARCHIVED'', ''select'')]"

type_synonym field_ids = "(string \<times> string) list"

definition field_value :: "import_lib \<Rightarrow> field_ids \<Rightarrow> string \<Rightarrow> import_error + json" where
  "field_value lib ids key = (case map_of ids key of None \<Rightarrow> Inl ErrJSON | Some raw \<Rightarrow> importJSON lib raw)"

text \<open>The definitions of the fields by identifier.\<close>

fun fields_by_id :: "(string \<times> json_map) list \<Rightarrow> string list \<Rightarrow> json list \<Rightarrow> import_error + (string \<times> json_map) list" where
  "fields_by_id byID byCode [] = Inr byID"
| "fields_by_id byID byCode (v # vs) =
     (case v of
        JObject d \<Rightarrow>
          let c = (case json_get d ''code'' of JString s \<Rightarrow> s | _ \<Rightarrow> '''') in
          (case importID (json_get d ''id'') of
             Inl _ \<Rightarrow> Inl ErrFieldRepeated
           | Inr i \<Rightarrow>
               if map_of byID i \<noteq> None \<or> c \<noteq> '''' \<and> c \<in> set byCode then Inl ErrFieldRepeated
               else fields_by_id ((i, d) # byID) (c # byCode) vs)
      | _ \<Rightarrow> Inl ErrField)"

text \<open>The identifier of every field, checked against its definition.\<close>

definition map_field :: "import_lib \<Rightarrow> field_ids \<Rightarrow> (string \<times> json_map) list \<Rightarrow> string \<times> string \<times> string \<Rightarrow> import_error + (string \<times> string)" where
  "map_field lib ids byID f =
     (case f of (key, code, typ) \<Rightarrow>
        try_bind (field_value lib ids key) (\<lambda>v.
        try_bind (importID v) (\<lambda>i.
        case map_of byID i of
          None \<Rightarrow> Inl ErrFieldDefinitions
        | Some d \<Rightarrow>
            if json_get d ''code'' \<noteq> JString code \<or> json_get d ''type'' \<noteq> JString typ then Inl ErrFieldDefinitions
            else Inr (key, i))))"

text \<open>The values of an element by field.\<close>

fun values_by_field :: "(string \<times> json_map) list \<Rightarrow> json list \<Rightarrow> import_error + (string \<times> json_map) list" where
  "values_by_field given [] = Inr given"
| "values_by_field given (v # vs) =
     (case v of
        JObject f \<Rightarrow>
          (case importID (json_get f ''field_id'') of
             Inl _ \<Rightarrow> Inl ErrValueRepeated
           | Inr i \<Rightarrow> if map_of given i \<noteq> None then Inl ErrValueRepeated
                     else values_by_field ((i, f) # given) vs)
      | _ \<Rightarrow> Inl ErrFieldValue)"

text \<open>The value of the last option with the identifier.\<close>

fun enum_value :: "string \<Rightarrow> json list \<Rightarrow> json option \<Rightarrow> json option" where
  "enum_value i [] found = found"
| "enum_value i (v # vs) found =
     enum_value i vs
       (case v of
          JObject p \<Rightarrow> (if importID (json_get p ''id'') = Inr i then Some (json_get p ''value'') else found)
        | _ \<Rightarrow> found)"

definition import_bool :: "json \<Rightarrow> import_error + bool" where
  "import_bool v =
     (case v of
        JString b \<Rightarrow> if b \<noteq> ''0'' \<and> b \<noteq> ''1'' then Inl ErrBoolEnum else Inr (b = ''1'')
      | JBool b \<Rightarrow> Inr b
      | JNumber b \<Rightarrow> if b \<noteq> ''0'' \<and> b \<noteq> ''1'' then Inl ErrBoolNumber else Inr (b = ''1'')
      | _ \<Rightarrow> Inl ErrNoBool)"

text \<open>What one field of an element contributes to the rule.\<close>

definition import_select :: "json_map \<Rightarrow> json_map \<Rightarrow> import_error + bool" where
  "import_select def entry =
     (case map_of entry ''enum_id'' of
        None \<Rightarrow> import_bool (json_get entry ''value'')
      | Some enum \<Rightarrow>
          try_bind (importID enum) (\<lambda>i.
          case json_get def ''enums'' of
            JArray options \<Rightarrow>
              (case enum_value i options None of
                 None \<Rightarrow> Inl ErrUnknownEnum
               | Some v \<Rightarrow> import_bool v)
          | _ \<Rightarrow> Inl ErrNoEnum))"

definition import_text :: "import_lib \<Rightarrow> json \<Rightarrow> import_error + json" where
  "import_text lib v = (case v of JString s \<Rightarrow> importJSON lib s | _ \<Rightarrow> Inr v)"

definition import_field ::
    "import_lib \<Rightarrow> (string \<times> json_map) list \<Rightarrow> (string \<times> string) list \<Rightarrow> (string \<times> json_map) list \<Rightarrow> string \<Rightarrow> import_error + (string \<times> json)" where
  "import_field lib byID mapping given key =
     (case Option.bind (map_of mapping key) (map_of given) of
        None \<Rightarrow> Inl (ErrFieldAbsent key)
      | Some cell \<Rightarrow>
          (case json_get cell ''values'' of
             JArray [JObject entry] \<Rightarrow>
               if key = ''rule_uid'' then Inr (''uid'', json_get entry ''value'')
               else if key \<in> {''users'', ''pipelines'', ''customer_statuses''}
               then try_bind (import_text lib (json_get entry ''value'')) (\<lambda>v. Inr (key, v))
               else try_bind (import_select (case Option.bind (map_of mapping key) (map_of byID) of None \<Rightarrow> [] | Some d \<Rightarrow> d) entry)
                 (\<lambda>b. Inr (key, JBool b))
           | JArray [_] \<Rightarrow> Inl ErrValue
           | _ \<Rightarrow> Inl ErrOneValue))"

definition import_element ::
    "import_lib \<Rightarrow> (string \<times> json_map) list \<Rightarrow> (string \<times> string) list \<Rightarrow> json_map \<Rightarrow> import_error + control_rule" where
  "import_element lib byID mapping element =
     (case json_get element ''custom_fields_values'' of
        JArray values \<Rightarrow>
          try_bind (values_by_field [] values) (\<lambda>given.
          try_bind (try_map (\<lambda>f. import_field lib byID mapping given (fst f)) importFields) (\<lambda>entries.
          try_bind (importLegacy lib (JObject ((''name'', json_get element ''name'') # entries))) (\<lambda>r.
          Inr (r\<lparr>cr_Name := TrimSpace (cr_Name r)\<rparr>))))
      | _ \<Rightarrow> Inl ErrNoValues)"

fun import_elements ::
    "import_lib \<Rightarrow> (string \<times> json_map) list \<Rightarrow> (string \<times> string) list \<Rightarrow> string list \<Rightarrow> json list \<Rightarrow> import_error + control_rule list" where
  "import_elements lib byID mapping seen [] = Inr []"
| "import_elements lib byID mapping seen (v # vs) =
     (case v of
        JObject element \<Rightarrow>
          (case importID (json_get element ''id'') of
             Inl _ \<Rightarrow> Inl ErrElementRepeated
           | Inr i \<Rightarrow>
               if i \<in> set seen then Inl ErrElementRepeated
               else if json_get element ''is_deleted'' = JBool True
               then import_elements lib byID mapping (i # seen) vs
               else try_bind (import_element lib byID mapping element) (\<lambda>r.
                    try_bind (import_elements lib byID mapping (i # seen) vs) (\<lambda>rs. Inr (r # rs))))
      | _ \<Rightarrow> Inl ErrElement)"

definition importCatalogRules :: "import_lib \<Rightarrow> json_map \<Rightarrow> field_ids \<Rightarrow> import_error + control_rule list" where
  "importCatalogRules lib source ids =
     (case json_get source ''fields'' of
        JArray defs \<Rightarrow>
          if length ids \<noteq> length importFields then Inl ErrFieldMap
          else
            try_bind (fields_by_id [] [] defs) (\<lambda>byID.
            try_bind (try_map (map_field lib ids byID) importFields) (\<lambda>mapping.
            case json_get source ''elements'' of
              JArray elements \<Rightarrow>
                if length elements > 1000 then Inl ErrElements else import_elements lib byID mapping [] elements
            | _ \<Rightarrow> Inl ErrElements))
      | _ \<Rightarrow> Inl ErrFieldMap)"

subsection \<open>The published configuration\<close>

fun unwrap :: "import_lib \<Rightarrow> nat \<Rightarrow> json \<Rightarrow> import_error + json" where
  "unwrap lib 0 config = Inr config"
| "unwrap lib (Suc n) config =
     (case config of JString s \<Rightarrow> try_bind (importJSON lib s) (unwrap lib n) | _ \<Rightarrow> Inr config)"

fun storage_unchanged :: "import_lib \<Rightarrow> json_map \<Rightarrow> field_ids \<Rightarrow> import_error option" where
  "storage_unchanged lib saved [] = None"
| "storage_unchanged lib saved ((key, encoded) # ids) =
     (case importJSON lib encoded of
        Inl e \<Rightarrow> Some e
      | Inr current \<Rightarrow>
          (case (importID current, importID (json_get saved key)) of
             (Inr actual, Inr kept) \<Rightarrow> if actual \<noteq> kept then Some ErrStorageChanged else storage_unchanged lib saved ids
           | _ \<Rightarrow> Some ErrStorageChanged))"

definition import_runtime :: "import_lib \<Rightarrow> json_map \<Rightarrow> field_ids \<Rightarrow> string \<Rightarrow> import_error + control_rule list" where
  "import_runtime lib source ids catalogID =
     try_bind (unwrap lib 2 (json_get source ''runtimeConfig'')) (\<lambda>config.
     case config of
       JObject cfg \<Rightarrow>
         if json_get cfg ''schema_version'' \<noteq> JNumber ''1'' then Inl ErrSchema
         else (case json_get cfg ''rules'' of
           JArray a \<Rightarrow>
             try_bind (try_map (importLegacy lib) a) (\<lambda>original.
             case json_get cfg ''published'' of
               JObject pub \<Rightarrow>
                 if json_get pub ''hash'' \<noteq> JString (snd (Legacy (im_sha256 lib) original)) then Inl ErrConfigHash
                 else (case json_get cfg ''storage'' of
                   JObject storage \<Rightarrow>
                     if importID (json_get storage ''catalog_id'') \<noteq> Inr catalogID then Inl ErrStorageCatalog
                     else (case json_get storage ''fields'' of
                       JObject saved \<Rightarrow>
                         if length saved \<noteq> length ids then Inl ErrStorageFields
                         else (case storage_unchanged lib saved ids of Some e \<Rightarrow> Inl e | None \<Rightarrow> Inr original)
                     | _ \<Rightarrow> Inl ErrStorageFields)
                 | _ \<Rightarrow> Inl ErrNoStorage)
             | _ \<Rightarrow> Inl ErrConfigHash)
         | _ \<Rightarrow> Inl ErrNoConfigRules)
     | _ \<Rightarrow> Inl ErrNoConfig)"

subsection \<open>A capture\<close>

definition import_source :: "import_lib \<Rightarrow> string \<Rightarrow> import_error + json_map" where
  "import_source lib raw =
     try_bind (importJSON lib raw) (\<lambda>v. case v of JObject m \<Rightarrow> Inr m | JNull \<Rightarrow> Inr [] | _ \<Rightarrow> Inl ErrJSON)"

definition catalog_error :: "json_map \<Rightarrow> string \<Rightarrow> string \<Rightarrow> string \<Rightarrow> import_error option" where
  "catalog_error source kind catalogID accountID =
     (if json_get source ''catalog'' \<noteq> JNull \<or> kind = ''catalog'' then
        (case json_get source ''catalog'' of
           JObject metadata \<Rightarrow>
             if importID (json_get metadata ''id'') \<noteq> Inr catalogID \<or> json_get metadata ''type'' \<noteq> JString ''regular''
             then Some ErrCatalog
             else if importID (json_get metadata ''account_id'') \<noteq> Inr accountID then Some ErrCatalogAccount
             else None
         | _ \<Rightarrow> Some ErrNoCatalog)
      else None)"

fun field_map_error :: "import_lib \<Rightarrow> field_ids \<Rightarrow> string list \<Rightarrow> string list \<Rightarrow> import_error option" where
  "field_map_error lib ids mapped [] = None"
| "field_map_error lib ids mapped (key # keys) =
     (case field_value lib ids key of
        Inl e \<Rightarrow> Some e
      | Inr v \<Rightarrow>
          (case importID v of
             Inl _ \<Rightarrow> Some ErrFieldMapID
           | Inr i \<Rightarrow> if i \<in> set mapped then Some ErrFieldMapID else field_map_error lib ids (i # mapped) keys))"

text \<open>The rules the capture holds.\<close>

definition captured_rules ::
    "import_lib \<Rightarrow> string \<Rightarrow> field_ids \<Rightarrow> string \<Rightarrow> string \<Rightarrow> string \<Rightarrow> string \<Rightarrow> import_error + control_rule list" where
  "captured_rules lib raw ids code kind catalogID accountID =
     (if code \<noteq> ''RKRS_WT_RULE_UID'' then Inl ErrSourceCode
      else try_bind (import_source lib raw) (\<lambda>source.
        case catalog_error source kind catalogID accountID of
          Some e \<Rightarrow> Inl e
        | None \<Rightarrow>
            if length ids \<noteq> length importFields then Inl ErrFieldMap
            else (case field_map_error lib ids [] (map fst importFields) of
              Some e \<Rightarrow> Inl e
            | None \<Rightarrow>
                if kind = ''runtime_config'' then import_runtime lib source ids catalogID
                else if kind = ''catalog'' then importCatalogRules lib source ids
                else Inl ErrSourceKind)))"

definition ValidateImportCapture ::
    "import_lib \<Rightarrow> control_rule slice \<Rightarrow> string \<Rightarrow> field_ids \<Rightarrow> string \<Rightarrow> string \<Rightarrow> string \<Rightarrow> string \<Rightarrow> import_issue list" where
  "ValidateImportCapture lib rules raw ids code kind catalogID accountID =
     (if ValidateRules (im_uuid lib) rules \<noteq> [] then map ImportRule (ValidateRules (im_uuid lib) rules)
      else (case captured_rules lib raw ids code kind catalogID accountID of
        Inl e \<Rightarrow> [ImportCapture e]
      | Inr original \<Rightarrow>
          (case ValidateRules (im_uuid lib) (Some original) of
             issue # _ \<Rightarrow> [ImportCapture (ErrRules (is_Message issue))]
           | [] \<Rightarrow>
               if snd (Legacy (im_sha256 lib) original) \<noteq> snd (Legacy (im_sha256 lib) (items rules))
               then [ImportCapture ErrDifferent]
               else [])))"

subsection \<open>The other source\<close>

definition marshalled :: "json \<Rightarrow> string" where
  "marshalled v = json_text True (\<lambda>_. False) (sorted_fields v)"

text \<open>The configuration the widget published, decoded on its own.\<close>

definition runtime_other :: "import_lib \<Rightarrow> json_map \<Rightarrow> (control_rule list \<times> field_ids) option" where
  "runtime_other lib source =
     (case unwrap lib 2 (json_get source ''runtimeConfig'') of
        Inr (JObject cfg) \<Rightarrow>
          (case json_get cfg ''rules'' of
             JArray a \<Rightarrow>
               (case (try_map (importLegacy lib) a, json_get cfg ''storage'') of
                  (Inr other, JObject storage) \<Rightarrow>
                    (case json_get storage ''fields'' of
                       JObject given \<Rightarrow> Some (other, map (\<lambda>(k, v). (k, marshalled v)) given)
                     | _ \<Rightarrow> None)
                | _ \<Rightarrow> None)
           | _ \<Rightarrow> None)
      | _ \<Rightarrow> None)"

fun code_ids :: "field_ids \<Rightarrow> json_map \<Rightarrow> (string \<times> string \<times> string) list \<Rightarrow> field_ids option" where
  "code_ids ids d [] = Some ids"
| "code_ids ids d ((key, code, typ) # fs) =
     (if json_get d ''code'' = JString code then
        (if map_of ids key \<noteq> None then None
         else code_ids ((key, marshalled (json_get d ''id'')) # ids) d fs)
      else code_ids ids d fs)"

fun definition_ids :: "field_ids \<Rightarrow> json list \<Rightarrow> field_ids option" where
  "definition_ids ids [] = Some ids"
| "definition_ids ids (v # vs) =
     (case v of
        JObject d \<Rightarrow> Option.bind (code_ids ids d importFields) (\<lambda>ids'. definition_ids ids' vs)
      | _ \<Rightarrow> None)"

definition catalog_other :: "import_lib \<Rightarrow> json_map \<Rightarrow> (control_rule list \<times> field_ids) option" where
  "catalog_other lib source =
     (case json_get source ''fields'' of
        JArray defs \<Rightarrow>
          Option.bind (definition_ids [] defs) (\<lambda>ids.
          case importCatalogRules lib source ids of
            Inl _ \<Rightarrow> None
          | Inr other \<Rightarrow> Some (other, ids))
      | _ \<Rightarrow> None)"

definition ImportCaptureDiscrepancies ::
    "import_lib \<Rightarrow> control_rule slice \<Rightarrow> string \<Rightarrow> string \<Rightarrow> string \<Rightarrow> string \<Rightarrow> string \<Rightarrow> import_issue list" where
  "ImportCaptureDiscrepancies lib rules raw code kind catalogID accountID =
     (case import_source lib raw of
        Inl _ \<Rightarrow> []
      | Inr source \<Rightarrow>
          if kind \<noteq> ''catalog'' \<and> kind \<noteq> ''runtime_config'' then []
          else
            let alternative = (if kind = ''catalog'' then ''runtime_config'' else ''catalog'');
                invalid = [ImportWarning (if kind = ''catalog'' then ''runtime_config_invalid'' else ''catalog_invalid'')]
            in case (if kind = ''catalog'' then runtime_other lib source else catalog_other lib source) of
                 None \<Rightarrow> invalid
               | Some (other, ids) \<Rightarrow>
                   if ValidateImportCapture lib (Some other) raw ids code alternative catalogID accountID \<noteq> [] then invalid
                   else if snd (Legacy (im_sha256 lib) (items rules)) \<noteq> snd (Legacy (im_sha256 lib) other)
                   then [ImportWarning ''catalog_runtime_divergence'']
                   else [])"

end
