(* ===== verification/Control_Reading.thy ===== *)
theory Control_Reading
  imports Control_Import
begin

section \<open>Task control: what an import reads\<close>

text \<open>
  What the loops of \<^verbatim>\<open>import.go\<close> accept, said without loops: the identifiers a value lists, the cells of an
  element, the rule an element says. The decoder is inverted on the rules the import puts on the wire.
\<close>

subsection \<open>The checksum of plain rules\<close>

text \<open>Rules whose identifier and name are UTF-8, as all text read from JSON is, and do not hold the six
  characters of an escaped line separator, which \<^verbatim>\<open>Legacy\<close> would replace.\<close>

definition plain_rule :: "control_rule \<Rightarrow> bool" where
  "plain_rule r \<longleftrightarrow> no_escape (cr_RuleUID r) \<and> no_escape (cr_Name r) \<and>
     ToValidUTF8 (cr_RuleUID r) = cr_RuleUID r \<and> ToValidUTF8 (TrimSpace (cr_Name r)) = TrimSpace (cr_Name r)"

lemma FormatInt_inject [simp]: "FormatInt v = FormatInt w \<longleftrightarrow> v = w"
proof -
  have sign: "decimal n \<noteq> CHR ''-'' # s" for n s
    using decimal_hd[of n] digit_char_not_sign by (metis list.sel(1))
  then show ?thesis by (auto simp: FormatInt_def eq_commute[of "CHR ''-'' # _"] nat_eq_iff)
qed

lemma digit_number_char: "d < 10 \<Longrightarrow> number_char (digit_char d) \<and> digit_char d \<noteq> CHR ''e''"
proof -
  assume "d < 10"
  then have "d \<in> set [0..<10]" by simp
  moreover have "\<forall>d\<in>set [0..<10]. number_char (digit_char d) \<and> digit_char d \<noteq> CHR ''e''" by code_simp
  ultimately show ?thesis by blast
qed

lemma decimal_number_chars: "list_all number_char (decimal n)"
proof (induction n rule: decimal.induct)
  case (1 n)
  then show ?case by (subst decimal.simps) (auto simp: digit_number_char)
qed

lemma number_text_int [simp]: "number_text (FormatInt v)"
proof -
  have "hd (decimal n) \<noteq> CHR ''e''" for n using decimal_hd[of n] digit_number_char by metis
  then show ?thesis by (auto simp: number_text_def FormatInt_def decimal_number_chars number_char_def[of "CHR ''-''"])
qed

lemma numbers_ok_legacy: "numbers_ok (legacy_json l)"
  by (simp add: legacy_json_def legacy_pipeline_json_def json_int_def)

lemma legacy_json_inject:
  assumes "reread (legacy_json l) = reread (legacy_json l')"
    "ToValidUTF8 (lr_UID l) = lr_UID l" "ToValidUTF8 (lr_Name l) = lr_Name l"
    "ToValidUTF8 (lr_UID l') = lr_UID l'" "ToValidUTF8 (lr_Name l') = lr_Name l'"
  shows "l = l'"
proof -
  have ints: "map (reread \<circ> json_int) vs = map (reread \<circ> json_int) ws \<longleftrightarrow> vs = ws" for vs ws
    by (rule inj_map_eq_map) (simp add: inj_def json_int_def)
  have "inj (reread \<circ> legacy_pipeline_json)"
  proof (rule injI)
    fix p q assume "(reread \<circ> legacy_pipeline_json) p = (reread \<circ> legacy_pipeline_json) q"
    then show "p = q" using ints
      by (cases p; cases q) (simp add: legacy_pipeline_json_def json_int_def)
  qed
  then have "map (reread \<circ> legacy_pipeline_json) ps = map (reread \<circ> legacy_pipeline_json) qs \<longleftrightarrow> ps = qs" for ps qs
    by (rule inj_map_eq_map)
  with assms ints show ?thesis by (cases l; cases l') (simp add: legacy_json_def)
qed

text \<open>Rules with the same checksum say the same, or their two texts are a collision of the hash.\<close>

definition hashed_text :: "control_rule list \<Rightarrow> string" where
  "hashed_text rules = JSON_stringify (JArray (map legacy_json (legacy_rules rules)))"

definition collision :: "(string \<Rightarrow> string) \<Rightarrow> control_rule list \<Rightarrow> control_rule list \<Rightarrow> bool" where
  "collision sha256 rules rules' \<longleftrightarrow>
     hashed_text rules \<noteq> hashed_text rules' \<and> sha256 (hashed_text rules) = sha256 (hashed_text rules')"

lemma checksum_meaning:
  assumes valid: "ValidateRules ul rules = []" "ValidateRules ul rules' = []"
    and plain: "\<forall>r\<in>set (items rules) \<union> set (items rules'). plain_rule r"
    and same: "snd (Legacy sha256 (items rules)) = snd (Legacy sha256 (items rules'))" and "\<not> collision sha256 (items rules) (items rules')"
  shows "rule_meaning ` set (items rules) = rule_meaning ` set (items rules') \<and> length (items rules) = length (items rules')"
proof -
  let ?ls = "legacy_rules (items rules)" and ?ls' = "legacy_rules (items rules')"
  have "JSON_stringify (JArray (map legacy_json ?ls)) = JSON_stringify (JArray (map legacy_json ?ls'))"
  proof -
    have "snd (Legacy sha256 (items rules)) = sha256 (JSON_stringify (JArray (map legacy_json ?ls)))"
      "snd (Legacy sha256 (items rules')) = sha256 (JSON_stringify (JArray (map legacy_json ?ls')))"
      by (rule legacy_checksum_plain, use plain in \<open>auto simp: plain_rule_def\<close>)+
    with same have "sha256 (JSON_stringify (JArray (map legacy_json ?ls))) = sha256 (JSON_stringify (JArray (map legacy_json ?ls')))"
      by (simp only:)
    with assms(5) show ?thesis unfolding collision_def hashed_text_def by blast
  qed
  then have "reread (JArray (map legacy_json ?ls)) = reread (JArray (map legacy_json ?ls'))"
    by (intro stringify_inject) (auto simp: numbers_ok_legacy)
  then have all: "list_all2 (\<lambda>l l'. reread (legacy_json l) = reread (legacy_json l')) ?ls ?ls'"
    by (auto simp: list_all2_conv_all_nth list_eq_iff_nth_eq)
  have utf8: "ToValidUTF8 (lr_UID l) = lr_UID l \<and> ToValidUTF8 (lr_Name l) = lr_Name l" if "l \<in> set ?ls \<union> set ?ls'" for l
    using that plain by (auto simp: legacy_rules_def legacy_rule_def plain_rule_def)
  have "list_all2 (=) ?ls ?ls'"
    using all by (rule list.rel_mono_strong) (use utf8 in \<open>auto intro!: legacy_json_inject\<close>)
  then have "?ls = ?ls'" by (simp add: list.rel_eq)
  then have "map lr_UID ?ls = map lr_UID ?ls'" "length (items rules) = length (items rules')"
    by (simp, metis legacy_rules_def length_map length_sort)
  with \<open>?ls = ?ls'\<close> show ?thesis using legacy_rules_of_meaning[OF valid] by simp
qed

subsection \<open>Reading identifiers and rules\<close>

lemma try_map_Inr: "try_map f xs = Inr ys \<longleftrightarrow> list_all2 (\<lambda>x y. f x = Inr y) xs ys"
  by (induction xs arbitrary: ys) (auto simp: try_bind_Inr list_all2_Cons1)

lemma list_all2_right: "list_all2 R xs ys \<Longrightarrow> y \<in> set ys \<Longrightarrow> \<exists>x\<in>set xs. R x y"
  by (metis in_set_conv_nth list_all2_conv_all_nth)

lemma json_case_Inr:
  "(case v of JArray a \<Rightarrow> f a | _ \<Rightarrow> Inl e) = Inr x \<longleftrightarrow> (\<exists>a. v = JArray a \<and> f a = Inr x)"
  "(case v of JObject m \<Rightarrow> g m | _ \<Rightarrow> Inl e) = Inr x \<longleftrightarrow> (\<exists>m. v = JObject m \<and> g m = Inr x)"
  by (cases v; simp)+

lemma importID_valid: "importID v = Inr i \<Longrightarrow> ValidCRMID i"
  by (auto simp: importID_def split: option.splits if_splits)

text \<open>The value lists exactly these identifiers.\<close>

definition lists_ids :: "json \<Rightarrow> string list \<Rightarrow> bool" where
  "lists_ids v ids \<longleftrightarrow> (\<exists>vs. v = JArray vs \<and> list_all2 (\<lambda>x i. importID x = Inr i) vs ids) \<and> distinct ids"

lemma import_ids_from_Inr:
  "import_ids_from seen vs = Inr ids \<Longrightarrow>
     list_all2 (\<lambda>x i. importID x = Inr i) vs ids \<and> distinct ids \<and> set ids \<inter> set seen = {}"
  by (induction seen vs arbitrary: ids rule: import_ids_from.induct)
    (fastforce simp: try_bind_Inr split: sum.splits if_splits)+

lemma importIDs_Inr: "importIDs v = Inr ids \<Longrightarrow> lists_ids v ids"
  by (auto simp: importIDs_def lists_ids_def split: json.splits dest: import_ids_from_Inr)

lemma lists_ids_valid: "lists_ids v ids \<Longrightarrow> \<forall>i\<in>set ids. ValidCRMID i"
  by (auto simp: lists_ids_def dest!: list_all2_right intro: importID_valid)

definition describes_pipeline :: "json \<Rightarrow> Pipeline \<Rightarrow> bool" where
  "describes_pipeline v p \<longleftrightarrow> (\<exists>m ids. v = JObject m \<and> length m = 2 \<and> importID (json_get m ''pipeline_id'') = Inr (pp_PipelineID p) \<and>
     pp_StatusIDs p = Some ids \<and> lists_ids (json_get m ''status_ids'') ids)"

lemma import_pipeline_Inr: "import_pipeline v = Inr p \<Longrightarrow> describes_pipeline v p"
  by (auto simp: import_pipeline_def describes_pipeline_def try_bind_Inr split: json.splits if_splits dest: importIDs_Inr)

lemma strings_wire:
  assumes "\<forall>i\<in>set ids. ValidCRMID i"
  shows "dec_strings (reread (encode_strings (Some ids))) = Some (Some ids)" "reread (encode_strings (Some ids)) \<noteq> JNull"
  using assms dec_strings_encoded[of "Some ids"] by (auto simp: crm_stable encode_strings_def json_slice_def)

lemma pipeline_wire:
  assumes "describes_pipeline v p"
  shows "decode_pipeline lib (reread (encode_pipeline p)) = Some p"
proof -
  obtain m ids where p: "importID (json_get m ''pipeline_id'') = Inr (pp_PipelineID p)" "pp_StatusIDs p = Some ids"
    "lists_ids (json_get m ''status_ids'') ids"
    using assms by (auto simp: describes_pipeline_def)
  then show ?thesis using strings_wire[OF lists_ids_valid] crm_stable[OF importID_valid]
    by (cases p) (simp add: decode_pipeline_def encode_pipeline_def stable_names field_named_def pipeline_names_def
        set_pipeline_field_def set_unless_null_def zero_pipeline_def)
qed

lemma pipelines_wire:
  assumes "list_all2 describes_pipeline vs ps"
  shows "dec_slice (Some zero_pipeline) (decode_pipeline lib) (reread (json_slice encode_pipeline (Some ps))) = Some (Some ps)"
    "reread (json_slice encode_pipeline (Some ps)) \<noteq> JNull"
proof -
  have "\<forall>p\<in>set ps. decode_pipeline lib (reread (encode_pipeline p)) = Some p"
    using assms by (auto dest!: list_all2_right intro: pipeline_wire)
  then show "dec_slice (Some zero_pipeline) (decode_pipeline lib) (reread (json_slice encode_pipeline (Some ps))) = Some (Some ps)"
    unfolding reread_slice by (auto intro!: dec_slice_encoded) (simp add: encode_pipeline_def)
  show "reread (json_slice encode_pipeline (Some ps)) \<noteq> JNull"
    using slice_not_null[of "Some ps" encode_pipeline] by simp
qed

lemma decode_wire:
  assumes "\<forall>i\<in>set users. ValidCRMID i" "\<forall>i\<in>set statuses. ValidCRMID i" "list_all2 describes_pipeline vs ps"
    and "decode_rule lib (reread (wire_rule uid name users ps statuses modal deny check customers enabled archived)) = Some r"
  shows "\<exists>u n i. uid = JString u \<and> name = JString n \<and> jl_parse lib (ToValidUTF8 u) = Some i \<and>
    r = \<lparr>cr_RuleUID = i, cr_Name = ToValidUTF8 n, cr_Users = Some users, cr_Pipelines = Some ps, cr_Customers = customers,
      cr_CustomerStatuses = Some statuses, cr_ShowModal = modal, cr_DenyExit = deny, cr_CheckResponsible = check,
      cr_Enabled = enabled, cr_Archived = archived\<rparr>"
proof -
  note wire = strings_wire[OF assms(1)] strings_wire[OF assms(2)] pipelines_wire[OF assms(3)]
  have not_null: "reread uid \<noteq> JNull" "reread name \<noteq> JNull"
    using assms(4) by (auto simp: wire_rule_def decode_rule_def stable_names rule_names_def last_of_def split: if_splits)
  obtain i n where "dec_uuid lib (reread uid) = Some i" "dec_string (reread name) = Some n" and
    r: "r = \<lparr>cr_RuleUID = i, cr_Name = n, cr_Users = Some users, cr_Pipelines = Some ps, cr_Customers = customers,
      cr_CustomerStatuses = Some statuses, cr_ShowModal = modal, cr_DenyExit = deny, cr_CheckResponsible = check,
      cr_Enabled = enabled, cr_Archived = archived\<rparr>"
    using assms(4) wire not_null
    by (auto simp: wire_rule_def decode_rule_def stable_names rule_names_def last_of_def field_named_def set_rule_field_def
        set_unless_null_def zero_rule_def bind_eq_Some_conv split: if_splits)
  then show ?thesis by (cases uid; cases name) (auto simp: dec_uuid_def)
qed

subsection \<open>What an element says\<close>

text \<open>A field of an element holds one entry: the field with the identifier the map gives to the key.\<close>

definition holds_entry :: "import_lib \<Rightarrow> field_ids \<Rightarrow> json_map \<Rightarrow> string \<Rightarrow> string \<Rightarrow> json_map \<Rightarrow> bool" where
  "holds_entry lib ids m key i entry \<longleftrightarrow>
     (\<exists>v vs f. field_value lib ids key = Inr v \<and> importID v = Inr i \<and>
        json_get m ''custom_fields_values'' = JArray vs \<and> JObject f \<in> set vs \<and>
        importID (json_get f ''field_id'') = Inr i \<and> json_get f ''values'' = JArray [JObject entry])"

text \<open>A list is given as it is or as a text.\<close>

definition says_ids :: "import_lib \<Rightarrow> field_ids \<Rightarrow> json_map \<Rightarrow> string \<Rightarrow> string slice \<Rightarrow> bool" where
  "says_ids lib ids m key s \<longleftrightarrow>
     (\<exists>i entry v. holds_entry lib ids m key i entry \<and> import_text lib (json_get entry ''value'') = Inr v \<and>
        s \<noteq> None \<and> lists_ids v (items s))"

definition says_flag :: "import_lib \<Rightarrow> field_ids \<Rightarrow> json list \<Rightarrow> json_map \<Rightarrow> string \<Rightarrow> bool \<Rightarrow> bool" where
  "says_flag lib ids defs m key b \<longleftrightarrow>
     (\<exists>i entry def. holds_entry lib ids m key i entry \<and> JObject def \<in> set defs \<and>
        importID (json_get def ''id'') = Inr i \<and> import_select def entry = Inr b)"

definition says_rule :: "import_lib \<Rightarrow> field_ids \<Rightarrow> json list \<Rightarrow> json_map \<Rightarrow> control_rule \<Rightarrow> bool" where
  "says_rule lib ids defs m r \<longleftrightarrow>
     (\<exists>i entry u. holds_entry lib ids m ''rule_uid'' i entry \<and> json_get entry ''value'' = JString u \<and>
        jl_parse (im_json lib) (ToValidUTF8 u) = Some (cr_RuleUID r)) \<and>
     (\<exists>n. json_get m ''name'' = JString n \<and> cr_Name r = TrimSpace (ToValidUTF8 n)) \<and>
     says_ids lib ids m ''users'' (cr_Users r) \<and> says_ids lib ids m ''customer_statuses'' (cr_CustomerStatuses r) \<and>
     (\<exists>i entry vs. holds_entry lib ids m ''pipelines'' i entry \<and> import_text lib (json_get entry ''value'') = Inr (JArray vs) \<and>
        cr_Pipelines r \<noteq> None \<and> list_all2 describes_pipeline vs (items (cr_Pipelines r))) \<and>
     says_flag lib ids defs m ''show_modal'' (cr_ShowModal r) \<and> says_flag lib ids defs m ''deny_exit'' (cr_DenyExit r) \<and>
     says_flag lib ids defs m ''check_responsible'' (cr_CheckResponsible r) \<and> says_flag lib ids defs m ''customers'' (cr_Customers r) \<and>
     says_flag lib ids defs m ''enabled'' (cr_Enabled r) \<and> says_flag lib ids defs m ''archived'' (cr_Archived r)"

lemma importLegacy_Inr:
  assumes "importLegacy lib v = Inr r"
  obtains m u n i users statuses vs ps where "v = JObject m" "json_get m ''uid'' = JString u" "json_get m ''name'' = JString n"
    "jl_parse (im_json lib) (ToValidUTF8 u) = Some i" "lists_ids (json_get m ''users'') users"
    "lists_ids (json_get m ''customer_statuses'') statuses"
    "json_get m ''pipelines'' = JArray vs" "list_all2 describes_pipeline vs ps"
    "cr_RuleUID r = i" "cr_Name r = ToValidUTF8 n" "cr_Users r = Some users" "cr_CustomerStatuses r = Some statuses"
    "cr_Pipelines r = Some ps" "json_get m ''show_modal'' = JBool (cr_ShowModal r)"
    "json_get m ''deny_exit'' = JBool (cr_DenyExit r)" "json_get m ''check_responsible'' = JBool (cr_CheckResponsible r)"
    "json_get m ''customers'' = JBool (cr_Customers r)" "json_get m ''enabled'' = JBool (cr_Enabled r)"
    "json_get m ''archived'' = JBool (cr_Archived r)"
proof -
  have flag: "import_flag m k = Inr b \<Longrightarrow> json_get m k = JBool b" for m k b
    by (auto simp: import_flag_def split: json.splits)
  obtain m users statuses vs ps modal deny check customers enabled archived where parts:
    "v = JObject m" "lists_ids (json_get m ''users'') users" "lists_ids (json_get m ''customer_statuses'') statuses"
    "json_get m ''pipelines'' = JArray vs" "list_all2 (\<lambda>x y. import_pipeline x = Inr y) vs ps"
    "json_get m ''show_modal'' = JBool modal" "json_get m ''deny_exit'' = JBool deny"
    "json_get m ''check_responsible'' = JBool check" "json_get m ''customers'' = JBool customers"
    "json_get m ''enabled'' = JBool enabled" "json_get m ''archived'' = JBool archived"
    and wire: "decode_rule (im_json lib) (reread (wire_rule (json_get m ''uid'') (json_get m ''name'') users ps
                  statuses modal deny check customers enabled archived)) = Some r"
    using assms unfolding importLegacy_def
    by (clarsimp simp: try_bind_Inr try_map_Inr split: json.splits if_splits option.splits dest!: importIDs_Inr flag)
  from parts(5) have ps: "list_all2 describes_pipeline vs ps"
    by (rule list.rel_mono_strong) (use import_pipeline_Inr in blast)
  from decode_wire[OF lists_ids_valid[OF parts(2)] lists_ids_valid[OF parts(3)] ps wire] parts ps that
  show thesis by (elim exE conjE) simp
qed

lemma fields_by_id_Inr:
  "fields_by_id byID byCode vs = Inr out \<Longrightarrow> map_of out i = Some d \<Longrightarrow>
     map_of byID i = Some d \<or> (JObject d \<in> set vs \<and> importID (json_get d ''id'') = Inr i)"
proof (induction byID byCode vs rule: fields_by_id.induct)
  case (2 byID byCode v vs)
  obtain g where g: "v = JObject g" using "2.prems"(1) by (auto split: json.splits)
  define c where "c = (case json_get g ''code'' of JString s \<Rightarrow> s | _ \<Rightarrow> '''')"
  obtain j where j: "importID (json_get g ''id'') = Inr j" "\<not> (map_of byID j \<noteq> None \<or> c \<noteq> '''' \<and> c \<in> set byCode)"
    "fields_by_id ((j, g) # byID) (c # byCode) vs = Inr out"
    using "2.prems"(1) unfolding g by (auto simp: Let_def c_def[symmetric] split: sum.splits if_splits)
  have "map_of ((j, g) # byID) i = Some d \<or> (JObject d \<in> set vs \<and> importID (json_get d ''id'') = Inr i)"
    by (rule "2.IH"[OF g c_def j "2.prems"(2)])
  with g j(1) show ?case by (auto split: if_splits)
qed simp

lemma values_by_field_Inr:
  "values_by_field given vs = Inr out \<Longrightarrow> map_of out i = Some f \<Longrightarrow>
     map_of given i = Some f \<or> (JObject f \<in> set vs \<and> importID (json_get f ''field_id'') = Inr i)"
proof (induction given vs rule: values_by_field.induct)
  case (2 given v vs)
  then obtain g j where g: "v = JObject g" "importID (json_get g ''field_id'') = Inr j" "map_of given j = None"
    "values_by_field ((j, g) # given) vs = Inr out"
    by (auto split: json.splits sum.splits if_splits)
  have "map_of ((j, g) # given) i = Some f \<or> (JObject f \<in> set vs \<and> importID (json_get f ''field_id'') = Inr i)"
    using "2.IH"[OF g(1) g(2) _ g(4) "2.prems"(2)] g(3) by simp
  with g(1,2) show ?case by (auto split: if_splits)
qed simp

lemma mapping_Inr:
  assumes "try_map (map_field lib ids byID) fs = Inr mapping" "map_of mapping key = Some i"
  shows "\<exists>v. field_value lib ids key = Inr v \<and> importID v = Inr i"
proof -
  have "(key, i) \<in> set mapping" by (rule map_of_SomeD[OF assms(2)])
  then obtain f where "map_field lib ids byID f = Inr (key, i)"
    using assms(1) by (auto simp: try_map_Inr dest!: list_all2_right)
  then show ?thesis by (auto simp: map_field_def try_bind_Inr split: prod.splits option.splits if_splits)
qed

text \<open>What one cell contributes.\<close>

definition contributes ::
    "import_lib \<Rightarrow> field_ids \<Rightarrow> json list \<Rightarrow> json_map \<Rightarrow> string \<Rightarrow> string \<times> json \<Rightarrow> bool" where
  "contributes lib ids defs m key e \<longleftrightarrow>
     (\<exists>i entry. holds_entry lib ids m key i entry \<and>
       (if key = ''rule_uid'' then e = (''uid'', json_get entry ''value'')
        else if key \<in> {''users'', ''pipelines'', ''customer_statuses''}
        then fst e = key \<and> import_text lib (json_get entry ''value'') = Inr (snd e)
        else \<exists>b. e = (key, JBool b) \<and> says_flag lib ids defs m key b))"

lemma import_field_Inr:
  assumes "import_field lib byID mapping given key = Inr e"
    and mapping: "try_map (map_field lib ids byID) fs = Inr mapping"
    and byID: "fields_by_id [] [] defs = Inr byID"
    and given: "values_by_field [] vs = Inr given" "json_get m ''custom_fields_values'' = JArray vs"
  shows "contributes lib ids defs m key e"
proof -
  obtain f where cell: "Option.bind (map_of mapping key) (map_of given) = Some f"
    using assms(1) by (auto simp: import_field_def split: option.splits)
  then obtain i where i: "map_of mapping key = Some i" "map_of given i = Some f" by (auto simp: bind_eq_Some_conv)
  obtain entry where f: "json_get f ''values'' = JArray [JObject entry]"
    using assms(1) by (auto simp: import_field_def cell split: json.splits list.splits)
  have e: "(if key = ''rule_uid'' then Inr (''uid'', json_get entry ''value'')
       else if key \<in> {''users'', ''pipelines'', ''customer_statuses''}
       then try_bind (import_text lib (json_get entry ''value'')) (\<lambda>v. Inr (key, v))
       else try_bind (import_select (case map_of byID i of None \<Rightarrow> [] | Some d \<Rightarrow> d) entry) (\<lambda>b. Inr (key, JBool b))) = Inr e"
    using assms(1) unfolding import_field_def i bind.bind_lunit option.case f json.case list.case .
  have holds: "holds_entry lib ids m key i entry"
    using mapping_Inr[OF mapping i(1)] values_by_field_Inr[OF given(1) i(2)] given(2) f
    by (auto simp: holds_entry_def)
  show ?thesis
  proof (cases "key = ''rule_uid''")
    case True
    with e holds show ?thesis unfolding contributes_def by (intro exI[of _ i] exI[of _ entry]) simp
  next
    case uid: False
    show ?thesis
    proof (cases "key \<in> {''users'', ''pipelines'', ''customer_statuses''}")
      case True
      with e uid obtain v where "import_text lib (json_get entry ''value'') = Inr v" "e = (key, v)"
        by (simp only: if_True if_False try_bind_Inr) blast
      with True uid holds show ?thesis unfolding contributes_def
        by (intro exI[of _ i] exI[of _ entry]) (simp only: if_True if_False fst_conv snd_conv simp_thms)
    next
      case False
      then obtain b where b: "import_select (case map_of byID i of None \<Rightarrow> [] | Some d \<Rightarrow> d) entry = Inr b" "e = (key, JBool b)"
        using e uid by (simp only: if_False try_bind_Inr) blast
      have "(key, i) \<in> set mapping" by (rule map_of_SomeD[OF i(1)])
      then obtain g where "map_field lib ids byID g = Inr (key, i)"
        using mapping by (auto simp: try_map_Inr dest!: list_all2_right)
      then obtain d where d: "map_of byID i = Some d"
        by (auto simp: map_field_def try_bind_Inr split: prod.splits option.splits if_splits)
      with fields_by_id_Inr[OF byID d] b(1) holds have "says_flag lib ids defs m key b"
        by (auto simp: says_flag_def)
      with b(2) holds False uid show ?thesis unfolding contributes_def
        by (intro exI[of _ i] exI[of _ entry]) (simp only: if_False simp_thms, blast)
    qed
  qed
qed

lemma import_element_Inr:
  assumes "import_element lib byID mapping m = Inr r"
    and mapping: "try_map (map_field lib ids byID) fs = Inr mapping"
    and byID: "fields_by_id [] [] defs = Inr byID"
  shows "says_rule lib ids defs m r"
proof -
  obtain vs given entries q where vs: "json_get m ''custom_fields_values'' = JArray vs" "values_by_field [] vs = Inr given"
    and entries: "list_all2 (\<lambda>f e. import_field lib byID mapping given (fst f) = Inr e) importFields entries"
    and q: "importLegacy lib (JObject ((''name'', json_get m ''name'') # entries)) = Inr q"
    and r: "r = q\<lparr>cr_Name := TrimSpace (cr_Name q)\<rparr>"
    using assms(1) by (auto simp: import_element_def try_bind_Inr try_map_Inr split: json.splits)
  have "list_all2 (\<lambda>f e. contributes lib ids defs m (fst f) e) importFields entries"
    using entries by (rule list.rel_mono_strong) (use import_field_Inr[OF _ mapping byID vs(2,1)] in blast)
  then obtain e0 e1 e2 e3 f1 f2 f3 f4 f5 f6 where es: "entries = [e0, e1, e2, e3, f1, f2, f3, f4, f5, f6]"
    and c: "contributes lib ids defs m ''rule_uid'' e0" "contributes lib ids defs m ''users'' e1"
      "contributes lib ids defs m ''pipelines'' e2" "contributes lib ids defs m ''customer_statuses'' e3"
      "contributes lib ids defs m ''show_modal'' f1" "contributes lib ids defs m ''deny_exit'' f2"
      "contributes lib ids defs m ''check_responsible'' f3" "contributes lib ids defs m ''customers'' f4"
      "contributes lib ids defs m ''enabled'' f5" "contributes lib ids defs m ''archived'' f6"
    by (auto simp: importFields_def list_all2_Cons1)
  have flag: "contributes lib ids defs m key e \<Longrightarrow> \<exists>b. e = (key, JBool b) \<and> says_flag lib ids defs m key b"
    if "key \<notin> {''rule_uid'', ''users'', ''pipelines'', ''customer_statuses''}" for key e
    using that by (auto simp: contributes_def)
  obtain i0 en0 where u: "holds_entry lib ids m ''rule_uid'' i0 en0" "e0 = (''uid'', json_get en0 ''value'')"
    using c(1) by (auto simp: contributes_def)
  have list: "contributes lib ids defs m key e \<Longrightarrow> \<exists>i entry v. holds_entry lib ids m key i entry \<and>
      import_text lib (json_get entry ''value'') = Inr v \<and> e = (key, v)"
    if "key \<in> {''users'', ''pipelines'', ''customer_statuses''}" for key e
    using that by (cases e) (fastforce simp: contributes_def)
  from list[OF _ c(2)] list[OF _ c(3)] list[OF _ c(4)] obtain i1 n1 v1 i2 n2 v2 i3 n3 v3 where
    l: "holds_entry lib ids m ''users'' i1 n1" "import_text lib (json_get n1 ''value'') = Inr v1" "e1 = (''users'', v1)"
      "holds_entry lib ids m ''pipelines'' i2 n2" "import_text lib (json_get n2 ''value'') = Inr v2" "e2 = (''pipelines'', v2)"
      "holds_entry lib ids m ''customer_statuses'' i3 n3" "import_text lib (json_get n3 ''value'') = Inr v3" "e3 = (''customer_statuses'', v3)"
    by auto
  from flag[OF _ c(5)] flag[OF _ c(6)] flag[OF _ c(7)] flag[OF _ c(8)] flag[OF _ c(9)] flag[OF _ c(10)]
  obtain b1 b2 b3 b4 b5 b6 where b: "f1 = (''show_modal'', JBool b1)" "says_flag lib ids defs m ''show_modal'' b1"
      "f2 = (''deny_exit'', JBool b2)" "says_flag lib ids defs m ''deny_exit'' b2"
      "f3 = (''check_responsible'', JBool b3)" "says_flag lib ids defs m ''check_responsible'' b3"
      "f4 = (''customers'', JBool b4)" "says_flag lib ids defs m ''customers'' b4"
      "f5 = (''enabled'', JBool b5)" "says_flag lib ids defs m ''enabled'' b5"
      "f6 = (''archived'', JBool b6)" "says_flag lib ids defs m ''archived'' b6"
    by auto
  let ?w = "(''name'', json_get m ''name'') # entries"
  have get: "json_get ?w ''uid'' = json_get en0 ''value''" "json_get ?w ''name'' = json_get m ''name''"
    "json_get ?w ''users'' = v1" "json_get ?w ''pipelines'' = v2" "json_get ?w ''customer_statuses'' = v3"
    "json_get ?w ''show_modal'' = JBool b1" "json_get ?w ''deny_exit'' = JBool b2" "json_get ?w ''check_responsible'' = JBool b3"
    "json_get ?w ''customers'' = JBool b4" "json_get ?w ''enabled'' = JBool b5" "json_get ?w ''archived'' = JBool b6"
    by (simp_all add: es u(2) l(3,6,9) b json_get_def)
  show ?thesis
  proof (rule importLegacy_Inr[OF q], goal_cases)
    case (1 w x n i users statuses ws ps)
    then have w: "w = ?w" by simp
    note f = 1(2-)[unfolded w get]
    have ids: "says_ids lib ids m ''users'' (cr_Users r)" "says_ids lib ids m ''customer_statuses'' (cr_CustomerStatuses r)"
      unfolding says_ids_def r using l(1,2,7,8) f(4,5,10,11) by simp_all blast+
    have "holds_entry lib ids m ''pipelines'' i2 n2 \<and> import_text lib (json_get n2 ''value'') = Inr (JArray ws) \<and>
        cr_Pipelines r \<noteq> None \<and> list_all2 describes_pipeline ws (items (cr_Pipelines r))"
      using l(4,5) f(6,7,12) by (simp add: r)
    moreover have "holds_entry lib ids m ''rule_uid'' i0 en0 \<and> json_get en0 ''value'' = JString x \<and>
        jl_parse (im_json lib) (ToValidUTF8 x) = Some (cr_RuleUID r)"
      using u(1) f(1,3,8) by (simp add: r)
    moreover have "json_get m ''name'' = JString n \<and> cr_Name r = TrimSpace (ToValidUTF8 n)"
      using f(2,9) by (simp add: r)
    moreover have "cr_ShowModal r = b1" "cr_DenyExit r = b2" "cr_CheckResponsible r = b3" "cr_Customers r = b4"
      "cr_Enabled r = b5" "cr_Archived r = b6"
      using f(13-18) by (simp_all add: r)
    ultimately show ?case unfolding says_rule_def using ids b by blast
  qed
qed

definition live :: "json \<Rightarrow> bool" where
  "live v \<longleftrightarrow> (case v of JObject m \<Rightarrow> json_get m ''is_deleted'' \<noteq> JBool True | _ \<Rightarrow> True)"

lemma import_elements_Inr:
  "import_elements lib byID mapping seen vs = Inr rs \<Longrightarrow>
     list_all2 (\<lambda>v r. \<exists>m. v = JObject m \<and> import_element lib byID mapping m = Inr r) (filter live vs) rs"
proof (induction lib byID mapping seen vs arbitrary: rs rule: import_elements.induct)
  case (2 lib byID mapping seen v vs)
  obtain m i where m: "v = JObject m" "importID (json_get m ''id'') = Inr i" "i \<notin> set seen"
    using "2.prems" by (auto split: json.splits sum.splits if_splits)
  show ?case
  proof (cases "json_get m ''is_deleted'' = JBool True")
    case True
    with "2.prems" m have "import_elements lib byID mapping (i # seen) vs = Inr rs" by simp
    from "2.IH"(1)[OF m(1,2) _ True this] m(3) True show ?thesis by (simp add: m(1) live_def)
  next
    case False
    then obtain r qs where r: "import_element lib byID mapping m = Inr r"
      "import_elements lib byID mapping (i # seen) vs = Inr qs" "rs = r # qs"
      using "2.prems" m by (auto simp: try_bind_Inr)
    from "2.IH"(2)[OF m(1,2) _ False r(2)] m(3) False r(1,3) show ?thesis by (simp add: m(1) live_def)
  qed
qed simp

lemma importCatalogRules_Inr:
  assumes "importCatalogRules lib source ids = Inr rs"
  shows "\<exists>defs elements. json_get source ''fields'' = JArray defs \<and> json_get source ''elements'' = JArray elements \<and>
    length elements \<le> 1000 \<and>
    list_all2 (\<lambda>v r. \<exists>m. v = JObject m \<and> says_rule lib ids defs m r) (filter live elements) rs"
proof -
  obtain defs elements byID mapping where parts: "json_get source ''fields'' = JArray defs" "fields_by_id [] [] defs = Inr byID"
    "try_map (map_field lib ids byID) importFields = Inr mapping" "json_get source ''elements'' = JArray elements"
    "length elements \<le> 1000" "import_elements lib byID mapping [] elements = Inr rs"
    using assms unfolding importCatalogRules_def json_case_Inr
    by (auto simp: try_bind_Inr json_case_Inr split: if_splits)
  from import_elements_Inr[OF parts(6)]
  have "list_all2 (\<lambda>v r. \<exists>m. v = JObject m \<and> says_rule lib ids defs m r) (filter live elements) rs"
    by (rule list.rel_mono_strong) (use import_element_Inr[OF _ parts(3,2)] in blast)
  with parts show ?thesis by blast
qed

text \<open>What acceptance means before it is said of which source.\<close>

lemma ValidateImportCapture_Nil:
  "ValidateImportCapture lib rules raw ids code kind cid acc = [] \<longleftrightarrow>
     ValidateRules (im_uuid lib) rules = [] \<and>
     (\<exists>original. captured_rules lib raw ids code kind cid acc = Inr original \<and>
        ValidateRules (im_uuid lib) (Some original) = [] \<and>
        snd (Legacy (im_sha256 lib) original) = snd (Legacy (im_sha256 lib) (items rules)))"
  by (auto simp: ValidateImportCapture_def split: sum.splits list.splits if_splits)

lemma captured_rules_Inr:
  "captured_rules lib raw ids code kind cid acc = Inr original \<longleftrightarrow>
     code = ''RKRS_WT_RULE_UID'' \<and> length ids = length importFields \<and>
     field_map_error lib ids [] (map fst importFields) = None \<and>
     (\<exists>source. import_source lib raw = Inr source \<and> catalog_error source kind cid acc = None \<and>
        (kind = ''runtime_config'' \<and> import_runtime lib source ids cid = Inr original \<or>
         kind = ''catalog'' \<and> importCatalogRules lib source ids = Inr original))"
proof -
  have guard: "(if b then Inl e else f) = Inr y \<longleftrightarrow> \<not> b \<and> f = Inr y" for b and e :: import_error and f and y :: "control_rule list"
    by simp
  have check: "(case x of None \<Rightarrow> f | Some e \<Rightarrow> Inl e) = Inr y \<longleftrightarrow> x = None \<and> f = Inr y"
    for x and f :: "import_error + control_rule list" and y
    by (cases x) simp_all
  have kinds: "(if kind = ''runtime_config'' then f else if kind = ''catalog'' then g else Inl e) = Inr y \<longleftrightarrow>
      kind = ''runtime_config'' \<and> f = Inr y \<or> kind = ''catalog'' \<and> g = Inr y"
    for f g :: "import_error + control_rule list" and e y by auto
  show ?thesis unfolding captured_rules_def guard try_bind_Inr check kinds not_not by blast
qed

lemma capture_meaning:
  assumes "ValidateRules ul rules = []" "ValidateRules ul (Some original) = []"
    "snd (Legacy sha256 original) = snd (Legacy sha256 (items rules))"
    "\<not> collision sha256 original (items rules)" "\<forall>r\<in>set original \<union> set (items rules). plain_rule r"
  shows "rule_meaning ` set original = rule_meaning ` set (items rules) \<and> length original = length (items rules)"
  using checksum_meaning[OF assms(2,1), of sha256] assms(3-5) by simp

end
