(* ===== verification/Control_Capture.thy ===== *)
theory Control_Capture
  imports Control_Reading
begin

section \<open>Task control: what an accepted import stores\<close>

text \<open>
  The rules of an accepted capture are, up to a collision of the hash, those of the elements of the
  catalog that are not deleted, or those the widget published; nothing is repaired or left out. When
  the comparison with the other source finds nothing, that source passes the same check. The example is
  a capture with one rule, kept in both sources.
\<close>

subsection \<open>The properties\<close>

text \<open>(C34) An accepted import from the catalog is complete and repairs nothing: the elements that are not
  deleted, in their order, say one rule each, with the identifiers, selections and flags of their cells,
  and these rules have the checksum of the stored ones. Unless their two texts are a collision of the hash, the stored
  rules therefore say exactly what the elements say, one rule for each of them, as long as the rules on
  both sides are plain: the names are UTF-8, and no name or identifier holds the six characters of an
  escaped line separator, which \<^verbatim>\<open>Legacy\<close> confuses with the separator itself, so that the checksum does not
  tell the two apart.\<close>

theorem catalog_import_complete:
  assumes "ValidateImportCapture lib rules raw ids code ''catalog'' cid acc = []"
  shows "\<exists>source defs elements original. import_source lib raw = Inr source \<and> json_get source ''fields'' = JArray defs \<and>
     json_get source ''elements'' = JArray elements \<and> length elements \<le> 1000 \<and>
     list_all2 (\<lambda>v r. \<exists>m. v = JObject m \<and> says_rule lib ids defs m r) (filter live elements) original \<and>
     snd (Legacy (im_sha256 lib) original) = snd (Legacy (im_sha256 lib) (items rules)) \<and>
     (\<not> collision (im_sha256 lib) original (items rules) \<longrightarrow> (\<forall>r\<in>set original \<union> set (items rules). plain_rule r) \<longrightarrow>
        rule_meaning ` set original = rule_meaning ` set (items rules) \<and> length (filter live elements) = length (items rules))"
proof -
  obtain original source where valid: "ValidateRules (im_uuid lib) rules = []" "ValidateRules (im_uuid lib) (Some original) = []"
    and same: "snd (Legacy (im_sha256 lib) original) = snd (Legacy (im_sha256 lib) (items rules))"
    and source: "import_source lib raw = Inr source" "importCatalogRules lib source ids = Inr original"
    using assms by (auto simp: ValidateImportCapture_Nil captured_rules_Inr)
  obtain defs elements where parts: "json_get source ''fields'' = JArray defs" "json_get source ''elements'' = JArray elements"
    "length elements \<le> 1000"
    and says: "list_all2 (\<lambda>v r. \<exists>m. v = JObject m \<and> says_rule lib ids defs m r) (filter live elements) original"
    using importCatalogRules_Inr[OF source(2)] by blast
  show ?thesis
    using parts says source(1) same capture_meaning[OF valid same] list_all2_lengthD[OF says]
    by (intro exI[of _ source] exI[of _ defs] exI[of _ elements] exI[of _ original]) simp
qed

text \<open>An accepted import from the widget's configuration stores what was published: the hash the
  widget published is the checksum of the stored rules, and the configuration is the one kept in this
  catalog.\<close>

theorem runtime_import_published:
  assumes "ValidateImportCapture lib rules raw ids code ''runtime_config'' cid acc = []"
  shows "\<exists>source cfg a original pub storage. import_source lib raw = Inr source \<and>
     unwrap lib 2 (json_get source ''runtimeConfig'') = Inr (JObject cfg) \<and> json_get cfg ''rules'' = JArray a \<and>
     list_all2 (\<lambda>v r. importLegacy lib v = Inr r) a original \<and>
     json_get cfg ''published'' = JObject pub \<and> json_get pub ''hash'' = JString (snd (Legacy (im_sha256 lib) (items rules))) \<and>
     json_get cfg ''storage'' = JObject storage \<and> importID (json_get storage ''catalog_id'') = Inr cid \<and>
     (\<not> collision (im_sha256 lib) original (items rules) \<longrightarrow> (\<forall>r\<in>set original \<union> set (items rules). plain_rule r) \<longrightarrow>
        rule_meaning ` set original = rule_meaning ` set (items rules) \<and> length a = length (items rules))"
proof -
  obtain original source where valid: "ValidateRules (im_uuid lib) rules = []" "ValidateRules (im_uuid lib) (Some original) = []"
    and same: "snd (Legacy (im_sha256 lib) original) = snd (Legacy (im_sha256 lib) (items rules))"
    and source: "import_source lib raw = Inr source" "import_runtime lib source ids cid = Inr original"
    using assms by (auto simp: ValidateImportCapture_Nil captured_rules_Inr)
  obtain cfg a pub storage where cfg: "unwrap lib 2 (json_get source ''runtimeConfig'') = Inr (JObject cfg)"
    "json_get cfg ''rules'' = JArray a" "try_map (importLegacy lib) a = Inr original"
    "json_get cfg ''published'' = JObject pub" "json_get pub ''hash'' = JString (snd (Legacy (im_sha256 lib) original))"
    "json_get cfg ''storage'' = JObject storage" "importID (json_get storage ''catalog_id'') = Inr cid"
    using source(2) unfolding import_runtime_def try_bind_Inr json_case_Inr
    by (auto simp: try_bind_Inr json_case_Inr split: if_splits option.splits)
  have rules: "list_all2 (\<lambda>v r. importLegacy lib v = Inr r) a original" using cfg(3) by (simp add: try_map_Inr)
  show ?thesis
    using cfg rules source(1) same capture_meaning[OF valid same] list_all2_lengthD[OF rules]
    by (intro exI[of _ source] exI[of _ cfg] exI[of _ a] exI[of _ original] exI[of _ pub] exI[of _ storage]) simp
qed

text \<open>(C35) When the comparison of an accepted import with its other source finds nothing, the other
  source holds rules that pass the same check and have the same checksum: catalog and published
  configuration say the same.\<close>

theorem import_sources_agree:
  assumes "ValidateImportCapture lib rules raw ids code kind cid acc = []"
    and "ImportCaptureDiscrepancies lib rules raw code kind cid acc = []"
  shows "\<exists>other ids'. ValidateImportCapture lib (Some other) raw ids' code
        (if kind = ''catalog'' then ''runtime_config'' else ''catalog'') cid acc = [] \<and>
     snd (Legacy (im_sha256 lib) other) = snd (Legacy (im_sha256 lib) (items rules)) \<and>
     (\<not> collision (im_sha256 lib) other (items rules) \<longrightarrow> (\<forall>r\<in>set other \<union> set (items rules). plain_rule r) \<longrightarrow>
        rule_meaning ` set other = rule_meaning ` set (items rules))"
proof -
  obtain source where source: "import_source lib raw = Inr source" "kind = ''catalog'' \<or> kind = ''runtime_config''"
    and valid: "ValidateRules (im_uuid lib) rules = []"
    using assms(1) by (auto simp: ValidateImportCapture_Nil captured_rules_Inr)
  obtain other ids' where other: "ValidateImportCapture lib (Some other) raw ids' code
        (if kind = ''catalog'' then ''runtime_config'' else ''catalog'') cid acc = []"
    "snd (Legacy (im_sha256 lib) other) = snd (Legacy (im_sha256 lib) (items rules))"
  proof (cases "if kind = ''catalog'' then runtime_other lib source else catalog_other lib source")
    case (Some p)
    then show thesis using assms(2) source that[of "fst p" "snd p"]
      by (cases p) (auto simp: ImportCaptureDiscrepancies_def Let_def split: if_splits)
  qed (use assms(2) source in \<open>simp add: ImportCaptureDiscrepancies_def Let_def split: if_splits\<close>)
  then have "ValidateRules (im_uuid lib) (Some other) = []" by (simp add: ValidateImportCapture_Nil)
  with other capture_meaning[OF valid _ other(2)] show ?thesis by blast
qed

subsection \<open>An example\<close>

definition captured_example :: control_rule where
  "captured_example = rule_example ''A'' [''5'', ''9'']"

text \<open>One rule, as an element of the catalog and in the published configuration.\<close>

definition field_numbers :: "(string \<times> string) list" where
  "field_numbers = zip (map fst importFields) [''1'', ''2'', ''3'', ''4'', ''5'', ''6'', ''7'', ''8'', ''9'', ''10'']"

definition users_example :: json where "users_example = JArray [JNumber ''5'', JNumber ''9'']"

definition pipelines_example :: json where
  "pipelines_example = JArray [JObject [(''pipeline_id'', JNumber ''7''), (''status_ids'', JArray [JNumber ''10'', JNumber ''9''])]]"

definition definitions_example :: "json list" where
  "definitions_example =
    [JObject [(''id'', JNumber ''1''), (''code'', JString ''RKRS_WT_RULE_UID''), (''type'', JString ''text'')],
     JObject [(''id'', JNumber ''2''), (''code'', JString ''RKRS_WT_USERS''), (''type'', JString ''text'')],
     JObject [(''id'', JNumber ''3''), (''code'', JString ''RKRS_WT_PIPELINES''), (''type'', JString ''text'')],
     JObject [(''id'', JNumber ''4''), (''code'', JString ''RKRS_WT_CUSTOMER_STATUSES''), (''type'', JString ''text'')],
     JObject [(''id'', JNumber ''5''), (''code'', JString ''RKRS_WT_SHOW_MODAL''), (''type'', JString ''select'')],
     JObject [(''id'', JNumber ''6''), (''code'', JString ''RKRS_WT_DENY_EXIT''), (''type'', JString ''select'')],
     JObject [(''id'', JNumber ''7''), (''code'', JString ''RKRS_WT_CHECK_RESP''), (''type'', JString ''select'')],
     JObject [(''id'', JNumber ''8''), (''code'', JString ''RKRS_WT_CUSTOMERS''), (''type'', JString ''select'')],
     JObject [(''id'', JNumber ''9''), (''code'', JString ''RKRS_WT_ENABLED''), (''type'', JString ''select'')],
     JObject [(''id'', JNumber ''10''), (''code'', JString ''RKRS_WT_ARCHIVED''), (''type'', JString ''select'')]]"

definition by_id_example :: "(string \<times> json_map) list" where
  "by_id_example =
    [(''10'', [(''id'', JNumber ''10''), (''code'', JString ''RKRS_WT_ARCHIVED''), (''type'', JString ''select'')]),
     (''9'', [(''id'', JNumber ''9''), (''code'', JString ''RKRS_WT_ENABLED''), (''type'', JString ''select'')]),
     (''8'', [(''id'', JNumber ''8''), (''code'', JString ''RKRS_WT_CUSTOMERS''), (''type'', JString ''select'')]),
     (''7'', [(''id'', JNumber ''7''), (''code'', JString ''RKRS_WT_CHECK_RESP''), (''type'', JString ''select'')]),
     (''6'', [(''id'', JNumber ''6''), (''code'', JString ''RKRS_WT_DENY_EXIT''), (''type'', JString ''select'')]),
     (''5'', [(''id'', JNumber ''5''), (''code'', JString ''RKRS_WT_SHOW_MODAL''), (''type'', JString ''select'')]),
     (''4'', [(''id'', JNumber ''4''), (''code'', JString ''RKRS_WT_CUSTOMER_STATUSES''), (''type'', JString ''text'')]),
     (''3'', [(''id'', JNumber ''3''), (''code'', JString ''RKRS_WT_PIPELINES''), (''type'', JString ''text'')]),
     (''2'', [(''id'', JNumber ''2''), (''code'', JString ''RKRS_WT_USERS''), (''type'', JString ''text'')]),
     (''1'', [(''id'', JNumber ''1''), (''code'', JString ''RKRS_WT_RULE_UID''), (''type'', JString ''text'')])]"

definition element_example :: json_map where
  "element_example = [(''id'', JNumber ''9''), (''name'', JString ''A''), (''custom_fields_values'', JArray
    [JObject [(''field_id'', JNumber ''1''), (''values'', JArray [JObject [(''value'', JString ''r1'')]])],
     JObject [(''field_id'', JNumber ''2''), (''values'', JArray [JObject [(''value'', users_example)]])],
     JObject [(''field_id'', JNumber ''3''), (''values'', JArray [JObject [(''value'', pipelines_example)]])],
     JObject [(''field_id'', JNumber ''4''), (''values'', JArray [JObject [(''value'', JArray [])]])],
     JObject [(''field_id'', JNumber ''5''), (''values'', JArray [JObject [(''value'', JBool True)]])],
     JObject [(''field_id'', JNumber ''6''), (''values'', JArray [JObject [(''value'', JBool False)]])],
     JObject [(''field_id'', JNumber ''7''), (''values'', JArray [JObject [(''value'', JBool False)]])],
     JObject [(''field_id'', JNumber ''8''), (''values'', JArray [JObject [(''value'', JBool False)]])],
     JObject [(''field_id'', JNumber ''9''), (''values'', JArray [JObject [(''value'', JBool True)]])],
     JObject [(''field_id'', JNumber ''10''), (''values'', JArray [JObject [(''value'', JBool False)]])]])]"

definition runtime_example :: json_map where
  "runtime_example =
    [(''schema_version'', JNumber ''1''),
     (''rules'', JArray [JObject [(''uid'', JString ''r1''), (''name'', JString ''A''), (''users'', users_example),
        (''pipelines'', pipelines_example), (''customer_statuses'', JArray []), (''show_modal'', JBool True),
        (''deny_exit'', JBool False), (''check_responsible'', JBool False), (''customers'', JBool False),
        (''enabled'', JBool True), (''archived'', JBool False)]]),
     (''published'', JObject [(''hash'', JString (snd (Legacy (\<lambda>text. text) [captured_example])))]),
     (''storage'', JObject [(''catalog_id'', JNumber ''7''), (''fields'', JObject (map (\<lambda>(k, n). (k, JNumber n)) field_numbers))])]"

definition capture_example :: json_map where
  "capture_example =
    [(''catalog'', JObject [(''id'', JNumber ''7''), (''type'', JString ''regular''), (''account_id'', JNumber ''9'')]),
     (''fields'', JArray definitions_example),
     (''elements'', JArray [JObject [(''id'', JNumber ''5''), (''is_deleted'', JBool True)], JObject element_example]),
     (''runtimeConfig'', JObject runtime_example)]"

definition import_example :: import_lib where
  "import_example =
     \<lparr>im_json = \<lparr>jl_parse = Some, jl_nil = ''nil'', jl_fold = (\<lambda>s. s)\<rparr>, im_uuid = uuid_example,
      im_read = (\<lambda>s. if s = ''capture'' then Some (JObject capture_example)
        else if s \<in> set (map snd field_numbers) then Some (JNumber s) else None),
      im_sha256 = (\<lambda>text. text)\<rparr>"

lemma field_number_texts: "decimal (Suc 0) = ''1''" "decimal 2 = ''2''" "decimal 3 = ''3''" "decimal 4 = ''4''" "decimal 6 = ''6''" "decimal 8 = ''8''"
  by (simp_all add: decimal.simps digit_char_def char_of_def bit_Suc_0_iff)

lemma field_numbers_valid [simp]:
  "ValidCRMID ''1''" "ValidCRMID ''2''" "ValidCRMID ''3''" "ValidCRMID ''4''" "ValidCRMID ''5''"
  "ValidCRMID ''6''" "ValidCRMID ''7''" "ValidCRMID ''8''" "ValidCRMID ''9''" "ValidCRMID ''10''"
  using ValidCRMID_decimal[of 1] ValidCRMID_decimal[of 2] ValidCRMID_decimal[of 3] ValidCRMID_decimal[of 4]
    ValidCRMID_decimal[of 6] ValidCRMID_decimal[of 8] example_ids_valid
  by (simp_all add: field_number_texts)

lemma importID_number [simp]: "ValidCRMID n \<Longrightarrow> importID (JNumber n) = Inr n"
  by (simp add: importID_def)

lemma field_numbers_list:
  "field_numbers = [(''rule_uid'', ''1''), (''users'', ''2''), (''pipelines'', ''3''), (''customer_statuses'', ''4''),
     (''show_modal'', ''5''), (''deny_exit'', ''6''), (''check_responsible'', ''7''), (''customers'', ''8''),
     (''enabled'', ''9''), (''archived'', ''10'')]"
  by (simp add: field_numbers_def importFields_def)

lemma field_numbers_plain: "\<forall>n\<in>set (map snd field_numbers). ValidCRMID n \<and> n \<noteq> ''capture''"
  by (simp add: field_numbers_list)

lemma read_number_example:
  assumes "n \<in> set (map snd field_numbers)"
  shows "importJSON import_example n = Inr (JNumber n) \<and> importID (JNumber n) = Inr n"
proof -
  have "ValidCRMID n" "n \<noteq> ''capture''" using assms field_numbers_plain by blast+
  with assms show ?thesis by (simp add: importJSON_def import_example_def del: set_map)
qed

lemma field_value_example:
  assumes "map_of field_numbers k = Some n"
  shows "field_value import_example field_numbers k = Inr (JNumber n)"
proof -
  have "(k, n) \<in> set field_numbers" by (rule map_of_SomeD[OF assms])
  then have "n \<in> set (map snd field_numbers)" by (metis list.set_map image_eqI snd_conv)
  with assms show ?thesis by (simp add: field_value_def read_number_example del: set_map)
qed

lemma import_ids_example:
  "importIDs users_example = Inr [''5'', ''9'']" "importIDs (JArray []) = Inr []"
  by (simp_all add: importIDs_def users_example_def)

lemma import_pipelines_example:
  "\<exists>ps. pipelines_example = JArray ps \<and> try_map import_pipeline ps = Inr [\<lparr>pp_PipelineID = ''7'', pp_StatusIDs = Some [''10'', ''9'']\<rparr>]"
  by (simp add: pipelines_example_def import_pipeline_def json_get_def importIDs_def)

lemma example_texts: "ToValidUTF8 ''r1'' = ''r1''" "ToValidUTF8 ''A'' = ''A''"
  by (simp_all add: ToValidUTF8_ascii ascii_def)

lemma importLegacy_example:
  assumes "length m = 11" "map_of m ''uid'' = Some (JString ''r1'')" "map_of m ''name'' = Some (JString ''A'')"
    "map_of m ''users'' = Some users_example" "map_of m ''pipelines'' = Some pipelines_example"
    "map_of m ''customer_statuses'' = Some (JArray [])" "map_of m ''show_modal'' = Some (JBool True)"
    "map_of m ''deny_exit'' = Some (JBool False)" "map_of m ''check_responsible'' = Some (JBool False)"
    "map_of m ''customers'' = Some (JBool False)" "map_of m ''enabled'' = Some (JBool True)"
    "map_of m ''archived'' = Some (JBool False)"
  shows "importLegacy import_example (JObject m) = Inr captured_example"
proof -
  let ?ps = "[\<lparr>pp_PipelineID = ''7'', pp_StatusIDs = Some [''10'', ''9'']\<rparr>]"
  obtain ps where ps: "pipelines_example = JArray ps" "try_map import_pipeline ps = Inr ?ps"
    using import_pipelines_example by blast
  then have "list_all2 describes_pipeline ps ?ps"
    using import_pipeline_Inr by (auto simp: try_map_Inr elim!: list.rel_mono_strong)
  note pipelines_wire[OF this]
  moreover note strings_wire[of "[''5'', ''9'']"] strings_wire[of "[]"]
  ultimately have wire: "decode_rule (im_json import_example) (reread (wire_rule (JString ''r1'') (JString ''A'') [''5'', ''9''] ?ps
      [] True False False False True False)) = Some captured_example"
    by (simp add: wire_rule_def decode_rule_def stable_names rule_names_def last_of_def field_named_def set_rule_field_def
        set_unless_null_def zero_rule_def example_texts dec_uuid_def import_example_def captured_example_def rule_example_def)
  show ?thesis
    by (simp add: importLegacy_def import_required_def json_get_def import_ids_example import_flag_def assms wire ps(2) ps(1))
qed

lemma field_values:
  "field_value import_example field_numbers ''rule_uid'' = Inr (JNumber ''1'')"
  "field_value import_example field_numbers ''users'' = Inr (JNumber ''2'')"
  "field_value import_example field_numbers ''pipelines'' = Inr (JNumber ''3'')"
  "field_value import_example field_numbers ''customer_statuses'' = Inr (JNumber ''4'')"
  "field_value import_example field_numbers ''show_modal'' = Inr (JNumber ''5'')"
  "field_value import_example field_numbers ''deny_exit'' = Inr (JNumber ''6'')"
  "field_value import_example field_numbers ''check_responsible'' = Inr (JNumber ''7'')"
  "field_value import_example field_numbers ''customers'' = Inr (JNumber ''8'')"
  "field_value import_example field_numbers ''enabled'' = Inr (JNumber ''9'')"
  "field_value import_example field_numbers ''archived'' = Inr (JNumber ''10'')"
  by (rule field_value_example, simp add: field_numbers_list)+

lemma by_id_example: "fields_by_id [] [] definitions_example = Inr by_id_example"
  by (simp add: definitions_example_def by_id_example_def json_get_def Let_def)

lemma mapping_example: "try_map (map_field import_example field_numbers by_id_example) importFields = Inr field_numbers"
proof -
  have "list_all2 (\<lambda>f e. map_field import_example field_numbers by_id_example f = Inr e) importFields field_numbers"
    unfolding importFields_def by (subst (2) field_numbers_list) (simp add: map_field_def field_values by_id_example_def json_get_def)
  then show ?thesis by (simp add: try_map_Inr)
qed

lemma element_example: "import_element import_example by_id_example field_numbers element_example = Inr captured_example"
proof -
  have pipelines: "import_text lib pipelines_example = Inr pipelines_example" "import_text lib users_example = Inr users_example" for lib
    by (simp_all add: import_text_def pipelines_example_def users_example_def)
  have name: "captured_example\<lparr>cr_Name := TrimSpace (cr_Name captured_example)\<rparr> = captured_example"
    by (simp add: captured_example_def rule_example_def example_names)
  show ?thesis
    by (simp add: import_element_def element_example_def json_get_def importFields_def import_field_def field_numbers_list
        import_select_def import_bool_def pipelines import_text_def[of _ "JArray []"] importLegacy_example name by_id_example_def)
qed

lemma import_example_simps [simp]:
  "im_uuid import_example = uuid_example" "im_sha256 import_example = (\<lambda>text. text)"
  "importJSON import_example ''capture'' = (if unique_json (JObject capture_example) then Inr (JObject capture_example) else Inl ErrJSON)"
  by (simp_all add: import_example_def importJSON_def)

lemma source_example: "import_source import_example ''capture'' = Inr capture_example"
proof -
  have "unique_json (JObject runtime_example)"
    by (simp add: runtime_example_def users_example_def pipelines_example_def field_numbers_list)
  moreover have "unique_json (JObject element_example)"
    by (simp add: element_example_def users_example_def pipelines_example_def)
  moreover have "\<forall>v\<in>set definitions_example. unique_json v" by (simp add: definitions_example_def)
  ultimately have "unique_json (JObject capture_example)" by (simp add: capture_example_def)
  then show ?thesis by (simp add: import_source_def)
qed

lemma field_map_example: "field_map_error import_example field_numbers [] (map fst importFields) = None"
  by (simp add: importFields_def field_values)

lemma catalog_example: "catalog_error capture_example kind ''7'' ''9'' = None"
  by (simp add: catalog_error_def capture_example_def json_get_def)

lemma fields_example: "length field_numbers = length importFields"
  by (simp add: field_numbers_list importFields_def)

lemma catalog_rules_example: "importCatalogRules import_example capture_example field_numbers = Inr [captured_example]"
proof -
  have get: "json_get capture_example ''fields'' = JArray definitions_example"
    "json_get capture_example ''elements'' = JArray [JObject [(''id'', JNumber ''5''), (''is_deleted'', JBool True)], JObject element_example]"
    by (simp_all add: capture_example_def json_get_def)
  have "json_get element_example ''id'' = JNumber ''9''" "json_get element_example ''is_deleted'' = JNull"
    by (simp_all add: element_example_def json_get_def)
  then show ?thesis
    by (simp add: importCatalogRules_def get fields_example by_id_example mapping_example element_example
        json_get_def[of "[(''id'', JNumber ''5''), (''is_deleted'', JBool True)]"])
qed

lemma runtime_parts:
  "unwrap import_example 2 (json_get capture_example ''runtimeConfig'') = Inr (JObject runtime_example)"
  "json_get runtime_example ''schema_version'' = JNumber ''1''"
  "\<exists>a. json_get runtime_example ''rules'' = JArray a \<and> try_map (importLegacy import_example) a = Inr [captured_example]"
  "json_get runtime_example ''published'' = JObject [(''hash'', JString (snd (Legacy (\<lambda>text. text) [captured_example])))]"
  "json_get runtime_example ''storage'' = JObject [(''catalog_id'', JNumber ''7''), (''fields'', JObject (map (\<lambda>(k, n). (k, JNumber n)) field_numbers))]"
  by (simp_all add: capture_example_def runtime_example_def json_get_def numeral_2_eq_2 importLegacy_example)

lemma storage_example: "storage_unchanged import_example (map (\<lambda>(k, n). (k, JNumber n)) field_numbers) field_numbers = None"
proof -
  have kept: "distinct (map fst ids) \<Longrightarrow> set ids \<subseteq> set field_numbers \<Longrightarrow> set ids \<subseteq> set all \<Longrightarrow> distinct (map fst all) \<Longrightarrow>
      storage_unchanged import_example (map (\<lambda>(k, n). (k, JNumber n)) all) ids = None" for ids all
  proof (induction ids)
    case (Cons x ids)
    obtain k n where x: "x = (k, n)" by (cases x)
    with Cons.prems have n: "n \<in> set (map snd field_numbers)" by force
    have "map_of (map (\<lambda>(k, n). (k, JNumber n)) all) k = Some (JNumber n)"
      using Cons.prems x by (intro map_of_is_SomeI) (auto simp: comp_def case_prod_unfold intro!: image_eqI[of _ _ "(k, n)"])
    then have "json_get (map (\<lambda>(k, n). (k, JNumber n)) all) k = JNumber n" by (simp add: json_get_def)
    with Cons x read_number_example[OF n] show ?case by simp
  qed simp
  show ?thesis by (rule kept) (simp_all add: field_numbers_list)
qed

lemma runtime_rules_example: "import_runtime import_example capture_example field_numbers ''7'' = Inr [captured_example]"
proof -
  obtain a where a: "json_get runtime_example ''rules'' = JArray a" "try_map (importLegacy import_example) a = Inr [captured_example]"
    using runtime_parts(3) by blast
  show ?thesis
    by (simp add: import_runtime_def runtime_parts(1,2,4,5) a storage_example json_get_def[of "[(''hash'', _)]"]
        json_get_def[of "[(''catalog_id'', _), _]"])
qed

lemma captures_accepted:
  "kind = ''catalog'' \<or> kind = ''runtime_config'' \<Longrightarrow>
     ValidateImportCapture import_example (Some [captured_example]) ''capture'' field_numbers ''RKRS_WT_RULE_UID'' kind ''7'' ''9'' = []"
  using example_rules_valid(2)
  by (auto simp: ValidateImportCapture_Nil captured_rules_Inr source_example field_map_example catalog_example fields_example
      catalog_rules_example runtime_rules_example captured_example_def)

lemma marshalled_number: "marshalled (JNumber n) = n"
  by (simp add: marshalled_def)

lemma no_discrepancies:
  "ImportCaptureDiscrepancies import_example (Some [captured_example]) ''capture'' ''RKRS_WT_RULE_UID'' ''catalog'' ''7'' ''9'' = []"
proof -
  obtain a where a: "json_get runtime_example ''rules'' = JArray a" "try_map (importLegacy import_example) a = Inr [captured_example]"
    using runtime_parts(3) by blast
  have "map ((\<lambda>(k, v). (k, marshalled v)) \<circ> (\<lambda>(k, n). (k, JNumber n))) field_numbers = field_numbers"
    by (rule map_idI) (auto simp: marshalled_number)
  then have "runtime_other import_example capture_example = Some ([captured_example], field_numbers)"
    by (simp add: runtime_other_def runtime_parts(1,5) a json_get_def[of "[(''catalog_id'', _), _]"])
  then show ?thesis
    by (simp add: ImportCaptureDiscrepancies_def source_example captures_accepted)
qed

lemma no_collision: "\<not> collision (\<lambda>text. text) rules rules'"
  by (simp add: collision_def)

theorem catalog_import_complete_witness:
  "\<exists>source elements original. import_source import_example ''capture'' = Inr source \<and> json_get source ''elements'' = JArray elements \<and>
     length (filter live elements) = length original \<and>
     snd (Legacy (\<lambda>text. text) original) = snd (Legacy (\<lambda>text. text) [captured_example])"
  using catalog_import_complete[OF captures_accepted[of "''catalog''"]] by (auto dest: list_all2_lengthD)

theorem runtime_import_published_witness:
  "\<exists>cfg pub. unwrap import_example 2 (json_get capture_example ''runtimeConfig'') = Inr (JObject cfg) \<and>
     json_get cfg ''published'' = JObject pub \<and> json_get pub ''hash'' = JString (snd (Legacy (\<lambda>text. text) [captured_example]))"
  using runtime_import_published[OF captures_accepted[of "''runtime_config''"]] by (auto simp: source_example)

theorem import_sources_agree_witness:
  "\<exists>other ids. ValidateImportCapture import_example (Some other) ''capture'' ids ''RKRS_WT_RULE_UID'' ''runtime_config'' ''7'' ''9'' = [] \<and>
     snd (Legacy (\<lambda>text. text) other) = snd (Legacy (\<lambda>text. text) [captured_example])"
  using import_sources_agree[OF captures_accepted[of "''catalog''"] no_discrepancies] by auto

end
