(* ===== verification/Amo_Auth.thy ===== *)
theory Amo_Auth
  imports Base64 Control_Json
begin

section \<open>Sign-in through amoCRM: the token\<close>

text \<open>
  \<^verbatim>\<open>services/company/internal/domain/amoauth/verifier.go\<close>: the check of the JSON web token with which amoCRM
  says who opened the widget. HMAC-SHA256, \<^verbatim>\<open>url.ParseRequestURI\<close>, \<^verbatim>\<open>strings.ToLower\<close> and the reading of one JSON object
  with nothing after it are parameters. The clock is an argument. Seconds are \<^verbatim>\<open>int64\<close> and their sums wrap.
\<close>

subsection \<open>The verifier\<close>

record amo_lib =
  aml_object :: "bytes \<Rightarrow> (string \<rightharpoonup> json) option"
  aml_hmac :: "string \<Rightarrow> string \<Rightarrow> bytes"
  aml_uri :: "string \<Rightarrow> (string \<times> string) option"
  aml_lower :: "string \<Rightarrow> string"

datatype amo_error = AmoNotConfigured | AmoInvalidToken | AmoAlgorithm | AmoSignature | AmoFieldMissing string
  | AmoFieldInvalid string | AmoTime | AmoLifetime | AmoIntegration | AmoIssuer

record amo_identity =
  ai_AccountID :: int
  ai_UserID :: int
  ai_ClientUUID :: string
  ai_JTI :: string
  ai_ExpiresAt :: int
  ai_Issuer :: string

record amo_verifier =
  av_secret :: string
  av_clientUUID :: string
  av_audience :: string
  av_maxTTLSeconds :: int
  av_clockSkewSecs :: int

definition trim_slashes :: "string \<Rightarrow> string" where
  "trim_slashes s = rev (dropWhile (\<lambda>c. c = CHR ''/'') (rev s))"

definition NewVerifier :: "string \<Rightarrow> string \<Rightarrow> string \<Rightarrow> duration \<Rightarrow> duration \<Rightarrow> amo_verifier" where
  "NewVerifier secret clientUUID audience maxTTL clockSkew =
     \<lparr>av_secret = TrimSpace secret, av_clientUUID = TrimSpace clientUUID, av_audience = trim_slashes (TrimSpace audience),
      av_maxTTLSeconds = (if maxTTL < Minute then Minute else maxTTL) div second,
      av_clockSkewSecs = (if clockSkew < 0 then 0 else clockSkew) div second\<rparr>"

subsection \<open>Reading the token\<close>

definition decodeBase64URL :: "string \<Rightarrow> bytes option" where
  "decodeBase64URL value =
     (if value = '''' \<or> \<not> list_all (\<lambda>c. c \<in> set url_alphabet) value then None else RawURLDecoding value)"

definition decodeJSONObject :: "amo_lib \<Rightarrow> string \<Rightarrow> (string \<rightharpoonup> json) option" where
  "decodeJSONObject lib value = Option.bind (decodeBase64URL value) (aml_object lib)"

definition positiveInt :: "(string \<rightharpoonup> json) \<Rightarrow> string \<Rightarrow> amo_error + int" where
  "positiveInt payload key =
     (case payload key of
        Some (JNumber n) \<Rightarrow>
          (let (parsed, ok) = ParseInt n in if \<not> ok \<or> parsed \<le> 0 then Inl (AmoFieldInvalid key) else Inr parsed)
      | _ \<Rightarrow> Inl (AmoFieldMissing key))"

definition requiredString :: "(string \<rightharpoonup> json) \<Rightarrow> string \<Rightarrow> nat \<Rightarrow> amo_error + string" where
  "requiredString payload key maxLength =
     (case payload key of
        Some (JString s) \<Rightarrow> if s = '''' \<or> length s > maxLength then Inl (AmoFieldMissing key) else Inr s
      | _ \<Rightarrow> Inl (AmoFieldMissing key))"

definition isAmoCRMHost :: "amo_lib \<Rightarrow> string \<Rightarrow> bool" where
  "isAmoCRMHost lib host =
     (let h = aml_lower lib host
      in h = ''amocrm.ru'' \<or> h = ''amocrm.com'' \<or> suffix ''.amocrm.ru'' h \<or> suffix ''.amocrm.com'' h)"

definition check_claims :: "amo_lib \<Rightarrow> amo_verifier \<Rightarrow> (string \<rightharpoonup> json) \<Rightarrow> int \<Rightarrow> amo_error + amo_identity" where
  "check_claims lib v payload now =
     try_bind (positiveInt payload ''iat'') (\<lambda>iat.
     try_bind (positiveInt payload ''nbf'') (\<lambda>nbf.
     try_bind (positiveInt payload ''exp'') (\<lambda>exp.
     if iat > wrap64 (now + av_clockSkewSecs v) \<or> nbf > wrap64 (now + av_clockSkewSecs v) \<or> exp \<le> wrap64 (now - av_clockSkewSecs v)
     then Inl AmoTime
     else if exp \<le> iat \<or> wrap64 (exp - iat) > av_maxTTLSeconds v then Inl AmoLifetime
     else
       try_bind (requiredString payload ''client_uuid'' 191) (\<lambda>clientUUID.
       try_bind (requiredString payload ''aud'' 500) (\<lambda>audience.
       try_bind (requiredString payload ''iss'' 500) (\<lambda>issuer.
       try_bind (requiredString payload ''jti'' 191) (\<lambda>jti.
       if av_clientUUID v \<noteq> clientUUID \<or> av_audience v \<noteq> trim_slashes audience then Inl AmoIntegration
       else case aml_uri lib issuer of
           None \<Rightarrow> Inl AmoIssuer
         | Some (scheme, hostname) \<Rightarrow>
             if scheme \<noteq> ''https'' \<or> \<not> isAmoCRMHost lib hostname then Inl AmoIssuer
             else
               try_bind (positiveInt payload ''account_id'') (\<lambda>accountID.
               try_bind (positiveInt payload ''user_id'') (\<lambda>userID.
               Inr \<lparr>ai_AccountID = accountID, ai_UserID = userID, ai_ClientUUID = clientUUID, ai_JTI = jti,
                 ai_ExpiresAt = exp, ai_Issuer = issuer\<rparr>)))))))))"

text \<open>\<open>now\<close> is the Unix time.\<close>

definition amo_Verify :: "amo_lib \<Rightarrow> amo_verifier \<Rightarrow> string \<Rightarrow> int \<Rightarrow> amo_error + amo_identity" where
  "amo_Verify lib v token now =
     (if av_secret v = '''' \<or> av_clientUUID v = '''' \<or> av_audience v = '''' then Inl AmoNotConfigured
      else if token = '''' \<or> length token > 8192 then Inl AmoInvalidToken
      else case Split (CHR ''.'') token of
        [header_text, payload_text, signature_text] \<Rightarrow>
          (case (decodeJSONObject lib header_text, decodeJSONObject lib payload_text, decodeBase64URL signature_text) of
             (Some header, Some payload, Some signature) \<Rightarrow>
               if header ''alg'' \<noteq> Some (JString ''HS256'') then Inl AmoAlgorithm
               else if aml_hmac lib (av_secret v) (header_text @ ''.'' @ payload_text) \<noteq> signature then Inl AmoSignature
               else check_claims lib v payload now
           | _ \<Rightarrow> Inl AmoInvalidToken)
      | _ \<Rightarrow> Inl AmoInvalidToken)"

definition amo_Verify_ptr :: "amo_lib \<Rightarrow> amo_verifier option \<Rightarrow> string \<Rightarrow> int \<Rightarrow> amo_error + amo_identity" where
  "amo_Verify_ptr lib p token now = (case p of None \<Rightarrow> Inl AmoNotConfigured | Some v \<Rightarrow> amo_Verify lib v token now)"

subsection \<open>Issued tokens\<close>

definition amo_token :: "amo_lib \<Rightarrow> string \<Rightarrow> bytes \<Rightarrow> bytes \<Rightarrow> string" where
  "amo_token lib secret header payload =
     (let text = RawURLEncoding header @ ''.'' @ RawURLEncoding payload
      in text @ ''.'' @ RawURLEncoding (aml_hmac lib secret text))"

lemma RawURLEncoding_alphabet: "list_all (\<lambda>c. c \<in> set url_alphabet) (RawURLEncoding bs)"
  by (induction bs rule: RawURLEncoding.induct) (simp_all add: url_char_in)

lemma RawURLEncoding_Nil: "RawURLEncoding bs = [] \<longleftrightarrow> bs = []"
  by (cases bs rule: RawURLEncoding.cases) simp_all

lemma decodeBase64URL_encoded: "bs \<noteq> [] \<Longrightarrow> decodeBase64URL (RawURLEncoding bs) = Some bs"
  by (simp add: decodeBase64URL_def RawURLEncoding_alphabet RawURLEncoding_Nil RawURL_roundtrip)

lemma positiveInt_Inr: "positiveInt payload key = Inr n \<Longrightarrow> 0 < n \<and> n \<le> max_int64"
proof -
  assume "positiveInt payload key = Inr n"
  then obtain s where "ParseInt s = (n, True)" "0 < n"
    by (auto simp: positiveInt_def split: option.splits json.splits prod.splits if_splits)
  then show ?thesis
    by (auto simp: ParseInt_def Let_def max_int64_def split: list.splits option.splits if_splits)
qed

lemma issuer_case:
  "(case u of None \<Rightarrow> Inl e | Some (scheme, host) \<Rightarrow> if scheme \<noteq> ''https'' \<or> \<not> P host then Inl e' else f) = Inr y \<longleftrightarrow>
     (\<exists>host. u = Some (''https'', host) \<and> P host \<and> f = Inr y)"
  by (cases u) (auto split: if_splits)

lemma Split_token:
  "Split (CHR ''.'') (amo_token lib secret h p) =
     [RawURLEncoding h, RawURLEncoding p, RawURLEncoding (aml_hmac lib secret (RawURLEncoding h @ ''.'' @ RawURLEncoding p))]"
proof -
  have "CHR ''.'' \<notin> set (RawURLEncoding bs)" for bs using RawURLEncoding_plain by blast
  then show ?thesis by (simp add: amo_token_def Let_def Split_join Split_plain)
qed

text \<open>What amoCRM issues is read: for a token put together from an encoded header, an encoded payload and
  the encoded HMAC of both, the verifier answers as the claims of the payload are valid or not.\<close>

lemma amo_Verify_issued:
  assumes "av_secret v \<noteq> ''''" "av_clientUUID v \<noteq> ''''" "av_audience v \<noteq> ''''"
    and "aml_object lib h = Some header" "header ''alg'' = Some (JString ''HS256'')" "aml_object lib p = Some payload"
    and "h \<noteq> []" "p \<noteq> []" "\<And>text. aml_hmac lib (av_secret v) text \<noteq> []" "length (amo_token lib (av_secret v) h p) \<le> 8192"
  shows "amo_Verify lib v (amo_token lib (av_secret v) h p) now = check_claims lib v payload now"
proof -
  have "amo_token lib (av_secret v) h p \<noteq> ''''" by (simp add: amo_token_def)
  with assms show ?thesis
    by (simp add: amo_Verify_def Split_token decodeJSONObject_def decodeBase64URL_encoded leD)
qed

subsection \<open>The properties\<close>

text \<open>The identity that valid claims give, field by field.\<close>

definition claims_give :: "amo_lib \<Rightarrow> amo_verifier \<Rightarrow> int \<Rightarrow> (string \<rightharpoonup> json) \<Rightarrow> amo_identity \<Rightarrow> bool" where
  "claims_give lib v now payload identity \<longleftrightarrow>
     positiveInt payload ''account_id'' = Inr (ai_AccountID identity) \<and>
     positiveInt payload ''user_id'' = Inr (ai_UserID identity) \<and>
     positiveInt payload ''exp'' = Inr (ai_ExpiresAt identity) \<and>
     requiredString payload ''client_uuid'' 191 = Inr (ai_ClientUUID identity) \<and> ai_ClientUUID identity = av_clientUUID v \<and>
     requiredString payload ''jti'' 191 = Inr (ai_JTI identity) \<and>
     requiredString payload ''iss'' 500 = Inr (ai_Issuer identity) \<and>
     (\<exists>host. aml_uri lib (ai_Issuer identity) = Some (''https'', host) \<and> isAmoCRMHost lib host) \<and>
     (\<exists>audience. requiredString payload ''aud'' 500 = Inr audience \<and> trim_slashes audience = av_audience v) \<and>
     (\<exists>nbf. positiveInt payload ''nbf'' = Inr nbf \<and> nbf \<le> now + av_clockSkewSecs v) \<and>
     (\<exists>iat. positiveInt payload ''iat'' = Inr iat \<and> iat \<le> now + av_clockSkewSecs v \<and>
        iat < ai_ExpiresAt identity \<and> ai_ExpiresAt identity - iat \<le> av_maxTTLSeconds v) \<and>
     now - av_clockSkewSecs v < ai_ExpiresAt identity"

lemma check_claims_iff:
  assumes "in_int64 (now + av_clockSkewSecs v)" "in_int64 (now - av_clockSkewSecs v)"
  shows "check_claims lib v payload now = Inr identity \<longleftrightarrow> claims_give lib v now payload identity"
proof -
  have span: "wrap64 (exp - iat) = exp - iat"
    if "positiveInt payload ''iat'' = Inr iat" "positiveInt payload ''exp'' = Inr exp" "iat < exp" for iat exp
    using positiveInt_Inr[OF that(1)] positiveInt_Inr[OF that(2)] that(3)
    by (intro wrap64_id) (simp add: in_int64_def min_int64_def max_int64_def)
  have fields: "\<lparr>ai_AccountID = a, ai_UserID = u, ai_ClientUUID = c, ai_JTI = j, ai_ExpiresAt = e, ai_Issuer = i\<rparr> = identity \<longleftrightarrow>
      a = ai_AccountID identity \<and> u = ai_UserID identity \<and> c = ai_ClientUUID identity \<and> j = ai_JTI identity \<and>
      e = ai_ExpiresAt identity \<and> i = ai_Issuer identity" for a u c j e i
    by (cases identity) auto
  show ?thesis
  proof
    assume "check_claims lib v payload now = Inr identity"
    then show "claims_give lib v now payload identity"
      using assms unfolding check_claims_def claims_give_def
      by (auto simp: try_bind_Inr issuer_case not_less not_le span split: if_splits)
  next
    assume "claims_give lib v now payload identity"
    then show "check_claims lib v payload now = Inr identity"
      using assms unfolding claims_give_def
      by (elim conjE exE) (simp add: check_claims_def try_bind_def span fields)
  qed
qed

text \<open>(C38) The verifier accepts exactly the tokens of three parts, no longer than 8192 bytes, whose header names
  HS256, whose third part is the HMAC of the first two under the secret, and whose claims name this
  integration and a host of amoCRM, are in force up to the allowed deviation of the clocks, and live no
  longer than allowed. The identity it answers has the account, the user, the integration, the token
  identifier, the issuer and the end of the claims.\<close>

theorem amo_Verify_exact:
  assumes "in_int64 (now + av_clockSkewSecs v)" "in_int64 (now - av_clockSkewSecs v)"
  shows "amo_Verify lib v token now = Inr identity \<longleftrightarrow>
    av_secret v \<noteq> '''' \<and> av_clientUUID v \<noteq> '''' \<and> av_audience v \<noteq> '''' \<and> length token \<le> 8192 \<and>
    (\<exists>h p s header payload. Split (CHR ''.'') token = [h, p, s] \<and>
       decodeJSONObject lib h = Some header \<and> header ''alg'' = Some (JString ''HS256'') \<and>
       decodeBase64URL s = Some (aml_hmac lib (av_secret v) (h @ ''.'' @ p)) \<and>
       decodeJSONObject lib p = Some payload \<and> claims_give lib v now payload identity)"
proof -
  have "Split (CHR ''.'') token = [h, p, s] \<Longrightarrow> token \<noteq> ''''" for h p s by auto
  then show ?thesis
    unfolding check_claims_iff[OF assms, symmetric] amo_Verify_def
    by (auto simp: not_less split: list.splits option.splits if_splits)
qed

definition amo_payload :: "string \<rightharpoonup> json" where
  "amo_payload = [''iat'' \<mapsto> JNumber ''5'', ''nbf'' \<mapsto> JNumber ''5'', ''exp'' \<mapsto> JNumber ''9'', ''client_uuid'' \<mapsto> JString ''c'',
     ''aud'' \<mapsto> JString ''a/'', ''iss'' \<mapsto> JString ''i'', ''jti'' \<mapsto> JString ''j'', ''account_id'' \<mapsto> JNumber ''7'',
     ''user_id'' \<mapsto> JNumber ''9'']"

definition amo_example :: amo_lib where
  "amo_example = \<lparr>aml_object = (\<lambda>bs. if bs = [1] then Some [''alg'' \<mapsto> JString ''HS256''] else Some amo_payload),
     aml_hmac = (\<lambda>_ _. [3]), aml_uri = (\<lambda>s. Some (''https'', ''x.amocrm.ru'')), aml_lower = (\<lambda>s. s)\<rparr>"

definition verifier_example :: amo_verifier where
  "verifier_example = \<lparr>av_secret = ''s'', av_clientUUID = ''c'', av_audience = ''a'', av_maxTTLSeconds = 60, av_clockSkewSecs = 2\<rparr>"

definition identity_example :: amo_identity where
  "identity_example = \<lparr>ai_AccountID = 7, ai_UserID = 9, ai_ClientUUID = ''c'', ai_JTI = ''j'', ai_ExpiresAt = 9, ai_Issuer = ''i''\<rparr>"

lemma amo_numbers: "ParseInt ''5'' = (5, True)" "ParseInt ''7'' = (7, True)" "ParseInt ''9'' = (9, True)"
  using ParseInt_decimal[of 5] ParseInt_decimal[of 7] ParseInt_decimal[of 9]
  by (simp_all add: decimal.simps digit_char_def char_of_def bit_Suc_0_iff)

lemma amo_example_simps [simp]:
  "aml_object amo_example bs = (if bs = [1] then Some [''alg'' \<mapsto> JString ''HS256''] else Some amo_payload)"
  "aml_hmac amo_example secret text = [3]" "aml_uri amo_example uri = Some (''https'', ''x.amocrm.ru'')"
  "aml_lower amo_example t = t" "av_secret verifier_example = ''s''" "av_clientUUID verifier_example = ''c''"
  "av_audience verifier_example = ''a''" "av_maxTTLSeconds verifier_example = 60" "av_clockSkewSecs verifier_example = 2"
  by (simp_all add: amo_example_def verifier_example_def)

lemma amo_claims_example: "check_claims amo_example verifier_example amo_payload 7 = Inr identity_example"
proof -
  have "isAmoCRMHost amo_example ''x.amocrm.ru''" by (simp add: isAmoCRMHost_def suffix_def)
  moreover have "trim_slashes ''a/'' = ''a''" by (simp add: trim_slashes_def)
  ultimately show ?thesis
    by (simp add: check_claims_def amo_payload_def positiveInt_def requiredString_def amo_numbers identity_example_def wrap64_def)
qed

lemma amo_accepted_example: "amo_Verify amo_example verifier_example (amo_token amo_example ''s'' [1] [2]) 7 = Inr identity_example"
  using amo_Verify_issued[of verifier_example amo_example "[1]" "[''alg'' \<mapsto> JString ''HS256'']" "[2]" amo_payload 7]
  by (simp add: amo_claims_example amo_token_def)

theorem amo_Verify_exact_witness:
  "claims_give amo_example verifier_example 7 amo_payload identity_example \<and> ai_AccountID identity_example = 7 \<and>
   ai_UserID identity_example = 9"
proof -
  have "in_int64 (7 + av_clockSkewSecs verifier_example)" "in_int64 (7 - av_clockSkewSecs verifier_example)"
    by (simp_all add: in_int64_def min_int64_def max_int64_def)
  from amo_Verify_exact[OF this, THEN iffD1, OF amo_accepted_example]
  obtain p payload where "decodeJSONObject amo_example p = Some payload" "claims_give amo_example verifier_example 7 payload identity_example"
    by blast
  moreover from this have "payload = amo_payload"
    by (auto simp: decodeJSONObject_def claims_give_def positiveInt_def bind_eq_Some_conv split: if_splits)
  ultimately show ?thesis by (simp add: identity_example_def)
qed

end
