(* ===== verification/Rate_Limit.thy ===== *)
theory Rate_Limit
  imports Strconv
begin

section \<open>Gateway: the limit on requests\<close>

text \<open>
  \<^verbatim>\<open>services/gateway/internal/ratelimit/middleware.go\<close>: the guard in front of the sign-in, provisioning and
  public routes. A key, the address of the client or the name of the provisioning service, may make
  a number of requests in a window that starts with its first request.

  SHA-256, \<^verbatim>\<open>strings.EqualFold\<close>, \<^verbatim>\<open>net.SplitHostPort\<close>, \<^verbatim>\<open>netip.ParseAddr\<close> with \<^verbatim>\<open>Unmap\<close> and \<^verbatim>\<open>Prefix.Contains\<close> are
  parameters; an address is the text of its unmapped form. The clock is an argument. The map of
  entries is changed under the mutex, one request after the other; the clock is read before that.
\<close>

subsection \<open>The limiter\<close>

record net_lib =
  nl_sha256 :: "string \<Rightarrow> bytes"
  nl_equal_fold :: "string \<Rightarrow> string \<Rightarrow> bool"
  nl_host :: "string \<Rightarrow> string option"
  nl_parse :: "string \<Rightarrow> string option"
  nl_contains :: "string \<Rightarrow> string \<Rightarrow> bool"

record rate_entry =
  re_windowStart :: time
  re_count :: int

record Limiter =
  lm_entries :: "string \<Rightarrow> rate_entry option"
  lm_limit :: int
  lm_window :: duration
  lm_lastGC :: time
  lm_trustedProxies :: "string list"
  lm_credentialHash :: bytes
  lm_provisioningLimit :: int
  lm_hasProvisioningPrincipal :: bool

definition Limiter_New :: "int \<Rightarrow> duration \<Rightarrow> string list \<Rightarrow> Limiter" where
  "Limiter_New limit window trustedProxies =
     \<lparr>lm_entries = (\<lambda>_. None), lm_limit = (if limit \<le> 0 then 30 else limit),
      lm_window = (if window \<le> 0 then Minute else window), lm_lastGC = 0, lm_trustedProxies = trustedProxies,
      lm_credentialHash = replicate 32 0, lm_provisioningLimit = 0, lm_hasProvisioningPrincipal = False\<rparr>"

definition WithProvisioningPrincipal :: "net_lib \<Rightarrow> Limiter \<Rightarrow> string \<Rightarrow> int \<Rightarrow> Limiter" where
  "WithProvisioningPrincipal nl l credential limit =
     (if TrimSpace credential = '''' \<or> limit \<le> 0 then l
      else l\<lparr>lm_credentialHash := nl_sha256 nl (TrimSpace credential), lm_provisioningLimit := limit,
        lm_hasProvisioningPrincipal := True\<rparr>)"

subsection \<open>The window\<close>

definition expired :: "duration \<Rightarrow> time \<Rightarrow> rate_entry \<Rightarrow> bool" where
  "expired window now v \<longleftrightarrow> Time_Sub now (re_windowStart v) \<ge> window"

definition collect_garbage :: "Limiter \<Rightarrow> time \<Rightarrow> Limiter" where
  "collect_garbage l now =
     (if lm_lastGC l = 0 \<or> Time_Sub now (lm_lastGC l) \<ge> lm_window l
      then l\<lparr>lm_entries := (\<lambda>k. case lm_entries l k of
                None \<Rightarrow> None
              | Some v \<Rightarrow> if expired (lm_window l) now v then None else Some v),
             lm_lastGC := now\<rparr>
      else l)"

definition allow :: "Limiter \<Rightarrow> string \<Rightarrow> int \<Rightarrow> time \<Rightarrow> Limiter \<times> bool \<times> duration" where
  "allow l0 key limit now =
     (let l = collect_garbage l0 now;
          v = (case lm_entries l key of None \<Rightarrow> \<lparr>re_windowStart = 0, re_count = 0\<rparr> | Some v \<Rightarrow> v)
      in if re_windowStart v = 0 \<or> expired (lm_window l) now v
         then (l\<lparr>lm_entries := (lm_entries l)(key \<mapsto> \<lparr>re_windowStart = now, re_count = 1\<rparr>)\<rparr>, True, 0)
         else if re_count v \<ge> limit
         then (l, False, wrap64 (lm_window l - Time_Sub now (re_windowStart v)))
         else (l\<lparr>lm_entries := (lm_entries l)(key \<mapsto> v\<lparr>re_count := wrap64 (re_count v + 1)\<rparr>)\<rparr>, True, 0))"

subsection \<open>Who is asking\<close>

record http_request =
  hr_Method :: string
  hr_Path :: string
  hr_RemoteAddr :: string
  hr_Authorization :: string
  hr_ForwardedFor :: string
  hr_RealIP :: string

definition isProvisioningPath :: "string \<Rightarrow> string \<Rightarrow> bool" where
  "isProvisioningPath method path \<longleftrightarrow> (method = ''GET'' \<or> method = ''POST'') \<and> prefix ''/api/v1/provisioning/'' path"

definition rateLimitedPath :: "string \<Rightarrow> string \<Rightarrow> bool" where
  "rateLimitedPath method path \<longleftrightarrow>
     prefix ''/api/v1/auth/'' path \<or> prefix ''/api/v2/auth/'' path \<or> isProvisioningPath method path \<or>
     (method = ''POST'' \<and> prefix ''/api/v1/public/amocrm/widget-sessions'' path) \<or>
     (method = ''POST'' \<and> path = ''/api/v1/public/amocrm/admin-self-login'') \<or>
     (method = ''POST'' \<and> path = ''/api/v1/public/amocrm/company-bootstrap'') \<or>
     (method = ''GET'' \<and> prefix ''/api/v1/public/amocrm/'' path) \<or>
     (method = ''POST'' \<and> path = ''/api/v1/public/company-registration-tokens/validate'') \<or>
     (method = ''POST'' \<and> prefix ''/api/v1/public/academy/'' path)"

definition matchesProvisioningPrincipal :: "net_lib \<Rightarrow> Limiter \<Rightarrow> string \<Rightarrow> bool" where
  "matchesProvisioningPrincipal nl l authorization =
     (if \<not> lm_hasProvisioningPrincipal l then False
      else case Fields authorization of
        [scheme, credential] \<Rightarrow>
          nl_equal_fold nl scheme ''Service'' \<and> credential \<noteq> '''' \<and> nl_sha256 nl credential = lm_credentialHash l
      | _ \<Rightarrow> False)"

definition peer_address :: "net_lib \<Rightarrow> string \<Rightarrow> string" where
  "peer_address nl remoteAddress =
     (case nl_host nl remoteAddress of
        Some host \<Rightarrow> if host \<noteq> '''' then host else remoteAddress
      | None \<Rightarrow> remoteAddress)"

definition trusted :: "net_lib \<Rightarrow> Limiter \<Rightarrow> string \<Rightarrow> bool" where
  "trusted nl l address \<longleftrightarrow> list_ex (\<lambda>p. nl_contains nl p address) (lm_trustedProxies l)"

fun parse_all :: "net_lib \<Rightarrow> string list \<Rightarrow> string list option" where
  "parse_all nl [] = Some []"
| "parse_all nl (v # vs) =
     (case nl_parse nl (TrimSpace v) of
        None \<Rightarrow> None
      | Some a \<Rightarrow> map_option ((#) a) (parse_all nl vs))"

definition real_address :: "net_lib \<Rightarrow> http_request \<Rightarrow> string \<Rightarrow> string" where
  "real_address nl r peer = (case nl_parse nl (TrimSpace (hr_RealIP r)) of Some a \<Rightarrow> a | None \<Rightarrow> peer)"

definition clientIP :: "net_lib \<Rightarrow> Limiter \<Rightarrow> http_request \<Rightarrow> string" where
  "clientIP nl l r =
     (let peer = peer_address nl (hr_RemoteAddr r)
      in case nl_parse nl peer of
           None \<Rightarrow> peer
         | Some peerAddress \<Rightarrow>
             if \<not> trusted nl l peerAddress then peer
             else let forwarded = TrimSpace (hr_ForwardedFor r)
               in if forwarded \<noteq> '''' then
                    (case parse_all nl (Split (CHR '','') forwarded) of
                       None \<Rightarrow> peer
                     | Some addresses \<Rightarrow>
                         (case List.find (\<lambda>a. \<not> trusted nl l a) (rev addresses) of
                            Some a \<Rightarrow> a
                          | None \<Rightarrow> real_address nl r peer))
                  else real_address nl r peer)"

text \<open>\<^verbatim>\<open>Duration.Round\<close> to whole seconds, and the value of the header.\<close>

definition round_seconds :: "duration \<Rightarrow> int" where
  "round_seconds d =
     (let q = (if d < 0 then - ((- d) div second) else d div second); m = \<bar>d\<bar> mod second
      in if m + m < second then q else if d < 0 then q - 1 else q + 1)"

definition service_key :: string where
  "service_key = ''service:provisioning''"

datatype rate_answer = Served | TooMany int

definition Middleware :: "net_lib \<Rightarrow> Limiter \<Rightarrow> http_request \<Rightarrow> time \<Rightarrow> Limiter \<times> rate_answer" where
  "Middleware nl l r now =
     (if hr_Method r = ''OPTIONS'' \<or> \<not> rateLimitedPath (hr_Method r) (hr_Path r) then (l, Served)
      else
        let (key, limit) =
          (if isProvisioningPath (hr_Method r) (hr_Path r) \<and> matchesProvisioningPrincipal nl l (hr_Authorization r)
           then (service_key, lm_provisioningLimit l) else (clientIP nl l r, lm_limit l))
        in case allow l key limit now of
             (l', True, _) \<Rightarrow> (l', Served)
           | (l', False, retryAfter) \<Rightarrow> (l', TooMany (max 1 (round_seconds retryAfter))))"

subsection \<open>Requests in turn\<close>

text \<open>The calls of \<^verbatim>\<open>allow\<close> in the order they take the mutex, with the answers.\<close>

record rate_call =
  rc_Key :: string
  rc_Limit :: int
  rc_Now :: time

fun answers :: "Limiter \<Rightarrow> rate_call list \<Rightarrow> (rate_call \<times> bool) list" where
  "answers l [] = []"
| "answers l (c # cs) =
     (let (l', ok, _) = allow l (rc_Key c) (rc_Limit c) (rc_Now c) in (c, ok) # answers l' cs)"

text \<open>The window of a key that is in force: none where the entry is missing or has run out.\<close>

definition window_of :: "Limiter \<Rightarrow> string \<Rightarrow> time \<Rightarrow> rate_entry option" where
  "window_of l k now =
     (case lm_entries l k of
        None \<Rightarrow> None
      | Some v \<Rightarrow> if re_windowStart v = 0 \<or> expired (lm_window l) now v then None else Some v)"

lemma expired_iff:
  assumes "0 < w" "w \<le> max_int64"
  shows "expired w now v \<longleftrightarrow> re_windowStart v + w \<le> now"
  using assms by (auto simp: expired_def Time_Sub_def max_int64_def min_int64_def)

lemma collect_garbage_window [simp]:
  "lm_window (collect_garbage l now) = lm_window l"
  "window_of (collect_garbage l now) k now = window_of l k now"
  by (auto simp: collect_garbage_def window_of_def split: option.splits)

text \<open>Collecting the garbage has no influence on any answer.\<close>

lemma allow_step:
  "allow l k n now =
     (case window_of l k now of
        None \<Rightarrow> ((collect_garbage l now)\<lparr>lm_entries := (lm_entries (collect_garbage l now))(k \<mapsto> \<lparr>re_windowStart = now, re_count = 1\<rparr>)\<rparr>, True, 0)
      | Some v \<Rightarrow>
          if re_count v \<ge> n then (collect_garbage l now, False, wrap64 (lm_window l - Time_Sub now (re_windowStart v)))
          else ((collect_garbage l now)\<lparr>lm_entries := (lm_entries (collect_garbage l now))(k \<mapsto> v\<lparr>re_count := wrap64 (re_count v + 1)\<rparr>)\<rparr>, True, 0))"
  unfolding allow_def Let_def window_of_def[of l]
  by (auto simp: collect_garbage_def split: option.splits)

lemma window_of_later:
  assumes "0 < lm_window l" "lm_window l \<le> max_int64" "now \<le> now'"
  shows "window_of l k now' = (case window_of l k now of None \<Rightarrow> None | Some v \<Rightarrow> if re_windowStart v + lm_window l \<le> now' then None else Some v)"
  using assms by (auto simp: window_of_def expired_iff split: option.splits)

text \<open>How many of the answers let a request of the key pass in an interval.\<close>

definition granted :: "time \<Rightarrow> time \<Rightarrow> string \<Rightarrow> (rate_call \<times> bool) list \<Rightarrow> int" where
  "granted a b k ans = int (length (filter (\<lambda>(c, ok). ok \<and> rc_Key c = k \<and> a \<le> rc_Now c \<and> rc_Now c < b) ans))"

lemma granted_simps [simp]:
  "granted a b k [] = 0"
  "granted a b k ((c, ok) # ans) = (if ok \<and> rc_Key c = k \<and> a \<le> rc_Now c \<and> rc_Now c < b then 1 else 0) + granted a b k ans"
  by (simp_all add: granted_def)

text \<open>What may still pass from a time on, by the window in force.\<close>

definition allowance :: "time \<Rightarrow> duration \<Rightarrow> int \<Rightarrow> time \<Rightarrow> rate_entry option \<Rightarrow> int" where
  "allowance a w n t v =
     (if a + w \<le> t then 0
      else case v of
        None \<Rightarrow> if a \<le> t then n else 2 * n - 1
      | Some v \<Rightarrow>
          if a \<le> re_windowStart v then n - re_count v
          else if a < re_windowStart v + w then n - re_count v + n
          else 2 * n - 1)"

lemma allowance_later:
  assumes "0 < w" "1 \<le> n" "t \<le> t'" "\<And>v. x = Some v \<Longrightarrow> 1 \<le> re_count v \<and> re_count v \<le> n"
  shows "allowance a w n t' (case x of None \<Rightarrow> None | Some v \<Rightarrow> if re_windowStart v + w \<le> t' then None else Some v) \<le> allowance a w n t x"
  using assms by (auto simp: allowance_def split: option.splits)

lemma allowance_bound:
  assumes "0 < w" "1 \<le> n" "\<And>v. x = Some v \<Longrightarrow> 1 \<le> re_count v"
  shows "allowance a w n t x \<le> 2 * n - 1"
  using assms by (cases x) (auto simp: allowance_def)

definition entries_ok :: "Limiter \<Rightarrow> string \<Rightarrow> int \<Rightarrow> bool" where
  "entries_ok l k n \<longleftrightarrow> (\<forall>v. lm_entries l k = Some v \<longrightarrow> 1 \<le> re_count v \<and> re_count v \<le> n)"

lemma granted_allowance:
  assumes w: "0 < w" "w \<le> max_int64" and n: "1 \<le> n" "n \<le> max_int64"
  shows "lm_window l = w \<Longrightarrow> entries_ok l k n \<Longrightarrow> 0 < t \<Longrightarrow> sorted (map rc_Now cs) \<Longrightarrow> (\<forall>c\<in>set cs. t \<le> rc_Now c) \<Longrightarrow>
     (\<forall>c\<in>set cs. rc_Key c = k \<longrightarrow> rc_Limit c = n) \<Longrightarrow>
     granted a (a + w) k (answers l cs) \<le> allowance a w n t (window_of l k t)"
proof (induction cs arbitrary: l t)
  case Nil
  then have "0 \<le> allowance a w n t x" if "x = None \<or> (\<exists>v. x = Some v \<and> re_count v \<le> n)" for x
    using that n by (auto simp: allowance_def split: option.splits)
  with Nil show ?case by (auto simp: window_of_def entries_ok_def split: option.splits)
next
  case (Cons c cs)
  define now where "now = rc_Now c"
  have now: "t \<le> now" "0 < now" "\<forall>d\<in>set cs. now \<le> rc_Now d" using Cons.prems by (auto simp: now_def)
  define x where "x = window_of l k now"
  have x: "x = Some v \<Longrightarrow> 1 \<le> re_count v \<and> re_count v \<le> n \<and> now < re_windowStart v + w" for v
    using Cons.prems(1,2) w by (auto simp: x_def window_of_def entries_ok_def expired_iff split: option.splits if_splits)
  have later: "allowance a w n now x \<le> allowance a w n t (window_of l k t)"
    unfolding x_def window_of_later[of l, unfolded Cons.prems(1), OF w now(1)]
    using Cons.prems(2) by (intro allowance_later w n now) (auto simp: window_of_def entries_ok_def split: option.splits if_splits)
  define l' where "l' = fst (allow l (rc_Key c) (rc_Limit c) now)"
  define ok where "ok = fst (snd (allow l (rc_Key c) (rc_Limit c) now))"
  have answers: "answers l (c # cs) = (c, ok) # answers l' cs"
    by (simp add: l'_def ok_def now_def split: prod.splits)
  have l': "lm_window l' = w" using Cons.prems(1) by (auto simp: l'_def allow_step split: option.splits)
  have gc: "entries_ok (collect_garbage l now) k n"
    using Cons.prems(2) by (auto simp: entries_ok_def collect_garbage_def split: option.splits if_splits)
  have IH: "entries_ok l' k n \<Longrightarrow> granted a (a + w) k (answers l' cs) \<le> allowance a w n now (window_of l' k now)"
    using Cons.prems(4,6) now by (intro Cons.IH l') auto
  show ?case
  proof (cases "rc_Key c = k")
    case False
    then have same: "lm_entries l' k = lm_entries (collect_garbage l now) k"
      by (auto simp: l'_def allow_step split: option.splits)
    then have "window_of l' k now = window_of (collect_garbage l now) k now"
      by (simp only: window_of_def same l' collect_garbage_window(1) Cons.prems(1))
    moreover have "entries_ok l' k n" using gc same by (simp add: entries_ok_def)
    ultimately show ?thesis using IH later False by (simp add: answers x_def del: answers.simps)
  next
    case True
    then have limit: "rc_Limit c = n" using Cons.prems(6) by simp
    show ?thesis
    proof (cases x)
      case None
      let ?v = "\<lparr>re_windowStart = now, re_count = 1\<rparr>"
      have new: "ok" "lm_entries l' k = Some ?v"
        using None True by (auto simp: ok_def l'_def allow_step x_def)
      then have "entries_ok l' k n" using n by (simp add: entries_ok_def)
      moreover have "window_of l' k now = Some ?v"
        using new(2) l' now(2) w by (simp add: window_of_def expired_iff)
      ultimately have "granted a (a + w) k (answers l' cs) \<le> allowance a w n now (Some ?v)" using IH by simp
      moreover have "(if a \<le> now \<and> now < a + w then 1 else 0) + allowance a w n now (Some ?v) \<le> allowance a w n now x"
        using None w n by (auto simp: allowance_def)
      ultimately show ?thesis using later True new(1) by (auto simp: answers now_def[symmetric] simp del: answers.simps)
    next
      case (Some v)
      note v = x[OF Some]
      show ?thesis
      proof (cases "re_count v \<ge> n")
        case full: True
        then have "\<not> ok" "l' = collect_garbage l now"
          using Some True limit by (auto simp: ok_def l'_def allow_step x_def)
        then show ?thesis using IH gc later by (simp add: answers x_def del: answers.simps)
      next
        case False
        let ?v = "v\<lparr>re_count := re_count v + 1\<rparr>"
        have "wrap64 (re_count v + 1) = re_count v + 1" using v False n by (intro wrap64_id) (auto simp: in_int64_def min_int64_def)
        then have new: "ok" "lm_entries l' k = Some ?v"
          using Some True False limit by (auto simp: ok_def l'_def allow_step x_def)
        have start: "re_windowStart v \<noteq> 0" using Some by (auto simp: x_def window_of_def split: option.splits if_splits)
        have "entries_ok l' k n" using new(2) v False by (simp add: entries_ok_def)
        moreover have "window_of l' k now = Some ?v"
          using new(2) l' start v w by (simp add: window_of_def expired_iff)
        ultimately have "granted a (a + w) k (answers l' cs) \<le> allowance a w n now (Some ?v)" using IH by simp
        moreover have "(if a \<le> now \<and> now < a + w then 1 else 0) + allowance a w n now (Some ?v) \<le> allowance a w n now x"
          using Some v w n False by (auto simp: allowance_def)
        ultimately show ?thesis using later True new(1) by (auto simp: answers now_def[symmetric] simp del: answers.simps)
      qed
    qed
  qed
qed

subsection \<open>The properties\<close>

text \<open>(C36) In no interval as long as the window does a key get twice its limit: of the calls of a key with
  one limit, taking the mutex in the order of their clock readings, at most twice the limit less one
  pass in an interval of the length of the window, wherever it begins. The bound is reached.\<close>

theorem rate_limit_bound:
  assumes "sorted (map rc_Now cs)" "\<forall>c\<in>set cs. 0 < rc_Now c" "\<forall>c\<in>set cs. rc_Key c = k \<longrightarrow> rc_Limit c = n"
    and "1 \<le> n" "n \<le> max_int64" "window \<le> max_int64"
  shows "granted a (a + lm_window (Limiter_New limit window proxies)) k (answers (Limiter_New limit window proxies) cs) \<le> 2 * n - 1"
proof -
  let ?l = "Limiter_New limit window proxies"
  have w: "0 < lm_window ?l" "lm_window ?l \<le> max_int64"
    using assms(6) by (auto simp: Limiter_New_def Minute_def max_int64_def)
  have "granted a (a + lm_window ?l) k (answers ?l cs) \<le> allowance a (lm_window ?l) n 1 (window_of ?l k 1)"
    using assms(2) by (intro granted_allowance w assms(4,5) assms(1,3)) (auto simp: entries_ok_def Limiter_New_def)
  also have "\<dots> \<le> 2 * n - 1"
    by (rule allowance_bound[OF w(1) assms(4)]) (simp add: window_of_def Limiter_New_def)
  finally show ?thesis .
qed

definition calls_example :: "rate_call list" where
  "calls_example = map (\<lambda>t. \<lparr>rc_Key = ''198.51.100.7'', rc_Limit = 2, rc_Now = t\<rparr>) [1, 100, 101, 102, 103]"

theorem rate_limit_bound_witness:
  "granted 100 200 ''198.51.100.7'' (answers (Limiter_New 2 100 []) calls_example) = 3 \<and>
   granted 100 200 ''198.51.100.7'' (answers (Limiter_New 2 100 []) calls_example) \<le> 3"
proof
  show "granted 100 200 ''198.51.100.7'' (answers (Limiter_New 2 100 []) calls_example) \<le> 3"
    using rate_limit_bound[of calls_example "''198.51.100.7''" 2 100 100 2 "[]"]
    by (simp add: calls_example_def Limiter_New_def max_int64_def)
  show "granted 100 200 ''198.51.100.7'' (answers (Limiter_New 2 100 []) calls_example) = 3"
    by code_simp
qed

text \<open>(C37) The address a request is counted under cannot be chosen with the forwarding header. A peer that is
  no trusted proxy is counted under its own address, whatever the headers say. Behind trusted proxies it is
  the last address of the chain that is none of them, whatever readable text stands before it in the header,
  and a header that cannot be read is counted under the proxy's address.\<close>

theorem client_address_not_forged:
  assumes "nl_parse nl (peer_address nl (hr_RemoteAddr r)) = Some p"
  shows "(\<not> trusted nl l p \<longrightarrow> clientIP nl l r = peer_address nl (hr_RemoteAddr r)) \<and>
    (trusted nl l p \<longrightarrow> TrimSpace (hr_ForwardedFor r) \<noteq> '''' \<longrightarrow>
      (case parse_all nl (Split (CHR '','') (TrimSpace (hr_ForwardedFor r))) of
         None \<Rightarrow> clientIP nl l r = peer_address nl (hr_RemoteAddr r)
       | Some addresses \<Rightarrow> \<forall>pre a suf. addresses = pre @ a # suf \<longrightarrow> \<not> trusted nl l a \<longrightarrow> (\<forall>b\<in>set suf. trusted nl l b) \<longrightarrow>
           clientIP nl l r = a))"
proof -
  have "List.find (\<lambda>a. \<not> trusted nl l a) (rev (pre @ a # suf)) = Some a"
    if "\<not> trusted nl l a" "\<forall>b\<in>set suf. trusted nl l b" for pre a suf
  proof -
    have "List.find P (xs @ a # ys) = Some a" if "\<forall>b\<in>set xs. \<not> P b" "P a" for P xs ys
      using that by (induction xs) auto
    from this[of "rev suf" "\<lambda>a. \<not> trusted nl l a" "rev pre"] that show ?thesis by simp
  qed
  then show ?thesis using assms by (auto simp: clientIP_def Let_def split: option.splits)
qed

definition net_example :: net_lib where
  "net_example = \<lparr>nl_sha256 = (\<lambda>s. map (\<lambda>c. word_of_nat (of_char c)) s), nl_equal_fold = (=), nl_host = Some,
     nl_parse = (\<lambda>s. if s = '''' then None else Some s), nl_contains = (=)\<rparr>"

definition request_example :: http_request where
  "request_example = \<lparr>hr_Method = ''POST'', hr_Path = ''/api/v1/auth/login'', hr_RemoteAddr = ''::1'',
     hr_Authorization = '''', hr_ForwardedFor = ''::6,::7,::1'', hr_RealIP = ''''\<rparr>"

theorem client_address_not_forged_witness:
  "clientIP net_example (Limiter_New 2 100 [''::1'']) request_example = ''::7''"
proof -
  let ?l = "Limiter_New 2 100 [''::1'']"
  have peer: "nl_parse net_example (peer_address net_example (hr_RemoteAddr request_example)) = Some ''::1''"
    by (simp add: net_example_def peer_address_def request_example_def)
  have "TrimSpace (hr_ForwardedFor request_example) \<noteq> ''''"
    "parse_all net_example (Split (CHR '','') (TrimSpace (hr_ForwardedFor request_example))) =
       Some ([''::6''] @ ''::7'' # [''::1''])"
    by code_simp+
  moreover have "trusted net_example ?l ''::1''" "\<not> trusted net_example ?l ''::7''"
    by (simp_all add: trusted_def net_example_def Limiter_New_def)
  ultimately have "\<forall>pre a suf. [''::6'', ''::7'', ''::1''] = pre @ a # suf \<longrightarrow> \<not> trusted net_example ?l a \<longrightarrow>
      (\<forall>b\<in>set suf. trusted net_example ?l b) \<longrightarrow> clientIP net_example ?l request_example = a"
    using client_address_not_forged[OF peer, of ?l] by simp
  from this[rule_format, of "[''::6'']" "''::7''" "[''::1'']"] show ?thesis
    by (simp add: trusted_def net_example_def Limiter_New_def)
qed

end
