(* ===== verification/Rich_Text.thy ===== *)
theory Rich_Text
  imports Control_Codec Token_Mutation
begin

section \<open>Rich text\<close>

text \<open>
  \<^verbatim>\<open>pkg/richtext/richtext.go\<close>: TipTap documents are JSON trees of nodes with \<^verbatim>\<open>type\<close>, \<^verbatim>\<open>attrs\<close> and \<^verbatim>\<open>content\<close>. The
  package validates them, normalizes their videos, extracts text, mentions and files, and rewrites files.

  A document is the value the library reads from its text, \<open>None\<close> for a text that is no JSON or empty, and
  a rewritten document is the value of the text that is returned. Reading into \<^verbatim>\<open>any\<close> keeps the last of
  repeated keys and turns numbers into floats, which \<open>rt_number\<close> prints again; reading into a struct matches
  the names of fields by \<open>jl_fold\<close>. \<^verbatim>\<open>url.Parse\<close>, \<^verbatim>\<open>net.ParseIP\<close> and \<^verbatim>\<open>strings.ToLower\<close> are parameters.
\<close>

subsection \<open>Reading\<close>

record url_parts =
  up_Scheme :: string
  up_Hostname :: string
  up_HasUser :: bool
  up_Path :: string
  up_Port :: string
  up_text :: "string \<Rightarrow> string"

record rich_lib =
  rt_json :: json_lib
  rt_number :: "string \<Rightarrow> string option"
  rt_url :: "string \<Rightarrow> url_parts option"
  rt_is_ip :: "string \<Rightarrow> bool"
  rt_lower :: "string \<Rightarrow> string"

datatype rich_error = ErrInvalidDocument | ErrVideoAttrs | ErrVideoHTML | ErrVideoSource | ErrVideoURL
  | ErrVideoLocal | ErrVideoDomain | ErrVideoMime | ErrVideoPort

text \<open>A map in Go as the list of its entries.\<close>

definition set_key :: "string \<Rightarrow> json \<Rightarrow> (string \<times> json) list \<Rightarrow> (string \<times> json) list" where
  "set_key k v m = (k, v) # filter (\<lambda>e. fst e \<noteq> k) m"

definition at_key :: "(string \<times> json) list \<Rightarrow> string \<Rightarrow> json" where
  "at_key m k = (case map_of m k of None \<Rightarrow> JNull | Some v \<Rightarrow> v)"

fun all_some :: "'a option list \<Rightarrow> 'a list option" where
  "all_some [] = Some []"
| "all_some (x # xs) = (case x of None \<Rightarrow> None | Some y \<Rightarrow> map_option ((#) y) (all_some xs))"

text \<open>A value read into \<^verbatim>\<open>any\<close>.\<close>

fun read_any :: "rich_lib \<Rightarrow> json \<Rightarrow> json option" where
  "read_any lib (JNumber n) = map_option JNumber (rt_number lib n)"
| "read_any lib (JArray vs) = map_option JArray (all_some (map (read_any lib) vs))"
| "read_any lib (JObject fs) =
     map_option (\<lambda>es. JObject (fold (\<lambda>(k, v). set_key k v) es []))
       (all_some (map (\<lambda>(k, v). map_option (Pair k) (read_any lib v)) fs))"
| "read_any lib v = Some v"

definition read_map :: "rich_lib \<Rightarrow> json option \<Rightarrow> (string \<times> json) list option" where
  "read_map lib doc =
     (case Option.bind doc (read_any lib) of Some (JObject m) \<Rightarrow> Some m | _ \<Rightarrow> None)"

definition string_value :: "json option \<Rightarrow> string" where
  "string_value v = (case v of Some (JString s) \<Rightarrow> s | _ \<Rightarrow> '''')"

subsection \<open>Videos\<close>

definition trim_dot :: "string \<Rightarrow> string" where
  "trim_dot h = (if suffix ''.'' h then butlast h else h)"

text \<open>\<^verbatim>\<open>path.Ext\<close>.\<close>

definition path_ext :: "string \<Rightarrow> string" where
  "path_ext p =
     (let segment = rev (takeWhile (\<lambda>c. c \<noteq> CHR ''/'') (rev p))
      in if CHR ''.'' \<in> set segment then CHR ''.'' # rev (takeWhile (\<lambda>c. c \<noteq> CHR ''.'') (rev segment)) else '''')"

definition unsafeVideoHost :: "rich_lib \<Rightarrow> string \<Rightarrow> bool" where
  "unsafeVideoHost lib host \<longleftrightarrow>
     (host = ''localhost'' \<or> suffix ''.localhost'' host \<or> suffix ''.local'' host) \<or> rt_is_ip lib host"

definition youtube_hosts :: "string list" where
  "youtube_hosts = [''youtube.com'', ''www.youtube.com'', ''youtu.be'', ''youtube-nocookie.com'', ''www.youtube-nocookie.com'']"

definition vimeo_hosts :: "string list" where
  "vimeo_hosts = [''vimeo.com'', ''www.vimeo.com'', ''player.vimeo.com'']"

definition rutube_hosts :: "string list" where
  "rutube_hosts = [''rutube.ru'', ''www.rutube.ru'']"

definition allowed_mime :: "string \<rightharpoonup> string" where
  "allowed_mime = [''.mp4'' \<mapsto> ''video/mp4'', ''.webm'' \<mapsto> ''video/webm'', ''.ogv'' \<mapsto> ''video/ogg'']"

text \<open>The URL, the provider and the attributes, to which a direct video adds its type.\<close>

definition normalizeVideoURL ::
    "rich_lib \<Rightarrow> string \<Rightarrow> (string \<times> json) list \<Rightarrow> rich_error + (string \<times> string \<times> (string \<times> json) list)" where
  "normalizeVideoURL lib raw attrs =
     (case rt_url lib (TrimSpace raw) of
        None \<Rightarrow> Inl ErrVideoURL
      | Some parsed \<Rightarrow>
          if up_Scheme parsed \<noteq> ''https'' \<or> up_Hostname parsed = '''' \<or> up_HasUser parsed then Inl ErrVideoURL
          else
            let host = rt_lower lib (trim_dot (up_Hostname parsed))
            in if unsafeVideoHost lib host then Inl ErrVideoLocal
            else
              try_bind
                (if host \<in> set youtube_hosts then Inr (''youtube'', attrs)
                 else if host \<in> set vimeo_hosts then Inr (''vimeo'', attrs)
                 else if host \<in> set rutube_hosts then Inr (''rutube'', attrs)
                 else (case allowed_mime (rt_lower lib (path_ext (up_Path parsed))) of
                   None \<Rightarrow> Inl ErrVideoDomain
                 | Some expected \<Rightarrow>
                     if (case at_key attrs ''mimeType'' of JString m \<Rightarrow> m \<noteq> '''' \<and> m \<noteq> expected | _ \<Rightarrow> False)
                     then Inl ErrVideoMime
                     else Inr (''direct'', set_key ''mimeType'' (JString expected) attrs)))
                (\<lambda>(provider, attrs'). if up_Port parsed \<noteq> '''' \<and> up_Port parsed \<noteq> ''443'' then Inl ErrVideoPort
                  else Inr (up_text parsed host, provider, attrs')))"

definition normalize_video :: "rich_lib \<Rightarrow> (string \<times> json) list \<Rightarrow> rich_error + (string \<times> json) list" where
  "normalize_video lib node =
     (if at_key node ''type'' \<noteq> JString ''video'' then Inr node
      else case at_key node ''attrs'' of
        JObject attrs \<Rightarrow>
          if map_of attrs ''html'' \<noteq> None then Inl ErrVideoHTML
          else (case at_key attrs ''src'' of
            JString src \<Rightarrow>
              try_bind (normalizeVideoURL lib src attrs) (\<lambda>(url, provider, attrs').
              Inr (set_key ''attrs'' (JObject (set_key ''provider'' (JString provider) (set_key ''src'' (JString url) attrs'))) node))
          | _ \<Rightarrow> Inl ErrVideoSource)
      | _ \<Rightarrow> Inl ErrVideoAttrs)"

fun first_failure :: "('e + 'a) list \<Rightarrow> 'e + 'a list" where
  "first_failure [] = Inr []"
| "first_failure (x # xs) = try_bind x (\<lambda>y. try_bind (first_failure xs) (\<lambda>ys. Inr (y # ys)))"

text \<open>The children are the elements of \<^verbatim>\<open>content\<close> where that is an array.\<close>

fun normalizeNode :: "rich_lib \<Rightarrow> json \<Rightarrow> rich_error + json" where
  "normalizeNode lib (JObject node) =
     try_bind (normalize_video lib node) (\<lambda>node'.
     case map_of (map (\<lambda>(k, v). (k, case v of JArray vs \<Rightarrow> Some (first_failure (map (normalizeNode lib) vs)) | _ \<Rightarrow> None)) node) ''content'' of
       Some (Some children) \<Rightarrow> try_bind children (\<lambda>vs. Inr (JObject (set_key ''content'' (JArray vs) node')))
     | _ \<Rightarrow> Inr (JObject node'))"
| "normalizeNode lib v = Inl ErrInvalidDocument"

definition Normalize :: "rich_lib \<Rightarrow> json option \<Rightarrow> rich_error + json" where
  "Normalize lib doc =
     (case read_map lib doc of
        None \<Rightarrow> Inl ErrInvalidDocument
      | Some root \<Rightarrow>
          if at_key root ''type'' \<noteq> JString ''doc'' then Inl ErrInvalidDocument
          else try_bind (normalizeNode lib (JObject root)) (\<lambda>v. Inr (sorted_fields v)))"

definition richtext_Validate :: "rich_lib \<Rightarrow> json option \<Rightarrow> rich_error option" where
  "richtext_Validate lib doc =
     (case doc of
        Some (JObject fs) \<Rightarrow>
          let names = remdups (map fst fs) in
          if length names < 1 \<or> length names > 2 then Some ErrInvalidDocument
          else if list_ex (\<lambda>n. n \<noteq> ''type'' \<and> n \<noteq> ''content'') names then Some ErrInvalidDocument
          else if string_value (last_of fs ''type'') \<noteq> ''doc'' then Some ErrInvalidDocument
          else if (case last_of fs ''content'' of None \<Rightarrow> False | Some (JArray _) \<Rightarrow> False | _ \<Rightarrow> True) then Some ErrInvalidDocument
          else (case Normalize lib doc of Inl e \<Rightarrow> Some e | Inr _ \<Rightarrow> None)
      | _ \<Rightarrow> Some ErrInvalidDocument)"

subsection \<open>Structs\<close>

text \<open>The fields of a struct are set in the order of the keys, matched by the exact or else the folded name;
  \<^verbatim>\<open>null\<close> leaves a string, an error makes the whole value unreadable.\<close>

definition struct_field :: "rich_lib \<Rightarrow> string list \<Rightarrow> string \<Rightarrow> string option" where
  "struct_field lib names k = field_named (rt_json lib) names k"

fun set_struct :: "(string \<Rightarrow> string option) \<Rightarrow> (string \<Rightarrow> json \<Rightarrow> 'a \<Rightarrow> 'a option) \<Rightarrow> (string \<times> json) list \<Rightarrow> 'a \<Rightarrow> 'a option" where
  "set_struct named upd [] r = Some r"
| "set_struct named upd ((k, v) # fs) r =
     (case named k of
        None \<Rightarrow> set_struct named upd fs r
      | Some n \<Rightarrow> Option.bind (upd n v r) (set_struct named upd fs))"

definition set_string :: "json \<Rightarrow> string \<Rightarrow> string option" where
  "set_string v old = (case v of JString s \<Rightarrow> Some s | JNull \<Rightarrow> Some old | _ \<Rightarrow> None)"

text \<open>The children of a document of type \<^verbatim>\<open>doc\<close>.\<close>

definition document_content :: "rich_lib \<Rightarrow> json option \<Rightarrow> json list option" where
  "document_content lib doc =
     (case doc of
        Some (JObject fs) \<Rightarrow>
          (case set_struct (struct_field lib [''type'', ''content''])
              (\<lambda>n v (t, c). if n = ''type'' then map_option (\<lambda>t'. (t', c)) (set_string v t)
                 else (case v of JArray vs \<Rightarrow> Some (t, vs) | JNull \<Rightarrow> Some (t, []) | _ \<Rightarrow> None)) fs ('''', []) of
             Some (t, c) \<Rightarrow> if t = ''doc'' then Some c else None
           | None \<Rightarrow> None)
      | _ \<Rightarrow> None)"

definition struct_id :: "rich_lib \<Rightarrow> json \<Rightarrow> string \<Rightarrow> string option" where
  "struct_id lib v old =
     (case v of
        JObject fs \<Rightarrow> set_struct (struct_field lib [''id'']) (\<lambda>_ v s. set_string v s) fs old
      | JNull \<Rightarrow> Some old
      | _ \<Rightarrow> None)"

subsection \<open>Plain text\<close>

fun collect_text :: "json \<Rightarrow> string \<Rightarrow> string" where
  "collect_text (JObject fs) builder =
     (let text = string_value (last_of fs ''text'');
          b1 = (if text \<noteq> '''' then (if builder \<noteq> '''' then builder @ '' '' else builder) @ text else builder);
          b2 = (case last_of (map (\<lambda>(k, v). (k, case v of JArray vs \<Rightarrow> map collect_text vs | _ \<Rightarrow> [])) fs) ''content'' of
                  None \<Rightarrow> b1 | Some children \<Rightarrow> fold (\<lambda>f b. f b) children b1)
      in if string_value (last_of fs ''type'') = ''hardBreak'' \<and> b2 \<noteq> '''' then b2 @ '' '' else b2)"
| "collect_text v builder = builder"

definition PlainText :: "rich_lib \<Rightarrow> json option \<Rightarrow> string" where
  "PlainText lib doc =
     (case document_content lib doc of
        None \<Rightarrow> ''''
      | Some nodes \<Rightarrow> join '' '' (Fields (fold collect_text nodes '''')))"

subsection \<open>Mentions and files\<close>

text \<open>The identifiers in the order they are met; the maps they are put into forget order and repetitions.\<close>

definition trimmed_id :: "string option \<Rightarrow> string list" where
  "trimmed_id s = (case s of None \<Rightarrow> [] | Some i \<Rightarrow> if TrimSpace i \<noteq> '''' then [TrimSpace i] else [])"

fun collectMentions :: "rich_lib \<Rightarrow> json \<Rightarrow> string list" where
  "collectMentions lib (JObject fs) =
     (if string_value (last_of fs ''type'') = ''mention''
      then (case last_of fs ''attrs'' of None \<Rightarrow> [] | Some attrs \<Rightarrow> trimmed_id (struct_id lib attrs '''')) else []) @
     (case last_of (map (\<lambda>(k, v). (k, case v of JArray vs \<Rightarrow> concat (map (collectMentions lib) vs) | _ \<Rightarrow> [])) fs) ''content'' of
        None \<Rightarrow> [] | Some ids \<Rightarrow> ids)"
| "collectMentions lib v = []"

definition Mentions :: "rich_lib \<Rightarrow> json option \<Rightarrow> string list" where
  "Mentions lib doc =
     (case document_content lib doc of None \<Rightarrow> [] | Some nodes \<Rightarrow> remdups (concat (map (collectMentions lib) nodes)))"

text \<open>The identifier and the file of the attributes.\<close>

definition file_values :: "rich_lib \<Rightarrow> json \<Rightarrow> (string \<times> string option) option" where
  "file_values lib v =
     (case v of
        JObject fs \<Rightarrow>
          set_struct (struct_field lib [''fileId'', ''file''])
            (\<lambda>n v (i, f). if n = ''fileId'' then map_option (\<lambda>i'. (i', f)) (set_string v i)
               else if v = JNull then Some (i, None)
               else map_option (\<lambda>s. (i, Some s)) (struct_id lib v (case f of None \<Rightarrow> '''' | Some s \<Rightarrow> s))) fs ('''', None)
      | JNull \<Rightarrow> Some ('''', None)
      | _ \<Rightarrow> None)"

definition attrs_files :: "rich_lib \<Rightarrow> json option \<Rightarrow> string list" where
  "attrs_files lib attrs =
     (case Option.bind attrs (file_values lib) of
        None \<Rightarrow> []
      | Some (i, f) \<Rightarrow> trimmed_id (Some i) @ trimmed_id f)"

fun collectFileIDs :: "rich_lib \<Rightarrow> json \<Rightarrow> string list" where
  "collectFileIDs lib (JObject fs) =
     attrs_files lib (last_of fs ''attrs'') @
     (case last_of (map (\<lambda>(k, v). (k, case v of JArray vs \<Rightarrow> concat (map (collectFileIDs lib) vs) | _ \<Rightarrow> [])) fs) ''content'' of
        None \<Rightarrow> [] | Some ids \<Rightarrow> ids)"
| "collectFileIDs lib v = []"

definition FileIDs :: "rich_lib \<Rightarrow> json option \<Rightarrow> string list" where
  "FileIDs lib doc =
     (case document_content lib doc of None \<Rightarrow> [] | Some nodes \<Rightarrow> sort (remdups (concat (map (collectFileIDs lib) nodes))))"

subsection \<open>Replacing files\<close>

definition replaced :: "(string \<rightharpoonup> string) \<Rightarrow> string \<Rightarrow> string" where
  "replaced replacements i = (case replacements i of None \<Rightarrow> i | Some j \<Rightarrow> j)"

definition replace_at :: "(string \<rightharpoonup> string) \<Rightarrow> string \<Rightarrow> (string \<times> json) list \<Rightarrow> (string \<times> json) list" where
  "replace_at replacements key m =
     (case at_key m key of
        JString i \<Rightarrow> (if replacements i \<noteq> None then set_key key (JString (replaced replacements i)) m else m)
      | _ \<Rightarrow> m)"

definition replace_attrs :: "(string \<rightharpoonup> string) \<Rightarrow> (string \<times> json) list \<Rightarrow> (string \<times> json) list" where
  "replace_attrs replacements attrs =
     (let attrs' = replace_at replacements ''fileId'' attrs
      in case at_key attrs' ''file'' of
           JObject file \<Rightarrow> set_key ''file'' (JObject (replace_at replacements ''id'' file)) attrs'
         | _ \<Rightarrow> attrs')"

fun replaceFileIDsInNode :: "(string \<rightharpoonup> string) \<Rightarrow> json \<Rightarrow> json" where
  "replaceFileIDsInNode replacements (JObject node) =
     (let node' = (case at_key node ''attrs'' of
            JObject attrs \<Rightarrow> set_key ''attrs'' (JObject (replace_attrs replacements attrs)) node
          | _ \<Rightarrow> node)
      in case map_of (map (\<lambda>(k, v). (k, case v of JArray vs \<Rightarrow> Some (map (replaceFileIDsInNode replacements) vs) | _ \<Rightarrow> None)) node) ''content'' of
           Some (Some vs) \<Rightarrow> JObject (set_key ''content'' (JArray vs) node')
         | _ \<Rightarrow> JObject node')"
| "replaceFileIDsInNode replacements v = v"

definition ReplaceFileIDs :: "rich_lib \<Rightarrow> json option \<Rightarrow> (string \<rightharpoonup> string) \<Rightarrow> rich_error + json" where
  "ReplaceFileIDs lib doc replacements =
     (case richtext_Validate lib doc of
        Some e \<Rightarrow> Inl e
      | None \<Rightarrow>
          (case read_map lib doc of
             None \<Rightarrow> Inl ErrInvalidDocument
           | Some root \<Rightarrow> Inr (sorted_fields (replaceFileIDsInNode replacements (JObject root)))))"

end
