(* ===== verification/Rich_Text_Videos.thy ===== *)
theory Rich_Text_Videos
  imports Rich_Text
begin

section \<open>Videos of a rich text\<close>

text \<open>
  The nodes of a document, and what \<^verbatim>\<open>Normalize\<close> guarantees of the videos among them.
\<close>

subsection \<open>Maps and nodes\<close>

lemma map_of_mapped: "map_of (map (\<lambda>(k, v). (k, f v)) fs) k = map_option f (map_of fs k)"
  by (induction fs) auto

lemma map_of_set_key [simp]: "map_of (set_key k v m) k' = (if k' = k then Some v else map_of m k')"
  by (induction m) (auto simp: set_key_def)

lemma at_key_set_key [simp]: "at_key (set_key k v m) k' = (if k' = k then v else at_key m k')"
  by (simp add: at_key_def)

lemma map_of_filter_key: "map_of fs k = (case filter (\<lambda>e. fst e = k) fs of [] \<Rightarrow> None | e # _ \<Rightarrow> Some (snd e))"
  by (induction fs) auto

lemma map_of_sort_key: "map_of (sort_key fst fs) k = map_of fs k"
  unfolding map_of_filter_key by (simp add: sort_key_stable[of fst])

lemma map_of_sorted_fields: "map_of (sort_key fst (map (\<lambda>(k, v). (k, sorted_fields v)) fs)) k = map_option sorted_fields (map_of fs k)"
  by (simp add: map_of_mapped map_of_sort_key)

text \<open>The nodes of a document: itself and the nodes of its children.\<close>

inductive node_of :: "json \<Rightarrow> json \<Rightarrow> bool" where
  node_self: "node_of v v"
| node_child: "map_of fs ''content'' = Some (JArray vs) \<Longrightarrow> c \<in> set vs \<Longrightarrow> node_of n c \<Longrightarrow> node_of n (JObject fs)"

lemma node_of_sorted:
  "node_of n (sorted_fields v) \<Longrightarrow> \<exists>n'. n = sorted_fields n' \<and> node_of n' v"
proof (induction n "sorted_fields v" arbitrary: v rule: node_of.induct)
  case (node_self v)
  then show ?case by (blast intro: node_of.node_self)
next
  case (node_child fs vs c n)
  obtain gs where v: "v = JObject gs" "fs = sort_key fst (map (\<lambda>(k, v). (k, sorted_fields v)) gs)"
    using node_child.hyps(5) by (cases v) auto
  then obtain ws where ws: "map_of gs ''content'' = Some (JArray ws)" "vs = map sorted_fields ws"
    using node_child.hyps(1) by (auto simp: map_of_sorted_fields elim: sorted_fields.elims)
  then obtain d where "d \<in> set ws" "c = sorted_fields d" using node_child.hyps(2) by auto
  with node_child.hyps(4)[of d] ws(1) v(1) show ?case by (blast intro: node_of.node_child)
qed

lemma normalizeNode_object:
  "normalizeNode lib (JObject node) =
     try_bind (normalize_video lib node) (\<lambda>node'.
     case map_of node ''content'' of
       Some (JArray vs) \<Rightarrow> try_bind (first_failure (map (normalizeNode lib) vs)) (\<lambda>vs. Inr (JObject (set_key ''content'' (JArray vs) node')))
     | _ \<Rightarrow> Inr (JObject node'))"
  by (auto simp: map_of_mapped try_bind_def split: sum.splits option.splits json.splits)

lemma first_failure_Inr: "first_failure xs = Inr ys \<longleftrightarrow> list_all2 (\<lambda>x y. x = Inr y) xs ys"
  by (induction xs arbitrary: ys) (auto simp: try_bind_Inr list_all2_Cons1)

subsection \<open>Videos\<close>

text \<open>What a video of a normalized document is.\<close>

definition video_url :: "rich_lib \<Rightarrow> (string \<times> json) list \<Rightarrow> url_parts \<Rightarrow> string \<Rightarrow> bool" where
  "video_url lib attrs parsed host \<longleftrightarrow>
     up_Scheme parsed = ''https'' \<and> \<not> up_HasUser parsed \<and> up_Port parsed \<in> {'''', ''443''} \<and>
     host = rt_lower lib (trim_dot (up_Hostname parsed)) \<and> \<not> unsafeVideoHost lib host \<and>
     at_key attrs ''src'' = JString (up_text parsed host) \<and>
     (at_key attrs ''provider'' = JString ''youtube'' \<and> host \<in> set youtube_hosts \<or>
      at_key attrs ''provider'' = JString ''vimeo'' \<and> host \<in> set vimeo_hosts \<or>
      at_key attrs ''provider'' = JString ''rutube'' \<and> host \<in> set rutube_hosts \<or>
      at_key attrs ''provider'' = JString ''direct'' \<and>
        (\<exists>m. allowed_mime (rt_lower lib (path_ext (up_Path parsed))) = Some m \<and> at_key attrs ''mimeType'' = JString m))"

definition safe_video :: "rich_lib \<Rightarrow> json \<Rightarrow> bool" where
  "safe_video lib n \<longleftrightarrow>
     (\<forall>node. n = JObject node \<longrightarrow> at_key node ''type'' = JString ''video'' \<longrightarrow>
        (\<exists>attrs raw parsed host. at_key node ''attrs'' = JObject attrs \<and> map_of attrs ''html'' = None \<and>
           rt_url lib (TrimSpace raw) = Some parsed \<and> video_url lib attrs parsed host))"

lemma normalizeVideoURL_Inr:
  assumes "normalizeVideoURL lib raw attrs = Inr (url, provider, attrs')"
  shows "\<exists>parsed host. rt_url lib (TrimSpace raw) = Some parsed \<and>
    video_url lib (set_key ''provider'' (JString provider) (set_key ''src'' (JString url) attrs')) parsed host \<and>
    map_of attrs' ''html'' = map_of attrs ''html''"
proof -
  obtain parsed where parsed: "rt_url lib (TrimSpace raw) = Some parsed"
    using assms by (auto simp: normalizeVideoURL_def split: option.splits)
  define host where "host = rt_lower lib (trim_dot (up_Hostname parsed))"
  have ok: "up_Scheme parsed = ''https''" "\<not> up_HasUser parsed" "\<not> unsafeVideoHost lib host"
    using assms by (auto simp: normalizeVideoURL_def parsed host_def[symmetric] Let_def split: if_splits)
  obtain pa where choice: "(if host \<in> set youtube_hosts then Inr (''youtube'', attrs)
                 else if host \<in> set vimeo_hosts then Inr (''vimeo'', attrs)
                 else if host \<in> set rutube_hosts then Inr (''rutube'', attrs)
                 else (case allowed_mime (rt_lower lib (path_ext (up_Path parsed))) of
                   None \<Rightarrow> Inl ErrVideoDomain
                 | Some expected \<Rightarrow>
                     if (case at_key attrs ''mimeType'' of JString m \<Rightarrow> m \<noteq> '''' \<and> m \<noteq> expected | _ \<Rightarrow> False)
                     then Inl ErrVideoMime
                     else Inr (''direct'', set_key ''mimeType'' (JString expected) attrs))) = Inr pa"
    and pa: "pa = (provider, attrs')" "up_Port parsed \<in> {'''', ''443''}" "url = up_text parsed host"
    using assms unfolding normalizeVideoURL_def parsed
    by (auto simp: host_def[symmetric] Let_def try_bind_Inr split: if_split_asm)
  from choice[unfolded pa(1)] have "host \<in> set youtube_hosts \<and> provider = ''youtube'' \<and> attrs' = attrs \<or>
      host \<in> set vimeo_hosts \<and> provider = ''vimeo'' \<and> attrs' = attrs \<or>
      host \<in> set rutube_hosts \<and> provider = ''rutube'' \<and> attrs' = attrs \<or>
      (\<exists>m. allowed_mime (rt_lower lib (path_ext (up_Path parsed))) = Some m \<and> provider = ''direct'' \<and>
         attrs' = set_key ''mimeType'' (JString m) attrs)"
    by (auto split: if_split_asm option.split_asm)
  then have "video_url lib (set_key ''provider'' (JString provider) (set_key ''src'' (JString url) attrs')) parsed host \<and>
      map_of attrs' ''html'' = map_of attrs ''html''"
    using ok pa(2,3) host_def unfolding video_url_def by (elim disjE exE conjE) simp_all
  with parsed show ?thesis by blast
qed

lemma normalize_video_safe:
  assumes "normalize_video lib node = Inr node'"
  shows "safe_video lib (JObject node') \<and> at_key node' ''type'' = at_key node ''type'' \<and> map_of node' ''content'' = map_of node ''content''"
proof (cases "at_key node ''type'' = JString ''video''")
  case True
  then obtain attrs src r where parts: "at_key node ''attrs'' = JObject attrs" "map_of attrs ''html'' = None"
    "at_key attrs ''src'' = JString src" "normalizeVideoURL lib src attrs = Inr r"
    and node': "node' = set_key ''attrs'' (JObject (set_key ''provider'' (JString (fst (snd r))) (set_key ''src'' (JString (fst r)) (snd (snd r))))) node"
    using assms by (auto simp: normalize_video_def try_bind_Inr split: json.split_asm if_split_asm prod.splits)
  obtain url provider attrs' where r: "r = (url, provider, attrs')" by (cases r)
  from normalizeVideoURL_Inr[OF parts(4)[unfolded r]] parts(2) show ?thesis
    unfolding node' r safe_video_def by auto
qed (use assms in \<open>auto simp: normalize_video_def safe_video_def\<close>)

lemma safe_video_content: "safe_video lib (JObject node) \<Longrightarrow> safe_video lib (JObject (set_key ''content'' v node))"
  by (auto simp: safe_video_def)

text \<open>A normalized node: its videos checked, its children normalized.\<close>

lemma normalizeNode_Inr:
  assumes "normalizeNode lib v = Inr w"
  obtains node node' where "v = JObject node" "normalize_video lib node = Inr node'" "w = JObject node'"
      "\<forall>vs. map_of node ''content'' \<noteq> Some (JArray vs)"
    | node node' us vs where "v = JObject node" "normalize_video lib node = Inr node'" "map_of node ''content'' = Some (JArray us)"
      "list_all2 (\<lambda>u c. normalizeNode lib u = Inr c) us vs" "w = JObject (set_key ''content'' (JArray vs) node')"
proof -
  obtain node where v: "v = JObject node" using assms by (cases v) auto
  then obtain node' where node': "normalize_video lib node = Inr node'"
    using assms by (auto simp: normalizeNode_object try_bind_Inr simp del: normalizeNode.simps)
  show thesis
  proof (cases "\<exists>us. map_of node ''content'' = Some (JArray us)")
    case True
    then obtain us where us: "map_of node ''content'' = Some (JArray us)" by blast
    then obtain vs where "first_failure (map (normalizeNode lib) us) = Inr vs" "w = JObject (set_key ''content'' (JArray vs) node')"
      using assms[unfolded v normalizeNode_object node'] by (auto simp: try_bind_Inr)
    then show thesis using that(2)[OF v node' us] by (simp add: first_failure_Inr list_all2_map1)
  next
    case False
    then have "w = JObject node'"
      using assms[unfolded v normalizeNode_object node'] by (auto split: option.splits json.splits)
    with False that(1)[OF v node'] show thesis by blast
  qed
qed

lemma normalizeNode_safe:
  "node_of n w \<Longrightarrow> normalizeNode lib v = Inr w \<Longrightarrow> safe_video lib n"
proof (induction n w arbitrary: v rule: node_of.induct)
  case (node_self w)
  then show ?case
    by (rule normalizeNode_Inr) (use normalize_video_safe safe_video_content in blast)+
next
  case (node_child fs vs c n)
  from node_child.prems show ?case
  proof (rule normalizeNode_Inr, goal_cases)
    case (1 node node')
    with node_child.hyps(1) normalize_video_safe[of lib node node'] show ?case by simp
  next
    case (2 node node' us ws)
    then have "vs = ws" using node_child.hyps(1) by simp
    with 2(4) node_child.hyps(2) obtain u where "normalizeNode lib u = Inr c"
      by (auto simp: list_all2_conv_all_nth in_set_conv_nth)
    then show ?case by (rule node_child.IH)
  qed
qed

lemma at_key_sorted: "at_key (sort_key fst (map (\<lambda>(k, v). (k, sorted_fields v)) fs)) k = sorted_fields (at_key fs k)"
  by (auto simp: at_key_def map_of_sorted_fields split: option.splits)

lemma sorted_fields_inv [simp]:
  "sorted_fields v = JString s \<longleftrightarrow> v = JString s"
  by (cases v) auto

lemma safe_video_sorted: "safe_video lib n \<Longrightarrow> safe_video lib (sorted_fields n)"
proof -
  assume n: "safe_video lib n"
  have "video_url lib (sort_key fst (map (\<lambda>(k, v). (k, sorted_fields v)) attrs)) parsed host"
    if "video_url lib attrs parsed host" for attrs parsed host
    using that unfolding video_url_def at_key_sorted sorted_fields_inv .
  with n show ?thesis
    by (cases n) (fastforce simp: safe_video_def at_key_sorted map_of_sorted_fields)+
qed

subsection \<open>The properties\<close>

text \<open>(C39) Every video a normalized document reaches is one of an allowed provider or a direct file of an
  allowed type, by HTTPS on the standard port, of a host that is neither local nor an address; it has no
  embedded HTML, and its URL is the one that was checked.\<close>

theorem Normalize_videos_safe:
  assumes "Normalize lib doc = Inr v" "node_of n v"
  shows "safe_video lib n"
proof -
  obtain root w where "normalizeNode lib (JObject root) = Inr w" "v = sorted_fields w"
    using assms(1) by (auto simp: Normalize_def try_bind_Inr simp del: normalizeNode.simps sorted_fields.simps split: option.splits if_splits)
  with assms(2) node_of_sorted[of n w] normalizeNode_safe[of _ w lib] safe_video_sorted show ?thesis by blast
qed

definition rich_lib_example :: rich_lib where
  "rich_lib_example = \<lparr>rt_json = \<lparr>jl_parse = Some, jl_nil = ''nil'', jl_fold = (\<lambda>s. s)\<rparr>, rt_number = Some,
     rt_url = (\<lambda>s. Some \<lparr>up_Scheme = ''https'', up_Hostname = ''Vimeo.com'', up_HasUser = False, up_Path = ''/1'', up_Port = '''',
       up_text = (\<lambda>h. ''https://'' @ h @ ''/1'')\<rparr>),
     rt_is_ip = (\<lambda>_. False), rt_lower = (\<lambda>s. if s = ''Vimeo.com'' then ''vimeo.com'' else s)\<rparr>"

definition video_example :: json where
  "video_example = JObject [(''type'', JString ''video''), (''attrs'', JObject [(''src'', JString ''https://Vimeo.com/1'')])]"

theorem Normalize_videos_safe_witness:
  "\<exists>v n. Normalize rich_lib_example (Some (JObject [(''type'', JString ''doc''), (''content'', JArray [video_example])])) = Inr v \<and>
     node_of n v \<and> safe_video rich_lib_example n \<and>
     n = JObject [(''attrs'', JObject [(''provider'', JString ''vimeo''), (''src'', JString ''https://vimeo.com/1'')]), (''type'', JString ''video'')]"
proof -
  let ?n = "JObject [(''attrs'', JObject [(''provider'', JString ''vimeo''), (''src'', JString ''https://vimeo.com/1'')]), (''type'', JString ''video'')]"
  let ?v = "JObject [(''content'', JArray [?n]), (''type'', JString ''doc'')]"
  have "suffix ''.'' ''Vimeo.com'' = False" "suffix ''.localhost'' ''vimeo.com'' = False" "suffix ''.local'' ''vimeo.com'' = False"
    by code_simp+
  then have normal: "Normalize rich_lib_example (Some (JObject [(''type'', JString ''doc''), (''content'', JArray [video_example])])) = Inr ?v"
    by (simp add: rich_lib_example_def Normalize_def read_map_def set_key_def at_key_def normalize_video_def try_bind_def video_example_def
        normalizeVideoURL_def trim_dot_def unsafeVideoHost_def youtube_hosts_def vimeo_hosts_def)
  moreover have node: "node_of ?n ?v" by (rule node_child[of _ "[?n]" ?n]) (simp_all add: node_self)
  moreover note Normalize_videos_safe[OF normal node]
  ultimately show ?thesis by blast
qed

end
