(* ===== verification/Rich_Text_Files.thy ===== *)
theory Rich_Text_Files
  imports Rich_Text_Videos
begin

section \<open>Files of a rich text\<close>

text \<open>
  Which files a document refers to and what \<^verbatim>\<open>ReplaceFileIDs\<close> makes of them, for documents whose keys are
  spelled as they are and whose references are trimmed, and for one whose reference is not.
\<close>

subsection \<open>Replaced files\<close>

lemma map_of_rev:
  assumes "distinct (map fst fs)" shows "map_of (rev fs) k = map_of fs k"
proof (cases "map_of fs k")
  case None
  then have "map_of (rev fs) k = None" by (simp add: map_of_eq_None_iff)
  with None show ?thesis by simp
next
  case (Some v)
  then have "(k, v) \<in> set (rev fs)" by (simp add: map_of_SomeD)
  moreover have "distinct (map fst (rev fs))" using assms by (simp add: rev_map[symmetric])
  ultimately have "map_of (rev fs) k = Some v" by (metis map_of_is_SomeI)
  with Some show ?thesis by simp
qed

lemma last_of_distinct: "distinct (map fst fs) \<Longrightarrow> last_of fs k = map_of fs k"
  by (simp add: last_of_def map_of_rev)

text \<open>Keys are spelled as they are, references are trimmed strings.\<close>

definition exact_keys :: "rich_lib \<Rightarrow> string list \<Rightarrow> (string \<times> json) list \<Rightarrow> bool" where
  "exact_keys lib names fs \<longleftrightarrow> distinct (map fst fs) \<and> (\<forall>k\<in>fst ` set fs. k \<notin> set names \<longrightarrow> struct_field lib names k = None)"

definition trimmed_at :: "(string \<times> json) list \<Rightarrow> string \<Rightarrow> bool" where
  "trimmed_at fs k \<longleftrightarrow> (\<forall>v. map_of fs k = Some v \<longrightarrow> (\<exists>i. v = JString i \<and> TrimSpace i = i))"

definition plain_attrs :: "rich_lib \<Rightarrow> (string \<times> json) list \<Rightarrow> bool" where
  "plain_attrs lib attrs \<longleftrightarrow> exact_keys lib [''fileId'', ''file''] attrs \<and> trimmed_at attrs ''fileId'' \<and>
     (\<forall>v. map_of attrs ''file'' = Some v \<longrightarrow> (\<exists>f. v = JObject f \<and> exact_keys lib [''id''] f \<and> trimmed_at f ''id''))"

definition ids_at :: "(string \<times> json) list \<Rightarrow> string \<Rightarrow> string list" where
  "ids_at fs k = (case map_of fs k of Some (JString i) \<Rightarrow> trimmed_id (Some i) | _ \<Rightarrow> [])"

definition ids_of_attrs :: "(string \<times> json) list \<Rightarrow> string list" where
  "ids_of_attrs attrs = ids_at attrs ''fileId'' @ (case map_of attrs ''file'' of Some (JObject f) \<Rightarrow> ids_at f ''id'' | _ \<Rightarrow> [])"

lemma struct_id_exact:
  assumes "exact_keys lib [''id''] fs" "trimmed_at fs ''id''"
  shows "struct_id lib (JObject fs) s = Some (case map_of fs ''id'' of Some (JString i) \<Rightarrow> i | _ \<Rightarrow> s)"
proof -
  have "set_struct (struct_field lib [''id'']) (\<lambda>_ v s. set_string v s) fs s = Some (case map_of fs ''id'' of Some (JString i) \<Rightarrow> i | _ \<Rightarrow> s)"
    using assms
  proof (induction fs arbitrary: s)
    case (Cons x fs)
    obtain k v where x: "x = (k, v)" by (cases x)
    have IH: "exact_keys lib [''id''] fs" "k \<notin> fst ` set fs" using Cons.prems(1) by (auto simp: exact_keys_def x)
    show ?case
    proof (cases "k = ''id''")
      case True
      then obtain i where "v = JString i" using Cons.prems(2) by (auto simp: trimmed_at_def x)
      moreover have none: "map_of fs ''id'' = None" using IH(2) True by (simp add: map_of_eq_None_iff)
      moreover have "trimmed_at fs ''id''" by (simp add: trimmed_at_def none)
      ultimately show ?thesis using Cons.IH[OF IH(1)] True
        by (simp add: x struct_field_def field_named_def set_string_def)
    next
      case False
      then have "struct_field lib [''id''] k = None" using Cons.prems(1) by (simp add: exact_keys_def x)
      moreover have "trimmed_at fs ''id''" using Cons.prems(2) False by (simp add: trimmed_at_def x)
      ultimately show ?thesis using Cons.IH[OF IH(1)] False by (simp add: x)
    qed
  qed simp
  then show ?thesis by (simp add: struct_id_def)
qed

lemma file_values_exact:
  assumes "plain_attrs lib attrs"
  shows "attrs_files lib (Some (JObject attrs)) = ids_of_attrs attrs"
proof -
  let ?upd = "\<lambda>n v (i, f). if n = ''fileId'' then map_option (\<lambda>i'. (i', f)) (set_string v i)
               else if v = JNull then Some (i, None)
               else map_option (\<lambda>s. (i, Some s)) (struct_id lib v (case f of None \<Rightarrow> '''' | Some s \<Rightarrow> s))"
  have "plain_attrs lib fs \<Longrightarrow> (map_of fs ''file'' \<noteq> None \<longrightarrow> f = None) \<Longrightarrow>
      set_struct (struct_field lib [''fileId'', ''file'']) ?upd fs (i, f) =
        Some (case map_of fs ''fileId'' of Some (JString j) \<Rightarrow> j | _ \<Rightarrow> i,
              case map_of fs ''file'' of Some (JObject g) \<Rightarrow> Some (case map_of g ''id'' of Some (JString j) \<Rightarrow> j | _ \<Rightarrow> '''') | _ \<Rightarrow> f)" for fs i f
  proof (induction fs arbitrary: i f)
    case (Cons x fs)
    obtain k v where x: "x = (k, v)" by (cases x)
    have new: "k \<notin> fst ` set fs" using Cons.prems(1) by (auto simp: plain_attrs_def exact_keys_def x)
    then have none: "map_of fs k = None" by (simp add: map_of_eq_None_iff)
    have rest: "plain_attrs lib fs"
      using Cons.prems(1) none by (auto simp: plain_attrs_def exact_keys_def trimmed_at_def x split: if_splits)
    consider "k = ''fileId''" | "k = ''file''" | "k \<noteq> ''fileId''" "k \<noteq> ''file''" by blast
    then show ?case
    proof cases
      case 1
      then obtain j where "v = JString j" using Cons.prems(1) by (auto simp: plain_attrs_def trimmed_at_def x)
      then show ?thesis using Cons.IH[OF rest, of f j] Cons.prems(2) 1 none
        by (simp add: x struct_field_def field_named_def set_string_def)
    next
      case 2
      then obtain g where g: "v = JObject g" "exact_keys lib [''id''] g" "trimmed_at g ''id''"
        using Cons.prems(1) by (auto simp: plain_attrs_def x)
      define q where "q = (case map_of g ''id'' of Some (JString j) \<Rightarrow> j | _ \<Rightarrow> '''')"
      have "struct_id lib (JObject g) '''' = Some q" using struct_id_exact[OF g(2,3), of "''''"] by (simp add: q_def)
      moreover have "f = None" using Cons.prems(2) 2 by (simp add: x)
      ultimately show ?thesis using Cons.IH[OF rest, of "Some q" i] 2 none g(1)
        by (simp add: x struct_field_def field_named_def q_def[symmetric])
    next
      case 3
      then have "struct_field lib [''fileId'', ''file''] k = None" using Cons.prems(1) by (simp add: plain_attrs_def exact_keys_def x)
      then show ?thesis using Cons.IH[OF rest, of f i] Cons.prems(2) 3 by (simp add: x)
    qed
  qed simp
  from this[OF assms, of None "''''"] show ?thesis
    by (auto simp: attrs_files_def file_values_def ids_of_attrs_def ids_at_def trimmed_id_def split: option.splits json.splits)
qed

text \<open>Reading into a map of distinct keys.\<close>

lemma all_some_Some: "all_some xs = Some ys \<longleftrightarrow> list_all2 (\<lambda>x y. x = Some y) xs ys"
  by (induction xs arbitrary: ys) (auto simp: list_all2_Cons1 split: option.splits)

lemma fold_set_key:
  "distinct (map fst es) \<Longrightarrow> fst ` set es \<inter> fst ` set m = {} \<Longrightarrow> fold (\<lambda>(k, v). set_key k v) es m = rev es @ m"
proof (induction es arbitrary: m)
  case (Cons e es)
  obtain k v where e: "e = (k, v)" by (cases e)
  have "filter (\<lambda>x. fst x \<noteq> k) m = m" using Cons.prems(2) by (intro filter_True) (force simp: e)
  moreover have "fst ` set es \<inter> fst ` set ((k, v) # m) = {}" using Cons.prems by (auto simp: e)
  ultimately show ?case using Cons.IH[of "(k, v) # m"] Cons.prems(1) by (simp add: e set_key_def)
qed simp

lemma read_object:
  assumes "read_any lib (JObject fs) = Some w" "distinct (map fst fs)"
  obtains m where "w = JObject m" "distinct (map fst m)" "fst ` set m = fst ` set fs"
    "\<And>k. map_of m k = Option.bind (map_of fs k) (read_any lib)" "\<And>k v. map_of fs k = Some v \<Longrightarrow> read_any lib v \<noteq> None"
proof -
  obtain es where es: "list_all2 (\<lambda>x y. x = Some y) (map (\<lambda>(k, v). map_option (Pair k) (read_any lib v)) fs) es"
    and w: "w = JObject (fold (\<lambda>(k, v). set_key k v) es [])"
    using assms(1) by (auto simp: all_some_Some)
  then have rel: "list_all2 (\<lambda>(k, v) (k', v'). k' = k \<and> read_any lib v = Some v') fs es"
    by (auto simp: list_all2_map1 case_prod_unfold elim!: list.rel_mono_strong)
  have keys: "map fst es = map fst fs"
    using rel by (induction fs es rule: list_all2_induct) auto
  have map: "map_of es k = Option.bind (map_of fs k) (read_any lib)" for k
    using rel by (induction fs es rule: list_all2_induct) auto
  have some: "map_of fs k = Some v \<Longrightarrow> read_any lib v \<noteq> None" for k v
    using rel by (induction fs es rule: list_all2_induct) (auto split: if_splits)
  have "w = JObject (rev es)" using w fold_set_key[of es "[]"] assms(2) keys by simp
  moreover have "distinct (map fst (rev es))" using assms(2) keys by (simp add: rev_map[symmetric])
  moreover have "fst ` set (rev es) = fst ` set fs" using keys by (metis set_map set_rev)
  moreover have "map_of (rev es) k = map_of es k" for k using assms(2) keys by (simp add: map_of_rev)
  ultimately show thesis using that map some by simp
qed

text \<open>Changing one key.\<close>

definition on_string :: "(string \<rightharpoonup> string) \<Rightarrow> json \<Rightarrow> json" where
  "on_string r v = (case v of JString i \<Rightarrow> JString (replaced r i) | _ \<Rightarrow> v)"

definition on_file :: "(string \<rightharpoonup> string) \<Rightarrow> json \<Rightarrow> json" where
  "on_file r v = (case v of JObject f \<Rightarrow> JObject (replace_at r ''id'' f) | _ \<Rightarrow> v)"

lemma set_key_keys:
  "distinct (map fst m) \<Longrightarrow> distinct (map fst (set_key k v m)) \<and> fst ` set (set_key k v m) = insert k (fst ` set m)"
  by (auto simp: set_key_def distinct_map_filter image_iff)

lemma at_key_Some: "at_key m k = v \<Longrightarrow> v \<noteq> JNull \<Longrightarrow> map_of m k = Some v"
  by (auto simp: at_key_def split: option.splits)

lemma at_key_in: "at_key m k = v \<Longrightarrow> v \<noteq> JNull \<Longrightarrow> k \<in> fst ` set m"
  by (drule (1) at_key_Some, drule map_of_SomeD) force

lemma replace_at_keys:
  assumes "distinct (map fst m)"
  shows "distinct (map fst (replace_at r key m)) \<and> fst ` set (replace_at r key m) = fst ` set m"
proof (cases "\<exists>i. at_key m key = JString i \<and> r i \<noteq> None")
  case True
  then obtain i where "at_key m key = JString i" "r i \<noteq> None" by blast
  with assms set_key_keys[OF assms, of key] at_key_in[of m key] show ?thesis
    by (auto simp: replace_at_def insert_absorb)
next
  case False
  then have "replace_at r key m = m" by (auto simp: replace_at_def split: json.splits)
  with assms show ?thesis by simp
qed

lemma map_of_replace_at: "map_of (replace_at r key m) k = (if k = key then map_option (on_string r) (map_of m k) else map_of m k)"
  by (auto simp: replace_at_def at_key_def on_string_def replaced_def split: json.splits option.splits)

lemma replace_attrs_keys:
  assumes "distinct (map fst m)"
  shows "distinct (map fst (replace_attrs r m)) \<and> fst ` set (replace_attrs r m) = fst ` set m"
proof -
  let ?m = "replace_at r ''fileId'' m"
  have m: "distinct (map fst ?m)" "fst ` set ?m = fst ` set m" using replace_at_keys[OF assms] by auto
  show ?thesis
  proof (cases "\<exists>f. at_key ?m ''file'' = JObject f")
    case True
    then obtain f where f: "at_key ?m ''file'' = JObject f" by blast
    then have "''file'' \<in> fst ` set ?m" by (rule at_key_in) simp
    with f m set_key_keys[OF m(1), of "''file''"] show ?thesis by (simp add: replace_attrs_def insert_absorb)
  next
    case False
    then have "replace_attrs r m = ?m" by (auto simp: replace_attrs_def Let_def split: json.splits)
    with m show ?thesis by simp
  qed
qed

lemma map_of_replace_attrs:
  "map_of (replace_attrs r m) ''fileId'' = map_option (on_string r) (map_of m ''fileId'')"
  "map_of (replace_attrs r m) ''file'' = map_option (on_file r) (map_of m ''file'')"
  by (auto simp: replace_attrs_def Let_def map_of_replace_at at_key_def on_file_def split: json.splits option.splits)

lemma sorted_keys:
  "distinct (map fst m) \<Longrightarrow> distinct (map fst (sort_key fst (map (\<lambda>(k, v). (k, sorted_fields v)) m))) \<and>
     fst ` set (sort_key fst (map (\<lambda>(k, v). (k, sorted_fields v)) m)) = fst ` set m"
proof -
  assume m: "distinct (map fst m)"
  have "map fst (map (\<lambda>(k, v). (k, sorted_fields v)) m) = map fst m" by auto
  with m have "distinct (map fst (map (\<lambda>(k, v). (k, sorted_fields v)) m))" by (simp only:)
  then have "distinct (map fst (sort_key fst (map (\<lambda>(k, v). (k, sorted_fields v)) m)))"
    by (metis mset_eq_imp_distinct_iff mset_map mset_sort)
  then show ?thesis by (force simp: image_iff)
qed

text \<open>What the document becomes: read, replaced, marshalled.\<close>

definition rewritten :: "(string \<rightharpoonup> string) \<Rightarrow> json \<Rightarrow> json" where
  "rewritten r w = sorted_fields (replaceFileIDsInNode r w)"

definition good_replacements :: "(string \<rightharpoonup> string) \<Rightarrow> bool" where
  "good_replacements r \<longleftrightarrow> r '''' = None \<and> (\<forall>i j. r i = Some j \<longrightarrow> TrimSpace j = j \<and> j \<noteq> '''')"

lemma ids_at_replaced:
  assumes "trimmed_at fs k" "good_replacements r" "map_of gs k = map_option (\<lambda>v. sorted_fields (on_string r v)) (Option.bind (map_of fs k) (read_any lib))"
  shows "trimmed_at gs k \<and> set (ids_at gs k) = replaced r ` set (ids_at fs k)"
proof (cases "map_of fs k")
  case None
  with assms(3) show ?thesis by (simp add: trimmed_at_def ids_at_def)
next
  case (Some v)
  then obtain i where i: "v = JString i" "TrimSpace i = i" using assms(1) by (auto simp: trimmed_at_def)
  with Some assms(3) have gs: "map_of gs k = Some (JString (replaced r i))" by (simp add: on_string_def)
  have "TrimSpace (replaced r i) = replaced r i" "replaced r i = '''' \<longleftrightarrow> i = ''''"
    using assms(2) i(2) by (auto simp: replaced_def good_replacements_def split: option.splits)
  with gs Some i show ?thesis by (cases "i = ''''") (simp_all add: trimmed_at_def ids_at_def trimmed_id_def)
qed

lemma exact_keys_cong: "exact_keys lib names fs \<Longrightarrow> distinct (map fst gs) \<Longrightarrow> fst ` set gs = fst ` set fs \<Longrightarrow> exact_keys lib names gs"
  by (simp add: exact_keys_def)

lemma attrs_replaced:
  assumes plain: "plain_attrs lib attrs" and r: "good_replacements r" and m: "read_any lib (JObject attrs) = Some (JObject m)"
  defines "gs \<equiv> sort_key fst (map (\<lambda>(k, v). (k, sorted_fields v)) (replace_attrs r m))"
  shows "set (attrs_files lib (Some (JObject gs))) = replaced r ` set (attrs_files lib (Some (JObject attrs)))"
proof -
  have exact: "exact_keys lib [''fileId'', ''file''] attrs" "trimmed_at attrs ''fileId''" using plain by (auto simp: plain_attrs_def)
  have keys: "distinct (map fst m)" "fst ` set m = fst ` set attrs" and map: "\<And>k. map_of m k = Option.bind (map_of attrs k) (read_any lib)"
    using exact(1) by (auto simp: exact_keys_def intro: read_object[OF m])
  have gs: "distinct (map fst gs)" "fst ` set gs = fst ` set attrs"
    using sorted_keys[of "replace_attrs r m"] replace_attrs_keys[OF keys(1), of r] keys(2) unfolding gs_def by auto
  have file_id: "trimmed_at gs ''fileId'' \<and> set (ids_at gs ''fileId'') = replaced r ` set (ids_at attrs ''fileId'')"
    using exact(2) r by (rule ids_at_replaced)
      (simp add: gs_def map_of_sorted_fields map_of_replace_attrs map option.map_comp comp_def)
  have file_obj: "(\<forall>v. map_of gs ''file'' = Some v \<longrightarrow> (\<exists>f. v = JObject f \<and> exact_keys lib [''id''] f \<and> trimmed_at f ''id'')) \<and>
     set (case map_of gs ''file'' of Some (JObject f) \<Rightarrow> ids_at f ''id'' | _ \<Rightarrow> []) =
     replaced r ` set (case map_of attrs ''file'' of Some (JObject f) \<Rightarrow> ids_at f ''id'' | _ \<Rightarrow> [])"
  proof (cases "map_of attrs ''file''")
    case None
    then show ?thesis by (simp add: gs_def map_of_sorted_fields map_of_replace_attrs map)
  next
    case (Some v)
    then obtain f where f: "v = JObject f" "exact_keys lib [''id''] f" "trimmed_at f ''id''" using plain by (auto simp: plain_attrs_def)
    have "read_any lib v \<noteq> None" using exact(1) Some by (auto simp: exact_keys_def intro: read_object[OF m])
    then obtain q where q: "read_any lib (JObject f) = Some (JObject q)" using f(1) by auto
    have qk: "distinct (map fst q)" "fst ` set q = fst ` set f" and qm: "\<And>k. map_of q k = Option.bind (map_of f k) (read_any lib)"
      using f(2) by (auto simp: exact_keys_def intro: read_object[OF q])
    define h where "h = sort_key fst (map (\<lambda>(k, v). (k, sorted_fields v)) (replace_at r ''id'' q))"
    have h: "map_of gs ''file'' = Some (JObject h)"
      using Some f(1) q by (simp add: gs_def h_def map_of_sorted_fields map_of_replace_attrs map on_file_def del: read_any.simps)
    have "distinct (map fst h)" "fst ` set h = fst ` set f"
      using sorted_keys[of "replace_at r ''id'' q"] replace_at_keys[OF qk(1), of r "''id''"] qk(2) unfolding h_def by auto
    then have "exact_keys lib [''id''] h" by (rule exact_keys_cong[OF f(2)])
    moreover have "trimmed_at h ''id'' \<and> set (ids_at h ''id'') = replaced r ` set (ids_at f ''id'')"
      using f(3) r by (rule ids_at_replaced)
        (simp add: h_def map_of_sorted_fields map_of_replace_at qm option.map_comp comp_def)
    ultimately show ?thesis using h Some f(1) by simp
  qed
  have "plain_attrs lib gs"
    using exact_keys_cong[OF exact(1) gs] file_id file_obj by (simp add: plain_attrs_def)
  then show ?thesis
    using file_id file_obj by (simp add: file_values_exact[OF plain] file_values_exact ids_of_attrs_def image_Un)
qed

definition plain_node :: "rich_lib \<Rightarrow> json \<Rightarrow> bool" where
  "plain_node lib n \<longleftrightarrow>
     (\<forall>node. n = JObject node \<longrightarrow> distinct (map fst node) \<and>
        (\<forall>attrs. map_of node ''attrs'' = Some (JObject attrs) \<longrightarrow> plain_attrs lib attrs))"

lemma collectFileIDs_object:
  "distinct (map fst fs) \<Longrightarrow> collectFileIDs lib (JObject fs) =
     attrs_files lib (map_of fs ''attrs'') @
     (case map_of fs ''content'' of Some (JArray vs) \<Rightarrow> concat (map (collectFileIDs lib) vs) | _ \<Rightarrow> [])"
proof -
  assume fs: "distinct (map fst fs)"
  let ?ids = "map (\<lambda>(k, v). (k, case v of JArray vs \<Rightarrow> concat (map (collectFileIDs lib) vs) | _ \<Rightarrow> [])) fs"
  have "map fst ?ids = map fst fs" by auto
  with fs have "distinct (map fst ?ids)" by (simp only:)
  then show ?thesis
    by (auto simp: last_of_distinct fs map_of_mapped split: option.splits json.splits)
qed

definition on_attrs :: "(string \<rightharpoonup> string) \<Rightarrow> json \<Rightarrow> json" where
  "on_attrs r v = (case v of JObject attrs \<Rightarrow> JObject (replace_attrs r attrs) | _ \<Rightarrow> v)"

definition on_content :: "(string \<rightharpoonup> string) \<Rightarrow> json \<Rightarrow> json" where
  "on_content r v = (case v of JArray vs \<Rightarrow> JArray (map (replaceFileIDsInNode r) vs) | _ \<Rightarrow> v)"

lemma replaced_node:
  assumes "distinct (map fst m)"
  obtains g where "replaceFileIDsInNode r (JObject m) = JObject g" "distinct (map fst g)"
    "map_of g ''attrs'' = map_option (on_attrs r) (map_of m ''attrs'')"
    "map_of g ''content'' = map_option (on_content r) (map_of m ''content'')"
    "fst ` set g = fst ` set m" "map_of g ''type'' = map_of m ''type''"
proof -
  define m' where "m' = (case at_key m ''attrs'' of JObject attrs \<Rightarrow> set_key ''attrs'' (JObject (replace_attrs r attrs)) m | _ \<Rightarrow> m)"
  define g where "g = (case map_of m ''content'' of Some (JArray vs) \<Rightarrow> set_key ''content'' (JArray (map (replaceFileIDsInNode r) vs)) m' | _ \<Rightarrow> m')"
  have "replaceFileIDsInNode r (JObject m) = JObject g"
    by (auto simp: Let_def m'_def[symmetric] g_def map_of_mapped split: option.splits json.splits)
  moreover have m': "distinct (map fst m')" using assms set_key_keys[OF assms] by (auto simp: m'_def split: json.splits)
  moreover have "distinct (map fst g)" using m' set_key_keys[OF m'] by (auto simp: g_def split: option.splits json.splits)
  moreover have "map_of m' ''attrs'' = map_option (on_attrs r) (map_of m ''attrs'')" "map_of m' ''content'' = map_of m ''content''"
    by (auto simp: m'_def at_key_def on_attrs_def split: option.splits json.splits)
  then have "map_of g ''attrs'' = map_option (on_attrs r) (map_of m ''attrs'')"
    "map_of g ''content'' = map_option (on_content r) (map_of m ''content'')"
    by (auto simp: g_def on_content_def split: option.splits json.splits)
  moreover have "fst ` set m' = fst ` set m"
    using set_key_keys[OF assms, of "''attrs''"] at_key_in[of m "''attrs''"] by (auto simp: m'_def insert_absorb split: json.splits)
  moreover have "fst ` set g = fst ` set m'"
  proof (cases "\<exists>vs. map_of m ''content'' = Some (JArray vs)")
    case True
    then obtain vs where vs: "map_of m ''content'' = Some (JArray vs)" by blast
    then have "''content'' \<in> fst ` set m'"
      unfolding \<open>fst ` set m' = fst ` set m\<close> by (metis fst_conv image_eqI map_of_SomeD)
    with set_key_keys[OF m', of "''content''"] show ?thesis by (simp add: g_def vs insert_absorb)
  next
    case False
    then show ?thesis by (auto simp: g_def split: option.splits json.splits)
  qed
  moreover have "map_of g ''type'' = map_of m ''type''"
    by (auto simp: g_def m'_def split: option.splits json.splits)
  ultimately show thesis using that by simp
qed

lemma attrs_files_other: "(\<forall>attrs. v \<noteq> Some (JObject attrs)) \<Longrightarrow> attrs_files lib v = []"
  by (cases v) (auto simp: attrs_files_def file_values_def trimmed_id_def split: json.splits)

lemma not_object: "(\<forall>fs. v \<noteq> JObject fs) \<Longrightarrow> collectFileIDs lib v = []" "(\<forall>fs. v \<noteq> JObject fs) \<Longrightarrow> replaceFileIDsInNode r v = v"
  "sorted_fields v = JObject fs \<Longrightarrow> \<exists>gs. v = JObject gs" "read_any lib v = Some (JObject fs) \<Longrightarrow> \<exists>gs. v = JObject gs"
  by (cases v; auto)+

lemma not_array:
  "sorted_fields v = JArray vs \<Longrightarrow> \<exists>us. v = JArray us" "on_content r v = JArray vs \<Longrightarrow> \<exists>us. v = JArray us"
  "read_any lib v = Some (JArray vs) \<Longrightarrow> \<exists>us. v = JArray us"
  by (cases v; auto simp: on_content_def)+

lemma no_children: "(\<forall>vs. x \<noteq> Some (JArray vs)) \<Longrightarrow> (case x of Some (JArray vs) \<Rightarrow> f vs | _ \<Rightarrow> e) = e"
  by (auto split: option.splits json.splits)

lemma collect_replaced:
  assumes r: "good_replacements r"
  shows "(\<And>n. node_of n v \<Longrightarrow> plain_node lib n) \<Longrightarrow> read_any lib v = Some w \<Longrightarrow>
    set (collectFileIDs lib (rewritten r w)) = replaced r ` set (collectFileIDs lib v)"
proof (induction lib v arbitrary: w rule: collectFileIDs.induct)
  case (1 lib fs)
  have fs: "distinct (map fst fs)" "\<And>attrs. map_of fs ''attrs'' = Some (JObject attrs) \<Longrightarrow> plain_attrs lib attrs"
    using "1.prems"(1)[OF node_self] by (auto simp: plain_node_def)
  obtain m where m: "w = JObject m" "distinct (map fst m)" "\<And>k. map_of m k = Option.bind (map_of fs k) (read_any lib)"
    and some: "\<And>k v. map_of fs k = Some v \<Longrightarrow> read_any lib v \<noteq> None"
    by (rule read_object[OF "1.prems"(2) fs(1)]) blast
  obtain g where g: "replaceFileIDsInNode r (JObject m) = JObject g" "distinct (map fst g)"
    "map_of g ''attrs'' = map_option (on_attrs r) (map_of m ''attrs'')"
    "map_of g ''content'' = map_option (on_content r) (map_of m ''content'')"
    by (rule replaced_node[OF m(2)])
  define h where "h = sort_key fst (map (\<lambda>(k, v). (k, sorted_fields v)) g)"
  have h: "rewritten r w = JObject h" "distinct (map fst h)" "\<And>k. map_of h k = map_option sorted_fields (map_of g k)"
    using sorted_keys[OF g(2)] unfolding rewritten_def m(1) g(1) h_def by (simp_all add: map_of_sorted_fields)
  have attrs: "set (attrs_files lib (map_of h ''attrs'')) = replaced r ` set (attrs_files lib (map_of fs ''attrs''))"
  proof (cases "\<exists>attrs. map_of fs ''attrs'' = Some (JObject attrs)")
    case True
    then obtain attrs where a: "map_of fs ''attrs'' = Some (JObject attrs)" by blast
    then obtain q where q: "read_any lib (JObject attrs) = Some (JObject q)" using some[OF a] by auto
    from attrs_replaced[OF fs(2)[OF a] r q] show ?thesis
      using a q by (simp add: h(3) g(3) m(3) on_attrs_def del: read_any.simps)
  next
    case False
    then have "\<forall>attrs. map_of h ''attrs'' \<noteq> Some (JObject attrs)"
      by (auto simp: h(3) g(3) m(3) on_attrs_def bind_eq_Some_conv simp del: sorted_fields.simps split: json.splits dest!: not_object(3,4))
    with False show ?thesis by (simp add: attrs_files_other)
  qed
  have content: "set (case map_of h ''content'' of Some (JArray vs) \<Rightarrow> concat (map (collectFileIDs lib) vs) | _ \<Rightarrow> []) =
     replaced r ` set (case map_of fs ''content'' of Some (JArray vs) \<Rightarrow> concat (map (collectFileIDs lib) vs) | _ \<Rightarrow> [])"
  proof (cases "\<exists>vs. map_of fs ''content'' = Some (JArray vs)")
    case True
    then obtain vs where vs: "map_of fs ''content'' = Some (JArray vs)" by blast
    then obtain ws where ws: "list_all2 (\<lambda>x y. read_any lib x = Some y) vs ws" "read_any lib (JArray vs) = Some (JArray ws)"
      using some[OF vs] by (auto simp: all_some_Some list_all2_map1)
    have hs: "map_of h ''content'' = Some (JArray (map (rewritten r) ws))"
      by (simp add: h(3) g(4) m(3) vs ws(2) on_content_def rewritten_def del: read_any.simps)
    have "set (collectFileIDs lib (rewritten r y)) = replaced r ` set (collectFileIDs lib x)"
      if "x \<in> set vs" "read_any lib x = Some y" for x y
      using "1.IH"[OF map_of_SomeD[OF vs] refl refl that(1) _ that(2)] "1.prems"(1) node_child[OF vs that(1)] by blast
    with ws(1) have "list_all2 (\<lambda>x y. set (collectFileIDs lib (rewritten r y)) = replaced r ` set (collectFileIDs lib x)) vs ws"
      by (auto elim: list.rel_mono_strong)
    then have "(\<Union>y\<in>set ws. set (collectFileIDs lib (rewritten r y))) = replaced r ` (\<Union>x\<in>set vs. set (collectFileIDs lib x))"
      by (induction vs ws rule: list_all2_induct) (auto simp: image_Un)
    then show ?thesis by (simp add: hs vs)
  next
    case False
    then have "\<forall>vs. map_of h ''content'' \<noteq> Some (JArray vs)"
      by (auto simp: h(3) g(4) m(3) bind_eq_Some_conv simp del: sorted_fields.simps dest!: not_array)
    with False show ?thesis by (simp add: no_children)
  qed
  show ?case
    unfolding h(1) collectFileIDs_object[OF h(2)] collectFileIDs_object[OF fs(1)] set_append attrs content image_Un ..
qed (auto simp: rewritten_def)

text \<open>The root of a valid document has no attributes; its files are those of its children.\<close>

lemma document_files:
  assumes "distinct (map fst fs)" "fst ` set fs \<subseteq> {''type'', ''content''}" "map_of fs ''type'' = Some (JString ''doc'')"
    "map_of fs ''content'' = None \<or> (\<exists>vs. map_of fs ''content'' = Some (JArray vs))"
  shows "set (FileIDs lib (Some (JObject fs))) = set (collectFileIDs lib (JObject fs))"
proof -
  let ?upd = "\<lambda>n v (t, c). if n = ''type'' then map_option (\<lambda>t'. (t', c)) (set_string v t)
                 else (case v of JArray vs \<Rightarrow> Some (t, vs) | JNull \<Rightarrow> Some (t, []) | _ \<Rightarrow> None)"
  have "distinct (map fst gs) \<Longrightarrow> fst ` set gs \<subseteq> {''type'', ''content''} \<Longrightarrow>
      (map_of gs ''type'' = None \<or> map_of gs ''type'' = Some (JString ''doc'')) \<Longrightarrow>
      (map_of gs ''content'' = None \<or> (\<exists>vs. map_of gs ''content'' = Some (JArray vs))) \<Longrightarrow>
      set_struct (struct_field lib [''type'', ''content'']) ?upd gs (t, c) =
        Some (case map_of gs ''type'' of None \<Rightarrow> t | Some _ \<Rightarrow> ''doc'', case map_of gs ''content'' of Some (JArray vs) \<Rightarrow> vs | _ \<Rightarrow> c)" for gs t c
  proof (induction gs arbitrary: t c)
    case (Cons x gs)
    obtain k v where x: "x = (k, v)" by (cases x)
    have none: "map_of gs k = None" using Cons.prems(1) by (auto simp: x map_of_eq_None_iff)
    consider "k = ''type''" | "k = ''content''" using Cons.prems(2) by (auto simp: x)
    then show ?case
    proof cases
      case 1
      then have "v = JString ''doc''" using Cons.prems(3) by (simp add: x)
      then show ?thesis using Cons.IH[of "''doc''" c] Cons.prems 1 none
        by (simp add: x struct_field_def field_named_def set_string_def)
    next
      case 2
      then obtain vs where "v = JArray vs" using Cons.prems(4) by (auto simp: x)
      then show ?thesis using Cons.IH[of t vs] Cons.prems 2 none
        by (simp add: x struct_field_def field_named_def)
    qed
  qed simp
  from this[OF assms(1,2) disjI2[OF assms(3)] assms(4), of "''''" "[]"]
  have "document_content lib (Some (JObject fs)) = Some (case map_of fs ''content'' of Some (JArray vs) \<Rightarrow> vs | _ \<Rightarrow> [])"
    using assms(3) by (simp add: document_content_def)
  moreover have "map_of fs ''attrs'' = None" using assms(2) by (auto simp: map_of_eq_None_iff)
  then have "attrs_files lib (map_of fs ''attrs'') = []" by (simp add: attrs_files_other)
  ultimately show ?thesis
    using assms(4) by (auto simp: FileIDs_def collectFileIDs_object[OF assms(1)] simp del: collectFileIDs.simps)
qed

definition padded_example :: json where
  "padded_example = JObject [(''type'', JString ''doc''), (''content'', JArray [JObject [(''type'', JString ''file''),
     (''attrs'', JObject [(''fileId'', JString '' a'')])]])]"

text \<open>
  The whole effect on a document as it is read: a function applied to the text of every reference, the
  keys in order, and all other values as they were.
\<close>

definition map_id :: "(string \<Rightarrow> string) \<Rightarrow> json \<Rightarrow> json" where
  "map_id f v = (case v of JString s \<Rightarrow> JString (f s) | _ \<Rightarrow> v)"

definition map_fields :: "(string \<Rightarrow> json \<Rightarrow> json) \<Rightarrow> (string \<times> json) list \<Rightarrow> (string \<times> json) list" where
  "map_fields f fs = map (\<lambda>(k, v). (k, f k v)) fs"

definition map_file :: "(string \<Rightarrow> string) \<Rightarrow> json \<Rightarrow> json" where
  "map_file f v =
     (case v of JObject g \<Rightarrow> JObject (map_fields (\<lambda>k v. if k = ''id'' then map_id f v else v) g) | _ \<Rightarrow> v)"

definition map_attrs :: "(string \<Rightarrow> string) \<Rightarrow> json \<Rightarrow> json" where
  "map_attrs f v =
     (case v of
        JObject attrs \<Rightarrow> JObject (map_fields
          (\<lambda>k v. if k = ''fileId'' then map_id f v else if k = ''file'' then map_file f v else v) attrs)
      | _ \<Rightarrow> v)"

fun map_files :: "(string \<Rightarrow> string) \<Rightarrow> json \<Rightarrow> json" where
  "map_files f (JObject node) = JObject (map (\<lambda>(k, v). (k,
     if k = ''attrs'' then map_attrs f v
     else if k = ''content'' then (case v of JArray vs \<Rightarrow> JArray (map (map_files f) vs) | _ \<Rightarrow> v)
     else v)) node)"
| "map_files f v = v"

lemma same_sorted:
  assumes "distinct (map fst a)" "distinct (map fst b)" "\<And>k. map_of a k = map_of b k"
  shows "sort_key fst a = sort_key fst b"
proof -
  have "set a = set b" using assms by (metis map_of_inject_set map_of_eqI antisym ext)
  then have "mset a = mset b" using assms(1,2) by (metis distinct_map set_eq_iff_mset_eq_distinct)
  then have "mset a = mset (sort_key fst b)" by simp
  moreover have "inj_on fst (set a)" using assms(1) by (simp add: distinct_map)
  ultimately show ?thesis by (rule sort_key_inj_key_eq) simp
qed

lemma map_of_map_fields: "map_of (map_fields f fs) k = map_option (f k) (map_of fs k)"
  by (induction fs) (auto simp: map_fields_def)

text \<open>Two objects of the same keys, one sorted and changed key by key.\<close>

lemma sorted_changed:
  assumes "distinct (map fst g)" "distinct (map fst m)"
    and "\<And>k. map_option sorted_fields (map_of g k) = map_option (\<lambda>v. f k (sorted_fields v)) (map_of m k)"
  shows "sorted_fields (JObject g) = JObject (map_fields f (sort_key fst (map (\<lambda>(k, v). (k, sorted_fields v)) m)))"
proof -
  have keys: "map fst (map (\<lambda>(k, v). (k, h k v)) fs) = map fst fs" for h :: "string \<Rightarrow> json \<Rightarrow> json" and fs
    by auto
  have "sort_key fst (map (\<lambda>(k, v). (k, sorted_fields v)) g) = sort_key fst (map (\<lambda>(k, v). (k, f k (sorted_fields v))) m)"
  proof (rule same_sorted)
    show "map_of (map (\<lambda>(k, v). (k, sorted_fields v)) g) k = map_of (map (\<lambda>(k, v). (k, f k (sorted_fields v))) m) k" for k
      using assms(3)[of k] map_of_map_fields[of "\<lambda>k v. f k (sorted_fields v)" m k] by (simp add: map_of_mapped map_fields_def)
  qed (use assms(1,2) in \<open>simp_all only: keys\<close>)
  also have "\<dots> = map_fields f (sort_key fst (map (\<lambda>(k, v). (k, sorted_fields v)) m))"
    by (simp add: map_fields_def sort_key_map comp_def case_prod_unfold)
  finally show ?thesis by simp
qed

lemma sorted_on_string: "sorted_fields (on_string r v) = map_id (replaced r) (sorted_fields v)"
  by (cases v) (simp_all add: on_string_def map_id_def)

lemma sorted_on_file:
  assumes "unique_json v" shows "sorted_fields (on_file r v) = map_file (replaced r) (sorted_fields v)"
proof (cases v)
  case (JObject q)
  then have q: "distinct (map fst q)" using assms by simp
  have "sorted_fields (JObject (replace_at r ''id'' q)) = JObject (map_fields
      (\<lambda>k v. if k = ''id'' then map_id (replaced r) v else v) (sort_key fst (map (\<lambda>(k, v). (k, sorted_fields v)) q)))"
    using replace_at_keys[OF q, of r "''id''"] q
    by (intro sorted_changed) (auto simp: map_of_replace_at option.map_comp comp_def sorted_on_string)
  then show ?thesis by (simp add: JObject on_file_def map_file_def)
qed (simp_all add: on_file_def map_file_def)

lemma replace_attrs_other:
  "k \<noteq> ''fileId'' \<Longrightarrow> k \<noteq> ''file'' \<Longrightarrow> map_of (replace_attrs r m) k = map_of m k"
  by (auto simp: replace_attrs_def Let_def map_of_replace_at split: json.splits)

lemma unique_json_field: "unique_json (JObject fs) \<Longrightarrow> map_of fs k = Some v \<Longrightarrow> unique_json v"
  by (auto dest: map_of_SomeD)

lemma sorted_on_attrs:
  assumes "unique_json v" shows "sorted_fields (on_attrs r v) = map_attrs (replaced r) (sorted_fields v)"
proof (cases v)
  case (JObject a)
  then have a: "distinct (map fst a)" using assms by simp
  have "map_option sorted_fields (map_of (replace_attrs r a) k) = map_option (\<lambda>v. if k = ''fileId'' then map_id (replaced r) (sorted_fields v)
      else if k = ''file'' then map_file (replaced r) (sorted_fields v) else sorted_fields v) (map_of a k)" for k
    using assms[unfolded JObject, THEN unique_json_field, of k] replace_attrs_other[of k r a]
    by (cases "k = ''fileId''"; cases "k = ''file''"; cases "map_of a k")
      (simp_all add: map_of_replace_attrs sorted_on_string sorted_on_file)
  then have "sorted_fields (JObject (replace_attrs r a)) = JObject (map_fields
      (\<lambda>k v. if k = ''fileId'' then map_id (replaced r) v else if k = ''file'' then map_file (replaced r) v else v)
      (sort_key fst (map (\<lambda>(k, v). (k, sorted_fields v)) a)))"
    using replace_attrs_keys[OF a, of r] a by (intro sorted_changed) (auto cong: if_cong)
  then show ?thesis by (simp add: JObject on_attrs_def map_attrs_def)
qed (simp_all add: on_attrs_def map_attrs_def)

lemma replaced_other:
  "replaceFileIDsInNode r (JObject m) = JObject g \<Longrightarrow> k \<noteq> ''attrs'' \<Longrightarrow> k \<noteq> ''content'' \<Longrightarrow> map_of g k = map_of m k"
  by (auto simp: Let_def split: option.splits json.splits if_splits)

lemma rewritten_files: "unique_json u \<Longrightarrow> rewritten r u = map_files (replaced r) (sorted_fields u)"
proof (induction r u rule: replaceFileIDsInNode.induct)
  case (1 r m)
  then have m: "distinct (map fst m)" by simp
  obtain g where g: "replaceFileIDsInNode r (JObject m) = JObject g" "distinct (map fst g)"
    "map_of g ''attrs'' = map_option (on_attrs r) (map_of m ''attrs'')"
    "map_of g ''content'' = map_option (on_content r) (map_of m ''content'')"
    by (rule replaced_node[OF m])
  let ?f = "\<lambda>k v. if k = ''attrs'' then map_attrs (replaced r) v
     else if k = ''content'' then (case v of JArray vs \<Rightarrow> JArray (map (map_files (replaced r)) vs) | _ \<Rightarrow> v) else v"
  have content: "sorted_fields (on_content r v) = ?f ''content'' (sorted_fields v)" if "map_of m ''content'' = Some v" for v
  proof (cases v)
    case (JArray vs)
    have "sorted_fields (replaceFileIDsInNode r c) = map_files (replaced r) (sorted_fields c)" if "c \<in> set vs" for c
      using "1.IH"[OF refl map_of_SomeD[OF \<open>map_of m ''content'' = Some v\<close>] refl JArray that]
        unique_json_field[OF "1.prems" \<open>map_of m ''content'' = Some v\<close>] JArray that
      by (simp add: rewritten_def)
    then show ?thesis by (simp add: JArray on_content_def)
  qed (simp_all add: on_content_def)
  have "map_option sorted_fields (map_of g k) = map_option (\<lambda>v. ?f k (sorted_fields v)) (map_of m k)" for k
    using "1.prems"[THEN unique_json_field, of k] content replaced_other[OF g(1), of k]
    by (cases "k = ''attrs''"; cases "k = ''content''"; cases "map_of m k") (simp_all add: g(3,4) sorted_on_attrs)
  note changed = sorted_changed[OF g(2) m this]
  have "rewritten r (JObject m) = sorted_fields (JObject g)" by (simp only: rewritten_def g(1))
  also note changed
  also have "JObject (map_fields ?f (sort_key fst (map (\<lambda>(k, v). (k, sorted_fields v)) m))) =
      map_files (replaced r) (sorted_fields (JObject m))"
    by (simp add: map_fields_def)
  finally show ?case .
qed (simp_all add: rewritten_def)

lemma unique_set_keys:
  "\<forall>(k, x)\<in>set es. unique_json x \<Longrightarrow> distinct (map fst m) \<Longrightarrow> \<forall>(k, x)\<in>set m. unique_json x \<Longrightarrow>
     unique_json (JObject (fold (\<lambda>(k, v). set_key k v) es m))"
proof (induction es arbitrary: m)
  case (Cons e es)
  obtain k x where e: "e = (k, x)" by (cases e)
  have "unique_json x" using Cons.prems(1) by (simp add: e)
  then have vals: "\<forall>(k, x)\<in>set (set_key k x m). unique_json x" using Cons.prems(3) by (auto simp: set_key_def)
  have keys: "distinct (map fst (set_key k x m))" using Cons.prems(2) set_key_keys by simp
  have "unique_json (JObject (fold (\<lambda>(k, v). set_key k v) es (set_key k x m)))"
    by (rule Cons.IH[OF _ keys vals]) (use Cons.prems(1) in simp)
  then show ?case by (simp add: e)
qed auto

lemma read_any_unique: "read_any lib v = Some u \<Longrightarrow> unique_json u"
proof (induction lib v arbitrary: u rule: read_any.induct)
  case (2 lib vs)
  then obtain ws where "list_all2 (\<lambda>x y. read_any lib x = Some y) vs ws" "u = JArray ws"
    by (auto simp: all_some_Some list_all2_map1)
  moreover from this(1) have "list_all2 (\<lambda>_. unique_json) vs ws"
    by (rule list.rel_mono_strong) (rule "2.IH")
  then have "\<forall>w\<in>set ws. unique_json w" by (auto simp: list_all2_conv_all_nth in_set_conv_nth)
  ultimately show ?case by simp
next
  case (3 lib fs)
  obtain es where es: "list_all2 (\<lambda>x y. x = Some y) (map (\<lambda>(k, v). map_option (Pair k) (read_any lib v)) fs) es"
    and u: "u = JObject (fold (\<lambda>(k, v). set_key k v) es [])"
    using "3.prems" by (auto simp: all_some_Some)
  have "unique_json x" if kx: "(k, x) \<in> set es" for k x
  proof -
    obtain i where i: "i < length es" "es ! i = (k, x)" using kx by (auto simp: in_set_conv_nth)
    then have "(\<lambda>(k, v). map_option (Pair k) (read_any lib v)) (fs ! i) = Some (k, x)" "fs ! i \<in> set fs"
      using list_all2_nthD2[OF es i(1)] list_all2_lengthD[OF es] by auto
    then show ?thesis using "3.IH" by (cases "fs ! i") auto
  qed
  then have "unique_json (JObject (fold (\<lambda>(k, v). set_key k v) es []))" by (intro unique_set_keys) auto
  then show ?case by (simp add: u)
qed auto

lemma ReplaceFileIDs_files:
  assumes "ReplaceFileIDs lib (Some v) r = Inr w" "\<And>n. node_of n v \<Longrightarrow> plain_node lib n" "good_replacements r"
  shows "set (FileIDs lib (Some w)) = replaced r ` set (FileIDs lib (Some v))"
proof -
  obtain m where valid: "richtext_Validate lib (Some v) = None" and m: "read_any lib v = Some (JObject m)"
    and w: "w = rewritten r (JObject m)"
    using assms(1) by (auto simp: ReplaceFileIDs_def read_map_def rewritten_def split: option.splits json.splits)
  obtain fs where fs: "v = JObject fs" using valid by (auto simp: richtext_Validate_def split: json.splits)
  have distinct: "distinct (map fst fs)" using assms(2)[OF node_self] by (simp add: fs plain_node_def)
  have root: "fst ` set fs \<subseteq> {''type'', ''content''}" "map_of fs ''type'' = Some (JString ''doc'')"
    "map_of fs ''content'' = None \<or> (\<exists>vs. map_of fs ''content'' = Some (JArray vs))"
    using valid by (auto simp: fs richtext_Validate_def Let_def last_of_distinct[OF distinct] list_ex_iff string_value_def
        split: if_split_asm option.split_asm json.split_asm)
  obtain m' where m': "JObject m = JObject m'" "distinct (map fst m')" "fst ` set m' = fst ` set fs"
    "\<And>k. map_of m' k = Option.bind (map_of fs k) (read_any lib)" "\<And>k v. map_of fs k = Some v \<Longrightarrow> read_any lib v \<noteq> None"
    by (rule read_object[OF m[unfolded fs] distinct]) blast
  obtain g where g: "replaceFileIDsInNode r (JObject m) = JObject g" "distinct (map fst g)"
    "map_of g ''content'' = map_option (on_content r) (map_of m ''content'')" "fst ` set g = fst ` set m" "map_of g ''type'' = map_of m ''type''"
    using m' by (metis replaced_node json.inject(5))
  define h where "h = sort_key fst (map (\<lambda>(k, v). (k, sorted_fields v)) g)"
  have h: "w = JObject h" "distinct (map fst h)" "fst ` set h = fst ` set fs" "\<And>k. map_of h k = map_option sorted_fields (map_of g k)"
    using sorted_keys[OF g(2)] m' g(4) unfolding w rewritten_def g(1) h_def by (simp_all add: map_of_sorted_fields)
  have "map_of h ''type'' = Some (JString ''doc'')" using root(2) m' g(5) h(4) by simp
  moreover have "map_of h ''content'' = None \<or> (\<exists>vs. map_of h ''content'' = Some (JArray vs))"
    using root(3) m'(1,4) m'(5)[of "''content''"] g(3) h(4) by (auto simp: on_content_def)
  ultimately have "set (FileIDs lib (Some w)) = set (collectFileIDs lib w)"
    using document_files[OF h(2)] h(1,3) root(1) by simp
  moreover have "set (FileIDs lib (Some v)) = set (collectFileIDs lib v)"
    unfolding fs by (rule document_files[OF distinct root])
  ultimately show ?thesis
    using collect_replaced[OF assms(3,2) m] w by simp
qed

lemma padded_trim: "TrimSpace '' a'' = ''a''"
  by code_simp

lemmas struct_simps = struct_field_def field_named_def set_string_def

lemma padded_files:
  "FileIDs lib (Some padded_example) = [''a'']"
  "FileIDs lib (Some (sorted_fields padded_example)) = [''a'']"
  by (simp_all add: padded_example_def FileIDs_def document_content_def struct_simps last_of_def attrs_files_def file_values_def
      trimmed_id_def padded_trim)

lemma padded_replaced:
  "ReplaceFileIDs lib (Some padded_example) [''a'' \<mapsto> ''b''] = Inr (sorted_fields padded_example)"
  by (simp add: padded_example_def ReplaceFileIDs_def richtext_Validate_def Normalize_def read_map_def set_key_def at_key_def
      last_of_def string_value_def normalize_video_def try_bind_def replace_attrs_def replace_at_def)

text \<open>(C40) Replacing the files of a valid document replaces the text of its references and changes nothing
  else of the document as it is read, in whatever attribute, node or text. The files it refers to are
  then the replaced ones, as long as its references are trimmed and its keys spelled as they are.
  Otherwise a file may be listed and not be replaced: of a reference with a blank around it \<^verbatim>\<open>FileIDs\<close>
  reports the trimmed identifier, while \<^verbatim>\<open>ReplaceFileIDs\<close> looks the text up as it is.\<close>

theorem ReplaceFileIDs_renames:
  assumes "ReplaceFileIDs lib (Some v) r = Inr w"
  shows "(\<exists>u. read_any lib v = Some u \<and> w = map_files (replaced r) (sorted_fields u)) \<and>
    ((\<forall>n. node_of n v \<longrightarrow> plain_node lib n) \<and> good_replacements r \<longrightarrow>
       set (FileIDs lib (Some w)) = replaced r ` set (FileIDs lib (Some v))) \<and>
    (\<exists>w'. FileIDs lib (Some padded_example) = [''a''] \<and> ReplaceFileIDs lib (Some padded_example) [''a'' \<mapsto> ''b''] = Inr w' \<and>
       FileIDs lib (Some w') = [''a''])"
proof (intro conjI impI)
  obtain m where "richtext_Validate lib (Some v) = None" "read_any lib v = Some (JObject m)" "w = rewritten r (JObject m)"
    using assms by (auto simp: ReplaceFileIDs_def read_map_def rewritten_def split: option.splits json.splits)
  then show "\<exists>u. read_any lib v = Some u \<and> w = map_files (replaced r) (sorted_fields u)"
    using read_any_unique rewritten_files by blast
next
  assume "(\<forall>n. node_of n v \<longrightarrow> plain_node lib n) \<and> good_replacements r"
  with assms show "set (FileIDs lib (Some w)) = replaced r ` set (FileIDs lib (Some v))"
    by (intro ReplaceFileIDs_files) auto
next
  show "\<exists>w'. FileIDs lib (Some padded_example) = [''a''] \<and> ReplaceFileIDs lib (Some padded_example) [''a'' \<mapsto> ''b''] = Inr w' \<and>
       FileIDs lib (Some w') = [''a'']"
    using padded_files padded_replaced by blast
qed


definition files_example :: json where
  "files_example = JObject [(''type'', JString ''doc''), (''content'', JArray [JObject [(''type'', JString ''file''),
     (''attrs'', JObject [(''fileId'', JString ''a'')])]])]"

lemma files_example_nodes:
  "node_of n files_example \<Longrightarrow> plain_node rich_lib_example n"
proof -
  have trim: "TrimSpace ''a'' = ''a''" by code_simp
  have leaf: "m = JObject gs" if "node_of m (JObject gs)" "map_of gs ''content'' = None" for m gs
    using that by (cases rule: node_of.cases) auto
  assume "node_of n files_example"
  then consider "n = files_example" | "n = JObject [(''type'', JString ''file''), (''attrs'', JObject [(''fileId'', JString ''a'')])]"
    using leaf by (cases rule: node_of.cases) (auto simp: files_example_def)
  then show ?thesis
    by cases (simp_all add: files_example_def plain_node_def plain_attrs_def exact_keys_def trimmed_at_def trim)
qed

lemma files_example_values:
  "ReplaceFileIDs rich_lib_example (Some files_example) [''a'' \<mapsto> ''b''] = Inr
     (JObject [(''content'', JArray [JObject [(''attrs'', JObject [(''fileId'', JString ''b'')]), (''type'', JString ''file'')]]),
       (''type'', JString ''doc'')])"
  "FileIDs rich_lib_example (Some files_example) = [''a'']"
proof -
  have trim: "TrimSpace ''a'' = ''a''" by code_simp
  show "ReplaceFileIDs rich_lib_example (Some files_example) [''a'' \<mapsto> ''b''] = Inr
     (JObject [(''content'', JArray [JObject [(''attrs'', JObject [(''fileId'', JString ''b'')]), (''type'', JString ''file'')]]),
       (''type'', JString ''doc'')])"
    by (simp add: files_example_def ReplaceFileIDs_def richtext_Validate_def Normalize_def read_map_def set_key_def at_key_def
      last_of_def string_value_def normalize_video_def try_bind_def replace_attrs_def replace_at_def replaced_def)
  show "FileIDs rich_lib_example (Some files_example) = [''a'']"
    by (simp add: files_example_def FileIDs_def document_content_def struct_simps last_of_def attrs_files_def file_values_def
      trimmed_id_def trim)
qed

theorem ReplaceFileIDs_renames_witness:
  "\<exists>w. ReplaceFileIDs rich_lib_example (Some files_example) [''a'' \<mapsto> ''b''] = Inr w \<and> set (FileIDs rich_lib_example (Some w)) = {''b''}"
proof -
  have trim: "TrimSpace ''b'' = ''b''" by code_simp
  have "good_replacements [''a'' \<mapsto> ''b'']" by (simp add: good_replacements_def trim)
  then show ?thesis
    using ReplaceFileIDs_renames[OF files_example_values(1)] files_example_nodes files_example_values
    by (auto simp: replaced_def)
qed

end
