(* ===== verification/Spec2Isabelle.thy ===== *)
theory Spec2Isabelle
  imports Prelude Course Enrollment Restriction Course_Publication Links Campaign Personal_Access
    External_Session External_Verification External_Learner Course_Copy Template_Instantiation Authorization
    Preview KB_Reuse Org_Forest Distribution Schedule_Availability Recurrence Task_Board KB_Access Campaign_Store
    Control_Publication Control_Canonical Control_Assertion Control_Capture Amo_Auth Rate_Limit Rich_Text_Files
begin

section \<open>The core logic of team-os-backend\<close>

text \<open>
  This development models the core logic of \<^verbatim>\<open>team-os-backend\<close>, the Go services behind a product for
  small companies: courses and learners (\<^verbatim>\<open>services/academy\<close>), the organisation, work schedules, the
  distribution of deals and the control of CRM tasks (\<^verbatim>\<open>services/company\<close>), task boards
  (\<^verbatim>\<open>services/tasks\<close>) and the knowledge base (\<^verbatim>\<open>services/kb\<close>), behind a gateway (\<^verbatim>\<open>services/gateway\<close>). Each service has the same layers:
  \<^verbatim>\<open>internal/domain\<close> holds aggregates and rules as plain Go without input or output,
  \<^verbatim>\<open>internal/application\<close> runs one transaction per request around them, \<^verbatim>\<open>internal/storage/db\<close> holds the
  queries, and \<^verbatim>\<open>internal/transport\<close> with the gateway translates messages. The model covers the domain
  packages, two application files with the queries they run, the gateway's limit on requests and the
  rich text package the services share.

  \<^bold>\<open>Reading the model.\<close> \<open>Prelude\<close> says how Go is read: strings are byte lists, pointers and slices that may be
  nil are options, an error is a value of a datatype per component, \<^verbatim>\<open>time.Time\<close> is nanoseconds
  since the zero time, \<^verbatim>\<open>int64\<close> and \<^verbatim>\<open>int32\<close> results are wrapped by \<open>wrap64\<close> and \<open>wrap32\<close> where they can leave
  their range. A struct is a record whose fields carry a short prefix, a string enumeration with a
  closed set of constants is a datatype with one more constructor for every other text, a method with
  a pointer receiver returns the receiver as it leaves it, also when it fails. Definitions have the
  name of the function they translate, with the type as a prefix where two packages share a name.
  Aggregates driven by commands are instances of the locales of \<open>Prelude\<close>: \<open>aggregate\<close> (commands keep the
  invariant), \<open>pinned_aggregate\<close> (a part never changes), \<open>terminal_aggregate\<close> (a state is never left),
  \<open>growing_aggregate\<close> (a preorder only goes up) and \<open>clocked_aggregate\<close> (the time of the last change never goes
  back); the lemmas about runs of commands are proved there once, and each component interprets them.

  \<^bold>\<open>Courses\<close> (\<^verbatim>\<open>services/academy/internal/domain\<close>).
  \<^item> \<open>Course\<close>: \<^verbatim>\<open>course/course.go\<close>, \<^verbatim>\<open>lifecycle.go\<close>. The commands realise the lifecycle diagram and keep a
    course valid.
  \<^item> \<open>Course_Version\<close>, \<open>Course_Publication\<close>: \<^verbatim>\<open>courseversion/*.go\<close>. What may be published, that publishing
    freezes definition and hash, how drafts are numbered.
  \<^item> \<open>Restriction\<close>: \<^verbatim>\<open>restriction/restriction.go\<close>. The history of pauses and blocks only grows; at most one of
    each is active.
  \<^item> \<open>Template\<close>, \<open>Template_Instantiation\<close>, \<open>Course_Copy\<close> over \<open>Remap\<close>: \<^verbatim>\<open>template/*.go\<close>, \<^verbatim>\<open>coursecopy/copy.go\<close>.
    A copy is the source under an injective renaming of all its identifiers into fresh ones; what
    publication leaves of a template can be instantiated. The history of a template, which the requests
    of \<^verbatim>\<open>templates.go\<close> write by SQL statements of their own, is not modelled.
  \<^item> \<open>KB_Reuse\<close>, \<open>Preview\<close>, \<open>Authorization\<close>: \<^verbatim>\<open>kbreuse\<close>, \<^verbatim>\<open>preview\<close>, \<^verbatim>\<open>authorization/policy.go\<close>.

  \<^bold>\<open>Learning\<close> (\<^verbatim>\<open>enrollment/*.go\<close>). \<open>Enrollment_Model\<close> holds the definitions; \<open>Enrollment_Valid\<close> proves the
  validation loops equivalent to a declarative invariant; \<open>Enrollment_Progress\<close> and \<open>Enrollment_Lessons\<close> say what
  each change of a lesson or attempt keeps; \<open>Enrollment_Machine\<close> and \<open>Enrollment_Run\<close> make the methods
  the commands of one machine under a clock that does not go back; \<open>Enrollment\<close> states the results:
  a snapshot that commands in the order of their times leave is loaded back, but for two commands the
  code accepts and then cannot load (\<^verbatim>\<open>ReactivateFrozen\<close> of an internal or never activated run, a counter of
  seconds beyond \<^verbatim>\<open>int64\<close>); on the other runs progress is never lost, lessons of a sequential course are
  done in order, access follows the state diagram.

  \<^bold>\<open>External learners\<close>. \<open>Links\<close> is the contract of a link guarded by a token; \<open>Campaign\<close>, \<open>Personal_Access\<close>,
  \<open>External_Session\<close>, \<open>External_Verification\<close> and \<open>External_Learner\<close> are the packages \<^verbatim>\<open>externalcampaign\<close>,
  \<^verbatim>\<open>personalaccess\<close>, \<^verbatim>\<open>externalsession\<close>, \<^verbatim>\<open>externalverification\<close> and \<^verbatim>\<open>externallearner\<close>.

  \<^bold>\<open>Requests on campaigns\<close>. \<open>Token_Mutation\<close> is \<^verbatim>\<open>application/external_token_idempotency.go\<close>: the token of a link
  is derived from the idempotency key, and a repeated request is answered from the stored response.
  \<open>Campaign_Service\<close> is \<^verbatim>\<open>application/campaigns.go\<close> over the rows of \<^verbatim>\<open>storage/db/external_campaigns.sql.go\<close>; the
  aggregate's change and the SQL update repeat each other there. \<open>Campaign_Requests\<close> is the abstract
  table and the refinement; \<open>Campaign_Store\<close> states that requests keep the store well-formed, need the
  right of the actor, replay to one campaign, and issue tokens the aggregate accepts.

  \<^bold>\<open>Company\<close> (\<^verbatim>\<open>services/company/internal/domain\<close>). \<open>Org_Tree\<close>, \<open>Org_Forest\<close>: \<^verbatim>\<open>org/*.go\<close>, the department tree
  and its moves. \<open>Distribution\<close>: \<^verbatim>\<open>distribution/pick.go\<close>, with the step the service makes around it.
  \<open>Schedule_Calendar\<close>, \<open>Schedule_Availability\<close>: \<^verbatim>\<open>schedule/*.go\<close>.

  \<^bold>\<open>Task control\<close> (\<^verbatim>\<open>services/company/internal/domain/taskcontrol\<close>), rules about which tasks a CRM user must
  close, published to a widget:
  \<^item> \<open>Strconv\<close>, \<open>Base64\<close>: what the packages use of Go's library on text, decimal \<^verbatim>\<open>int64\<close> values and
    \<^verbatim>\<open>base64.RawURLEncoding\<close> among it;
  \<^item> \<open>Control_Rules\<close>, \<open>Control_Json\<close>, \<open>Control_Checksum\<close>: \<^verbatim>\<open>rules.go\<close>, \<^verbatim>\<open>access.go\<close> and the canonical JSON of
    \<^verbatim>\<open>references_revision.go\<close>; two valid rule lists have one checksum text exactly when they mean the same;
  \<^item> \<open>Control_Intent\<close>, \<open>Control_Codec\<close>, \<open>Control_Canonical\<close>: \<^verbatim>\<open>intent.go\<close>, the intents, their JSON methods, which
    read back what they write if it has no more than 1 MiB, and their checksum;
  \<^item> \<open>Control_Reference\<close>: \<^verbatim>\<open>references.go\<close>, \<^verbatim>\<open>reference_rules.go\<close>, the directory of the CRM account;
  \<^item> \<open>Control_Resolver\<close>, \<open>Control_Resolution\<close>, \<open>Control_Publication\<close>: \<^verbatim>\<open>resolver.go\<close>, from intents to executable
    rules: the users are exactly the linked active employees of the audience, a publication has every
    enabled explicit rule and no enabled rule that names what is not there, an actor sees only his own
    rules;
  \<^item> \<open>Control_Import\<close>, \<open>Control_Reading\<close>, \<open>Control_Capture\<close>: \<^verbatim>\<open>import.go\<close>, the rules a capture of the CRM holds, in
    its catalog and in the configuration its widget published; an accepted import is complete, and two
    sources without a discrepancy agree. \<open>Json_Inverse\<close> shows that a JSON text determines its value, so that
    equal checksums mean equal rules but for a collision of the two texts;
  \<^item> \<open>Control_Assertion\<close>: \<^verbatim>\<open>model.go\<close>, the signed assertion of the core service.

  \<open>Amo_Auth\<close> is \<^verbatim>\<open>services/company/internal/domain/amoauth/verifier.go\<close>, the token of the CRM a user signs in
  with: the verifier accepts exactly the tokens signed for this integration that live no longer than
  allowed, and answers the account and the user of their claims.

  \<^bold>\<open>Tasks and knowledge base.\<close> \<open>Task_Board\<close>: \<^verbatim>\<open>board/board.go\<close>; \<open>Recurrence\<close>: \<^verbatim>\<open>recurrence/recurrence.go\<close>;
  \<open>KB_Access\<close>: \<^verbatim>\<open>access/access.go\<close>.

  \<^bold>\<open>Gateway and shared packages.\<close> \<open>Rate_Limit\<close>: \<^verbatim>\<open>services/gateway/internal/ratelimit/middleware.go\<close>, how many
  requests of one key pass and that the key cannot be forged with the forwarding header. \<open>Rich_Text\<close>,
  \<open>Rich_Text_Videos\<close>, \<open>Rich_Text_Files\<close>: \<^verbatim>\<open>pkg/richtext/richtext.go\<close>, documents of articles and lessons, the
  videos they may embed, and that replacing the files they refer to changes nothing else.

  \<^bold>\<open>Loops and bounds.\<close> Most loops run over slices and are structural. The search of \<open>GetDescendantIDs\<close> and the
  walk of \<open>EffectiveAccess\<close> terminate by a measure, the identifiers not yet visited. \<open>sortDepartmentBranch\<close>
  takes a depth; \<open>BuildDepartmentTree\<close> passes the number of identifiers, which is never used up, on
  cyclic input too. \<open>weekly_search\<close> makes the 366 times interval rounds of the source, the search for
  availability the days of its horizon. \<open>reaches\<close>, the walk to the ancestors of a department, is
  unbounded in the source and a partial function here, with \<open>None\<close> for a walk that does not end;
  \<open>ResolveIntentRules_terminates\<close> shows that the check for cycles before it excludes that.

  \<^bold>\<open>Parameters.\<close> Code outside the repository is an argument: HMAC, SHA-256, Ed25519, \<^verbatim>\<open>mail.ParseAddress\<close>,
  \<^verbatim>\<open>strings.ToLower\<close>, \<^verbatim>\<open>uuid.Parse\<close>, the offsets of a time zone, the reading of JSON text into a value,
  the iteration order of a map, the parsing of URLs and network addresses, and generators of identifiers;
  the course packages take the validator of rich text as an argument, as the code does. The limit on
  requests is proved for calls that take the mutex in the order they read the clock.
  Where a property needs something of them, its hypothesis says so, and a witness shows an instance.

  \<^bold>\<open>Not modelled.\<close> The rest of the gateway and the gRPC servers translate messages field by field
  (\<^verbatim>\<open>services/gateway/internal/api\<close> is generated). The files under \<^verbatim>\<open>storage/db\<close> are generated from SQL; the
  model has the queries of the campaign requests. The application files besides \<^verbatim>\<open>campaigns.go\<close> and
  \<^verbatim>\<open>external_token_idempotency.go\<close> load rows, call the domain operations modelled here and store the
  result; most of their text is mapping, and their concurrency is that of PostgreSQL. Outbox relays,
  consumers, mailers, seeds and configuration are input and output. \<^verbatim>\<open>ShiftHours\<close> computes a
  floating-point figure for display and \<^verbatim>\<open>BuildBoardColumns\<close> is not used.
\<close>

end
